(* ===== verification/Prelude.thy ===== *)
theory Prelude
  imports Main "HOL-Library.Word"
begin

text \<open>
  Shared vocabulary of the development: machine integers and their little-endian byte
  strings, Rust results with panics, the cursor readers every wire parser is built from,
  UTF-8, and the text functions of the standard library that the driver calls
  (\<open>split\<close>, integer \<open>parse\<close>, decimal formatting).

  Conventions. A \<open>u8\<close> is an \<^typ>\<open>8 word\<close>; \<open>u32\<close>, \<open>i32\<close>, \<open>u64\<close> and \<open>i64\<close> are
  words of their width, read with \<open>unat\<close> or \<open>sint\<close>. A \<open>usize\<close> is a \<^typ>\<open>nat\<close> below
  \<open>2 ^ 64\<close>: the driver's targets are 64 bit. A Rust \<open>String\<close> is a \<^typ>\<open>string\<close>, one
  \<^typ>\<open>char\<close> per UTF-8 byte. The collections are \<open>res_simps\<close> (the result monad),
  \<open>wire_simps\<close> (byte strings) and \<open>progress_intros\<close> (readers that consume input).
\<close>

named_theorems res_simps \<open>rewriting of results and binds\<close>
named_theorems wire_simps \<open>byte strings of machine integers\<close>
named_theorems progress_intros \<open>readers that consume input and stay inside the buffer\<close>

subsection \<open>Types of the model\<close>

type_synonym byte = "8 word"
type_synonym u16 = "16 word"
type_synonym u32 = "32 word"
type_synonym u64 = "64 word"
type_synonym i8 = "8 word"
type_synonym i16 = "16 word"
type_synonym i32 = "32 word"
type_synonym i64 = "64 word"
type_synonym i128 = "128 word"

subsection \<open>Results and panics\<close>

text \<open>
  A Rust function that returns \<open>Result<T, E>\<close> and may panic is a value of
  \<open>'e fault + 'a\<close>. \<open>Panic\<close> covers an arithmetic overflow under overflow checks, an
  out-of-range slice and a capacity overflow. \<open>Diverged\<close> marks a run that used up its
  fuel; a theorem about such a run says how much fuel is enough.
\<close>

datatype 'e fault = Failure 'e | Panic | Diverged

type_synonym ('e, 'a) result = "'e fault + 'a"

abbreviation fail :: "'e \<Rightarrow> ('e, 'a) result" where
  "fail e \<equiv> Inl (Failure e)"

fun rbind :: "'x + 'a \<Rightarrow> ('a \<Rightarrow> 'x + 'b) \<Rightarrow> 'x + 'b" where
  "rbind (Inl e) f = Inl e"
| "rbind (Inr x) f = f x"

lemma rbind_cong [fundef_cong]:
  "m = m' \<Longrightarrow> (\<And>x. m' = Inr x \<Longrightarrow> f x = f' x) \<Longrightarrow> rbind m f = rbind m' f'"
  by (cases m') simp_all

lemma rbind_Inr_iff [res_simps]:
  "rbind m f = Inr y \<longleftrightarrow> (\<exists>x. m = Inr x \<and> f x = Inr y)"
  by (cases m) auto

lemma rbind_Inl_iff:
  "rbind m f = Inl e \<longleftrightarrow> m = Inl e \<or> (\<exists>x. m = Inr x \<and> f x = Inl e)"
  by (cases m) auto

lemma rbind_assoc: "rbind (rbind m f) g = rbind m (\<lambda>x. rbind (f x) g)"
  by (cases m) simp_all

lemma rbind_Inr_right [simp]: "rbind m Inr = m"
  by (cases m) simp_all

subsection \<open>Cursor readers\<close>

text \<open>
  Every wire function of the driver takes the buffer and \<open>offset: &mut usize\<close>. The model
  is a function of the offset that returns the value and the new offset; the offset of a
  failed read is not observable, because every caller returns at once.
\<close>

type_synonym ('e, 'a) reader = "nat \<Rightarrow> ('e, 'a \<times> nat) result"

definition pbind :: "('e, 'a) reader \<Rightarrow> ('a \<Rightarrow> ('e, 'b) reader) \<Rightarrow> ('e, 'b) reader" where
  "pbind p f off = rbind (p off) (\<lambda>(x, off'). f x off')"

definition preturn :: "'a \<Rightarrow> ('e, 'a) reader" where
  "preturn x off = Inr (x, off)"

definition pfail :: "'e \<Rightarrow> ('e, 'a) reader" where
  "pfail e off = fail e"

lemma pbind_Inr_iff [res_simps]:
  "pbind p f off = Inr (y, off'') \<longleftrightarrow>
    (\<exists>x off'. p off = Inr (x, off') \<and> f x off' = Inr (y, off''))"
  by (simp add: pbind_def rbind_Inr_iff split_paired_Ex)

lemma preturn_Inr_iff [res_simps]: "preturn x off = Inr (y, off') \<longleftrightarrow> y = x \<and> off' = off"
  by (auto simp: preturn_def)

lemma pfail_Inr_iff [res_simps]: "pfail e off \<noteq> Inr r"
  by (simp add: pfail_def)

lemma pbind_step [simp]: "p off = Inr (x, off') \<Longrightarrow> pbind p f off = f x off'"
  by (simp add: pbind_def)

lemma pbind_fault [simp]: "p off = Inl e \<Longrightarrow> pbind p f off = Inl e"
  by (simp add: pbind_def)

lemma pbind_preturn [simp]: "pbind (preturn x) f = f x"
  by (simp add: pbind_def preturn_def fun_eq_iff)

lemma pbind_assoc: "pbind (pbind p f) g = pbind p (\<lambda>x. pbind (f x) g)"
  by (auto simp: pbind_def fun_eq_iff rbind_assoc intro!: rbind_cong)

text \<open>The Rust loop \<open>for _ in 0..n { v.push(read(data, offset)?) }\<close>.\<close>

fun prepeat :: "nat \<Rightarrow> ('e, 'a) reader \<Rightarrow> ('e, 'a list) reader" where
  "prepeat 0 p = preturn []"
| "prepeat (Suc n) p = pbind p (\<lambda>x. pbind (prepeat n p) (\<lambda>xs. preturn (x # xs)))"

lemma prepeat_length: "prepeat n p off = Inr (xs, off') \<Longrightarrow> length xs = n"
  by (induction n arbitrary: off xs) (auto simp: res_simps)

subsection \<open>The contract of a reader\<close>

text \<open>
  \<open>advances w d p\<close>: from an offset inside the buffer \<open>d\<close>, a successful read moves the
  offset forward by at least \<open>w\<close> bytes and leaves it inside the buffer.
\<close>

definition advances :: "nat \<Rightarrow> 'b list \<Rightarrow> ('e, 'a) reader \<Rightarrow> bool" where
  "advances w d p \<longleftrightarrow>
    (\<forall>off x off'. off \<le> length d \<longrightarrow> p off = Inr (x, off') \<longrightarrow>
      off + w \<le> off' \<and> off' \<le> length d)"

lemma advancesI:
  "(\<And>off x off'. off \<le> length d \<Longrightarrow> p off = Inr (x, off') \<Longrightarrow>
     off + w \<le> off' \<and> off' \<le> length d) \<Longrightarrow> advances w d p"
  unfolding advances_def by blast

lemma advancesD:
  "advances w d p \<Longrightarrow> off \<le> length d \<Longrightarrow> p off = Inr (x, off') \<Longrightarrow>
     off + w \<le> off' \<and> off' \<le> length d"
  unfolding advances_def by blast

lemma advances_mono: "advances w d p \<Longrightarrow> v \<le> w \<Longrightarrow> advances v d p"
  unfolding advances_def by (meson add_left_mono order_trans)

lemma advances_preturn [progress_intros]: "advances 0 d (preturn x)"
  by (rule advancesI) (simp add: res_simps)

lemma advances_pfail [progress_intros]: "advances w d (pfail e)"
  by (rule advancesI) (simp add: res_simps)

lemma advances_pbind:
  assumes "advances v d p" and "\<And>x. advances w d (f x)"
  shows "advances (v + w) d (pbind p f)"
proof (rule advancesI)
  fix off y off'' assume off: "off \<le> length d" and run: "pbind p f off = Inr (y, off'')"
  from run obtain x off' where p: "p off = Inr (x, off')" and f: "f x off' = Inr (y, off'')"
    by (auto simp: res_simps)
  from advancesD [OF assms(1) off p] have o': "off + v \<le> off'" "off' \<le> length d" by auto
  from advancesD [OF assms(2) o'(2) f] o'(1)
  show "off + (v + w) \<le> off'' \<and> off'' \<le> length d" by simp
qed

lemma advances_pbind0 [progress_intros]:
  "advances 0 d p \<Longrightarrow> (\<And>x. advances 0 d (f x)) \<Longrightarrow> advances 0 d (pbind p f)"
  using advances_pbind [of 0 d p 0 f] by simp

lemma advances_pbind_first:
  "advances w d p \<Longrightarrow> (\<And>x. advances 0 d (f x)) \<Longrightarrow> advances w d (pbind p f)"
  using advances_pbind [of w d p 0 f] by simp

lemma advances_prepeat [progress_intros]:
  "advances 0 d p \<Longrightarrow> advances 0 d (prepeat n p)"
  by (induction n) (simp_all add: progress_intros)

lemma advances_if [progress_intros]:
  "advances w d p \<Longrightarrow> advances w d q \<Longrightarrow> advances w d (if b then p else q)"
  by simp

subsection \<open>Little-endian byte strings\<close>

fun nat_to_le :: "nat \<Rightarrow> nat \<Rightarrow> byte list" where
  "nat_to_le 0 n = []"
| "nat_to_le (Suc k) n = of_nat (n mod 256) # nat_to_le k (n div 256)"

fun nat_of_le :: "byte list \<Rightarrow> nat" where
  "nat_of_le [] = 0"
| "nat_of_le (b # bs) = unat b + 256 * nat_of_le bs"

lemma length_nat_to_le [wire_simps, simp]: "length (nat_to_le k n) = k"
  by (induction k arbitrary: n) simp_all

lemma unat_of_nat_byte [simp]: "unat (of_nat (n mod 256) :: byte) = n mod 256"
  by (simp add: unat_of_nat)

lemma nat_of_le_to_le [wire_simps]: "nat_of_le (nat_to_le k n) = n mod 256 ^ k"
  by (induction k arbitrary: n) (simp_all add: mod_mult2_eq)

lemma unat_byte_less: "unat (b :: byte) < 256"
  using unsigned_less [of b, where ?'a = nat] by simp

lemma unat_byte_mod [simp]: "unat (b :: byte) mod 256 = unat b"
  by (simp add: unat_byte_less)

lemma nat_to_le_of_le: "nat_to_le (length bs) (nat_of_le bs) = bs"
proof (induction bs)
  case (Cons b bs)
  have "unat b < 256" by (rule unat_byte_less)
  then show ?case using Cons by simp
qed simp

lemma nat_of_le_less: "nat_of_le bs < 256 ^ length bs"
proof (induction bs)
  case (Cons b bs)
  have "unat b < 256" by (rule unat_byte_less)
  then show ?case using Cons by simp
qed simp

text \<open>\<open>to_le_bytes\<close> and \<open>from_le_bytes\<close> of the integer types.\<close>

definition u16_to_le :: "u16 \<Rightarrow> byte list" where "u16_to_le w = nat_to_le 2 (unat w)"
definition u32_to_le :: "u32 \<Rightarrow> byte list" where "u32_to_le w = nat_to_le 4 (unat w)"
definition u64_to_le :: "u64 \<Rightarrow> byte list" where "u64_to_le w = nat_to_le 8 (unat w)"
definition u128_to_le :: "i128 \<Rightarrow> byte list" where "u128_to_le w = nat_to_le 16 (unat w)"

definition u16_of_le :: "byte list \<Rightarrow> u16" where "u16_of_le bs = of_nat (nat_of_le bs)"
definition u32_of_le :: "byte list \<Rightarrow> u32" where "u32_of_le bs = of_nat (nat_of_le bs)"
definition u64_of_le :: "byte list \<Rightarrow> u64" where "u64_of_le bs = of_nat (nat_of_le bs)"
definition u128_of_le :: "byte list \<Rightarrow> i128" where "u128_of_le bs = of_nat (nat_of_le bs)"

lemma length_to_le [simp]:
  "length (u16_to_le a) = 2" "length (u32_to_le b) = 4"
  "length (u64_to_le c) = 8" "length (u128_to_le e) = 16"
  by (simp_all add: u16_to_le_def u32_to_le_def u64_to_le_def u128_to_le_def)

subsection \<open>Slices and usize arithmetic\<close>

text \<open>\<open>&data[a..b]\<close>: panics unless \<open>a \<le> b \<le> data.len()\<close>.\<close>

definition slice :: "'b list \<Rightarrow> nat \<Rightarrow> nat \<Rightarrow> ('e, 'b list) result" where
  "slice d a b = (if a \<le> b \<and> b \<le> length d then Inr (take (b - a) (drop a d)) else Inl Panic)"

text \<open>
  \<open>a + b\<close> on \<open>usize\<close>: a panic on overflow when the crate is built with overflow checks
  (the dev profile), a wrapped sum otherwise (the release profile).
\<close>

definition usize_add :: "bool \<Rightarrow> nat \<Rightarrow> nat \<Rightarrow> ('e, nat) result" where
  "usize_add ovf a b =
     (if a + b < 2 ^ 64 then Inr (a + b) else if ovf then Inl Panic else Inr ((a + b) mod 2 ^ 64))"

text \<open>\<open>x as usize\<close> for an \<open>i32\<close>: sign extension to 64 bits.\<close>

definition i32_as_usize :: "i32 \<Rightarrow> nat" where
  "i32_as_usize w = (if sint w < 0 then nat (2 ^ 64 + sint w) else nat (sint w))"

lemma i32_as_usize_nonneg: "0 \<le> sint w \<Longrightarrow> i32_as_usize w = nat (sint w)"
  by (simp add: i32_as_usize_def)

subsection \<open>Text and its bytes\<close>

definition byte_of_char :: "char \<Rightarrow> byte" where "byte_of_char c = of_nat (of_char c)"
definition char_of_byte :: "byte \<Rightarrow> char" where "char_of_byte b = char_of (unat b)"

definition as_bytes :: "string \<Rightarrow> byte list" where "as_bytes s = map byte_of_char s"
definition text_of :: "byte list \<Rightarrow> string" where "text_of bs = map char_of_byte bs"

lemma char_of_byte_of_char [simp]: "char_of_byte (byte_of_char c) = c"
  by (simp add: char_of_byte_def byte_of_char_def unat_of_nat char_of_take_bit_eq
      flip: take_bit_eq_mod)

lemma byte_of_char_of_byte [simp]: "byte_of_char (char_of_byte b) = b"
  by (simp add: char_of_byte_def byte_of_char_def)

lemma text_of_as_bytes [simp]: "text_of (as_bytes s) = s"
  by (simp add: text_of_def as_bytes_def comp_def)

lemma as_bytes_text_of [simp]: "as_bytes (text_of bs) = bs"
  by (simp add: text_of_def as_bytes_def comp_def)

lemma length_as_bytes [simp]: "length (as_bytes s) = length s"
  by (simp add: as_bytes_def)

lemma length_text_of [simp]: "length (text_of bs) = length bs"
  by (simp add: text_of_def)

subsection \<open>Contracts of encoders and decoders\<close>

text \<open>
  A codec pairs an encoder with a reader: on the values \<open>ok\<close> admits and in the buffers
  \<open>fits\<close> admits (a length that offset arithmetic cannot overflow on), reading what was
  written, at any place, gives the value back and stops right behind it.
\<close>

locale codec =
  fixes enc :: "'a \<Rightarrow> byte list"
    and rd :: "byte list \<Rightarrow> ('e, 'a) reader"
    and ok :: "'a \<Rightarrow> bool"
    and fits :: "byte list \<Rightarrow> bool"
  assumes read_enc:
    "ok x \<Longrightarrow> fits (pre @ enc x @ rest) \<Longrightarrow>
      rd (pre @ enc x @ rest) (length pre) = Inr (x, length pre + length (enc x))"
begin

lemma read_enc_at:
  "ok x \<Longrightarrow> d = pre @ enc x @ rest \<Longrightarrow> fits d \<Longrightarrow> off = length pre \<Longrightarrow>
    rd d off = Inr (x, off + length (enc x))"
  using read_enc by simp

lemma prepeat_enc:
  "list_all ok xs \<Longrightarrow> d = pre @ concat (map enc xs) @ rest \<Longrightarrow> fits d \<Longrightarrow> off = length pre \<Longrightarrow>
    prepeat (length xs) (rd d) off = Inr (xs, off + length (concat (map enc xs)))"
proof (induction xs arbitrary: pre off)
  case Nil
  then show ?case by (simp add: preturn_def)
next
  case (Cons x xs)
  have hd: "rd d off = Inr (x, off + length (enc x))"
    using Cons.prems by (intro read_enc_at [where rest = "concat (map enc xs) @ rest"]) simp_all
  have tl: "prepeat (length xs) (rd d) (off + length (enc x))
      = Inr (xs, off + length (enc x) + length (concat (map enc xs)))"
    using Cons.prems by (intro Cons.IH [where pre = "pre @ enc x"]) simp_all
  show ?case using hd tl by (simp add: preturn_def)
qed

text \<open>An encoding determines its value: a codec is injective on the values it admits.\<close>

lemma enc_inject:
  assumes "ok x" "ok y" "enc x @ r = enc y @ s" "fits (enc x @ r)"
  shows "x = y \<and> r = s"
proof -
  have "rd (enc x @ r) 0 = Inr (x, length (enc x))" using read_enc_at [OF assms(1), of _ "[]"] assms(4) by simp
  moreover have "rd (enc y @ s) 0 = Inr (y, length (enc y))"
    using read_enc_at [OF assms(2), of _ "[]"] assms(3,4) by simp
  ultimately show ?thesis using assms(3) by auto
qed

end

end
