(* ===== verification/Constants.thy ===== *)
theory Constants
  imports Prelude
begin

text \<open>
  The constants of the native protocol (\<open>src/transport/native/constants.rs\<close>): command
  codes, response types, attribute identifiers, wire types and sizes, each at the width
  the driver gives it. The collection \<open>const_defs\<close> unfolds them.
\<close>

named_theorems const_defs \<open>values of the protocol constants\<close>

definition LOGIN_MAGIC :: u32 where [const_defs]: "LOGIN_MAGIC = 0x01121201"
definition PROTOCOL_VERSION :: u32 where [const_defs]: "PROTOCOL_VERSION = 21"
definition MIN_PROTOCOL_VERSION :: u32 where [const_defs]: "MIN_PROTOCOL_VERSION = 14"
definition CHANGE_DATE :: u32 where [const_defs]: "CHANGE_DATE = 200131112"
definition CMD_CREATE_PREPARED :: byte where [const_defs]: "CMD_CREATE_PREPARED = 10"
definition CMD_EXECUTE_PREPARED :: byte where [const_defs]: "CMD_EXECUTE_PREPARED = 11"
definition CMD_EXECUTE :: byte where [const_defs]: "CMD_EXECUTE = 12"
definition CMD_CLOSE_RESULTSET :: byte where [const_defs]: "CMD_CLOSE_RESULTSET = 13"
definition CMD_CLOSE_PREPARED :: byte where [const_defs]: "CMD_CLOSE_PREPARED = 18"
definition CMD_DISCONNECT :: byte where [const_defs]: "CMD_DISCONNECT = 32"
definition CMD_GET_ATTRIBUTES :: byte where [const_defs]: "CMD_GET_ATTRIBUTES = 34"
definition CMD_SET_ATTRIBUTES :: byte where [const_defs]: "CMD_SET_ATTRIBUTES = 35"
definition CMD_FETCH2 :: byte where [const_defs]: "CMD_FETCH2 = 36"
definition R_ROW_COUNT :: i8 where [const_defs]: "R_ROW_COUNT = 0"
definition R_RESULT_SET :: i8 where [const_defs]: "R_RESULT_SET = 1"
definition R_HANDLE :: i8 where [const_defs]: "R_HANDLE = 2"
definition R_COLUMN_COUNT :: i8 where [const_defs]: "R_COLUMN_COUNT = 3"
definition R_WARNING :: i8 where [const_defs]: "R_WARNING = 4"
definition R_STILL_EXECUTING :: i8 where [const_defs]: "R_STILL_EXECUTING = 5"
definition R_MORE_ROWS :: i8 where [const_defs]: "R_MORE_ROWS = 6"
definition R_EXCEPTION :: i8 where [const_defs]: "R_EXCEPTION = - 1"
definition R_EMPTY :: i8 where [const_defs]: "R_EMPTY = - 2"
definition SMALL_RESULTSET :: i32 where [const_defs]: "SMALL_RESULTSET = - 3"
definition PARAMETER_DESCRIPTION :: i32 where [const_defs]: "PARAMETER_DESCRIPTION = - 5"
definition ATTR_USERNAME :: u16 where [const_defs]: "ATTR_USERNAME = 1"
definition ATTR_CLIENTNAME :: u16 where [const_defs]: "ATTR_CLIENTNAME = 2"
definition ATTR_CLIENTOS :: u16 where [const_defs]: "ATTR_CLIENTOS = 3"
definition ATTR_DRIVERNAME :: u16 where [const_defs]: "ATTR_DRIVERNAME = 4"
definition ATTR_SESSIONID :: u16 where [const_defs]: "ATTR_SESSIONID = 6"
definition ATTR_AUTOCOMMIT :: u16 where [const_defs]: "ATTR_AUTOCOMMIT = 7"
definition ATTR_CLIENTVERSION :: u16 where [const_defs]: "ATTR_CLIENTVERSION = 10"
definition ATTR_TRANSACTION_STATE :: u16 where [const_defs]: "ATTR_TRANSACTION_STATE = 17"
definition ATTR_PROTOCOL_VERSION :: u16 where [const_defs]: "ATTR_PROTOCOL_VERSION = 19"
definition ATTR_CURRENT_SCHEMA :: u16 where [const_defs]: "ATTR_CURRENT_SCHEMA = 22"
definition ATTR_DATA_MESSAGE_SIZE :: u16 where [const_defs]: "ATTR_DATA_MESSAGE_SIZE = 26"
definition ATTR_PUBLIC_KEY :: u16 where [const_defs]: "ATTR_PUBLIC_KEY = 32"
definition ATTR_RANDOM_PHRASE :: u16 where [const_defs]: "ATTR_RANDOM_PHRASE = 33"
definition ATTR_ENCODED_PASSWORD :: u16 where [const_defs]: "ATTR_ENCODED_PASSWORD = 34"
definition ATTR_QUERY_TIMEOUT :: u16 where [const_defs]: "ATTR_QUERY_TIMEOUT = 35"
definition ATTR_TIMEZONE :: u16 where [const_defs]: "ATTR_TIMEZONE = 47"
definition ATTR_TSUTC_ENABLED :: u16 where [const_defs]: "ATTR_TSUTC_ENABLED = 51"
definition ATTR_QUERY_CACHE_ACCESS :: u16 where [const_defs]: "ATTR_QUERY_CACHE_ACCESS = 52"
definition ATTR_CLIENT_RECEIVE_KEY :: u16 where [const_defs]: "ATTR_CLIENT_RECEIVE_KEY = 53"
definition ATTR_CLIENT_SEND_KEY :: u16 where [const_defs]: "ATTR_CLIENT_SEND_KEY = 54"
definition ATTR_SNAPSHOT_TRANSACTIONS_ENABLED :: u16 where [const_defs]: "ATTR_SNAPSHOT_TRANSACTIONS_ENABLED = 55"
definition ATTR_CLIENT_KEYS_LEN :: u16 where [const_defs]: "ATTR_CLIENT_KEYS_LEN = 56"
definition ATTR_ENCRYPTION_REQUIRED :: u16 where [const_defs]: "ATTR_ENCRYPTION_REQUIRED = 57"
definition ATTR_RELEASE_VERSION :: u16 where [const_defs]: "ATTR_RELEASE_VERSION = 8"
definition ATTR_DATABASE_NAME :: u16 where [const_defs]: "ATTR_DATABASE_NAME = 37"
definition ATTR_PRODUCT_NAME :: u16 where [const_defs]: "ATTR_PRODUCT_NAME = 38"
definition ATTR_SQL_TEXT :: u16 where [const_defs]: "ATTR_SQL_TEXT = 200"
definition ATTR_RESULT_SET_HANDLE :: u16 where [const_defs]: "ATTR_RESULT_SET_HANDLE = 201"
definition ATTR_STATEMENT_HANDLE :: u16 where [const_defs]: "ATTR_STATEMENT_HANDLE = 202"
definition ATTR_NUM_ROWS :: u16 where [const_defs]: "ATTR_NUM_ROWS = 203"
definition T_SMALLINT :: u32 where [const_defs]: "T_SMALLINT = 4"
definition T_INTEGER :: u32 where [const_defs]: "T_INTEGER = 5"
definition SMALLINT_DECIMAL_PRECISION :: i32 where [const_defs]: "SMALLINT_DECIMAL_PRECISION = 9"
definition INTEGER_DECIMAL_PRECISION :: i32 where [const_defs]: "INTEGER_DECIMAL_PRECISION = 18"
definition T_DECIMAL :: u32 where [const_defs]: "T_DECIMAL = 6"
definition T_REAL :: u32 where [const_defs]: "T_REAL = 7"
definition T_DOUBLE :: u32 where [const_defs]: "T_DOUBLE = 8"
definition T_CHAR :: u32 where [const_defs]: "T_CHAR = 10"
definition T_DATE :: u32 where [const_defs]: "T_DATE = 14"
definition T_BINARY :: u32 where [const_defs]: "T_BINARY = 15"
definition T_INTERVAL_YEAR :: u32 where [const_defs]: "T_INTERVAL_YEAR = 16"
definition T_INTERVAL_DAY :: u32 where [const_defs]: "T_INTERVAL_DAY = 17"
definition T_TIMESTAMP :: u32 where [const_defs]: "T_TIMESTAMP = 21"
definition T_BOOLEAN :: u32 where [const_defs]: "T_BOOLEAN = 9"
definition T_GEOMETRY :: u32 where [const_defs]: "T_GEOMETRY = 123"
definition T_TIMESTAMP_LOCAL_TZ :: u32 where [const_defs]: "T_TIMESTAMP_LOCAL_TZ = 124"
definition T_TIMESTAMP_UTC :: u32 where [const_defs]: "T_TIMESTAMP_UTC = 125"
definition T_HASHTYPE :: u32 where [const_defs]: "T_HASHTYPE = 126"
definition T_SMALLDECIMAL :: u32 where [const_defs]: "T_SMALLDECIMAL = 63"
definition T_BIGDECIMAL :: u32 where [const_defs]: "T_BIGDECIMAL = 64"
definition IS_VARCHAR :: byte where [const_defs]: "IS_VARCHAR = 0x01"
definition IS_UTF8 :: byte where [const_defs]: "IS_UTF8 = 0x10"
definition HEADER_SIZE :: nat where [const_defs]: "HEADER_SIZE = 21"
definition MAX_DATA_MESSAGE_SIZE :: u32 where [const_defs]: "MAX_DATA_MESSAGE_SIZE = 67108864"
definition CHACHA20_KEY_LEN :: nat where [const_defs]: "CHACHA20_KEY_LEN = 32"
definition TIMESTAMP_PARAM_PRECISION :: i32 where [const_defs]: "TIMESTAMP_PARAM_PRECISION = 9"

end
