(* ===== verification/Framing.thy ===== *)
theory Framing
  imports Constants
begin

text \<open>
  Message framing (\<open>src/transport/native/framing.rs\<close>): the 21-byte header that precedes
  every message and the serial-number counter. Lemmas: the header's wire image has 21
  bytes and parses back to the header, every 21-byte block is the image of the header it
  parses to, and the counter hands out distinct serials until it wraps.
\<close>

record MessageHeader =
  message_length :: u32
  command :: byte
  serial :: u32
  num_attributes :: u32
  attribute_data_len :: u32
  num_result_parts :: u32

definition MessageHeader_new ::
  "byte \<Rightarrow> u32 \<Rightarrow> u32 \<Rightarrow> u32 \<Rightarrow> u32 \<Rightarrow> MessageHeader" where
  "MessageHeader_new cmd ser nattrs attr_len nparts =
    \<lparr>message_length = attr_len, command = cmd, serial = ser, num_attributes = nattrs,
     attribute_data_len = attr_len, num_result_parts = nparts\<rparr>"

definition serialize_header :: "MessageHeader \<Rightarrow> byte list" where
  "serialize_header h =
    u32_to_le (message_length h) @ [command h] @ u32_to_le (serial h)
    @ u32_to_le (num_attributes h) @ u32_to_le (attribute_data_len h)
    @ u32_to_le (num_result_parts h)"

text \<open>
  \<open>parse\<close> takes a \<open>&[u8; HEADER_SIZE]\<close>, so the length is a matter of its type; a list of
  another length has no image here.
\<close>

definition parse_header :: "byte list \<Rightarrow> MessageHeader option" where
  "parse_header d = (if length d \<noteq> HEADER_SIZE then None else Some
    \<lparr>message_length = u32_of_le (take 4 d),
     command = d ! 4,
     serial = u32_of_le (take 4 (drop 5 d)),
     num_attributes = u32_of_le (take 4 (drop 9 d)),
     attribute_data_len = u32_of_le (take 4 (drop 13 d)),
     num_result_parts = u32_of_le (take 4 (drop 17 d))\<rparr>)"

text \<open>\<open>AtomicU32::fetch_add\<close> returns the old value and wraps around.\<close>

record SerialCounter = next_serial :: u32

definition SerialCounter_new :: SerialCounter where
  "SerialCounter_new = \<lparr>next_serial = 1\<rparr>"

definition SerialCounter_next :: "SerialCounter \<Rightarrow> u32 \<times> SerialCounter" where
  "SerialCounter_next c = (next_serial c, c\<lparr>next_serial := next_serial c + 1\<rparr>)"

fun take_serials :: "nat \<Rightarrow> SerialCounter \<Rightarrow> u32 list \<times> SerialCounter" where
  "take_serials 0 c = ([], c)"
| "take_serials (Suc n) c =
    (let (s, c') = SerialCounter_next c; (ss, c'') = take_serials n c' in (s # ss, c''))"

subsection \<open>Round trips of machine integers\<close>

lemma u16_of_to_le [simp]: "u16_of_le (u16_to_le w) = w"
  using unsigned_less [of w, where ?'a = nat]
  by (simp add: u16_of_le_def u16_to_le_def nat_of_le_to_le)

lemma u32_of_to_le [simp]: "u32_of_le (u32_to_le w) = w"
  using unsigned_less [of w, where ?'a = nat]
  by (simp add: u32_of_le_def u32_to_le_def nat_of_le_to_le)

lemma u64_of_to_le [simp]: "u64_of_le (u64_to_le w) = w"
  using unsigned_less [of w, where ?'a = nat]
  by (simp add: u64_of_le_def u64_to_le_def nat_of_le_to_le)

lemma u128_of_to_le [simp]: "u128_of_le (u128_to_le w) = w"
  using unsigned_less [of w, where ?'a = nat]
  by (simp add: u128_of_le_def u128_to_le_def nat_of_le_to_le)

lemma u32_to_of_le:
  assumes "length bs = 4"
  shows "u32_to_le (u32_of_le bs) = bs"
proof -
  have "nat_of_le bs < 2 ^ 32" using nat_of_le_less [of bs] assms by simp
  then show ?thesis using nat_to_le_of_le [of bs] assms
    by (simp add: u32_to_le_def u32_of_le_def unat_of_nat)
qed

subsection \<open>The header\<close>

lemma length_serialize_header [simp]: "length (serialize_header h) = HEADER_SIZE"
  by (simp add: serialize_header_def HEADER_SIZE_def)

lemma parse_serialize_header: "parse_header (serialize_header h) = Some h"
  by (simp add: parse_header_def serialize_header_def HEADER_SIZE_def nth_append)

lemma serialize_parse_header:
  assumes "parse_header d = Some h"
  shows "serialize_header h = d"
proof -
  from assms have len: "length d = 21"
    and h: "h = \<lparr>message_length = u32_of_le (take 4 d), command = d ! 4,
     serial = u32_of_le (take 4 (drop 5 d)), num_attributes = u32_of_le (take 4 (drop 9 d)),
     attribute_data_len = u32_of_le (take 4 (drop 13 d)),
     num_result_parts = u32_of_le (take 4 (drop 17 d))\<rparr>"
    by (auto simp: parse_header_def HEADER_SIZE_def split: if_splits)
  have cut: "take 4 (drop i d) @ drop (i + 4) d = drop i d" for i
    by (metis append_take_drop_id drop_drop add.commute)
  have "serialize_header h = take 4 d @ [d ! 4] @ take 4 (drop 5 d) @ take 4 (drop 9 d)
      @ take 4 (drop 13 d) @ take 4 (drop 17 d)"
    using len by (simp add: h serialize_header_def u32_to_of_le)
  also have "take 4 (drop 17 d) = drop 17 d" using len by simp
  also have "take 4 (drop 13 d) @ drop 17 d = drop 13 d" using cut [of 13] by simp
  also have "take 4 (drop 9 d) @ drop 13 d = drop 9 d" using cut [of 9] by simp
  also have "take 4 (drop 5 d) @ drop 9 d = drop 5 d" using cut [of 5] by simp
  also have "[d ! 4] @ drop 5 d = drop 4 d" using len Cons_nth_drop_Suc [of 4 d] by simp
  also have "take 4 d @ drop 4 d = d" by simp
  finally show ?thesis .
qed

subsection \<open>Serial numbers\<close>

lemma take_serials_eq:
  "take_serials n c =
    (map (\<lambda>i. next_serial c + of_nat i) [0..<n], c\<lparr>next_serial := next_serial c + of_nat n\<rparr>)"
proof (induction n arbitrary: c)
  case (Suc n)
  have "map (\<lambda>i. next_serial c + of_nat i) [0..<Suc n]
      = next_serial c # map (\<lambda>i. next_serial c + 1 + of_nat i) [0..<n]"
    by (simp add: upt_conv_Cons map_Suc_upt [symmetric] comp_def del: upt_Suc)
  then show ?case using Suc
    by (simp add: SerialCounter_next_def algebra_simps del: upt_Suc)
qed simp

lemma take_serials_distinct:
  assumes "n \<le> 2 ^ 32"
  shows "distinct (fst (take_serials n c))"
proof -
  have "inj_on (\<lambda>i. next_serial c + of_nat i :: u32) {0..<n}"
  proof (rule inj_onI)
    fix i j assume ij: "i \<in> {0..<n}" "j \<in> {0..<n}"
      and eq: "next_serial c + of_nat i = next_serial c + (of_nat j :: u32)"
    then have "(of_nat i :: u32) = of_nat j" by simp
    then have "i mod 2 ^ 32 = j mod 2 ^ 32"
      by (simp add: word_of_nat_eq_iff take_bit_eq_mod)
    then show "i = j" using ij assms by simp
  qed
  then show ?thesis by (simp add: take_serials_eq distinct_map)
qed

end
