(* ===== verification/Rust_Text.thy ===== *)
theory Rust_Text
  imports Prelude
begin

text \<open>
  The text functions of Rust's standard library that the driver calls: integer parsing
  and formatting, \<open>split\<close>, \<open>split_once\<close>, \<open>splitn\<close> and trimming, each with the laws
  the components use. Text is a list of UTF-8 bytes and every separator is ASCII, so
  splitting by byte and by \<open>char\<close> agree.
\<close>

named_theorems text_simps \<open>laws of splitting, parsing and formatting\<close>

subsection \<open>Decimal digits\<close>

definition is_ascii_digit :: "char \<Rightarrow> bool" where
  "is_ascii_digit c \<longleftrightarrow> 48 \<le> (of_char c :: nat) \<and> (of_char c :: nat) \<le> 57"

definition digit_val :: "char \<Rightarrow> nat" where "digit_val c = of_char c - 48"

definition digit_char :: "nat \<Rightarrow> char" where "digit_char n = char_of (48 + n)"

fun show_nat :: "nat \<Rightarrow> string" where
  "show_nat n = (if n < 10 then [digit_char n] else show_nat (n div 10) @ [digit_char (n mod 10)])"

declare show_nat.simps [simp del]

definition show_int :: "int \<Rightarrow> string" where
  "show_int i = (if i < 0 then CHR ''-'' # show_nat (nat (- i)) else show_nat (nat i))"

text \<open>\<open>{:0w$}\<close>: zero-padded on the left to width \<open>w\<close>.\<close>

definition pad_zero :: "nat \<Rightarrow> string \<Rightarrow> string" where
  "pad_zero w s = replicate (w - length s) (CHR ''0'') @ s"

definition digits_val :: "string \<Rightarrow> nat" where
  "digits_val s = foldl (\<lambda>a c. 10 * a + digit_val c) 0 s"

definition parse_digits :: "string \<Rightarrow> nat option" where
  "parse_digits s = (if s \<noteq> [] \<and> list_all is_ascii_digit s then Some (digits_val s) else None)"

text \<open>
  \<open>str::parse\<close> of an integer type with the range \<open>lo..=hi\<close>: one optional sign (only \<open>+\<close>
  for an unsigned type), then one or more digits, and the value must be in range.
\<close>

definition parse_signed :: "int \<Rightarrow> int \<Rightarrow> string \<Rightarrow> int option" where
  "parse_signed lo hi s =
    (let v = (case s of
        [] \<Rightarrow> None
      | c # r \<Rightarrow>
          if c = CHR ''-'' then map_option (\<lambda>n. - int n) (parse_digits r)
          else if c = CHR ''+'' then map_option int (parse_digits r)
          else map_option int (parse_digits s))
     in case v of None \<Rightarrow> None | Some i \<Rightarrow> if lo \<le> i \<and> i \<le> hi then Some i else None)"

definition parse_unsigned :: "nat \<Rightarrow> string \<Rightarrow> nat option" where
  "parse_unsigned hi s =
    (let v = (case s of
        [] \<Rightarrow> None
      | c # r \<Rightarrow> if c = CHR ''+'' then parse_digits r else parse_digits s)
     in case v of None \<Rightarrow> None | Some n \<Rightarrow> if n \<le> hi then Some n else None)"

abbreviation parse_i32 :: "string \<Rightarrow> int option" where
  "parse_i32 \<equiv> parse_signed (- (2 ^ 31)) (2 ^ 31 - 1)"

abbreviation parse_i64 :: "string \<Rightarrow> int option" where
  "parse_i64 \<equiv> parse_signed (- (2 ^ 63)) (2 ^ 63 - 1)"

abbreviation parse_i128 :: "string \<Rightarrow> int option" where
  "parse_i128 \<equiv> parse_signed (- (2 ^ 127)) (2 ^ 127 - 1)"

abbreviation parse_u32 :: "string \<Rightarrow> nat option" where
  "parse_u32 \<equiv> parse_unsigned (2 ^ 32 - 1)"

subsection \<open>Splitting and trimming\<close>

fun split_on :: "char \<Rightarrow> string \<Rightarrow> string list" where
  "split_on c [] = [[]]"
| "split_on c (x # xs) =
    (if x = c then [] # split_on c xs
     else (case split_on c xs of p # ps \<Rightarrow> (x # p) # ps | [] \<Rightarrow> [[x]]))"

fun split_once :: "char \<Rightarrow> string \<Rightarrow> (string \<times> string) option" where
  "split_once c [] = None"
| "split_once c (x # xs) =
    (if x = c then Some ([], xs) else map_option (\<lambda>(a, b). (x # a, b)) (split_once c xs))"

text \<open>\<open>splitn(n, c)\<close>: at most \<open>n\<close> parts, the last one unsplit.\<close>

fun splitn :: "nat \<Rightarrow> char \<Rightarrow> string \<Rightarrow> string list" where
  "splitn 0 c s = []"
| "splitn (Suc 0) c s = [s]"
| "splitn (Suc (Suc n)) c s =
    (case split_once c s of None \<Rightarrow> [s] | Some (a, b) \<Rightarrow> a # splitn (Suc n) c b)"

definition trim_start_matches :: "char \<Rightarrow> string \<Rightarrow> string" where
  "trim_start_matches c s = dropWhile (\<lambda>x. x = c) s"

definition trim_matches :: "char \<Rightarrow> string \<Rightarrow> string" where
  "trim_matches c s = rev (dropWhile (\<lambda>x. x = c) (rev (dropWhile (\<lambda>x. x = c) s)))"

subsection \<open>UTF-8\<close>

text \<open>
  \<open>std::str::from_utf8\<close>: the index of the first ill-formed sequence with the number of its
  bytes, or \<open>None\<close> for the length when the input ends inside a sequence; well-formed input
  has no error.
\<close>

definition utf8_tail :: "byte \<Rightarrow> bool" where
  "utf8_tail b \<longleftrightarrow> 128 \<le> unat b \<and> unat b < 192"

definition utf8_second :: "byte \<Rightarrow> byte \<Rightarrow> bool" where
  "utf8_second a b \<longleftrightarrow> utf8_tail b
    \<and> (unat a = 224 \<longrightarrow> 160 \<le> unat b) \<and> (unat a = 237 \<longrightarrow> unat b < 160)
    \<and> (unat a = 240 \<longrightarrow> 144 \<le> unat b) \<and> (unat a = 244 \<longrightarrow> unat b < 144)"

fun utf8_error :: "nat \<Rightarrow> byte list \<Rightarrow> (nat \<times> nat option) option" where
  "utf8_error i [] = None"
| "utf8_error i (a # bs) =
    (if unat a < 128 then utf8_error (i + 1) bs
     else if 194 \<le> unat a \<and> unat a < 245 then
       (case bs of [] \<Rightarrow> Some (i, None)
        | b # r \<Rightarrow>
          if \<not> utf8_second a b then Some (i, Some 1)
          else if unat a < 224 then utf8_error (i + 2) r
          else (case r of [] \<Rightarrow> Some (i, None)
            | c # r' \<Rightarrow>
              if \<not> utf8_tail c then Some (i, Some 2)
              else if unat a < 240 then utf8_error (i + 3) r'
              else (case r' of [] \<Rightarrow> Some (i, None)
                | e # r'' \<Rightarrow>
                  if \<not> utf8_tail e then Some (i, Some 3) else utf8_error (i + 4) r'')))
     else Some (i, Some 1))"

definition utf8_valid :: "byte list \<Rightarrow> bool" where
  "utf8_valid bs \<longleftrightarrow> utf8_error 0 bs = None"

text \<open>The \<open>Display\<close> text of \<open>Utf8Error\<close>.\<close>

definition utf8_error_text :: "byte list \<Rightarrow> string" where
  "utf8_error_text bs = (case utf8_error 0 bs of
      None \<Rightarrow> []
    | Some (i, Some n) \<Rightarrow> ''invalid utf-8 sequence of '' @ show_nat n @ '' bytes from index '' @ show_nat i
    | Some (i, None) \<Rightarrow> ''incomplete utf-8 byte sequence from index '' @ show_nat i)"

lemma utf8_valid_Nil [simp]: "utf8_valid []"
  by (simp add: utf8_valid_def)

subsection \<open>Digits: laws\<close>

lemma of_digit_char [simp]: "n < 10 \<Longrightarrow> of_char (digit_char n) = (48 + n :: nat)"
  by (simp add: digit_char_def)

lemma is_ascii_digit_char [simp]: "n < 10 \<Longrightarrow> is_ascii_digit (digit_char n)"
  by (simp add: is_ascii_digit_def)

lemma digit_val_char [simp]: "n < 10 \<Longrightarrow> digit_val (digit_char n) = n"
  by (simp add: digit_val_def)

lemma digit_zero [simp]: "is_ascii_digit (CHR ''0'')" "digit_val (CHR ''0'') = 0"
  by (simp_all add: is_ascii_digit_def digit_val_def)

lemma foldl_digits: "foldl (\<lambda>a c. 10 * a + digit_val c) n t = n * 10 ^ length t + digits_val t"
proof (induction t arbitrary: n)
  case (Cons c t)
  have "foldl (\<lambda>a c. 10 * a + digit_val c) n (c # t) = (10 * n + digit_val c) * 10 ^ length t + digits_val t"
    by (simp only: foldl_Cons Cons)
  moreover have "digits_val (c # t) = digit_val c * 10 ^ length t + digits_val t"
    by (simp only: digits_val_def [of "c # t"] foldl_Cons Cons) simp
  ultimately show ?case by (simp add: distrib_right)
qed (simp add: digits_val_def)

lemma digits_val_append: "digits_val (s @ t) = digits_val s * 10 ^ length t + digits_val t"
proof -
  have "digits_val (s @ t) = foldl (\<lambda>a c. 10 * a + digit_val c) (digits_val s) t"
    by (simp add: digits_val_def)
  then show ?thesis by (simp only: foldl_digits)
qed

lemma digits_val_simps [simp]: "digits_val [] = 0" "digits_val [c] = digit_val c"
  by (simp_all add: digits_val_def)

lemma digits_val_less:
  assumes "list_all is_ascii_digit s"
  shows "digits_val s < 10 ^ length s"
  using assms
proof (induction s rule: rev_induct)
  case (snoc c s)
  then have "digit_val c < 10" by (auto simp: is_ascii_digit_def digit_val_def)
  with snoc show ?case by (simp add: digits_val_append)
qed simp

lemma show_nat_digits [simp]: "list_all is_ascii_digit (show_nat n)"
  by (induction n rule: show_nat.induct) (subst show_nat.simps, simp)

lemma show_nat_nonempty [simp]: "show_nat n \<noteq> []"
  by (subst show_nat.simps) simp

lemma digits_val_show_nat [simp]: "digits_val (show_nat n) = n"
proof (induction n rule: show_nat.induct)
  case (1 n)
  show ?case
  proof (cases "n < 10")
    case False
    with 1 show ?thesis by (subst show_nat.simps) (simp add: digits_val_append)
  qed (subst show_nat.simps, simp)
qed

lemma length_show_nat: "n < 10 ^ k \<Longrightarrow> 0 < k \<Longrightarrow> length (show_nat n) \<le> k"
proof (induction n arbitrary: k rule: show_nat.induct)
  case (1 n)
  show ?case
  proof (cases "n < 10")
    case False
    with 1(2) have k: "k \<noteq> 1" by auto
    with 1(3) obtain m where m: "k = Suc m" "0 < m" by (cases k) auto
    with 1(2) have "n div 10 < 10 ^ m" by (simp add: div_less_iff_less_mult mult.commute)
    with False m 1(1) show ?thesis by (subst show_nat.simps) simp
  qed (use 1 in \<open>subst show_nat.simps, simp\<close>)
qed

lemma digits_val_zeros [simp]: "digits_val (replicate k (CHR ''0'') @ s) = digits_val s"
proof -
  have "digits_val (replicate k (CHR ''0'')) = 0"
  proof (induction k)
    case (Suc k)
    then show ?case using digits_val_append [of "[CHR ''0'']" "replicate k (CHR ''0'')"] by simp
  qed simp
  then show ?thesis by (simp add: digits_val_append)
qed

lemma list_all_digits_pad [simp]: "list_all is_ascii_digit (pad_zero w s) = list_all is_ascii_digit s"
  by (auto simp: pad_zero_def list_all_iff)

lemma pad_zero_nonempty [simp]: "s \<noteq> [] \<Longrightarrow> pad_zero w s \<noteq> []"
  by (simp add: pad_zero_def)

lemma digits_val_pad [simp]: "digits_val (pad_zero w s) = digits_val s"
  by (simp add: pad_zero_def)

lemma length_pad_zero: "length s \<le> w \<Longrightarrow> length (pad_zero w s) = w"
  by (simp add: pad_zero_def)

lemma parse_digits_show [text_simps]: "parse_digits (show_nat n) = Some n"
  by (simp add: parse_digits_def)

lemma parse_digits_pad_show [text_simps]: "parse_digits (pad_zero w (show_nat n)) = Some n"
  by (simp add: parse_digits_def)

lemma parse_digits_SomeD: "parse_digits s = Some n \<Longrightarrow> s \<noteq> [] \<and> list_all is_ascii_digit s"
  by (simp add: parse_digits_def split: if_splits)

text \<open>A text of digits has no sign and none of the separators.\<close>

lemma digits_hd_no_sign:
  "list_all is_ascii_digit s \<Longrightarrow> s = c # r \<Longrightarrow> c \<noteq> CHR ''-'' \<and> c \<noteq> CHR ''+''"
  by (auto simp: is_ascii_digit_def)

lemma digits_no_char:
  "list_all is_ascii_digit s \<Longrightarrow> \<not> is_ascii_digit c \<Longrightarrow> c \<notin> set s"
  by (auto simp: list_all_iff)

lemma separators_not_digits [simp]:
  "\<not> is_ascii_digit (CHR ''-'')" "\<not> is_ascii_digit (CHR ''+'')" "\<not> is_ascii_digit (CHR '':'')"
  "\<not> is_ascii_digit (CHR '' '')" "\<not> is_ascii_digit (CHR ''.'')"
  by (simp_all add: is_ascii_digit_def)

lemma parse_signed_digits:
  assumes "parse_digits s = Some n"
  shows "parse_signed lo hi s = (if lo \<le> int n \<and> int n \<le> hi then Some (int n) else None)"
proof -
  from parse_digits_SomeD [OF assms] obtain c r where s: "s = c # r" and d: "list_all is_ascii_digit s"
    by (cases s) auto
  from digits_hd_no_sign [OF d s] show ?thesis using assms by (simp add: parse_signed_def s)
qed

lemma parse_unsigned_digits:
  assumes "parse_digits s = Some n"
  shows "parse_unsigned hi s = (if n \<le> hi then Some n else None)"
proof -
  from parse_digits_SomeD [OF assms] obtain c r where s: "s = c # r" and d: "list_all is_ascii_digit s"
    by (cases s) auto
  from digits_hd_no_sign [OF d s] show ?thesis using assms by (simp add: parse_unsigned_def s)
qed

lemma parse_signed_minus:
  "parse_signed lo hi (CHR ''-'' # s) =
    (case parse_digits s of None \<Rightarrow> None
     | Some n \<Rightarrow> if lo \<le> - int n \<and> - int n \<le> hi then Some (- int n) else None)"
  by (simp add: parse_signed_def split: option.splits)

lemma parse_signed_range: "parse_signed lo hi s = Some i \<Longrightarrow> lo \<le> i \<and> i \<le> hi"
  by (simp add: parse_signed_def Let_def split: option.splits if_splits)

lemma parse_unsigned_range: "parse_unsigned hi s = Some n \<Longrightarrow> n \<le> hi"
  by (simp add: parse_unsigned_def Let_def split: option.splits if_splits)

text \<open>Formatting and parsing an integer is the identity on the range of the type.\<close>

lemma parse_signed_show_int:
  "lo \<le> i \<Longrightarrow> i \<le> hi \<Longrightarrow> parse_signed lo hi (show_int i) = Some i"
  by (auto simp: show_int_def parse_signed_minus parse_digits_show
      parse_signed_digits [OF parse_digits_show])

text \<open>A value that parses from text without a minus sign is not negative.\<close>

lemma parse_signed_nonneg:
  "parse_signed lo hi s = Some i \<Longrightarrow> CHR ''-'' \<notin> set s \<Longrightarrow> 0 \<le> i"
  by (auto simp: parse_signed_def Let_def split: option.splits if_splits list.splits)

subsection \<open>Splitting: laws\<close>

lemma split_on_nonempty [simp]: "split_on c s \<noteq> []"
  by (induction s) (auto split: list.splits)

lemma split_on_no_sep [text_simps]: "c \<notin> set s \<Longrightarrow> split_on c s = [s]"
  by (induction s) auto

lemma split_on_sep [text_simps]:
  "c \<notin> set s \<Longrightarrow> split_on c (s @ c # t) = s # split_on c t"
  by (induction s) auto

lemma split_on_Nil [text_simps]: "split_on c [] = [[]]"
  by simp

lemma split_on_parts: "p \<in> set (split_on c s) \<Longrightarrow> c \<notin> set p"
  by (induction s arbitrary: p) (auto split: list.splits if_splits)

lemma split_on_chars: "p \<in> set (split_on c s) \<Longrightarrow> set p \<subseteq> set s"
  by (induction s arbitrary: p) (fastforce split: list.splits if_splits)+

lemma length_split_on: "length (split_on c s) = Suc (count_list s c)"
  by (induction s) (auto split: list.splits)

lemma split_once_sep [text_simps]:
  "c \<notin> set s \<Longrightarrow> split_once c (s @ c # t) = Some (s, t)"
  by (induction s) auto

lemma split_once_no_sep [text_simps]: "c \<notin> set s \<Longrightarrow> split_once c s = None"
  by (induction s) auto

lemma trim_matches_id:
  "s = [] \<or> hd s \<noteq> c \<and> last s \<noteq> c \<Longrightarrow> trim_matches c s = s"
proof -
  assume *: "s = [] \<or> hd s \<noteq> c \<and> last s \<noteq> c"
  show ?thesis
  proof (cases s)
    case (Cons x xs)
    with * have x: "x \<noteq> c" and l: "last s \<noteq> c" by auto
    have "rev s = last s # rev (butlast s)"
      using Cons append_butlast_last_id [of s] rev_append [of "butlast s" "[last s]"] by simp
    then have "dropWhile (\<lambda>y. y = c) (rev s) = rev s"
      using l by (metis (full_types) dropWhile.simps(2))
    then show ?thesis using Cons x by (simp add: trim_matches_def)
  qed (simp add: trim_matches_def)
qed

end
