(* ===== verification/Errors.thy ===== *)
theory Errors
  imports Rust_Text
begin

text \<open>
  The error types of \<open>src/error.rs\<close>, one constructor per variant, each with the fields of
  the source.
\<close>

datatype TransportError =
    WebSocketError string
  | SerializationError string
  | DeserializationError string
  | ProtocolError string
  | InvalidResponse string
  | IoError string
  | SendError string
  | ReceiveError string
  | TlsError string

datatype ConnectionError =
    ConnectionFailed string u16 string
  | AuthenticationFailed string
  | InvalidParameter string string
  | ParseError string
  | ConnectTimeout u64
  | ConnectionClosed
  | ConnectTlsError string

datatype QueryError =
    SyntaxError nat string
  | ExecutionFailed string
  | QueryTimeout u64
  | InvalidState string
  | ParameterBindingError nat string
  | NoResultSet string
  | TransactionError string
  | SqlInjectionDetected
  | StatementClosed
  | UnexpectedResultSet

text \<open>The \<open>Display\<close> texts.\<close>

fun show_transport_error :: "TransportError \<Rightarrow> string" where
  "show_transport_error (WebSocketError m) = ''WebSocket error: '' @ m"
| "show_transport_error (SerializationError m) = ''Serialization error: '' @ m"
| "show_transport_error (DeserializationError m) = ''Deserialization error: '' @ m"
| "show_transport_error (ProtocolError m) = ''Protocol error: '' @ m"
| "show_transport_error (InvalidResponse m) = ''Invalid server response: '' @ m"
| "show_transport_error (IoError m) = ''Network I/O error: '' @ m"
| "show_transport_error (SendError m) = ''Failed to send message: '' @ m"
| "show_transport_error (ReceiveError m) = ''Failed to receive message: '' @ m"
| "show_transport_error (TlsError m) = ''TLS error: '' @ m"

fun show_connection_error :: "ConnectionError \<Rightarrow> string" where
  "show_connection_error (ConnectionFailed h p m) =
    ''Failed to connect to '' @ h @ '':'' @ show_nat (unat p) @ '': '' @ m"
| "show_connection_error (AuthenticationFailed m) = ''Authentication failed: '' @ m"
| "show_connection_error (InvalidParameter p m) =
    ''Invalid connection parameter '' @ [CHR 0x27] @ p @ [CHR 0x27] @ '': '' @ m"
| "show_connection_error (ParseError m) = ''Failed to parse connection string: '' @ m"
| "show_connection_error (ConnectTimeout ms) = ''Connection timeout after '' @ show_nat (unat ms) @ ''ms''"
| "show_connection_error ConnectionClosed = ''Connection is closed''"
| "show_connection_error (ConnectTlsError m) = ''TLS error: '' @ m"

fun show_query_error :: "QueryError \<Rightarrow> string" where
  "show_query_error (SyntaxError p m) = ''SQL syntax error at position '' @ show_nat p @ '': '' @ m"
| "show_query_error (ExecutionFailed m) = ''Query execution failed: '' @ m"
| "show_query_error (QueryTimeout ms) = ''Query timeout after '' @ show_nat (unat ms) @ ''ms''"
| "show_query_error (InvalidState m) = ''Invalid query state: '' @ m"
| "show_query_error (ParameterBindingError i m) =
    ''Parameter binding error for parameter '' @ show_nat i @ '': '' @ m"
| "show_query_error (NoResultSet m) = ''Result set not available: '' @ m"
| "show_query_error (TransactionError m) = ''Transaction error: '' @ m"
| "show_query_error SqlInjectionDetected = ''Potential SQL injection detected''"
| "show_query_error StatementClosed = ''Prepared statement has been closed''"
| "show_query_error UnexpectedResultSet = ''Expected row count but received result set''"

type_synonym 'a rd = "(TransportError, 'a) reader"

text \<open>A function that neither panics nor runs forever: it returns or reports an error.\<close>

definition graceful :: "('e, 'a) result \<Rightarrow> bool" where
  "graceful r \<longleftrightarrow> r \<noteq> Inl Panic \<and> r \<noteq> Inl Diverged"

lemma graceful_simps [simp]:
  "graceful (Inr x)" "graceful (fail e)" "\<not> graceful (Inl Panic)" "\<not> graceful (Inl Diverged)"
  by (simp_all add: graceful_def)

lemma graceful_rbind [intro]:
  "graceful m \<Longrightarrow> (\<And>x. m = Inr x \<Longrightarrow> graceful (f x)) \<Longrightarrow> graceful (rbind m f)"
  by (cases m) (auto simp: graceful_def)

lemma graceful_pbind:
  "graceful (p off) \<Longrightarrow> (\<And>x off'. p off = Inr (x, off') \<Longrightarrow> graceful (f x off')) \<Longrightarrow>
    graceful (pbind p f off)"
  by (auto simp: pbind_def)

lemma graceful_preturn [simp]: "graceful (preturn x off)"
  by (simp add: preturn_def)

lemma graceful_pfail [simp]: "graceful (pfail e off)"
  by (simp add: pfail_def)

lemma graceful_prepeat:
  "(\<And>off. graceful (p off)) \<Longrightarrow> graceful (prepeat n p off)"
  by (induction n arbitrary: off) (simp_all add: graceful_pbind)

end
