(* ===== verification/Conversion.thy ===== *)
theory Conversion
  imports Errors
begin

text \<open>
  Text and calendar conversions (\<open>src/types/conversion.rs\<close>), which the wire decoder, the
  parameter encoder and the importers share. Numbers of the source are \<^typ>\<open>int\<close> with
  their range; \<open>i_arith\<close> gives the result of an operator at its width, a panic when it
  overflows under overflow checks (\<open>ovf\<close>) and the wrapped value otherwise. Errors are the
  \<open>String\<close> of the source. The calendar functions that call the \<open>chrono\<close> crate are in the
  theory \<open>Calendar\<close>, with the lemmas on dates; those on intervals and decimals are in
  \<open>Conversion_Laws\<close>.
\<close>

subsection \<open>Machine arithmetic on signed integers\<close>

definition in_signed :: "nat \<Rightarrow> int \<Rightarrow> bool" where
  "in_signed w x \<longleftrightarrow> - (2 ^ (w - 1)) \<le> x \<and> x < 2 ^ (w - 1)"

definition wrap_signed :: "nat \<Rightarrow> int \<Rightarrow> int" where
  "wrap_signed w x = (x + 2 ^ (w - 1)) mod 2 ^ w - 2 ^ (w - 1)"

definition i_arith :: "bool \<Rightarrow> nat \<Rightarrow> int \<Rightarrow> (string, int) result" where
  "i_arith ovf w x =
    (if in_signed w x then Inr x else if ovf then Inl Panic else Inr (wrap_signed w x))"

text \<open>\<open>checked_add\<close>, \<open>checked_mul\<close> and their kin: \<open>None\<close> on overflow.\<close>

definition checked :: "nat \<Rightarrow> int \<Rightarrow> int option" where
  "checked w x = (if in_signed w x then Some x else None)"

text \<open>\<open>a / b\<close> and \<open>a % b\<close> on integers truncate towards zero.\<close>

definition trunc_div :: "int \<Rightarrow> int \<Rightarrow> int" where
  "trunc_div a b = sgn a * sgn b * (\<bar>a\<bar> div \<bar>b\<bar>)"

definition trunc_rem :: "int \<Rightarrow> int \<Rightarrow> int" where
  "trunc_rem a b = a - b * trunc_div a b"

definition parse_or :: "'a option \<Rightarrow> string \<Rightarrow> (string, 'a) result" where
  "parse_or v msg = (case v of None \<Rightarrow> fail msg | Some x \<Rightarrow> Inr x)"

text \<open>\<open>&s[..n]\<close> on a \<open>str\<close>: panics when \<open>n\<close> is past the end or inside a character.\<close>

definition str_prefix :: "nat \<Rightarrow> string \<Rightarrow> (string, string) result" where
  "str_prefix n s =
    (if n \<le> length s \<and> (n < length s \<longrightarrow> \<not> utf8_tail (byte_of_char (s ! n)))
     then Inr (take n s) else Inl Panic)"

subsection \<open>Dates\<close>

definition days_before_month :: "nat \<Rightarrow> int" where
  "days_before_month m =
    (if m = 2 then 31 else if m = 3 then 59 else if m = 4 then 90 else if m = 5 then 120
     else if m = 6 then 151 else if m = 7 then 181 else if m = 8 then 212 else if m = 9 then 243
     else if m = 10 then 273 else if m = 11 then 304 else if m = 12 then 334 else 0)"

definition is_leap_year :: "int \<Rightarrow> bool" where
  "is_leap_year y \<longleftrightarrow> trunc_rem y 4 = 0 \<and> trunc_rem y 100 \<noteq> 0 \<or> trunc_rem y 400 = 0"

definition ymd_to_days :: "bool \<Rightarrow> int \<Rightarrow> nat \<Rightarrow> nat \<Rightarrow> (string, int) result" where
  "ymd_to_days ovf year month day =
    (let ar = i_arith ovf 32 in
     rbind (ar (year - 1970)) (\<lambda>a. rbind (ar (a * 365)) (\<lambda>a.
     rbind (ar (year - 1969)) (\<lambda>b. rbind (ar (a + b div 4)) (\<lambda>s.
     rbind (ar (year - 1901)) (\<lambda>c. rbind (ar (s - c div 100)) (\<lambda>s.
     rbind (ar (year - 1601)) (\<lambda>e. rbind (ar (s + e div 400)) (\<lambda>days_from_year.
     let leap_adjustment = (if 2 < month \<and> is_leap_year year then 1 else 0) in
     rbind (ar (days_from_year + days_before_month month)) (\<lambda>t.
     rbind (ar (t + wrap_signed 32 (int day))) (\<lambda>t.
     rbind (ar (t - 1)) (\<lambda>t. ar (t + leap_adjustment)))))))))))))"

definition parse_date_to_days :: "bool \<Rightarrow> string \<Rightarrow> (string, int) result" where
  "parse_date_to_days ovf date_str =
    (case split_on (CHR ''-'') date_str of
      [y, m, d] \<Rightarrow>
        rbind (parse_or (parse_i32 y) (''Invalid year: '' @ y)) (\<lambda>year.
        rbind (parse_or (parse_u32 m) (''Invalid month: '' @ m)) (\<lambda>month.
        rbind (parse_or (parse_u32 d) (''Invalid day: '' @ d)) (\<lambda>day.
        if \<not> (1 \<le> month \<and> month \<le> 12) then fail (''Month out of range: '' @ show_nat month)
        else if \<not> (1 \<le> day \<and> day \<le> 31) then fail (''Day out of range: '' @ show_nat day)
        else ymd_to_days ovf year month day)))
    | _ \<Rightarrow> fail (''Invalid date format: '' @ date_str @ '' (expected YYYY-MM-DD)''))"

definition ymd_hms_nanos_to_micros ::
  "bool \<Rightarrow> int \<Rightarrow> nat \<Rightarrow> nat \<Rightarrow> nat \<Rightarrow> nat \<Rightarrow> nat \<Rightarrow> int \<Rightarrow> (string, int) result" where
  "ymd_hms_nanos_to_micros ovf year month day hour minute second nanos =
    (let ar = i_arith ovf 64 in
     rbind (ymd_to_days ovf year month day) (\<lambda>days.
     rbind (ar (days * 86400)) (\<lambda>s. rbind (ar (s * 1000000)) (\<lambda>micros.
     rbind (ar (wrap_signed 64 (int hour) * 3600)) (\<lambda>h. rbind (ar (h * 1000000)) (\<lambda>h.
     rbind (ar (micros + h)) (\<lambda>micros.
     rbind (ar (wrap_signed 64 (int minute) * 60)) (\<lambda>mi. rbind (ar (mi * 1000000)) (\<lambda>mi.
     rbind (ar (micros + mi)) (\<lambda>micros.
     rbind (ar (wrap_signed 64 (int second) * 1000000)) (\<lambda>se.
     rbind (ar (micros + se)) (\<lambda>micros. ar (micros + trunc_div nanos 1000)))))))))))))"

subsection \<open>Date and timestamp parameter text\<close>

record TemporalFields =
  tf_year :: nat
  tf_month :: nat
  tf_day :: nat
  tf_hour :: nat
  tf_minute :: nat
  tf_second :: nat
  tf_nanos :: nat

definition digits :: "string \<Rightarrow> nat \<Rightarrow> nat option" where
  "digits part max_len =
    (if part = [] \<or> max_len < length part \<or> \<not> list_all is_ascii_digit part then None
     else parse_u32 part)"

definition parse_time_fields :: "TemporalFields \<Rightarrow> string \<Rightarrow> TemporalFields option" where
  "parse_time_fields flds time =
    (let parts = splitn 3 (CHR '':'') time in
     case parts of [] \<Rightarrow> None | h # parts \<Rightarrow>
     Option.bind (digits h 2) (\<lambda>hour.
     let flds = flds\<lparr>tf_hour := hour\<rparr> in
     case parts of [] \<Rightarrow> Some flds | mi # parts \<Rightarrow>
     Option.bind (digits mi 2) (\<lambda>minute.
     let flds = flds\<lparr>tf_minute := minute\<rparr> in
     case parts of [] \<Rightarrow> Some flds | seconds # _ \<Rightarrow>
     let (sec, frac) = (case split_once (CHR ''.'') seconds of Some p \<Rightarrow> p | None \<Rightarrow> (seconds, [])) in
     Option.bind (digits sec 2) (\<lambda>second.
     if 9 < length frac \<or> \<not> list_all is_ascii_digit frac then None
     else Option.bind (parse_u32 (frac @ replicate (9 - length frac) (CHR ''0''))) (\<lambda>nanos.
       Some (flds\<lparr>tf_second := second, tf_nanos := nanos\<rparr>))))))"

definition parse_temporal_fields :: "string \<Rightarrow> TemporalFields option" where
  "parse_temporal_fields text =
    (let text = trim_matches (CHR '' '') text;
         (date, time) = (case split_once (CHR '' '') text of
             Some (date, time) \<Rightarrow> (date, Some (trim_start_matches (CHR '' '') time))
           | None \<Rightarrow> (text, None))
     in case split_on (CHR ''-'') date of
       [y, m, d] \<Rightarrow>
         Option.bind (digits y 4) (\<lambda>year. Option.bind (digits m 2) (\<lambda>month.
         Option.bind (digits d 2) (\<lambda>day.
         let flds = \<lparr>tf_year = year, tf_month = month, tf_day = day, tf_hour = 0,
                       tf_minute = 0, tf_second = 0, tf_nanos = 0\<rparr> in
         case time of None \<Rightarrow> Some flds | Some t \<Rightarrow> parse_time_fields flds t)))
     | _ \<Rightarrow> None)"

definition parse_timestamp_text :: "string \<Rightarrow> (string, TemporalFields) result" where
  "parse_timestamp_text text =
    parse_or (parse_temporal_fields text)
      (''Cannot read '' @ [CHR 39] @ text @ [CHR 39]
       @ '' as a timestamp, expected YYYY-MM-DD HH:MI:SS.FFFFFFFFF'')"

definition parse_date_text :: "string \<Rightarrow> (string, TemporalFields) result" where
  "parse_date_text text =
    parse_or (case parse_temporal_fields text of
        Some f \<Rightarrow> if tf_hour f \<le> 23 \<and> tf_minute f \<le> 60 \<and> tf_second f \<le> 60 then Some f else None
      | None \<Rightarrow> None)
      (''Cannot read '' @ [CHR 39] @ text @ [CHR 39] @ '' as a date, expected YYYY-MM-DD'')"

subsection \<open>Fractions and timestamps\<close>

definition fractional_seconds_to_units :: "string \<Rightarrow> nat \<Rightarrow> (string, int) result" where
  "fractional_seconds_to_units fraction unit_digits =
    (if unit_digits < length fraction then
       rbind (str_prefix unit_digits fraction) (\<lambda>p.
         Inr (case parse_i64 p of Some v \<Rightarrow> v | None \<Rightarrow> 0))
     else case parse_i64 fraction of
         None \<Rightarrow> Inr 0
       | Some value \<Rightarrow> Inr (max (- (2 ^ 63)) (min (2 ^ 63 - 1)
           (value * 10 ^ (unit_digits - length fraction)))))"

definition fractional_seconds_to_micros :: "string \<Rightarrow> (string, int) result" where
  "fractional_seconds_to_micros fraction = fractional_seconds_to_units fraction 6"

definition fractional_seconds_to_nanos :: "string \<Rightarrow> (string, int) result" where
  "fractional_seconds_to_nanos fraction = fractional_seconds_to_units fraction 9"

definition parse_seconds_field_to_micros :: "bool \<Rightarrow> string \<Rightarrow> (string, int) result" where
  "parse_seconds_field_to_micros ovf seconds_field =
    (let sec_parts = split_on (CHR ''.'') seconds_field in
     rbind (parse_or (parse_i64 (sec_parts ! 0)) (''Invalid second: '' @ sec_parts ! 0)) (\<lambda>seconds.
     rbind (i_arith ovf 64 (seconds * 1000000)) (\<lambda>micros.
     if 1 < length sec_parts then
       rbind (fractional_seconds_to_micros (sec_parts ! 1)) (\<lambda>f. i_arith ovf 64 (micros + f))
     else Inr micros)))"

definition parse_time_of_day_to_micros :: "bool \<Rightarrow> string \<Rightarrow> (string, int) result" where
  "parse_time_of_day_to_micros ovf time_str =
    (let time_parts = split_on (CHR '':'') time_str; ar = i_arith ovf 64 in
     if length time_parts < 2 then Inr 0 else
     rbind (parse_or (parse_i64 (time_parts ! 0)) (''Invalid hour: '' @ time_parts ! 0)) (\<lambda>hours.
     rbind (parse_or (parse_i64 (time_parts ! 1)) (''Invalid minute: '' @ time_parts ! 1)) (\<lambda>minutes.
     rbind (ar (hours * 3600)) (\<lambda>h. rbind (ar (h * 1000000)) (\<lambda>h.
     rbind (ar (minutes * 60)) (\<lambda>mi. rbind (ar (mi * 1000000)) (\<lambda>mi.
     rbind (ar (h + mi)) (\<lambda>micros.
     if 2 < length time_parts then
       rbind (parse_seconds_field_to_micros ovf (time_parts ! 2)) (\<lambda>s. ar (micros + s))
     else Inr micros))))))))"

definition parse_timestamp_to_micros :: "bool \<Rightarrow> string \<Rightarrow> (string, int) result" where
  "parse_timestamp_to_micros ovf timestamp_str =
    (let segments = split_on (CHR '' '') timestamp_str; ar = i_arith ovf 64 in
     rbind (parse_date_to_days ovf (segments ! 0)) (\<lambda>days.
     rbind (ar (days * 86400)) (\<lambda>s. rbind (ar (s * 1000000)) (\<lambda>date_micros.
     if 1 < length segments then
       rbind (parse_time_of_day_to_micros ovf (segments ! 1)) (\<lambda>t. ar (date_micros + t))
     else Inr date_micros))))"

subsection \<open>Intervals\<close>

record IntervalMonthDayNano =
  iv_months :: int
  iv_days :: int
  iv_nanoseconds :: int

definition interval_new :: "int \<Rightarrow> int \<Rightarrow> int \<Rightarrow> IntervalMonthDayNano" where
  "interval_new m d n = \<lparr>iv_months = m, iv_days = d, iv_nanoseconds = n\<rparr>"

definition parse_interval_months :: "string \<Rightarrow> string \<Rightarrow> (string, int) result" where
  "parse_interval_months body text =
    (case split_on (CHR ''-'') body of
      [y, m] \<Rightarrow>
        rbind (parse_or (parse_i64 y) (''Invalid years: '' @ y)) (\<lambda>years.
        rbind (parse_or (parse_i64 m) (''Invalid months: '' @ m)) (\<lambda>months.
        parse_or (Option.bind (checked 64 (years * 12)) (\<lambda>total. checked 64 (total + months)))
          (''Interval month count out of range: '' @ text)))
    | _ \<Rightarrow> fail (''Invalid interval format: '' @ text))"

definition parse_interval_seconds_to_nanos :: "string \<Rightarrow> (string, int) result" where
  "parse_interval_seconds_to_nanos seconds_text =
    (let parts = split_on (CHR ''.'') seconds_text;
         err = ''Interval seconds out of range: '' @ seconds_text in
     rbind (parse_or (parse_i64 (parts ! 0)) (''Invalid seconds: '' @ parts ! 0)) (\<lambda>seconds.
     rbind (parse_or (checked 64 (seconds * 1000000000)) err) (\<lambda>whole_nanos.
     rbind (if 1 < length parts then fractional_seconds_to_nanos (parts ! 1) else Inr 0) (\<lambda>f.
     parse_or (checked 64 (whole_nanos + f)) err))))"

definition parse_interval_time_to_nanos :: "string \<Rightarrow> (string, int) result" where
  "parse_interval_time_to_nanos time_text =
    (let flds = split_on (CHR '':'') time_text;
         err = ''Interval time out of range: '' @ time_text in
     if length flds < 2 then Inr 0 else
     rbind (parse_or (parse_i64 (flds ! 0)) (''Invalid hours: '' @ flds ! 0)) (\<lambda>hours.
     rbind (parse_or (parse_i64 (flds ! 1)) (''Invalid minutes: '' @ flds ! 1)) (\<lambda>minutes.
     rbind (parse_or (Option.bind (checked 64 (hours * 3600000000000)) (\<lambda>h.
              Option.bind (checked 64 (minutes * 60000000000)) (\<lambda>m. checked 64 (h + m)))) err) (\<lambda>nanos.
     if 2 < length flds then
       rbind (parse_interval_seconds_to_nanos (flds ! 2)) (\<lambda>s.
         parse_or (checked 64 (nanos + s)) err)
     else Inr nanos))))"

definition parse_interval_days_and_nanos :: "string \<Rightarrow> (string, int \<times> int) result" where
  "parse_interval_days_and_nanos body =
    (let segments = split_on (CHR '' '') body in
     rbind (parse_or (parse_i32 (segments ! 0)) (''Invalid days: '' @ segments ! 0)) (\<lambda>days.
     rbind (if 1 < length segments then parse_interval_time_to_nanos (segments ! 1) else Inr 0)
       (\<lambda>nanos. Inr (days, nanos))))"

definition parse_interval :: "bool \<Rightarrow> string \<Rightarrow> (string, IntervalMonthDayNano) result" where
  "parse_interval ovf text =
    (let (negative, body) = (case text of
        c # r \<Rightarrow> if c = CHR ''-'' then (True, r) else if c = CHR ''+'' then (False, r) else (False, text)
      | [] \<Rightarrow> (False, text)) in
     if CHR ''-'' \<in> set body then
       rbind (parse_interval_months body text) (\<lambda>months.
       rbind (if negative then i_arith ovf 64 (- months) else Inr months) (\<lambda>signed_months.
       rbind (parse_or (checked 32 signed_months) (''Interval month count out of range: '' @ text))
         (\<lambda>months. Inr (interval_new months 0 0))))
     else
       rbind (parse_interval_days_and_nanos body) (\<lambda>(days, nanoseconds).
       if negative then
         rbind (i_arith ovf 32 (- days)) (\<lambda>d. rbind (i_arith ovf 64 (- nanoseconds)) (\<lambda>n.
           Inr (interval_new 0 d n)))
       else Inr (interval_new 0 days nanoseconds)))"

definition format_interval_year_to_month :: "int \<Rightarrow> string" where
  "format_interval_year_to_month months =
    (let sign = (if months < 0 then ''-'' else []); magnitude = nat \<bar>months\<bar> in
     sign @ show_nat (magnitude div 12) @ ''-'' @ pad_zero 2 (show_nat (magnitude mod 12)))"

definition format_interval_day_to_second :: "int \<Rightarrow> int \<Rightarrow> (string, string) result" where
  "format_interval_day_to_second days milliseconds =
    (let out_of_range = ''Interval value of '' @ show_int days @ '' days and '' @ show_int milliseconds
        @ '' milliseconds is out of range, because INTERVAL DAY(9) TO SECOND holds at most 999,999,999 days'' in
     rbind (parse_or (Option.bind (checked 64 (days * 86400000)) (\<lambda>dm. checked 64 (dm + milliseconds)))
        out_of_range) (\<lambda>total.
     let magnitude = nat \<bar>total\<bar>; whole_days = magnitude div 86400000 in
     if 999999999 < whole_days then fail out_of_range
     else
       let time = magnitude mod 86400000; sign = (if total < 0 then ''-'' else []) in
       Inr (sign @ show_nat whole_days @ '' '' @ pad_zero 2 (show_nat (time div 3600000)) @ '':''
         @ pad_zero 2 (show_nat (time div 60000 mod 60)) @ '':''
         @ pad_zero 2 (show_nat (time div 1000 mod 60)) @ ''.'' @ pad_zero 3 (show_nat (time mod 1000)))))"

definition format_interval_month_day_nano :: "IntervalMonthDayNano \<Rightarrow> (string, string) result" where
  "format_interval_month_day_nano v =
    (let described = ''Interval value of '' @ show_int (iv_months v) @ '' months, '' @ show_int (iv_days v)
        @ '' days, and '' @ show_int (iv_nanoseconds v) @ '' nanoseconds'' in
     if iv_months v \<noteq> 0 then
       fail (described @ '' has a month component, but Exasol INTERVAL DAY TO SECOND has no month component'')
     else if trunc_rem (iv_nanoseconds v) 1000000 \<noteq> 0 then
       fail (described @ '' has a fraction of a millisecond, but Exasol stores INTERVAL DAY TO SECOND values in whole milliseconds'')
     else format_interval_day_to_second (iv_days v) (trunc_div (iv_nanoseconds v) 1000000))"

subsection \<open>Decimals\<close>

text \<open>
  \<open>scale\<close> is an \<open>i8\<close>; \<open>scale as u32\<close> and \<open>scale as usize\<close> sign-extend it.
\<close>

definition parse_decimal_to_i128 :: "bool \<Rightarrow> string \<Rightarrow> int \<Rightarrow> (string, int) result" where
  "parse_decimal_to_i128 ovf value_str scale =
    (let overflow = ''Numeric overflow for value: '' @ value_str in
     rbind (case split_on (CHR ''.'') value_str of
         [i] \<Rightarrow> Inr (i, [])
       | [i, f] \<Rightarrow> Inr (i, f)
       | _ \<Rightarrow> fail (''Invalid decimal format: '' @ value_str)) (\<lambda>(integer_part, decimal_part).
     rbind (parse_or (parse_i128 integer_part) (''Invalid integer part: '' @ integer_part)) (\<lambda>integer.
     rbind (i_arith ovf 128 (10 ^ nat (scale mod 2 ^ 32))) (\<lambda>p.
     rbind (parse_or (checked 128 (integer * p)) overflow) (\<lambda>scaled.
     if decimal_part = [] then Inr scaled
     else
       let decimal_digits = min (length decimal_part) (nat (scale mod 2 ^ 64)) in
       rbind (str_prefix decimal_digits decimal_part) (\<lambda>prefix.
       rbind (parse_or (parse_i128 prefix) (''Invalid decimal part: '' @ decimal_part)) (\<lambda>decimal_value.
       rbind (i_arith ovf 128 (10 ^ (nat (scale mod 2 ^ 64) - decimal_digits))) (\<lambda>q.
       rbind (i_arith ovf 128 (decimal_value * q)) (\<lambda>scaled_decimal.
       parse_or (checked 128 (if take 1 integer_part = ''-'' then scaled - scaled_decimal
                              else scaled + scaled_decimal)) overflow)))))))))"

end
