(* ===== verification/Calendar.thy ===== *)
theory Calendar
  imports Conversion
begin

text \<open>
  The calendar arithmetic of \<open>src/types/conversion.rs\<close> against the Gregorian calendar, and
  the date formatters that call the \<open>chrono\<close> crate. The reference is \<open>next_day\<close>, the
  calendar as a step function on (year, month, day): \<open>ymd_to_days\<close> counts its steps from
  1970-01-01. Consequences: the count is injective on dates, and a formatted date parses
  back to the day it came from.
\<close>

type_synonym date = "int \<times> nat \<times> nat"

subsection \<open>The Gregorian calendar\<close>

definition gregorian_leap :: "int \<Rightarrow> bool" where
  "gregorian_leap y \<longleftrightarrow> 4 dvd y \<and> \<not> 100 dvd y \<or> 400 dvd y"

definition days_in_month :: "int \<Rightarrow> nat \<Rightarrow> nat" where
  "days_in_month y m =
    (if m = 2 then (if gregorian_leap y then 29 else 28)
     else if m \<in> {4, 6, 9, 11} then 30 else 31)"

fun valid_date :: "date \<Rightarrow> bool" where
  "valid_date (y, m, d) \<longleftrightarrow> 1 \<le> m \<and> m \<le> 12 \<and> 1 \<le> d \<and> d \<le> days_in_month y m"

fun next_day :: "date \<Rightarrow> date" where
  "next_day (y, m, d) =
    (if d < days_in_month y m then (y, m, d + 1)
     else if m < 12 then (y, m + 1, 1) else (y + 1, 1, 1))"

text \<open>The day count without machine arithmetic.\<close>

fun days_from_civil :: "date \<Rightarrow> int" where
  "days_from_civil (y, m, d) =
    (y - 1970) * 365 + (y - 1969) div 4 - (y - 1901) div 100 + (y - 1601) div 400
    + days_before_month m + int d - 1 + (if 2 < m \<and> gregorian_leap y then 1 else 0)"

lemma trunc_rem_nonneg: "0 \<le> a \<Longrightarrow> 0 < k \<Longrightarrow> trunc_rem a k = a mod k"
  by (cases "a = 0") (simp_all add: trunc_rem_def trunc_div_def minus_mult_div_eq_mod)

lemma trunc_rem_neg: "a < 0 \<Longrightarrow> 0 < k \<Longrightarrow> trunc_rem a k = - ((- a) mod k)"
  by (simp add: trunc_rem_def trunc_div_def minus_mult_div_eq_mod [symmetric])

lemma trunc_rem_0_iff: "0 < k \<Longrightarrow> trunc_rem a k = 0 \<longleftrightarrow> k dvd a"
  by (cases "0 \<le> a") (simp_all add: trunc_rem_nonneg trunc_rem_neg flip: dvd_eq_mod_eq_0)

lemma is_leap_year_eq: "is_leap_year = gregorian_leap"
  by (simp add: fun_eq_iff is_leap_year_def gregorian_leap_def trunc_rem_0_iff)

lemma days_before_month_bounds: "0 \<le> days_before_month m \<and> days_before_month m \<le> 334"
  by (simp add: days_before_month_def)

lemma i_arith_in: "in_signed w x \<Longrightarrow> i_arith ovf w x = Inr x"
  by (simp add: i_arith_def)

lemma wrap_signed_in: "in_signed w x \<Longrightarrow> 0 < w \<Longrightarrow> wrap_signed w x = x"
proof -
  assume *: "in_signed w x" "0 < w"
  then obtain v where w: "w = Suc v" by (cases w) auto
  with * have "0 \<le> x + 2 ^ v" "x + 2 ^ v < 2 ^ w" by (auto simp: in_signed_def)
  then show ?thesis by (simp add: wrap_signed_def w)
qed

text \<open>
  No intermediate sum leaves \<open>i32\<close> for the years up to five million, which covers every
  year the wire formats and the date text of the driver can carry.
\<close>

lemma ymd_to_days_eq:
  assumes y: "-5000000 \<le> y" "y \<le> 5000000" and d: "d \<le> 1000000"
  shows "ymd_to_days ovf y m d = Inr (days_from_civil (y, m, d))"
proof -
  note b = days_before_month_bounds [of m]
  define A B C where "A = (y - 1969) div 4" and "B = (y - 1901) div 100" and "C = (y - 1601) div 400"
  have q: "-1300000 \<le> A" "A \<le> 1300000" "-60000 \<le> B" "B \<le> 60000" "-60000 \<le> C" "C \<le> 60000"
    using y zdiv_mono1 [of "y - 1969" 4998031 4] zdiv_mono1 [of "-5001969" "y - 1969" 4]
      zdiv_mono1 [of "y - 1901" 4998099 100] zdiv_mono1 [of "-5001901" "y - 1901" 100]
      zdiv_mono1 [of "y - 1601" 4998399 400] zdiv_mono1 [of "-5001601" "y - 1601" 400]
    unfolding A_def B_def C_def by simp_all
  have r: "in_signed 32 (y - 1970)" "in_signed 32 ((y - 1970) * 365)" "in_signed 32 (y - 1969)"
    "in_signed 32 ((y - 1970) * 365 + A)" "in_signed 32 (y - 1901)"
    "in_signed 32 ((y - 1970) * 365 + A - B)" "in_signed 32 (y - 1601)"
    "in_signed 32 ((y - 1970) * 365 + A - B + C)"
    using y q unfolding in_signed_def by simp_all
  define s where "s = (y - 1970) * 365 + A - B + C"
  have s: "-1900000000 \<le> s" "s \<le> 1900000000" using y q unfolding s_def by simp_all
  have day: "wrap_signed 32 (int d) = int d"
    using d by (intro wrap_signed_in) (simp_all add: in_signed_def)
  have t: "in_signed 32 (s + days_before_month m)" "in_signed 32 (s + days_before_month m + int d)"
    "in_signed 32 (s + days_before_month m + int d - 1)"
    "in_signed 32 (s + days_before_month m + int d - 1 + (if 2 < m \<and> gregorian_leap y then 1 else 0))"
    using s b d unfolding in_signed_def by simp_all
  show ?thesis
    unfolding ymd_to_days_def Let_def days_from_civil.simps is_leap_year_eq day
    by (simp only: A_def [symmetric] B_def [symmetric] C_def [symmetric] r [THEN i_arith_in] t [unfolded s_def, THEN i_arith_in] rbind.simps)
qed

subsection \<open>Counting days\<close>

lemma div_succ: "0 < k \<Longrightarrow> (x + 1) div k = x div k + (if k dvd x + 1 then 1 else 0)" for k x :: int
proof -
  assume k: "0 < k"
  have x: "x + 1 = k * (x div k) + (x mod k + 1)" by (simp add: mult_div_mod_eq)
  have m: "0 \<le> x mod k" "x mod k < k" using k by simp_all
  show ?thesis
  proof (cases "x mod k + 1 = k")
    case True
    then have e: "x + 1 = k * (x div k + 1)" using x by (simp add: algebra_simps)
    then have "k dvd x + 1" by simp
    then show ?thesis using k by (simp only: e) simp
  next
    case False
    then have r: "0 \<le> x mod k + 1" "x mod k + 1 < k" using m by simp_all
    from int_div_pos_eq [OF x r] int_mod_pos_eq [OF x r]
    have "(x + 1) div k = x div k" "(x + 1) mod k = x mod k + 1" .
    then show ?thesis using m by (simp add: dvd_eq_mod_eq_0)
  qed
qed

lemma days_from_civil_new_year:
  "days_from_civil (y + 1, 1, 1) = days_from_civil (y, 12, 31) + 1"
proof -
  have e: "y + 1 - 1969 = (y - 1969) + 1" "y + 1 - 1901 = (y - 1901) + 1"
    "y + 1 - 1601 = (y - 1601) + 1" by simp_all
  have "4 dvd y - 1969 + 1 \<longleftrightarrow> 4 dvd y" "100 dvd y - 1901 + 1 \<longleftrightarrow> 100 dvd y"
    "400 dvd y - 1601 + 1 \<longleftrightarrow> 400 dvd y" by presburger+
  moreover have "400 dvd y \<longrightarrow> 100 dvd y" "100 dvd y \<longrightarrow> 4 dvd y" by presburger+
  ultimately show ?thesis
    unfolding days_from_civil.simps e div_succ [of 4, simplified] div_succ [of 100, simplified]
      div_succ [of 400, simplified]
    by (auto simp: days_before_month_def gregorian_leap_def)
qed

lemma days_from_civil_new_month:
  assumes "1 \<le> m" "m < 12"
  shows "days_from_civil (y, m + 1, 1) = days_from_civil (y, m, days_in_month y m) + 1"
proof -
  have "m = 1 \<or> m = 2 \<or> m = 3 \<or> m = 4 \<or> m = 5 \<or> m = 6 \<or> m = 7 \<or> m = 8 \<or> m = 9 \<or> m = 10 \<or> m = 11"
    using assms by arith
  then show ?thesis by (elim disjE) (simp_all add: days_before_month_def days_in_month_def)
qed

lemma days_from_civil_next:
  assumes "valid_date t"
  shows "days_from_civil (next_day t) = days_from_civil t + 1"
proof -
  obtain y m d where t: "t = (y, m, d)" by (cases t) auto
  consider "d < days_in_month y m" | "d = days_in_month y m" "m < 12" | "d = days_in_month y m" "m = 12"
    using assms t by fastforce
  then show ?thesis
  proof cases
    case 2
    then show ?thesis using days_from_civil_new_month [of m y] assms t by simp
  next
    case 3
    then have "d = 31" by (simp add: days_in_month_def)
    then show ?thesis using days_from_civil_new_year [of y] 3 t by simp
  qed (simp add: t)
qed

lemma valid_date_next: "valid_date t \<Longrightarrow> valid_date (next_day t)"
  by (cases t) (auto simp: days_in_month_def)

lemma days_from_civil_iterate:
  "valid_date t \<Longrightarrow> valid_date ((next_day ^^ n) t)
    \<and> days_from_civil ((next_day ^^ n) t) = days_from_civil t + int n"
  by (induction n) (auto simp: days_from_civil_next valid_date_next)

text \<open>The day number of the code counts calendar days.\<close>

lemma ymd_to_days_counts:
  assumes "valid_date (y, m, d)" "next_day (y, m, d) = (y', m', d')" "-4999999 \<le> y" "y \<le> 4999999"
  shows "\<exists>n. ymd_to_days ovf y m d = Inr n \<and> ymd_to_days ovf y' m' d' = Inr (n + 1)
    \<and> ymd_to_days ovf 1970 1 1 = Inr 0"
proof -
  have b: "d \<le> 31" "d' \<le> 31" "y \<le> y'" "y' \<le> y + 1"
    using assms(1,2) by (auto simp: days_in_month_def split: if_splits)
  have "ymd_to_days ovf 1970 1 1 = Inr (days_from_civil (1970, 1, 1))" by (rule ymd_to_days_eq) simp_all
  moreover have "days_from_civil (1970, 1, 1) = 0" by (simp add: days_before_month_def)
  ultimately show ?thesis
    using assms b days_from_civil_next [OF assms(1)]
    by (simp add: ymd_to_days_eq del: days_from_civil.simps next_day.simps)
qed

declare valid_date.simps [simp del] days_from_civil.simps [simp del] next_day.simps [simp del]

subsection \<open>Formatting dates\<close>

text \<open>
  The calls into the \<open>chrono\<close> crate, as a parameter of the formatters: a \<open>NaiveDate\<close> from
  its day number (1 is 0001-01-01), a UTC instant from its microseconds, their years and
  their \<open>strftime\<close> texts.
\<close>

record ('d, 't) chrono =
  from_num_days_from_ce_opt :: "int \<Rightarrow> 'd option"
  date_year :: "'d \<Rightarrow> int"
  date_format :: "'d \<Rightarrow> string"
  from_timestamp_micros :: "int \<Rightarrow> 't option"
  instant_year :: "'t \<Rightarrow> int"
  instant_format :: "'t \<Rightarrow> string"

definition exasol_year :: "int \<Rightarrow> bool" where
  "exasol_year y \<longleftrightarrow> 1 \<le> y \<and> y \<le> 9999"

definition format_date32 :: "('d, 't) chrono \<Rightarrow> int \<Rightarrow> (string, string) result" where
  "format_date32 K days =
    (let err = ''Date32 value '' @ show_int days
        @ '' is outside 0001-01-01 to 9999-12-31, the range Exasol accepts'' in
     case Option.bind (checked 32 (days + 719163)) (from_num_days_from_ce_opt K) of
       None \<Rightarrow> fail err
     | Some date \<Rightarrow> if exasol_year (date_year K date) then Inr (date_format K date) else fail err)"

definition format_date64 :: "('d, 't) chrono \<Rightarrow> int \<Rightarrow> (string, string) result" where
  "format_date64 K milliseconds =
    (let err = ''Date64 value '' @ show_int milliseconds
        @ '' is outside 0001-01-01 to 9999-12-31, the range Exasol accepts'' in
     case checked 32 (milliseconds div 86400000) of
       None \<Rightarrow> fail err
     | Some days \<Rightarrow> (case format_date32 K days of
           Inl (Failure _) \<Rightarrow> fail err
         | r \<Rightarrow> r))"

definition format_timestamp_micros :: "('d, 't) chrono \<Rightarrow> int \<Rightarrow> (string, string) result" where
  "format_timestamp_micros K micros =
    (let err = ''Timestamp value '' @ show_int micros @ '' microseconds is outside 0001-01-01 00:00:00''
        @ '' to 9999-12-31 23:59:59.999999, the range Exasol accepts'' in
     case from_timestamp_micros K micros of
       None \<Rightarrow> fail err
     | Some t \<Rightarrow> if exasol_year (instant_year K t) then Inr (instant_format K t) else fail err)"

datatype TimeUnit = Second | Millisecond | Microsecond | Nanosecond

fun timeunit_text :: "TimeUnit \<Rightarrow> string" where
  "timeunit_text Second = ''Second''"
| "timeunit_text Millisecond = ''Millisecond''"
| "timeunit_text Microsecond = ''Microsecond''"
| "timeunit_text Nanosecond = ''Nanosecond''"

definition timestamp_unit_to_micros :: "TimeUnit \<Rightarrow> int \<Rightarrow> (string, int) result" where
  "timestamp_unit_to_micros unit value =
    parse_or (case unit of
        Second \<Rightarrow> checked 64 (value * 1000000)
      | Millisecond \<Rightarrow> checked 64 (value * 1000)
      | Microsecond \<Rightarrow> Some value
      | Nanosecond \<Rightarrow> Some (value div 1000))
      (''Timestamp value '' @ show_int value @ '' in unit '' @ timeunit_text unit
       @ '' overflows when converted to microseconds'')"

definition format_timestamp :: "('d, 't) chrono \<Rightarrow> TimeUnit \<Rightarrow> int \<Rightarrow> (string, string) result" where
  "format_timestamp K unit value =
    rbind (timestamp_unit_to_micros unit value) (\<lambda>micros.
      case format_timestamp_micros K micros of
        Inl (Failure _) \<Rightarrow> fail (''Timestamp value '' @ show_int value @ '' in unit '' @ timeunit_text unit
          @ '' is outside 0001-01-01 00:00:00 to 9999-12-31 23:59:59.999999, the range Exasol accepts'')
      | r \<Rightarrow> r)"

subsection \<open>What chrono documents\<close>

definition iso_date :: "date \<Rightarrow> string" where
  "iso_date t = (case t of (y, m, d) \<Rightarrow>
    pad_zero 4 (show_nat (nat y)) @ ''-'' @ pad_zero 2 (show_nat m) @ ''-'' @ pad_zero 2 (show_nat d))"

definition chrono_date_ok :: "('d, 't) chrono \<Rightarrow> int \<Rightarrow> 'd \<Rightarrow> date \<Rightarrow> bool" where
  "chrono_date_ok K n date t \<longleftrightarrow> valid_date t \<and> days_from_civil t = n - 719163
    \<and> date_year K date = fst t \<and> (exasol_year (fst t) \<longrightarrow> date_format K date = iso_date t)"

definition chrono_dates :: "('d, 't) chrono \<Rightarrow> bool" where
  "chrono_dates K \<longleftrightarrow>
    (\<forall>n. case from_num_days_from_ce_opt K n of
        Some date \<Rightarrow> Ex (chrono_date_ok K n date)
      | None \<Rightarrow> n < 1 \<or> 3652059 < n)"

lemma parse_iso_date:
  assumes "valid_date (y, m, d)" "exasol_year y"
  shows "parse_date_to_days ovf (iso_date (y, m, d)) = Inr (days_from_civil (y, m, d))"
proof -
  have d: "d \<le> 31" using assms by (auto simp: valid_date.simps days_in_month_def split: if_splits)
  have nodash: "CHR ''-'' \<notin> set (pad_zero w (show_nat n))" for w n
    by (intro digits_no_char) simp_all
  have split: "split_on (CHR ''-'') (iso_date (y, m, d))
      = [pad_zero 4 (show_nat (nat y)), pad_zero 2 (show_nat m), pad_zero 2 (show_nat d)]"
    using nodash by (simp add: iso_date_def text_simps)
  have "ymd_to_days ovf y m d = Inr (days_from_civil (y, m, d))"
    using assms d by (intro ymd_to_days_eq) (simp_all add: exasol_year_def)
  then show ?thesis
    using assms d
    by (simp add: parse_date_to_days_def split parse_or_def exasol_year_def
        parse_signed_digits [OF parse_digits_pad_show] parse_unsigned_digits [OF parse_digits_pad_show]
        valid_date.simps)
qed

text \<open>The days of a year lie between its first of January and the next one.\<close>

lemma days_in_year_bounds:
  assumes "valid_date (y, m, d)"
  shows "days_from_civil (y, 1, 1) \<le> days_from_civil (y, m, d)
    \<and> days_from_civil (y, m, d) < days_from_civil (y + 1, 1, 1)"
proof -
  have "days_before_month m + int d + (if 2 < m \<and> gregorian_leap y then 1 else 0)
      \<le> 365 + (if gregorian_leap y then 1 else 0)"
    using assms by (auto simp: valid_date.simps days_before_month_def days_in_month_def split: if_splits)
  then have "days_from_civil (y, m, d) \<le> days_from_civil (y, 12, 31)"
    by (simp add: days_from_civil.simps days_before_month_def)
  moreover have "days_from_civil (y, 1, 1) \<le> days_from_civil (y, m, d)"
    using assms days_before_month_bounds [of m] by (simp add: valid_date.simps days_from_civil.simps days_before_month_def)
  ultimately show ?thesis using days_from_civil_new_year [of y] by simp
qed

lemma new_year_mono:
  assumes "a \<le> b"
  shows "days_from_civil (a, 1, 1) \<le> days_from_civil (b, 1, 1)"
  using assms
proof (induction b rule: int_ge_induct)
  case (step b)
  have "valid_date (b, 1, 1)" by (simp add: valid_date.simps days_in_month_def)
  from days_in_year_bounds [OF this] step show ?case by linarith
qed simp

lemma exasol_year_iff:
  assumes "valid_date (y, m, d)"
  shows "exasol_year y \<longleftrightarrow> -719162 \<le> days_from_civil (y, m, d) \<and> days_from_civil (y, m, d) \<le> 2932896"
proof -
  note b = days_in_year_bounds [OF assms]
  have e: "days_from_civil (1, 1, 1) = -719162" "days_from_civil (10000, 1, 1) = 2932897"
    by (simp_all add: days_from_civil.simps days_before_month_def)
  show ?thesis
  proof (cases "exasol_year y")
    case True
    then show ?thesis
      using b e new_year_mono [of 1 y] new_year_mono [of "y + 1" 10000]
      by (simp add: exasol_year_def)
  next
    case False
    then consider "y + 1 \<le> 1" | "10000 \<le> y" by (fastforce simp: exasol_year_def)
    then show ?thesis
      using b e False new_year_mono [of "y + 1" 1] new_year_mono [of 10000 y]
      by cases simp_all
  qed
qed

lemma chrono_datesD:
  assumes "chrono_dates K" "from_num_days_from_ce_opt K n = Some date"
  obtains y m d where "chrono_date_ok K n date (y, m, d)"
proof -
  from assms have "Ex (chrono_date_ok K n date)"
    by (auto simp: chrono_dates_def dest: spec [where x = n] simp del: split_paired_Ex)
  then obtain t where "chrono_date_ok K n date t" ..
  then show thesis using that by (cases t) blast
qed

lemma chrono_dates_None:
  "chrono_dates K \<Longrightarrow> from_num_days_from_ce_opt K n = None \<Longrightarrow> n < 1 \<or> 3652059 < n"
  by (auto simp: chrono_dates_def dest: spec [where x = n])

lemma format_date32_in_range:
  assumes K: "chrono_dates K" and n: "-719162 \<le> n" "n \<le> 2932896"
  obtains y m d where "valid_date (y, m, d)" "exasol_year y" "days_from_civil (y, m, d) = n"
    "format_date32 K n = Inr (iso_date (y, m, d))"
proof -
  have c: "checked 32 (n + 719163) = Some (n + 719163)" using n by (simp add: checked_def in_signed_def)
  obtain date where date: "from_num_days_from_ce_opt K (n + 719163) = Some date"
    using chrono_dates_None [OF K, of "n + 719163"] n by fastforce
  from chrono_datesD [OF K date] obtain y m d where t: "chrono_date_ok K (n + 719163) date (y, m, d)" .
  then have "exasol_year y" using exasol_year_iff [of y m d] n by (simp add: chrono_date_ok_def)
  with t date c show thesis
    by (intro that [of y m d]) (simp_all add: format_date32_def Let_def chrono_date_ok_def)
qed

lemma format_date32_outside:
  assumes K: "chrono_dates K" and n: "n < -719162 \<or> 2932896 < n"
  shows "\<exists>e. format_date32 K n = fail e"
proof (cases "Option.bind (checked 32 (n + 719163)) (from_num_days_from_ce_opt K)")
  case (Some date)
  then have date: "from_num_days_from_ce_opt K (n + 719163) = Some date"
    by (auto simp: checked_def split: if_splits)
  from chrono_datesD [OF K date] obtain y m d where t: "chrono_date_ok K (n + 719163) date (y, m, d)" .
  then have "\<not> exasol_year y" using exasol_year_iff [of y m d] n by (auto simp: chrono_date_ok_def)
  with Some t show ?thesis by (simp add: format_date32_def Let_def chrono_date_ok_def)
qed (simp add: format_date32_def Let_def)

lemma format_date32_parse:
  assumes K: "chrono_dates K"
  shows "if -719162 \<le> n \<and> n \<le> 2932896
    then \<exists>s. format_date32 K n = Inr s \<and> parse_date_to_days ovf s = Inr n
    else \<exists>e. format_date32 K n = fail e"
proof (cases "-719162 \<le> n \<and> n \<le> 2932896")
  case True
  then obtain y m d where "valid_date (y, m, d)" "exasol_year y" "days_from_civil (y, m, d) = n"
    "format_date32 K n = Inr (iso_date (y, m, d))" using format_date32_in_range [OF K] by blast
  then show ?thesis using True parse_iso_date [of y m d ovf] by auto
next
  case False
  then show ?thesis using format_date32_outside [OF K, of n] by auto
qed

text \<open>A date library that counts \<open>next_day\<close> steps satisfies the documented behaviour.\<close>

definition counting_chrono :: "(date, unit) chrono" where
  "counting_chrono = \<lparr>from_num_days_from_ce_opt =
      (\<lambda>n. if 1 \<le> n \<and> n \<le> 3652059 then Some ((next_day ^^ nat (n - 1)) (1, 1, 1)) else None),
    date_year = fst, date_format = iso_date,
    from_timestamp_micros = (\<lambda>_. None), instant_year = (\<lambda>_. 0), instant_format = (\<lambda>_. [])\<rparr>"

lemma chrono_dates_counting: "chrono_dates counting_chrono"
proof -
  have "valid_date (1, 1, 1)" "days_from_civil (1, 1, 1) = -719162"
    by (simp_all add: valid_date.simps days_from_civil.simps days_in_month_def days_before_month_def)
  then have ok: "chrono_date_ok counting_chrono n ((next_day ^^ nat (n - 1)) (1, 1, 1))
      ((next_day ^^ nat (n - 1)) (1, 1, 1))" if "1 \<le> n" for n
    using days_from_civil_iterate [of "(1, 1, 1)" "nat (n - 1)"] that
    by (simp add: chrono_date_ok_def counting_chrono_def)
  have "from_num_days_from_ce_opt counting_chrono n =
      (if 1 \<le> n \<and> n \<le> 3652059 then Some ((next_day ^^ nat (n - 1)) (1, 1, 1)) else None)" for n
    by (simp add: counting_chrono_def)
  then show ?thesis using ok unfolding chrono_dates_def by (auto simp del: split_paired_Ex)
qed

end
