(* ===== verification/Arrow.thy ===== *)
theory Arrow
  imports Calendar Constants
begin

text \<open>
  The part of the Arrow data model that the driver builds results in, and the calls into
  the \<open>arrow\<close> crate and the allocator, which are parameters of the model. A column is a
  list of optional cells, what a typed builder holds after its \<open>append_value\<close> and
  \<open>append_null\<close> calls; a batch pairs the fields with the columns.
\<close>

datatype ArrowDataType =
    BooleanT | Utf8 | Binary | Float64 | Int32 | Int64 | Date32
  | Decimal128 nat int
  | Timestamp TimeUnit "string option"
  | IntervalMonthDayNanoT

record Field =
  field_name :: string
  field_type :: ArrowDataType
  field_nullable :: bool

datatype cell =
    CFloat64 u64
  | CBoolean bool
  | CBinary "byte list"
  | CInterval IntervalMonthDayNano
  | CDecimal int
  | CDate int
  | CTimestamp int
  | CUtf8 string
  | CInt32 int
  | CInt64 int

type_synonym column = "cell option list"

text \<open>One decoded column: the Arrow field and the array (\<open>BuiltColumn\<close>).\<close>

type_synonym BuiltColumn = "Field \<times> column"

record RecordBatch =
  rb_fields :: "Field list"
  rb_columns :: "column list"
  rb_num_rows :: nat

text \<open>
  What surrounds the wire parser: the build profile, the allocator's answer to a request
  for \<open>n\<close> elements, \<open>RecordBatch::try_new\<close> and \<open>try_new_with_options\<close> of the \<open>arrow\<close>
  crate, and the fuel of the one loop that may not end (\<open>parse_handle_only_at\<close>).
\<close>

record native_env =
  overflow_checks :: bool
  reserve :: "nat \<Rightarrow> bool"
  rb_try_new :: "Field list \<Rightarrow> column list \<Rightarrow> string + RecordBatch"
  rb_try_new_rows :: "nat \<Rightarrow> string + RecordBatch"
  fuel :: nat

definition alloc :: "native_env \<Rightarrow> nat \<Rightarrow> ('e, unit) result" where
  "alloc E n = (if reserve E n then Inr () else Inl Panic)"

text \<open>
  The documented behaviour of \<open>RecordBatch::try_new\<close>: at least one column, as many columns
  as fields, all of one length, each of its field's type give a batch of that length.
\<close>

primrec cell_has_type :: "ArrowDataType \<Rightarrow> cell \<Rightarrow> bool" where
  "cell_has_type t (CFloat64 v) \<longleftrightarrow> t = Float64"
| "cell_has_type t (CBoolean v) \<longleftrightarrow> t = BooleanT"
| "cell_has_type t (CBinary v) \<longleftrightarrow> t = Binary"
| "cell_has_type t (CInterval v) \<longleftrightarrow> t = IntervalMonthDayNanoT"
| "cell_has_type t (CDecimal v) \<longleftrightarrow> (case t of Decimal128 _ _ \<Rightarrow> True | _ \<Rightarrow> False)"
| "cell_has_type t (CDate v) \<longleftrightarrow> t = Date32"
| "cell_has_type t (CTimestamp v) \<longleftrightarrow> (case t of Timestamp u _ \<Rightarrow> u = Microsecond | _ \<Rightarrow> False)"
| "cell_has_type t (CUtf8 v) \<longleftrightarrow> t = Utf8"
| "cell_has_type t (CInt32 v) \<longleftrightarrow> t = Int32"
| "cell_has_type t (CInt64 v) \<longleftrightarrow> t = Int64"

definition column_ok :: "nat \<Rightarrow> BuiltColumn \<Rightarrow> bool" where
  "column_ok n c \<longleftrightarrow> length (snd c) = n \<and> field_nullable (fst c)
    \<and> (\<forall>x. Some x \<in> set (snd c) \<longrightarrow> cell_has_type (field_type (fst c)) x)"

definition arrow_documented :: "native_env \<Rightarrow> bool" where
  "arrow_documented E \<longleftrightarrow>
    (\<forall>n cs. cs \<noteq> [] \<longrightarrow> list_all (column_ok n) cs \<longrightarrow>
      rb_try_new E (map fst cs) (map snd cs) =
        Inr \<lparr>rb_fields = map fst cs, rb_columns = map snd cs, rb_num_rows = n\<rparr>)"

definition lift_arrow :: "string \<Rightarrow> string + RecordBatch \<Rightarrow> (TransportError, RecordBatch) result" where
  "lift_arrow msg r = (case r of Inl e \<Rightarrow> fail (ProtocolError (msg @ e)) | Inr b \<Rightarrow> Inr b)"

definition map_err :: "('e \<Rightarrow> 'f) \<Rightarrow> ('e, 'a) result \<Rightarrow> ('f, 'a) result" where
  "map_err f r = (case r of
      Inl (Failure e) \<Rightarrow> fail (f e)
    | Inl Panic \<Rightarrow> Inl Panic
    | Inl Diverged \<Rightarrow> Inl Diverged
    | Inr x \<Rightarrow> Inr x)"

lemma map_err_Inr_iff [res_simps]: "map_err f r = Inr x \<longleftrightarrow> r = Inr x"
  by (auto simp: map_err_def split: sum.splits fault.splits)

lemma map_err_simps [simp]:
  "map_err f (Inr x) = Inr x" "map_err f (fail e) = fail (f e)" "map_err f (Inl Panic) = Inl Panic"
  by (simp_all add: map_err_def)

lemma graceful_map_err [simp]: "graceful (map_err f r) = graceful r"
  by (auto simp: map_err_def graceful_def split: sum.splits fault.splits)

text \<open>An environment as documented: overflow checks on, memory for every request.\<close>

definition reference_env :: native_env where
  "reference_env = \<lparr>overflow_checks = True, reserve = (\<lambda>_. True),
    rb_try_new = (\<lambda>fs cs. Inr \<lparr>rb_fields = fs, rb_columns = cs,
      rb_num_rows = (case cs of [] \<Rightarrow> 0 | c # _ \<Rightarrow> length c)\<rparr>),
    rb_try_new_rows = (\<lambda>n. Inr \<lparr>rb_fields = [], rb_columns = [], rb_num_rows = n\<rparr>),
    fuel = 1000\<rparr>"

lemma arrow_documented_reference: "arrow_documented reference_env"
  by (auto simp: arrow_documented_def reference_env_def column_ok_def neq_Nil_conv)

end
