(* ===== verification/Wire_Readers.thy ===== *)
theory Wire_Readers
  imports Framing Arrow
begin

text \<open>
  The primitive readers at the end of \<open>src/transport/native/result_parser.rs\<close> and the
  readers of dates, timestamps and length-prefixed values. A length on the wire is an
  \<open>i32\<close> that the code widens with \<open>as usize\<close>, so a negative length becomes a number near
  \<open>2 ^ 64\<close> and the bounds check \<open>offset + len > data.len()\<close> overflows. Each reader has
  its read-back lemma and its progress lemma (collection \<open>progress_intros\<close>).
\<close>

definition read_u8 :: "byte list \<Rightarrow> byte rd" where
  "read_u8 d off = (if off \<ge> length d then fail (ProtocolError ''Data truncated (u8)'')
    else Inr (d ! off, off + 1))"

definition read_i16 :: "byte list \<Rightarrow> i16 rd" where
  "read_i16 d off = (if off + 2 > length d then fail (ProtocolError ''Data truncated (i16)'')
    else Inr (u16_of_le (take 2 (drop off d)), off + 2))"

definition read_i32 :: "byte list \<Rightarrow> i32 rd" where
  "read_i32 d off = (if off + 4 > length d then fail (ProtocolError ''Data truncated (i32)'')
    else Inr (u32_of_le (take 4 (drop off d)), off + 4))"

definition read_i64 :: "byte list \<Rightarrow> i64 rd" where
  "read_i64 d off = (if off + 8 > length d then fail (ProtocolError ''Data truncated (i64)'')
    else Inr (u64_of_le (take 8 (drop off d)), off + 8))"

text \<open>A float is its IEEE bit pattern: \<open>from_le_bytes\<close> does not interpret it.\<close>

definition read_f64 :: "byte list \<Rightarrow> u64 rd" where
  "read_f64 d off = (if off + 8 > length d then fail (ProtocolError ''Data truncated (f64)'')
    else Inr (u64_of_le (take 8 (drop off d)), off + 8))"

definition read_f32 :: "byte list \<Rightarrow> u32 rd" where
  "read_f32 d off = (if off + 4 > length d then fail (ProtocolError ''Data truncated (f32)'')
    else Inr (u32_of_le (take 4 (drop off d)), off + 4))"

definition read_i128 :: "byte list \<Rightarrow> i128 rd" where
  "read_i128 d off = (if off + 16 > length d then fail (ProtocolError ''Data truncated (i128)'')
    else Inr (u128_of_le (take 16 (drop off d)), off + 16))"

text \<open>
  \<open>x as f64\<close> for an \<open>f32\<close>, on bit patterns: the exponent is rebiased from 127 to 1023 and
  the fraction moves up 29 places; a subnormal becomes normal; infinities stay and a NaN
  stays a quiet NaN with its payload.
\<close>

fun top_bit :: "nat \<Rightarrow> nat" where
  "top_bit m = (if m < 2 then 0 else Suc (top_bit (m div 2)))"

definition f32_to_f64 :: "u32 \<Rightarrow> u64" where
  "f32_to_f64 w =
    (let s = unat w div 2 ^ 31; e = unat w div 2 ^ 23 mod 2 ^ 8; m = unat w mod 2 ^ 23;
         k = top_bit m in
     of_nat (s * 2 ^ 63 +
      (if e = 255 then 2047 * 2 ^ 52 + (if m = 0 then 0 else (if m < 2 ^ 22 then m + 2 ^ 22 else m) * 2 ^ 29)
       else if e \<noteq> 0 then (e + 896) * 2 ^ 52 + m * 2 ^ 29
       else if m = 0 then 0
       else (k + 874) * 2 ^ 52 + (m - 2 ^ k) * 2 ^ (52 - k))))"

definition read_length_prefixed_msg :: "native_env \<Rightarrow> byte list \<Rightarrow> string \<Rightarrow> byte list rd" where
  "read_length_prefixed_msg E d truncated_message =
    pbind (read_i32 d) (\<lambda>l off. let len = i32_as_usize l in
      rbind (usize_add (overflow_checks E) off len) (\<lambda>stop.
      if stop > length d then fail (ProtocolError truncated_message)
      else rbind (slice d off stop) (\<lambda>value. Inr (value, stop))))"

definition read_packed_date_days :: "native_env \<Rightarrow> byte list \<Rightarrow> int rd" where
  "read_packed_date_days E d = pbind (read_i32 d) (\<lambda>packed off.
    let year = sint packed div 65536; month = unat packed div 256 mod 256; day = unat packed mod 256 in
    rbind (map_err ProtocolError (ymd_to_days (overflow_checks E) year month day)) (\<lambda>days.
      Inr (days, off)))"

definition read_timestamp_micros :: "native_env \<Rightarrow> byte list \<Rightarrow> int rd" where
  "read_timestamp_micros E d =
    pbind (read_i16 d) (\<lambda>year. pbind (read_u8 d) (\<lambda>month. pbind (read_u8 d) (\<lambda>day.
    pbind (read_u8 d) (\<lambda>hour. pbind (read_u8 d) (\<lambda>minute. pbind (read_u8 d) (\<lambda>second.
    pbind (read_i32 d) (\<lambda>nanos off.
      rbind (map_err ProtocolError (ymd_hms_nanos_to_micros (overflow_checks E) (sint year)
        (unat month) (unat day) (unat hour) (unat minute) (unat second) (sint nanos))) (\<lambda>micros.
        Inr (micros, off)))))))))"

lemmas wire_reader_defs = read_u8_def read_i16_def read_i32_def read_i64_def read_f64_def
  read_f32_def read_i128_def

subsection \<open>Reading back\<close>

lemma read_u8_at [simp]: "d = pre @ b # rest \<Longrightarrow> off = length pre \<Longrightarrow> read_u8 d off = Inr (b, off + 1)"
  by (simp add: read_u8_def)

lemma read_i16_at: "d = pre @ u16_to_le w @ rest \<Longrightarrow> off = length pre \<Longrightarrow> read_i16 d off = Inr (w, off + 2)"
  by (simp add: read_i16_def)

lemma read_i32_at: "d = pre @ u32_to_le w @ rest \<Longrightarrow> off = length pre \<Longrightarrow> read_i32 d off = Inr (w, off + 4)"
  by (simp add: read_i32_def)

lemma read_i64_at: "d = pre @ u64_to_le w @ rest \<Longrightarrow> off = length pre \<Longrightarrow> read_i64 d off = Inr (w, off + 8)"
  by (simp add: read_i64_def)

lemma read_f64_at: "d = pre @ u64_to_le w @ rest \<Longrightarrow> off = length pre \<Longrightarrow> read_f64 d off = Inr (w, off + 8)"
  by (simp add: read_f64_def)

lemma read_f32_at: "d = pre @ u32_to_le w @ rest \<Longrightarrow> off = length pre \<Longrightarrow> read_f32 d off = Inr (w, off + 4)"
  by (simp add: read_f32_def)

lemma read_i128_at: "d = pre @ u128_to_le w @ rest \<Longrightarrow> off = length pre \<Longrightarrow> read_i128 d off = Inr (w, off + 16)"
  by (simp add: read_i128_def)

interpretation i32_codec: codec u32_to_le read_i32 "\<lambda>_. True" "\<lambda>_. True"
  by unfold_locales (simp add: read_i32_at)

interpretation i64_codec: codec u64_to_le read_i64 "\<lambda>_. True" "\<lambda>_. True"
  by unfold_locales (simp add: read_i64_at)

text \<open>The length field of a value of fewer than \<open>2 ^ 31\<close> bytes reads back as its length.\<close>

lemma i32_as_usize_of_nat: "n < 2 ^ 31 \<Longrightarrow> i32_as_usize (of_nat n) = n"
proof -
  assume n: "n < 2 ^ 31"
  have "sint (of_nat n :: i32) = int n"
    using n by (simp add: signed_of_nat signed_take_bit_int_eq_self)
  then show ?thesis by (simp add: i32_as_usize_def)
qed

lemma read_length_prefixed_msg_at:
  assumes "length b < 2 ^ 31" "d = pre @ u32_to_le (of_nat (length b)) @ b @ rest" "off = length pre"
    "length d < 2 ^ 63"
  shows "read_length_prefixed_msg E d msg off = Inr (b, off + 4 + length b)"
proof -
  have "read_i32 d off = Inr (of_nat (length b), off + 4)"
    using read_i32_at [OF assms(2,3)] .
  then show ?thesis using assms
    by (simp add: read_length_prefixed_msg_def i32_as_usize_of_nat usize_add_def slice_def)
qed

subsection \<open>Progress\<close>

lemma advances_read_u8 [progress_intros]: "advances 1 d (read_u8 d)"
  by (rule advancesI) (auto simp: read_u8_def split: if_splits)

lemma advances_prims [progress_intros]:
  "advances 2 d (read_i16 d)" "advances 4 d (read_i32 d)" "advances 8 d (read_i64 d)"
  "advances 8 d (read_f64 d)" "advances 4 d (read_f32 d)" "advances 16 d (read_i128 d)"
  by (rule advancesI, auto simp: wire_reader_defs split: if_splits)+

lemma graceful_prims [simp]:
  "graceful (read_u8 d off)" "graceful (read_i16 d off)" "graceful (read_i32 d off)"
  "graceful (read_i64 d off)" "graceful (read_f64 d off)" "graceful (read_f32 d off)"
  "graceful (read_i128 d off)"
  by (simp_all add: wire_reader_defs)

end
