(* ===== verification/Conversion_Laws.thy ===== *)
theory Conversion_Laws
  imports Calendar
begin

text \<open>
  Laws of the interval and decimal conversions of \<open>src/types/conversion.rs\<close>: the text
  each formatter writes is the text the parser reads, for every value the formatter
  accepts, and neither overflows on it.
\<close>

lemma parse_signed_pad:
  "lo \<le> 0 \<Longrightarrow> int n \<le> hi \<Longrightarrow> parse_signed lo hi (pad_zero w (show_nat n)) = Some (int n)"
  by (simp add: parse_signed_digits [OF parse_digits_pad_show])

lemma parse_signed_show:
  "lo \<le> 0 \<Longrightarrow> int n \<le> hi \<Longrightarrow> parse_signed lo hi (show_nat n) = Some (int n)"
  by (simp add: parse_signed_digits [OF parse_digits_show])

lemma no_separator [simp]:
  "\<not> is_ascii_digit c \<Longrightarrow> c \<notin> set (show_nat n)"
  "\<not> is_ascii_digit c \<Longrightarrow> c \<notin> set (pad_zero w (show_nat n))"
  by (simp_all add: digits_no_char)

subsection \<open>INTERVAL YEAR TO MONTH\<close>

text \<open>The sign of an interval: a body that starts with a digit keeps its sign to itself.\<close>

definition signed_text :: "bool \<Rightarrow> string \<Rightarrow> string" where
  "signed_text neg body = (if neg then CHR ''-'' # body else body)"

lemma parse_interval_months_text:
  assumes "int y \<le> 2 ^ 31" "m < 12"
  shows "parse_interval_months (show_nat y @ ''-'' @ pad_zero 2 (show_nat m)) text = Inr (int (y * 12 + m))"
proof -
  have "split_on (CHR ''-'') (show_nat y @ ''-'' @ pad_zero 2 (show_nat m))
      = [show_nat y, pad_zero 2 (show_nat m)]"
    by (simp add: text_simps)
  then show ?thesis using assms
    by (simp add: parse_interval_months_def parse_signed_pad parse_signed_show parse_or_def
        checked_def in_signed_def)
qed

lemma signed_body:
  assumes "body = d # r" "d \<noteq> CHR ''-''" "d \<noteq> CHR ''+''"
  shows "(case signed_text neg body of
        c # r \<Rightarrow> if c = CHR ''-'' then (True, r) else if c = CHR ''+'' then (False, r)
                 else (False, signed_text neg body)
      | [] \<Rightarrow> (False, signed_text neg body)) = (neg, body)"
  using assms by (simp add: signed_text_def)

lemma show_nat_hd: obtains d r where "show_nat n = d # r" "d \<noteq> CHR ''-''" "d \<noteq> CHR ''+''"
proof -
  obtain d r where "show_nat n = d # r" by (cases "show_nat n") auto
  then show thesis using that digits_hd_no_sign [OF show_nat_digits] by blast
qed

lemma parse_format_year_to_month:
  assumes "in_signed 32 months"
  shows "parse_interval ovf (format_interval_year_to_month months) = Inr (interval_new months 0 0)"
proof -
  define k where "k = nat \<bar>months\<bar>"
  define body where "body = show_nat (k div 12) @ ''-'' @ pad_zero 2 (show_nat (k mod 12))"
  have k: "int k \<le> 2 ^ 31" using assms by (auto simp: k_def in_signed_def)
  have fmt: "format_interval_year_to_month months = signed_text (months < 0) body"
    by (simp add: format_interval_year_to_month_def body_def k_def signed_text_def Let_def)
  obtain d r where hd: "body = d # r" "d \<noteq> CHR ''-''" "d \<noteq> CHR ''+''"
    by (rule show_nat_hd [of "k div 12"]) (simp add: body_def)
  have dash: "CHR ''-'' \<in> set body" by (simp add: body_def)
  have q: "int (k div 12) \<le> 2 ^ 31" using k by linarith
  have m: "parse_interval_months body (signed_text (months < 0) body) = Inr (int k)"
    using parse_interval_months_text [OF q, of "k mod 12"] by (simp add: body_def)
  have mk: "int k = (if months < 0 then - months else months)" by (simp add: k_def)
  show ?thesis
    unfolding fmt parse_interval_def signed_body [OF hd] Let_def
    using dash m assms unfolding mk by (simp add: i_arith_def in_signed_def parse_or_def checked_def)
qed

subsection \<open>INTERVAL DAY TO SECOND\<close>

lemma fractional_seconds_millis:
  assumes "ms < 1000"
  shows "fractional_seconds_to_nanos (pad_zero 3 (show_nat ms)) = Inr (int ms * 1000000)"
proof -
  have "length (show_nat ms) \<le> 3" using assms by (intro length_show_nat) simp_all
  then have "length (pad_zero 3 (show_nat ms)) = 3" by (rule length_pad_zero)
  then show ?thesis using assms
    by (simp add: fractional_seconds_to_nanos_def fractional_seconds_to_units_def parse_signed_pad)
qed

lemma parse_interval_seconds_text:
  assumes "s < 60" "ms < 1000"
  shows "parse_interval_seconds_to_nanos (pad_zero 2 (show_nat s) @ ''.'' @ pad_zero 3 (show_nat ms))
    = Inr (int s * 1000000000 + int ms * 1000000)"
proof -
  have "split_on (CHR ''.'') (pad_zero 2 (show_nat s) @ ''.'' @ pad_zero 3 (show_nat ms))
      = [pad_zero 2 (show_nat s), pad_zero 3 (show_nat ms)]" by (simp add: text_simps)
  then show ?thesis using assms
    by (simp add: parse_interval_seconds_to_nanos_def parse_signed_pad parse_or_def checked_def
        in_signed_def fractional_seconds_millis)
qed

lemma parse_interval_time_text:
  assumes "h < 24" "mi < 60" "s < 60" "ms < 1000"
  shows "parse_interval_time_to_nanos (pad_zero 2 (show_nat h) @ '':'' @ pad_zero 2 (show_nat mi) @ '':''
      @ pad_zero 2 (show_nat s) @ ''.'' @ pad_zero 3 (show_nat ms))
    = Inr (int (((h * 60 + mi) * 60 + s) * 1000 + ms) * 1000000)"
proof -
  let ?sec = "pad_zero 2 (show_nat s) @ ''.'' @ pad_zero 3 (show_nat ms)"
  have "split_on (CHR '':'') (pad_zero 2 (show_nat h) @ '':'' @ pad_zero 2 (show_nat mi) @ '':'' @ ?sec)
      = [pad_zero 2 (show_nat h), pad_zero 2 (show_nat mi), ?sec]" by (simp add: text_simps)
  then show ?thesis using assms
    by (simp add: parse_interval_time_to_nanos_def parse_signed_pad parse_or_def checked_def
        in_signed_def parse_interval_seconds_text [OF assms(3,4), simplified])
qed

lemma time_split:
  fixes t :: nat
  assumes "t < 86400000"
  shows "((t div 3600000 * 60 + t div 60000 mod 60) * 60 + t div 1000 mod 60) * 1000 + t mod 1000 = t"
    and "t div 3600000 < 24"
proof -
  have a: "t div 60000 = t div 3600000 * 60 + t div 60000 mod 60"
    using div_mult2_eq [of t 60000 60] div_mult_mod_eq [of "t div 60000" 60] by simp
  have b: "t div 1000 = t div 60000 * 60 + t div 1000 mod 60"
    using div_mult2_eq [of t 1000 60] div_mult_mod_eq [of "t div 1000" 60] by simp
  have c: "t = t div 1000 * 1000 + t mod 1000" by simp
  show "((t div 3600000 * 60 + t div 60000 mod 60) * 60 + t div 1000 mod 60) * 1000 + t mod 1000 = t"
    using a b c by simp
  show "t div 3600000 < 24" using assms by simp
qed

text \<open>
  The days and nanoseconds that come back add up to the total that was formatted, with the
  days truncated towards zero: one sign for the whole value.
\<close>

lemma parse_format_day_to_second:
  assumes "format_interval_day_to_second days ms = Inr text"
  shows "parse_interval ovf text = Inr (interval_new 0
      (trunc_div (days * 86400000 + ms) 86400000)
      (trunc_rem (days * 86400000 + ms) 86400000 * 1000000))"
proof -
  define total where "total = days * 86400000 + ms"
  define mag where "mag = nat \<bar>total\<bar>"
  define q where "q = mag div 86400000"
  define t where "t = mag mod 86400000"
  define tt where "tt = pad_zero 2 (show_nat (t div 3600000)) @ '':''
         @ pad_zero 2 (show_nat (t div 60000 mod 60)) @ '':''
         @ pad_zero 2 (show_nat (t div 1000 mod 60)) @ ''.'' @ pad_zero 3 (show_nat (t mod 1000))"
  define body where "body = show_nat q @ '' '' @ tt"
  have shape: "text = signed_text (total < 0) body" and q: "q \<le> 999999999"
    using assms
    by (auto simp: format_interval_day_to_second_def Let_def parse_or_def checked_def total_def
        mag_def q_def t_def tt_def body_def signed_text_def split: if_splits)
  have t: "t < 86400000" by (simp add: t_def)
  obtain d r where hd: "body = d # r" "d \<noteq> CHR ''-''" "d \<noteq> CHR ''+''"
    by (rule show_nat_hd [of q]) (simp add: body_def)
  have nodash: "CHR ''-'' \<notin> set body" by (simp add: body_def tt_def)
  have "CHR '' '' \<notin> set tt" by (simp add: tt_def)
  then have "split_on (CHR '' '') body = [show_nat q, tt]" by (simp add: body_def text_simps)
  moreover have "parse_interval_time_to_nanos tt = Inr (int t * 1000000)"
    unfolding tt_def
    by (subst parse_interval_time_text) (use time_split [OF t] in simp_all)
  ultimately have dn: "parse_interval_days_and_nanos body = Inr (int q, int t * 1000000)"
    using q by (simp add: parse_interval_days_and_nanos_def parse_signed_show parse_or_def)
  have div: "trunc_div total 86400000 = (if total < 0 then - int q else int q)"
    by (cases total rule: linorder_cases [of 0])
       (simp_all add: trunc_div_def q_def mag_def zdiv_int)
  have rem: "trunc_rem total 86400000 = (if total < 0 then - int t else int t)"
    by (simp add: trunc_rem_nonneg trunc_rem_neg t_def mag_def zmod_int)
  show ?thesis
    unfolding shape parse_interval_def signed_body [OF hd] Let_def total_def [symmetric]
    using nodash dn q t div rem by (simp add: i_arith_def in_signed_def)
qed

lemma parse_format_day_to_second_span:
  assumes "format_interval_day_to_second days ms = Inr text"
  shows "\<exists>v. parse_interval ovf text = Inr v \<and> iv_months v = 0
    \<and> iv_days v * 86400000000000 + iv_nanoseconds v = (days * 86400000 + ms) * 1000000
    \<and> \<bar>iv_nanoseconds v\<bar> < 86400000000000"
proof -
  let ?t = "days * 86400000 + ms"
  have "trunc_div ?t 86400000 * 86400000 + trunc_rem ?t 86400000 = ?t" by (simp add: trunc_rem_def)
  moreover have "\<bar>trunc_rem ?t 86400000\<bar> < 86400000"
    by (cases "0 \<le> ?t") (simp_all add: trunc_rem_nonneg trunc_rem_neg)
  ultimately show ?thesis
    unfolding parse_format_day_to_second [OF assms] interval_new_def by auto
qed

subsection \<open>DECIMAL\<close>

text \<open>The text of the unscaled value \<open>v\<close> of a DECIMAL with \<open>scale\<close> fraction digits.\<close>

definition show_decimal :: "int \<Rightarrow> nat \<Rightarrow> string" where
  "show_decimal v scale = signed_text (v < 0) (show_nat (nat \<bar>v\<bar> div 10 ^ scale)
    @ (if scale = 0 then [] else ''.'' @ pad_zero scale (show_nat (nat \<bar>v\<bar> mod 10 ^ scale))))"

lemma str_prefix_digits:
  assumes "list_all is_ascii_digit s" "n \<le> length s"
  shows "str_prefix n s = Inr (take n s)"
proof -
  have "\<not> utf8_tail (byte_of_char (s ! n))" if "n < length s"
  proof -
    from that assms(1) have "is_ascii_digit (s ! n)" by (simp add: list_all_length)
    then show ?thesis by (simp add: is_ascii_digit_def utf8_tail_def byte_of_char_def unat_of_nat)
  qed
  then show ?thesis using assms(2) by (simp add: str_prefix_def)
qed

lemma parse_signed_text_show:
  assumes "lo \<le> - int n" "int n \<le> hi" "lo \<le> 0"
  shows "parse_signed lo hi (signed_text neg (show_nat n)) = Some (if neg then - int n else int n)"
  using assms by (simp add: signed_text_def parse_signed_minus parse_signed_show parse_digits_show)

lemma power10_le: "k \<le> 38 \<Longrightarrow> (10::int) ^ k \<le> 10 ^ 38"
  by (rule power_increasing) simp_all

lemma pow10_arith: "k \<le> 38 \<Longrightarrow> i_arith ovf 128 (10 ^ k) = Inr (10 ^ k)"
proof -
  assume k: "k \<le> 38"
  define p where "p = (10::int) ^ k"
  have "0 < p" "p \<le> 10 ^ 38" using power10_le [OF k] by (simp_all add: p_def)
  then have "in_signed 128 p" by (simp add: in_signed_def)
  then show ?thesis unfolding p_def by (rule i_arith_in)
qed

lemma decimal_fraction:
  assumes "0 < scale" "f < 10 ^ scale" "list_all is_ascii_digit extra"
  defines "frac \<equiv> pad_zero scale (show_nat f) @ extra"
  shows "min (length frac) scale = scale" "str_prefix scale frac = Inr (pad_zero scale (show_nat f))"
proof -
  have len: "length (pad_zero scale (show_nat f)) = scale"
    using assms(1,2) by (intro length_pad_zero length_show_nat)
  then show "min (length frac) scale = scale" by (simp add: frac_def)
  show "str_prefix scale frac = Inr (pad_zero scale (show_nat f))"
    using len assms(3) by (subst str_prefix_digits) (simp_all add: frac_def)
qed

lemma decimal_compose:
  assumes "v = (if neg then - int n else int n)" "n = q * 10 ^ scale + f"
  shows "(if neg then (if neg then - int q else int q) * 10 ^ scale - int f
          else (if neg then - int q else int q) * 10 ^ scale + int f) = v"
  using assms by simp

lemma parse_show_decimal:
  assumes scale: "scale \<le> 38" and v: "\<bar>v\<bar> < 10 ^ 38"
    and extra: "list_all is_ascii_digit extra" "scale = 0 \<longrightarrow> extra = []"
  shows "parse_decimal_to_i128 ovf (show_decimal v scale @ extra) (int scale) = Inr v"
proof -
  define n q f where "n = nat \<bar>v\<bar>" and "q = nat \<bar>v\<bar> div 10 ^ scale" and "f = nat \<bar>v\<bar> mod 10 ^ scale"
  have n: "int n < 10 ^ 38" "n = q * 10 ^ scale + f" "v = (if v < 0 then - int n else int n)"
    using v div_mult_mod_eq [of "nat \<bar>v\<bar>" "10 ^ scale"] unfolding n_def q_def f_def by simp_all
  have q: "int q * 10 ^ scale \<le> int n" "int q \<le> int n"
  proof -
    have "q * 10 ^ scale \<le> n" "q \<le> n" by (simp_all add: n_def q_def)
    then have "int (q * 10 ^ scale) \<le> int n" "int q \<le> int n" by (simp_all only: of_nat_le_iff)
    then show "int q * 10 ^ scale \<le> int n" "int q \<le> int n" by simp_all
  qed
  have f: "f < 10 ^ scale" by (simp add: f_def)
  define ip where "ip = signed_text (v < 0) (show_nat q)"
  have ip: "parse_i128 ip = Some (if v < 0 then - int q else int q)"
    unfolding ip_def using q n by (intro parse_signed_text_show) simp_all
  have sgn: "take 1 ip = ''-'' \<longleftrightarrow> v < 0"
    by (rule show_nat_hd [of q]) (simp add: ip_def signed_text_def)
  have dot: "CHR ''.'' \<notin> set ip" by (simp add: ip_def signed_text_def)
  have sc: "nat (int scale mod 2 ^ 32) = scale" "nat (int scale mod 2 ^ 64) = scale"
    using scale by simp_all
  have scaled: "in_signed 128 ((if v < 0 then - int q else int q) * 10 ^ scale)"
  proof -
    define z where "z = int q * 10 ^ scale"
    have "0 \<le> z" "z < 10 ^ 38" using q(1) n(1) by (simp_all add: z_def)
    then show ?thesis by (simp add: in_signed_def flip: z_def)
  qed
  have result: "in_signed 128 v" using v by (auto simp: in_signed_def abs_if split: if_splits)
  show ?thesis
  proof (cases "scale = 0")
    case True
    then have "show_decimal v scale @ extra = ip" "split_on (CHR ''.'') ip = [ip]" "v = (if v < 0 then - int q else int q)"
      using extra(2) dot n by (simp_all add: show_decimal_def ip_def q_def f_def text_simps)
    then show ?thesis using ip True result
      by (simp add: parse_decimal_to_i128_def parse_or_def i_arith_def in_signed_def checked_def)
  next
    case False
    define frac where "frac = pad_zero scale (show_nat f) @ extra"
    have sp: "split_on (CHR ''.'') (show_decimal v scale @ extra) = [ip, frac]"
      using False dot extra(1) by (simp add: show_decimal_def ip_def frac_def q_def f_def
          signed_text_def text_simps digits_no_char split_on_no_sep split_on_sep [where s = "_ # _", simplified])
    have fr: "frac \<noteq> []" "min (length frac) scale = scale"
      "str_prefix scale frac = Inr (pad_zero scale (show_nat f))"
      using False decimal_fraction [OF _ f extra(1)] by (simp_all add: frac_def)
    have fi: "int f < 10 ^ 38" using f power10_le [OF scale]
      by (metis of_nat_less_iff of_nat_numeral of_nat_power order_less_le_trans)
    have pf: "parse_i128 (pad_zero scale (show_nat f)) = Some (int f)"
      using fi by (intro parse_signed_pad) simp_all
    have fa: "i_arith ovf 128 (int f) = Inr (int f)" using fi by (simp add: i_arith_def in_signed_def)
    define Q where "Q = (if v < 0 then - int q else int q)"
    have comp: "(if take 1 ip = ''-'' then Q * 10 ^ scale - int f else Q * 10 ^ scale + int f) = v"
      unfolding sgn Q_def using n(2,3) by (auto split: if_splits)
    have steps: "parse_or (parse_i128 ip) m = Inr Q" "parse_or (checked 128 (Q * 10 ^ scale)) m = Inr (Q * 10 ^ scale)"
      "parse_or (parse_i128 (pad_zero scale (show_nat f))) m = Inr (int f)"
      "parse_or (checked 128 v) m = Inr v" for m
      using ip scaled pf result by (simp_all add: parse_or_def checked_def Q_def)
    have one: "i_arith ovf 128 (10 ^ (scale - scale)) = Inr 1" by (simp add: i_arith_def in_signed_def)
    show ?thesis
      unfolding parse_decimal_to_i128_def Let_def sp sc fr(2)
      by (simp only: list.case rbind.simps prod.case steps pow10_arith [OF scale] fr if_False one
          mult_1_right fa comp)
  qed
qed

end
