(* ===== verification/Columns.thy ===== *)
theory Columns
  imports Wire_Readers Conversion_Laws
begin

unbundle bit_operations_syntax

text \<open>
  Column decoding of \<open>src/transport/native/result_parser.rs\<close>: the column descriptions of a
  result set (\<open>parse_column_meta\<close>) and the column-major row data, one builder per wire type
  (\<open>fill_column_builder\<close>), assembled into a batch (\<open>build_batch_from_wire\<close>). The laws are
  in \<open>Column_Laws\<close>.
\<close>

record NativeColumnMeta =
  cm_name :: string
  type_id :: u32
  cm_precision :: "i32 option"
  cm_scale :: "i32 option"
  is_varchar :: bool
  max_len :: "i32 option"
  interval_fraction :: "i32 option"

subsection \<open>Column descriptions\<close>

text \<open>\<open>vcFlag(1) + maxLen(4) + octetLen(4)\<close> of the string-like types.\<close>

definition read_char_meta :: "byte list \<Rightarrow> string \<Rightarrow> (bool \<times> i32) rd" where
  "read_char_meta d truncated off =
    (if off \<ge> length d then fail (ProtocolError truncated)
     else pbind (read_i32 d) (\<lambda>mlen. pbind (read_i32 d) (\<lambda>octet_len.
       preturn ((d ! off) AND IS_VARCHAR \<noteq> 0, mlen))) (off + 1))"

definition read_name :: "native_env \<Rightarrow> byte list \<Rightarrow> string rd" where
  "read_name E d = pbind (read_i32 d) (\<lambda>l off. let name_len = i32_as_usize l in
    rbind (usize_add (overflow_checks E) off name_len) (\<lambda>stop.
    if stop > length d then fail (ProtocolError ''Column name truncated'')
    else rbind (slice d off stop) (\<lambda>bytes.
      if utf8_valid bytes then Inr (text_of bytes, stop)
      else fail (ProtocolError (''Invalid column name UTF-8: '' @ utf8_error_text bytes)))))"

definition parse_column_meta :: "native_env \<Rightarrow> byte list \<Rightarrow> NativeColumnMeta rd" where
  "parse_column_meta E d =
    pbind (read_name E d) (\<lambda>name.
    pbind (read_i32 d) (\<lambda>tid.
    let meta = \<lparr>cm_name = name, type_id = tid, cm_precision = None, cm_scale = None,
                is_varchar = False, max_len = None, interval_fraction = None\<rparr> in
    if tid = T_DECIMAL \<or> tid = T_SMALLDECIMAL \<or> tid = T_BIGDECIMAL then
      pbind (read_i32 d) (\<lambda>p. pbind (read_i32 d) (\<lambda>s.
        preturn (meta\<lparr>cm_precision := Some p, cm_scale := Some s\<rparr>)))
    else if tid = T_CHAR \<or> tid = T_GEOMETRY \<or> tid = T_HASHTYPE then
      pbind (read_char_meta d ''CHAR metadata truncated'') (\<lambda>(v, m).
        preturn (meta\<lparr>is_varchar := v, max_len := Some m\<rparr>))
    else if tid = T_INTERVAL_YEAR then
      pbind (read_char_meta d ''INTERVAL metadata truncated'') (\<lambda>(v, m).
      pbind (read_i32 d) (\<lambda>interval_precision.
        preturn (meta\<lparr>is_varchar := v, max_len := Some m\<rparr>)))
    else if tid = T_INTERVAL_DAY then
      pbind (read_char_meta d ''INTERVAL metadata truncated'') (\<lambda>(v, m).
      pbind (read_i32 d) (\<lambda>interval_precision. pbind (read_i32 d) (\<lambda>fraction.
        preturn (meta\<lparr>is_varchar := v, max_len := Some m, interval_fraction := Some fraction\<rparr>))))
    else if tid = T_TIMESTAMP \<or> tid = T_TIMESTAMP_LOCAL_TZ \<or> tid = T_TIMESTAMP_UTC then
      pbind (read_i32 d) (\<lambda>ts_precision. preturn meta)
    else preturn meta))"

subsection \<open>Column data\<close>

text \<open>A null marker, then the value: the body of the row loop of every builder.\<close>

definition read_nullable :: "byte list \<Rightarrow> 'a rd \<Rightarrow> ('a \<Rightarrow> cell) \<Rightarrow> cell option rd" where
  "read_nullable d val mk = pbind (read_u8 d) (\<lambda>marker.
    if marker = 0 then preturn None else pbind val (\<lambda>v. preturn (Some (mk v))))"

definition fill_column ::
  "native_env \<Rightarrow> byte list \<Rightarrow> string \<Rightarrow> ArrowDataType \<Rightarrow> nat \<Rightarrow> 'a rd \<Rightarrow> ('a \<Rightarrow> cell) \<Rightarrow> BuiltColumn rd" where
  "fill_column E d name ty num_rows val mk off =
    rbind (alloc E num_rows) (\<lambda>_.
    pbind (prepeat num_rows (read_nullable d val mk)) (\<lambda>cells.
      preturn (\<lparr>field_name = name, field_type = ty, field_nullable = True\<rparr>, cells)) off)"

definition fill_double_column :: "native_env \<Rightarrow> byte list \<Rightarrow> string \<Rightarrow> nat \<Rightarrow> BuiltColumn rd" where
  "fill_double_column E d name num_rows = fill_column E d name Float64 num_rows (read_f64 d) CFloat64"

definition fill_real_column :: "native_env \<Rightarrow> byte list \<Rightarrow> string \<Rightarrow> nat \<Rightarrow> BuiltColumn rd" where
  "fill_real_column E d name num_rows =
    fill_column E d name Float64 num_rows (read_f32 d) (\<lambda>v. CFloat64 (f32_to_f64 v))"

definition fill_boolean_column :: "native_env \<Rightarrow> byte list \<Rightarrow> string \<Rightarrow> nat \<Rightarrow> BuiltColumn rd" where
  "fill_boolean_column E d name num_rows =
    fill_column E d name BooleanT num_rows (read_u8 d) (\<lambda>v. CBoolean (v \<noteq> 0))"

text \<open>\<open>with_capacity(num_rows, num_rows * 16)\<close>: the product is \<open>usize\<close> arithmetic.\<close>

definition data_capacity :: "native_env \<Rightarrow> nat \<Rightarrow> (TransportError, nat) result" where
  "data_capacity E num_rows =
    (if num_rows * 16 < 2 ^ 64 then Inr (num_rows * 16)
     else if overflow_checks E then Inl Panic else Inr (num_rows * 16 mod 2 ^ 64))"

definition fill_binary_column :: "native_env \<Rightarrow> byte list \<Rightarrow> string \<Rightarrow> nat \<Rightarrow> BuiltColumn rd" where
  "fill_binary_column E d name num_rows off =
    rbind (data_capacity E num_rows) (\<lambda>cap. rbind (alloc E cap) (\<lambda>_.
    fill_column E d name Binary num_rows (read_length_prefixed_msg E d ''Binary data truncated'') CBinary off))"

definition read_interval :: "native_env \<Rightarrow> byte list \<Rightarrow> string \<Rightarrow> IntervalMonthDayNano rd" where
  "read_interval E d name =
    pbind (read_length_prefixed_msg E d ''Interval data truncated'') (\<lambda>bytes off.
      if utf8_valid bytes then
        rbind (map_err (\<lambda>reason. ProtocolError (''Invalid INTERVAL value '' @ [CHR 39] @ text_of bytes
            @ [CHR 39] @ '' in column '' @ name @ '': '' @ reason))
          (parse_interval (overflow_checks E) (text_of bytes))) (\<lambda>v. Inr (v, off))
      else fail (ProtocolError (''Invalid UTF-8 in INTERVAL column '' @ name @ '': ''
        @ utf8_error_text bytes)))"

definition fill_interval_column :: "native_env \<Rightarrow> byte list \<Rightarrow> string \<Rightarrow> nat \<Rightarrow> BuiltColumn rd" where
  "fill_interval_column E d name num_rows =
    fill_column E d name IntervalMonthDayNanoT num_rows (read_interval E d name) CInterval"

text \<open>
  \<open>precision.clamp(1, 38) as u8\<close> and \<open>scale.clamp(i8::MIN, i8::MAX) as i8\<close>.
\<close>

definition decimal_precision_scale :: "NativeColumnMeta \<Rightarrow> int \<Rightarrow> nat \<times> int" where
  "decimal_precision_scale meta default_precision =
    (let raw_precision = (case cm_precision meta of Some p \<Rightarrow> sint p | None \<Rightarrow> default_precision);
         raw_scale = (case cm_scale meta of Some s \<Rightarrow> sint s | None \<Rightarrow> 0) in
     (nat (max 1 (min 38 raw_precision)), max (-128) (min 127 raw_scale)))"

definition decimal_data_type :: "NativeColumnMeta \<Rightarrow> int \<Rightarrow> ArrowDataType" where
  "decimal_data_type meta default_precision =
    (let (precision, scale) = decimal_precision_scale meta default_precision
     in Decimal128 precision scale)"

definition whole_number_meta :: "NativeColumnMeta \<Rightarrow> i32 \<Rightarrow> NativeColumnMeta" where
  "whole_number_meta meta precision = meta\<lparr>cm_precision := Some precision, cm_scale := Some 0\<rparr>"

definition fill_smalldecimal_column :: "native_env \<Rightarrow> byte list \<Rightarrow> NativeColumnMeta \<Rightarrow> nat \<Rightarrow> BuiltColumn rd" where
  "fill_smalldecimal_column E d meta num_rows =
    fill_column E d (cm_name meta) (decimal_data_type meta 9) num_rows (read_i32 d) (\<lambda>v. CDecimal (sint v))"

definition fill_decimal_column :: "native_env \<Rightarrow> byte list \<Rightarrow> NativeColumnMeta \<Rightarrow> nat \<Rightarrow> BuiltColumn rd" where
  "fill_decimal_column E d meta num_rows =
    (let use_i32 = (case cm_precision meta of Some p \<Rightarrow> sint p | None \<Rightarrow> 18) \<le> 9 in
     if use_i32 then
       fill_column E d (cm_name meta) (decimal_data_type meta 18) num_rows (read_i32 d) (\<lambda>v. CDecimal (sint v))
     else
       fill_column E d (cm_name meta) (decimal_data_type meta 18) num_rows (read_i64 d) (\<lambda>v. CDecimal (sint v)))"

definition fill_bigdecimal_column :: "native_env \<Rightarrow> byte list \<Rightarrow> NativeColumnMeta \<Rightarrow> nat \<Rightarrow> BuiltColumn rd" where
  "fill_bigdecimal_column E d meta num_rows =
    fill_column E d (cm_name meta) (decimal_data_type meta 36) num_rows (read_i128 d) (\<lambda>v. CDecimal (sint v))"

definition fill_date_column :: "native_env \<Rightarrow> byte list \<Rightarrow> string \<Rightarrow> nat \<Rightarrow> BuiltColumn rd" where
  "fill_date_column E d name num_rows =
    fill_column E d name Date32 num_rows (read_packed_date_days E d) CDate"

definition fill_timestamp_column :: "native_env \<Rightarrow> byte list \<Rightarrow> NativeColumnMeta \<Rightarrow> nat \<Rightarrow> BuiltColumn rd" where
  "fill_timestamp_column E d meta num_rows =
    fill_column E d (cm_name meta)
      (Timestamp Microsecond
        (if type_id meta = T_TIMESTAMP_LOCAL_TZ \<or> type_id meta = T_TIMESTAMP_UTC then Some ''UTC'' else None))
      num_rows (read_timestamp_micros E d) CTimestamp"

definition read_utf8 :: "native_env \<Rightarrow> byte list \<Rightarrow> string rd" where
  "read_utf8 E d = pbind (read_length_prefixed_msg E d ''String data truncated'') (\<lambda>bytes.
    if utf8_valid bytes then preturn (text_of bytes)
    else pfail (ProtocolError (''Invalid UTF-8 in string: '' @ utf8_error_text bytes)))"

definition fill_string_builder :: "native_env \<Rightarrow> byte list \<Rightarrow> string \<Rightarrow> nat \<Rightarrow> BuiltColumn rd" where
  "fill_string_builder E d name num_rows off =
    rbind (data_capacity E num_rows) (\<lambda>cap. rbind (alloc E cap) (\<lambda>_.
    fill_column E d name Utf8 num_rows (read_utf8 E d) CUtf8 off))"

definition fill_column_builder :: "native_env \<Rightarrow> byte list \<Rightarrow> NativeColumnMeta \<Rightarrow> nat \<Rightarrow> BuiltColumn rd" where
  "fill_column_builder E d meta num_rows =
    (let tid = type_id meta; name = cm_name meta in
     if tid = T_DOUBLE then fill_double_column E d name num_rows
     else if tid = T_REAL then fill_real_column E d name num_rows
     else if tid = T_INTEGER then
       fill_decimal_column E d (whole_number_meta meta INTEGER_DECIMAL_PRECISION) num_rows
     else if tid = T_SMALLINT then
       fill_smalldecimal_column E d (whole_number_meta meta SMALLINT_DECIMAL_PRECISION) num_rows
     else if tid = T_BOOLEAN then fill_boolean_column E d name num_rows
     else if tid = T_BINARY \<or> tid = T_GEOMETRY \<or> tid = T_HASHTYPE then fill_binary_column E d name num_rows
     else if tid = T_INTERVAL_YEAR \<or> tid = T_INTERVAL_DAY then fill_interval_column E d name num_rows
     else if tid = T_SMALLDECIMAL then fill_smalldecimal_column E d meta num_rows
     else if tid = T_DECIMAL then fill_decimal_column E d meta num_rows
     else if tid = T_BIGDECIMAL then fill_bigdecimal_column E d meta num_rows
     else if tid = T_DATE then fill_date_column E d name num_rows
     else if tid = T_TIMESTAMP \<or> tid = T_TIMESTAMP_LOCAL_TZ \<or> tid = T_TIMESTAMP_UTC then
       fill_timestamp_column E d meta num_rows
     else fill_string_builder E d name num_rows)"

text \<open>The loop of \<open>build_batch_from_wire\<close> over the column descriptions.\<close>

fun fill_columns :: "native_env \<Rightarrow> byte list \<Rightarrow> NativeColumnMeta list \<Rightarrow> nat \<Rightarrow> BuiltColumn list rd" where
  "fill_columns E d [] num_rows = preturn []"
| "fill_columns E d (m # ms) num_rows =
    pbind (fill_column_builder E d m num_rows) (\<lambda>c.
    pbind (fill_columns E d ms num_rows) (\<lambda>cs. preturn (c # cs)))"

definition build_batch_from_wire ::
  "native_env \<Rightarrow> byte list \<Rightarrow> NativeColumnMeta list \<Rightarrow> nat \<Rightarrow> RecordBatch rd" where
  "build_batch_from_wire E d metas num_rows off =
    (if metas = [] then
       rbind (lift_arrow ''Failed to create empty RecordBatch: '' (rb_try_new_rows E num_rows)) (\<lambda>b. Inr (b, off))
     else
       rbind (fill_columns E d metas num_rows off) (\<lambda>(cols, off').
       rbind (lift_arrow ''Failed to create RecordBatch: '' (rb_try_new E (map fst cols) (map snd cols))) (\<lambda>b.
       Inr (b, off'))))"

definition row_count_error :: "i64 \<Rightarrow> TransportError" where
  "row_count_error n = ProtocolError (''Invalid row count from server: '' @ show_int (sint n))"

definition parse_fetch_to_record_batch ::
  "native_env \<Rightarrow> byte list \<Rightarrow> NativeColumnMeta list \<Rightarrow> (TransportError, i64 \<times> RecordBatch) result" where
  "parse_fetch_to_record_batch E d columns =
    rbind (read_i64 d 0) (\<lambda>(rows_received, off).
    if sint rows_received < 0 then fail (row_count_error rows_received)
    else rbind (build_batch_from_wire E d columns (nat (sint rows_received)) off) (\<lambda>(batch, _).
      Inr (rows_received, batch)))"

end
