(* ===== verification/Result_Parser.thy ===== *)
theory Result_Parser
  imports Columns
begin

text \<open>
  Responses of the native protocol (\<open>src/transport/native/result_parser.rs\<close>): the counted
  envelope, the legacy single response and the reply to CREATE PREPARED, whose sub-results
  are themselves legacy responses. That recursion is guarded by fuel: the loop of
  \<open>parse_handle_only_at\<close> ends because every sub-response consumes input, which holds when
  additions on offsets cannot wrap (\<open>Parser_Laws\<close>).
\<close>

datatype NativeResponse =
    ResultSet i32 "NativeColumnMeta list" "RecordBatch option" i64 i64
  | PreparedStatement i32 "NativeColumnMeta list" "NativeColumnMeta list"
  | RowCount i64
  | Empty
  | StillExecuting
  | MoreRows "byte list"
  | Exception string string

record NativeWarning =
  w_message :: string
  w_sql_state :: string

record NativeResponseEnvelope =
  warnings :: "NativeWarning list"
  terminal :: NativeResponse

definition plain :: "NativeResponse \<Rightarrow> NativeResponseEnvelope" where
  "plain r = \<lparr>warnings = [], terminal = r\<rparr>"

subsection \<open>Parts\<close>

text \<open>\<open>Vec::with_capacity(n)\<close> panics on a capacity above \<open>isize::MAX\<close> bytes.\<close>

definition vec_with_capacity :: "native_env \<Rightarrow> nat \<Rightarrow> (TransportError, unit) result" where
  "vec_with_capacity E n = (if n \<ge> 2 ^ 63 then Inl Panic else alloc E n)"

definition parse_result_set_at :: "native_env \<Rightarrow> byte list \<Rightarrow> NativeResponse rd" where
  "parse_result_set_at E d =
    pbind (read_i32 d) (\<lambda>handle. pbind (read_i32 d) (\<lambda>ncols. let num_columns = i32_as_usize ncols in
    pbind (read_i64 d) (\<lambda>total_rows. pbind (read_i64 d) (\<lambda>rows_received off.
    if sint rows_received < 0 then fail (row_count_error rows_received)
    else rbind (vec_with_capacity E num_columns) (\<lambda>_.
    pbind (prepeat num_columns (parse_column_meta E d)) (\<lambda>columns.
    if num_columns = 0 then preturn (ResultSet handle columns None total_rows rows_received)
    else pbind (build_batch_from_wire E d columns (nat (sint rows_received))) (\<lambda>batch.
      preturn (ResultSet handle columns (Some batch) total_rows rows_received))) off)))))"

definition parse_row_count_at :: "byte list \<Rightarrow> NativeResponse rd" where
  "parse_row_count_at d = pbind (read_i64 d) (\<lambda>count. preturn (RowCount count))"

definition unknown_state :: string where "unknown_state = ''?????''"

definition parse_message_part :: "native_env \<Rightarrow> byte list \<Rightarrow> NativeWarning rd" where
  "parse_message_part E d = pbind (read_i32 d) (\<lambda>l off. let msg_len = i32_as_usize l in
    rbind (usize_add (overflow_checks E) off msg_len) (\<lambda>stop.
    if stop > length d then fail (ProtocolError ''Exception message truncated'')
    else rbind (slice d off stop) (\<lambda>bytes.
      if \<not> utf8_valid bytes then fail (ProtocolError (''Invalid exception UTF-8: '' @ utf8_error_text bytes))
      else
        let message = text_of bytes in
        if stop + 5 \<le> length d then
          let state = take 5 (drop stop d) in
          Inr (\<lparr>w_message = message,
                w_sql_state = (if utf8_valid state then text_of state else unknown_state)\<rparr>, stop + 5)
        else Inr (\<lparr>w_message = message, w_sql_state = unknown_state\<rparr>, stop))))"

definition parse_exception_at :: "native_env \<Rightarrow> byte list \<Rightarrow> NativeResponse rd" where
  "parse_exception_at E d = pbind (parse_message_part E d) (\<lambda>w.
    preturn (Exception (w_message w) (w_sql_state w)))"

definition parse_warning :: "native_env \<Rightarrow> byte list \<Rightarrow> NativeWarning rd" where
  "parse_warning E d = parse_message_part E d"

definition is_known_response_type :: "i8 \<Rightarrow> bool" where
  "is_known_response_type t \<longleftrightarrow>
    t = R_RESULT_SET \<or> t = R_HANDLE \<or> t = R_ROW_COUNT \<or> t = R_COLUMN_COUNT \<or> t = R_WARNING
    \<or> t = R_STILL_EXECUTING \<or> t = R_MORE_ROWS \<or> t = R_EXCEPTION \<or> t = R_EMPTY"

definition consume_status_message :: "native_env \<Rightarrow> byte list \<Rightarrow> unit rd" where
  "consume_status_message E d off =
    (if off \<ge> length d then Inr ((), off)
     else pbind (read_i32 d) (\<lambda>l off. let msg_len = i32_as_usize l in
       rbind (usize_add (overflow_checks E) off msg_len) (\<lambda>stop.
       if stop > length d then fail (ProtocolError ''StillExecuting status message truncated'')
       else Inr ((), stop))) off)"

definition assign_terminal_result ::
  "NativeResponse option \<Rightarrow> NativeResponse \<Rightarrow> (TransportError, NativeResponse option) result" where
  "assign_terminal_result slot response =
    (if slot \<noteq> None then
       fail (ProtocolError ''Multiple terminal results in native response envelope'')
     else Inr (Some response))"

subsection \<open>Legacy responses\<close>

text \<open>
  What the loop of \<open>parse_handle_only_at\<close> does with one sub-result: a result set describes
  the parameters or the result columns, an exception ends the parse, the rest is skipped.
\<close>

definition take_sub_result ::
  "NativeResponse \<Rightarrow> NativeColumnMeta list \<times> NativeColumnMeta list \<Rightarrow>
    (TransportError, NativeColumnMeta list \<times> NativeColumnMeta list) result" where
  "take_sub_result r acc = (case r of
      ResultSet sub_handle columns _ _ _ \<Rightarrow>
        (if sub_handle = PARAMETER_DESCRIPTION then Inr (columns, snd acc) else Inr (fst acc, columns))
    | Exception message sql_state \<Rightarrow> fail (ProtocolError
        (''Exasol reported an exception in a prepared-statement reply sub-result: '' @ message
         @ '' (SQLSTATE '' @ sql_state @ '')''))
    | _ \<Rightarrow> Inr acc)"

text \<open>
  A legacy response may hold a prepared-statement reply, whose sub-results are legacy
  responses again. \<open>legacy_body\<close> is the \<open>match\<close> of \<open>parse_legacy_response_body\<close> with the
  reader of that reply as an argument, \<open>handle_reply\<close> the frame of \<open>parse_handle_only_at\<close>
  around its loop, and \<open>handle_loop\<close> ties the knot, one unit of fuel for each sub-result.
\<close>

definition legacy_body ::
  "NativeResponseEnvelope rd \<Rightarrow> native_env \<Rightarrow> byte list \<Rightarrow> i8 \<Rightarrow> NativeResponseEnvelope rd" where
  "legacy_body handle_only E d t off =
    (if t = R_RESULT_SET then pbind (parse_result_set_at E d) (\<lambda>r. preturn (plain r)) off
     else if t = R_HANDLE then handle_only off
     else if t = R_ROW_COUNT then pbind (parse_row_count_at d) (\<lambda>r. preturn (plain r)) off
     else if t = R_EXCEPTION then pbind (parse_exception_at E d) (\<lambda>r. preturn (plain r)) off
     else if t = R_WARNING then
       pbind (parse_warning E d) (\<lambda>w. preturn \<lparr>warnings = [w], terminal = Empty\<rparr>) off
     else if t = R_COLUMN_COUNT then pbind (read_i32 d) (\<lambda>_. preturn (plain Empty)) off
     else if t = R_EMPTY then preturn (plain Empty) off
     else if t = R_STILL_EXECUTING then
       pbind (consume_status_message E d) (\<lambda>_. preturn (plain StillExecuting)) off
     else if t = R_MORE_ROWS then
       rbind (slice d off (length d)) (\<lambda>remaining. Inr (plain (MoreRows remaining), length d))
     else fail (ProtocolError (''Unknown response type: '' @ show_int (sint t))))"

type_synonym handle_acc = "NativeWarning list \<times> NativeColumnMeta list \<times> NativeColumnMeta list"

definition handle_reply :: "handle_acc rd \<Rightarrow> byte list \<Rightarrow> NativeResponseEnvelope rd" where
  "handle_reply loop d =
    pbind (read_i32 d) (\<lambda>statement_handle. pbind loop (\<lambda>(ws, ps, rs).
      preturn \<lparr>warnings = ws, terminal = PreparedStatement statement_handle ps rs\<rparr>))"

primrec handle_loop :: "nat \<Rightarrow> native_env \<Rightarrow> byte list \<Rightarrow> NativeWarning list \<Rightarrow>
    NativeColumnMeta list \<times> NativeColumnMeta list \<Rightarrow> handle_acc rd" where
  "handle_loop 0 E d ws acc off = (if off < length d then Inl Diverged else Inr ((ws, acc), off))"
| "handle_loop (Suc n) E d ws acc off =
    (if off < length d then
       pbind (pbind (read_u8 d) (\<lambda>t. legacy_body (handle_reply (handle_loop n E d [] ([], [])) d) E d t))
         (\<lambda>sub off'. rbind (take_sub_result (terminal sub) acc) (\<lambda>acc'.
            handle_loop n E d (ws @ warnings sub) acc' off')) off
     else Inr ((ws, acc), off))"

definition parse_handle_only_at :: "nat \<Rightarrow> native_env \<Rightarrow> byte list \<Rightarrow> NativeResponseEnvelope rd" where
  "parse_handle_only_at n E d = handle_reply (handle_loop n E d [] ([], [])) d"

definition parse_legacy_response_body ::
  "nat \<Rightarrow> native_env \<Rightarrow> byte list \<Rightarrow> i8 \<Rightarrow> NativeResponseEnvelope rd" where
  "parse_legacy_response_body n E d t = legacy_body (parse_handle_only_at n E d) E d t"

definition parse_legacy_response_at :: "nat \<Rightarrow> native_env \<Rightarrow> byte list \<Rightarrow> NativeResponseEnvelope rd" where
  "parse_legacy_response_at n E d = pbind (read_u8 d) (\<lambda>t. parse_legacy_response_body n E d t)"

text \<open>One turn of the loop, over the functions of the source.\<close>

lemma handle_loop_Suc:
  "handle_loop (Suc n) E d ws acc off =
    (if off < length d then
       pbind (parse_legacy_response_at n E d)
         (\<lambda>sub off'. rbind (take_sub_result (terminal sub) acc) (\<lambda>acc'.
            handle_loop n E d (ws @ warnings sub) acc' off')) off
     else Inr ((ws, acc), off))"
  by (simp add: parse_legacy_response_at_def parse_legacy_response_body_def parse_handle_only_at_def)

declare handle_loop.simps(2) [simp del]

text \<open>\<open>{:02x?}\<close> of a byte slice.\<close>

definition hex_digit :: "nat \<Rightarrow> char" where
  "hex_digit n = (if n < 10 then digit_char n else char_of (87 + n))"

fun hex_bytes :: "byte list \<Rightarrow> string" where
  "hex_bytes [] = []"
| "hex_bytes [b] = [hex_digit (unat b div 16), hex_digit (unat b mod 16)]"
| "hex_bytes (b # bs) = [hex_digit (unat b div 16), hex_digit (unat b mod 16)] @ '', '' @ hex_bytes bs"

definition debug_bytes :: "byte list \<Rightarrow> string" where
  "debug_bytes bs = ''['' @ hex_bytes bs @ '']''"

definition parse_legacy_response :: "native_env \<Rightarrow> byte list \<Rightarrow> (TransportError, NativeResponseEnvelope) result" where
  "parse_legacy_response E d =
    rbind (parse_legacy_response_at (fuel E) E d 0) (\<lambda>(response, off).
    if off \<noteq> length d then fail (ProtocolError (''Trailing bytes after legacy response: remaining ''
      @ debug_bytes (drop off d)))
    else Inr response)"

subsection \<open>Counted envelopes\<close>

text \<open>
  The loop over the parts of an envelope; \<open>n\<close> counts the parts that are left, so the part
  at hand is the last one when \<open>n\<close> is its predecessor 0.
\<close>

fun parse_parts :: "native_env \<Rightarrow> byte list \<Rightarrow> nat \<Rightarrow> NativeWarning list \<Rightarrow> NativeResponse option \<Rightarrow>
    (NativeWarning list \<times> NativeResponse option) rd" where
  "parse_parts E d 0 ws term = preturn (ws, term)"
| "parse_parts E d (Suc n) ws term =
    pbind (read_u8 d) (\<lambda>t off.
    let finish = (\<lambda>r off. rbind (assign_terminal_result term r) (\<lambda>term'. parse_parts E d n ws term' off)) in
    if t = R_WARNING then pbind (parse_warning E d) (\<lambda>w. parse_parts E d n (ws @ [w]) term) off
    else if t = R_COLUMN_COUNT then pbind (read_i32 d) (\<lambda>_. parse_parts E d n ws term) off
    else if t = R_RESULT_SET then pbind (parse_result_set_at E d) finish off
    else if t = R_HANDLE then
      pbind (parse_handle_only_at (fuel E) E d) (\<lambda>env off.
        rbind (assign_terminal_result term (terminal env)) (\<lambda>term'.
          parse_parts E d n (ws @ warnings env) term' off)) off
    else if t = R_ROW_COUNT then pbind (parse_row_count_at d) finish off
    else if t = R_EXCEPTION then pbind (parse_exception_at E d) finish off
    else if t = R_EMPTY then finish Empty off
    else if t = R_STILL_EXECUTING then finish StillExecuting off
    else if t = R_MORE_ROWS then
      (if n \<noteq> 0 then fail (ProtocolError ''MoreRows must be the final native response part'')
       else rbind (slice d off (length d)) (\<lambda>rest. finish (MoreRows rest) (length d)))
    else fail (ProtocolError (''Unknown response type: '' @ show_int (sint t) @ '' at offset ''
      @ show_nat (off - 1) @ '' (data '' @ debug_bytes (take 64 d) @ '')'')))"

definition try_parse_counted_envelope ::
  "native_env \<Rightarrow> byte list \<Rightarrow> (TransportError, NativeResponseEnvelope option) result" where
  "try_parse_counted_envelope E d =
    (if length d < 5 then Inr None
     else rbind (read_i32 d 0) (\<lambda>(result_count, off).
       if \<not> (1 \<le> sint result_count \<and> sint result_count \<le> 64) then Inr None
       else if \<not> is_known_response_type (d ! off) then Inr None
       else rbind (parse_parts E d (nat (sint result_count)) [] None off) (\<lambda>((ws, term), off).
         if off \<noteq> length d then Inr None
         else Inr (Some \<lparr>warnings = ws, terminal = (case term of Some r \<Rightarrow> r | None \<Rightarrow> Empty)\<rparr>))))"

definition parse_response :: "native_env \<Rightarrow> byte list \<Rightarrow> (TransportError, NativeResponseEnvelope) result" where
  "parse_response E d =
    (if d = [] then Inr (plain Empty)
     else if length d = 4 \<and> u32_of_le d = 0 then Inr (plain Empty)
     else rbind (try_parse_counted_envelope E d) (\<lambda>env.
       case env of Some e \<Rightarrow> Inr e | None \<Rightarrow> parse_legacy_response E d))"

end
