(* ===== verification/Parser_Laws.thy ===== *)
theory Parser_Laws
  imports Result_Parser
begin

text \<open>
  Laws of the response parser. \<open>settles d p\<close> is the contract of a reader under checked
  offset arithmetic: it never runs forever, and a successful read moves forward and stays
  inside the buffer. Every reader of the wire format has it, so the loop over the
  sub-results of a prepared-statement reply ends, and fuel equal to the length of the
  message is enough. Without overflow checks the same loop can run forever.
\<close>

named_theorems settle_intros \<open>readers that end, move forward and stay inside the buffer\<close>

subsection \<open>Computations that end\<close>

definition ends :: "('e, 'a) result \<Rightarrow> bool" where
  "ends r \<longleftrightarrow> r \<noteq> Inl Diverged"

lemma ends_simps [simp]: "ends (Inr x)" "ends (fail e)" "ends (Inl Panic)" "\<not> ends (Inl Diverged)"
  by (simp_all add: ends_def)

lemma ends_Inl [simp]: "ends (Inl e) \<longleftrightarrow> e \<noteq> Diverged"
  by (simp add: ends_def)

lemma ends_rbind: "ends m \<Longrightarrow> (\<And>x. m = Inr x \<Longrightarrow> ends (f x)) \<Longrightarrow> ends (rbind m f)"
  by (cases m) (auto simp: ends_def)

lemma graceful_ends: "graceful r \<Longrightarrow> ends r"
  by (simp add: graceful_def ends_def)

lemma ends_basic [simp]:
  "ends (i_arith ovf w x)" "ends (parse_or v msg)" "ends (str_prefix n s)" "ends (alloc E n)"
  "ends (usize_add ovf a b)" "ends (slice d a b)" "ends (vec_with_capacity E n)"
  "ends (data_capacity E n)" "ends (lift_arrow msg r)"
  by (simp_all add: i_arith_def parse_or_def str_prefix_def alloc_def usize_add_def slice_def
      vec_with_capacity_def data_capacity_def lift_arrow_def split: option.split sum.split)

lemma ends_map_err [simp]: "ends (map_err f r) = ends r"
  by (auto simp: map_err_def ends_def split: sum.splits fault.splits)

lemma ends_ymd [simp]: "ends (ymd_to_days ovf y m d)"
  unfolding ymd_to_days_def Let_def by (intro ends_rbind) simp_all

lemma ends_ymd_hms [simp]: "ends (ymd_hms_nanos_to_micros ovf y m d h mi s n)"
  unfolding ymd_hms_nanos_to_micros_def Let_def by (intro ends_rbind) simp_all

lemma ends_fractional [simp]: "ends (fractional_seconds_to_units f n)"
  by (auto simp: fractional_seconds_to_units_def Let_def intro!: ends_rbind split: if_split option.split)

lemma ends_interval_seconds [simp]: "ends (parse_interval_seconds_to_nanos s)"
  by (auto simp: parse_interval_seconds_to_nanos_def fractional_seconds_to_nanos_def Let_def
      intro!: ends_rbind split: if_split option.split prod.split)

lemma ends_interval_time [simp]: "ends (parse_interval_time_to_nanos s)"
  by (auto simp: parse_interval_time_to_nanos_def Let_def
      intro!: ends_rbind split: if_split option.split prod.split list.split)

lemma ends_interval_days [simp]: "ends (parse_interval_days_and_nanos s)"
  by (auto simp: parse_interval_days_and_nanos_def Let_def
      intro!: ends_rbind split: if_split option.split prod.split)

lemma ends_interval_months [simp]: "ends (parse_interval_months body s)"
  by (auto simp: parse_interval_months_def intro!: ends_rbind split: list.split)

lemma ends_interval [simp]: "ends (parse_interval ovf s)"
  by (auto simp: parse_interval_def Let_def intro!: ends_rbind split: if_split option.split prod.split)

subsection \<open>The contract and its rules\<close>

definition settles :: "byte list \<Rightarrow> 'a rd \<Rightarrow> bool" where
  "settles d p \<longleftrightarrow> (\<forall>off \<le> length d. ends (p off) \<and>
    (\<forall>x off'. p off = Inr (x, off') \<longrightarrow> off \<le> off' \<and> off' \<le> length d))"

lemma settlesI:
  "(\<And>off. off \<le> length d \<Longrightarrow> ends (p off)) \<Longrightarrow>
   (\<And>off x off'. off \<le> length d \<Longrightarrow> p off = Inr (x, off') \<Longrightarrow> off \<le> off' \<and> off' \<le> length d) \<Longrightarrow>
   settles d p"
  unfolding settles_def by blast

lemma settlesD:
  assumes "settles d p" "off \<le> length d"
  shows "ends (p off)" "p off = Inr (x, off') \<Longrightarrow> off \<le> off' \<and> off' \<le> length d"
  using assms unfolding settles_def by blast+

lemma settles_graceful_advances:
  "advances w d p \<Longrightarrow> (\<And>off. graceful (p off)) \<Longrightarrow> settles d p"
  by (rule settlesI) (use graceful_ends in blast, use advancesD in fastforce)

lemma settles_preturn [settle_intros]: "settles d (preturn x)"
  by (rule settlesI) (simp_all add: preturn_def)

lemma settles_Inr [settle_intros]: "settles d (\<lambda>off. Inr (x, off))"
  by (rule settlesI) simp_all

lemma settles_fail [settle_intros]: "settles d (\<lambda>off. fail e)" "settles d (pfail e)"
  by (rule settlesI, simp_all add: pfail_def)+

lemma settles_pbind [settle_intros]:
  assumes p: "settles d p" and f: "\<And>x. settles d (f x)"
  shows "settles d (pbind p f)"
proof (rule settlesI)
  fix off assume off: "off \<le> length d"
  show "ends (pbind p f off)"
    unfolding pbind_def
  proof (rule ends_rbind)
    show "ends (p off)" by (rule settlesD(1) [OF p off])
    fix r assume "p off = Inr r"
    then show "ends (case r of (x, off') \<Rightarrow> f x off')"
      using settlesD(2) [OF p off, of "fst r" "snd r"] settlesD(1) [OF f, of "snd r" "fst r"]
      by (cases r) simp
  qed
next
  fix off y off'' assume off: "off \<le> length d" and run: "pbind p f off = Inr (y, off'')"
  then obtain x off' where "p off = Inr (x, off')" "f x off' = Inr (y, off'')"
    by (auto simp: res_simps)
  then show "off \<le> off'' \<and> off'' \<le> length d"
    using settlesD(2) [OF p off, of x off'] settlesD(2) [OF f, of off' x y off''] by auto
qed

lemma settles_prepeat [settle_intros]: "settles d p \<Longrightarrow> settles d (prepeat n p)"
  by (induction n) (simp_all add: settle_intros)

lemma settles_if [settle_intros]:
  "settles d p \<Longrightarrow> settles d q \<Longrightarrow> settles d (if b then p else q)"
  "settles d p \<Longrightarrow> settles d q \<Longrightarrow> settles d (\<lambda>off. if b then p off else q off)"
  by (cases b, simp_all)+

lemma settles_seq [settle_intros]:
  "ends m \<Longrightarrow> (\<And>x. settles d (f x)) \<Longrightarrow> settles d (\<lambda>off. rbind m (\<lambda>x. f x off))"
  by (cases m) (auto intro!: settlesI simp: ends_def)

lemma settles_prims [settle_intros]:
  "settles d (read_u8 d)" "settles d (read_i16 d)" "settles d (read_i32 d)"
  "settles d (read_i64 d)" "settles d (read_f64 d)" "settles d (read_f32 d)"
  "settles d (read_i128 d)"
  by (rule settles_graceful_advances, rule progress_intros, simp)+

text \<open>The pattern \<open>offset + len\<close> followed by a bounds check, as all length fields use it.\<close>

lemma settles_len [settle_intros]:
  assumes "overflow_checks E" and "\<And>v. ends (f v)"
  shows "settles d (\<lambda>off. rbind (usize_add (overflow_checks E) off l) (\<lambda>stop.
    if stop > length d then fail e
    else rbind (slice d off stop) (\<lambda>value. rbind (f value) (\<lambda>y. Inr (y, stop)))))"
  using assms
  by (intro settlesI) (auto simp: res_simps usize_add_def intro!: ends_rbind split: if_splits)

subsection \<open>Every reader of the wire format settles\<close>

lemma settles_len_plain [settle_intros]:
  "overflow_checks E \<Longrightarrow> settles d (\<lambda>off. rbind (usize_add (overflow_checks E) off l) (\<lambda>stop.
    if stop > length d then fail e else rbind (slice d off stop) (\<lambda>value. Inr (value, stop))))"
  using settles_len [of E "Inr" d l e] by (simp only: ends_simps rbind.simps)

lemma settles_read_length_prefixed [settle_intros]:
  "overflow_checks E \<Longrightarrow> settles d (read_length_prefixed_msg E d msg)"
  unfolding read_length_prefixed_msg_def Let_def by (intro settle_intros)

lemma settles_dates [settle_intros]:
  "settles d (read_packed_date_days E d)" "settles d (read_timestamp_micros E d)"
  unfolding read_packed_date_days_def read_timestamp_micros_def Let_def
  by (intro settle_intros, simp)+

lemma settles_guard:
  assumes q: "settles d q" and p: "\<And>v. settles d (p v)" and k: "k \<le> 1"
  shows "settles d (\<lambda>off. if length d \<le> off then q off else p off (off + k))"
proof (rule settlesI)
  fix off assume off: "off \<le> length d"
  show "ends (if length d \<le> off then q off else p off (off + k))"
    using settlesD(1) [OF q off] settlesD(1) [OF p, of "off + k"] k by simp
  fix x off' assume "(if length d \<le> off then q off else p off (off + k)) = Inr (x, off')"
  then show "off \<le> off' \<and> off' \<le> length d"
    using settlesD(2) [OF q off, of x off'] settlesD(2) [OF p, of "off + k" off x off'] k
    by (auto split: if_splits)
qed

lemma settles_guard0:
  "settles d q \<Longrightarrow> settles d p \<Longrightarrow> settles d (\<lambda>off. if length d \<le> off then q off else p off)"
  using settles_guard [of d q "\<lambda>_. p" 0] by (simp cong: if_cong)

lemma settles_read_char_meta [settle_intros]: "settles d (read_char_meta d msg)"
  unfolding read_char_meta_def
  by (rule settles_guard [where k = 1]) (simp_all add: settle_intros)

lemma settles_read_name [settle_intros]: "overflow_checks E \<Longrightarrow> settles d (read_name E d)"
  unfolding read_name_def Let_def
  by (rule settles_pbind, rule settle_intros, rule settlesI)
    (auto simp: res_simps usize_add_def intro!: ends_rbind split: if_splits)

lemma settles_parse_column_meta [settle_intros]:
  "overflow_checks E \<Longrightarrow> settles d (parse_column_meta E d)"
  unfolding parse_column_meta_def Let_def case_prod_unfold by (intro settle_intros)

lemma settles_read_nullable [settle_intros]: "settles d val \<Longrightarrow> settles d (read_nullable d val mk)"
  unfolding read_nullable_def by (intro settle_intros)

lemma settles_fill_column [settle_intros]:
  "settles d val \<Longrightarrow> settles d (fill_column E d name ty n val mk)"
  unfolding fill_column_def by (intro settle_intros) simp_all

lemma settles_read_interval [settle_intros]:
  "overflow_checks E \<Longrightarrow> settles d (read_interval E d name)"
  unfolding read_interval_def by (intro settle_intros) simp_all

lemma settles_read_utf8 [settle_intros]: "overflow_checks E \<Longrightarrow> settles d (read_utf8 E d)"
  unfolding read_utf8_def by (intro settle_intros)

lemma settles_fill_text [settle_intros]:
  "overflow_checks E \<Longrightarrow> settles d (fill_binary_column E d name n)"
  "overflow_checks E \<Longrightarrow> settles d (fill_string_builder E d name n)"
  unfolding fill_binary_column_def fill_string_builder_def by (intro settle_intros; simp)+

lemmas fill_column_defs = fill_double_column_def fill_real_column_def fill_boolean_column_def
  fill_interval_column_def fill_smalldecimal_column_def fill_decimal_column_def
  fill_bigdecimal_column_def fill_date_column_def fill_timestamp_column_def

lemma settles_fill_column_builder [settle_intros]:
  "overflow_checks E \<Longrightarrow> settles d (fill_column_builder E d meta n)"
  unfolding fill_column_builder_def fill_column_defs Let_def by (intro settle_intros)

lemma settles_fill_columns [settle_intros]:
  "overflow_checks E \<Longrightarrow> settles d (fill_columns E d metas n)"
  by (induction metas) (simp_all add: settle_intros)

lemma settles_build_batch [settle_intros]:
  assumes "overflow_checks E"
  shows "settles d (build_batch_from_wire E d metas n)"
proof -
  have "build_batch_from_wire E d metas n =
    (if metas = [] then (\<lambda>off. rbind (lift_arrow ''Failed to create empty RecordBatch: ''
        (rb_try_new_rows E n)) (\<lambda>b. Inr (b, off)))
     else pbind (fill_columns E d metas n) (\<lambda>cols off. rbind (lift_arrow ''Failed to create RecordBatch: ''
        (rb_try_new E (map fst cols) (map snd cols))) (\<lambda>b. Inr (b, off))))"
    by (simp add: build_batch_from_wire_def pbind_def fun_eq_iff case_prod_unfold)
  then show ?thesis using assms by (simp add: settle_intros)
qed

lemma settles_parse_result_set_at [settle_intros]:
  "overflow_checks E \<Longrightarrow> settles d (parse_result_set_at E d)"
  unfolding parse_result_set_at_def Let_def by (intro settle_intros) simp_all

lemma settles_parse_row_count_at [settle_intros]: "settles d (parse_row_count_at d)"
  unfolding parse_row_count_at_def by (intro settle_intros)

lemma settles_parse_message_part [settle_intros]:
  "overflow_checks E \<Longrightarrow> settles d (parse_message_part E d)"
  unfolding parse_message_part_def Let_def
  by (rule settles_pbind, rule settle_intros, rule settlesI)
    (auto simp: res_simps usize_add_def intro!: ends_rbind split: if_splits)

lemma settles_messages [settle_intros]:
  "overflow_checks E \<Longrightarrow> settles d (parse_exception_at E d)"
  "overflow_checks E \<Longrightarrow> settles d (parse_warning E d)"
  unfolding parse_exception_at_def parse_warning_def by (intro settle_intros; simp)+

lemma settles_consume_status_message [settle_intros]:
  assumes "overflow_checks E"
  shows "settles d (consume_status_message E d)"
proof -
  have len: "settles d (\<lambda>off. rbind (usize_add (overflow_checks E) off l)
      (\<lambda>stop. if stop > length d then fail e else Inr ((), stop)))" for l e
    using assms by (intro settlesI) (auto simp: res_simps usize_add_def split: if_splits)
  show ?thesis
    unfolding consume_status_message_def Let_def by (intro settles_guard0 settle_intros len)
qed

subsection \<open>The prepared-statement reply\<close>

text \<open>
  The reader of the reply ends from every offset that leaves at most as many bytes as it has
  fuel: \<open>settles_from m\<close> is the contract from offset \<open>m\<close> on.
\<close>

definition settles_from :: "nat \<Rightarrow> byte list \<Rightarrow> 'a rd \<Rightarrow> bool" where
  "settles_from m d p \<longleftrightarrow> (\<forall>off. m \<le> off \<longrightarrow> off \<le> length d \<longrightarrow> ends (p off) \<and>
    (\<forall>x off'. p off = Inr (x, off') \<longrightarrow> off \<le> off' \<and> off' \<le> length d))"

lemma settles_fromI:
  "(\<And>off. m \<le> off \<Longrightarrow> off \<le> length d \<Longrightarrow> ends (p off)) \<Longrightarrow>
   (\<And>off x off'. m \<le> off \<Longrightarrow> off \<le> length d \<Longrightarrow> p off = Inr (x, off') \<Longrightarrow> off \<le> off' \<and> off' \<le> length d) \<Longrightarrow>
   settles_from m d p"
  unfolding settles_from_def by blast

lemma settles_fromD:
  assumes "settles_from m d p" "m \<le> off" "off \<le> length d"
  shows "ends (p off)" "p off = Inr (x, off') \<Longrightarrow> off \<le> off' \<and> off' \<le> length d"
  using assms unfolding settles_from_def by blast+

lemma settles_from_weaken: "settles d p \<Longrightarrow> settles_from m d p"
  unfolding settles_def settles_from_def by blast

lemma settles_from_0: "settles_from 0 d p = settles d p"
  unfolding settles_def settles_from_def by blast

lemma settles_from_pbind:
  assumes p: "settles_from m d p" and f: "\<And>x. settles_from m d (f x)"
  shows "settles_from m d (pbind p f)"
proof (rule settles_fromI)
  fix off assume off: "m \<le> off" "off \<le> length d"
  show "ends (pbind p f off)"
  proof (cases "p off")
    case (Inl e)
    then show ?thesis using settles_fromD(1) [OF p off] by simp
  next
    case (Inr r)
    obtain x off' where r: "r = (x, off')" by (cases r)
    have o: "off \<le> off' \<and> off' \<le> length d" using settles_fromD(2) [OF p off] Inr r by simp
    show ?thesis using settles_fromD(1) [OF f, of off' x] Inr r o off by simp
  qed
next
  fix off y off'' assume off: "m \<le> off" "off \<le> length d" and run: "pbind p f off = Inr (y, off'')"
  then obtain x off' where 1: "p off = Inr (x, off')" and 2: "f x off' = Inr (y, off'')"
    by (auto simp: res_simps)
  have o: "off \<le> off' \<and> off' \<le> length d" using settles_fromD(2) [OF p off 1] .
  have "off' \<le> off'' \<and> off'' \<le> length d" using settles_fromD(2) [OF f _ _ 2] o off by simp
  with o show "off \<le> off'' \<and> off'' \<le> length d" by simp
qed

lemma settles_from_legacy_body:
  assumes E: "overflow_checks E" and h: "settles_from m d handle_only"
  shows "settles_from m d (legacy_body handle_only E d t)"
proof (cases "t = R_HANDLE")
  case True
  have "R_HANDLE \<noteq> R_RESULT_SET" by (simp add: const_defs)
  then have "legacy_body handle_only E d t = handle_only" using True by (simp add: legacy_body_def fun_eq_iff)
  with h show ?thesis by simp
next
  case False
  have rows: "settles d (\<lambda>off. rbind (slice d off (length d)) (\<lambda>r. Inr (plain (MoreRows r), length d)))"
    by (rule settlesI) (auto simp: res_simps intro!: ends_rbind)
  show ?thesis
    unfolding legacy_body_def using E False
    by (intro settles_from_weaken) (simp add: settle_intros rows)
qed

lemma settles_from_handle_reply:
  assumes "settles_from m d loop"
  shows "settles_from m d (handle_reply loop d)"
  unfolding handle_reply_def case_prod_unfold
  by (rule settles_from_pbind settles_from_weaken settle_intros assms)+

lemma take_sub_result_ends [simp]: "ends (take_sub_result r acc)"
  by (simp add: take_sub_result_def split: NativeResponse.split)

lemma handle_loop_settles:
  assumes E: "overflow_checks E" and m: "length d \<le> m + n"
  shows "settles_from m d (handle_loop n E d ws acc)"
  using m
proof (induction n arbitrary: m ws acc)
  case 0
  then show ?case by (simp add: settles_from_def)
next
  case (Suc n)
  have IH: "settles_from (Suc m) d (handle_loop n E d ws acc)" for ws acc
    using Suc.prems by (intro Suc.IH) simp
  have sub: "settles_from (Suc m) d (parse_legacy_response_body n E d t)" for t
    unfolding parse_legacy_response_body_def parse_handle_only_at_def
    by (intro settles_from_legacy_body E settles_from_handle_reply IH)
  have rest: "settles_from (Suc m) d (\<lambda>off'. rbind (take_sub_result r acc) (\<lambda>acc'. handle_loop n E d ws' acc' off'))"
    for r ws'
  proof (cases "take_sub_result r acc")
    case (Inl e)
    then show ?thesis using take_sub_result_ends [of r acc] by (intro settles_fromI) simp_all
  next
    case (Inr acc')
    then show ?thesis using IH [of ws' acc'] by simp
  qed
  let ?turn = "\<lambda>t. pbind (parse_legacy_response_body n E d t) (\<lambda>x off'.
      rbind (take_sub_result (terminal x) acc) (\<lambda>acc'. handle_loop n E d (ws @ warnings x) acc' off'))"
  have turn: "settles_from (Suc m) d (?turn t)" for t
    by (rule settles_from_pbind [OF sub rest])
  have step: "handle_loop (Suc n) E d ws acc off =
      (if off < length d then ?turn (d ! off) (Suc off) else Inr ((ws, acc), off))" for off
    by (simp add: handle_loop_Suc parse_legacy_response_at_def pbind_assoc read_u8_def)
  show ?case
  proof (rule settles_fromI)
    fix off assume off: "m \<le> off" "off \<le> length d"
    show "ends (handle_loop (Suc n) E d ws acc off)"
      using settles_fromD(1) [OF turn, of "Suc off"] off by (simp add: step)
    fix x off' assume "handle_loop (Suc n) E d ws acc off = Inr (x, off')"
    then show "off \<le> off' \<and> off' \<le> length d"
      using settles_fromD(2) [OF turn, of "Suc off" "d ! off" x off'] off
      by (cases "off < length d") (simp_all add: step)
  qed
qed

lemma settles_parse_handle_only_at:
  assumes "overflow_checks E" "length d \<le> n"
  shows "settles d (parse_handle_only_at n E d)"
  unfolding parse_handle_only_at_def settles_from_0 [symmetric]
  using assms by (intro settles_from_handle_reply handle_loop_settles) simp_all

lemma settles_parse_legacy_response_at:
  assumes "overflow_checks E" "length d \<le> n"
  shows "settles d (parse_legacy_response_at n E d)"
proof -
  have "settles d (parse_legacy_response_body n E d t)" for t
    unfolding parse_legacy_response_body_def settles_from_0 [symmetric]
    using assms settles_parse_handle_only_at
    by (intro settles_from_legacy_body) (simp_all add: settles_from_0)
  then show ?thesis unfolding parse_legacy_response_at_def by (intro settle_intros)
qed

lemma ends_parse_legacy_response:
  assumes "overflow_checks E" "length d \<le> fuel E"
  shows "ends (parse_legacy_response E d)"
  unfolding parse_legacy_response_def
  using settlesD(1) [OF settles_parse_legacy_response_at [OF assms], of 0]
  by (auto intro!: ends_rbind)

subsection \<open>The counted envelope\<close>

lemma ends_assign_terminal_result [simp]: "ends (assign_terminal_result slot r)"
  by (simp add: assign_terminal_result_def)

lemma settles_rest:
  assumes "\<And>r. settles d (f r)"
  shows "settles d (\<lambda>off. rbind (slice d off (length d)) (\<lambda>r. f r (length d)))"
proof (rule settlesI)
  fix off assume off: "off \<le> length d"
  then have e: "rbind (slice d off (length d)) (\<lambda>r. f r (length d)) = f (drop off d) (length d)"
    by (simp add: slice_def)
  show "ends (rbind (slice d off (length d)) (\<lambda>r. f r (length d)))"
    unfolding e using settlesD(1) [OF assms] by simp
  fix x off' assume "rbind (slice d off (length d)) (\<lambda>r. f r (length d)) = Inr (x, off')"
  then show "off \<le> off' \<and> off' \<le> length d"
    unfolding e using settlesD(2) [OF assms, of "length d" "drop off d" x off'] off by simp
qed

lemma settles_unknown_part [settle_intros]: "settles d (\<lambda>off. fail (e off))"
  by (rule settlesI) simp_all

lemma settles_parse_parts [settle_intros]:
  assumes E: "overflow_checks E" "length d \<le> fuel E"
  shows "settles d (parse_parts E d n ws term)"
proof (induction n arbitrary: ws "term")
  case 0
  show ?case by (simp add: settle_intros)
next
  case (Suc n)
  let ?finish = "\<lambda>r off. rbind (assign_terminal_result term r) (\<lambda>term'. parse_parts E d n ws term' off)"
  have fin: "settles d (?finish r)" for r
    by (intro settles_seq ends_assign_terminal_result Suc)
  have fin': "settles d (\<lambda>off. rbind (assign_terminal_result term r) (\<lambda>term'. parse_parts E d n ws' term' off))"
    for r ws' by (intro settles_seq ends_assign_terminal_result Suc)
  note parts = settles_pbind [OF settles_parse_handle_only_at [OF E] fin'] settles_rest [where f = "\<lambda>b. ?finish (MoreRows b)", OF fin]
    settles_pbind [OF settles_prims(3) Suc] settles_pbind [OF settles_parse_row_count_at fin]
    settles_pbind [OF settles_parse_result_set_at [OF E(1)] fin] settles_pbind [OF settles_messages(1) [OF E(1)] fin]
    settles_pbind [OF settles_messages(2) [OF E(1)] Suc]
  show ?case
    unfolding parse_parts.simps Let_def
    by (rule settles_pbind [OF settles_prims(1)])
      (intro settles_if(2) parts fin settles_fail settles_unknown_part)
qed

lemma ends_try_parse_counted_envelope:
  assumes "overflow_checks E" "length d \<le> fuel E"
  shows "ends (try_parse_counted_envelope E d)"
proof (cases "length d < 5")
  case False
  then have i: "read_i32 d 0 = Inr (u32_of_le (take 4 (drop 0 d)), 4)" by (simp add: read_i32_def)
  have "ends (parse_parts E d n [] None 4)" for n
    using False by (intro settlesD(1) [OF settles_parse_parts [OF assms]]) simp
  then show ?thesis
    by (auto simp: try_parse_counted_envelope_def i intro!: ends_rbind)
qed (simp add: try_parse_counted_envelope_def)

lemma ends_parse_response:
  assumes "overflow_checks E" "length d \<le> fuel E"
  shows "ends (parse_response E d)"
  unfolding parse_response_def
  using ends_try_parse_counted_envelope [OF assms] ends_parse_legacy_response [OF assms]
  by (auto intro!: ends_rbind split: option.split)

subsection \<open>Without overflow checks the reply loop can run forever\<close>

text \<open>
  A prepared-statement reply with one StillExecuting sub-result whose status length is -5:
  the five bytes it consumes are given back, so the loop is at the same sub-result again.
\<close>

definition endless_reply :: "byte list" where
  "endless_reply = [2, 1, 0, 0, 0, 5, 0xFB, 0xFF, 0xFF, 0xFF]"

lemma length_endless_reply [simp]: "length endless_reply = 10"
  by (simp add: endless_reply_def)

lemma endless_status:
  assumes "\<not> overflow_checks E"
  shows "parse_legacy_response_at n E endless_reply 5 = Inr (plain StillExecuting, 5)"
proof -
  have r: "read_i32 endless_reply 6 = Inr (0xFFFFFFFB, 10)"
    by (simp add: read_i32_def endless_reply_def u32_of_le_def)
  have l: "i32_as_usize 0xFFFFFFFB = 18446744073709551611" by (simp add: i32_as_usize_def)
  have "consume_status_message E endless_reply 6 = Inr ((), 5)"
    using assms by (simp add: consume_status_message_def pbind_def r l usize_add_def)
  then show ?thesis
    by (simp add: parse_legacy_response_at_def parse_legacy_response_body_def legacy_body_def
        read_u8_def endless_reply_def const_defs preturn_def)
qed

lemma endless_loop:
  assumes "\<not> overflow_checks E"
  shows "handle_loop n E endless_reply ws acc 5 = Inl Diverged"
proof (induction n arbitrary: ws acc)
  case 0
  show ?case by (simp add: endless_reply_def)
next
  case (Suc n)
  have "take_sub_result (terminal (plain StillExecuting)) acc = Inr acc"
    by (simp add: plain_def take_sub_result_def)
  then show ?case
    using Suc by (simp add: handle_loop_Suc endless_status [OF assms])
qed

lemma endless_parse:
  assumes "\<not> overflow_checks E"
  shows "parse_response E endless_reply = Inl Diverged"
proof -
  have r: "read_i32 endless_reply (Suc 0) = Inr (1, 5)" "read_i32 endless_reply 0 = Inr (258, 4)"
    by (simp_all add: read_i32_def endless_reply_def u32_of_le_def)
  have "handle_reply (handle_loop n E endless_reply [] ([], [])) endless_reply (Suc 0) = Inl Diverged" for n
    by (simp add: handle_reply_def pbind_def r endless_loop [OF assms])
  moreover have "try_parse_counted_envelope E endless_reply = Inr None"
    by (simp add: try_parse_counted_envelope_def r)
  moreover have "read_u8 endless_reply 0 = Inr (R_HANDLE, Suc 0)"
    by (simp add: read_u8_def) (simp add: endless_reply_def const_defs)
  moreover have "R_HANDLE \<noteq> R_RESULT_SET" "endless_reply \<noteq> []"
    by (simp_all add: const_defs endless_reply_def)
  ultimately show ?thesis
    by (simp add: parse_response_def parse_legacy_response_def parse_legacy_response_at_def
        parse_legacy_response_body_def legacy_body_def parse_handle_only_at_def)
qed

end
