(* ===== verification/Column_Laws.thy ===== *)
theory Column_Laws
  imports Columns
begin

text \<open>
  The wire format of column data, as an encoder that is the inverse of the decoder. A
  \<open>wire_value\<close> is a value as the server writes it, \<open>enc_value\<close> its bytes and \<open>cell_of\<close>
  the Arrow cell it means. The locale \<open>wire_column\<close> is the contract of one reader; its
  interpretations discharge it for every wire type, and a whole result set decodes to
  the cells it was written from.
\<close>

datatype wire_value =
    WDouble u64
  | WReal u32
  | WBool bool
  | WBytes "byte list"
  | WText string
  | WInterval string IntervalMonthDayNano
  | WInt32 i32
  | WInt64 i64
  | WInt128 i128
  | WDate date
  | WTimestamp date nat nat nat nat

definition enc_bytes :: "byte list \<Rightarrow> byte list" where
  "enc_bytes b = u32_to_le (of_nat (length b)) @ b"

fun enc_value :: "wire_value \<Rightarrow> byte list" where
  "enc_value (WDouble w) = u64_to_le w"
| "enc_value (WReal w) = u32_to_le w"
| "enc_value (WBool b) = [if b then 1 else 0]"
| "enc_value (WBytes b) = enc_bytes b"
| "enc_value (WText s) = enc_bytes (as_bytes s)"
| "enc_value (WInterval s v) = enc_bytes (as_bytes s)"
| "enc_value (WInt32 w) = u32_to_le w"
| "enc_value (WInt64 w) = u64_to_le w"
| "enc_value (WInt128 w) = u128_to_le w"
| "enc_value (WDate (y, m, d)) = u32_to_le (of_int (y * 65536 + int m * 256 + int d))"
| "enc_value (WTimestamp (y, m, d) h mi s n) =
    u16_to_le (of_int y) @ [of_nat m, of_nat d, of_nat h, of_nat mi, of_nat s] @ u32_to_le (of_nat n)"

definition micros_of :: "date \<Rightarrow> nat \<Rightarrow> nat \<Rightarrow> nat \<Rightarrow> nat \<Rightarrow> int" where
  "micros_of t h mi s n =
    days_from_civil t * 86400000000 + int h * 3600000000 + int mi * 60000000 + int s * 1000000 + int (n div 1000)"

fun cell_of :: "wire_value \<Rightarrow> cell" where
  "cell_of (WDouble w) = CFloat64 w"
| "cell_of (WReal w) = CFloat64 (f32_to_f64 w)"
| "cell_of (WBool b) = CBoolean b"
| "cell_of (WBytes b) = CBinary b"
| "cell_of (WText s) = CUtf8 s"
| "cell_of (WInterval s v) = CInterval v"
| "cell_of (WInt32 w) = CDecimal (sint w)"
| "cell_of (WInt64 w) = CDecimal (sint w)"
| "cell_of (WInt128 w) = CDecimal (sint w)"
| "cell_of (WDate t) = CDate (days_from_civil t)"
| "cell_of (WTimestamp t h mi s n) = CTimestamp (micros_of t h mi s n)"

definition exasol_date :: "date \<Rightarrow> bool" where
  "exasol_date t \<longleftrightarrow> valid_date t \<and> exasol_year (fst t)"

definition text_ok :: "string \<Rightarrow> bool" where
  "text_ok s \<longleftrightarrow> length s < 2 ^ 31 \<and> utf8_valid (as_bytes s)"

subsection \<open>The contract of a value reader\<close>

locale wire_column =
  fixes rd :: "byte list \<Rightarrow> 'a rd" and mk :: "'a \<Rightarrow> cell" and ok :: "wire_value \<Rightarrow> bool"
  assumes rd_enc: "ok v \<Longrightarrow> d = pre @ enc_value v @ rest \<Longrightarrow> length d < 2 ^ 63 \<Longrightarrow>
    \<exists>x. rd d (length pre) = Inr (x, length pre + length (enc_value v)) \<and> mk x = cell_of v"
begin
end

text \<open>A nullable value: marker 0, or marker 1 and the value. Columns are lists of them.\<close>

fun enc_nullable :: "wire_value option \<Rightarrow> byte list" where
  "enc_nullable None = [0]"
| "enc_nullable (Some v) = 1 # enc_value v"

definition enc_column :: "wire_value option list \<Rightarrow> byte list" where
  "enc_column vs = concat (map enc_nullable vs)"

context wire_column
begin

lemma nullable_enc:
  assumes "pred_option ok v" "d = pre @ enc_nullable v @ rest" "off = length pre" "length d < 2 ^ 63"
  shows "read_nullable d (rd d) mk off = Inr (map_option cell_of v, off + length (enc_nullable v))"
proof (cases v)
  case None
  then show ?thesis using assms(2,3) by (simp add: read_nullable_def read_u8_def preturn_def)
next
  case (Some w)
  then have "\<exists>x. rd d (length (pre @ [1])) = Inr (x, length (pre @ [1]) + length (enc_value w)) \<and> mk x = cell_of w"
    using assms by (intro rd_enc) simp_all
  then obtain x where x: "rd d (Suc off) = Inr (x, Suc off + length (enc_value w))" "mk x = cell_of w"
    using assms(3) by auto
  have "read_u8 d off = Inr (1, Suc off)" using Some assms(2,3) by (simp add: read_u8_def)
  then show ?thesis using Some x by (simp add: read_nullable_def preturn_def)
qed

lemma cells_enc:
  "list_all (pred_option ok) vs \<Longrightarrow> d = pre @ enc_column vs @ rest \<Longrightarrow> off = length pre \<Longrightarrow> length d < 2 ^ 63 \<Longrightarrow>
    prepeat (length vs) (read_nullable d (rd d) mk) off
      = Inr (map (map_option cell_of) vs, off + length (enc_column vs))"
proof (induction vs arbitrary: pre off)
  case Nil
  then show ?case by (simp add: preturn_def enc_column_def)
next
  case (Cons v vs)
  have hd: "read_nullable d (rd d) mk off = Inr (map_option cell_of v, off + length (enc_nullable v))"
    using Cons.prems by (intro nullable_enc [where rest = "enc_column vs @ rest"]) (simp_all add: enc_column_def)
  have tl: "prepeat (length vs) (read_nullable d (rd d) mk) (off + length (enc_nullable v))
      = Inr (map (map_option cell_of) vs, off + length (enc_nullable v) + length (enc_column vs))"
    using Cons.prems by (intro Cons.IH [where pre = "pre @ enc_nullable v"]) (simp_all add: enc_column_def)
  show ?case using hd tl by (simp add: preturn_def enc_column_def)
qed

text \<open>What a column builder returns on an encoded column.\<close>

lemma fill_column_enc:
  assumes "list_all (pred_option ok) vs" "d = pre @ enc_column vs @ rest" "off = length pre" "length d < 2 ^ 63"
    and "reserve E (length vs)"
  shows "fill_column E d name ty (length vs) (rd d) mk off =
    Inr ((\<lparr>field_name = name, field_type = ty, field_nullable = True\<rparr>, map (map_option cell_of) vs),
         off + length (enc_column vs))"
  using cells_enc [OF assms(1-4)] assms(5) by (simp add: fill_column_def alloc_def preturn_def)

end

subsection \<open>The readers meet their contract\<close>

interpretation double_column: wire_column read_f64 CFloat64 "\<lambda>v. \<exists>w. v = WDouble w"
  by unfold_locales (auto simp: read_f64_at)

interpretation real_column: wire_column read_f32 "\<lambda>v. CFloat64 (f32_to_f64 v)" "\<lambda>v. \<exists>w. v = WReal w"
  by unfold_locales (auto simp: read_f32_at)

interpretation boolean_column: wire_column read_u8 "\<lambda>v. CBoolean (v \<noteq> 0)" "\<lambda>v. \<exists>b. v = WBool b"
  by unfold_locales auto

interpretation int32_column: wire_column read_i32 "\<lambda>v. CDecimal (sint v)" "\<lambda>v. \<exists>w. v = WInt32 w"
  by unfold_locales (auto simp: read_i32_at)

interpretation int64_column: wire_column read_i64 "\<lambda>v. CDecimal (sint v)" "\<lambda>v. \<exists>w. v = WInt64 w"
  by unfold_locales (auto simp: read_i64_at)

interpretation int128_column: wire_column read_i128 "\<lambda>v. CDecimal (sint v)" "\<lambda>v. \<exists>w. v = WInt128 w"
  by unfold_locales (auto simp: read_i128_at)

lemma read_enc_bytes:
  assumes "length b < 2 ^ 31" "length pre + length (enc_bytes b) + length rest < 2 ^ 63"
  shows "read_length_prefixed_msg E (pre @ enc_bytes b @ rest) msg (length pre)
    = Inr (b, length pre + length (enc_bytes b))"
  using assms by (subst read_length_prefixed_msg_at [of b _ pre rest]) (simp_all add: enc_bytes_def)

interpretation binary_column: wire_column "\<lambda>d. read_length_prefixed_msg E d msg" CBinary
    "\<lambda>v. \<exists>b. v = WBytes b \<and> length b < 2 ^ 31" for E msg
  by unfold_locales (auto simp: read_enc_bytes)

interpretation string_column: wire_column "read_utf8 E" CUtf8 "\<lambda>v. \<exists>s. v = WText s \<and> text_ok s" for E
  by unfold_locales (auto simp: read_utf8_def text_ok_def pbind_def read_enc_bytes preturn_def)

interpretation interval_column: wire_column "\<lambda>d. read_interval E d name" CInterval
    "\<lambda>v. \<exists>s i. v = WInterval s i \<and> text_ok s \<and> parse_interval (overflow_checks E) s = Inr i" for E name
  by unfold_locales (auto simp: read_interval_def text_ok_def pbind_def read_enc_bytes)

subsection \<open>Dates and timestamps\<close>

lemma exasol_date_bounds:
  assumes "exasol_date (y, m, d)"
  shows "1 \<le> y \<and> y \<le> 9999" "1 \<le> m \<and> m \<le> 12" "1 \<le> d \<and> d \<le> 31"
    "-719162 \<le> days_from_civil (y, m, d) \<and> days_from_civil (y, m, d) \<le> 2932896"
  using assms exasol_year_iff [of y m d]
  by (auto simp: exasol_date_def exasol_year_def valid_date.simps days_in_month_def split: if_splits)

lemma packed_date_fields:
  assumes "0 \<le> y" "y \<le> 9999" "m \<le> 12" "d \<le> 31"
  defines "w \<equiv> of_int (y * 65536 + int m * 256 + int d) :: i32"
  shows "sint w div 65536 = y" "unat w div 256 mod 256 = m" "unat w mod 256 = d"
proof -
  have i: "0 \<le> y * 65536 + int m * 256 + int d" "y * 65536 + int m * 256 + int d < 2 ^ 31"
    using assms(1-4) by simp_all
  have "y * 65536 + int m * 256 + int d = int (nat y * 65536 + m * 256 + d)" using assms(1) by simp
  then have wn: "w = of_nat (nat y * 65536 + m * 256 + d)" unfolding w_def by (metis of_int_of_nat_eq)
  have n: "nat y * 65536 + m * 256 + d < 2 ^ 31" using assms(1-4) by simp
  have u: "unat w = nat y * 65536 + m * 256 + d" unfolding wn using n by (simp add: unat_of_nat del: of_nat_add of_nat_mult)
  have "sint w = int (nat y * 65536 + m * 256 + d)"
    unfolding wn using n by (simp add: signed_of_nat signed_take_bit_int_eq_self del: of_nat_add of_nat_mult)
  then have s: "sint w = (int m * 256 + int d) + y * 65536" using assms(1) by simp
  have "(int m * 256 + int d) div 65536 = 0" using assms(1-4) by simp
  then show "sint w div 65536 = y" unfolding s by simp
  have "unat w = d + (m + nat y * 256) * 256" unfolding u by simp
  then have uw: "unat w div 256 = m + nat y * 256 \<and> unat w mod 256 = d" using assms(4)
    by (simp only: mod_mult_self1 div_mult_self1) simp
  then show "unat w div 256 mod 256 = m" using assms(3) by simp
  from uw show "unat w mod 256 = d" ..
qed

interpretation date_column: wire_column "read_packed_date_days E" CDate
    "\<lambda>v. \<exists>t. v = WDate t \<and> exasol_date t" for E
proof unfold_locales
  fix v d pre rest
  assume "\<exists>t. v = WDate t \<and> exasol_date t" and d: "d = pre @ enc_value v @ rest"
  then obtain y m day where v: "v = WDate (y, m, day)" and t: "exasol_date (y, m, day)" by auto
  note b = exasol_date_bounds [OF t]
  note f = packed_date_fields [of y m day]
  have "read_i32 d (length pre) = Inr (of_int (y * 65536 + int m * 256 + int day), length pre + 4)"
    using d v by (intro read_i32_at [where rest = rest]) simp_all
  then show "\<exists>x. read_packed_date_days E d (length pre) = Inr (x, length pre + length (enc_value v))
      \<and> CDate x = cell_of v"
    using b f v by (simp add: read_packed_date_days_def ymd_to_days_eq)
qed

lemma ymd_hms_nanos_to_micros_eq:
  assumes "exasol_date (y, m, d)" "h \<le> 255" "mi \<le> 255" "s \<le> 255" "n < 2 ^ 31"
  shows "ymd_hms_nanos_to_micros ovf y m d h mi s (int n) = Inr (micros_of (y, m, d) h mi s n)"
proof -
  note b = exasol_date_bounds [OF assms(1)]
  have days: "ymd_to_days ovf y m d = Inr (days_from_civil (y, m, d))"
    using b by (intro ymd_to_days_eq) simp_all
  have w: "wrap_signed 64 (int k) = int k" if "k \<le> 255" for k
    using that by (intro wrap_signed_in) (simp_all add: in_signed_def)
  have t: "trunc_div (int n) 1000 = int (n div 1000)" by (cases "n = 0") (simp_all add: trunc_div_def zdiv_int)
  have n: "int (n div 1000) < 2 ^ 31" using assms(5) by simp
  show ?thesis
    unfolding ymd_hms_nanos_to_micros_def Let_def days t w [OF assms(2)] w [OF assms(3)] w [OF assms(4)] micros_of_def
    using b assms(2-4) n by (simp add: i_arith_in in_signed_def)
qed

interpretation timestamp_column: wire_column "read_timestamp_micros E" CTimestamp
    "\<lambda>v. \<exists>t h mi s n. v = WTimestamp t h mi s n \<and> exasol_date t \<and> h \<le> 255 \<and> mi \<le> 255 \<and> s \<le> 255 \<and> n < 2 ^ 31" for E
proof unfold_locales
  fix v d pre rest
  assume "\<exists>t h mi s n. v = WTimestamp t h mi s n \<and> exasol_date t \<and> h \<le> 255 \<and> mi \<le> 255 \<and> s \<le> 255 \<and> n < 2 ^ 31"
    and d: "d = pre @ enc_value v @ rest"
  then obtain y m day h mi s n where v: "v = WTimestamp (y, m, day) h mi s n"
    and t: "exasol_date (y, m, day)" and r: "h \<le> 255" "mi \<le> 255" "s \<le> 255" "n < 2 ^ 31" by auto
  note b = exasol_date_bounds [OF t]
  define k0 where "k0 = length pre"
  have e: "d = pre @ u16_to_le (of_int y) @ [of_nat m, of_nat day, of_nat h, of_nat mi, of_nat s] @ u32_to_le (of_nat n) @ rest"
    using d v by simp
  have i: "read_i16 d k0 = Inr (of_int y, k0 + 2)" using e by (intro read_i16_at) (simp_all add: k0_def)
  have u: "read_u8 d (k0 + 2) = Inr (of_nat m, k0 + 3)" "read_u8 d (k0 + 3) = Inr (of_nat day, k0 + 4)"
    "read_u8 d (k0 + 4) = Inr (of_nat h, k0 + 5)" "read_u8 d (k0 + 5) = Inr (of_nat mi, k0 + 6)"
    "read_u8 d (k0 + 6) = Inr (of_nat s, k0 + 7)"
    using e by (simp_all add: read_u8_def nth_append k0_def)
  have n: "read_i32 d (k0 + 7) = Inr (of_nat n, k0 + 11)"
    using e by (subst read_i32_at [where w = "of_nat n" and rest = rest
        and pre = "pre @ u16_to_le (of_int y) @ [of_nat m, of_nat day, of_nat h, of_nat mi, of_nat s]"]) (simp_all add: k0_def)
  have sy: "sint (of_int y :: i16) = y" using b(1) by (simp add: signed_of_int signed_take_bit_int_eq_self)
  have sn: "sint (of_nat n :: i32) = int n" using r(4) by (simp add: signed_of_nat signed_take_bit_int_eq_self)
  have ub: "unat (of_nat k :: byte) = k" if "k \<le> 255" for k using that by (simp add: unat_of_nat)
  have un: "unat (of_nat m :: byte) = m" "unat (of_nat day :: byte) = day" using b by (simp_all add: ub)
  show "\<exists>x. read_timestamp_micros E d (length pre) = Inr (x, length pre + length (enc_value v)) \<and> CTimestamp x = cell_of v"
    unfolding k0_def [symmetric]
    using r ymd_hms_nanos_to_micros_eq [OF t r(1-4)] v
    by (simp add: read_timestamp_micros_def pbind_def i u n sy sn un ub del: add_2_eq_Suc')
qed

subsection \<open>Columns and batches\<close>

text \<open>The values a column of each wire type carries, and the Arrow type it decodes to.\<close>

definition value_ok :: "native_env \<Rightarrow> NativeColumnMeta \<Rightarrow> wire_value \<Rightarrow> bool" where
  "value_ok E meta v =
    (let tid = type_id meta in
     if tid = T_DOUBLE then (\<exists>w. v = WDouble w)
     else if tid = T_REAL then (\<exists>w. v = WReal w)
     else if tid = T_INTEGER then (\<exists>w. v = WInt64 w)
     else if tid = T_SMALLINT \<or> tid = T_SMALLDECIMAL then (\<exists>w. v = WInt32 w)
     else if tid = T_BOOLEAN then (\<exists>b. v = WBool b)
     else if tid = T_BINARY \<or> tid = T_GEOMETRY \<or> tid = T_HASHTYPE then (\<exists>b. v = WBytes b \<and> length b < 2 ^ 31)
     else if tid = T_INTERVAL_YEAR \<or> tid = T_INTERVAL_DAY then
       (\<exists>s i. v = WInterval s i \<and> text_ok s \<and> parse_interval (overflow_checks E) s = Inr i)
     else if tid = T_DECIMAL then
       (if (case cm_precision meta of Some p \<Rightarrow> sint p | None \<Rightarrow> 18) \<le> 9
        then (\<exists>w. v = WInt32 w) else (\<exists>w. v = WInt64 w))
     else if tid = T_BIGDECIMAL then (\<exists>w. v = WInt128 w)
     else if tid = T_DATE then (\<exists>t. v = WDate t \<and> exasol_date t)
     else if tid = T_TIMESTAMP \<or> tid = T_TIMESTAMP_LOCAL_TZ \<or> tid = T_TIMESTAMP_UTC then
       (\<exists>t h mi s n. v = WTimestamp t h mi s n \<and> exasol_date t \<and> h \<le> 255 \<and> mi \<le> 255 \<and> s \<le> 255 \<and> n < 2 ^ 31)
     else (\<exists>s. v = WText s \<and> text_ok s))"

definition wire_arrow_type :: "NativeColumnMeta \<Rightarrow> ArrowDataType" where
  "wire_arrow_type meta =
    (let tid = type_id meta in
     if tid = T_DOUBLE \<or> tid = T_REAL then Float64
     else if tid = T_INTEGER then Decimal128 18 0
     else if tid = T_SMALLINT then Decimal128 9 0
     else if tid = T_BOOLEAN then BooleanT
     else if tid = T_BINARY \<or> tid = T_GEOMETRY \<or> tid = T_HASHTYPE then Binary
     else if tid = T_INTERVAL_YEAR \<or> tid = T_INTERVAL_DAY then IntervalMonthDayNanoT
     else if tid = T_SMALLDECIMAL then decimal_data_type meta 9
     else if tid = T_DECIMAL then decimal_data_type meta 18
     else if tid = T_BIGDECIMAL then decimal_data_type meta 36
     else if tid = T_DATE then Date32
     else if tid = T_TIMESTAMP then Timestamp Microsecond None
     else if tid = T_TIMESTAMP_LOCAL_TZ \<or> tid = T_TIMESTAMP_UTC then Timestamp Microsecond (Some ''UTC'')
     else Utf8)"

definition built_column :: "NativeColumnMeta \<Rightarrow> wire_value option list \<Rightarrow> BuiltColumn" where
  "built_column meta vs =
    (\<lparr>field_name = cm_name meta, field_type = wire_arrow_type meta, field_nullable = True\<rparr>,
     map (map_option cell_of) vs)"

text \<open>A build environment that has memory for every request.\<close>

definition ample :: "native_env \<Rightarrow> bool" where
  "ample E \<longleftrightarrow> (\<forall>n. reserve E n)"

definition column_fits :: "native_env \<Rightarrow> nat \<Rightarrow> NativeColumnMeta \<times> wire_value option list \<Rightarrow> bool" where
  "column_fits E n c \<longleftrightarrow> length (snd c) = n \<and> list_all (pred_option (value_ok E (fst c))) (snd c)"

lemma length_enc_column: "length vs \<le> length (enc_column vs)"
proof (induction vs)
  case (Cons v vs)
  then show ?case by (cases v) (simp_all add: enc_column_def)
qed simp

text \<open>Case analysis on the wire type of a column.\<close>

lemma wire_type_cases:
  obtains "type_id meta = T_DOUBLE" | "type_id meta = T_REAL" | "type_id meta = T_INTEGER"
    | "type_id meta = T_SMALLINT" | "type_id meta = T_SMALLDECIMAL" | "type_id meta = T_BOOLEAN"
    | "type_id meta = T_BINARY" | "type_id meta = T_GEOMETRY" | "type_id meta = T_HASHTYPE"
    | "type_id meta = T_INTERVAL_YEAR" | "type_id meta = T_INTERVAL_DAY" | "type_id meta = T_DECIMAL"
    | "type_id meta = T_BIGDECIMAL" | "type_id meta = T_DATE" | "type_id meta = T_TIMESTAMP"
    | "type_id meta = T_TIMESTAMP_LOCAL_TZ" | "type_id meta = T_TIMESTAMP_UTC"
    | "type_id meta \<notin> {T_DOUBLE, T_REAL, T_INTEGER, T_SMALLINT, T_SMALLDECIMAL, T_BOOLEAN, T_BINARY,
        T_GEOMETRY, T_HASHTYPE, T_INTERVAL_YEAR, T_INTERVAL_DAY, T_DECIMAL, T_BIGDECIMAL, T_DATE, T_TIMESTAMP,
        T_TIMESTAMP_LOCAL_TZ, T_TIMESTAMP_UTC}"
  by blast

lemmas column_encs = double_column.fill_column_enc real_column.fill_column_enc boolean_column.fill_column_enc
  int32_column.fill_column_enc int64_column.fill_column_enc int128_column.fill_column_enc
  binary_column.fill_column_enc string_column.fill_column_enc interval_column.fill_column_enc
  date_column.fill_column_enc timestamp_column.fill_column_enc

lemma fill_column_builder_enc:
  assumes fits: "list_all (pred_option (value_ok E meta)) vs" and "ample E"
    and d: "d = pre @ enc_column vs @ rest" "length d < 2 ^ 59" and off: "off = length pre"
  shows "fill_column_builder E d meta (length vs) off = Inr (built_column meta vs, off + length (enc_column vs))"
proof -
  have m: "reserve E n" for n using assms(2) by (simp add: ample_def)
  have l: "length d < 2 ^ 63" using d(2) by simp
  have cap: "data_capacity E (length vs) = Inr (length vs * 16)"
    using length_enc_column [of vs] d by (simp add: data_capacity_def)
  note encs = column_encs [OF _ d(1) off l m]
  have dt: "decimal_data_type (whole_number_meta meta 18) 18 = Decimal128 18 0"
    "decimal_data_type (whole_number_meta meta 9) 9 = Decimal128 9 0"
    "(case cm_precision (whole_number_meta meta 18) of None \<Rightarrow> 18 | Some p \<Rightarrow> sint p) = 18"
    by (simp_all add: decimal_data_type_def decimal_precision_scale_def whole_number_meta_def)
  have nm: "cm_name (whole_number_meta meta p) = cm_name meta" for p by (simp add: whole_number_meta_def)
  note def = fill_column_builder_def built_column_def wire_arrow_type_def value_ok_def [abs_def] const_defs encs dt nm m cap
    alloc_def Let_def
  show ?thesis
  proof (cases meta rule: wire_type_cases)
    case 1 then show ?thesis using fits by (simp add: def fill_double_column_def)
  next
    case 2 then show ?thesis using fits by (simp add: def fill_real_column_def)
  next
    case 3 then show ?thesis using fits by (simp add: def fill_decimal_column_def)
  next
    case 4 then show ?thesis using fits by (simp add: def fill_smalldecimal_column_def)
  next
    case 5 then show ?thesis using fits by (simp add: def fill_smalldecimal_column_def)
  next
    case 6 then show ?thesis using fits by (simp add: def fill_boolean_column_def)
  next
    case 7 then show ?thesis using fits by (simp add: def fill_binary_column_def)
  next
    case 8 then show ?thesis using fits by (simp add: def fill_binary_column_def)
  next
    case 9 then show ?thesis using fits by (simp add: def fill_binary_column_def)
  next
    case 10 then show ?thesis using fits by (simp add: def fill_interval_column_def)
  next
    case 11 then show ?thesis using fits by (simp add: def fill_interval_column_def)
  next
    case 12 then show ?thesis using fits
      by (cases "(case cm_precision meta of None \<Rightarrow> 18 | Some p \<Rightarrow> sint p) \<le> 9") (simp_all add: def fill_decimal_column_def)
  next
    case 13 then show ?thesis using fits by (simp add: def fill_bigdecimal_column_def)
  next
    case 14 then show ?thesis using fits by (simp add: def fill_date_column_def)
  next
    case 15 then show ?thesis using fits by (simp add: def fill_timestamp_column_def)
  next
    case 16 then show ?thesis using fits by (simp add: def fill_timestamp_column_def)
  next
    case 17 then show ?thesis using fits by (simp add: def fill_timestamp_column_def)
  next
    case 18 then show ?thesis using fits
      by (simp add: fill_column_builder_def built_column_def wire_arrow_type_def value_ok_def [abs_def]
          fill_string_builder_def encs cap m alloc_def)
  qed
qed

text \<open>A result set's row data: the encoded columns one after the other.\<close>

definition enc_columns :: "(NativeColumnMeta \<times> wire_value option list) list \<Rightarrow> byte list" where
  "enc_columns cs = concat (map (enc_column \<circ> snd) cs)"

lemma enc_columns_simps [simp]:
  "enc_columns [] = []" "enc_columns (c # cs) = enc_column (snd c) @ enc_columns cs"
  by (simp_all add: enc_columns_def)

lemma fill_columns_enc:
  "list_all (column_fits E n) cs \<Longrightarrow> ample E \<Longrightarrow> d = pre @ enc_columns cs @ rest \<Longrightarrow> length d < 2 ^ 59 \<Longrightarrow>
    off = length pre \<Longrightarrow>
    fill_columns E d (map fst cs) n off
      = Inr (map (\<lambda>(m, vs). built_column m vs) cs, off + length (enc_columns cs))"
proof (induction cs arbitrary: pre off)
  case Nil
  then show ?case by (simp add: preturn_def)
next
  case (Cons c cs)
  obtain m vs where c: "c = (m, vs)" by (cases c)
  have hd: "fill_column_builder E d m n off = Inr (built_column m vs, off + length (enc_column vs))"
    using Cons.prems c fill_column_builder_enc [of E m vs d pre "enc_columns cs @ rest" off]
    by (simp add: column_fits_def)
  have tl: "fill_columns E d (map fst cs) n (off + length (enc_column vs))
      = Inr (map (\<lambda>(m, vs). built_column m vs) cs, off + length (enc_column vs) + length (enc_columns cs))"
    using Cons.prems c by (intro Cons.IH [where pre = "pre @ enc_column vs"]) simp_all
  show ?case using hd tl c by (simp add: preturn_def)
qed

text \<open>The cells of a column have the type its field declares.\<close>

lemma decimal_cell_type: "cell_has_type (decimal_data_type m p) (CDecimal x)"
  by (simp add: decimal_data_type_def case_prod_unfold Let_def)

lemma cell_of_has_type:
  assumes "value_ok E m v"
  shows "cell_has_type (wire_arrow_type m) (cell_of v)"
proof (cases m rule: wire_type_cases)
  case 18
  then show ?thesis using assms by (auto simp: value_ok_def wire_arrow_type_def Let_def)
qed (use assms in \<open>auto simp: value_ok_def wire_arrow_type_def Let_def const_defs decimal_cell_type [unfolded cell_has_type.simps]
    split: if_splits\<close>)

lemma built_column_ok: "column_fits E n (m, vs) \<Longrightarrow> column_ok n (built_column m vs)"
  by (fastforce simp: column_fits_def column_ok_def built_column_def list_all_iff pred_option_def
      map_option_case split: option.splits intro: cell_of_has_type)

definition batch_of :: "nat \<Rightarrow> (NativeColumnMeta \<times> wire_value option list) list \<Rightarrow> RecordBatch" where
  "batch_of n cs = (let bs = map (\<lambda>(m, vs). built_column m vs) cs in
    \<lparr>rb_fields = map fst bs, rb_columns = map snd bs, rb_num_rows = n\<rparr>)"

lemma build_batch_from_wire_enc:
  assumes "cs \<noteq> []" "list_all (column_fits E n) cs" "ample E" "arrow_documented E"
    and "d = pre @ enc_columns cs @ rest" "length d < 2 ^ 59" "off = length pre"
  shows "build_batch_from_wire E d (map fst cs) n off = Inr (batch_of n cs, off + length (enc_columns cs))"
proof -
  let ?bs = "map (\<lambda>(m, vs). built_column m vs) cs"
  have "list_all (column_ok n) ?bs" using assms(2) by (auto simp: list_all_iff intro: built_column_ok)
  then have "rb_try_new E (map fst ?bs) (map snd ?bs) = Inr (batch_of n cs)"
    using assms(1,4) unfolding arrow_documented_def batch_of_def Let_def by blast
  then show ?thesis
    using fill_columns_enc [OF assms(2,3,5-7)] assms(1)
    by (simp add: build_batch_from_wire_def lift_arrow_def)
qed

lemma parse_fetch_enc:
  assumes "cs \<noteq> []" "list_all (column_fits E n) cs" "ample E" "arrow_documented E"
    and "n < 2 ^ 59" "length (enc_columns cs) + length rest < 2 ^ 58"
  shows "parse_fetch_to_record_batch E (u64_to_le (of_nat n) @ enc_columns cs @ rest) (map fst cs)
    = Inr (of_nat n, batch_of n cs)"
proof -
  let ?d = "u64_to_le (of_nat n) @ enc_columns cs @ rest"
  have s: "sint (of_nat n :: i64) = int n"
    using assms(5) by (simp add: signed_of_nat signed_take_bit_int_eq_self)
  have r: "read_i64 ?d 0 = Inr (of_nat n, 8)" using read_i64_at [of ?d "[]"] by simp
  have "build_batch_from_wire E ?d (map fst cs) n 8 = Inr (batch_of n cs, 8 + length (enc_columns cs))"
    using assms by (intro build_batch_from_wire_enc [where pre = "u64_to_le (of_nat n)" and rest = rest]) simp_all
  then show ?thesis using r s by (simp add: parse_fetch_to_record_batch_def)
qed

end
