(* ===== verification/Envelope_Laws.thy ===== *)
theory Envelope_Laws
  imports Parser_Laws Column_Laws
begin

text \<open>
  The wire format of whole responses: an encoder for column descriptions, messages, result
  sets and the parts of a counted envelope. The parser returns the warnings of an envelope
  in order and its one terminal result with all rows decoded, and refuses an envelope with
  two terminal results.
\<close>

definition small_buffer :: "byte list \<Rightarrow> bool" where
  "small_buffer d \<longleftrightarrow> length d < 2 ^ 59"

subsection \<open>Column descriptions\<close>

definition enc_char_meta :: "NativeColumnMeta \<Rightarrow> byte list" where
  "enc_char_meta m = (if is_varchar m then IS_VARCHAR else 0)
    # u32_to_le (the (max_len m)) @ u32_to_le 0"

definition enc_type_meta :: "NativeColumnMeta \<Rightarrow> byte list" where
  "enc_type_meta m =
    (let tid = type_id m in
     if tid = T_DECIMAL \<or> tid = T_SMALLDECIMAL \<or> tid = T_BIGDECIMAL then
       u32_to_le (the (cm_precision m)) @ u32_to_le (the (cm_scale m))
     else if tid = T_CHAR \<or> tid = T_GEOMETRY \<or> tid = T_HASHTYPE then enc_char_meta m
     else if tid = T_INTERVAL_YEAR then enc_char_meta m @ u32_to_le 0
     else if tid = T_INTERVAL_DAY then enc_char_meta m @ u32_to_le 0 @ u32_to_le (the (interval_fraction m))
     else if tid = T_TIMESTAMP \<or> tid = T_TIMESTAMP_LOCAL_TZ \<or> tid = T_TIMESTAMP_UTC then u32_to_le 0
     else [])"

definition enc_meta :: "NativeColumnMeta \<Rightarrow> byte list" where
  "enc_meta m = enc_bytes (as_bytes (cm_name m)) @ u32_to_le (type_id m) @ enc_type_meta m"

text \<open>A description has exactly the attributes its wire type carries.\<close>

definition meta_ok :: "NativeColumnMeta \<Rightarrow> bool" where
  "meta_ok m \<longleftrightarrow> text_ok (cm_name m) \<and>
    (if type_id m \<in> {T_DECIMAL, T_SMALLDECIMAL, T_BIGDECIMAL} then
       cm_precision m \<noteq> None \<and> cm_scale m \<noteq> None \<and> max_len m = None \<and> interval_fraction m = None \<and> \<not> is_varchar m
     else if type_id m \<in> {T_CHAR, T_GEOMETRY, T_HASHTYPE, T_INTERVAL_YEAR, T_INTERVAL_DAY} then
       cm_precision m = None \<and> cm_scale m = None \<and> max_len m \<noteq> None
       \<and> (interval_fraction m \<noteq> None \<longleftrightarrow> type_id m = T_INTERVAL_DAY)
     else cm_precision m = None \<and> cm_scale m = None \<and> max_len m = None \<and> interval_fraction m = None \<and> \<not> is_varchar m)"

lemma read_char_meta_at:
  assumes "max_len m = Some l" "d = pre @ enc_char_meta m @ rest" "off = length pre"
  shows "read_char_meta d msg off = Inr ((is_varchar m, l), off + 9)"
proof -
  let ?f = "if is_varchar m then IS_VARCHAR else 0"
  have d: "d = pre @ ?f # u32_to_le l @ u32_to_le 0 @ rest" using assms(1,2) by (simp add: enc_char_meta_def)
  have "read_i32 d (off + 1) = Inr (l, off + 5)" "read_i32 d (off + 5) = Inr (0, off + 9)"
    using d assms(3) read_i32_at [of d "pre @ [?f]" l] read_i32_at [of d "pre @ ?f # u32_to_le l" 0] by simp_all
  moreover have "d ! off = ?f" "off < length d" using d assms(3) by (simp_all add: nth_append)
  ultimately show ?thesis
    by (simp add: read_char_meta_def pbind_def preturn_def const_defs)
qed

lemma read_name_at:
  assumes "text_ok s" "d = pre @ enc_bytes (as_bytes s) @ rest" "small_buffer d" "off = length pre"
  shows "read_name E d off = Inr (s, off + length (enc_bytes (as_bytes s)))"
proof -
  have "read_i32 d off = Inr (of_nat (length s), off + 4)"
    using assms(2,4) by (intro read_i32_at [where rest = "as_bytes s @ rest"]) (simp_all add: enc_bytes_def)
  then show ?thesis using assms
    by (simp add: read_name_def text_ok_def i32_as_usize_of_nat usize_add_def slice_def small_buffer_def
        enc_bytes_def)
qed

interpretation meta_codec: codec enc_meta "parse_column_meta E" meta_ok small_buffer for E
proof unfold_locales
  fix m pre rest assume ok: "meta_ok m" and small: "small_buffer (pre @ enc_meta m @ rest)"
  define d where "d = pre @ enc_meta m @ rest"
  define p1 where "p1 = pre @ enc_bytes (as_bytes (cm_name m))"
  define p2 where "p2 = p1 @ u32_to_le (type_id m)"
  have d2: "d = p2 @ enc_type_meta m @ rest" by (simp add: d_def enc_meta_def p1_def p2_def)
  have name: "read_name E d (length pre) = Inr (cm_name m, length p1)"
    using ok small by (subst read_name_at [where rest = "u32_to_le (type_id m) @ enc_type_meta m @ rest"])
      (simp_all add: d_def enc_meta_def meta_ok_def p1_def)
  have tid: "read_i32 d (length p1) = Inr (type_id m, length p2)"
    using d2 by (subst read_i32_at [where rest = "enc_type_meta m @ rest"]) (simp_all add: p2_def)
  have i32: "read_i32 d (length p2 + k) = Inr (w, length p2 + k + 4)"
    if "enc_type_meta m = a @ u32_to_le w @ b" "length a = k" for a b k w
    using that d2 by (intro read_i32_at [where pre = "p2 @ a"]) simp_all
  have chars: "read_char_meta d msg (length p2) = Inr ((is_varchar m, l), length p2 + 9)"
    if "enc_type_meta m = enc_char_meta m @ b" "max_len m = Some l" for b l msg
    using that d2 by (intro read_char_meta_at) simp_all
  have whole: "m = \<lparr>cm_name = cm_name m, type_id = type_id m, cm_precision = cm_precision m,
      cm_scale = cm_scale m, is_varchar = is_varchar m, max_len = max_len m, interval_fraction = interval_fraction m\<rparr>"
    by simp
  note shape = ok [unfolded meta_ok_def]
  have len: "length pre + length (enc_meta m) = length p2 + length (enc_type_meta m)"
    by (simp add: enc_meta_def p1_def p2_def)
  consider (dec) "type_id m \<in> {T_DECIMAL, T_SMALLDECIMAL, T_BIGDECIMAL}"
    | (chr) "type_id m \<in> {T_CHAR, T_GEOMETRY, T_HASHTYPE}" | (iy) "type_id m = T_INTERVAL_YEAR"
    | (iday) "type_id m = T_INTERVAL_DAY" | (ts) "type_id m \<in> {T_TIMESTAMP, T_TIMESTAMP_LOCAL_TZ, T_TIMESTAMP_UTC}"
    | (other) "type_id m \<notin> {T_DECIMAL, T_SMALLDECIMAL, T_BIGDECIMAL, T_CHAR, T_GEOMETRY, T_HASHTYPE, T_INTERVAL_YEAR,
        T_INTERVAL_DAY, T_TIMESTAMP, T_TIMESTAMP_LOCAL_TZ, T_TIMESTAMP_UTC}" by blast
  then have "parse_column_meta E d (length pre) = Inr (m, length p2 + length (enc_type_meta m))"
  proof cases
    case dec
    then obtain p q where pq: "cm_precision m = Some p" "cm_scale m = Some q" "max_len m = None"
      "interval_fraction m = None" "\<not> is_varchar m" using shape by (auto simp: const_defs)
    have e: "enc_type_meta m = u32_to_le p @ u32_to_le q" using dec pq by (auto simp: enc_type_meta_def)
    show ?thesis
      using dec i32 [of "[]" p "u32_to_le q" 0] i32 [of "u32_to_le p" q "[]" 4] e pq
      by (subst (1) whole) (auto simp: parse_column_meta_def pbind_def name tid preturn_def const_defs)
  next
    case chr
    then obtain l where l: "cm_precision m = None" "cm_scale m = None" "max_len m = Some l"
      "interval_fraction m = None" using shape by (auto simp: const_defs)
    have e: "enc_type_meta m = enc_char_meta m @ []" using chr by (auto simp: enc_type_meta_def const_defs)
    show ?thesis
      using chr chars [OF e l(3)] e l
      by (subst (1) whole) (auto simp: parse_column_meta_def pbind_def name tid preturn_def const_defs enc_char_meta_def)
  next
    case iy
    then obtain l where l: "cm_precision m = None" "cm_scale m = None" "max_len m = Some l"
      "interval_fraction m = None" using shape by (auto simp: const_defs)
    have e: "enc_type_meta m = enc_char_meta m @ u32_to_le 0" using iy by (simp add: enc_type_meta_def const_defs)
    show ?thesis
      using iy chars [OF e l(3)] i32 [of "enc_char_meta m" 0 "[]" 9] e l
      by (subst (1) whole) (simp add: parse_column_meta_def pbind_def name tid preturn_def const_defs enc_char_meta_def)
  next
    case iday
    then obtain l f where l: "cm_precision m = None" "cm_scale m = None" "max_len m = Some l"
      "interval_fraction m = Some f" using shape by (auto simp: const_defs)
    have e: "enc_type_meta m = enc_char_meta m @ u32_to_le 0 @ u32_to_le f"
      using iday l by (simp add: enc_type_meta_def const_defs)
    show ?thesis
      using iday chars [OF e l(3)] i32 [of "enc_char_meta m" 0 "u32_to_le f" 9]
        i32 [of "enc_char_meta m @ u32_to_le 0" f "[]" 13] e l
      by (subst (1) whole) (simp add: add.commute [of "length p2" 13] add.commute [of "length p2" 17] parse_column_meta_def pbind_def name tid preturn_def const_defs enc_char_meta_def)
  next
    case ts
    then have l: "cm_precision m = None" "cm_scale m = None" "max_len m = None" "interval_fraction m = None"
      "\<not> is_varchar m" using shape by (auto simp: const_defs)
    have e: "enc_type_meta m = u32_to_le 0" using ts by (auto simp: enc_type_meta_def const_defs)
    show ?thesis
      using ts i32 [of "[]" 0 "[]" 0] e l
      by (subst (1) whole) (auto simp: parse_column_meta_def pbind_def name tid preturn_def const_defs)
  next
    case other
    then have l: "cm_precision m = None" "cm_scale m = None" "max_len m = None" "interval_fraction m = None"
      "\<not> is_varchar m" using shape by auto
    have e: "enc_type_meta m = []" using other by (simp add: enc_type_meta_def)
    show ?thesis
      using other e l
      by (subst (1) whole) (simp add: parse_column_meta_def pbind_def name tid preturn_def)
  qed
  then show "parse_column_meta E (pre @ enc_meta m @ rest) (length pre) = Inr (m, length pre + length (enc_meta m))"
    unfolding d_def [symmetric] len .
qed

subsection \<open>Messages and result sets\<close>

definition enc_message :: "NativeWarning \<Rightarrow> byte list" where
  "enc_message w = enc_bytes (as_bytes (w_message w)) @ as_bytes (w_sql_state w)"

definition message_ok :: "NativeWarning \<Rightarrow> bool" where
  "message_ok w \<longleftrightarrow> text_ok (w_message w) \<and> length (w_sql_state w) = 5 \<and> utf8_valid (as_bytes (w_sql_state w))"

interpretation message_codec: codec enc_message "parse_message_part E" message_ok small_buffer for E
proof unfold_locales
  fix w pre rest assume ok: "message_ok w" and small: "small_buffer (pre @ enc_message w @ rest)"
  define d where "d = pre @ enc_message w @ rest"
  define m where "m = as_bytes (w_message w)"
  have d: "d = pre @ u32_to_le (of_nat (length m)) @ m @ as_bytes (w_sql_state w) @ rest"
    by (simp add: d_def m_def enc_message_def enc_bytes_def)
  define stop where "stop = length pre + 4 + length m"
  have m: "length m < 2 ^ 31" "utf8_valid m" "text_of m = w_message w" "length (w_sql_state w) = 5"
    "utf8_valid (as_bytes (w_sql_state w))"
    using ok by (simp_all add: message_ok_def text_ok_def m_def)
  have r: "read_i32 d (length pre) = Inr (of_nat (length m), length pre + 4)"
    using d by (rule read_i32_at) simp
  have u: "usize_add ovf (length pre + 4) (length m) = Inr stop" for ovf
    using small unfolding d_def [symmetric] by (simp add: usize_add_def small_buffer_def stop_def d)
  have sl: "slice d (length pre + 4) stop = Inr m" by (simp add: slice_def d stop_def)
  have st: "take 5 (drop stop d) = as_bytes (w_sql_state w)" using m(4) by (simp add: d stop_def)
  have ld: "length d = stop + 5 + length rest" using m(4) by (simp add: d stop_def)
  have "length pre + length (enc_message w) = stop + 5" using m(4) by (simp add: stop_def m_def enc_message_def enc_bytes_def)
  then show "parse_message_part E (pre @ enc_message w @ rest) (length pre) = Inr (w, length pre + length (enc_message w))"
    unfolding d_def [symmetric] parse_message_part_def
    using m by (simp add: r u sl st ld i32_as_usize_of_nat Let_def)
qed

text \<open>A result set with \<open>n\<close> rows: descriptions, then the columns.\<close>

record result_set =
  rs_handle :: i32
  rs_total :: i64
  rs_rows :: nat
  rs_columns :: "(NativeColumnMeta \<times> wire_value option list) list"

definition enc_result_set :: "result_set \<Rightarrow> byte list" where
  "enc_result_set r = u32_to_le (rs_handle r) @ u32_to_le (of_nat (length (rs_columns r)))
    @ u64_to_le (rs_total r) @ u64_to_le (of_nat (rs_rows r))
    @ concat (map enc_meta (map fst (rs_columns r))) @ enc_columns (rs_columns r)"

definition result_set_ok :: "native_env \<Rightarrow> result_set \<Rightarrow> bool" where
  "result_set_ok E r \<longleftrightarrow> rs_columns r \<noteq> [] \<and> length (rs_columns r) < 2 ^ 31 \<and> rs_rows r < 2 ^ 59
    \<and> list_all meta_ok (map fst (rs_columns r)) \<and> list_all (column_fits E (rs_rows r)) (rs_columns r)"

definition result_set_response :: "result_set \<Rightarrow> NativeResponse" where
  "result_set_response r = ResultSet (rs_handle r) (map fst (rs_columns r))
    (Some (batch_of (rs_rows r) (rs_columns r))) (rs_total r) (of_nat (rs_rows r))"

text \<open>The environment the decoder needs: memory and \<open>RecordBatch::try_new\<close> as documented.\<close>

definition sound_env :: "native_env \<Rightarrow> bool" where
  "sound_env E \<longleftrightarrow> ample E \<and> arrow_documented E"

lemma parse_result_set_enc:
  assumes ok: "result_set_ok E r" and E: "sound_env E"
    and d: "d = pre @ enc_result_set r @ rest" "small_buffer d" and off: "off = length pre"
  shows "parse_result_set_at E d off = Inr (result_set_response r, off + length (enc_result_set r))"
proof -
  let ?cs = "rs_columns r" and ?ms = "map fst (rs_columns r)"
  define p where "p = pre @ u32_to_le (rs_handle r) @ u32_to_le (of_nat (length ?cs))
    @ u64_to_le (rs_total r) @ u64_to_le (of_nat (rs_rows r))"
  define q where "q = p @ concat (map enc_meta ?ms)"
  have dq: "d = p @ concat (map enc_meta ?ms) @ enc_columns ?cs @ rest" "d = q @ enc_columns ?cs @ rest"
    by (simp_all add: d p_def q_def enc_result_set_def)
  have b: "?cs \<noteq> []" "length ?cs < 2 ^ 31" "rs_rows r < 2 ^ 59" "list_all meta_ok ?ms"
    "list_all (column_fits E (rs_rows r)) ?cs" using ok by (simp_all add: result_set_ok_def)
  have head: "read_i32 d off = Inr (rs_handle r, off + 4)"
    "read_i32 d (off + 4) = Inr (of_nat (length ?cs), off + 8)"
    "read_i64 d (off + 8) = Inr (rs_total r, off + 16)"
    "read_i64 d (off + 16) = Inr (of_nat (rs_rows r), length p)"
    using off
      read_i32_at [of d pre "rs_handle r"]
      read_i32_at [of d "pre @ u32_to_le (rs_handle r)" "of_nat (length ?cs)"]
      read_i64_at [of d "pre @ u32_to_le (rs_handle r) @ u32_to_le (of_nat (length ?cs))" "rs_total r"]
      read_i64_at [of d "pre @ u32_to_le (rs_handle r) @ u32_to_le (of_nat (length ?cs)) @ u64_to_le (rs_total r)"
        "of_nat (rs_rows r)"]
    by (simp_all add: d p_def enc_result_set_def)
  have nc: "i32_as_usize (of_nat (length ?cs)) = length ?ms" using b(2) by (simp add: i32_as_usize_of_nat)
  have rows: "sint (of_nat (rs_rows r) :: i64) = int (rs_rows r)"
    using b(3) by (simp add: signed_of_nat signed_take_bit_int_eq_self)
  have vec: "vec_with_capacity E (length ?ms) = Inr ()"
    using b(2) E by (simp add: vec_with_capacity_def alloc_def sound_env_def ample_def)
  have metas: "prepeat (length ?ms) (parse_column_meta E d) (length p) = Inr (?ms, length q)"
    using meta_codec.prepeat_enc [OF b(4) dq(1) d(2) refl] by (simp add: q_def)
  have data: "build_batch_from_wire E d ?ms (rs_rows r) (length q)
      = Inr (batch_of (rs_rows r) ?cs, length q + length (enc_columns ?cs))"
    using b E d(2) dq(2) by (intro build_batch_from_wire_enc) (simp_all add: sound_env_def small_buffer_def)
  have len: "length q + length (enc_columns ?cs) = off + length (enc_result_set r)"
    using off by (simp add: q_def p_def enc_result_set_def)
  show ?thesis
    unfolding parse_result_set_at_def result_set_response_def
    using b(1) by (simp add: pbind_def head nc rows Let_def vec [simplified] metas [simplified] data preturn_def len)
qed

subsection \<open>The parts of a counted envelope\<close>

datatype part =
    PWarning NativeWarning
  | PColumnCount i32
  | PResultSet result_set
  | PRowCount i64
  | PException NativeWarning
  | PEmpty
  | PStillExecuting

fun enc_part :: "part \<Rightarrow> byte list" where
  "enc_part (PWarning w) = R_WARNING # enc_message w"
| "enc_part (PColumnCount n) = R_COLUMN_COUNT # u32_to_le n"
| "enc_part (PResultSet r) = R_RESULT_SET # enc_result_set r"
| "enc_part (PRowCount n) = R_ROW_COUNT # u64_to_le n"
| "enc_part (PException w) = R_EXCEPTION # enc_message w"
| "enc_part PEmpty = [R_EMPTY]"
| "enc_part PStillExecuting = [R_STILL_EXECUTING]"

fun part_ok :: "native_env \<Rightarrow> part \<Rightarrow> bool" where
  "part_ok E (PWarning w) = message_ok w"
| "part_ok E (PResultSet r) = result_set_ok E r"
| "part_ok E (PException w) = message_ok w"
| "part_ok E _ = True"

fun part_warnings :: "part \<Rightarrow> NativeWarning list" where
  "part_warnings (PWarning w) = [w]"
| "part_warnings _ = []"

fun part_terminals :: "part \<Rightarrow> NativeResponse list" where
  "part_terminals (PResultSet r) = [result_set_response r]"
| "part_terminals (PRowCount n) = [RowCount n]"
| "part_terminals (PException w) = [Exception (w_message w) (w_sql_state w)]"
| "part_terminals PEmpty = [Empty]"
| "part_terminals PStillExecuting = [StillExecuting]"
| "part_terminals _ = []"

definition warnings_of :: "part list \<Rightarrow> NativeWarning list" where
  "warnings_of ps = concat (map part_warnings ps)"

definition terminals_of :: "part list \<Rightarrow> NativeResponse list" where
  "terminals_of ps = concat (map part_terminals ps)"

definition enc_parts :: "part list \<Rightarrow> byte list" where
  "enc_parts ps = concat (map enc_part ps)"

lemma parts_simps [simp]:
  "warnings_of [] = []" "warnings_of (p # ps) = part_warnings p @ warnings_of ps"
  "terminals_of [] = []" "terminals_of (p # ps) = part_terminals p @ terminals_of ps"
  "enc_parts [] = []" "enc_parts (p # ps) = enc_part p @ enc_parts ps"
  by (simp_all add: warnings_of_def terminals_of_def enc_parts_def)

text \<open>Storing the terminal results one after the other in the slot.\<close>

fun assign_all :: "NativeResponse option \<Rightarrow> NativeResponse list \<Rightarrow> (TransportError, NativeResponse option) result" where
  "assign_all slot [] = Inr slot"
| "assign_all slot (r # rs) = rbind (assign_terminal_result slot r) (\<lambda>slot'. assign_all slot' rs)"

lemma assign_all_simps [simp]:
  "assign_all None [r] = Inr (Some r)"
  "assign_all None (r # r' # rs) = fail (ProtocolError ''Multiple terminal results in native response envelope'')"
  by (simp_all add: assign_terminal_result_def)

lemma response_type_distinct:
  "distinct [R_ROW_COUNT, R_RESULT_SET, R_HANDLE, R_COLUMN_COUNT, R_WARNING, R_STILL_EXECUTING, R_MORE_ROWS,
    R_EXCEPTION, R_EMPTY]"
  "distinct [R_EMPTY, R_EXCEPTION, R_MORE_ROWS, R_STILL_EXECUTING, R_WARNING, R_COLUMN_COUNT, R_HANDLE,
    R_RESULT_SET, R_ROW_COUNT]"
  by (simp_all add: const_defs)

lemmas response_type_neqs [simp] = response_type_distinct [simplified]

text \<open>One turn of the loop over the parts, on an encoded part.\<close>

lemma parse_parts_step:
  assumes ok: "part_ok E p" and E: "sound_env E"
    and d: "d = pre @ enc_part p @ rest" "small_buffer d" and off: "off = length pre"
  shows "parse_parts E d (Suc n) ws term off =
    rbind (assign_all term (part_terminals p)) (\<lambda>term'.
      parse_parts E d n (ws @ part_warnings p) term' (off + length (enc_part p)))"
proof -
  obtain t body where e: "enc_part p = t # body" by (cases p) auto
  have u8: "read_u8 d off = Inr (t, Suc off)" using d off e by (simp add: read_u8_def)
  have at: "d = (pre @ [t]) @ body @ rest" "Suc off = length (pre @ [t])" using d off e by simp_all
  note run = pbind_def parse_parts.simps u8 Let_def
  show ?thesis
  proof (cases p)
    case (PWarning w)
    then have b: "t = R_WARNING" "body = enc_message w" using e by auto
    have "parse_message_part E d (Suc off) = Inr (w, Suc off + length (enc_message w))"
      using PWarning ok d(2) at b by (intro message_codec.read_enc_at [where pre = "pre @ [t]" and rest = rest]) auto
    then show ?thesis using PWarning b by (simp add: run parse_warning_def)
  next
    case (PColumnCount c)
    then have b: "t = R_COLUMN_COUNT" "body = u32_to_le c" using e by auto
    have "read_i32 d (Suc off) = Inr (c, Suc off + 4)" using at b by (intro read_i32_at [where pre = "pre @ [t]" and rest = rest]) auto
    then show ?thesis using PColumnCount b by (simp add: run add.commute [of off])
  next
    case (PResultSet r)
    then have b: "t = R_RESULT_SET" "body = enc_result_set r" using e by auto
    have "parse_result_set_at E d (Suc off) = Inr (result_set_response r, Suc off + length (enc_result_set r))"
      using PResultSet ok E d(2) at b by (intro parse_result_set_enc [where pre = "pre @ [t]" and rest = rest]) auto
    then show ?thesis using PResultSet b by (simp add: run)
  next
    case (PRowCount c)
    then have b: "t = R_ROW_COUNT" "body = u64_to_le c" using e by auto
    have "read_i64 d (Suc off) = Inr (c, Suc off + 8)" using at b by (intro read_i64_at [where pre = "pre @ [t]" and rest = rest]) auto
    then show ?thesis using PRowCount b by (simp add: run add.commute [of off] parse_row_count_at_def preturn_def)
  next
    case (PException w)
    then have b: "t = R_EXCEPTION" "body = enc_message w" using e by auto
    have "parse_message_part E d (Suc off) = Inr (w, Suc off + length (enc_message w))"
      using PException ok d(2) at b by (intro message_codec.read_enc_at [where pre = "pre @ [t]" and rest = rest]) auto
    then show ?thesis using PException b by (simp add: run parse_exception_at_def preturn_def)
  next
    case PEmpty
    then show ?thesis using e by (auto simp: run)
  next
    case PStillExecuting
    then show ?thesis using e by (auto simp: run)
  qed
qed

lemma parse_parts_enc:
  "list_all (part_ok E) ps \<Longrightarrow> sound_env E \<Longrightarrow> d = pre @ enc_parts ps @ rest \<Longrightarrow> small_buffer d \<Longrightarrow>
    off = length pre \<Longrightarrow>
    parse_parts E d (length ps) ws term off =
      rbind (assign_all term (terminals_of ps)) (\<lambda>term'.
        Inr ((ws @ warnings_of ps, term'), off + length (enc_parts ps)))"
proof (induction ps arbitrary: pre off ws "term")
  case Nil
  then show ?case by (simp add: preturn_def)
next
  case (Cons p ps)
  have step: "parse_parts E d (length (p # ps)) ws term off =
      rbind (assign_all term (part_terminals p)) (\<lambda>term'.
        parse_parts E d (length ps) (ws @ part_warnings p) term' (off + length (enc_part p)))"
    using Cons.prems parse_parts_step [of E p d pre "enc_parts ps @ rest" off "length ps"] by simp
  have tl: "parse_parts E d (length ps) (ws @ part_warnings p) term' (off + length (enc_part p)) =
      rbind (assign_all term' (terminals_of ps)) (\<lambda>term''.
        Inr (((ws @ part_warnings p) @ warnings_of ps, term''), off + length (enc_part p) + length (enc_parts ps)))"
    for term'
    using Cons.prems by (intro Cons.IH [where pre = "pre @ enc_part p"]) simp_all
  have split: "assign_all term (xs @ ys) = rbind (assign_all term xs) (\<lambda>t. assign_all t ys)" for xs ys "term"
    by (induction xs arbitrary: "term") (simp_all add: rbind_assoc)
  show ?case unfolding step tl by (simp add: split rbind_assoc add.assoc)
qed

definition enc_envelope :: "part list \<Rightarrow> byte list" where
  "enc_envelope ps = u32_to_le (of_nat (length ps)) @ enc_parts ps"

lemma enc_part_type: "\<exists>body. enc_part p = hd (enc_part p) # body \<and> is_known_response_type (hd (enc_part p))"
  by (cases p) (simp_all add: is_known_response_type_def)

lemma parse_response_enc:
  assumes ps: "ps \<noteq> []" "length ps \<le> 64" "list_all (part_ok E) ps" and E: "sound_env E"
    and small: "small_buffer (enc_envelope ps)"
  shows "parse_response E (enc_envelope ps) =
    (case terminals_of ps of
       [] \<Rightarrow> Inr \<lparr>warnings = warnings_of ps, terminal = Empty\<rparr>
     | [r] \<Rightarrow> Inr \<lparr>warnings = warnings_of ps, terminal = r\<rparr>
     | _ \<Rightarrow> fail (ProtocolError ''Multiple terminal results in native response envelope''))"
proof -
  let ?d = "enc_envelope ps"
  obtain p ps' where p: "ps = p # ps'" using ps(1) by (cases ps) auto
  obtain t body where t: "enc_part p = t # body" "is_known_response_type t" using enc_part_type [of p] by metis
  have d4: "5 \<le> length ?d" "?d ! 4 = t" using p t by (simp_all add: enc_envelope_def nth_append)
  have cnt: "read_i32 ?d 0 = Inr (of_nat (length ps), 4)" using read_i32_at [of ?d "[]"] by (simp add: enc_envelope_def)
  have s: "sint (of_nat (length ps) :: i32) = int (length ps)"
    using ps(2) by (simp add: signed_of_nat signed_take_bit_int_eq_self)
  have run: "parse_parts E ?d (length ps) [] None 4 = rbind (assign_all None (terminals_of ps)) (\<lambda>term'.
      Inr (([] @ warnings_of ps, term'), 4 + length (enc_parts ps)))"
    using ps E small
    by (intro parse_parts_enc [where pre = "u32_to_le (of_nat (length ps))" and rest = "[]"]) (simp_all add: enc_envelope_def)
  have len: "length ?d = 4 + length (enc_parts ps)" by (simp add: enc_envelope_def)
  have rng: "1 \<le> int (length ps)" "int (length ps) \<le> 64" using ps(1,2) by (cases ps; simp)+
  have "?d \<noteq> []" "length ?d \<noteq> 4" using d4(1) by auto
  then have "parse_response E ?d = rbind (try_parse_counted_envelope E ?d) (\<lambda>env.
      case env of Some e \<Rightarrow> Inr e | None \<Rightarrow> parse_legacy_response E ?d)"
    by (simp add: parse_response_def)
  also have "try_parse_counted_envelope E ?d = rbind (parse_parts E ?d (length ps) [] None 4) (\<lambda>((ws, term), off).
      if off \<noteq> length ?d then Inr None
      else Inr (Some \<lparr>warnings = ws, terminal = (case term of Some r \<Rightarrow> r | None \<Rightarrow> Empty)\<rparr>))"
    using d4 rng t(2) by (simp add: try_parse_counted_envelope_def cnt s)
  finally show ?thesis
    unfolding run len by (cases "terminals_of ps" rule: remdups_adj.cases) (simp_all add: assign_terminal_result_def)
qed

subsection \<open>Prepared-statement replies\<close>

text \<open>A legacy response carries one part; the status part has a message there and is left out.\<close>

definition part_envelope :: "part \<Rightarrow> NativeResponseEnvelope" where
  "part_envelope p = \<lparr>warnings = part_warnings p,
    terminal = (case part_terminals p of [] \<Rightarrow> Empty | r # _ \<Rightarrow> r)\<rparr>"

lemma parse_legacy_enc:
  assumes ok: "part_ok E p" "p \<noteq> PStillExecuting" and E: "sound_env E"
    and d: "d = pre @ enc_part p @ rest" "small_buffer d" and off: "off = length pre"
  shows "parse_legacy_response_at n E d off = Inr (part_envelope p, off + length (enc_part p))"
proof -
  obtain t body where e: "enc_part p = t # body" by (cases p) auto
  have u8: "read_u8 d off = Inr (t, Suc off)" using d off e by (simp add: read_u8_def)
  have at: "d = (pre @ [t]) @ body @ rest" "Suc off = length (pre @ [t])" using d off e by simp_all
  note run = parse_legacy_response_at_def parse_legacy_response_body_def legacy_body_def pbind_def u8
    preturn_def part_envelope_def plain_def add.commute [of off]
  show ?thesis
  proof (cases p)
    case (PWarning w)
    then have b: "t = R_WARNING" "body = enc_message w" using e by auto
    have "parse_message_part E d (Suc off) = Inr (w, Suc off + length (enc_message w))"
      using PWarning ok d(2) at b by (intro message_codec.read_enc_at [where pre = "pre @ [t]" and rest = rest]) auto
    then show ?thesis using PWarning b by (simp add: run parse_warning_def)
  next
    case (PColumnCount c)
    then have b: "t = R_COLUMN_COUNT" "body = u32_to_le c" using e by auto
    have "read_i32 d (Suc off) = Inr (c, Suc off + 4)"
      using at b by (intro read_i32_at [where pre = "pre @ [t]" and rest = rest]) auto
    then show ?thesis using PColumnCount b by (simp add: run)
  next
    case (PResultSet r)
    then have b: "t = R_RESULT_SET" "body = enc_result_set r" using e by auto
    have "parse_result_set_at E d (Suc off) = Inr (result_set_response r, Suc off + length (enc_result_set r))"
      using PResultSet ok E d(2) at b by (intro parse_result_set_enc [where pre = "pre @ [t]" and rest = rest]) auto
    then show ?thesis using PResultSet b by (simp add: run)
  next
    case (PRowCount c)
    then have b: "t = R_ROW_COUNT" "body = u64_to_le c" using e by auto
    have "read_i64 d (Suc off) = Inr (c, Suc off + 8)"
      using at b by (intro read_i64_at [where pre = "pre @ [t]" and rest = rest]) auto
    then show ?thesis using PRowCount b by (simp add: run parse_row_count_at_def)
  next
    case (PException w)
    then have b: "t = R_EXCEPTION" "body = enc_message w" using e by auto
    have "parse_message_part E d (Suc off) = Inr (w, Suc off + length (enc_message w))"
      using PException ok d(2) at b by (intro message_codec.read_enc_at [where pre = "pre @ [t]" and rest = rest]) auto
    then show ?thesis using PException b by (simp add: run parse_exception_at_def)
  next
    case PEmpty
    then show ?thesis using e by (auto simp: run)
  next
    case PStillExecuting
    then show ?thesis using ok(2) by simp
  qed
qed

text \<open>What the sub-results of a reply describe, an exception being an error.\<close>

fun describe :: "part list \<Rightarrow> NativeColumnMeta list \<times> NativeColumnMeta list \<Rightarrow>
    (TransportError, NativeColumnMeta list \<times> NativeColumnMeta list) result" where
  "describe [] acc = Inr acc"
| "describe (p # ps) acc = rbind (take_sub_result (terminal (part_envelope p)) acc) (describe ps)"

lemma handle_loop_enc:
  "list_all (\<lambda>p. part_ok E p \<and> p \<noteq> PStillExecuting) ps \<Longrightarrow> sound_env E \<Longrightarrow> d = pre @ enc_parts ps \<Longrightarrow>
    small_buffer d \<Longrightarrow> off = length pre \<Longrightarrow> length ps \<le> n \<Longrightarrow>
    handle_loop n E d ws acc off = rbind (describe ps acc) (\<lambda>acc'. Inr ((ws @ warnings_of ps, acc'), length d))"
proof (induction ps arbitrary: pre off ws acc n)
  case Nil
  then show ?case by (cases n) (simp_all add: handle_loop_Suc)
next
  case (Cons p ps)
  then obtain k where n: "n = Suc k" by (cases n) auto
  have run: "parse_legacy_response_at k E d off = Inr (part_envelope p, off + length (enc_part p))"
    using Cons.prems by (intro parse_legacy_enc [where pre = pre and rest = "enc_parts ps"]) auto
  have tl: "handle_loop k E d ws' acc' (off + length (enc_part p))
      = rbind (describe ps acc') (\<lambda>acc''. Inr ((ws' @ warnings_of ps, acc''), length d))" for ws' acc'
    using Cons.prems n by (intro Cons.IH [where pre = "pre @ enc_part p"]) auto
  have "off < length d" using Cons.prems by (cases p) auto
  moreover have "warnings (part_envelope p) = part_warnings p" by (simp add: part_envelope_def)
  ultimately show ?case
    by (simp add: n handle_loop_Suc run tl rbind_assoc)
qed

definition enc_prepared_reply :: "i32 \<Rightarrow> part list \<Rightarrow> byte list" where
  "enc_prepared_reply h subs = u32_to_le 1 @ [R_HANDLE] @ u32_to_le h @ enc_parts subs"

lemma parse_prepared_reply:
  assumes subs: "list_all (\<lambda>p. part_ok E p \<and> p \<noteq> PStillExecuting) subs" and E: "sound_env E"
    and small: "small_buffer (enc_prepared_reply h subs)" and n: "length subs \<le> fuel E"
  shows "parse_response E (enc_prepared_reply h subs) =
    rbind (describe subs ([], [])) (\<lambda>(ps, rs).
      Inr \<lparr>warnings = warnings_of subs, terminal = PreparedStatement h ps rs\<rparr>)"
proof -
  let ?d = "enc_prepared_reply h subs"
  have cnt: "read_i32 ?d 0 = Inr (1, 4)" using read_i32_at [of ?d "[]" 1] by (simp add: enc_prepared_reply_def)
  have t: "read_u8 ?d 4 = Inr (R_HANDLE, 5)" "?d ! 4 = R_HANDLE" "9 \<le> length ?d"
    by (simp_all add: enc_prepared_reply_def read_u8_def nth_append)
  have h: "read_i32 ?d 5 = Inr (h, 9)"
    using read_i32_at [of ?d "u32_to_le 1 @ [R_HANDLE]" h] by (simp add: enc_prepared_reply_def)
  have loop: "handle_loop (fuel E) E ?d [] ([], []) 9
      = rbind (describe subs ([], [])) (\<lambda>acc'. Inr (([] @ warnings_of subs, acc'), length ?d))"
    using assms by (intro handle_loop_enc [where pre = "u32_to_le 1 @ [R_HANDLE] @ u32_to_le h"])
      (simp_all add: enc_prepared_reply_def)
  have known: "is_known_response_type R_HANDLE" by (simp add: is_known_response_type_def)
  have "?d \<noteq> []" "length ?d \<noteq> 4" "\<not> length ?d < 5" using t(3) by auto
  then show ?thesis
    using t known
    by (cases "describe subs ([], [])")
      (auto simp: parse_response_def try_parse_counted_envelope_def cnt pbind_def h loop
        parse_handle_only_at_def handle_reply_def preturn_def assign_terminal_result_def)
qed

lemma describe_warnings: "describe (map PWarning ws @ ps) acc = describe ps acc"
  by (induction ws) (simp_all add: part_envelope_def take_sub_result_def)

lemma warnings_of_map: "warnings_of (map PWarning ws @ ps) = ws @ warnings_of ps"
  by (induction ws) simp_all

lemma parse_prepared_reply_described:
  assumes "sound_env E" "result_set_ok E params" "result_set_ok E cols" "list_all message_ok ws"
    and "rs_handle params = PARAMETER_DESCRIPTION" "rs_handle cols \<noteq> PARAMETER_DESCRIPTION"
    and "length ws + 2 \<le> fuel E"
    and "length (enc_prepared_reply h (PResultSet params # map PWarning ws @ [PResultSet cols])) < 2 ^ 59"
  shows "parse_response E (enc_prepared_reply h (PResultSet params # map PWarning ws @ [PResultSet cols]))
    = Inr \<lparr>warnings = ws, terminal = PreparedStatement h (map fst (rs_columns params)) (map fst (rs_columns cols))\<rparr>"
proof -
  let ?subs = "PResultSet params # map PWarning ws @ [PResultSet cols]"
  have "list_all (\<lambda>p. part_ok E p \<and> p \<noteq> PStillExecuting) ?subs"
    using assms by (auto simp: list_all_iff)
  moreover have "describe ?subs ([], []) = Inr (map fst (rs_columns params), map fst (rs_columns cols))"
    using assms(5,6)
    by (simp add: describe_warnings part_envelope_def take_sub_result_def result_set_response_def)
  ultimately show ?thesis
    using parse_prepared_reply [of E ?subs h] assms by (simp add: small_buffer_def warnings_of_map)
qed

lemma parse_prepared_reply_exception:
  assumes "sound_env E" "list_all message_ok ws" "message_ok x" "length ws + 1 \<le> fuel E"
    and "length (enc_prepared_reply h (map PWarning ws @ [PException x])) < 2 ^ 59"
  shows "parse_response E (enc_prepared_reply h (map PWarning ws @ [PException x])) =
    fail (ProtocolError (''Exasol reported an exception in a prepared-statement reply sub-result: '' @ w_message x
      @ '' (SQLSTATE '' @ w_sql_state x @ '')''))"
proof -
  let ?subs = "map PWarning ws @ [PException x]"
  have "list_all (\<lambda>p. part_ok E p \<and> p \<noteq> PStillExecuting) ?subs" using assms by (auto simp: list_all_iff)
  then show ?thesis
    using parse_prepared_reply [of E ?subs h] assms
    by (simp add: small_buffer_def describe_warnings part_envelope_def take_sub_result_def)
qed

end
