(* ===== verification/Messages.thy ===== *)
theory Messages
  imports Columns
begin

text \<open>
  The values the transports exchange with the rest of the driver
  (\<open>src/transport/messages.rs\<close>, \<open>src/transport/protocol.rs\<close>): data types, column
  descriptions, sessions, query results, prepared-statement handles, and the JSON values
  parameters arrive as; with the type mapping of \<open>native/arrow_builder.rs\<close>.
\<close>

subsection \<open>JSON values\<close>

text \<open>
  \<open>serde_json::Value\<close>. A number is a non-negative integer below \<open>2 ^ 64\<close>, a negative
  \<open>i64\<close>, or a float, given by its bits.
\<close>

datatype json =
    JNull
  | JBool bool
  | JPosInt u64
  | JNegInt i64
  | JFloat u64
  | JString string
  | JArray "json list"
  | JObject "(string \<times> json) list"

fun json_is_null :: "json \<Rightarrow> bool" where
  "json_is_null JNull = True"
| "json_is_null _ = False"

fun json_as_str :: "json \<Rightarrow> string option" where
  "json_as_str (JString s) = Some s"
| "json_as_str _ = None"

fun json_as_bool :: "json \<Rightarrow> bool option" where
  "json_as_bool (JBool b) = Some b"
| "json_as_bool _ = None"

text \<open>\<open>as_i64\<close>: an integer that fits.\<close>

fun json_as_i64 :: "json \<Rightarrow> int option" where
  "json_as_i64 (JPosInt n) = (if unat n < 2 ^ 63 then Some (int (unat n)) else None)"
| "json_as_i64 (JNegInt n) = Some (sint n)"
| "json_as_i64 _ = None"

subsection \<open>Data types and columns\<close>

record DataType =
  type_name :: string
  dt_precision :: "i32 option"
  dt_scale :: "i32 option"
  dt_size :: "i64 option"
  character_set :: "string option"
  with_local_time_zone :: "bool option"
  fraction :: "i32 option"
  srid :: "i32 option"

definition named_type :: "string \<Rightarrow> DataType" where
  "named_type n = \<lparr>type_name = n, dt_precision = None, dt_scale = None, dt_size = None,
    character_set = None, with_local_time_zone = None, fraction = None, srid = None\<rparr>"

definition DataType_decimal :: "i32 \<Rightarrow> i32 \<Rightarrow> DataType" where
  "DataType_decimal p s = (named_type ''DECIMAL'')\<lparr>dt_precision := Some p, dt_scale := Some s\<rparr>"

definition DataType_double :: DataType where "DataType_double = named_type ''DOUBLE''"

definition DataType_varchar :: "i64 \<Rightarrow> DataType" where
  "DataType_varchar n = (named_type ''VARCHAR'')\<lparr>dt_size := Some n, character_set := Some ''UTF8''\<rparr>"

definition DataType_boolean :: DataType where "DataType_boolean = named_type ''BOOLEAN''"

fun infer_from_json :: "json \<Rightarrow> DataType" where
  "infer_from_json JNull = DataType_varchar 2000000"
| "infer_from_json (JBool _) = DataType_boolean"
| "infer_from_json (JFloat _) = DataType_double"
| "infer_from_json (JPosInt _) = DataType_decimal 18 0"
| "infer_from_json (JNegInt _) = DataType_decimal 18 0"
| "infer_from_json (JString _) = DataType_varchar 2000000"
| "infer_from_json (JArray _) = DataType_varchar 2000000"
| "infer_from_json (JObject _) = DataType_varchar 2000000"

record ColumnInfo =
  ci_name :: string
  ci_data_type :: DataType

text \<open>\<open>l as i64\<close> for an \<open>i32\<close>.\<close>

definition i32_as_i64 :: "i32 \<Rightarrow> i64" where
  "i32_as_i64 l = of_int (sint l)"

definition native_meta_to_data_type :: "NativeColumnMeta \<Rightarrow> DataType" where
  "native_meta_to_data_type meta =
    (let tid = type_id meta in
     if tid = T_DECIMAL \<or> tid = T_SMALLDECIMAL \<or> tid = T_BIGDECIMAL then
       (named_type ''DECIMAL'')\<lparr>dt_precision := cm_precision meta, dt_scale := cm_scale meta\<rparr>
     else if tid = T_DOUBLE then DataType_double
     else if tid = T_REAL then named_type ''DOUBLE''
     else if tid = T_INTEGER then DataType_decimal INTEGER_DECIMAL_PRECISION 0
     else if tid = T_SMALLINT then DataType_decimal SMALLINT_DECIMAL_PRECISION 0
     else if tid = T_BOOLEAN then DataType_boolean
     else if tid = T_CHAR then
       (if is_varchar meta then
          DataType_varchar (i32_as_i64 (case max_len meta of Some l \<Rightarrow> l | None \<Rightarrow> 2000000))
        else (named_type ''CHAR'')\<lparr>dt_size := map_option i32_as_i64 (max_len meta),
               character_set := Some ''UTF8''\<rparr>)
     else if tid = T_DATE then named_type ''DATE''
     else if tid = T_TIMESTAMP then named_type ''TIMESTAMP''
     else if tid = T_TIMESTAMP_LOCAL_TZ \<or> tid = T_TIMESTAMP_UTC then
       (named_type ''TIMESTAMP WITH LOCAL TIME ZONE'')\<lparr>with_local_time_zone := Some True\<rparr>
     else if tid = T_BINARY then
       (named_type ''BINARY'')\<lparr>dt_size := map_option i32_as_i64 (max_len meta)\<rparr>
     else if tid = T_GEOMETRY then named_type ''GEOMETRY''
     else if tid = T_HASHTYPE then
       (named_type ''HASHTYPE'')\<lparr>dt_size := map_option i32_as_i64 (max_len meta)\<rparr>
     else if tid = T_INTERVAL_YEAR then named_type ''INTERVAL YEAR TO MONTH''
     else if tid = T_INTERVAL_DAY then
       (named_type ''INTERVAL DAY TO SECOND'')\<lparr>fraction := interval_fraction meta\<rparr>
     else DataType_varchar 2000000)"

definition to_column_info :: "NativeColumnMeta list \<Rightarrow> ColumnInfo list" where
  "to_column_info columns =
    map (\<lambda>c. \<lparr>ci_name = cm_name c, ci_data_type = native_meta_to_data_type c\<rparr>) columns"

subsection \<open>Results, sessions and handles\<close>

record SessionInfo =
  session_id :: string
  protocol_version :: i32
  release_version :: string
  database_name :: string
  product_name :: string
  max_data_message_size :: i64
  time_zone :: "string option"

datatype ResultPayload = PayloadJson "json list list" | PayloadArrow RecordBatch

fun payload_num_rows :: "ResultPayload \<Rightarrow> nat" where
  "payload_num_rows (PayloadJson rows) = length rows"
| "payload_num_rows (PayloadArrow b) = rb_num_rows b"

record ResultData =
  rd_columns :: "ColumnInfo list"
  rd_data :: ResultPayload
  rd_total_rows :: i64

text \<open>A \<open>ResultSetHandle\<close> wraps the \<open>i32\<close> the server names a result set with.\<close>

type_synonym ResultSetHandle = i32

datatype QueryResult =
    QResultSet "ResultSetHandle option" ResultData
  | QRowCount i64

fun has_more_data :: "QueryResult \<Rightarrow> bool" where
  "has_more_data (QResultSet h d) \<longleftrightarrow>
    h \<noteq> None \<and> int (payload_num_rows (rd_data d)) < sint (rd_total_rows d)"
| "has_more_data (QRowCount _) = False"

record PreparedStatementHandle =
  ps_handle :: i32
  num_params :: i32
  parameter_types :: "DataType list"
  parameter_names :: "string option list"
  ps_result_columns :: "ColumnInfo list"

definition PreparedStatementHandle_new ::
  "i32 \<Rightarrow> i32 \<Rightarrow> DataType list \<Rightarrow> string option list \<Rightarrow> PreparedStatementHandle" where
  "PreparedStatementHandle_new h n tys names = \<lparr>ps_handle = h, num_params = n,
    parameter_types = tys, parameter_names = names, ps_result_columns = []\<rparr>"

definition with_result_columns :: "PreparedStatementHandle \<Rightarrow> ColumnInfo list \<Rightarrow> PreparedStatementHandle" where
  "with_result_columns h cs = h\<lparr>ps_result_columns := cs\<rparr>"

record ConnectionParams =
  host :: string
  port :: u16
  use_tls :: bool
  validate_server_certificate :: bool
  certificate_fingerprint :: "string option"
  timeout_ms :: u64

definition ConnectionParams_new :: "string \<Rightarrow> u16 \<Rightarrow> ConnectionParams" where
  "ConnectionParams_new h p = \<lparr>host = h, port = p, use_tls = True,
    validate_server_certificate = True, certificate_fingerprint = None, timeout_ms = 30000\<rparr>"

definition to_websocket_url :: "ConnectionParams \<Rightarrow> string" where
  "to_websocket_url c = (if use_tls c then ''wss'' else ''ws'') @ ''://'' @ host c @ '':''
    @ show_nat (unat (port c))"

record Credentials =
  username :: string
  password :: string
  client_name :: string
  client_version :: string

end
