(* ===== verification/Attributes.thy ===== *)
theory Attributes
  imports Framing Errors
begin

text \<open>
  Protocol attributes (\<open>src/transport/native/attributes.rs\<close>): typed key-value pairs with a
  binary image. The type of a value is not on the wire; it follows from the attribute
  identifier (\<open>attribute_type\<close>). Lemmas: the serialiser and the parser form a codec on
  well-typed attributes, so a serialised set parses back to itself; the declared length
  is the serialised length; parsing arbitrary bytes never panics and every set it returns
  is well typed.
\<close>

datatype AttributeValue =
    AString string
  | ABinary "byte list"
  | AInt32 i32
  | AInt64 i64
  | ABool bool

record Attribute =
  attr_id :: u16
  attr_value :: AttributeValue

type_synonym AttributeSet = "Attribute list"

definition AttributeSet_new :: AttributeSet where "AttributeSet_new = []"

definition AttributeSet_add :: "AttributeSet \<Rightarrow> u16 \<Rightarrow> AttributeValue \<Rightarrow> AttributeSet" where
  "AttributeSet_add attrs aid v = attrs @ [\<lparr>attr_id = aid, attr_value = v\<rparr>]"

definition AttributeSet_get :: "AttributeSet \<Rightarrow> u16 \<Rightarrow> AttributeValue option" where
  "AttributeSet_get attrs aid = map_option attr_value (find (\<lambda>a. attr_id a = aid) attrs)"

definition AttributeSet_num_attributes :: "AttributeSet \<Rightarrow> u32" where
  "AttributeSet_num_attributes attrs = of_nat (length attrs)"

definition serialized_len :: "Attribute \<Rightarrow> nat" where
  "serialized_len a = 2 + (case attr_value a of
      AString s \<Rightarrow> 4 + length s
    | ABinary b \<Rightarrow> 4 + length b
    | AInt32 _ \<Rightarrow> 4
    | AInt64 _ \<Rightarrow> 8
    | ABool _ \<Rightarrow> 1)"

definition AttributeSet_data_len :: "AttributeSet \<Rightarrow> u32" where
  "AttributeSet_data_len attrs = of_nat (sum_list (map serialized_len attrs))"

definition serialize_attribute :: "Attribute \<Rightarrow> byte list" where
  "serialize_attribute a = u16_to_le (attr_id a) @ (case attr_value a of
      AString s \<Rightarrow> u32_to_le (of_nat (length s)) @ as_bytes s
    | ABinary b \<Rightarrow> u32_to_le (of_nat (length b)) @ b
    | AInt32 v \<Rightarrow> u32_to_le v
    | AInt64 v \<Rightarrow> u64_to_le v
    | ABool v \<Rightarrow> [if v then 1 else 0])"

definition AttributeSet_serialize :: "AttributeSet \<Rightarrow> byte list" where
  "AttributeSet_serialize attrs = concat (map serialize_attribute attrs)"

subsection \<open>Reading\<close>

definition read_attribute_id :: "byte list \<Rightarrow> u16 rd" where
  "read_attribute_id d off =
    (if off + 2 > length d then fail (ProtocolError ''attribute data truncated: missing attr_id'')
     else Inr (u16_of_le (take 2 (drop off d)), off + 2))"

definition read_length_prefixed :: "byte list \<Rightarrow> byte list rd" where
  "read_length_prefixed d off =
    (if off + 4 > length d then fail (ProtocolError ''attribute data truncated: missing length'')
     else let len = unat (u32_of_le (take 4 (drop off d))); off = off + 4 in
       if off + len > length d then fail (ProtocolError
         (''attribute data truncated: need '' @ show_nat len @ '' bytes, have ''
          @ show_nat (length d - off)))
       else rbind (slice d off (off + len)) (\<lambda>bytes. Inr (bytes, off + len)))"

definition read_string :: "byte list \<Rightarrow> u16 \<Rightarrow> AttributeValue rd" where
  "read_string d aid = pbind (read_length_prefixed d) (\<lambda>bytes.
    if utf8_valid bytes then preturn (AString (text_of bytes))
    else pfail (ProtocolError (''invalid UTF-8 in attribute '' @ show_nat (unat aid) @ '': ''
      @ utf8_error_text bytes)))"

definition read_int32 :: "byte list \<Rightarrow> AttributeValue rd" where
  "read_int32 d off =
    (if off + 4 > length d then fail (ProtocolError ''attribute data truncated: missing i32'')
     else Inr (AInt32 (u32_of_le (take 4 (drop off d))), off + 4))"

definition read_int64 :: "byte list \<Rightarrow> AttributeValue rd" where
  "read_int64 d off =
    (if off + 8 > length d then fail (ProtocolError ''attribute data truncated: missing i64'')
     else Inr (AInt64 (u64_of_le (take 8 (drop off d))), off + 8))"

definition read_bool :: "byte list \<Rightarrow> AttributeValue rd" where
  "read_bool d off =
    (if off \<ge> length d then fail (ProtocolError ''attribute data truncated: missing bool'')
     else Inr (ABool (d ! off \<noteq> 0), off + 1))"

datatype AttrType = Str | Bin | I32 | I64 | Bool

definition attribute_type :: "u16 \<Rightarrow> AttrType" where
  "attribute_type aid =
    (if aid \<in> {ATTR_AUTOCOMMIT, ATTR_TSUTC_ENABLED, ATTR_ENCRYPTION_REQUIRED,
              ATTR_SNAPSHOT_TRANSACTIONS_ENABLED, ATTR_TRANSACTION_STATE,
              15, 41, 45, 50, 61, 62} then Bool
     else if aid \<in> {ATTR_PROTOCOL_VERSION, ATTR_QUERY_TIMEOUT, ATTR_QUERY_CACHE_ACCESS,
                   ATTR_CLIENT_KEYS_LEN, 16, 36, 40, 44, 46, 60, 69, 72, 73} then I32
     else if aid \<in> {ATTR_SESSIONID, ATTR_DATA_MESSAGE_SIZE, ATTR_RESULT_SET_HANDLE,
                   ATTR_STATEMENT_HANDLE, ATTR_NUM_ROWS, 18, 24, 25, 42, 43, 68, 70} then I64
     else if aid \<in> {ATTR_CLIENT_RECEIVE_KEY, ATTR_CLIENT_SEND_KEY, ATTR_PUBLIC_KEY,
                   ATTR_ENCODED_PASSWORD, ATTR_RANDOM_PHRASE, 65, 66} then Bin
     else Str)"

definition read_attribute_value :: "byte list \<Rightarrow> u16 \<Rightarrow> AttributeValue rd" where
  "read_attribute_value d aid = (case attribute_type aid of
      Str \<Rightarrow> read_string d aid
    | Bin \<Rightarrow> pbind (read_length_prefixed d) (\<lambda>bytes. preturn (ABinary bytes))
    | I32 \<Rightarrow> read_int32 d
    | I64 \<Rightarrow> read_int64 d
    | Bool \<Rightarrow> read_bool d)"

text \<open>One turn of the loop of \<open>parse_attributes\<close>.\<close>

definition read_attribute :: "byte list \<Rightarrow> Attribute rd" where
  "read_attribute d = pbind (read_attribute_id d) (\<lambda>aid.
    pbind (read_attribute_value d aid) (\<lambda>v. preturn \<lparr>attr_id = aid, attr_value = v\<rparr>))"

definition parse_attributes :: "byte list \<Rightarrow> u32 \<Rightarrow> (TransportError, AttributeSet) result" where
  "parse_attributes d count =
    rbind (prepeat (unat count) (read_attribute d) 0) (\<lambda>(attrs, off). Inr attrs)"

subsection \<open>Well-typed attributes\<close>

text \<open>
  The value has the type that the reader derives from the identifier; a length fits the
  32-bit length field; a string is UTF-8, as every Rust \<open>String\<close> is.
\<close>

definition attr_ok :: "Attribute \<Rightarrow> bool" where
  "attr_ok a = (case attr_value a of
      AString s \<Rightarrow> attribute_type (attr_id a) = Str \<and> length s < 2 ^ 32 \<and> utf8_valid (as_bytes s)
    | ABinary b \<Rightarrow> attribute_type (attr_id a) = Bin \<and> length b < 2 ^ 32
    | AInt32 _ \<Rightarrow> attribute_type (attr_id a) = I32
    | AInt64 _ \<Rightarrow> attribute_type (attr_id a) = I64
    | ABool _ \<Rightarrow> attribute_type (attr_id a) = Bool)"

lemmas attr_reader_defs = read_attribute_id_def read_length_prefixed_def read_string_def
  read_int32_def read_int64_def read_bool_def

subsection \<open>Reading back what was written\<close>

lemma read_attribute_id_enc [simp]:
  "read_attribute_id (pre @ u16_to_le i @ rest) (length pre) = Inr (i, length pre + 2)"
  by (simp add: read_attribute_id_def)

lemma unat_of_nat_u32: "n < 2 ^ 32 \<Longrightarrow> unat (of_nat n :: u32) = n"
  by (simp add: unat_of_nat)

lemma read_length_prefixed_enc:
  assumes "length b < 2 ^ 32"
  shows "read_length_prefixed (pre @ u32_to_le (of_nat (length b)) @ b @ rest) (length pre)
    = Inr (b, length pre + 4 + length b)"
  using assms by (simp add: read_length_prefixed_def unat_of_nat_u32 slice_def Let_def)

lemma read_attribute_value_enc:
  assumes "attr_ok a" "d = pre @ u16_to_le (attr_id a) @ drop 2 (serialize_attribute a) @ rest"
    "off = length pre + 2"
  shows "read_attribute_value d (attr_id a) off
    = Inr (attr_value a, length pre + length (serialize_attribute a))"
proof -
  let ?pre = "pre @ u16_to_le (attr_id a)"
  have pre: "d = ?pre @ drop 2 (serialize_attribute a) @ rest" "off = length ?pre"
    using assms by simp_all
  show ?thesis
  proof (cases "attr_value a")
    case (AString s)
    then show ?thesis using assms(1) pre read_length_prefixed_enc [of "as_bytes s" ?pre rest]
      by (simp add: attr_ok_def read_attribute_value_def read_string_def serialize_attribute_def
          preturn_def)
  next
    case (ABinary b)
    then show ?thesis using assms(1) pre read_length_prefixed_enc [of b ?pre rest]
      by (simp add: attr_ok_def read_attribute_value_def serialize_attribute_def preturn_def)
  qed (use assms(1) pre in \<open>simp_all add: attr_ok_def read_attribute_value_def
      serialize_attribute_def attr_reader_defs nth_append\<close>)
qed

lemma serialize_attribute_split:
  "serialize_attribute a = u16_to_le (attr_id a) @ drop 2 (serialize_attribute a)"
  by (simp add: serialize_attribute_def)

lemma read_attribute_enc:
  assumes "attr_ok a"
  shows "read_attribute (pre @ serialize_attribute a @ rest) (length pre)
    = Inr (a, length pre + length (serialize_attribute a))"
proof -
  let ?d = "pre @ serialize_attribute a @ rest"
  have d: "?d = pre @ u16_to_le (attr_id a) @ drop 2 (serialize_attribute a) @ rest"
    by (metis append_assoc serialize_attribute_split)
  have i: "read_attribute_id ?d (length pre) = Inr (attr_id a, length pre + 2)"
    unfolding d by simp
  show ?thesis using i read_attribute_value_enc [OF assms d refl]
    by (simp add: read_attribute_def preturn_def)
qed

interpretation attribute_codec: codec serialize_attribute read_attribute attr_ok "\<lambda>_. True"
  by unfold_locales (rule read_attribute_enc)

lemma length_serialize_attribute: "length (serialize_attribute a) = serialized_len a"
  by (simp add: serialize_attribute_def serialized_len_def split: AttributeValue.splits)

lemma length_AttributeSet_serialize:
  "length (AttributeSet_serialize attrs) = sum_list (map serialized_len attrs)"
  by (simp add: AttributeSet_serialize_def length_concat comp_def length_serialize_attribute)

lemma parse_serialize_attributes:
  assumes "list_all attr_ok attrs" "length attrs < 2 ^ 32"
  shows "parse_attributes (AttributeSet_serialize attrs @ rest) (AttributeSet_num_attributes attrs)
    = Inr attrs"
  using attribute_codec.prepeat_enc [OF assms(1) _ TrueI, of _ "[]" rest 0] assms(2)
  by (simp add: parse_attributes_def AttributeSet_num_attributes_def AttributeSet_serialize_def
      unat_of_nat_u32)

subsection \<open>Robustness on arbitrary bytes\<close>

lemma advances_read_length_prefixed [progress_intros]: "advances 4 d (read_length_prefixed d)"
  by (rule advancesI) (auto simp: read_length_prefixed_def slice_def Let_def split: if_splits)

lemma graceful_read_length_prefixed [simp]: "graceful (read_length_prefixed d off)"
  by (simp add: read_length_prefixed_def slice_def Let_def)

lemma read_attribute_graceful [simp]: "graceful (read_attribute d off)"
  unfolding read_attribute_def read_attribute_value_def read_string_def
  by (auto intro!: graceful_pbind split: AttrType.splits
      simp: read_attribute_id_def read_int32_def read_int64_def read_bool_def)

lemma read_length_prefixed_len: "read_length_prefixed d off = Inr (b, off') \<Longrightarrow> length b < 2 ^ 32"
  using unsigned_less [of "u32_of_le (take 4 (drop off d))", where ?'a = nat]
  by (auto simp: read_length_prefixed_def slice_def Let_def split: if_splits)

lemma read_attribute_ok:
  assumes "read_attribute d off = Inr (a, off')"
  shows "attr_ok a"
proof -
  from assms obtain o1 v where v: "read_attribute_value d (attr_id a) o1 = Inr (v, off')"
    and a: "attr_value a = v"
    by (auto simp: read_attribute_def res_simps)
  show ?thesis
    using v read_length_prefixed_len
    by (cases "attribute_type (attr_id a)")
       (fastforce simp: read_attribute_value_def attr_ok_def a res_simps read_string_def
          read_int32_def read_int64_def read_bool_def split: if_splits)+
qed

lemma prepeat_all:
  assumes "\<And>off x off'. p off = Inr (x, off') \<Longrightarrow> P x"
  shows "prepeat n p off = Inr (xs, off') \<Longrightarrow> list_all P xs"
  by (induction n arbitrary: off xs) (auto simp: res_simps dest: assms)

lemma parse_attributes_graceful: "graceful (parse_attributes d count)"
  unfolding parse_attributes_def by (auto intro!: graceful_rbind graceful_prepeat)

lemma parse_attributes_ok:
  assumes "parse_attributes d count = Inr attrs"
  shows "length attrs = unat count \<and> list_all attr_ok attrs"
proof -
  from assms obtain off where "prepeat (unat count) (read_attribute d) 0 = Inr (attrs, off)"
    by (auto simp: parse_attributes_def res_simps)
  then show ?thesis by (blast intro: prepeat_length prepeat_all read_attribute_ok)
qed

subsection \<open>Lookup\<close>

lemma AttributeSet_get_add:
  "AttributeSet_get (AttributeSet_add attrs aid v) k =
    (case AttributeSet_get attrs k of Some u \<Rightarrow> Some u | None \<Rightarrow> if k = aid then Some v else None)"
  by (induction attrs) (auto simp: AttributeSet_get_def AttributeSet_add_def)

end
