(* ===== verification/Native_Params.thy ===== *)
theory Native_Params
  imports Messages Attributes
begin

unbundle bit_operations_syntax

text \<open>
  The parameter encoder of prepared statements (\<open>src/transport/native/mod.rs\<close>): the wire
  type of each column, the value encoding, and the split of a parameter set into data
  messages that stay within the server's size limit. The text of a JSON value, its \<open>f64\<close>
  and the DECIMAL scaling that goes through \<open>f64::powi\<close> are parameters.
\<close>

record json_env =
  json_text :: "json \<Rightarrow> string"
  json_as_f64 :: "json \<Rightarrow> u64 option"
  float_scaled :: "json \<Rightarrow> i32 \<Rightarrow> i64"

record ParameterColumn =
  pc_name :: string
  wire_type :: u32
  pc_scale :: i32

text \<open>A Rust \<open>Range\<close> is the pair of its bounds.\<close>

record RowRange =
  rr_rows :: "nat \<times> nat"
  rr_bytes :: "nat \<times> nat"

record EncodedParameterRows =
  ep_columns :: "ParameterColumn list"
  ep_bytes :: "byte list"
  ep_ranges :: "RowRange list"

subsection \<open>Wire types\<close>

definition data_type_to_wire_type :: "DataType \<Rightarrow> u32" where
  "data_type_to_wire_type dt =
    (let n = type_name dt in
     if n = ''DECIMAL'' then T_DECIMAL
     else if n = ''DOUBLE'' then T_DOUBLE
     else if n = ''BOOLEAN'' then T_BOOLEAN
     else if n = ''VARCHAR'' \<or> n = ''CHAR'' then T_CHAR
     else if n = ''DATE'' then T_DATE
     else if n = ''TIMESTAMP'' \<or> n = ''TIMESTAMP WITH LOCAL TIME ZONE'' then T_TIMESTAMP
     else if n = ''GEOMETRY'' then T_GEOMETRY
     else if n = ''HASHTYPE'' then T_HASHTYPE
     else if n = ''INTERVAL YEAR TO MONTH'' then T_INTERVAL_YEAR
     else if n = ''INTERVAL DAY TO SECOND'' then T_INTERVAL_DAY
     else T_CHAR)"

fun json_value_to_wire_type :: "json \<Rightarrow> u32" where
  "json_value_to_wire_type JNull = T_CHAR"
| "json_value_to_wire_type (JBool _) = T_BOOLEAN"
| "json_value_to_wire_type (JFloat _) = T_DOUBLE"
| "json_value_to_wire_type (JPosInt _) = T_DECIMAL"
| "json_value_to_wire_type (JNegInt _) = T_DECIMAL"
| "json_value_to_wire_type (JString _) = T_CHAR"
| "json_value_to_wire_type (JArray _) = T_CHAR"
| "json_value_to_wire_type (JObject _) = T_CHAR"

definition decimal_metadata :: "PreparedStatementHandle \<Rightarrow> nat \<Rightarrow> i32 \<times> i32" where
  "decimal_metadata h i =
    (if i < length (parameter_types h) then
       let dt = parameter_types h ! i in
       (case dt_precision dt of Some p \<Rightarrow> p | None \<Rightarrow> 18, case dt_scale dt of Some s \<Rightarrow> s | None \<Rightarrow> 0)
     else (18, 0))"

definition infer_wire_type :: "PreparedStatementHandle \<Rightarrow> nat \<Rightarrow> json list \<Rightarrow> u32 \<times> string" where
  "infer_wire_type h i col_values =
    (let default_name = ''param'' @ show_nat i in
     if i < length (parameter_types h) then
       (data_type_to_wire_type (parameter_types h ! i),
        if i < length (parameter_names h)
        then (case parameter_names h ! i of Some n \<Rightarrow> n | None \<Rightarrow> default_name) else default_name)
     else (case col_values of [] \<Rightarrow> T_CHAR | v # _ \<Rightarrow> json_value_to_wire_type v, default_name))"

definition parameter_column :: "PreparedStatementHandle \<Rightarrow> nat \<times> json list \<Rightarrow> ParameterColumn" where
  "parameter_column h c =
    (let (wt, name) = infer_wire_type h (fst c) (snd c) in
     \<lparr>pc_name = name, wire_type = wt,
      pc_scale = (if wt = T_DECIMAL then snd (decimal_metadata h (fst c)) else 0)\<rparr>)"

definition parameter_columns :: "PreparedStatementHandle \<Rightarrow> json list list \<Rightarrow> ParameterColumn list" where
  "parameter_columns h cols = map (parameter_column h) (List.enumerate 0 cols)"

subsection \<open>Values\<close>

text \<open>
  \<open>scale_decimal_value\<close>: an integer with a non-negative scale is scaled exactly, with
  saturation at the bounds of \<open>i64\<close>; every other case is computed in \<open>f64\<close>.
  \<open>10i128.checked_pow(scale)\<close> succeeds up to 38.
\<close>

definition saturate_i64 :: "int \<Rightarrow> i64" where
  "saturate_i64 x = of_int (max (- (2 ^ 63)) (min (2 ^ 63 - 1) x))"

definition scale_decimal_value :: "json_env \<Rightarrow> json \<Rightarrow> i32 \<Rightarrow> i64" where
  "scale_decimal_value J value scale =
    (case json_as_i64 value of
      Some i \<Rightarrow>
        (if sint scale \<le> 0 then
           (if sint scale = 0 then of_int i else float_scaled J value scale)
         else if sint scale \<le> 38 then saturate_i64 (i * 10 ^ nat (sint scale))
         else float_scaled J value scale)
    | None \<Rightarrow> (case json_as_f64 J value of Some _ \<Rightarrow> float_scaled J value scale | None \<Rightarrow> 0))"

definition DATE_TEXT_FORM :: string where
  "DATE_TEXT_FORM = ''YYYY-MM-DD''"

definition TIMESTAMP_TEXT_FORM :: string where
  "TIMESTAMP_TEXT_FORM = ''YYYY-MM-DD HH:MI:SS.FFFFFFFFF''"

definition temporal_text :: "json_env \<Rightarrow> json \<Rightarrow> string \<Rightarrow> (TransportError, string) result" where
  "temporal_text J value form =
    (case json_as_str value of
      Some s \<Rightarrow> Inr s
    | None \<Rightarrow> fail (SerializationError (''Cannot read '' @ json_text J value
        @ '' as a date or timestamp, expected '' @ form)))"

definition write_length_prefixed :: "string \<Rightarrow> byte list" where
  "write_length_prefixed s = u32_to_le (of_nat (length s)) @ as_bytes s"

text \<open>The fields of a parsed text have at most four and two digits, so no cast truncates.\<close>

definition write_date :: "TemporalFields \<Rightarrow> byte list" where
  "write_date f = u32_to_le (of_nat (tf_year f * 2 ^ 16 + tf_month f * 2 ^ 8 + tf_day f))"

definition write_timestamp :: "TemporalFields \<Rightarrow> byte list" where
  "write_timestamp f = u16_to_le (of_nat (tf_year f))
    @ [of_nat (tf_month f), of_nat (tf_day f), of_nat (tf_hour f), of_nat (tf_minute f), of_nat (tf_second f)]
    @ u32_to_le (of_nat (tf_nanos f))"

definition write_param_value :: "json_env \<Rightarrow> u32 \<Rightarrow> json \<Rightarrow> i32 \<Rightarrow> (TransportError, byte list) result" where
  "write_param_value J wt value scale =
    (let empty_temporal = (wt = T_DATE \<or> wt = T_TIMESTAMP) \<and> json_as_str value = Some [] in
     if json_is_null value \<or> empty_temporal then Inr [0]
     else map_sum (\<lambda>e. e) (\<lambda>body. 1 # body)
      (if wt = T_BOOLEAN then Inr [if json_as_bool value = Some True then 1 else 0]
       else if wt = T_DOUBLE then Inr (u64_to_le (case json_as_f64 J value of Some d \<Rightarrow> d | None \<Rightarrow> 0))
       else if wt = T_DECIMAL then Inr (u64_to_le (scale_decimal_value J value scale))
       else if wt = T_DATE then
         rbind (temporal_text J value DATE_TEXT_FORM) (\<lambda>t.
         rbind (map_err SerializationError (parse_date_text t)) (\<lambda>f. Inr (write_date f)))
       else if wt = T_TIMESTAMP then
         rbind (temporal_text J value TIMESTAMP_TEXT_FORM) (\<lambda>t.
         rbind (map_err SerializationError (parse_timestamp_text t)) (\<lambda>f. Inr (write_timestamp f)))
       else Inr (write_length_prefixed (case value of JString s \<Rightarrow> s | _ \<Rightarrow> json_text J value))))"

subsection \<open>Rows\<close>

text \<open>\<open>col_values[row_idx]\<close> panics when a column has fewer rows than the first one.\<close>

fun write_row :: "json_env \<Rightarrow> (json list \<times> ParameterColumn) list \<Rightarrow> nat \<Rightarrow> (TransportError, byte list) result" where
  "write_row J [] row = Inr []"
| "write_row J ((vals, c) # cs) row =
    (if row < length vals then
       rbind (write_param_value J (wire_type c) (vals ! row) (pc_scale c)) (\<lambda>b.
       rbind (write_row J cs row) (\<lambda>bs. Inr (b @ bs)))
     else Inl Panic)"

text \<open>\<open>write_parameter_rows\<close> over the range from \<open>row\<close> to \<open>row + n\<close>.\<close>

fun write_parameter_rows :: "json_env \<Rightarrow> json list list \<Rightarrow> ParameterColumn list \<Rightarrow> nat \<Rightarrow> nat \<Rightarrow>
    (TransportError, byte list) result" where
  "write_parameter_rows J cols columns row 0 = Inr []"
| "write_parameter_rows J cols columns row (Suc n) =
    rbind (write_row J (zip cols columns) row) (\<lambda>b.
    rbind (write_parameter_rows J cols columns (Suc row) n) (\<lambda>bs. Inr (b @ bs)))"

subsection \<open>Payloads\<close>

definition PARAMETER_TABLE_COUNT :: i32 where "PARAMETER_TABLE_COUNT = 1"
definition IS_TABLE :: byte where "IS_TABLE = 1"

definition write_column_metadata :: "PreparedStatementHandle \<Rightarrow> nat \<Rightarrow> u32 \<Rightarrow> byte list" where
  "write_column_metadata h i wt =
    (if wt = T_CHAR then (IS_VARCHAR OR IS_UTF8) # u32_to_le 2000000 @ u32_to_le (2000000 * 4)
     else if wt = T_DECIMAL then
       (let (prec, scale) = decimal_metadata h i in u32_to_le prec @ u32_to_le scale)
     else if wt = T_TIMESTAMP then u32_to_le TIMESTAMP_PARAM_PRECISION
     else [])"

definition column_header :: "PreparedStatementHandle \<Rightarrow> nat \<times> ParameterColumn \<Rightarrow> byte list" where
  "column_header h c = write_length_prefixed (pc_name (snd c)) @ u32_to_le (wire_type (snd c))
    @ write_column_metadata h (fst c) (wire_type (snd c))"

definition payload_prefix :: "PreparedStatementHandle \<Rightarrow> ParameterColumn list \<Rightarrow> nat \<Rightarrow> byte list" where
  "payload_prefix h columns num_rows =
    u32_to_le (ps_handle h) @ u32_to_le PARAMETER_TABLE_COUNT @ [IS_TABLE]
    @ u32_to_le (of_nat (length columns)) @ u64_to_le (of_nat num_rows) @ u64_to_le (of_nat num_rows)
    @ concat (map (column_header h) (List.enumerate 0 columns))"

definition num_rows_of :: "json list list \<Rightarrow> nat" where
  "num_rows_of cols = (case cols of [] \<Rightarrow> 0 | c # _ \<Rightarrow> length c)"

definition build_execute_prepared_payload ::
  "json_env \<Rightarrow> PreparedStatementHandle \<Rightarrow> json list list option \<Rightarrow> (TransportError, byte list) result" where
  "build_execute_prepared_payload J h parameters =
    (let cols = (case parameters of Some c \<Rightarrow> c | None \<Rightarrow> []);
         num_rows = num_rows_of cols; columns = parameter_columns h cols in
     rbind (write_parameter_rows J cols columns 0 num_rows) (\<lambda>rows.
       Inr (payload_prefix h columns num_rows @ rows)))"

subsection \<open>Splitting into data messages\<close>

definition execute_prepared_attributes :: AttributeSet where
  "execute_prepared_attributes = AttributeSet_new"

definition message_overhead :: "PreparedStatementHandle \<Rightarrow> ParameterColumn list \<Rightarrow> nat" where
  "message_overhead h columns = HEADER_SIZE
    + length (AttributeSet_serialize execute_prepared_attributes) + length (payload_prefix h columns 0)"

text \<open>
  The loop of \<open>split_parameter_rows\<close>: \<open>n\<close> rows are left, \<open>first_row\<close> and \<open>first_byte\<close> are
  the start of the open range.
\<close>

fun split_loop :: "(nat \<Rightarrow> (TransportError, byte list) result) \<Rightarrow> nat \<Rightarrow> nat \<Rightarrow> nat \<Rightarrow> nat \<Rightarrow> nat \<times> nat \<Rightarrow>
    byte list \<Rightarrow> RowRange list \<Rightarrow> (TransportError, (nat \<times> nat) \<times> byte list \<times> RowRange list) result" where
  "split_loop wr overhead limit 0 row start bytes ranges = Inr (start, bytes, ranges)"
| "split_loop wr overhead limit (Suc n) row (first_row, first_byte) bytes ranges =
    rbind (wr row) (\<lambda>b.
      let row_start = length bytes; bytes' = bytes @ b in
      if first_row < row \<and> limit < overhead + (length bytes' - first_byte) then
        split_loop wr overhead limit n (Suc row) (row, row_start) bytes'
          (ranges @ [\<lparr>rr_rows = (first_row, row), rr_bytes = (first_byte, row_start)\<rparr>])
      else split_loop wr overhead limit n (Suc row) (first_row, first_byte) bytes' ranges)"

definition split_parameter_rows ::
  "json_env \<Rightarrow> PreparedStatementHandle \<Rightarrow> json list list \<Rightarrow> nat \<Rightarrow> (TransportError, EncodedParameterRows) result" where
  "split_parameter_rows J h cols limit =
    (let num_rows = num_rows_of cols; columns = parameter_columns h cols;
         wr = (\<lambda>row. write_parameter_rows J cols columns row 1) in
     rbind (split_loop wr (message_overhead h columns) limit num_rows 0 (0, 0) [] [])
       (\<lambda>((first_row, first_byte), bytes, ranges).
        Inr \<lparr>ep_columns = columns, ep_bytes = bytes,
             ep_ranges = (if 0 < num_rows
               then ranges @ [\<lparr>rr_rows = (first_row, num_rows), rr_bytes = (first_byte, length bytes)\<rparr>]
               else ranges)\<rparr>))"

definition build_range_payload ::
  "PreparedStatementHandle \<Rightarrow> EncodedParameterRows \<Rightarrow> RowRange \<Rightarrow> (TransportError, byte list) result" where
  "build_range_payload h encoded rng =
    rbind (slice (ep_bytes encoded) (fst (rr_bytes rng)) (snd (rr_bytes rng))) (\<lambda>b.
      Inr (payload_prefix h (ep_columns encoded) (snd (rr_rows rng) - fst (rr_rows rng)) @ b))"

end
