(* ===== verification/Params_Laws.thy ===== *)
theory Params_Laws
  imports Native_Params Column_Laws
begin

text \<open>
  Laws of the parameter encoder. The split of a parameter set covers every row once and in
  order, each range's payload is the payload those rows alone would have, and a range's
  message stays within the limit unless it is a single row.
\<close>

subsection \<open>Rows as a whole and one by one\<close>

lemma write_parameter_rows_add:
  "write_parameter_rows J cols columns row (m + n) =
    rbind (write_parameter_rows J cols columns row m) (\<lambda>a.
    rbind (write_parameter_rows J cols columns (row + m) n) (\<lambda>b. Inr (a @ b)))"
  by (induction m arbitrary: row) (simp_all add: rbind_assoc)

lemma write_parameter_rows_one:
  "write_parameter_rows J cols columns row 1 = write_row J (zip cols columns) row"
  by simp

text \<open>When each row encodes to \<open>R row\<close>, a run of rows encodes to their concatenation.\<close>

definition run_bytes :: "(nat \<Rightarrow> byte list) \<Rightarrow> nat \<Rightarrow> nat \<Rightarrow> byte list" where
  "run_bytes R a b = concat (map R [a..<b])"

lemma run_bytes_simps [simp]:
  "run_bytes R a a = []" "a \<le> b \<Longrightarrow> run_bytes R a (Suc b) = run_bytes R a b @ R b"
  by (simp_all add: run_bytes_def)

lemma run_bytes_append: "a \<le> b \<Longrightarrow> b \<le> c \<Longrightarrow> run_bytes R a b @ run_bytes R b c = run_bytes R a c"
  unfolding run_bytes_def by (metis concat_append map_append upt_add_eq_append le_add_diff_inverse)

lemma write_parameter_rows_run:
  assumes "\<And>i. a \<le> i \<Longrightarrow> i < a + n \<Longrightarrow> write_parameter_rows J cols columns i 1 = Inr (R i)"
  shows "write_parameter_rows J cols columns a n = Inr (run_bytes R a (a + n))"
  using assms
proof (induction n)
  case (Suc n)
  then have "write_parameter_rows J cols columns a (n + 1) = Inr (run_bytes R a (a + n) @ R (a + n))"
    by (subst write_parameter_rows_add) simp
  then show ?case by simp
qed simp

subsection \<open>The split loop\<close>

text \<open>What holds of a finished range.\<close>

definition range_ok :: "(nat \<Rightarrow> byte list) \<Rightarrow> nat \<Rightarrow> nat \<Rightarrow> RowRange \<Rightarrow> bool" where
  "range_ok R overhead limit r \<longleftrightarrow>
    (let (p, q) = rr_rows r in p < q \<and>
      rr_bytes r = (length (run_bytes R 0 p), length (run_bytes R 0 q)) \<and>
      (overhead + length (run_bytes R p q) \<le> limit \<or> q = p + 1))"

definition rows_of :: "RowRange list \<Rightarrow> nat list" where
  "rows_of rs = concat (map (\<lambda>r. [fst (rr_rows r)..<snd (rr_rows r)]) rs)"

lemma rows_of_snoc: "rows_of (rs @ [r]) = rows_of rs @ [fst (rr_rows r)..<snd (rr_rows r)]"
  by (simp add: rows_of_def)

text \<open>The loop invariant: the rows before \<open>row\<close> are encoded, and all but the open range are cut.\<close>

definition split_inv :: "(nat \<Rightarrow> (TransportError, byte list) result) \<Rightarrow> (nat \<Rightarrow> byte list) \<Rightarrow> nat \<Rightarrow> nat \<Rightarrow>
    nat \<Rightarrow> nat \<times> nat \<Rightarrow> byte list \<Rightarrow> RowRange list \<Rightarrow> bool" where
  "split_inv wr R overhead limit row start bytes ranges \<longleftrightarrow>
    (\<forall>i < row. wr i = Inr (R i)) \<and> bytes = run_bytes R 0 row
    \<and> rows_of ranges = [0..<fst start] \<and> list_all (range_ok R overhead limit) ranges
    \<and> snd start = length (run_bytes R 0 (fst start)) \<and> (if row = 0 then fst start = 0 else
      fst start < row \<and> (overhead + length (run_bytes R (fst start) row) \<le> limit \<or> row = fst start + 1))"

lemma split_inv_start: "split_inv wr R overhead limit 0 (0, 0) [] []"
  by (simp add: split_inv_def rows_of_def)

lemma split_inv_row:
  assumes "split_inv wr R overhead limit row (fr, fb) bytes ranges" "wr row = Inr (R row)"
  shows "\<forall>i < Suc row. wr i = Inr (R i)" "bytes @ R row = run_bytes R 0 (Suc row)" "fr \<le> row"
    "length (bytes @ R row) - fb = length (run_bytes R fr (Suc row))"
proof -
  show *: "\<forall>i < Suc row. wr i = Inr (R i)" "bytes @ R row = run_bytes R 0 (Suc row)" "fr \<le> row"
    using assms by (auto simp: split_inv_def less_Suc_eq split: if_splits)
  have "run_bytes R 0 (Suc row) = run_bytes R 0 fr @ run_bytes R fr (Suc row)"
    using *(3) by (intro run_bytes_append [symmetric]) simp_all
  moreover have "fb = length (run_bytes R 0 fr)" using assms(1) by (simp add: split_inv_def)
  ultimately show "length (bytes @ R row) - fb = length (run_bytes R fr (Suc row))"
    unfolding *(2) by simp
qed

lemma split_inv_close:
  assumes inv: "split_inv wr R overhead limit row (fr, fb) bytes ranges" and "wr row = Inr (R row)" and "fr < row"
  shows "split_inv wr R overhead limit (Suc row) (row, length bytes) (bytes @ R row)
    (ranges @ [\<lparr>rr_rows = (fr, row), rr_bytes = (fb, length bytes)\<rparr>])"
proof -
  note r = split_inv_row [OF assms(1,2)]
  have "[0..<fr] @ [fr..<row] = [0..<row]" using assms(3) upt_add_eq_append [of 0 fr "row - fr"] by simp
  moreover have "range_ok R overhead limit \<lparr>rr_rows = (fr, row), rr_bytes = (fb, length bytes)\<rparr>"
    using inv assms(3) by (auto simp: range_ok_def split_inv_def)
  ultimately show ?thesis
    using inv r by (simp add: split_inv_def rows_of_snoc)
qed

lemma split_inv_extend:
  assumes inv: "split_inv wr R overhead limit row (fr, fb) bytes ranges" and "wr row = Inr (R row)"
    and "\<not> (fr < row \<and> limit < overhead + (length (bytes @ R row) - fb))"
  shows "split_inv wr R overhead limit (Suc row) (fr, fb) (bytes @ R row) ranges"
proof -
  note r = split_inv_row [OF assms(1,2)]
  have "overhead + length (run_bytes R fr (Suc row)) \<le> limit \<or> Suc row = fr + 1"
    using assms(3) r(3) unfolding r(4) by auto
  then show ?thesis
    unfolding split_inv_def fst_conv snd_conv using r(1-3) inv by (simp add: split_inv_def less_Suc_eq_le)
qed

lemma split_loop_inv:
  assumes R: "\<And>i b. wr i = Inr b \<Longrightarrow> R i = b"
    and "split_inv wr R overhead limit row start bytes ranges"
    and "split_loop wr overhead limit n row start bytes ranges = Inr (start', bytes', ranges')"
  shows "split_inv wr R overhead limit (row + n) start' bytes' ranges'"
  using assms(2,3)
proof (induction n arbitrary: row start bytes ranges)
  case (Suc n)
  obtain fr fb where st: "start = (fr, fb)" by (cases start)
  obtain b where "wr row = Inr b" using Suc.prems(2) by (cases "wr row") (simp_all add: st)
  then have b: "wr row = Inr (R row)" using R by blast
  note inv = Suc.prems(1) [unfolded st]
  show ?case
  proof (cases "fr < row \<and> limit < overhead + (length (bytes @ R row) - fb)")
    case True
    then have "fr < row" by simp
    have run: "split_loop wr overhead limit n (Suc row) (row, length bytes) (bytes @ R row)
        (ranges @ [\<lparr>rr_rows = (fr, row), rr_bytes = (fb, length bytes)\<rparr>]) = Inr (start', bytes', ranges')"
      using Suc.prems(2) True unfolding st by (simp add: b Let_def)
    show ?thesis using Suc.IH [OF split_inv_close [OF inv b \<open>fr < row\<close>] run] by simp
  next
    case False
    then have run: "split_loop wr overhead limit n (Suc row) (fr, fb) (bytes @ R row) ranges = Inr (start', bytes', ranges')"
      using Suc.prems(2) unfolding st by (auto simp add: b Let_def)
    show ?thesis using Suc.IH [OF split_inv_extend [OF inv b False] run] by simp
  qed
qed simp

subsection \<open>The split of a parameter set\<close>

definition row_bytes :: "json_env \<Rightarrow> PreparedStatementHandle \<Rightarrow> json list list \<Rightarrow> nat \<Rightarrow> byte list" where
  "row_bytes J h cols i =
    (case write_parameter_rows J cols (parameter_columns h cols) i 1 of Inr b \<Rightarrow> b | Inl _ \<Rightarrow> [])"

lemma split_parameter_rows_inv:
  assumes "split_parameter_rows J h cols limit = Inr e"
  defines "R \<equiv> row_bytes J h cols" and "overhead \<equiv> message_overhead h (parameter_columns h cols)"
  shows "ep_columns e = parameter_columns h cols" "ep_bytes e = run_bytes R 0 (num_rows_of cols)"
    "rows_of (ep_ranges e) = [0..<num_rows_of cols]" "list_all (range_ok R overhead limit) (ep_ranges e)"
    "\<forall>i < num_rows_of cols. write_parameter_rows J cols (parameter_columns h cols) i 1 = Inr (R i)"
proof -
  let ?n = "num_rows_of cols" and ?wr = "\<lambda>i. write_parameter_rows J cols (parameter_columns h cols) i 1"
  obtain fr fb bytes ranges where run: "split_loop ?wr overhead limit ?n 0 (0, 0) [] [] = Inr ((fr, fb), bytes, ranges)"
    and e: "e = \<lparr>ep_columns = parameter_columns h cols, ep_bytes = bytes, ep_ranges = (if 0 < ?n
      then ranges @ [\<lparr>rr_rows = (fr, ?n), rr_bytes = (fb, length bytes)\<rparr>] else ranges)\<rparr>"
    using assms(1) by (auto simp: split_parameter_rows_def Let_def res_simps overhead_def simp del: write_parameter_rows.simps)
  have "split_inv ?wr R overhead limit (0 + ?n) (fr, fb) bytes ranges"
    by (rule split_loop_inv [OF _ split_inv_start run]) (simp add: R_def row_bytes_def del: write_parameter_rows.simps)
  then have inv: "split_inv ?wr R overhead limit ?n (fr, fb) bytes ranges" by simp
  show "ep_columns e = parameter_columns h cols" by (simp add: e)
  show "ep_bytes e = run_bytes R 0 ?n" "\<forall>i < ?n. ?wr i = Inr (R i)"
    using inv by (simp_all add: e split_inv_def)
  show "rows_of (ep_ranges e) = [0..<?n]"
  proof (cases "?n = 0")
    case False
    then have "[0..<fr] @ [fr..<?n] = [0..<?n]"
      using inv upt_add_eq_append [of 0 fr "?n - fr"] by (auto simp: split_inv_def)
    then show ?thesis using False inv by (simp add: e rows_of_snoc split_inv_def)
  qed (use inv in \<open>simp add: e split_inv_def\<close>)
  show "list_all (range_ok R overhead limit) (ep_ranges e)"
    using inv by (auto simp: e split_inv_def range_ok_def split: if_splits)
qed

lemma length_payload_prefix: "length (payload_prefix h columns n) = length (payload_prefix h columns m)"
  by (simp add: payload_prefix_def)

text \<open>A range's payload is the payload of its rows, and its message is within the limit.\<close>

lemma range_payload:
  assumes e: "split_parameter_rows J h cols limit = Inr e" and r: "r \<in> set (ep_ranges e)"
  shows "\<exists>p q rows. rr_rows r = (p, q) \<and> p < q \<and> q \<le> num_rows_of cols
    \<and> write_parameter_rows J cols (parameter_columns h cols) p (q - p) = Inr rows
    \<and> build_range_payload h e r = Inr (payload_prefix h (parameter_columns h cols) (q - p) @ rows)
    \<and> (HEADER_SIZE + length (AttributeSet_serialize execute_prepared_attributes)
        + length (payload_prefix h (parameter_columns h cols) (q - p) @ rows) \<le> limit \<or> q = p + 1)"
proof -
  let ?cs = "parameter_columns h cols" and ?R = "row_bytes J h cols"
  note inv = split_parameter_rows_inv [OF e]
  obtain p q where rr: "rr_rows r = (p, q)" by (cases "rr_rows r")
  have "range_ok ?R (message_overhead h ?cs) limit r" using inv(4) r by (simp add: list_all_iff)
  then have ok: "p < q" "rr_bytes r = (length (run_bytes ?R 0 p), length (run_bytes ?R 0 q))"
    "message_overhead h ?cs + length (run_bytes ?R p q) \<le> limit \<or> q = p + 1"
    using rr by (simp_all add: range_ok_def)
  have "set (rows_of (ep_ranges e)) = {0..<num_rows_of cols}" using inv(3) by simp
  moreover have "q - 1 \<in> set (rows_of (ep_ranges e))" using r rr ok(1) by (force simp: rows_of_def)
  ultimately have q: "q \<le> num_rows_of cols" by auto
  have rows: "write_parameter_rows J cols ?cs p (q - p) = Inr (run_bytes ?R p q)"
    using write_parameter_rows_run [of p "q - p" J cols ?cs ?R] inv(5) q ok(1) by (simp del: write_parameter_rows.simps)
  have cut: "run_bytes ?R 0 (num_rows_of cols) = run_bytes ?R 0 p @ run_bytes ?R p q @ run_bytes ?R q (num_rows_of cols)"
    using q ok(1) by (simp add: run_bytes_append)
  have pq: "run_bytes ?R 0 q = run_bytes ?R 0 p @ run_bytes ?R p q" using ok(1) by (simp add: run_bytes_append)
  have "(slice (ep_bytes e) (fst (rr_bytes r)) (snd (rr_bytes r)) :: (TransportError, byte list) result)
      = Inr (run_bytes ?R p q)"
    unfolding inv(2) cut ok(2) fst_conv snd_conv pq by (simp add: slice_def)
  then have "build_range_payload h e r = Inr (payload_prefix h ?cs (q - p) @ run_bytes ?R p q)"
    by (simp add: build_range_payload_def inv(1) rr)
  then show ?thesis
    using rr ok q rows length_payload_prefix [of h ?cs "q - p" 0] by (auto simp: message_overhead_def)
qed

subsection \<open>Values: the encoder writes what the decoder reads\<close>

text \<open>
  A parameter value is written in the layout of the same value in a result column, so the
  decoder of result columns reads it back.
\<close>

lemma write_param_text:
  assumes "wt \<notin> {T_BOOLEAN, T_DOUBLE, T_DECIMAL, T_DATE, T_TIMESTAMP}"
  shows "write_param_value J wt (JString s) scale = Inr (enc_nullable (Some (WText s)))"
  using assms by (simp add: write_param_value_def write_length_prefixed_def enc_bytes_def Let_def)

lemma write_param_null: "write_param_value J wt JNull scale = Inr (enc_nullable None)"
  by (simp add: write_param_value_def)

lemma write_param_boolean: "write_param_value J T_BOOLEAN (JBool b) scale = Inr (enc_nullable (Some (WBool b)))"
  by (simp add: write_param_value_def Let_def const_defs)

lemma sint_range_i64: "- (2 ^ 63) \<le> sint (w :: i64) \<and> sint w \<le> 2 ^ 63 - 1"
  using sint_greater_eq [of w] sint_less [of w] by simp

text \<open>An integer bound to a DECIMAL of scale \<open>k\<close> is sent as its multiple by \<open>10 ^ k\<close>.\<close>

lemma json_as_i64_facts:
  assumes "json_as_i64 v = Some i"
  shows "\<not> json_is_null v" "json_as_str v = None"
  using assms by (cases v; simp)+

lemma clamp_range: "(l :: int) \<le> i \<Longrightarrow> i \<le> u \<Longrightarrow> max l (min u i) = i"
  by simp

lemma json_as_i64_range:
  assumes "json_as_i64 v = Some i"
  shows "- (2 ^ 63) \<le> i \<and> i \<le> 2 ^ 63 - 1"
proof (cases v)
  case (JPosInt n)
  then have "unat n < 2 ^ 63" "i = int (unat n)" using assms by (simp_all split: if_splits)
  then have "0 \<le> i" "i < int (2 ^ 63)" by (simp_all only: of_nat_less_iff of_nat_0_le_iff)
  then show ?thesis by simp
next
  case (JNegInt n)
  then show ?thesis using assms sint_range_i64 [of n] by simp
qed (use assms in simp_all)

lemma scale_decimal_integer:
  assumes "json_as_i64 v = Some i" "0 \<le> sint scale" "sint scale \<le> 38"
  shows "scale_decimal_value J v scale = saturate_i64 (i * 10 ^ nat (sint scale))"
proof (cases "sint scale = 0")
  case True
  then show ?thesis
    using assms(1) json_as_i64_range [OF assms(1)]
    by (simp only: scale_decimal_value_def saturate_i64_def clamp_range option.case nat_0 power_0 mult_1_right if_True order_refl refl)
next
  case False
  then show ?thesis using assms by (simp add: scale_decimal_value_def)
qed

lemma write_param_decimal:
  assumes "json_as_i64 v = Some i" "0 \<le> sint scale" "sint scale \<le> 38"
  shows "write_param_value J T_DECIMAL v scale
    = Inr (1 # u64_to_le (of_int (max (- (2 ^ 63)) (min (2 ^ 63 - 1) (i * 10 ^ nat (sint scale))))))"
  using json_as_i64_facts [OF assms(1)]
  by (simp add: write_param_value_def const_defs scale_decimal_integer [OF assms] saturate_i64_def Let_def)

lemma digits_pad_show: "n < 10 ^ w \<Longrightarrow> w = 2 \<or> w = 4 \<Longrightarrow> digits (pad_zero w (show_nat n)) w = Some n"
proof -
  assume n: "n < 10 ^ w" and w: "w = 2 \<or> w = 4"
  have "length (pad_zero w (show_nat n)) = w"
    using n w by (intro length_pad_zero length_show_nat) auto
  moreover have "n \<le> 4294967295" using n w by auto
  ultimately show ?thesis
    by (simp add: digits_def parse_unsigned_digits [OF parse_digits_pad_show])
qed

definition date_fields :: "date \<Rightarrow> TemporalFields" where
  "date_fields t = (case t of (y, m, d) \<Rightarrow> \<lparr>tf_year = nat y, tf_month = m, tf_day = d, tf_hour = 0,
    tf_minute = 0, tf_second = 0, tf_nanos = 0\<rparr>)"

lemma parse_temporal_iso_date:
  assumes "exasol_date (y, m, d)"
  shows "parse_temporal_fields (iso_date (y, m, d)) = Some (date_fields (y, m, d))"
proof -
  note b = exasol_date_bounds [OF assms]
  let ?Y = "pad_zero 4 (show_nat (nat y))" and ?M = "pad_zero 2 (show_nat m)" and ?D = "pad_zero 2 (show_nat d)"
  have no: "c \<notin> set (pad_zero w (show_nat n))" if "\<not> is_ascii_digit c" for c w n
    using that by (intro digits_no_char) simp_all
  have iso: "iso_date (y, m, d) = ?Y @ ''-'' @ ?M @ ''-'' @ ?D" by (simp add: iso_date_def)
  have sp: "CHR '' '' \<notin> set (iso_date (y, m, d))" using no unfolding iso by auto
  have trim: "trim_matches (CHR '' '') (iso_date (y, m, d)) = iso_date (y, m, d)"
    using sp by (intro trim_matches_id) (metis hd_in_set last_in_set)
  have split: "split_on (CHR ''-'') (iso_date (y, m, d)) = [?Y, ?M, ?D]"
    using no unfolding iso by (simp add: text_simps)
  have "digits ?Y 4 = Some (nat y)" "digits ?M 2 = Some m" "digits ?D 2 = Some d"
    using b(1-3) nat_less_iff [of y 10000] by (intro digits_pad_show; simp)+
  then show ?thesis
    by (simp add: parse_temporal_fields_def trim split_once_no_sep [OF sp] split date_fields_def)
qed

lemma write_param_date:
  assumes "exasol_date t"
  shows "write_param_value J T_DATE (JString (iso_date t)) scale = Inr (enc_nullable (Some (WDate t)))"
proof -
  obtain y m d where t: "t = (y, m, d)" by (cases t) auto
  note b = exasol_date_bounds [OF assms [unfolded t]]
  have ne: "iso_date (y, m, d) \<noteq> []" by (simp add: iso_date_def)
  have p: "parse_date_text (iso_date (y, m, d)) = Inr (date_fields (y, m, d))"
    using parse_temporal_iso_date [OF assms [unfolded t]]
    by (simp add: parse_date_text_def parse_or_def date_fields_def)
  have "(of_nat (nat y * 2 ^ 16 + m * 2 ^ 8 + d) :: u32) = of_int (y * 65536 + int m * 256 + int d)"
  proof -
    have "int (nat y * 2 ^ 16 + m * 2 ^ 8 + d) = y * 65536 + int m * 256 + int d" using b(1) by simp
    then show ?thesis by (metis of_int_of_nat_eq)
  qed
  then have "write_date (date_fields (y, m, d)) = enc_value (WDate (y, m, d))"
    by (simp add: write_date_def date_fields_def)
  then show ?thesis
    using ne p unfolding t
    by (simp add: write_param_value_def temporal_text_def Let_def const_defs)
qed

end
