(* ===== verification/Encryption.thy ===== *)
theory Encryption
  imports Constants Errors
begin

unbundle bit_operations_syntax

text \<open>
  ChaCha20 encryption of message payloads (\<open>src/transport/native/encryption.rs\<close>). The
  cipher itself is the \<open>chacha20\<close> crate, a parameter \<open>C\<close> of the definitions with the two
  calls the driver makes; \<open>stream_cipher C\<close> states what the crate documents of them.
  Lemmas: without keys both directions are the identity, and two encryptors that hold
  each other's keys stay in step over any sequence of messages.
\<close>

record 's cipher =
  new_from_slices :: "byte list \<Rightarrow> byte list \<Rightarrow> 's option"
  apply_keystream :: "'s \<Rightarrow> byte list \<Rightarrow> (byte list \<times> 's) option"

text \<open>
  Applying the keystream keeps the length, and applying it again from the same state undoes
  it and advances the state alike: the keystream is combined with the data by XOR. No data
  uses no keystream.
\<close>

definition stream_cipher :: "'s cipher \<Rightarrow> bool" where
  "stream_cipher C \<longleftrightarrow>
    (\<forall>s d d' s'. apply_keystream C s d = Some (d', s') \<longrightarrow>
      length d' = length d \<and> apply_keystream C s d' = Some (d, s'))
    \<and> (\<forall>s. apply_keystream C s [] = Some ([], s))"

record 's ChaCha20Encryptor =
  send_cipher :: "'s option"
  recv_cipher :: "'s option"

definition ChaCha20State_new :: "'s cipher \<Rightarrow> byte list \<Rightarrow> (TransportError, 's) result" where
  "ChaCha20State_new C key =
    (case new_from_slices C key (replicate 12 0) of None \<Rightarrow> Inl Panic | Some s \<Rightarrow> Inr s)"

definition ChaCha20State_apply :: "'s cipher \<Rightarrow> 's \<Rightarrow> byte list \<Rightarrow> (TransportError, byte list \<times> 's) result" where
  "ChaCha20State_apply C s d =
    (case apply_keystream C s d of None \<Rightarrow> Inl Panic | Some r \<Rightarrow> Inr r)"

definition Encryptor_new :: "'s ChaCha20Encryptor" where
  "Encryptor_new = \<lparr>send_cipher = None, recv_cipher = None\<rparr>"

definition set_keys ::
  "'s cipher \<Rightarrow> byte list \<Rightarrow> byte list \<Rightarrow> 's ChaCha20Encryptor \<Rightarrow> (TransportError, 's ChaCha20Encryptor) result" where
  "set_keys C send_key recv_key e =
    rbind (ChaCha20State_new C send_key) (\<lambda>s.
    rbind (ChaCha20State_new C recv_key) (\<lambda>r.
    Inr (e\<lparr>send_cipher := Some s, recv_cipher := Some r\<rparr>)))"

definition encrypt ::
  "'s cipher \<Rightarrow> 's ChaCha20Encryptor \<Rightarrow> byte list \<Rightarrow> (TransportError, byte list \<times> 's ChaCha20Encryptor) result" where
  "encrypt C e d = (case send_cipher e of
      None \<Rightarrow> Inr (d, e)
    | Some s \<Rightarrow> rbind (ChaCha20State_apply C s d) (\<lambda>(d', s'). Inr (d', e\<lparr>send_cipher := Some s'\<rparr>)))"

definition decrypt ::
  "'s cipher \<Rightarrow> 's ChaCha20Encryptor \<Rightarrow> byte list \<Rightarrow> (TransportError, byte list \<times> 's ChaCha20Encryptor) result" where
  "decrypt C e d = (case recv_cipher e of
      None \<Rightarrow> Inr (d, e)
    | Some s \<Rightarrow> rbind (ChaCha20State_apply C s d) (\<lambda>(d', s'). Inr (d', e\<lparr>recv_cipher := Some s'\<rparr>)))"

definition is_active :: "'s ChaCha20Encryptor \<Rightarrow> bool" where
  "is_active e \<longleftrightarrow> send_cipher e \<noteq> None \<and> recv_cipher e \<noteq> None"

text \<open>A sequence of messages through one direction of an encryptor, in order.\<close>

fun run_messages ::
  "('e \<Rightarrow> byte list \<Rightarrow> ('x, byte list \<times> 'e) result) \<Rightarrow> 'e \<Rightarrow> byte list list \<Rightarrow>
    ('x, byte list list \<times> 'e) result" where
  "run_messages f e [] = Inr ([], e)"
| "run_messages f e (m # ms) =
    rbind (f e m) (\<lambda>(c, e'). rbind (run_messages f e' ms) (\<lambda>(cs, e''). Inr (c # cs, e'')))"

text \<open>Peers: what one sends with is what the other receives with, in both directions.\<close>

definition in_step :: "'s ChaCha20Encryptor \<Rightarrow> 's ChaCha20Encryptor \<Rightarrow> bool" where
  "in_step a b \<longleftrightarrow> send_cipher a = recv_cipher b \<and> recv_cipher a = send_cipher b"

lemma stream_cipherD:
  "stream_cipher C \<Longrightarrow> apply_keystream C s d = Some (d', s') \<Longrightarrow>
    length d' = length d \<and> apply_keystream C s d' = Some (d, s')"
  unfolding stream_cipher_def by blast

lemma set_keys_in_step:
  assumes "set_keys C k l a = Inr a'" "set_keys C l k b = Inr b'"
  shows "in_step a' b' \<and> is_active a' \<and> is_active b'"
  using assms by (auto simp: set_keys_def res_simps in_step_def is_active_def)

lemma encrypt_inactive: "send_cipher e = None \<Longrightarrow> encrypt C e d = Inr (d, e)"
  by (simp add: encrypt_def)

lemma decrypt_inactive: "recv_cipher e = None \<Longrightarrow> decrypt C e d = Inr (d, e)"
  by (simp add: decrypt_def)

lemma crypt_nothing:
  assumes "stream_cipher C"
  shows "encrypt C e [] = Inr ([], e)" "decrypt C e [] = Inr ([], e)"
  using assms by (simp_all add: stream_cipher_def encrypt_def decrypt_def ChaCha20State_apply_def split: option.split)

lemma encrypt_length:
  assumes "stream_cipher C" "encrypt C e d = Inr (c, e')"
  shows "length c = length d"
proof (cases "send_cipher e")
  case None
  with assms(2) show ?thesis by (simp add: encrypt_def)
next
  case (Some s)
  with assms(2) obtain s' where "apply_keystream C s d = Some (c, s')"
    by (auto simp: encrypt_def ChaCha20State_apply_def res_simps split: option.splits)
  from stream_cipherD [OF assms(1) this] show ?thesis by simp
qed

lemma encrypt_decrypt_step:
  assumes "stream_cipher C" "in_step a b" "encrypt C a d = Inr (c, a')"
  shows "\<exists>b'. decrypt C b c = Inr (d, b') \<and> in_step a' b'"
proof (cases "send_cipher a")
  case None
  then show ?thesis using assms(2,3) by (auto simp: encrypt_def decrypt_def in_step_def)
next
  case (Some s)
  with assms(3) obtain s' where ks: "apply_keystream C s d = Some (c, s')"
    and a': "a' = a\<lparr>send_cipher := Some s'\<rparr>"
    by (auto simp: encrypt_def ChaCha20State_apply_def res_simps split: option.splits)
  from stream_cipherD [OF assms(1) ks] have "apply_keystream C s c = Some (d, s')" by simp
  moreover have "recv_cipher b = Some s" using Some assms(2) by (simp add: in_step_def)
  ultimately show ?thesis using assms(2) a'
    by (simp add: decrypt_def ChaCha20State_apply_def in_step_def)
qed

lemma run_messages_in_step:
  assumes "stream_cipher C" "in_step a b" "run_messages (encrypt C) a ms = Inr (cs, a')"
  shows "\<exists>b'. run_messages (decrypt C) b cs = Inr (ms, b') \<and> in_step a' b'"
  using assms(2,3)
proof (induction ms arbitrary: a b cs)
  case (Cons m ms)
  from Cons.prems(2) obtain c a1 cs1 where enc: "encrypt C a m = Inr (c, a1)"
    and rest: "run_messages (encrypt C) a1 ms = Inr (cs1, a')" and cs: "cs = c # cs1"
    by (auto simp: res_simps)
  from encrypt_decrypt_step [OF assms(1) Cons.prems(1) enc] obtain b1
    where dec: "decrypt C b c = Inr (m, b1)" and step: "in_step a1 b1" by blast
  from Cons.IH [OF step rest] obtain b' where
    "run_messages (decrypt C) b1 cs1 = Inr (ms, b')" "in_step a' b'" by blast
  with dec show ?case by (auto simp: cs)
qed auto

subsection \<open>A concrete stream cipher\<close>

text \<open>
  The repeated 32-byte key as keystream: it satisfies the documented laws, so the
  hypothesis on the cipher can hold.
\<close>

fun xor_from :: "byte list \<Rightarrow> nat \<Rightarrow> byte list \<Rightarrow> byte list" where
  "xor_from k n [] = []"
| "xor_from k n (b # bs) = (b XOR (k ! (n mod 32))) # xor_from k (Suc n) bs"

definition vernam :: "(byte list \<times> nat) cipher" where
  "vernam = \<lparr>new_from_slices = (\<lambda>k n. if length k = 32 \<and> length n = 12 then Some (k, 0) else None),
    apply_keystream = (\<lambda>(k, n) d. Some (xor_from k n d, (k, n + length d)))\<rparr>"

lemma length_xor_from [simp]: "length (xor_from k n d) = length d"
  by (induction d arbitrary: n) simp_all

lemma xor_from_twice [simp]: "xor_from k n (xor_from k n d) = d"
  by (induction d arbitrary: n) (simp_all add: xor.assoc)

lemma stream_cipher_vernam: "stream_cipher vernam"
  by (auto simp: stream_cipher_def vernam_def)

end
