(* ===== verification/Handshake.thy ===== *)
theory Handshake
  imports Attributes Encryption Messages
begin

unbundle bit_operations_syntax

text \<open>
  The login messages (\<open>src/transport/native/handshake.rs\<close>): the login packet, the parse of
  the server's RSA key in its two formats, Exasol's password encoding (interleave with the
  random phrase, then raw RSA on 64-byte blocks) and the authentication message. The
  arithmetic of the \<open>num-bigint\<close> crate and the random generator are parameters.
\<close>

record 'n login_env =
  from_bytes_be :: "byte list \<Rightarrow> 'n"
  to_bytes_be :: "'n \<Rightarrow> byte list"
  bits_zero :: "'n \<Rightarrow> bool"
  modpow :: "'n \<Rightarrow> 'n \<Rightarrow> 'n \<Rightarrow> 'n option"
  rng_fill :: "nat \<Rightarrow> nat \<Rightarrow> byte list option"
  os_name :: string

text \<open>\<open>rng_fill k n\<close> is the result of the \<open>k\<close>-th request of a login for \<open>n\<close> random bytes.\<close>

definition DRIVER_NAME :: string where "DRIVER_NAME = ''exarrow-rs''"

definition login_attributes :: "'n login_env \<Rightarrow> Credentials \<Rightarrow> AttributeSet" where
  "login_attributes L c =
    (let a = AttributeSet_new;
         a = AttributeSet_add a ATTR_USERNAME (AString (username c));
         a = AttributeSet_add a ATTR_CLIENTNAME (AString (client_name c));
         a = AttributeSet_add a ATTR_DRIVERNAME (AString DRIVER_NAME);
         a = AttributeSet_add a ATTR_CLIENTOS (AString (os_name L));
         a = AttributeSet_add a ATTR_CLIENTVERSION (AString (client_version c))
     in AttributeSet_add a ATTR_TSUTC_ENABLED (ABool True))"

definition build_login_packet :: "'n login_env \<Rightarrow> Credentials \<Rightarrow> byte list" where
  "build_login_packet L c =
    (let attr_bytes = AttributeSet_serialize (login_attributes L c);
         msg_len = 8 + of_nat (length attr_bytes) in
     u32_to_le LOGIN_MAGIC @ u32_to_le msg_len @ u32_to_le PROTOCOL_VERSION @ u32_to_le CHANGE_DATE
     @ attr_bytes)"

subsection \<open>RSA keys\<close>

definition protocol_error :: "string \<Rightarrow> (TransportError, 'a) result" where
  "protocol_error msg = fail (ProtocolError msg)"

fun be_value :: "nat \<Rightarrow> byte list \<Rightarrow> nat" where
  "be_value acc [] = acc"
| "be_value acc (b # bs) = be_value (acc * 256 + unat b) bs"

definition read_der_length :: "byte list \<Rightarrow> (TransportError, nat \<times> nat) result" where
  "read_der_length data =
    (case data of [] \<Rightarrow> protocol_error ''Invalid DER: truncated''
     | first # rest \<Rightarrow>
       if first < 0x80 then Inr (unat first, 1)
       else
         let num_bytes = unat (first AND 0x7F) in
         if num_bytes = 0 \<or> 3 < num_bytes \<or> length data < 1 + num_bytes
         then protocol_error ''Invalid DER: bad length''
         else Inr (be_value 0 (take num_bytes rest), 1 + num_bytes))"

definition read_der_integer :: "byte list \<Rightarrow> (TransportError, byte list \<times> nat) result" where
  "read_der_integer data =
    (if data = [] \<or> hd data \<noteq> 0x02 then protocol_error ''Invalid DER: expected INTEGER''
     else rbind (read_der_length (tl data)) (\<lambda>(int_len, len_bytes).
       let header_len = 1 + len_bytes in
       if length data < header_len + int_len then protocol_error ''Invalid DER: truncated integer''
       else rbind (slice data header_len (header_len + int_len)) (\<lambda>value.
         Inr (if 1 < length value \<and> hd value = 0 then tl value else value, header_len + int_len))))"

definition parse_rsa_public_key_pkcs1_der ::
  "'n login_env \<Rightarrow> byte list \<Rightarrow> (TransportError, 'n \<times> 'n) result" where
  "parse_rsa_public_key_pkcs1_der L der =
    (if der = [] \<or> hd der \<noteq> 0x30 then protocol_error ''Invalid DER: expected SEQUENCE''
     else rbind (slice der 1 (length der)) (\<lambda>rest.
     rbind (read_der_length rest) (\<lambda>(seq_len, len_bytes).
     let pos = 1 + len_bytes; seq_end = pos + seq_len in
     if seq_end > length der then protocol_error ''Invalid DER: truncated''
     else rbind (slice der pos seq_end) (\<lambda>body.
       rbind (read_der_integer body) (\<lambda>(n_bytes, consumed).
       let pos = pos + consumed in
       rbind (slice der pos seq_end) (\<lambda>body.
       rbind (read_der_integer body) (\<lambda>(e_bytes, consumed).
       let pos = pos + consumed in
       if pos \<noteq> seq_end then protocol_error ''Invalid DER: trailing bytes''
       else Inr (from_bytes_be L n_bytes, from_bytes_be L e_bytes))))))))"

definition parse_rsa_public_key :: "'n login_env \<Rightarrow> byte list \<Rightarrow> (TransportError, 'n \<times> 'n) result" where
  "parse_rsa_public_key L key_data =
    (if key_data \<noteq> [] \<and> hd key_data = 0x30 then parse_rsa_public_key_pkcs1_der L key_data
     else if length key_data < 4 \<or> length key_data mod 2 \<noteq> 0 then
       protocol_error (''Invalid raw RSA key: unexpected length '' @ show_nat (length key_data))
     else
       let half = length key_data div 2;
           e = from_bytes_be L (take half key_data); n = from_bytes_be L (drop half key_data) in
       if bits_zero L n \<or> bits_zero L e then
         protocol_error ''Invalid raw RSA key: zero modulus or exponent''
       else Inr (n, e))"

subsection \<open>Password encoding\<close>

definition rsa_key_len :: nat where "rsa_key_len = 128"

definition round_up :: "nat \<Rightarrow> nat" where
  "round_up n = (if n mod rsa_key_len \<noteq> 0 then n + (rsa_key_len - n mod rsa_key_len) else n)"

definition interleave :: "byte list \<Rightarrow> byte list \<Rightarrow> nat \<Rightarrow> byte list" where
  "interleave pwd phrase iterations =
    concat (map (\<lambda>i. [pwd ! (i mod length pwd), phrase ! (i mod length phrase)]) [0..<iterations])"

definition overwrite :: "byte list \<Rightarrow> nat \<Rightarrow> byte list \<Rightarrow> byte list" where
  "overwrite buf start bytes = take start buf @ bytes @ drop (start + length bytes) buf"

text \<open>\<open>rsa_key_len - c_bytes.len()\<close>: an underflow when the modulus has more than 1024 bits.\<close>

definition usize_sub :: "bool \<Rightarrow> nat \<Rightarrow> nat \<Rightarrow> (TransportError, nat) result" where
  "usize_sub ovf a b = (if b \<le> a then Inr (a - b) else if ovf then Inl Panic else Inr (2 ^ 64 + a - b))"

definition rsa_block :: "bool \<Rightarrow> 'n login_env \<Rightarrow> byte list \<Rightarrow> 'n \<Rightarrow> 'n \<Rightarrow> nat \<Rightarrow> byte list \<Rightarrow>
    (TransportError, byte list) result" where
  "rsa_block ovf L interleaved n e i encrypted =
    rbind (slice interleaved (i * 64) (i * 64 + 64)) (\<lambda>block.
    case modpow L (from_bytes_be L block) e n of None \<Rightarrow> Inl Panic
    | Some ciphertext \<Rightarrow>
      let c_bytes = to_bytes_be L ciphertext in
      rbind (usize_sub ovf rsa_key_len (length c_bytes)) (\<lambda>off.
      rbind (usize_add ovf (i * rsa_key_len) off) (\<lambda>start.
      rbind (usize_add ovf start (length c_bytes)) (\<lambda>stop.
      if start \<le> stop \<and> stop \<le> length encrypted then Inr (overwrite encrypted start c_bytes)
      else Inl Panic))))"

fun rsa_blocks :: "bool \<Rightarrow> 'n login_env \<Rightarrow> byte list \<Rightarrow> 'n \<Rightarrow> 'n \<Rightarrow> nat \<Rightarrow> nat \<Rightarrow> byte list \<Rightarrow>
    (TransportError, byte list) result" where
  "rsa_blocks ovf L interleaved n e i 0 encrypted = Inr encrypted"
| "rsa_blocks ovf L interleaved n e i (Suc k) encrypted =
    rbind (rsa_block ovf L interleaved n e i encrypted) (rsa_blocks ovf L interleaved n e (Suc i) k)"

definition exasol_encode_pwd ::
  "bool \<Rightarrow> 'n login_env \<Rightarrow> byte list \<Rightarrow> byte list \<Rightarrow> 'n \<Rightarrow> 'n \<Rightarrow> (TransportError, byte list) result" where
  "exasol_encode_pwd ovf L data phrase n e =
    (if phrase = [] then
       protocol_error ''Cannot encode password: server-supplied random phrase is empty''
     else
       let pwd = data @ [0];
           encoded_output_len = round_up (if length pwd > length phrase then length pwd * 2 else length phrase * 2);
           interleaved = interleave pwd phrase (encoded_output_len div 2);
           rsa_output_len = encoded_output_len * 2 in
       rsa_blocks ovf L interleaved n e 0 (rsa_output_len div rsa_key_len) (replicate rsa_output_len 0))"

subsection \<open>Authentication message\<close>

definition pad_password :: "'n login_env \<Rightarrow> byte list \<Rightarrow> byte list \<Rightarrow> (TransportError, byte list) result" where
  "pad_password L pwd phrase =
    (if length pwd + 2 < length phrase then
       (case rng_fill L 0 (length phrase - length pwd - 2) of
          None \<Rightarrow> protocol_error ''RNG failure''
        | Some padding \<Rightarrow> Inr (pwd @ [0] @ padding))
     else Inr pwd)"

text \<open>\<open>generate_keys\<close> panics when the generator fails.\<close>

definition generate_keys :: "'n login_env \<Rightarrow> (TransportError, byte list \<times> byte list) result" where
  "generate_keys L =
    (case (rng_fill L 1 CHACHA20_KEY_LEN, rng_fill L 2 CHACHA20_KEY_LEN) of
       (Some s, Some r) \<Rightarrow> Inr (s, r) | _ \<Rightarrow> Inl Panic)"

record AuthMessage =
  wire_bytes :: "byte list"
  send_key :: "byte list"
  recv_key :: "byte list"

definition key_attributes :: "bool \<Rightarrow> 'n login_env \<Rightarrow> byte list \<Rightarrow> 'n \<Rightarrow> 'n \<Rightarrow> bool \<Rightarrow> AttributeSet \<Rightarrow>
    (TransportError, AttributeSet \<times> byte list \<times> byte list) result" where
  "key_attributes ovf L phrase n e use_chacha20 attrs =
    (if use_chacha20 then
       rbind (generate_keys L) (\<lambda>(sk, rk).
       rbind (exasol_encode_pwd ovf L sk phrase n e) (\<lambda>esk.
       rbind (exasol_encode_pwd ovf L rk phrase n e) (\<lambda>erk.
         let a = AttributeSet_add attrs ATTR_CLIENT_SEND_KEY (ABinary esk);
             a = AttributeSet_add a ATTR_CLIENT_RECEIVE_KEY (ABinary erk) in
         Inr (AttributeSet_add a ATTR_CLIENT_KEYS_LEN (AInt32 (of_nat CHACHA20_KEY_LEN)), sk, rk))))
     else Inr (attrs, [], []))"

definition build_auth_message ::
  "bool \<Rightarrow> 'n login_env \<Rightarrow> string \<Rightarrow> byte list \<Rightarrow> byte list \<Rightarrow> SerialCounter \<Rightarrow> bool \<Rightarrow>
    (TransportError, AuthMessage \<times> SerialCounter) result" where
  "build_auth_message ovf L pw public_key_data random_phrase counter use_chacha20 =
    rbind (parse_rsa_public_key L public_key_data) (\<lambda>(n, e).
    rbind (pad_password L (as_bytes pw) random_phrase) (\<lambda>padded_pwd.
    rbind (exasol_encode_pwd ovf L padded_pwd random_phrase n e) (\<lambda>encrypted_password.
    let attrs = AttributeSet_add AttributeSet_new ATTR_ENCODED_PASSWORD (ABinary encrypted_password) in
    rbind (key_attributes ovf L random_phrase n e use_chacha20 attrs) (\<lambda>(attrs, sk, rk).
    let attr_bytes = AttributeSet_serialize attrs;
        (ser, counter') = SerialCounter_next counter;
        header = MessageHeader_new CMD_SET_ATTRIBUTES ser (AttributeSet_num_attributes attrs)
          (of_nat (length attr_bytes)) 0 in
    Inr (\<lparr>wire_bytes = serialize_header header @ attr_bytes, send_key = sk, recv_key = rk\<rparr>, counter')))))"

end
