(* ===== verification/Handshake_Laws.thy ===== *)
theory Handshake_Laws
  imports Handshake
begin

text \<open>
  Laws of the login messages: the key parser never panics, a DER key and a raw key parse
  back to their numbers, the encoded password is the raw RSA of the interleaved blocks,
  and the interleaving can be undone. A DER key with modulus 0 passes the parser and
  panics in the encoder.
\<close>

subsection \<open>Numbers\<close>

text \<open>What \<open>num-bigint\<close> documents of the calls, over the value \<open>val\<close> of a number.\<close>

definition bignum_documented :: "'n login_env \<Rightarrow> ('n \<Rightarrow> nat) \<Rightarrow> bool" where
  "bignum_documented L val \<longleftrightarrow>
    (\<forall>bs. val (from_bytes_be L bs) = be_value 0 bs)
    \<and> (\<forall>x. be_value 0 (to_bytes_be L x) = val x)
    \<and> (\<forall>x k. 0 < k \<longrightarrow> val x < 256 ^ k \<longrightarrow> length (to_bytes_be L x) \<le> k)
    \<and> (\<forall>x. bits_zero L x \<longleftrightarrow> val x = 0)
    \<and> (\<forall>b e n. val n = 0 \<longrightarrow> modpow L b e n = None)
    \<and> (\<forall>b e n. val n \<noteq> 0 \<longrightarrow> (\<exists>c. modpow L b e n = Some c \<and> val c = val b ^ val e mod val n))"

lemma be_value_acc: "be_value a bs = a * 256 ^ length bs + be_value 0 bs"
proof (induction bs arbitrary: a)
  case (Cons b bs)
  show ?case using Cons [of "a * 256 + unat b"] Cons [of "unat b"] by (simp add: algebra_simps)
qed simp

lemma be_value_zeros [simp]: "be_value 0 (replicate k 0 @ bs) = be_value 0 bs"
  by (induction k) simp_all

lemma be_value_snoc: "be_value a (bs @ [b]) = be_value a bs * 256 + unat b"
  by (induction bs arbitrary: a) simp_all

lemma be_value_less: "be_value 0 bs < 256 ^ length bs"
proof (induction bs rule: rev_induct)
  case (snoc b bs)
  have "unat b < 256" by (rule unat_byte_less)
  then show ?case using snoc by (simp add: be_value_snoc)
qed simp

subsection \<open>Keys\<close>

lemma graceful_protocol_error [simp]: "graceful (protocol_error m)"
  by (simp add: protocol_error_def)

lemma graceful_read_der_length [simp]: "graceful (read_der_length d)"
  by (simp add: read_der_length_def Let_def split: list.split)

lemma read_der_length_bound: "read_der_length d = Inr (l, k) \<Longrightarrow> k \<le> length d"
  by (auto simp: read_der_length_def protocol_error_def Let_def split: list.splits if_splits)

lemma graceful_read_der_integer [simp]: "graceful (read_der_integer d)"
  by (auto simp: read_der_integer_def Let_def slice_def intro!: graceful_rbind split: prod.split)

lemma read_der_integer_bound: "read_der_integer d = Inr (v, c) \<Longrightarrow> c \<le> length d"
  by (auto simp: read_der_integer_def protocol_error_def Let_def slice_def res_simps split: if_splits)

lemma parse_rsa_public_key_graceful: "graceful (parse_rsa_public_key L key)"
proof -
  have "graceful (parse_rsa_public_key_pkcs1_der L key)"
    unfolding parse_rsa_public_key_pkcs1_der_def Let_def
    by (auto simp: slice_def case_prod_unfold Suc_le_eq intro!: graceful_rbind dest!: read_der_integer_bound)
  then show ?thesis by (simp add: parse_rsa_public_key_def Let_def)
qed

text \<open>DER of a key: the encodings the parser accepts, with lengths of up to three bytes.\<close>

definition der_length :: "nat \<Rightarrow> byte list" where
  "der_length n =
    (if n < 128 then [of_nat n]
     else if n < 256 then [0x81, of_nat n]
     else if n < 65536 then [0x82, of_nat (n div 256), of_nat (n mod 256)]
     else [0x83, of_nat (n div 65536), of_nat (n div 256 mod 256), of_nat (n mod 256)])"

definition der_integer :: "byte list \<Rightarrow> byte list" where
  "der_integer v = 0x02 # der_length (length v) @ v"

definition der_key :: "byte list \<Rightarrow> byte list \<Rightarrow> byte list" where
  "der_key n e = 0x30 # der_length (length (der_integer n @ der_integer e)) @ der_integer n @ der_integer e"

text \<open>An INTEGER's sign byte is dropped.\<close>

definition unsign :: "byte list \<Rightarrow> byte list" where
  "unsign v = (if 1 < length v \<and> hd v = 0 then tl v else v)"

lemma unat_of_nat_small: "n < 256 \<Longrightarrow> unat (of_nat n :: byte) = n"
  by (simp add: unat_of_nat)

lemma read_der_length_enc:
  assumes "n < 2 ^ 24"
  shows "read_der_length (der_length n @ rest) = Inr (n, length (der_length n))"
proof -
  consider "n < 128" | "128 \<le> n" "n < 256" | "256 \<le> n" "n < 65536" | "65536 \<le> n" by linarith
  then show ?thesis
  proof cases
    case 1
    then have "(of_nat n :: byte) < 0x80" by (simp add: word_less_nat_alt unat_of_nat_small)
    then show ?thesis using 1 by (simp add: der_length_def read_der_length_def unat_of_nat_small)
  next
    case 2
    then show ?thesis by (simp add: der_length_def read_der_length_def unat_of_nat_small)
  next
    case 3
    then have "n div 256 < 256" by simp
    then show ?thesis using 3 by (simp add: der_length_def read_der_length_def unat_of_nat_small)
  next
    case 4
    then have "n div 65536 < 256" using assms by simp
    moreover have "(n div 65536 * 256 + n div 256 mod 256) * 256 + n mod 256 = n"
    proof -
      have "n div 65536 = n div 256 div 256" by (simp flip: div_mult2_eq)
      then show ?thesis by (simp only: div_mult_mod_eq)
    qed
    ultimately show ?thesis using 4
      by (simp add: der_length_def read_der_length_def unat_of_nat_small)
  qed
qed

lemma read_der_integer_enc:
  assumes "length v < 2 ^ 24"
  shows "read_der_integer (der_integer v @ rest) = Inr (unsign v, length (der_integer v))"
  using read_der_length_enc [OF assms, of "v @ rest"]
  by (simp add: read_der_integer_def der_integer_def unsign_def Let_def slice_def)

lemma parse_der_key:
  assumes "length n < 2 ^ 20" "length e < 2 ^ 20"
  shows "parse_rsa_public_key L (der_key n e) = Inr (from_bytes_be L (unsign n), from_bytes_be L (unsign e))"
proof -
  let ?N = "der_integer n" and ?E = "der_integer e"
  define k where "k = length (der_length (length (?N @ ?E)))"
  have small: "length (?N @ ?E) < 2 ^ 24" using assms by (simp add: der_integer_def der_length_def)
  have len: "read_der_length (der_length (length (?N @ ?E)) @ ?N @ ?E) = Inr (length (?N @ ?E), k)"
    unfolding k_def by (rule read_der_length_enc [OF small])
  have i: "read_der_integer (?N @ ?E) = Inr (unsign n, length ?N)" "read_der_integer ?E = Inr (unsign e, length ?E)"
    using assms read_der_integer_enc [of n ?E] read_der_integer_enc [of e "[]"] by simp_all
  have d: "der_key n e = 0x30 # der_length (length (?N @ ?E)) @ ?N @ ?E" by (simp add: der_key_def)
  have s: "slice (der_key n e) 1 (length (der_key n e)) = (Inr (der_length (length (?N @ ?E)) @ ?N @ ?E) :: (TransportError, byte list) result)"
    "slice (der_key n e) (1 + k) (1 + k + length (?N @ ?E)) = (Inr (?N @ ?E) :: (TransportError, byte list) result)"
    "slice (der_key n e) (1 + k + length ?N) (1 + k + length (?N @ ?E)) = (Inr ?E :: (TransportError, byte list) result)"
    "length (der_key n e) = 1 + k + length (?N @ ?E)"
    by (simp_all add: d slice_def k_def del: length_append) (simp_all add: d slice_def k_def)
  have "hd (der_key n e) = 0x30" "der_key n e \<noteq> []" by (simp_all add: d)
  then show ?thesis
    unfolding parse_rsa_public_key_def parse_rsa_public_key_pkcs1_der_def
    using s len i by (simp add: Let_def)
qed

lemma parse_raw_key:
  assumes L: "bignum_documented L val" and len: "length eb = length nb" "2 \<le> length nb"
    and nz: "be_value 0 nb \<noteq> 0" "be_value 0 eb \<noteq> 0" and "hd eb \<noteq> 0x30"
  shows "parse_rsa_public_key L (eb @ nb) = Inr (from_bytes_be L nb, from_bytes_be L eb)"
proof -
  have "length (eb @ nb) div 2 = length eb" using len by simp
  then show ?thesis
    using assms by (auto simp: parse_rsa_public_key_def bignum_documented_def Let_def hd_append)
qed

subsection \<open>Password encoding\<close>

lemma length_interleave [simp]: "length (interleave pwd phrase k) = 2 * k"
  by (simp add: interleave_def length_concat comp_def sum_list_triv)

text \<open>The password with its terminator is at the even positions of the plain text, the phrase at the odd
  ones, each repeated to the end.\<close>

lemma interleave_Suc:
  "interleave pwd phrase (Suc k) =
    interleave pwd phrase k @ [pwd ! (k mod length pwd), phrase ! (k mod length phrase)]"
  by (simp add: interleave_def)

lemma interleave_nth:
  assumes "i < k"
  shows "interleave pwd phrase k ! (2 * i) = pwd ! (i mod length pwd)"
    "interleave pwd phrase k ! Suc (2 * i) = phrase ! (i mod length phrase)"
  using assms
proof (induction k)
  case (Suc k)
  case 1
  show ?case using Suc 1 by (cases "i = k") (simp_all add: interleave_Suc nth_append)
  case 2
  show ?case using Suc 2 by (cases "i = k") (simp_all add: interleave_Suc nth_append)
qed simp_all

lemma uninterleave:
  "length pwd \<le> k \<Longrightarrow> map (\<lambda>i. interleave pwd phrase k ! (2 * i)) [0..<length pwd] = pwd"
  "length phrase \<le> k \<Longrightarrow> map (\<lambda>i. interleave pwd phrase k ! Suc (2 * i)) [0..<length phrase] = phrase"
  by (rule nth_equalityI; simp add: interleave_nth)+

text \<open>The output block \<open>i\<close> is the raw RSA of the input block \<open>i\<close>.\<close>

definition block_of :: "nat \<Rightarrow> byte list \<Rightarrow> nat \<Rightarrow> nat" where
  "block_of w bs i = be_value 0 (take w (drop (i * w) bs))"

lemma length_overwrite: "start + length b \<le> length buf \<Longrightarrow> length (overwrite buf start b) = length buf"
  by (simp add: overwrite_def)

lemma rsa_block_ok:
  assumes L: "bignum_documented L val" and n: "0 < val n" "val n \<le> 256 ^ 128"
    and i: "i * 64 + 64 \<le> length il" "(Suc i) * 128 \<le> length buf" and small: "length buf < 2 ^ 63"
    and zero: "take 128 (drop (i * 128) buf) = replicate 128 0"
  shows "\<exists>c. rsa_block ovf L il n e i buf = Inr (take (i * 128) buf @ c @ drop (i * 128 + 128) buf)
    \<and> length c = 128 \<and> be_value 0 c = block_of 64 il i ^ val e mod val n"
proof -
  let ?b = "take 64 (drop (i * 64) il)"
  obtain x where x: "modpow L (from_bytes_be L ?b) e n = Some x" "val x = be_value 0 ?b ^ val e mod val n"
    using L n(1) unfolding bignum_documented_def by (metis less_irrefl)
  let ?c = "to_bytes_be L x"
  have "val x < 256 ^ 128" using x(2) n by (metis mod_less_divisor order_less_le_trans)
  then have len: "length ?c \<le> 128" using L unfolding bignum_documented_def by (metis zero_less_numeral)
  have sl: "(slice il (i * 64) (i * 64 + 64) :: (TransportError, byte list) result) = Inr ?b"
    using i(1) by (simp add: slice_def)
  have run: "rsa_block ovf L il n e i buf = Inr (overwrite buf (i * 128 + (128 - length ?c)) ?c)"
  proof -
    define o1 where "o1 = 128 - length ?c"
    have o1: "o1 + length ?c = 128" using len by (simp add: o1_def)
    have u: "usize_add ovf (i * 128) o1 = (Inr (i * 128 + o1) :: (TransportError, nat) result)"
      "usize_add ovf (i * 128 + o1) (length ?c) = (Inr (i * 128 + 128) :: (TransportError, nat) result)"
      using o1 i(2) small by (auto simp: usize_add_def)
    show ?thesis using len i(2) o1 unfolding o1_def [symmetric]
      by (simp add: rsa_block_def sl x(1) usize_sub_def u rsa_key_len_def Let_def flip: o1_def)
  qed
  have "overwrite buf (i * 128 + (128 - length ?c)) ?c
      = take (i * 128) buf @ (replicate (128 - length ?c) 0 @ ?c) @ drop (i * 128 + 128) buf"
  proof -
    have "take (i * 128 + (128 - length ?c)) buf = take (i * 128) buf @ take (128 - length ?c) (drop (i * 128) buf)"
      by (rule take_add)
    also have "take (128 - length ?c) (drop (i * 128) buf) = take (128 - length ?c) (take 128 (drop (i * 128) buf))"
      by (simp add: min_def)
    also have "\<dots> = replicate (128 - length ?c) 0" unfolding zero by (simp add: min_def)
    finally show ?thesis using len by (simp add: overwrite_def)
  qed
  moreover have "be_value 0 (replicate (128 - length ?c) 0 @ ?c) = block_of 64 il i ^ val e mod val n"
    using L x(2) by (simp add: bignum_documented_def block_of_def)
  ultimately show ?thesis using run len
    by (intro exI [of _ "replicate (128 - length ?c) 0 @ ?c"]) simp
qed

lemma rsa_blocks_ok:
  assumes L: "bignum_documented L val" and n: "0 < val n" "val n \<le> 256 ^ 128"
    and il: "(i + k) * 64 \<le> length il" and small: "(i + k) * 128 < 2 ^ 63"
  shows "length done = i * 128 \<Longrightarrow>
    \<exists>out. rsa_blocks ovf L il n e i k (done @ replicate (k * 128) 0) = Inr (done @ out) \<and> length out = k * 128
      \<and> (\<forall>j < k. block_of 128 out j = block_of 64 il (i + j) ^ val e mod val n)"
  using il small
proof (induction k arbitrary: i "done")
  case 0
  then show ?case by simp
next
  case (Suc k)
  let ?buf = "done @ replicate (Suc k * 128) 0"
  have z: "take 128 (drop (i * 128) ?buf) = replicate 128 0"
    using Suc.prems(1) by (simp add: min_def)
  obtain c where c: "rsa_block ovf L il n e i ?buf = Inr (take (i * 128) ?buf @ c @ drop (i * 128 + 128) ?buf)"
    "length c = 128" "be_value 0 c = block_of 64 il i ^ val e mod val n"
    using rsa_block_ok [OF L n _ _ _ z, of il ovf e] Suc.prems by auto
  have buf: "take (i * 128) ?buf @ c @ drop (i * 128 + 128) ?buf = (done @ c) @ replicate (k * 128) 0"
    using Suc.prems(1) by simp
  obtain out where out: "rsa_blocks ovf L il n e (Suc i) k ((done @ c) @ replicate (k * 128) 0) = Inr ((done @ c) @ out)"
    "length out = k * 128" "\<forall>j < k. block_of 128 out j = block_of 64 il (Suc i + j) ^ val e mod val n"
    using Suc.IH [of "done @ c" "Suc i"] Suc.prems c(2) by auto
  have "block_of 128 (c @ out) j = block_of 64 il (i + j) ^ val e mod val n" if "j < Suc k" for j
  proof (cases j)
    case 0
    then show ?thesis using c by (simp add: block_of_def)
  next
    case (Suc j')
    then have "block_of 128 (c @ out) j = block_of 128 out j'" using c(2) by (simp add: block_of_def)
    then show ?thesis using out(3) that Suc by simp
  qed
  then show ?case
    using c(1,2) out(1,2) unfolding rsa_blocks.simps c(1) buf rbind.simps
    by (intro exI [of _ "c @ out"]) simp
qed

definition pwd_blocks :: "byte list \<Rightarrow> byte list \<Rightarrow> nat" where
  "pwd_blocks data phrase = round_up (2 * max (length data + 1) (length phrase)) div 64"

lemma round_up_dvd: "128 dvd round_up n" "n \<le> round_up n" "round_up n < n + 128"
proof -
  have "n mod 128 \<le> 128" by (simp add: less_imp_le)
  then have "(n + (128 - n mod 128)) mod 128 = (n mod 128 + (128 - n mod 128)) mod 128" by (simp only: mod_add_left_eq)
  also have "\<dots> = 0" using \<open>n mod 128 \<le> 128\<close> by (simp only: le_add_diff_inverse mod_self)
  finally have "(n + (128 - n mod 128)) mod 128 = 0" .
  then show "128 dvd round_up n" by (auto simp: round_up_def rsa_key_len_def dvd_eq_mod_eq_0)
  show "n \<le> round_up n" by (simp add: round_up_def)
  have "n mod 128 < 128" by simp
  then show "round_up n < n + 128" by (auto simp: round_up_def rsa_key_len_def)
qed

lemma encode_pwd_rsa:
  assumes L: "bignum_documented L val" and n: "0 < val n" "val n \<le> 256 ^ 128"
    and phrase: "phrase \<noteq> []" and small: "length data < 2 ^ 32" "length phrase < 2 ^ 32"
  defines "k \<equiv> pwd_blocks data phrase"
  shows "\<exists>out. exasol_encode_pwd ovf L data phrase n e = Inr out \<and> length out = k * 128
    \<and> even k \<and> max (length data + 1) (length phrase) \<le> k * 32 \<and> k * 32 < max (length data + 1) (length phrase) + 64
    \<and> (\<forall>i < k. block_of 128 out i = block_of 64 (interleave (data @ [0]) phrase (k * 32)) i ^ val e mod val n)"
proof -
  define N where "N = round_up (2 * max (length data + 1) (length phrase))"
  note r = round_up_dvd [of "2 * max (length data + 1) (length phrase)", folded N_def]
  have "k = N div 64" by (simp add: k_def pwd_blocks_def N_def)
  then have N: "N = k * 64" using r(1) by (auto elim!: dvdE)
  have len: "(if length (data @ [0]) > length phrase then length (data @ [0]) * 2 else length phrase * 2)
      = 2 * max (length data + 1) (length phrase)" by (simp add: max_def)
  have "64 * 2 dvd 64 * k" using r(1) N by (simp add: mult.commute)
  then have "even k" unfolding nat_mult_dvd_cancel_disj by simp
  moreover have "max (length data + 1) (length phrase) \<le> k * 32" "k * 32 < max (length data + 1) (length phrase) + 64"
    using r(2,3) N by simp_all
  moreover from this have "k * 128 < 2 ^ 63" using small by (simp add: max_def split: if_splits)
  ultimately have k: "even k" "max (length data + 1) (length phrase) \<le> k * 32" "k * 32 < max (length data + 1) (length phrase) + 64"
    "k * 128 < 2 ^ 63" by blast+
  have "exasol_encode_pwd ovf L data phrase n e =
      rsa_blocks ovf L (interleave (data @ [0]) phrase (k * 32)) n e 0 k ([] @ replicate (k * 128) 0)"
  proof -
    have N': "N = round_up (if length (data @ [0]) > length phrase then length (data @ [0]) * 2 else length phrase * 2)"
      unfolding N_def len ..
    have "exasol_encode_pwd ovf L data phrase n e =
        rsa_blocks ovf L (interleave (data @ [0]) phrase (N div 2)) n e 0 (N * 2 div 128) (replicate (N * 2) 0)"
      using phrase by (simp add: exasol_encode_pwd_def N' Let_def rsa_key_len_def)
    then show ?thesis by (simp add: N(1) mult.commute [of _ k])
  qed
  moreover obtain out where "rsa_blocks ovf L (interleave (data @ [0]) phrase (k * 32)) n e 0 k ([] @ replicate (k * 128) 0)
      = Inr ([] @ out)" "length out = k * 128"
    "\<forall>j < k. block_of 128 out j = block_of 64 (interleave (data @ [0]) phrase (k * 32)) (0 + j) ^ val e mod val n"
    using rsa_blocks_ok [OF L n, of 0 k "interleave (data @ [0]) phrase (k * 32)" "[]" ovf e] k(4) by auto
  ultimately show ?thesis using k(1-3) by auto
qed

text \<open>A modulus of zero gets through the DER parser and panics in \<open>modpow\<close>.\<close>

lemma encode_pwd_zero_modulus:
  assumes L: "bignum_documented L val" and "val n = 0" "phrase \<noteq> []"
  shows "exasol_encode_pwd ovf L data phrase n e = Inl Panic"
proof -
  define N where "N = round_up (if length (data @ [0]) > length phrase then length (data @ [0]) * 2 else length phrase * 2)"
  have r: "128 dvd N" "0 < N" using round_up_dvd(1) order_less_le_trans [OF _ round_up_dvd(2)] assms(3) unfolding N_def by simp_all
  then obtain m where m: "N * 2 div 128 = Suc m" by (metis dvd_mult2 dvd_div_eq_0_iff gr0_conv_Suc mult_is_0 neq0_conv not_numeral_le_zero numeral_eq_iff zero_neq_numeral)
  have "modpow L b e n = None" for b using L assms(2) by (simp add: bignum_documented_def)
  then have "rsa_block ovf L il n e 0 buf = Inl Panic" for il buf
    by (auto simp: rsa_block_def slice_def)
  moreover have "exasol_encode_pwd ovf L data phrase n e =
      rsa_blocks ovf L (interleave (data @ [0]) phrase (N div 2)) n e 0 (N * 2 div 128) (replicate (N * 2) 0)"
    using assms(3) by (simp add: exasol_encode_pwd_def N_def Let_def rsa_key_len_def)
  ultimately show ?thesis by (simp only: m rsa_blocks.simps rbind.simps)
qed

lemma zero_modulus_panics:
  assumes L: "bignum_documented L val" and phrase: "phrase \<noteq> []" "length phrase \<le> length pw + 2"
  shows "build_auth_message ovf L pw (der_key [0] [3]) phrase counter use_chacha20 = Inl Panic
    \<and> (\<exists>msg. build_auth_message ovf L pw [0, 3, 0, 0] phrase counter use_chacha20 = fail (ProtocolError msg))"
proof -
  have key: "parse_rsa_public_key L (der_key [0] [3]) = Inr (from_bytes_be L [0], from_bytes_be L [3])"
    using parse_der_key [of "[0]" "[3]" L] by (simp add: unsign_def)
  have val: "val (from_bytes_be L bs) = be_value 0 bs" "bits_zero L x \<longleftrightarrow> val x = 0" for bs x
    using L by (simp_all add: bignum_documented_def)
  have "exasol_encode_pwd ovf L (as_bytes pw) phrase (from_bytes_be L [0]) (from_bytes_be L [3]) = Inl Panic"
    using encode_pwd_zero_modulus [OF L _ phrase(1)] by (simp add: val)
  then have "build_auth_message ovf L pw (der_key [0] [3]) phrase counter use_chacha20 = Inl Panic"
    using phrase(2) by (simp add: build_auth_message_def key pad_password_def)
  moreover have "\<exists>msg. parse_rsa_public_key L [0, 3, 0, 0] = fail (ProtocolError msg)"
    by (simp add: parse_rsa_public_key_def val protocol_error_def Let_def)
  ultimately show ?thesis by (auto simp: build_auth_message_def)
qed

text \<open>Natural numbers are an instance of the documented arithmetic.\<close>

fun shortest_be :: "nat \<Rightarrow> byte list" where
  "shortest_be n = (if n < 256 then [of_nat n] else shortest_be (n div 256) @ [of_nat (n mod 256)])"

definition nat_login :: "nat login_env" where
  "nat_login = \<lparr>from_bytes_be = be_value 0, to_bytes_be = shortest_be, bits_zero = (\<lambda>n. n = 0),
    modpow = (\<lambda>b e n. if n = 0 then None else Some (b ^ e mod n)),
    rng_fill = (\<lambda>_ n. Some (replicate n 7)), os_name = ''linux''\<rparr>"

lemma be_value_shortest: "be_value 0 (shortest_be n) = n"
  by (induction n rule: shortest_be.induct) (subst shortest_be.simps, simp add: be_value_snoc unat_of_nat_small)

lemma length_shortest_be: "0 < k \<Longrightarrow> n < 256 ^ k \<Longrightarrow> length (shortest_be n) \<le> k"
proof (induction n arbitrary: k rule: shortest_be.induct)
  case (1 n)
  show ?case
  proof (cases "n < 256")
    case True
    then show ?thesis using "1.prems"(1) by (subst shortest_be.simps) simp
  next
    case False
    then obtain j where k: "k = Suc j" "0 < j" using "1.prems" by (cases k; cases "k - 1") auto
    then have "n div 256 < 256 ^ j" using "1.prems"(2) by (simp add: less_mult_imp_div_less mult.commute)
    then show ?thesis using "1.IH" [OF False k(2)] k False by (subst shortest_be.simps) simp
  qed
qed

lemma bignum_documented_nat: "bignum_documented nat_login (\<lambda>n. n)"
  by (simp add: bignum_documented_def nat_login_def be_value_shortest length_shortest_be del: shortest_be.simps)

end
