(* ===== verification/Actions.thy ===== *)
theory Actions
  imports Errors
begin

text \<open>
  Asynchronous methods as tasks on a state; those of a transport, which fail with a
  \<open>TransportError\<close>, are its actions. A task runs until it
  has a result or waits for its peer for ever; the state it leaves behind is kept in every
  case, because an early return of the code does not undo what was done before it.
  A property of the state that every step keeps is a relation between the state before
  and after; the locale \<open>step_relation\<close> carries such a relation through the combinators.
\<close>

datatype ('e, 'a) poll = Ready "('e, 'a) result" | Pending

type_synonym ('e, 's, 'a) task = "'s \<Rightarrow> ('e, 'a) poll \<times> 's"

type_synonym ('s, 'a) action = "(TransportError, 's, 'a) task"

definition alift :: "('e, 'a) result \<Rightarrow> ('e, 's, 'a) task" where
  "alift r s = (Ready r, s)"

abbreviation areturn :: "'a \<Rightarrow> ('e, 's, 'a) task" where
  "areturn x \<equiv> alift (Inr x)"

abbreviation athrow :: "'e \<Rightarrow> ('e, 's, 'a) task" where
  "athrow e \<equiv> alift (fail e)"

definition amodify :: "('s \<Rightarrow> 's) \<Rightarrow> ('e, 's, unit) task" where
  "amodify f s = (Ready (Inr ()), f s)"

definition areads :: "('s \<Rightarrow> ('e, 'a) result) \<Rightarrow> ('e, 's, 'a) task" where
  "areads f s = (Ready (f s), s)"

definition abind :: "('e, 's, 'a) task \<Rightarrow> ('a \<Rightarrow> ('e, 's, 'b) task) \<Rightarrow> ('e, 's, 'b) task" where
  "abind m f s = (case m s of
      (Ready (Inr x), s') \<Rightarrow> f x s'
    | (Ready (Inl e), s') \<Rightarrow> (Ready (Inl e), s')
    | (Pending, s') \<Rightarrow> (Pending, s'))"

named_theorems act_simps \<open>computation rules of actions\<close>

lemma act_eval [act_simps]:
  "alift r s = (Ready r, s)" "amodify h s = (Ready (Inr ()), h s)" "areads g s = (Ready (g s), s)"
  by (simp_all add: alift_def amodify_def areads_def)

lemma abind_eval:
  "m s = (Ready (Inr x), s') \<Longrightarrow> abind m f s = f x s'"
  "m s = (Ready (Inl e), s') \<Longrightarrow> abind m f s = (Ready (Inl e), s')"
  "m s = (Pending, s') \<Longrightarrow> abind m f s = (Pending, s')"
  by (simp_all add: abind_def)

lemma abind_lift [act_simps]:
  "abind (alift r) f s = (case r of Inr x \<Rightarrow> f x s | Inl e \<Rightarrow> (Ready (Inl e), s))"
  by (simp add: abind_def act_eval split: sum.split)

lemma abind_reads [act_simps]:
  "abind (areads g) f s = (case g s of Inr x \<Rightarrow> f x s | Inl e \<Rightarrow> (Ready (Inl e), s))"
  by (simp add: abind_def act_eval split: sum.split)

lemma abind_modify [act_simps]: "abind (amodify h) f s = f () (h s)"
  by (simp add: abind_def act_eval)

lemma abind_assoc: "abind (abind m f) g s = abind m (\<lambda>x. abind (f x) g) s"
  by (simp add: abind_def split: prod.split poll.split sum.split)

lemma abind_Ready:
  "abind m f s = (Ready (Inr y), t) \<longleftrightarrow> (\<exists>x s'. m s = (Ready (Inr x), s') \<and> f x s' = (Ready (Inr y), t))"
  by (auto simp: abind_def split: prod.splits poll.splits sum.splits)

lemma alift_Ready: "alift r s = (Ready (Inr y), t) \<longleftrightarrow> r = Inr y \<and> t = s"
  "areads g s = (Ready (Inr y), t) \<longleftrightarrow> g s = Inr y \<and> t = s"
  "amodify h s = (Ready (Inr ()), t) \<longleftrightarrow> t = h s"
  by (auto simp: act_eval)

lemmas act_Ready = abind_Ready alift_Ready

text \<open>How a composed action can end without a result.\<close>

lemma abind_fst:
  assumes "fst (abind m f s) = p" "\<not> (\<exists>x. p = Ready (Inr x))"
  shows "(\<exists>e. fst (m s) = Ready (Inl e) \<and> p = Ready (Inl e)) \<or> (fst (m s) = Pending \<and> p = Pending)
    \<or> (\<exists>x s'. m s = (Ready (Inr x), s') \<and> fst (f x s') = p)"
  using assms by (auto simp: abind_def split: prod.splits poll.splits sum.splits)

subsection \<open>Relations kept by every step\<close>

definition steps_by :: "('s \<Rightarrow> 's \<Rightarrow> bool) \<Rightarrow> ('e, 's, 'a) task \<Rightarrow> bool" where
  "steps_by R m \<longleftrightarrow> (\<forall>s. R s (snd (m s)))"

lemma steps_byD: "steps_by R m \<Longrightarrow> m s = (p, s') \<Longrightarrow> R s s'"
  by (metis snd_conv steps_by_def)

locale step_relation =
  fixes R :: "'s \<Rightarrow> 's \<Rightarrow> bool"
  assumes refl [intro]: "R s s"
    and trans: "R s t \<Longrightarrow> R t u \<Longrightarrow> R s u"
begin

lemma by_lift: "steps_by R (alift r)" "steps_by R (areads g)"
  by (auto simp: steps_by_def act_eval)

lemma by_modify: "(\<And>s. R s (h s)) \<Longrightarrow> steps_by R (amodify h)"
  by (simp add: steps_by_def act_eval)

lemma by_bind:
  assumes "steps_by R m" "\<And>x. steps_by R (f x)"
  shows "steps_by R (abind m f)"
proof -
  have "R s (snd (abind m f s))" for s
  proof (cases "m s")
    case (Pair p s')
    then have "R s s'" using assms(1) by (auto dest: steps_byD)
    moreover have "R s' (snd (f x s'))" for x using assms(2) by (simp add: steps_by_def)
    ultimately show ?thesis
      using Pair trans by (auto simp: abind_def split: poll.split sum.split)
  qed
  then show ?thesis by (simp add: steps_by_def)
qed

lemma by_if: "steps_by R m \<Longrightarrow> steps_by R m' \<Longrightarrow> steps_by R (if b then m else m')"
  by simp

lemmas by_intros = by_lift by_bind by_if

end

end
