(* ===== verification/Lifecycle.thy ===== *)
theory Lifecycle
  imports Messages Actions
begin

text \<open>
  The connection lifecycle both transports share (\<open>src/transport/lifecycle.rs\<close>) and the
  setup deadline (\<open>src/transport/deadline.rs\<close>). The trait \<open>LifecycleSteps\<close> is a record of
  operations on a transport state \<open>'s\<close>; the generic functions take it as an argument, and
  the locale \<open>lifecycle_steps\<close> states what the steps promise. An instant is a number of
  nanoseconds on the clock, whose largest value is a parameter.
\<close>

subsection \<open>Setup deadline\<close>

type_synonym instant = nat

datatype SetupStep = TcpConnect | TlsHandshake | WebSocketUpgrade | Login | ExaHandshake

fun step_name :: "SetupStep \<Rightarrow> string" where
  "step_name TcpConnect = ''TCP connect''"
| "step_name TlsHandshake = ''TLS handshake''"
| "step_name WebSocketUpgrade = ''WebSocket upgrade''"
| "step_name Login = ''login''"
| "step_name ExaHandshake = ''EXA handshake''"

definition FAR_FUTURE :: nat where
  "FAR_FUTURE = 86400 * 365 * 30 * 1000000000"

record SetupDeadline =
  dl_deadline :: instant
  dl_budget :: nat
  dl_label :: string

text \<open>\<open>Instant::checked_add\<close> fails beyond the end of the clock, \<open>clock_max\<close>.\<close>

definition SetupDeadline_start :: "instant \<Rightarrow> instant \<Rightarrow> string \<Rightarrow> nat \<Rightarrow> SetupDeadline" where
  "SetupDeadline_start clock_max now label budget =
    \<lparr>dl_deadline = (if now + budget \<le> clock_max then now + budget else now + FAR_FUTURE),
     dl_budget = budget, dl_label = label\<rparr>"

definition has_elapsed :: "SetupDeadline \<Rightarrow> instant \<Rightarrow> bool" where
  "has_elapsed dl now \<longleftrightarrow> dl_deadline dl \<le> now"

definition timeout_error :: "SetupDeadline \<Rightarrow> SetupStep \<Rightarrow> TransportError" where
  "timeout_error dl step = IoError (dl_label dl @ '' timeout after ''
    @ show_nat (dl_budget dl div 1000000) @ ''ms ('' @ step_name step @ '')'')"

text \<open>
  An asynchronous step as its caller can observe it: its result, or that it waits for ever;
  when a result comes; the state it leaves; and the state it has reached when it is
  dropped at the deadline.
\<close>

record ('s, 'a) async_run =
  outcome :: "(TransportError, 'a) poll"
  finish :: instant
  final :: 's
  cut :: 's

text \<open>
  \<open>timeout_at(deadline, future)\<close>: the future is polled first, so a step that is ready at
  once succeeds even when the deadline has passed. The result, the state and the instant
  at which control returns.
\<close>

definition SetupDeadline_run ::
  "SetupDeadline \<Rightarrow> SetupStep \<Rightarrow> instant \<Rightarrow> ('s, 'a) async_run \<Rightarrow> (TransportError, 'a) result \<times> 's \<times> instant" where
  "SetupDeadline_run dl step now r =
    (let stop = max now (dl_deadline dl); timeout = (fail (timeout_error dl step), cut r, stop) in
     case outcome r of
       Pending \<Rightarrow> timeout
     | Ready x \<Rightarrow> if finish r \<le> stop then (x, final r, max now (finish r)) else timeout)"

lemma SetupDeadline_run_cases:
  assumes "SetupDeadline_run dl step now r = (x, s', now')"
  obtains (finished) "outcome r = Ready x" "s' = final r" "finish r \<le> max now (dl_deadline dl)" "now' = max now (finish r)"
  | (timeout) "x = fail (timeout_error dl step)" "s' = cut r" "now' = max now (dl_deadline dl)"
  using assms by (auto simp: SetupDeadline_run_def Let_def split: poll.splits if_splits)

subsection \<open>Connection state\<close>

datatype ConnectionState = Disconnected | Connected | Authenticated | Closed | Terminated

record ConnectionLifecycle =
  lc_state :: ConnectionState
  lc_deadline :: "SetupDeadline option"

definition ConnectionLifecycle_new :: ConnectionLifecycle where
  "ConnectionLifecycle_new = \<lparr>lc_state = Disconnected, lc_deadline = None\<rparr>"

definition is_open :: "ConnectionLifecycle \<Rightarrow> bool" where
  "is_open lc \<longleftrightarrow> lc_state lc = Connected \<or> lc_state lc = Authenticated"

definition terminated_error :: TransportError where
  "terminated_error = ProtocolError (''Transport was terminated after an export gave up on an in-flight response; ''
    @ ''reconnect before the next operation'')"

definition require :: "ConnectionLifecycle \<Rightarrow> ConnectionState \<Rightarrow> string \<Rightarrow> (TransportError, unit) result" where
  "require lc expected message =
    (if lc_state lc = expected then Inr ()
     else if lc_state lc = Terminated then fail terminated_error
     else fail (ProtocolError message))"

definition begin_connect ::
  "ConnectionLifecycle \<Rightarrow> instant \<Rightarrow> instant \<Rightarrow> u64 \<Rightarrow> (TransportError, SetupDeadline) result" where
  "begin_connect lc clock_max now ms =
    rbind (require lc Disconnected ''Already connected'') (\<lambda>_.
      Inr (SetupDeadline_start clock_max now ''Connection'' (unat ms * 1000000)))"

definition connected :: "SetupDeadline \<Rightarrow> ConnectionLifecycle \<Rightarrow> ConnectionLifecycle" where
  "connected dl lc = lc\<lparr>lc_state := Connected, lc_deadline := Some dl\<rparr>"

definition MUST_CONNECT :: string where
  "MUST_CONNECT = ''Must connect before authenticating''"

subsection \<open>The steps of a transport\<close>

record 's LifecycleSteps =
  lifecycle_of :: "'s \<Rightarrow> ConnectionLifecycle"
  set_lifecycle :: "ConnectionLifecycle \<Rightarrow> 's \<Rightarrow> 's"
  login_step :: "Credentials \<Rightarrow> 's \<Rightarrow> ('s, SessionInfo) async_run"
  disconnect_step :: "('s, unit) action"
  release_step :: "'s \<Rightarrow> 's"

definition set_state :: "('s, 'more) LifecycleSteps_scheme \<Rightarrow> ConnectionState \<Rightarrow> 's \<Rightarrow> 's" where
  "set_state S st s = set_lifecycle S ((lifecycle_of S s)\<lparr>lc_state := st\<rparr>) s"

definition terminate :: "('s, 'more) LifecycleSteps_scheme \<Rightarrow> 's \<Rightarrow> 's" where
  "terminate S s = set_state S Terminated (release_step S s)"

text \<open>\<open>lag\<close> is the time from the end of the login to the second look at the clock.\<close>

definition authenticate_within_deadline ::
  "('s, 'more) LifecycleSteps_scheme \<Rightarrow> Credentials \<Rightarrow> instant \<Rightarrow> nat \<Rightarrow> 's \<Rightarrow> (TransportError, SessionInfo) result \<times> 's" where
  "authenticate_within_deadline S credentials now lag s =
    (case require (lifecycle_of S s) Connected MUST_CONNECT of
      Inl e \<Rightarrow> (Inl e, s)
    | Inr _ \<Rightarrow>
      (case lc_deadline (lifecycle_of S s) of
        None \<Rightarrow> (fail (ProtocolError MUST_CONNECT), s)
      | Some dl \<Rightarrow>
        (case SetupDeadline_run dl Login now (login_step S credentials s) of
          (Inr session, s', _) \<Rightarrow> (Inr session, set_state S Authenticated s')
        | (Inl (Failure error), s', now') \<Rightarrow>
            (fail error, if has_elapsed dl (now' + lag) then set_state S Closed (terminate S s') else s')
        | (Inl other, s', _) \<Rightarrow> (Inl other, s'))))"

definition close_gracefully :: "('s, 'more) LifecycleSteps_scheme \<Rightarrow> ('s, unit) action" where
  "close_gracefully S =
    abind (areads (\<lambda>s. Inr (is_open (lifecycle_of S s)))) (\<lambda>was_open.
      if \<not> was_open then areturn ()
      else abind (disconnect_step S) (\<lambda>_. amodify (\<lambda>s. set_state S Closed (terminate S s))))"

subsection \<open>What the steps promise\<close>

text \<open>
  The steps keep no lifecycle of their own: login, disconnect and release leave the
  recorded state and deadline alone, and \<open>lifecycle_mut\<close> is a view of one field.
  \<open>released\<close> says that a transport holds no stream and no session.
\<close>

locale lifecycle_steps =
  fixes S :: "('s, 'more) LifecycleSteps_scheme" and released :: "'s \<Rightarrow> bool"
  assumes view: "lifecycle_of S (set_lifecycle S lc s) = lc"
    and keeps_login: "lifecycle_of S (final (login_step S c s)) = lifecycle_of S s"
      "lifecycle_of S (cut (login_step S c s)) = lifecycle_of S s"
    and keeps_disconnect: "lifecycle_of S (snd (disconnect_step S s)) = lifecycle_of S s"
    and keeps_release: "lifecycle_of S (release_step S s) = lifecycle_of S s"
    and release: "released (release_step S s)"
    and released_view: "released (set_lifecycle S lc s) = released s"
begin

lemma set_state_lifecycle [simp]:
  "lifecycle_of S (set_state S st s) = (lifecycle_of S s)\<lparr>lc_state := st\<rparr>"
  by (simp add: set_state_def view)

lemma released_set_state [simp]: "released (set_state S st s) = released s"
  by (simp add: set_state_def released_view)

lemma terminate_lifecycle [simp]:
  "lifecycle_of S (terminate S s) = (lifecycle_of S s)\<lparr>lc_state := Terminated\<rparr>"
  "released (terminate S s)"
  by (simp_all add: terminate_def keeps_release release)

text \<open>
  Closing: a transport that is not open is left alone; an open one ends closed and
  released once the disconnect has ended, and stays open while it waits.
\<close>

lemma close_not_open: "\<not> is_open (lifecycle_of S s) \<Longrightarrow> close_gracefully S s = (Ready (Inr ()), s)"
  by (simp add: close_gracefully_def act_simps)

lemma close_open:
  assumes "is_open (lifecycle_of S s)"
  shows "close_gracefully S s =
    (case disconnect_step S s of
       (Ready (Inr _), s') \<Rightarrow> (Ready (Inr ()), set_state S Closed (terminate S s'))
     | other \<Rightarrow> other)"
  using assms by (simp add: close_gracefully_def act_simps abind_def split: prod.split poll.split sum.split)

lemma close_state:
  assumes "close_gracefully S s = (p, s')"
  shows "lc_state (lifecycle_of S s') = lc_state (lifecycle_of S s)
    \<or> is_open (lifecycle_of S s) \<and> lc_state (lifecycle_of S s') = Closed \<and> released s'"
proof (cases "is_open (lifecycle_of S s)")
  case True
  obtain q s1 where d: "disconnect_step S s = (q, s1)" by force
  then have "lifecycle_of S s1 = lifecycle_of S s" using keeps_disconnect [of s] by simp
  then show ?thesis
    using assms True d by (auto simp: close_open split: poll.splits sum.splits)
next
  case False
  then show ?thesis using assms by (simp add: close_not_open)
qed

text \<open>
  The login: success authenticates, an error before the deadline keeps the connection,
  an error at or after it closes and releases it. The deadline is never moved.
\<close>

lemma authenticate_guard:
  assumes "lc_state (lifecycle_of S s) \<noteq> Connected"
  shows "authenticate_within_deadline S c now lag s =
    ((if lc_state (lifecycle_of S s) = Terminated then fail terminated_error
      else fail (ProtocolError MUST_CONNECT)), s)"
  using assms by (simp add: authenticate_within_deadline_def require_def)

lemma run_keeps_lifecycle:
  assumes "SetupDeadline_run dl step now (login_step S c s) = (r, s', now')"
  shows "lifecycle_of S s' = lifecycle_of S s" "now \<le> now'" "now' \<le> max now (dl_deadline dl)"
  by (rule SetupDeadline_run_cases [OF assms]; simp add: keeps_login)+

lemma authenticate_cases:
  assumes st: "lc_state (lifecycle_of S s) = Connected" and dl: "lc_deadline (lifecycle_of S s) = Some dl"
    and run: "SetupDeadline_run dl Login now (login_step S c s) = (r, s1, now')"
    and auth: "authenticate_within_deadline S c now lag s = (r', s')"
  shows "r' = r" "lc_deadline (lifecycle_of S s') = Some dl"
    and "r = Inr session \<Longrightarrow> s' = set_state S Authenticated s1 \<and> lc_state (lifecycle_of S s') = Authenticated"
    and "r = fail e \<Longrightarrow> dl_deadline dl \<le> now' + lag \<Longrightarrow> s' = set_state S Closed (terminate S s1) \<and>
        lc_state (lifecycle_of S s') = Closed \<and> released s'"
    and "r = fail e \<Longrightarrow> now' + lag < dl_deadline dl \<Longrightarrow> s' = s1 \<and> lc_state (lifecycle_of S s') = Connected"
    and "r = Inl Panic \<or> r = Inl Diverged \<Longrightarrow> s' = s1 \<and> lc_state (lifecycle_of S s') = Connected"
  using st dl auth run_keeps_lifecycle [OF run]
  by (auto simp: authenticate_within_deadline_def require_def run has_elapsed_def split: sum.splits fault.splits if_splits)

lemma authenticate_state:
  assumes "authenticate_within_deadline S c now lag s = (r, s')"
  shows "lc_state (lifecycle_of S s') = lc_state (lifecycle_of S s)
    \<or> lc_state (lifecycle_of S s) = Connected \<and>
      (lc_state (lifecycle_of S s') = Authenticated
       \<or> lc_state (lifecycle_of S s') = Closed \<and> released s')"
proof (cases "lc_state (lifecycle_of S s) = Connected")
  case False
  then show ?thesis using assms authenticate_guard [OF False, of c now lag] by simp
next
  case st: True
  show ?thesis
  proof (cases "lc_deadline (lifecycle_of S s)")
    case None
    then show ?thesis using assms st by (simp add: authenticate_within_deadline_def require_def)
  next
    case (Some dl)
    obtain x s1 now' where run: "SetupDeadline_run dl Login now (login_step S c s) = (x, s1, now')"
      by (metis prod_cases3)
    note c = authenticate_cases [OF st Some run assms]
    show ?thesis
    proof (cases x)
      case (Inl f)
      then show ?thesis
        using c(4-6) st by (cases f; cases "dl_deadline dl \<le> now' + lag") (simp_all add: not_le)
    next
      case (Inr session)
      then show ?thesis using c st by blast
    qed
  qed
qed

end

end
