(* ===== verification/Native_Transport.thy ===== *)
theory Native_Transport
  imports Handshake Lifecycle Native_Params Result_Parser
begin

text \<open>
  The native transport (\<open>src/transport/native/mod.rs\<close>): its state, the exchange of one
  message, and how a reply is read. What the peer does is data of the stream: the bytes
  that will arrive, what happens when they are used up, and the outcome of each write.
  Every theorem holds for all such data, so for every peer.
\<close>

subsection \<open>Streams\<close>

text \<open>
  The outcome of a write or flush: it completes, fails after some bytes with the text of
  the I/O error, or waits for ever after some bytes. When no outcome is listed it completes.
  A read beyond the last byte of \<open>inbox\<close> fails with the error \<open>inbox_end\<close>, or waits for ever
  when there is none.
\<close>

datatype write_outcome = Completes | Fails nat string | Waits nat

record io_stream =
  inbox :: "byte list"
  inbox_end :: "string option"
  outbox :: "byte list"
  write_outcomes :: "write_outcome list"

datatype NativeStream = Plain io_stream | Tls io_stream

definition io_read_exact :: "nat \<Rightarrow> (io_stream, byte list) action" where
  "io_read_exact n io =
    (if n \<le> length (inbox io) then (Ready (Inr (take n (inbox io))), io\<lparr>inbox := drop n (inbox io)\<rparr>)
     else (case inbox_end io of None \<Rightarrow> Pending | Some e \<Rightarrow> Ready (fail (ReceiveError e)), io\<lparr>inbox := []\<rparr>))"

definition io_write_all :: "byte list \<Rightarrow> (io_stream, unit) action" where
  "io_write_all d io =
    (let rest = io\<lparr>write_outcomes := tl (write_outcomes io)\<rparr>;
         sent = (\<lambda>n. rest\<lparr>outbox := outbox io @ take n d\<rparr>) in
     case write_outcomes io of
       Fails n e # _ \<Rightarrow> (Ready (fail (SendError e)), sent n)
     | Waits n # _ \<Rightarrow> (Pending, sent n)
     | _ \<Rightarrow> (Ready (Inr ()), sent (length d)))"

definition on_stream :: "(io_stream, 'a) action \<Rightarrow> (NativeStream, 'a) action" where
  "on_stream m st = (case st of
      Plain io \<Rightarrow> (case m io of (p, io') \<Rightarrow> (p, Plain io'))
    | Tls io \<Rightarrow> (case m io of (p, io') \<Rightarrow> (p, Tls io')))"

definition read_exact :: "nat \<Rightarrow> (NativeStream, byte list) action" where
  "read_exact n = on_stream (io_read_exact n)"

definition write_all :: "byte list \<Rightarrow> (NativeStream, unit) action" where
  "write_all d = on_stream (io_write_all d)"

definition flush :: "(NativeStream, unit) action" where
  "flush = on_stream (io_write_all [])"

fun io_of :: "NativeStream \<Rightarrow> io_stream" where
  "io_of (Plain io) = io"
| "io_of (Tls io) = io"

subsection \<open>State\<close>

record 'c NativeTcpTransport =
  nt_stream :: "NativeStream option"
  nt_lifecycle :: ConnectionLifecycle
  nt_serial :: SerialCounter
  nt_encryptor :: "'c ChaCha20Encryptor"
  nt_session :: "SessionInfo option"
  nt_tls_active :: bool
  nt_fetch_positions :: "i32 \<rightharpoonup> i64"
  nt_result_columns :: "i32 \<rightharpoonup> NativeColumnMeta list"
  nt_recv_buf :: "byte list"
  nt_current_schema :: "string option"

definition NativeTcpTransport_new :: "'c NativeTcpTransport" where
  "NativeTcpTransport_new = \<lparr>nt_stream = None, nt_lifecycle = ConnectionLifecycle_new,
    nt_serial = SerialCounter_new, nt_encryptor = Encryptor_new, nt_session = None, nt_tls_active = False,
    nt_fetch_positions = Map.empty, nt_result_columns = Map.empty, nt_recv_buf = [], nt_current_schema = None\<rparr>"

text \<open>
  What surrounds the transport: the environment of the response parser, the cipher, the
  environment of the login, JSON values, the text \<open>{:?}\<close> of a response, and Arrow's batch
  without columns.
\<close>

record ('c, 'n) transport_env =
  te_native :: native_env
  te_cipher :: "'c cipher"
  te_login :: "'n login_env"
  te_json :: json_env
  te_debug :: "NativeResponse \<Rightarrow> string"
  te_new_empty :: RecordBatch

definition stream_mut :: "(NativeStream, 'a) action \<Rightarrow> ('c NativeTcpTransport, 'a) action" where
  "stream_mut m t = (case nt_stream t of
      None \<Rightarrow> (Ready (fail (ProtocolError ''Not connected'')), t)
    | Some st \<Rightarrow> (case m st of (p, st') \<Rightarrow> (p, t\<lparr>nt_stream := Some st'\<rparr>)))"

definition send_raw :: "byte list \<Rightarrow> ('c NativeTcpTransport, unit) action" where
  "send_raw d = stream_mut (abind (write_all d) (\<lambda>_. flush))"

definition take_serial :: "('c NativeTcpTransport, u32) action" where
  "take_serial t = (case SerialCounter_next (nt_serial t) of (ser, c) \<Rightarrow> (Ready (Inr ser), t\<lparr>nt_serial := c\<rparr>))"

subsection \<open>Sending\<close>

definition encrypt_payload :: "('c, 'n) transport_env \<Rightarrow> byte list \<Rightarrow> ('c NativeTcpTransport, byte list) action" where
  "encrypt_payload E payload t =
    (if is_active (nt_encryptor t) then
       (case encrypt (te_cipher E) (nt_encryptor t) payload of
          Inl e \<Rightarrow> (Ready (Inl e), t)
        | Inr (payload', enc) \<Rightarrow> (Ready (Inr payload'), t\<lparr>nt_encryptor := enc\<rparr>))
     else (Ready (Inr payload), t))"

definition request_header :: "byte \<Rightarrow> AttributeSet \<Rightarrow> byte list option \<Rightarrow> u32 \<Rightarrow> MessageHeader" where
  "request_header cmd attrs extra_data ser =
    (let attr_bytes = AttributeSet_serialize attrs;
         extra_len = (case extra_data of None \<Rightarrow> 0 | Some d \<Rightarrow> length d) in
     \<lparr>message_length = of_nat (length attr_bytes + extra_len), command = cmd, serial = ser,
      num_attributes = AttributeSet_num_attributes attrs, attribute_data_len = of_nat (length attr_bytes),
      num_result_parts = (if extra_data = None then 0 else 1)\<rparr>)"

definition request_payload :: "AttributeSet \<Rightarrow> byte list option \<Rightarrow> byte list" where
  "request_payload attrs extra_data =
    AttributeSet_serialize attrs @ (case extra_data of None \<Rightarrow> [] | Some d \<Rightarrow> d)"

definition send_message_with_serial ::
  "('c, 'n) transport_env \<Rightarrow> byte \<Rightarrow> AttributeSet \<Rightarrow> byte list option \<Rightarrow> u32 option \<Rightarrow> ('c NativeTcpTransport, unit) action" where
  "send_message_with_serial E cmd attrs extra_data serial_override =
    abind (case serial_override of Some ser \<Rightarrow> areturn ser | None \<Rightarrow> take_serial) (\<lambda>ser.
    abind (encrypt_payload E (request_payload attrs extra_data)) (\<lambda>payload.
    abind (send_raw (serialize_header (request_header cmd attrs extra_data ser))) (\<lambda>_.
      send_raw payload)))"

definition send_message ::
  "('c, 'n) transport_env \<Rightarrow> byte \<Rightarrow> AttributeSet \<Rightarrow> byte list option \<Rightarrow> ('c NativeTcpTransport, unit) action" where
  "send_message E cmd attrs extra_data = send_message_with_serial E cmd attrs extra_data None"

subsection \<open>Attributes of a reply\<close>

definition attribute_bytes :: "AttributeSet \<Rightarrow> u16 \<Rightarrow> byte list option" where
  "attribute_bytes attrs i = (case AttributeSet_get attrs i of
      Some (ABinary b) \<Rightarrow> Some b | Some (AString s) \<Rightarrow> Some (as_bytes s) | _ \<Rightarrow> None)"

definition attribute_text :: "AttributeSet \<Rightarrow> u16 \<Rightarrow> string option" where
  "attribute_text attrs i = (case AttributeSet_get attrs i of Some (AString s) \<Rightarrow> Some s | _ \<Rightarrow> None)"

definition attribute_integer :: "AttributeSet \<Rightarrow> u16 \<Rightarrow> i64 option" where
  "attribute_integer attrs i = (case AttributeSet_get attrs i of
      Some (AInt64 v) \<Rightarrow> Some v | Some (AInt32 v) \<Rightarrow> Some (i32_as_i64 v) | _ \<Rightarrow> None)"

definition current_schema_change :: "AttributeSet \<Rightarrow> string option option" where
  "current_schema_change attrs =
    map_option (\<lambda>name. if name \<noteq> [] then Some name else None) (attribute_text attrs ATTR_CURRENT_SCHEMA)"

definition current_schema_from_get_attributes :: "AttributeSet \<Rightarrow> string option" where
  "current_schema_from_get_attributes attrs = Option.bind (current_schema_change attrs) (\<lambda>s. s)"

definition response_attributes :: "MessageHeader \<Rightarrow> byte list \<Rightarrow> (TransportError, AttributeSet) result" where
  "response_attributes header payload =
    (if num_attributes header = 0 \<or> attribute_data_len header = 0 then Inr AttributeSet_new
     else let attr_len = min (unat (attribute_data_len header)) (length payload) in
       parse_attributes (take attr_len payload) (num_attributes header))"

subsection \<open>Receiving\<close>

definition record_schema :: "AttributeSet \<Rightarrow> 'c NativeTcpTransport \<Rightarrow> 'c NativeTcpTransport" where
  "record_schema attrs t = (case current_schema_change attrs of
      None \<Rightarrow> t | Some schema \<Rightarrow> t\<lparr>nt_current_schema := schema\<rparr>)"

text \<open>
  The payload is read into the buffer, which was resized with zeros; a read that fails
  leaves the bytes that had arrived.
\<close>

definition read_payload :: "nat \<Rightarrow> ('c NativeTcpTransport, unit) action" where
  "read_payload n t = (case nt_stream t of
      None \<Rightarrow> (Ready (fail (ProtocolError ''Not connected'')), t)
    | Some st \<Rightarrow> (case read_exact n st of
        (Ready (Inr d), st') \<Rightarrow> (Ready (Inr ()), t\<lparr>nt_stream := Some st', nt_recv_buf := d\<rparr>)
      | (Ready (Inl e), st') \<Rightarrow> (Ready (Inl e), t\<lparr>nt_stream := Some st',
          nt_recv_buf := take n (inbox (io_of st) @ replicate n 0)\<rparr>)
      | (Pending, st') \<Rightarrow> (Pending, t\<lparr>nt_stream := Some st',
          nt_recv_buf := take n (inbox (io_of st) @ replicate n 0)\<rparr>)))"

definition decrypt_buf :: "('c, 'n) transport_env \<Rightarrow> ('c NativeTcpTransport, unit) action" where
  "decrypt_buf E t =
    (if is_active (nt_encryptor t) then
       (case decrypt (te_cipher E) (nt_encryptor t) (nt_recv_buf t) of
          Inl e \<Rightarrow> (Ready (Inl e), t)
        | Inr (d, enc) \<Rightarrow> (Ready (Inr ()), t\<lparr>nt_recv_buf := d, nt_encryptor := enc\<rparr>))
     else (Ready (Inr ()), t))"

definition fill_buf :: "('c, 'n) transport_env \<Rightarrow> nat \<Rightarrow> ('c NativeTcpTransport, unit) action" where
  "fill_buf E msg_len =
    (if 0 < msg_len then
       abind (alift (alloc (te_native E) msg_len)) (\<lambda>_.
       abind (amodify (\<lambda>t. t\<lparr>nt_recv_buf := replicate msg_len 0\<rparr>)) (\<lambda>_.
       abind (read_payload msg_len) (\<lambda>_. decrypt_buf E)))
     else areturn ())"

definition receive_payload ::
  "('c, 'n) transport_env \<Rightarrow> MessageHeader \<Rightarrow> ('c NativeTcpTransport, MessageHeader) action" where
  "receive_payload E header =
    abind (amodify (\<lambda>t. t\<lparr>nt_recv_buf := []\<rparr>)) (\<lambda>_.
    abind (fill_buf E (unat (message_length header))) (\<lambda>_.
    abind (areads (\<lambda>t. response_attributes header (nt_recv_buf t))) (\<lambda>attrs.
    abind (amodify (record_schema attrs)) (\<lambda>_. areturn header))))"

definition receive_into_buf :: "('c, 'n) transport_env \<Rightarrow> ('c NativeTcpTransport, MessageHeader) action" where
  "receive_into_buf E =
    abind (stream_mut (read_exact HEADER_SIZE)) (\<lambda>hdr.
    abind (alift (case parse_header hdr of None \<Rightarrow> Inl Panic | Some h \<Rightarrow> Inr h)) (\<lambda>header.
      receive_payload E header))"

definition receive_message :: "('c, 'n) transport_env \<Rightarrow> ('c NativeTcpTransport, MessageHeader \<times> byte list) action" where
  "receive_message E = abind (receive_into_buf E) (\<lambda>header. areads (\<lambda>t. Inr (header, nt_recv_buf t)))"

text \<open>\<open>extract_result_data\<close> copies what \<open>result_data_slice\<close> borrows.\<close>

definition result_data_slice :: "MessageHeader \<Rightarrow> byte list \<Rightarrow> byte list" where
  "result_data_slice header payload =
    (let skip = unat (attribute_data_len header) in if skip < length payload then drop skip payload else [])"

definition extract_result_data :: "MessageHeader \<Rightarrow> byte list \<Rightarrow> byte list" where
  "extract_result_data header payload =
    (let attr_len = unat (attribute_data_len header) in
     if attr_len < length payload then drop attr_len payload else [])"

text \<open>
  The loop of \<open>send_and_fill_buf\<close>, with fuel for its turns. Each turn takes a header off
  the inbox, so the bytes that are still to arrive bound the number of turns.
\<close>

primrec await_reply :: "nat \<Rightarrow> ('c, 'n) transport_env \<Rightarrow> ('c NativeTcpTransport, MessageHeader) action" where
  "await_reply 0 E = alift (Inl Diverged)"
| "await_reply (Suc n) E =
    abind (receive_into_buf E) (\<lambda>header.
    abind (areads (\<lambda>t. parse_response (te_native E) (result_data_slice header (nt_recv_buf t)))) (\<lambda>response.
      if terminal response = StillExecuting then await_reply n E else areturn header))"

definition pending_bytes :: "'c NativeTcpTransport \<Rightarrow> nat" where
  "pending_bytes t = (case nt_stream t of None \<Rightarrow> 0 | Some st \<Rightarrow> length (inbox (io_of st)))"

definition send_and_fill_buf ::
  "('c, 'n) transport_env \<Rightarrow> byte \<Rightarrow> AttributeSet \<Rightarrow> byte list option \<Rightarrow> ('c NativeTcpTransport, MessageHeader) action" where
  "send_and_fill_buf E cmd attrs extra_data =
    abind take_serial (\<lambda>command_serial.
    abind (send_message_with_serial E cmd attrs extra_data (Some command_serial)) (\<lambda>_ t.
      await_reply (Suc (pending_bytes t)) E t))"

definition send_and_receive ::
  "('c, 'n) transport_env \<Rightarrow> byte \<Rightarrow> AttributeSet \<Rightarrow> byte list option \<Rightarrow>
    ('c NativeTcpTransport, MessageHeader \<times> byte list) action" where
  "send_and_receive E cmd attrs extra_data =
    abind (send_and_fill_buf E cmd attrs extra_data) (\<lambda>header. areads (\<lambda>t. Inr (header, nt_recv_buf t)))"

subsection \<open>Reading a reply\<close>

definition sql_error :: "string \<Rightarrow> string \<Rightarrow> TransportError" where
  "sql_error message sql_state = ProtocolError (message @ '' (SQL state: '' @ sql_state @ '')'')"

definition check_response ::
  "('c, 'n) transport_env \<Rightarrow> MessageHeader \<Rightarrow> byte list \<Rightarrow> (TransportError, NativeResponseEnvelope) result" where
  "check_response E header payload =
    rbind (parse_response (te_native E) (extract_result_data header payload)) (\<lambda>response.
      case terminal response of
        Exception message sql_state \<Rightarrow> fail (sql_error message sql_state)
      | _ \<Rightarrow> Inr response)"

definition native_result_to_query_result ::
  "('c, 'n) transport_env \<Rightarrow> NativeResponse \<Rightarrow> (TransportError, QueryResult) result" where
  "native_result_to_query_result E response = (case response of
      ResultSet handle columns batch total_rows _ \<Rightarrow>
        Inr (QResultSet (if handle = SMALL_RESULTSET then None else Some handle)
          \<lparr>rd_columns = to_column_info columns,
           rd_data = PayloadArrow (case batch of Some b \<Rightarrow> b | None \<Rightarrow> te_new_empty E),
           rd_total_rows = total_rows\<rparr>)
    | RowCount count \<Rightarrow> Inr (QRowCount count)
    | Empty \<Rightarrow> Inr (QRowCount 0)
    | other \<Rightarrow> fail (ProtocolError (''Unexpected native response where a query result was expected: ''
        @ te_debug E other)))"

definition cache_result :: "NativeResponse \<Rightarrow> 'c NativeTcpTransport \<Rightarrow> 'c NativeTcpTransport" where
  "cache_result response t = (case response of
      ResultSet handle columns _ _ rows_received \<Rightarrow>
        (if handle \<noteq> SMALL_RESULTSET then
           t\<lparr>nt_result_columns := (nt_result_columns t)(handle \<mapsto> columns),
             nt_fetch_positions := (nt_fetch_positions t)(handle \<mapsto> rows_received)\<rparr>
         else t)
    | _ \<Rightarrow> t)"

definition convert_and_cache_result ::
  "('c, 'n) transport_env \<Rightarrow> NativeResponse \<Rightarrow> ('c NativeTcpTransport, QueryResult) action" where
  "convert_and_cache_result E response =
    abind (amodify (cache_result response)) (\<lambda>_. alift (native_result_to_query_result E response))"

definition server_message_size :: "'c NativeTcpTransport \<Rightarrow> i64" where
  "server_message_size t = (case nt_session t of
      Some s \<Rightarrow> max_data_message_size s | None \<Rightarrow> ucast MAX_DATA_MESSAGE_SIZE)"

end
