(* ===== verification/Native_Session.thy ===== *)
theory Native_Session
  imports Native_Transport
begin

text \<open>
  The session of the native transport (\<open>src/transport/native/mod.rs\<close>): connecting, the login
  exchange, and the steps that the shared lifecycle runs. The TCP connect, the socket option
  and the TLS handshake are parameters. The locale of the lifecycle is interpreted here on
  the native transport.
\<close>

subsection \<open>Login\<close>

definition negotiated_protocol_version :: "i64 option \<Rightarrow> (TransportError, i32) result" where
  "negotiated_protocol_version reported = (case reported of
      None \<Rightarrow> Inr PROTOCOL_VERSION
    | Some version \<Rightarrow>
      if sint version < int (unat MIN_PROTOCOL_VERSION) then
        fail (ProtocolError (''unsupported server: native protocol version '' @ show_int (sint version)
          @ '' is below the minimum supported version '' @ show_nat (unat MIN_PROTOCOL_VERSION)))
      else if in_signed 32 (sint version) then Inr (of_int (sint version))
      else fail (ProtocolError (''malformed login response: native protocol version '' @ show_int (sint version)
          @ '' does not fit in 32 bits'')))"

definition reject_exception ::
  "('c, 'n) transport_env \<Rightarrow> string \<Rightarrow> byte list \<Rightarrow> (TransportError, unit) result" where
  "reject_exception E context result_data =
    (if result_data = [] then Inr ()
     else rbind (parse_response (te_native E) result_data) (\<lambda>response.
       case terminal response of
         Exception message sql_state \<Rightarrow>
           fail (ProtocolError (context @ '': '' @ message @ '' (SQL state: '' @ sql_state @ '')''))
       | _ \<Rightarrow> Inr ()))"

definition auth_message ::
  "('c, 'n) transport_env \<Rightarrow> Credentials \<Rightarrow> byte list \<Rightarrow> byte list \<Rightarrow> bool \<Rightarrow> ('c NativeTcpTransport, AuthMessage) action" where
  "auth_message E credentials public_key random_phrase use_chacha20 t =
    (case build_auth_message (overflow_checks (te_native E)) (te_login E) (password credentials) public_key
        random_phrase (nt_serial t) use_chacha20 of
       Inl e \<Rightarrow> (Ready (Inl e), t)
     | Inr (auth, counter) \<Rightarrow> (Ready (Inr auth), t\<lparr>nt_serial := counter\<rparr>))"

definition activate_encryption ::
  "('c, 'n) transport_env \<Rightarrow> bool \<Rightarrow> AuthMessage \<Rightarrow> ('c NativeTcpTransport, unit) action" where
  "activate_encryption E use_chacha20 auth t =
    (if use_chacha20 \<and> send_key auth \<noteq> [] then
       (case set_keys (te_cipher E) (send_key auth) (recv_key auth) (nt_encryptor t) of
          Inl e \<Rightarrow> (Ready (Inl e), t)
        | Inr enc \<Rightarrow> (Ready (Inr ()), t\<lparr>nt_encryptor := enc\<rparr>))
     else (Ready (Inr ()), t))"

text \<open>
  What the session records: the answer to GET_ATTRIBUTES first, then the login response,
  then a default.
\<close>

definition either_text :: "AttributeSet \<Rightarrow> AttributeSet \<Rightarrow> u16 \<Rightarrow> string" where
  "either_text ga_attrs server_attrs i = (case attribute_text ga_attrs i of
      Some s \<Rightarrow> s | None \<Rightarrow> (case attribute_text server_attrs i of Some s \<Rightarrow> s | None \<Rightarrow> []))"

definition login_session :: "AttributeSet \<Rightarrow> AttributeSet \<Rightarrow> i32 \<Rightarrow> SessionInfo" where
  "login_session server_attrs ga_attrs version =
    \<lparr>session_id = (case attribute_integer ga_attrs ATTR_SESSIONID of
        Some i \<Rightarrow> show_int (sint i)
      | None \<Rightarrow> (case attribute_integer server_attrs ATTR_SESSIONID of Some i \<Rightarrow> show_int (sint i) | None \<Rightarrow> ''0'')),
     protocol_version = version,
     release_version = either_text ga_attrs server_attrs ATTR_RELEASE_VERSION,
     database_name = either_text ga_attrs server_attrs ATTR_DATABASE_NAME,
     product_name = either_text ga_attrs server_attrs ATTR_PRODUCT_NAME,
     max_data_message_size = (case attribute_integer server_attrs ATTR_DATA_MESSAGE_SIZE of
        Some n \<Rightarrow> n | None \<Rightarrow> ucast MAX_DATA_MESSAGE_SIZE),
     time_zone = (case attribute_text ga_attrs ATTR_TIMEZONE of
        Some z \<Rightarrow> Some z | None \<Rightarrow> attribute_text server_attrs ATTR_TIMEZONE)\<rparr>"

definition required_bytes :: "AttributeSet \<Rightarrow> u16 \<Rightarrow> string \<Rightarrow> (TransportError, byte list) result" where
  "required_bytes attrs i what = (case attribute_bytes attrs i of
      Some b \<Rightarrow> Inr b | None \<Rightarrow> fail (ProtocolError (''Server did not send '' @ what)))"

text \<open>The three phases of the login: greeting, password and keys, session attributes.\<close>

definition login_greeting ::
  "('c, 'n) transport_env \<Rightarrow> Credentials \<Rightarrow> ('c NativeTcpTransport, AttributeSet \<times> byte list \<times> byte list \<times> i32) action" where
  "login_greeting E credentials =
    abind (send_raw (build_login_packet (te_login E) credentials)) (\<lambda>_.
    abind (receive_message E) (\<lambda>(login_header, login_payload).
    alift (rbind (parse_attributes login_payload (num_attributes login_header)) (\<lambda>server_attrs.
      rbind (required_bytes server_attrs ATTR_PUBLIC_KEY ''public key'') (\<lambda>public_key.
      rbind (required_bytes server_attrs ATTR_RANDOM_PHRASE ''random phrase'') (\<lambda>random_phrase.
      rbind (negotiated_protocol_version (attribute_integer server_attrs ATTR_PROTOCOL_VERSION)) (\<lambda>version.
        Inr (server_attrs, public_key, random_phrase, version))))))))"

definition login_password ::
  "('c, 'n) transport_env \<Rightarrow> Credentials \<Rightarrow> byte list \<Rightarrow> byte list \<Rightarrow> ('c NativeTcpTransport, unit) action" where
  "login_password E credentials public_key random_phrase =
    abind (areads (\<lambda>t. Inr (\<not> nt_tls_active t))) (\<lambda>use_chacha20.
    abind (auth_message E credentials public_key random_phrase use_chacha20) (\<lambda>auth.
    abind (send_raw (wire_bytes auth)) (\<lambda>_.
    abind (receive_message E) (\<lambda>(header, payload).
    abind (alift (reject_exception E ''Authentication failed'' (extract_result_data header payload))) (\<lambda>_.
      activate_encryption E use_chacha20 auth)))))"

definition login_attributes_reply :: "('c, 'n) transport_env \<Rightarrow> ('c NativeTcpTransport, AttributeSet) action" where
  "login_attributes_reply E =
    abind (send_message E CMD_GET_ATTRIBUTES AttributeSet_new None) (\<lambda>_.
    abind (receive_message E) (\<lambda>(ga_header, ga_payload).
    abind (alift (reject_exception E ''GET_ATTRIBUTES failed'' (extract_result_data ga_header ga_payload))) (\<lambda>_.
      alift (response_attributes ga_header ga_payload))))"

definition login_exchange ::
  "('c, 'n) transport_env \<Rightarrow> Credentials \<Rightarrow> ('c NativeTcpTransport, SessionInfo) action" where
  "login_exchange E credentials =
    abind (login_greeting E credentials) (\<lambda>(server_attrs, public_key, random_phrase, version).
    abind (login_password E credentials public_key random_phrase) (\<lambda>_.
    abind (login_attributes_reply E) (\<lambda>ga_attrs.
    abind (amodify (\<lambda>t. t\<lparr>nt_current_schema := current_schema_from_get_attributes ga_attrs\<rparr>)) (\<lambda>_.
    let session = login_session server_attrs ga_attrs version in
    abind (amodify (\<lambda>t. t\<lparr>nt_session := Some session\<rparr>)) (\<lambda>_. areturn session)))))"

subsection \<open>Lifecycle steps\<close>

text \<open>Errors of the disconnect are ignored; a panic is not an error.\<close>

definition send_disconnect :: "('c, 'n) transport_env \<Rightarrow> ('c NativeTcpTransport, unit) action" where
  "send_disconnect E t =
    (if lc_state (nt_lifecycle t) = Authenticated then
       (case send_and_receive E CMD_DISCONNECT AttributeSet_new None t of
          (Pending, t') \<Rightarrow> (Pending, t')
        | (Ready (Inl Panic), t') \<Rightarrow> (Ready (Inl Panic), t')
        | (Ready (Inl Diverged), t') \<Rightarrow> (Ready (Inl Diverged), t')
        | (Ready _, t') \<Rightarrow> (Ready (Inr ()), t'))
     else (Ready (Inr ()), t))"

definition release_connection :: "'c NativeTcpTransport \<Rightarrow> 'c NativeTcpTransport" where
  "release_connection t = t\<lparr>nt_stream := None, nt_session := None, nt_current_schema := None\<rparr>"

text \<open>
  The login as the deadline sees it: it would end at \<open>lt_finish\<close>. When it is dropped earlier,
  \<open>lt_arrived\<close> bytes had come in and the writes had gone as \<open>lt_writes\<close> says: the state it
  leaves is the one in which it waits for more.
\<close>

record login_timing =
  lt_finish :: instant
  lt_arrived :: nat
  lt_writes :: "write_outcome list"

definition interrupted :: "login_timing \<Rightarrow> 'c NativeTcpTransport \<Rightarrow> 'c NativeTcpTransport" where
  "interrupted lt t =
    (let stop = (\<lambda>io. io\<lparr>inbox := take (lt_arrived lt) (inbox io), inbox_end := None,
           write_outcomes := lt_writes lt\<rparr>) in
     t\<lparr>nt_stream := map_option (\<lambda>st. case st of Plain io \<Rightarrow> Plain (stop io) | Tls io \<Rightarrow> Tls (stop io)) (nt_stream t)\<rparr>)"

definition native_login ::
  "('c, 'n) transport_env \<Rightarrow> login_timing \<Rightarrow> Credentials \<Rightarrow> 'c NativeTcpTransport \<Rightarrow>
    ('c NativeTcpTransport, SessionInfo) async_run" where
  "native_login E lt credentials t =
    (case login_exchange E credentials t of (p, t') \<Rightarrow>
      \<lparr>outcome = p, finish = lt_finish lt, final = t',
       cut = snd (login_exchange E credentials (interrupted lt t))\<rparr>)"

definition native_steps :: "('c, 'n) transport_env \<Rightarrow> login_timing \<Rightarrow> 'c NativeTcpTransport LifecycleSteps" where
  "native_steps E lt = \<lparr>lifecycle_of = nt_lifecycle, set_lifecycle = (\<lambda>lc t. t\<lparr>nt_lifecycle := lc\<rparr>),
    login_step = native_login E lt, disconnect_step = send_disconnect E, release_step = release_connection\<rparr>"

subsection \<open>Connecting\<close>

text \<open>
  The network: what a TCP connect to an address comes to and when, the socket option, and
  the TLS handshake over a stream for a host with a certificate policy.
\<close>

record network =
  nw_connect :: "string \<Rightarrow> (string + io_stream) option \<times> instant"
  nw_set_nodelay :: "io_stream \<Rightarrow> string option"
  nw_tls :: "io_stream \<Rightarrow> string \<Rightarrow> string option \<Rightarrow> bool \<Rightarrow> (unit, io_stream) async_run"

definition tcp_connect :: "network \<Rightarrow> string \<Rightarrow> (unit, io_stream) async_run" where
  "tcp_connect W addr =
    \<lparr>outcome = (case fst (nw_connect W addr) of
        None \<Rightarrow> Pending
      | Some (Inl e) \<Rightarrow> Ready (fail (IoError e))
      | Some (Inr io) \<Rightarrow> Ready (Inr io)),
     finish = snd (nw_connect W addr), final = (), cut = ()\<rparr>"

definition open_stream :: "NativeStream \<Rightarrow> bool \<Rightarrow> SetupDeadline \<Rightarrow> 'c NativeTcpTransport \<Rightarrow> 'c NativeTcpTransport" where
  "open_stream st tls dl t =
    (let t = t\<lparr>nt_stream := Some st\<rparr>; t = (if tls then t\<lparr>nt_tls_active := True\<rparr> else t) in
     t\<lparr>nt_lifecycle := connected dl (nt_lifecycle t)\<rparr>)"

definition connect ::
  "network \<Rightarrow> instant \<Rightarrow> instant \<Rightarrow> ConnectionParams \<Rightarrow> 'c NativeTcpTransport \<Rightarrow>
    (TransportError, unit) result \<times> 'c NativeTcpTransport" where
  "connect W clock_max now params t =
    (case begin_connect (nt_lifecycle t) clock_max now (timeout_ms params) of
       Inl e \<Rightarrow> (Inl e, t)
     | Inr deadline \<Rightarrow>
       (case SetupDeadline_run deadline TcpConnect now
           (tcp_connect W (host params @ '':'' @ show_nat (unat (port params)))) of
          (Inl e, _, _) \<Rightarrow> (Inl e, t)
        | (Inr tcp, _, now1) \<Rightarrow>
          (case nw_set_nodelay W tcp of
             Some e \<Rightarrow> (fail (IoError e), t)
           | None \<Rightarrow>
             if use_tls params then
               (case SetupDeadline_run deadline TlsHandshake now1
                   (nw_tls W tcp (host params) (certificate_fingerprint params) (validate_server_certificate params)) of
                  (Inl e, _, _) \<Rightarrow> (Inl e, t)
                | (Inr tls, _, _) \<Rightarrow> (Inr (), open_stream (Tls tls) True deadline t))
             else (Inr (), open_stream (Plain tcp) False deadline t))))"

definition authenticate ::
  "('c, 'n) transport_env \<Rightarrow> login_timing \<Rightarrow> Credentials \<Rightarrow> instant \<Rightarrow> nat \<Rightarrow> 'c NativeTcpTransport \<Rightarrow>
    (TransportError, SessionInfo) result \<times> 'c NativeTcpTransport" where
  "authenticate E lt = authenticate_within_deadline (native_steps E lt)"

definition close :: "('c, 'n) transport_env \<Rightarrow> login_timing \<Rightarrow> ('c NativeTcpTransport, unit) action" where
  "close E lt = close_gracefully (native_steps E lt)"

definition terminate_transport ::
  "('c, 'n) transport_env \<Rightarrow> login_timing \<Rightarrow> 'c NativeTcpTransport \<Rightarrow> 'c NativeTcpTransport" where
  "terminate_transport E lt = terminate (native_steps E lt)"

definition is_connected :: "'c NativeTcpTransport \<Rightarrow> bool" where
  "is_connected t = is_open (nt_lifecycle t)"

end
