(* ===== verification/Native_Commands.thy ===== *)
theory Native_Commands
  imports Native_Session
begin

text \<open>
  The operations of a logged-in session (\<open>src/transport/native/mod.rs\<close>): queries, fetches,
  prepared statements and session attributes. \<open>command\<close> and \<open>run_command\<close> list them for the
  statements about every operation.
\<close>

definition require_authenticated :: "string \<Rightarrow> ('c NativeTcpTransport, unit) action" where
  "require_authenticated what =
    areads (\<lambda>t. require (nt_lifecycle t) Authenticated (''Must authenticate before '' @ what))"

subsection \<open>Queries and results\<close>

definition execute_query :: "('c, 'n) transport_env \<Rightarrow> string \<Rightarrow> ('c NativeTcpTransport, QueryResult) action" where
  "execute_query E sql =
    abind (require_authenticated ''executing queries'') (\<lambda>_.
    abind (send_and_fill_buf E CMD_EXECUTE AttributeSet_new (Some (as_bytes sql))) (\<lambda>header.
    abind (areads (\<lambda>t. rbind (parse_response (te_native E) (result_data_slice header (nt_recv_buf t))) (\<lambda>r.
      case terminal r of
        Exception message sql_state \<Rightarrow> fail (sql_error message sql_state)
      | response \<Rightarrow> Inr response))) (\<lambda>response.
      convert_and_cache_result E response)))"

definition fetch_request :: "i32 \<Rightarrow> i64 \<Rightarrow> i64 \<Rightarrow> byte list" where
  "fetch_request handle_id start_position fetch_size_bytes =
    u32_to_le handle_id @ u64_to_le start_position @ u64_to_le fetch_size_bytes"

definition add_i64 :: "('c, 'n) transport_env \<Rightarrow> i64 \<Rightarrow> i64 \<Rightarrow> (TransportError, i64) result" where
  "add_i64 E a b =
    (if overflow_checks (te_native E) \<and> \<not> in_signed 64 (sint a + sint b) then Inl Panic else Inr (a + b))"

definition advance_position ::
  "('c, 'n) transport_env \<Rightarrow> i32 \<Rightarrow> i64 \<Rightarrow> i64 \<Rightarrow> ('c NativeTcpTransport, unit) action" where
  "advance_position E handle_id start_position rows_received =
    abind (alift (add_i64 E start_position rows_received)) (\<lambda>p.
      amodify (\<lambda>t. t\<lparr>nt_fetch_positions := (nt_fetch_positions t)(handle_id \<mapsto> p)\<rparr>))"

definition arrow_data :: "ColumnInfo list \<Rightarrow> RecordBatch \<Rightarrow> i64 \<Rightarrow> ResultData" where
  "arrow_data columns batch n = \<lparr>rd_columns = columns, rd_data = PayloadArrow batch, rd_total_rows = n\<rparr>"

definition fetch_response ::
  "('c, 'n) transport_env \<Rightarrow> i32 \<Rightarrow> i64 \<Rightarrow> NativeColumnMeta list \<Rightarrow> NativeResponse \<Rightarrow>
    ('c NativeTcpTransport, ResultData) action" where
  "fetch_response E handle_id start_position cached_columns response = (case response of
      MoreRows d \<Rightarrow>
        abind (alift (parse_fetch_to_record_batch (te_native E) d cached_columns)) (\<lambda>(rows_received, batch).
        abind (advance_position E handle_id start_position rows_received) (\<lambda>_.
          areturn (arrow_data (to_column_info cached_columns) batch rows_received)))
    | ResultSet _ columns batch total_rows rows_received \<Rightarrow>
        abind (advance_position E handle_id start_position rows_received) (\<lambda>_.
          areturn (arrow_data (to_column_info columns)
            (case batch of Some b \<Rightarrow> b | None \<Rightarrow> te_new_empty E) total_rows))
    | Empty \<Rightarrow> areturn (arrow_data [] (te_new_empty E) 0)
    | other \<Rightarrow> athrow (ProtocolError (''Expected a result set or more-rows response from CMD_FETCH2, got ''
        @ te_debug E other)))"

definition fetch_results :: "('c, 'n) transport_env \<Rightarrow> ResultSetHandle \<Rightarrow> ('c NativeTcpTransport, ResultData) action" where
  "fetch_results E handle_id =
    abind (require_authenticated ''fetching results'') (\<lambda>_.
    abind (areads (\<lambda>t.
      let start_position = (case nt_fetch_positions t handle_id of Some p \<Rightarrow> p | None \<Rightarrow> 0) in
      case nt_result_columns t handle_id of
        None \<Rightarrow> fail (ProtocolError ''No cached column metadata for fetch'')
      | Some cached_columns \<Rightarrow> Inr (start_position, server_message_size t, cached_columns)))
      (\<lambda>(start_position, fetch_size_bytes, cached_columns).
    abind (send_and_fill_buf E CMD_FETCH2 AttributeSet_new
      (Some (fetch_request handle_id start_position fetch_size_bytes))) (\<lambda>header.
    abind (areads (\<lambda>t. check_response E header (nt_recv_buf t))) (\<lambda>response.
      fetch_response E handle_id start_position cached_columns (terminal response)))))"

definition close_request ::
  "('c, 'n) transport_env \<Rightarrow> byte \<Rightarrow> i32 \<Rightarrow> ('c NativeTcpTransport, unit) action" where
  "close_request E cmd handle_id =
    abind (send_and_receive E cmd AttributeSet_new (Some (u32_to_le handle_id))) (\<lambda>(header, payload).
      if payload \<noteq> [] then abind (alift (check_response E header payload)) (\<lambda>_. areturn ()) else areturn ())"

definition close_result_set :: "('c, 'n) transport_env \<Rightarrow> ResultSetHandle \<Rightarrow> ('c NativeTcpTransport, unit) action" where
  "close_result_set E handle_id =
    abind (require_authenticated ''closing result sets'') (\<lambda>_.
    abind (amodify (\<lambda>t. t\<lparr>nt_fetch_positions := (nt_fetch_positions t)(handle_id := None),
        nt_result_columns := (nt_result_columns t)(handle_id := None)\<rparr>)) (\<lambda>_.
      close_request E CMD_CLOSE_RESULTSET handle_id))"

subsection \<open>Prepared statements\<close>

definition prepared_handle ::
  "i32 \<Rightarrow> NativeColumnMeta list \<Rightarrow> NativeColumnMeta list \<Rightarrow> PreparedStatementHandle" where
  "prepared_handle stmt_handle parameters result_columns =
    with_result_columns (PreparedStatementHandle_new stmt_handle (of_nat (length parameters))
      (map native_meta_to_data_type parameters)
      (map (\<lambda>c. if cm_name c = [] then None else Some (cm_name c)) parameters))
      (to_column_info result_columns)"

definition create_prepared_statement ::
  "('c, 'n) transport_env \<Rightarrow> string \<Rightarrow> ('c NativeTcpTransport, PreparedStatementHandle) action" where
  "create_prepared_statement E sql =
    abind (require_authenticated ''creating prepared statements'') (\<lambda>_.
    abind (send_and_receive E CMD_CREATE_PREPARED AttributeSet_new (Some (as_bytes sql))) (\<lambda>(header, payload).
    abind (alift (check_response E header payload)) (\<lambda>response.
      alift (case terminal response of
          PreparedStatement stmt_handle parameters result_columns \<Rightarrow>
            Inr (prepared_handle stmt_handle parameters result_columns)
        | Empty \<Rightarrow> Inr (PreparedStatementHandle_new 0 0 [] [])
        | _ \<Rightarrow> fail (ProtocolError ''Unexpected response from CREATE PREPARED'')))))"

definition run_execute_prepared ::
  "('c, 'n) transport_env \<Rightarrow> byte list \<Rightarrow> ('c NativeTcpTransport, QueryResult) action" where
  "run_execute_prepared E d =
    abind (send_and_receive E CMD_EXECUTE_PREPARED execute_prepared_attributes (Some d)) (\<lambda>(header, payload).
    abind (alift (check_response E header payload)) (\<lambda>response.
      convert_and_cache_result E (terminal response)))"

text \<open>The new total, or the result set that ends the batch.\<close>

definition add_range_result ::
  "('c, 'n) transport_env \<Rightarrow> i64 \<Rightarrow> QueryResult \<Rightarrow> (TransportError, i64 + QueryResult) result" where
  "add_range_result E affected_rows result = (case result of
      QRowCount count \<Rightarrow> rbind (add_i64 E affected_rows count) (\<lambda>n. Inr (Inl n))
    | result_set \<Rightarrow> Inr (Inr result_set))"

fun execute_ranges_from ::
  "('c, 'n) transport_env \<Rightarrow> PreparedStatementHandle \<Rightarrow> EncodedParameterRows \<Rightarrow> RowRange list \<Rightarrow> i64 \<Rightarrow>
    ('c NativeTcpTransport, QueryResult) action" where
  "execute_ranges_from E h encoded [] affected_rows = areturn (QRowCount affected_rows)"
| "execute_ranges_from E h encoded (r # rs) affected_rows =
    abind (alift (build_range_payload h encoded r)) (\<lambda>d.
    abind (run_execute_prepared E d) (\<lambda>result.
    abind (alift (add_range_result E affected_rows result)) (\<lambda>step.
      case step of Inr result_set \<Rightarrow> areturn result_set
      | Inl n \<Rightarrow> execute_ranges_from E h encoded rs n)))"

definition execute_prepared_ranges ::
  "('c, 'n) transport_env \<Rightarrow> PreparedStatementHandle \<Rightarrow> EncodedParameterRows \<Rightarrow> ('c NativeTcpTransport, QueryResult) action" where
  "execute_prepared_ranges E h encoded = execute_ranges_from E h encoded (ep_ranges encoded) 0"

text \<open>\<open>usize::try_from\<close> of a negative size falls back to the documented default.\<close>

definition message_limit :: "'c NativeTcpTransport \<Rightarrow> nat" where
  "message_limit t = (let n = sint (server_message_size t) in
    if 0 \<le> n then nat n else unat MAX_DATA_MESSAGE_SIZE)"

definition execute_prepared_statement ::
  "('c, 'n) transport_env \<Rightarrow> PreparedStatementHandle \<Rightarrow> json list list option \<Rightarrow> ('c NativeTcpTransport, QueryResult) action" where
  "execute_prepared_statement E h parameters =
    abind (require_authenticated ''executing prepared statements'') (\<lambda>_.
    abind (areads (\<lambda>t. case parameters of
        Some cols \<Rightarrow>
          (if ps_result_columns h = []
           then rbind (split_parameter_rows (te_json E) h cols (message_limit t)) (\<lambda>e. Inr (Some e))
           else Inr None)
      | None \<Rightarrow> Inr None)) (\<lambda>encoded.
      case encoded of
        Some e \<Rightarrow>
          (if ep_ranges e \<noteq> [] then execute_prepared_ranges E h e
           else abind (alift (build_execute_prepared_payload (te_json E) h parameters)) (run_execute_prepared E))
      | None \<Rightarrow> abind (alift (build_execute_prepared_payload (te_json E) h parameters)) (run_execute_prepared E)))"

definition close_prepared_statement ::
  "('c, 'n) transport_env \<Rightarrow> PreparedStatementHandle \<Rightarrow> ('c NativeTcpTransport, unit) action" where
  "close_prepared_statement E h =
    abind (require_authenticated ''closing prepared statements'') (\<lambda>_.
      close_request E CMD_CLOSE_PREPARED (ps_handle h))"

subsection \<open>Session attributes\<close>

definition set_attributes :: "('c, 'n) transport_env \<Rightarrow> AttributeSet \<Rightarrow> ('c NativeTcpTransport, unit) action" where
  "set_attributes E attrs =
    abind (require_authenticated ''setting attributes'') (\<lambda>_.
    abind (send_and_fill_buf E CMD_SET_ATTRIBUTES attrs None) (\<lambda>header.
    abind (areads (\<lambda>t. check_response E header (nt_recv_buf t))) (\<lambda>_. areturn ())))"

definition set_autocommit :: "('c, 'n) transport_env \<Rightarrow> bool \<Rightarrow> ('c NativeTcpTransport, unit) action" where
  "set_autocommit E enabled =
    set_attributes E (AttributeSet_add AttributeSet_new ATTR_AUTOCOMMIT (ABool enabled))"

definition set_query_timeout :: "('c, 'n) transport_env \<Rightarrow> u64 \<Rightarrow> ('c NativeTcpTransport, unit) action" where
  "set_query_timeout E timeout_secs =
    (if unat timeout_secs < 2 ^ 31 then
       set_attributes E (AttributeSet_add AttributeSet_new ATTR_QUERY_TIMEOUT (AInt32 (ucast timeout_secs)))
     else athrow (ProtocolError (''query_timeout of '' @ show_nat (unat timeout_secs)
       @ ''s exceeds the native protocol's i32 range'')))"

definition refresh_current_schema :: "('c, 'n) transport_env \<Rightarrow> ('c NativeTcpTransport, string option) action" where
  "refresh_current_schema E =
    abind (require_authenticated ''reading attributes'') (\<lambda>_.
    abind (send_and_fill_buf E CMD_GET_ATTRIBUTES AttributeSet_new None) (\<lambda>header.
    abind (areads (\<lambda>t. check_response E header (nt_recv_buf t))) (\<lambda>_.
    abind (areads (\<lambda>t. response_attributes header (nt_recv_buf t))) (\<lambda>attrs.
    abind (amodify (\<lambda>t. t\<lparr>nt_current_schema := current_schema_from_get_attributes attrs\<rparr>)) (\<lambda>_.
      areads (\<lambda>t. Inr (nt_current_schema t)))))))"

definition set_current_schema :: "('c, 'n) transport_env \<Rightarrow> string \<Rightarrow> ('c NativeTcpTransport, unit) action" where
  "set_current_schema E schema =
    abind (set_attributes E (AttributeSet_add AttributeSet_new ATTR_CURRENT_SCHEMA (AString schema))) (\<lambda>_.
    abind (refresh_current_schema E) (\<lambda>_. areturn ()))"

definition current_schema :: "'c NativeTcpTransport \<Rightarrow> string option" where
  "current_schema t = nt_current_schema t"

subsection \<open>All operations of a session\<close>

datatype command =
    ExecuteQuery string
  | FetchResults ResultSetHandle
  | CloseResultSet ResultSetHandle
  | CreatePreparedStatement string
  | ExecutePreparedStatement PreparedStatementHandle "json list list option"
  | ClosePreparedStatement PreparedStatementHandle
  | SetAutocommit bool
  | SetQueryTimeout u64
  | SetCurrentSchema string
  | RefreshCurrentSchema

datatype reply =
    QueryReply QueryResult
  | DataReply ResultData
  | HandleReply PreparedStatementHandle
  | SchemaReply "string option"
  | UnitReply

abbreviation reply_with :: "('a \<Rightarrow> reply) \<Rightarrow> ('s, 'a) action \<Rightarrow> ('s, reply) action" where
  "reply_with g m \<equiv> abind m (\<lambda>x. areturn (g x))"

fun run_command :: "('c, 'n) transport_env \<Rightarrow> command \<Rightarrow> ('c NativeTcpTransport, reply) action" where
  "run_command E (ExecuteQuery sql) = reply_with QueryReply (execute_query E sql)"
| "run_command E (FetchResults h) = reply_with DataReply (fetch_results E h)"
| "run_command E (CloseResultSet h) = reply_with (\<lambda>_. UnitReply) (close_result_set E h)"
| "run_command E (CreatePreparedStatement sql) = reply_with HandleReply (create_prepared_statement E sql)"
| "run_command E (ExecutePreparedStatement h ps) = reply_with QueryReply (execute_prepared_statement E h ps)"
| "run_command E (ClosePreparedStatement h) = reply_with (\<lambda>_. UnitReply) (close_prepared_statement E h)"
| "run_command E (SetAutocommit b) = reply_with (\<lambda>_. UnitReply) (set_autocommit E b)"
| "run_command E (SetQueryTimeout n) = reply_with (\<lambda>_. UnitReply) (set_query_timeout E n)"
| "run_command E (SetCurrentSchema s) = reply_with (\<lambda>_. UnitReply) (set_current_schema E s)"
| "run_command E RefreshCurrentSchema = reply_with SchemaReply (refresh_current_schema E)"

end
