(* ===== verification/Transport_Frame.thy ===== *)
theory Transport_Frame
  imports Native_Commands
begin

text \<open>
  What every operation of the native transport leaves alone. \<open>wire_step\<close> relates the states
  before and after an exchange of messages, \<open>session_step\<close> those before and after a whole
  operation or login; both are interpretations of \<open>step_relation\<close>, whose rules carry them
  through the code. With them the steps of the native transport keep the contract of the
  lifecycle.
\<close>

named_theorems wire_steps \<open>actions that are exchanges of messages\<close>
named_theorems session_steps \<open>actions that keep the session\<close>

definition wire_step :: "'c NativeTcpTransport \<Rightarrow> 'c NativeTcpTransport \<Rightarrow> bool" where
  "wire_step t t' \<longleftrightarrow> nt_lifecycle t' = nt_lifecycle t \<and> nt_tls_active t' = nt_tls_active t
    \<and> nt_session t' = nt_session t \<and> nt_fetch_positions t' = nt_fetch_positions t
    \<and> nt_result_columns t' = nt_result_columns t \<and> (nt_stream t' = None \<longleftrightarrow> nt_stream t = None)
    \<and> (is_active (nt_encryptor t) \<longrightarrow> is_active (nt_encryptor t'))
    \<and> pending_bytes t' \<le> pending_bytes t"

interpretation wire: step_relation wire_step
  by unfold_locales (auto simp: wire_step_def)

lemma steps_by_snd: "steps_by R m \<Longrightarrow> R s (snd (m s))"
  by (simp add: steps_by_def)

subsection \<open>Streams\<close>

lemma io_read_exact_inbox: "io_read_exact n io = (p, io') \<Longrightarrow> length (inbox io') \<le> length (inbox io)"
  by (auto simp: io_read_exact_def split: if_splits)

lemma io_write_all_inbox: "io_write_all d io = (p, io') \<Longrightarrow> inbox io' = inbox io"
  by (auto simp: io_write_all_def Let_def split: list.splits write_outcome.splits)

lemma io_of_on_stream: "on_stream m st = (p, st') \<Longrightarrow> m (io_of st) = (p, io_of st')"
  by (cases st) (auto simp: on_stream_def split: prod.splits)

lemma read_exact_shrinks: "read_exact n st = (p, st') \<Longrightarrow> length (inbox (io_of st')) \<le> length (inbox (io_of st))"
  using io_read_exact_inbox unfolding read_exact_def by (blast dest: io_of_on_stream)

lemma write_keeps_inbox:
  "write_all d st = (p, st') \<Longrightarrow> inbox (io_of st') = inbox (io_of st)"
  "flush st = (p', st') \<Longrightarrow> inbox (io_of st') = inbox (io_of st)"
  unfolding write_all_def flush_def by (auto dest: io_of_on_stream io_write_all_inbox)

lemma wire_stream_mut:
  assumes "\<And>st p st'. m st = (p, st') \<Longrightarrow> length (inbox (io_of st')) \<le> length (inbox (io_of st))"
  shows "steps_by wire_step (stream_mut m)"
  using assms by (auto simp: steps_by_def stream_mut_def wire_step_def pending_bytes_def split: option.split prod.split)

lemma wire_send_raw [wire_steps]: "steps_by wire_step (send_raw d)"
  unfolding send_raw_def
proof (rule wire_stream_mut)
  fix st p st' assume "abind (write_all d) (\<lambda>_. flush) st = (p, st')"
  then show "length (inbox (io_of st')) \<le> length (inbox (io_of st))"
    using write_keeps_inbox by (fastforce simp: abind_def split: prod.splits poll.splits sum.splits)
qed

lemma wire_read_header [wire_steps]: "steps_by wire_step (stream_mut (read_exact n))"
  by (rule wire_stream_mut) (rule read_exact_shrinks)

lemma wire_read_payload [wire_steps]: "steps_by wire_step (read_payload n)"
  using read_exact_shrinks
  by (fastforce simp: steps_by_def read_payload_def wire_step_def pending_bytes_def
      split: option.split prod.split poll.split sum.split)

subsection \<open>Messages\<close>

lemma encrypt_active: "encrypt C e d = Inr (d', e') \<Longrightarrow> is_active e' = is_active e"
  by (auto simp: encrypt_def is_active_def res_simps split: option.splits)

lemma decrypt_active: "decrypt C e d = Inr (d', e') \<Longrightarrow> is_active e' = is_active e"
  by (auto simp: decrypt_def is_active_def res_simps split: option.splits)

lemma set_keys_active: "set_keys C k l e = Inr e' \<Longrightarrow> is_active e'"
  by (auto simp: set_keys_def is_active_def res_simps)

lemma wire_updates [wire_steps]:
  "steps_by wire_step take_serial" "steps_by wire_step (encrypt_payload E d)" "steps_by wire_step (decrypt_buf E)"
  "steps_by wire_step (amodify (\<lambda>t. t\<lparr>nt_recv_buf := b\<rparr>))" "steps_by wire_step (amodify (record_schema attrs))"
  "steps_by wire_step (amodify (\<lambda>t. t\<lparr>nt_current_schema := s\<rparr>))"
  by (auto simp: steps_by_def wire_step_def pending_bytes_def take_serial_def encrypt_payload_def decrypt_buf_def
      act_eval record_schema_def encrypt_active decrypt_active split: prod.split sum.split option.split)

lemma wire_login_updates [wire_steps]:
  "steps_by wire_step (auth_message E c k ph b)" "steps_by wire_step (activate_encryption E b auth)"
  by (auto simp: steps_by_def wire_step_def pending_bytes_def auth_message_def activate_encryption_def set_keys_active
      split: prod.split sum.split)

lemma wire_send_message_with_serial [wire_steps]: "steps_by wire_step (send_message_with_serial E cmd a d ser)"
  unfolding send_message_with_serial_def
  by (cases ser) (auto intro!: wire.by_intros wire_steps)

lemma wire_send_message [wire_steps]: "steps_by wire_step (send_message E cmd a d)"
  unfolding send_message_def by (rule wire_send_message_with_serial)

lemma wire_fill_buf [wire_steps]: "steps_by wire_step (fill_buf E n)"
  unfolding fill_buf_def by (intro wire.by_intros wire_steps)

lemma wire_receive_payload [wire_steps]: "steps_by wire_step (receive_payload E h)"
  unfolding receive_payload_def by (intro wire.by_intros wire_steps)

lemma wire_receive_into_buf [wire_steps]: "steps_by wire_step (receive_into_buf E)"
  unfolding receive_into_buf_def by (intro wire.by_intros wire_steps)

lemma wire_receive_message [wire_steps]: "steps_by wire_step (receive_message E)"
  unfolding receive_message_def by (intro wire.by_intros wire_steps)

lemma wire_await_reply [wire_steps]: "steps_by wire_step (await_reply n E)"
  by (induction n) (auto intro!: wire.by_intros wire_steps)

lemma wire_await_all [wire_steps]: "steps_by wire_step (\<lambda>t. await_reply (Suc (pending_bytes t)) E t)"
  using wire_await_reply by (auto simp: steps_by_def simp del: await_reply.simps)

lemma wire_send_and_fill_buf [wire_steps]: "steps_by wire_step (send_and_fill_buf E cmd a d)"
  unfolding send_and_fill_buf_def by (intro wire.by_intros wire_steps)

lemma wire_send_and_receive [wire_steps]: "steps_by wire_step (send_and_receive E cmd a d)"
  unfolding send_and_receive_def by (intro wire.by_intros wire_steps)

subsection \<open>Operations\<close>

text \<open>
  The caches of open result sets agree: a fetch position and column descriptions for the
  same handles, and none for a result set that arrived whole.
\<close>

definition caches_agree :: "'c NativeTcpTransport \<Rightarrow> bool" where
  "caches_agree t \<longleftrightarrow> dom (nt_fetch_positions t) = dom (nt_result_columns t)
    \<and> nt_result_columns t SMALL_RESULTSET = None"

definition session_step :: "'c NativeTcpTransport \<Rightarrow> 'c NativeTcpTransport \<Rightarrow> bool" where
  "session_step t t' \<longleftrightarrow> nt_lifecycle t' = nt_lifecycle t \<and> nt_tls_active t' = nt_tls_active t
    \<and> (nt_session t \<noteq> None \<longrightarrow> nt_session t' \<noteq> None) \<and> (caches_agree t \<longrightarrow> caches_agree t')
    \<and> (nt_stream t' = None \<longleftrightarrow> nt_stream t = None)
    \<and> (is_active (nt_encryptor t) \<longrightarrow> is_active (nt_encryptor t'))"

interpretation session: step_relation session_step
  by unfold_locales (auto simp: session_step_def)

lemma wire_session: "wire_step t t' \<Longrightarrow> session_step t t'"
  by (simp add: wire_step_def session_step_def caches_agree_def)

lemma session_of_wire [session_steps]: "steps_by wire_step m \<Longrightarrow> steps_by session_step m"
  using wire_session by (auto simp: steps_by_def)

lemma session_require [session_steps]: "steps_by session_step (require_authenticated w)"
  unfolding require_authenticated_def by (rule session.by_lift)

lemma session_cache [session_steps]: "steps_by session_step (amodify (cache_result r))"
  by (rule session.by_modify)
    (auto simp: session_step_def cache_result_def caches_agree_def split: NativeResponse.split)

lemma session_uncache [session_steps]:
  "steps_by session_step (amodify (\<lambda>t. t\<lparr>nt_fetch_positions := (nt_fetch_positions t)(h := None),
    nt_result_columns := (nt_result_columns t)(h := None)\<rparr>))"
  by (rule session.by_modify) (auto simp: session_step_def caches_agree_def)

lemma session_login_updates [session_steps]:
  "steps_by session_step (amodify (\<lambda>t. t\<lparr>nt_session := Some s\<rparr>))"
  by (rule session.by_modify) (auto simp: session_step_def caches_agree_def)

lemma session_convert [session_steps]: "steps_by session_step (convert_and_cache_result E r)"
  unfolding convert_and_cache_result_def by (intro session.by_intros session_cache)

lemma session_execute_query: "steps_by session_step (execute_query E sql)"
  unfolding execute_query_def by (intro session.by_intros session_require session_convert session_of_wire wire_steps)

lemma session_prod: "(\<And>x y. steps_by session_step (f x y)) \<Longrightarrow> steps_by session_step (case z of (x, y) \<Rightarrow> f x y)"
  by (cases z) simp

lemmas session_rules = session.by_intros session_require session_convert session_prod session_uncache
  session_login_updates session_of_wire wire_steps

lemma session_close_request: "steps_by session_step (close_request E cmd h)"
  unfolding close_request_def by (intro session_rules)

lemma session_run_execute_prepared: "steps_by session_step (run_execute_prepared E d)"
  unfolding run_execute_prepared_def by (intro session_rules)

lemma session_execute_ranges: "steps_by session_step (execute_ranges_from E h e rs n)"
proof (induction E h e rs n rule: execute_ranges_from.induct)
  case (2 E h e r rs n)
  have "steps_by session_step (case step of Inr x \<Rightarrow> areturn x | Inl n \<Rightarrow> execute_ranges_from E h e rs n)" for step
    using "2.IH" by (cases step) (auto intro: session.by_lift)
  then show ?case by (auto intro!: session.by_intros session_run_execute_prepared)
qed (auto intro: session.by_lift)

lemma session_execute_prepared_statement: "steps_by session_step (execute_prepared_statement E h ps)"
  unfolding execute_prepared_statement_def execute_prepared_ranges_def
proof (intro session.by_bind session_require session.by_lift)
  fix encoded
  show "steps_by session_step (case encoded of
      None \<Rightarrow> abind (alift (build_execute_prepared_payload (te_json E) h ps)) (run_execute_prepared E)
    | Some e \<Rightarrow> if ep_ranges e \<noteq> [] then execute_ranges_from E h e (ep_ranges e) 0
        else abind (alift (build_execute_prepared_payload (te_json E) h ps)) (run_execute_prepared E))"
    by (auto intro!: session.by_bind session.by_lift session_execute_ranges session_run_execute_prepared split: option.split)
qed

lemma session_simple_operations:
  "steps_by session_step (close_result_set E h)" "steps_by session_step (create_prepared_statement E sql)"
  "steps_by session_step (close_prepared_statement E p)" "steps_by session_step (set_attributes E a)"
  "steps_by session_step (refresh_current_schema E)"
  unfolding close_result_set_def create_prepared_statement_def close_prepared_statement_def set_attributes_def
    refresh_current_schema_def
  by (intro session_rules session_close_request)+

text \<open>A fetch moves the position of a handle whose columns are known.\<close>

lemma session_fetch_response:
  assumes "nt_result_columns t h = Some cols" "fetch_response E h p cols r t = (x, t')"
  shows "session_step t t'"
proof -
  have "session_step t (t\<lparr>nt_fetch_positions := (nt_fetch_positions t)(h \<mapsto> q)\<rparr>)" for q
    using assms(1) by (auto simp: session_step_def caches_agree_def)
  then show ?thesis
    using assms(2) session.refl [of t]
    by (auto simp: fetch_response_def advance_position_def act_simps abind_assoc
        split: NativeResponse.splits sum.splits prod.splits)
qed

lemma session_fetch_results: "steps_by session_step (fetch_results E h)"
proof -
  have "session_step t (snd (fetch_results E h t))" for t
  proof (cases "lc_state (nt_lifecycle t) = Authenticated \<and> nt_result_columns t h \<noteq> None")
    case True
    then obtain cols where cols: "nt_result_columns t h = Some cols" by blast
    let ?p = "case nt_fetch_positions t h of Some p \<Rightarrow> p | None \<Rightarrow> 0"
    obtain q t1 where sent: "send_and_fill_buf E CMD_FETCH2 AttributeSet_new
        (Some (fetch_request h ?p (server_message_size t))) t = (q, t1)" by force
    then have w: "wire_step t t1" using wire_send_and_fill_buf by (blast dest: steps_byD)
    then have "nt_result_columns t1 h = Some cols" using cols by (simp add: wire_step_def)
    then have "session_step t1 (snd (fetch_response E h ?p cols r t1))" for r
      using session_fetch_response by (metis surjective_pairing)
    then show ?thesis
      using True cols sent wire_session [OF w] session.trans [OF wire_session [OF w]]
      by (auto simp: fetch_results_def require_authenticated_def require_def act_simps abind_def
          split: poll.split sum.split)
  next
    case False
    then show ?thesis
      by (auto simp: fetch_results_def require_authenticated_def require_def act_simps)
  qed
  then show ?thesis by (simp add: steps_by_def)
qed

lemma session_run_command: "steps_by session_step (run_command E c)"
  by (cases c)
    (auto simp: set_autocommit_def set_query_timeout_def set_current_schema_def
      intro!: session.by_intros session_execute_query session_fetch_results session_execute_prepared_statement
        session_simple_operations)

subsection \<open>The login and the lifecycle\<close>

lemma session_login_exchange: "steps_by session_step (login_exchange E c)"
  unfolding login_exchange_def login_greeting_def login_password_def login_attributes_reply_def Let_def
  by (intro session_rules)

lemma session_interrupted: "session_step t (interrupted lt t)"
  by (simp add: interrupted_def Let_def session_step_def caches_agree_def)

lemma session_send_disconnect: "steps_by session_step (send_disconnect E)"
proof -
  have "send_and_receive E CMD_DISCONNECT AttributeSet_new None t = (p, t') \<Longrightarrow> session_step t t'" for t p t'
    by (rule steps_byD [OF session_of_wire [OF wire_send_and_receive]])
  then show ?thesis
    by (auto simp: steps_by_def send_disconnect_def split: prod.splits poll.split sum.split fault.split)
qed

definition released :: "'c NativeTcpTransport \<Rightarrow> bool" where
  "released t \<longleftrightarrow> nt_stream t = None \<and> nt_session t = None \<and> nt_current_schema t = None"

lemma native_steps_simps [simp]:
  "lifecycle_of (native_steps E lt) = nt_lifecycle"
  "set_lifecycle (native_steps E lt) lc t = t\<lparr>nt_lifecycle := lc\<rparr>"
  "login_step (native_steps E lt) = native_login E lt"
  "disconnect_step (native_steps E lt) = send_disconnect E"
  "release_step (native_steps E lt) = release_connection"
  by (simp_all add: native_steps_def)

lemma native_login_states:
  "session_step t (final (native_login E lt c t))" "session_step t (cut (native_login E lt c t))"
proof -
  have l: "session_step u (snd (login_exchange E c u))" for u
    by (rule steps_by_snd [OF session_login_exchange])
  show "session_step t (final (native_login E lt c t))"
    using l [of t] by (simp add: native_login_def case_prod_unfold)
  show "session_step t (cut (native_login E lt c t))"
    using session.trans [OF session_interrupted l] by (simp add: native_login_def split: prod.split)
qed

lemma session_lifecycle: "session_step t t' \<Longrightarrow> nt_lifecycle t' = nt_lifecycle t"
  by (simp add: session_step_def)

lemmas native_keeps_lifecycle =
  native_login_states [THEN session_lifecycle] steps_by_snd [OF session_send_disconnect, THEN session_lifecycle]

interpretation native: lifecycle_steps "native_steps E lt" released for E lt
  by unfold_locales (simp_all add: native_keeps_lifecycle release_connection_def released_def)

end
