(* ===== verification/Transport_States.thy ===== *)
theory Transport_States
  imports Transport_Frame
begin

text \<open>
  The life of a native transport. \<open>transport_step\<close> is one call of its interface, with any
  arguments, any peer and any clock; \<open>reachable\<close> the states a sequence of calls leads to from
  a new transport. The abstract specification is the automaton \<open>conn_step\<close> of connection
  states; every call refines it, and the invariant \<open>transport_ok\<close> ties the state to the
  stream, the session, the caches and the encryption.
\<close>

subsection \<open>The automaton of connection states\<close>

inductive conn_step :: "ConnectionState \<Rightarrow> ConnectionState \<Rightarrow> bool" where
  stays: "conn_step c c"
| opens: "conn_step Disconnected Connected"
| logs_in: "conn_step Connected Authenticated"
| closes: "c = Connected \<or> c = Authenticated \<Longrightarrow> conn_step c Closed"
| terminates: "conn_step c Terminated"

inductive_simps conn_step_simps: "conn_step c c'"

text \<open>Once closed or terminated, a transport is never open again.\<close>

lemma conn_step_ended:
  assumes "conn_step\<^sup>*\<^sup>* c c'" "c = Closed \<or> c = Terminated"
  shows "c' = Closed \<or> c' = Terminated"
  using assms by (induction rule: rtranclp_induct) (auto simp: conn_step_simps)

subsection \<open>One call\<close>

inductive transport_step :: "('c, 'n) transport_env \<Rightarrow> 'c NativeTcpTransport \<Rightarrow> 'c NativeTcpTransport \<Rightarrow> bool"
  for E :: "('c, 'n) transport_env" where
  call_connect: "connect W clock_max now params t = (r, t') \<Longrightarrow> transport_step E t t'"
| call_authenticate: "authenticate E lt credentials now lag t = (r, t') \<Longrightarrow> transport_step E t t'"
| call_command: "run_command E c t = (p, t') \<Longrightarrow> transport_step E t t'"
| call_close: "close E lt t = (p, t') \<Longrightarrow> transport_step E t t'"
| call_terminate: "transport_step E t (terminate_transport E lt t)"

inductive reachable :: "('c, 'n) transport_env \<Rightarrow> 'c NativeTcpTransport \<Rightarrow> bool"
  for E :: "('c, 'n) transport_env" where
  start: "reachable E NativeTcpTransport_new"
| step: "reachable E t \<Longrightarrow> transport_step E t t' \<Longrightarrow> reachable E t'"

abbreviation conn_state :: "'c NativeTcpTransport \<Rightarrow> ConnectionState" where
  "conn_state t \<equiv> lc_state (nt_lifecycle t)"

text \<open>A connect either opens a new transport or changes nothing.\<close>

lemma connect_cases:
  assumes "connect W clock_max now params t = (r, t')"
  obtains (unchanged) "t' = t" "r \<noteq> Inr ()"
  | (opened) st tls dl where "conn_state t = Disconnected" "r = Inr ()" "t' = open_stream st tls dl t"
      "tls = use_tls params"
proof (cases "conn_state t = Disconnected")
  case False
  then have "t' = t" "r \<noteq> Inr ()"
    using assms by (auto simp: connect_def begin_connect_def require_def split: if_splits)
  then show thesis by (rule unchanged)
next
  case True
  have "(t' = t \<and> r \<noteq> Inr ()) \<or> (\<exists>st dl. r = Inr () \<and> t' = open_stream st (use_tls params) dl t)"
    using assms True
    by (auto simp: connect_def begin_connect_def require_def split: prod.splits sum.splits option.splits if_splits)
  then show thesis using unchanged opened True by blast
qed

lemma open_stream_simps [simp]:
  "conn_state (open_stream st tls dl t) = Connected" "nt_stream (open_stream st tls dl t) = Some st"
  "lc_deadline (nt_lifecycle (open_stream st tls dl t)) = Some dl"
  "nt_session (open_stream st tls dl t) = nt_session t"
  "nt_fetch_positions (open_stream st tls dl t) = nt_fetch_positions t"
  "nt_result_columns (open_stream st tls dl t) = nt_result_columns t"
  "nt_tls_active (open_stream st tls dl t) = (tls \<or> nt_tls_active t)"
  "nt_encryptor (open_stream st tls dl t) = nt_encryptor t"
  by (simp_all add: open_stream_def connected_def Let_def)

lemma terminate_transport_state [simp]:
  "conn_state (terminate_transport E lt t) = Terminated" "released (terminate_transport E lt t)"
  using native.terminate_lifecycle [of E lt t] by (simp_all add: terminate_transport_def)

lemma transport_step_refines:
  assumes "transport_step E t t'"
  shows "conn_step (conn_state t) (conn_state t')"
  using assms
proof cases
  case (call_connect W clock_max now params r)
  then show ?thesis by (cases rule: connect_cases) (auto simp: conn_step_simps)
next
  case (call_authenticate lt credentials now lag r)
  then show ?thesis
    using native.authenticate_state [of E lt credentials now lag t r t']
    by (auto simp: authenticate_def conn_step_simps)
next
  case (call_command c p)
  then have "session_step t t'" by (rule steps_byD [OF session_run_command])
  then show ?thesis by (simp add: session_step_def conn_step_simps)
next
  case (call_close lt p)
  then show ?thesis
    using native.close_state [of E lt t p t'] by (auto simp: close_def is_open_def conn_step_simps)
next
  case (call_terminate lt)
  then show ?thesis by (simp add: conn_step_simps)
qed

subsection \<open>Encryption after login\<close>

text \<open>The random generator returns as many bytes as it was asked for.\<close>

definition rng_documented :: "'n login_env \<Rightarrow> bool" where
  "rng_documented L \<longleftrightarrow> (\<forall>k n b. rng_fill L k n = Some b \<longrightarrow> length b = n)"

lemma auth_keys:
  assumes "rng_documented L" "build_auth_message ovf L pw key phrase counter True = Inr (auth, c')"
  shows "send_key auth \<noteq> []"
proof -
  from assms(2) obtain n e attrs attrs' where
    "key_attributes ovf L phrase n e True attrs = Inr (attrs', send_key auth, recv_key auth)"
    by (auto simp: build_auth_message_def SerialCounter_next_def res_simps Let_def)
  then have "rng_fill L 1 CHACHA20_KEY_LEN = Some (send_key auth)"
    by (auto simp: key_attributes_def generate_keys_def res_simps split: option.splits)
  then have "length (send_key auth) = 32" using assms(1) by (simp add: rng_documented_def const_defs)
  then show ?thesis by auto
qed

lemma login_password_active:
  assumes "rng_documented (te_login E)" "\<not> nt_tls_active t"
    and "login_password E c key phrase t = (Ready (Inr ()), t')"
  shows "is_active (nt_encryptor t')"
proof -
  from assms(2,3) obtain auth t1 t2 t3 where
    a: "auth_message E c key phrase True t = (Ready (Inr auth), t1)"
    and e: "activate_encryption E True auth t3 = (Ready (Inr ()), t')"
    by (auto simp: login_password_def act_Ready split: prod.splits)
  from a have "send_key auth \<noteq> []"
    using auth_keys [OF assms(1)] by (auto simp: auth_message_def split: sum.splits prod.splits)
  then show ?thesis
    using e by (auto simp: activate_encryption_def set_keys_active split: sum.splits)
qed

lemma login_exchange_result:
  assumes "login_exchange E c t = (Ready (Inr session), t')"
  shows "nt_session t' = Some session"
    and "rng_documented (te_login E) \<Longrightarrow> \<not> nt_tls_active t \<Longrightarrow> is_active (nt_encryptor t')"
proof -
  from assms obtain sa key phrase v ga t1 t2 t3 where
    g: "login_greeting E c t = (Ready (Inr (sa, key, phrase, v)), t1)"
    and p: "login_password E c key phrase t1 = (Ready (Inr ()), t2)"
    and r: "login_attributes_reply E t2 = (Ready (Inr ga), t3)"
    and t': "t' = t3\<lparr>nt_current_schema := current_schema_from_get_attributes ga, nt_session := Some session\<rparr>"
    by (auto simp: login_exchange_def act_Ready Let_def)
  then show "nt_session t' = Some session" by simp
  have gr: "steps_by session_step (login_greeting E c)" "steps_by session_step (login_attributes_reply E)"
    unfolding login_greeting_def login_attributes_reply_def by (intro session_rules)+
  assume rng: "rng_documented (te_login E)" and tls: "\<not> nt_tls_active t"
  have "\<not> nt_tls_active t1" using steps_byD [OF gr(1) g] tls by (simp add: session_step_def)
  from login_password_active [OF rng this p] have "is_active (nt_encryptor t3)"
    using steps_byD [OF gr(2) r] by (simp add: session_step_def)
  then show "is_active (nt_encryptor t')" by (simp add: t')
qed

subsection \<open>The invariant\<close>

definition transport_ok :: "'c NativeTcpTransport \<Rightarrow> bool" where
  "transport_ok t \<longleftrightarrow> caches_agree t \<and> (case conn_state t of
      Disconnected \<Rightarrow> released t
    | Connected \<Rightarrow> nt_stream t \<noteq> None \<and> lc_deadline (nt_lifecycle t) \<noteq> None
    | Authenticated \<Rightarrow> nt_stream t \<noteq> None \<and> nt_session t \<noteq> None \<and> (nt_tls_active t \<or> is_active (nt_encryptor t))
    | Closed \<Rightarrow> released t
    | Terminated \<Rightarrow> released t)"

lemma transport_ok_new: "transport_ok NativeTcpTransport_new"
  by (simp add: transport_ok_def NativeTcpTransport_new_def caches_agree_def ConnectionLifecycle_new_def released_def)

lemma session_transport_ok:
  assumes "session_step t t'" "transport_ok t" "conn_state t = Connected \<or> conn_state t = Authenticated"
  shows "transport_ok t'"
  using assms by (auto simp: session_step_def transport_ok_def)

lemma released_caches:
  "caches_agree t \<Longrightarrow> caches_agree (terminate_transport E lt t)"
  by (simp add: terminate_transport_def terminate_def set_state_def release_connection_def caches_agree_def)

text \<open>A command on a transport that is not logged in changes nothing.\<close>

lemma require_blocks:
  assumes "conn_state t \<noteq> Authenticated"
  shows "abind (require_authenticated w) f t =
    (Ready (fail (if conn_state t = Terminated then terminated_error
       else ProtocolError (''Must authenticate before '' @ w))), t)"
  using assms by (simp add: require_authenticated_def require_def act_simps)

lemma command_blocked:
  assumes "conn_state t \<noteq> Authenticated"
  shows "\<exists>e. run_command E c t = (Ready (fail e), t)
    \<and> (conn_state t = Terminated \<longrightarrow> (\<forall>n. c \<noteq> SetQueryTimeout n) \<longrightarrow> e = terminated_error)"
  using assms
  by (cases c) (auto simp: execute_query_def fetch_results_def close_result_set_def create_prepared_statement_def
      execute_prepared_statement_def close_prepared_statement_def set_autocommit_def set_query_timeout_def
      set_current_schema_def refresh_current_schema_def set_attributes_def abind_assoc require_blocks act_simps)

lemma command_transport_ok:
  assumes "run_command E c t = (p, t')" "transport_ok t"
  shows "transport_ok t'"
proof (cases "conn_state t = Authenticated")
  case True
  then show ?thesis
    using session_transport_ok steps_byD [OF session_run_command assms(1)] assms(2) by blast
next
  case False
  then show ?thesis using command_blocked [OF False, of E c] assms by auto
qed

lemma close_transport_ok:
  assumes "close E lt t = (p, t')" "transport_ok t"
  shows "transport_ok t'"
proof (cases "is_connected t")
  case False
  then show ?thesis using assms native.close_not_open [of E lt t] by (simp add: close_def is_connected_def)
next
  case True
  obtain q u where d: "send_disconnect E t = (q, u)" by force
  then have u: "transport_ok u"
    using session_transport_ok steps_byD [OF session_send_disconnect d] assms(2) True
    by (auto simp: is_connected_def is_open_def)
  have "transport_ok ((terminate_transport E lt u)\<lparr>nt_lifecycle := l\<lparr>lc_state := Closed\<rparr>\<rparr>)" for l
    using u released_caches [of u E lt] terminate_transport_state(2) [of E lt u]
    by (simp add: transport_ok_def caches_agree_def released_def)
  then show ?thesis
    using assms(1) True u
    by (auto simp: close_def is_connected_def native.close_open d set_state_def terminate_transport_def
        split: poll.splits sum.splits)
qed

lemma authenticate_transport_ok:
  assumes "authenticate E lt c now lag t = (r, t')" "transport_ok t" "rng_documented (te_login E)"
  shows "transport_ok t'"
proof (cases "conn_state t = Connected")
  case False
  then show ?thesis
    using assms(1,2) native.authenticate_guard [of E lt t c now lag] by (simp add: authenticate_def)
next
  case st: True
  then obtain dl where dl: "lc_deadline (nt_lifecycle t) = Some dl"
    using assms(2) by (auto simp: transport_ok_def)
  obtain x s1 now' where run: "SetupDeadline_run dl Login now (native_login E lt c t) = (x, s1, now')"
    by (metis prod_cases3)
  have ses: "session_step t s1"
    using native_login_states [of t E lt c] by (rule_tac SetupDeadline_run_cases [OF run]) simp_all
  have ok: "transport_ok s1" using session_transport_ok [OF ses assms(2)] st by blast
  note facts = native.authenticate_cases [where E = E and lt = lt, simplified, OF st dl run assms(1) [unfolded authenticate_def]]
  show ?thesis
  proof (cases x)
    case (Inr session)
    then have logged_in: "login_exchange E c t = (Ready (Inr session), s1)"
      by (rule_tac SetupDeadline_run_cases [OF run]) (auto simp: native_login_def split: prod.splits)
    have "nt_stream s1 \<noteq> None" "nt_tls_active s1 = nt_tls_active t" "caches_agree s1"
      using ses ok assms(2) st by (auto simp: session_step_def transport_ok_def)
    then show ?thesis
      using login_exchange_result [OF logged_in] assms(3) facts(3) [OF Inr]
      by (auto simp: transport_ok_def set_state_def caches_agree_def)
  next
    case (Inl f)
    have "transport_ok (set_state (native_steps E lt) Closed (terminate (native_steps E lt) s1))"
      using ok released_caches [of s1 E lt] terminate_transport_state(2) [of E lt s1]
      by (simp add: transport_ok_def caches_agree_def released_def set_state_def terminate_transport_def)
    then show ?thesis using Inl ok facts(4-6) by (cases f; cases "dl_deadline dl \<le> now' + lag") (auto simp: not_le)
  qed
qed

lemma transport_step_ok:
  assumes "transport_step E t t'" "transport_ok t" "rng_documented (te_login E)"
  shows "transport_ok t'"
  using assms(1)
proof cases
  case (call_connect W clock_max now params r)
  then show ?thesis
    by (cases rule: connect_cases) (use assms(2) in \<open>auto simp: transport_ok_def caches_agree_def\<close>)
next
  case (call_authenticate lt credentials now lag r)
  then show ?thesis using authenticate_transport_ok assms(2,3) by blast
next
  case (call_command c p)
  then show ?thesis using command_transport_ok assms(2) by blast
next
  case (call_close lt p)
  then show ?thesis using close_transport_ok assms(2) by blast
next
  case (call_terminate lt)
  then show ?thesis
    using assms(2) released_caches [of t E lt] terminate_transport_state [of E lt t] by (simp add: transport_ok_def)
qed

lemma reachable_ok:
  assumes "reachable E t" "rng_documented (te_login E)"
  shows "transport_ok t"
  using assms by (induction rule: reachable.induct) (auto intro: transport_ok_new transport_step_ok)

lemma reachable_refines:
  assumes "reachable E t"
  shows "conn_step\<^sup>*\<^sup>* Disconnected (conn_state t)"
  using assms
proof (induction rule: reachable.induct)
  case start
  then show ?case by (simp add: NativeTcpTransport_new_def ConnectionLifecycle_new_def)
next
  case (step t t')
  then show ?case using transport_step_refines [OF step.hyps(2)] by (meson rtranclp.rtrancl_into_rtrancl)
qed

lemma steps_refine:
  assumes "(transport_step E)\<^sup>*\<^sup>* t t'"
  shows "conn_step\<^sup>*\<^sup>* (conn_state t) (conn_state t')"
  using assms
  by (induction rule: rtranclp_induct) (auto dest: transport_step_refines intro: rtranclp.rtrancl_into_rtrancl)

end
