(* ===== verification/Transport_Liveness.thy ===== *)
theory Transport_Liveness
  imports Transport_States Parser_Laws Handshake_Laws
begin

text \<open>
  Operations of the native transport return. The loop that waits for the final reply takes
  a header off the stream in each turn, so the bytes still to arrive bound it. \<open>responsive\<close>
  is a peer that does not leave the driver waiting for ever: its writes end, and after its
  last byte it closes the stream. With such a peer every operation returns, and the setup
  returns with any peer because of its deadline.
\<close>

subsection \<open>The loop over StillExecuting\<close>

lemma receive_takes_header:
  assumes "receive_into_buf E t = (Ready (Inr h), t')"
  shows "pending_bytes t' + HEADER_SIZE \<le> pending_bytes t"
proof -
  from assms obtain hdr t1 h' where r: "stream_mut (read_exact HEADER_SIZE) t = (Ready (Inr hdr), t1)"
    and rest: "receive_payload E h' t1 = (Ready (Inr h), t')"
    by (auto simp: receive_into_buf_def act_Ready)
  from steps_byD [OF wire_receive_payload rest] have "pending_bytes t' \<le> pending_bytes t1" by (simp add: wire_step_def)
  moreover obtain st where "nt_stream t = Some st" using r by (auto simp: stream_mut_def split: option.splits)
  then have "pending_bytes t1 + HEADER_SIZE = pending_bytes t"
    using r by (cases st) (auto simp: stream_mut_def read_exact_def on_stream_def io_read_exact_def pending_bytes_def
        split: prod.splits if_splits option.splits)
  ultimately show ?thesis by simp
qed

text \<open>More turns than bytes change nothing.\<close>

lemma await_reply_fuel:
  assumes "pending_bytes t < n" "pending_bytes t < m"
  shows "await_reply n E t = await_reply m E t"
  using assms
proof (induction n arbitrary: m t)
  case (Suc n)
  then obtain m' where m: "m = Suc m'" by (cases m) auto
  have rec: "receive_into_buf E t = (Ready (Inr h), t') \<Longrightarrow> await_reply n E t' = await_reply m' E t'" for h t'
    using receive_takes_header [of E t h t'] Suc.prems m by (intro Suc.IH) (simp_all add: const_defs)
  show ?case
    using rec unfolding m await_reply.simps
    by (auto simp: abind_def areads_def split: prod.split poll.split sum.split)
qed simp

subsection \<open>Operations that return\<close>

text \<open>
  With \<open>W\<close> the peer may be silent, and an action may wait for it; without, the peer must be
  responsive. In both cases the receive buffer is as small as a message can be.
\<close>

definition polite :: "bool \<Rightarrow> io_stream \<Rightarrow> bool" where
  "polite W io \<longleftrightarrow> W \<or> inbox_end io \<noteq> None \<and> (\<forall>n. Waits n \<notin> set (write_outcomes io))"

definition responsive :: "bool \<Rightarrow> 'c NativeTcpTransport \<Rightarrow> bool" where
  "responsive W t \<longleftrightarrow> length (nt_recv_buf t) < 2 ^ 32 \<and> (\<forall>st. nt_stream t = Some st \<longrightarrow> polite W (io_of st))"

definition answered :: "bool \<Rightarrow> ('a \<Rightarrow> bool) \<Rightarrow> (TransportError, 'a) poll \<Rightarrow> bool" where
  "answered W Q p \<longleftrightarrow> (case p of Ready r \<Rightarrow> ends r \<and> (\<forall>x. r = Inr x \<longrightarrow> Q x) | Pending \<Rightarrow> W)"

lemma answered_simps [simp]:
  "answered W Q (Ready (Inr x)) = Q x" "answered W Q (Ready (Inl e)) = (e \<noteq> Diverged)" "answered W Q Pending = W"
  by (simp_all add: answered_def)

text \<open>
  The action returns, with a result that satisfies \<open>Q\<close> or with an error, or it waits for a peer
  that may be silent.
\<close>

definition returns :: "bool \<Rightarrow> ('a \<Rightarrow> bool) \<Rightarrow> ('c NativeTcpTransport, 'a) action \<Rightarrow> bool" where
  "returns W Q m \<longleftrightarrow> (\<forall>t p t'. responsive W t \<longrightarrow> m t = (p, t') \<longrightarrow> responsive W t' \<and> answered W Q p)"

lemma returnsD: "returns W Q m \<Longrightarrow> responsive W t \<Longrightarrow> m t = (p, t') \<Longrightarrow>
    responsive W t' \<and> answered W Q p"
  by (simp add: returns_def)

lemma returnsI: "(\<And>t p t'. responsive W t \<Longrightarrow> m t = (p, t') \<Longrightarrow>
    responsive W t' \<and> answered W Q p) \<Longrightarrow> returns W Q m"
  by (simp add: returns_def)

lemma answered_weaken: "answered W Q p \<Longrightarrow> (\<And>x. Q x \<Longrightarrow> P x) \<Longrightarrow> answered W P p"
  by (auto simp: answered_def split: poll.splits)

lemma answered_Ready: "ends r \<Longrightarrow> (\<And>x. r = Inr x \<Longrightarrow> Q x) \<Longrightarrow> answered W Q (Ready r)"
  by (simp add: answered_def)

lemma returns_weaken: "returns W Q m \<Longrightarrow> (\<And>x. Q x \<Longrightarrow> P x) \<Longrightarrow> returns W P m"
  by (blast intro: returnsI answered_weaken dest: returnsD)

lemma returns_lift: "ends r \<Longrightarrow> (\<And>x. r = Inr x \<Longrightarrow> Q x) \<Longrightarrow> returns W Q (alift r)"
  by (simp add: returns_def act_eval answered_Ready)

lemma returns_reads:
  "(\<And>t. responsive W t \<Longrightarrow> ends (g t)) \<Longrightarrow> (\<And>t x. responsive W t \<Longrightarrow> g t = Inr x \<Longrightarrow> Q x) \<Longrightarrow> returns W Q (areads g)"
  by (simp add: returns_def act_eval answered_Ready)

lemma returns_modify: "(\<And>t. responsive W t \<Longrightarrow> responsive W (h t)) \<Longrightarrow> Q () \<Longrightarrow> returns W Q (amodify h)"
  by (simp add: returns_def act_eval)

lemma returns_bind:
  assumes "returns W Q m" "\<And>x. Q x \<Longrightarrow> returns W P (f x)"
  shows "returns W P (abind m f)"
proof (rule returnsI)
  fix t p t' assume t: "responsive W t" and run: "abind m f t = (p, t')"
  obtain q u where m: "m t = (q, u)" by force
  note q = returnsD [OF assms(1) t m]
  show "responsive W t' \<and> answered W P p"
  proof (cases "\<exists>x. q = Ready (Inr x)")
    case False
    then show ?thesis using q m run by (auto simp: abind_def split: poll.splits sum.splits)
  next
    case True
    then obtain x where x: "q = Ready (Inr x)" by blast
    then have "f x u = (p, t')" using m run by (simp add: abind_def)
    moreover have "returns W P (f x)" using q x assms(2) by simp
    ultimately show ?thesis using returnsD q by blast
  qed
qed

lemma returns_prod: "(\<And>x y. z = (x, y) \<Longrightarrow> returns W Q (f x y)) \<Longrightarrow> returns W Q (case z of (x, y) \<Rightarrow> f x y)"
  by (cases z) simp

lemma returns_if: "(b \<Longrightarrow> returns W Q m) \<Longrightarrow> (\<not> b \<Longrightarrow> returns W Q m') \<Longrightarrow> returns W Q (if b then m else m')"
  by simp

subsection \<open>Streams and messages\<close>

text \<open>
  The environment: overflow is checked, the parser has fuel for every message a 32-bit
  length can announce, and the cipher is one.
\<close>

definition live_env :: "('c, 'n) transport_env \<Rightarrow> bool" where
  "live_env E \<longleftrightarrow> overflow_checks (te_native E) \<and> 2 ^ 32 \<le> fuel (te_native E) \<and> stream_cipher (te_cipher E)"

lemma polite_write:
  assumes "polite W io" "io_write_all d io = (p, io')"
  shows "polite W io' \<and> answered W (\<lambda>_. True) p"
  using assms
  by (cases "write_outcomes io") (auto simp: polite_def io_write_all_def Let_def split: write_outcome.splits)

lemma polite_read:
  assumes "polite W io" "io_read_exact n io = (p, io')"
  shows "polite W io' \<and> answered W (\<lambda>d. length d = n) p"
  using assms by (auto simp: polite_def io_read_exact_def split: if_splits option.splits)

lemma returns_stream_mut:
  assumes "\<And>st p st'. polite W (io_of st) \<Longrightarrow> m st = (p, st') \<Longrightarrow> polite W (io_of st') \<and> answered W Q p"
  shows "returns W Q (stream_mut m)"
proof (rule returnsI)
  fix t p t' assume t: "responsive W t" and run: "stream_mut m t = (p, t')"
  show "responsive W t' \<and> answered W Q p"
  proof (cases "nt_stream t")
    case None
    then show ?thesis using run t by (auto simp: stream_mut_def)
  next
    case (Some st)
    obtain q st' where m: "m st = (q, st')" by force
    have "polite W (io_of st)" using t Some by (simp add: responsive_def)
    from assms [OF this m] show ?thesis using run t Some m by (auto simp: stream_mut_def responsive_def)
  qed
qed

lemma io_of_write:
  "write_all d st = (p, st') \<Longrightarrow> io_write_all d (io_of st) = (p, io_of st')"
  "flush st = (p, st') \<Longrightarrow> io_write_all [] (io_of st) = (p, io_of st')"
  "read_exact n st = (q, st') \<Longrightarrow> io_read_exact n (io_of st) = (q, io_of st')"
  by (simp_all add: write_all_def flush_def read_exact_def io_of_on_stream)

lemma returns_send_raw: "returns W (\<lambda>_. True) (send_raw d)"
  unfolding send_raw_def
proof (rule returns_stream_mut)
  fix st p st' assume st: "polite W (io_of st)" and run: "abind (write_all d) (\<lambda>_. flush) st = (p, st')"
  obtain q u where m: "write_all d st = (q, u)" by force
  obtain q' v where f: "flush u = (q', v)" by force
  note first = polite_write [OF st io_of_write(1) [OF m]]
  note second = polite_write [OF first [THEN conjunct1] io_of_write(2) [OF f]]
  show "polite W (io_of st') \<and> answered W (\<lambda>_. True) p"
    using run m f first second by (auto simp: abind_def split: poll.splits sum.splits)
qed

lemma returns_read_header: "returns W (\<lambda>d. length d = n) (stream_mut (read_exact n))"
  by (rule returns_stream_mut) (blast dest: polite_read io_of_write(3))

lemma returns_read_payload:
  assumes "n < 2 ^ 32"
  shows "returns W (\<lambda>_. True) (read_payload n)"
proof (rule returnsI)
  fix t p t' assume t: "responsive W t" and run: "read_payload n t = (p, t')"
  show "responsive W t' \<and> answered W (\<lambda>_. True) p"
  proof (cases "nt_stream t")
    case None
    then show ?thesis using run t by (auto simp: read_payload_def)
  next
    case (Some st)
    obtain q u where m: "read_exact n st = (q, u)" by force
    have "polite W (io_of st)" using t Some by (simp add: responsive_def)
    from polite_read [OF this io_of_write(3) [OF m]] show ?thesis
      using run t Some m assms by (auto simp: read_payload_def responsive_def split: poll.splits sum.splits)
  qed
qed

lemma decrypt_length:
  assumes "stream_cipher C" "decrypt C e d = Inr (c, e')"
  shows "length c = length d"
proof (cases "recv_cipher e")
  case None
  with assms(2) show ?thesis by (simp add: decrypt_def)
next
  case (Some s)
  with assms(2) obtain s' where "apply_keystream C s d = Some (c, s')"
    by (auto simp: decrypt_def ChaCha20State_apply_def res_simps split: option.splits)
  from stream_cipherD [OF assms(1) this] show ?thesis by simp
qed

lemma ends_crypt [simp]: "ends (encrypt C e d)" "ends (decrypt C e d)" "ends (set_keys C k l e)"
  by (auto simp: encrypt_def decrypt_def set_keys_def ChaCha20State_new_def ChaCha20State_apply_def
      split: option.split intro!: ends_rbind)

lemma responsive_fields [simp]:
  "responsive W (t\<lparr>nt_serial := c\<rparr>) = responsive W t" "responsive W (t\<lparr>nt_encryptor := e\<rparr>) = responsive W t"
  "responsive W (t\<lparr>nt_current_schema := s\<rparr>) = responsive W t" "responsive W (t\<lparr>nt_session := z\<rparr>) = responsive W t"
  "responsive W (t\<lparr>nt_fetch_positions := f\<rparr>) = responsive W t" "responsive W (t\<lparr>nt_result_columns := g\<rparr>) = responsive W t"
  by (simp_all add: responsive_def)

lemma responsive_buf: "responsive W t \<Longrightarrow> length b < 2 ^ 32 \<Longrightarrow> responsive W (t\<lparr>nt_recv_buf := b\<rparr>)"
  by (simp add: responsive_def)

lemma returns_take_serial: "returns W (\<lambda>_. True) take_serial"
  by (simp add: returns_def take_serial_def SerialCounter_next_def)

lemma returns_record_schema: "returns W (\<lambda>_. True) (amodify (record_schema attrs))"
  by (rule returns_modify) (simp_all add: record_schema_def split: option.split)

lemma returns_result:
  assumes "\<And>t. responsive W t \<Longrightarrow> ends (g t)" "\<And>t x y. responsive W t \<Longrightarrow> g t = Inr (x, y) \<Longrightarrow> responsive W (h x y t)"
  shows "returns W (\<lambda>_. True) (\<lambda>t. case g t of Inl e \<Rightarrow> (Ready (Inl e), t) | Inr (x, y) \<Rightarrow> (Ready (Inr (k x y)), h x y t))"
proof (rule returnsI)
  fix t p t'
  assume t: "responsive W t"
    and run: "(case g t of Inl e \<Rightarrow> (Ready (Inl e), t) | Inr (x, y) \<Rightarrow> (Ready (Inr (k x y)), h x y t)) = (p, t')"
  show "responsive W t' \<and> answered W (\<lambda>_. True) p"
    using run t assms(1) [OF t] assms(2) [OF t] by (cases "g t") auto
qed

lemma returns_cond:
  assumes "returns W Q m" "returns W Q m'"
  shows "returns W Q (\<lambda>t. if b t then m t else m' t)"
proof (rule returnsI)
  fix t p t' assume "responsive W t" "(if b t then m t else m' t) = (p, t')"
  then show "responsive W t' \<and> answered W Q p"
    using returnsD [OF assms(1), of t p t'] returnsD [OF assms(2), of t p t'] by (metis (full_types))
qed

lemma returns_skip: "Q x \<Longrightarrow> returns W Q (\<lambda>t. (Ready (Inr x), t))"
  by (simp add: returns_def)

lemma returns_encrypt_payload: "returns W (\<lambda>_. True) (encrypt_payload E d)"
  using returns_cond [where b = "\<lambda>t. is_active (nt_encryptor t)", OF
      returns_result [where g = "\<lambda>t. encrypt (te_cipher E) (nt_encryptor t) d" and k = "\<lambda>x _. x"
        and h = "\<lambda>_ e t. t\<lparr>nt_encryptor := e\<rparr>"] returns_skip [where Q = "\<lambda>_. True" and x = d]]
  by (simp add: encrypt_payload_def [abs_def])

lemma returns_decrypt_buf:
  assumes "live_env E"
  shows "returns W (\<lambda>_. True) (decrypt_buf E)"
proof -
  have "responsive W (t\<lparr>nt_recv_buf := d, nt_encryptor := e\<rparr>)"
    if "responsive W t" "decrypt (te_cipher E) (nt_encryptor t) (nt_recv_buf t) = Inr (d, e)"
    for d e and t :: "'a NativeTcpTransport"
    using that decrypt_length [OF _ that(2)] assms by (simp add: responsive_def live_env_def)
  then show ?thesis
    using returns_cond [where b = "\<lambda>t. is_active (nt_encryptor t)", OF
        returns_result [where g = "\<lambda>t. decrypt (te_cipher E) (nt_encryptor t) (nt_recv_buf t)" and k = "\<lambda>_ _. ()"
          and h = "\<lambda>d e t. t\<lparr>nt_recv_buf := d, nt_encryptor := e\<rparr>"] returns_skip [where Q = "\<lambda>_. True" and x = "()"]]
    by (simp add: decrypt_buf_def [abs_def])
qed

lemma returns_send_message_with_serial: "returns W (\<lambda>_. True) (send_message_with_serial E cmd a d ser)"
  unfolding send_message_with_serial_def
  by (rule returns_bind [where Q = "\<lambda>_. True"])
    (auto intro!: returns_bind [where Q = "\<lambda>_. True"] returns_encrypt_payload returns_send_raw returns_take_serial
      returns_lift split: option.split)

lemma returns_fill_buf:
  assumes "live_env E" "n < 2 ^ 32"
  shows "returns W (\<lambda>_. True) (fill_buf E n)"
  unfolding fill_buf_def
  by (intro returns_if returns_bind [where Q = "\<lambda>_. True"] returns_lift returns_modify returns_read_payload
      returns_decrypt_buf responsive_buf) (use assms in simp_all)

lemma ends_response_attributes [simp]: "ends (response_attributes h d)"
  by (simp add: response_attributes_def Let_def graceful_ends parse_attributes_graceful)

lemma returns_receive_payload:
  assumes "live_env E"
  shows "returns W (\<lambda>_. True) (receive_payload E h)"
  unfolding receive_payload_def
  by (intro returns_bind [where Q = "\<lambda>_. True"] returns_modify responsive_buf returns_fill_buf returns_reads
      returns_record_schema returns_lift assms)
    (use unsigned_less [of "message_length h", where ?'a = nat] in simp_all)

lemma returns_receive_into_buf:
  assumes "live_env E"
  shows "returns W (\<lambda>_. True) (receive_into_buf E)"
  unfolding receive_into_buf_def
  by (intro returns_bind [where Q = "\<lambda>_. True"] returns_weaken [OF returns_read_header] returns_lift
      returns_receive_payload assms) (simp_all split: option.split)

lemma result_data_bound:
  "responsive W t \<Longrightarrow> length (result_data_slice h (nt_recv_buf t)) < 2 ^ 32"
  by (auto simp: result_data_slice_def responsive_def Let_def)

lemma extract_is_slice: "extract_result_data h d = result_data_slice h d"
  by (simp add: extract_result_data_def result_data_slice_def)

lemma ends_parse_result_data:
  assumes "live_env E" "length d < 2 ^ 32"
  shows "ends (parse_response (te_native E) d)"
  using assms by (intro ends_parse_response) (simp_all add: live_env_def)

lemma returns_await_reply:
  assumes "live_env E" "pending_bytes t < n" "responsive W t" "await_reply n E t = (p, t')"
  shows "responsive W t' \<and> answered W (\<lambda>_. True) p"
  using assms(2-4)
proof (induction n arbitrary: t)
  case (Suc n)
  obtain q u where rec: "receive_into_buf E t = (q, u)" by force
  note q = returnsD [OF returns_receive_into_buf [OF assms(1)] Suc.prems(2) rec]
  show ?case
  proof (cases "\<exists>h. q = Ready (Inr h)")
    case False
    then show ?thesis using Suc.prems(3) rec q by (auto simp: abind_def split: poll.splits sum.splits)
  next
    case True
    then obtain h where h: "q = Ready (Inr h)" by blast
    note less = receive_takes_header [OF rec [unfolded h]]
    have e: "ends (parse_response (te_native E) (result_data_slice h (nt_recv_buf u)))"
      using ends_parse_result_data [OF assms(1) result_data_bound] q by blast
    show ?thesis
      using Suc.prems(1,3) rec q h e less Suc.IH [of u]
      by (auto simp: abind_def act_eval const_defs split: sum.splits if_splits)
  qed
qed simp

lemma returns_send_and_fill_buf:
  assumes "live_env E"
  shows "returns W (\<lambda>_. True) (send_and_fill_buf E cmd a d)"
proof -
  have "returns W (\<lambda>_. True) (\<lambda>t. await_reply (Suc (pending_bytes t)) E t)"
  proof (rule returnsI)
    fix t p t' assume "responsive W t" "await_reply (Suc (pending_bytes t)) E t = (p, t')"
    then show "responsive W t' \<and> answered W (\<lambda>_. True) p"
      using returns_await_reply [OF assms, of t "Suc (pending_bytes t)" W p t'] by blast
  qed
  then show ?thesis
    unfolding send_and_fill_buf_def
    by (intro returns_bind [where Q = "\<lambda>_. True"] returns_take_serial returns_send_message_with_serial)
qed

lemma returns_send_and_receive:
  assumes "live_env E"
  shows "returns W (\<lambda>(h, d). length d < 2 ^ 32) (send_and_receive E cmd a d)"
  unfolding send_and_receive_def
  by (rule returns_bind [OF returns_send_and_fill_buf [OF assms]], rule returns_reads)
    (auto simp: responsive_def)

subsection \<open>Commands\<close>

lemma ends_check_response:
  assumes "live_env E" "length d < 2 ^ 32"
  shows "ends (check_response E h d)"
  unfolding check_response_def
  by (intro ends_rbind ends_parse_result_data assms) (use assms(2) in \<open>auto simp: extract_result_data_def Let_def split: NativeResponse.split\<close>)

lemma ends_require [simp]: "ends (require lc s w)"
  by (simp add: require_def)

lemma returns_require: "returns W (\<lambda>_. True) (require_authenticated w)"
  unfolding require_authenticated_def by (rule returns_reads) simp_all

lemma returns_convert: "returns W (\<lambda>_. True) (convert_and_cache_result E r)"
  unfolding convert_and_cache_result_def
  by (intro returns_bind [where Q = "\<lambda>_. True"] returns_modify returns_lift)
    (auto simp: cache_result_def native_result_to_query_result_def split: NativeResponse.split)

lemmas returns_basic = returns_bind [where Q = "\<lambda>_. True"] returns_require returns_convert returns_send_and_fill_buf

lemma returns_execute_query:
  assumes "live_env E"
  shows "returns W (\<lambda>_. True) (execute_query E sql)"
  unfolding execute_query_def
proof (intro returns_basic assms returns_reads)
  fix h t assume "responsive W t"
  then have "ends (parse_response (te_native E) (result_data_slice h (nt_recv_buf t)))"
    using ends_parse_result_data [OF assms] result_data_bound by blast
  then show "ends (rbind (parse_response (te_native E) (result_data_slice h (nt_recv_buf t))) (\<lambda>r.
      case terminal r of Exception message sql_state \<Rightarrow> fail (sql_error message sql_state) | response \<Rightarrow> Inr response))"
    by (intro ends_rbind) (auto split: NativeResponse.split)
qed simp

lemma returns_check_buf: "live_env E \<Longrightarrow> returns W (\<lambda>_. True) (areads (\<lambda>t. check_response E h (nt_recv_buf t)))"
  by (rule returns_reads) (simp_all add: ends_check_response responsive_def)

lemma returns_advance: "returns W (\<lambda>_. True) (advance_position E h p n)"
  unfolding advance_position_def
  by (intro returns_bind [where Q = "\<lambda>_. True"] returns_lift returns_modify) (simp_all add: add_i64_def)

lemma ends_parse_fetch: "overflow_checks E \<Longrightarrow> ends (parse_fetch_to_record_batch E d cols)"
proof -
  assume E: "overflow_checks E"
  have "ends (build_batch_from_wire E d cols n off)" if "off \<le> length d" for n off
    using settlesD(1) [OF settles_build_batch [OF E] that] .
  then show ?thesis
    unfolding parse_fetch_to_record_batch_def
    by (auto intro!: ends_rbind simp: read_i64_def split: if_splits)
qed

lemma returns_fetch_response:
  assumes "live_env E"
  shows "returns W (\<lambda>_. True) (fetch_response E h p cols r)"
  unfolding fetch_response_def using assms
  by (auto simp: live_env_def intro!: returns_bind [where Q = "\<lambda>_. True"] returns_lift returns_advance ends_parse_fetch
      split: NativeResponse.split)

lemma returns_fetch_results:
  assumes "live_env E"
  shows "returns W (\<lambda>_. True) (fetch_results E h)"
  unfolding fetch_results_def
  by (intro returns_basic assms returns_reads returns_prod returns_check_buf returns_fetch_response)
    (auto simp: Let_def split: option.split)

lemma returns_close_request:
  assumes "live_env E"
  shows "returns W (\<lambda>_. True) (close_request E cmd h)"
  unfolding close_request_def
  by (rule returns_bind [OF returns_send_and_receive [OF assms]])
    (auto intro!: returns_bind [where Q = "\<lambda>_. True"] returns_lift ends_check_response assms)

lemma returns_run_execute_prepared:
  assumes "live_env E"
  shows "returns W (\<lambda>_. True) (run_execute_prepared E d)"
  unfolding run_execute_prepared_def
  by (rule returns_bind [OF returns_send_and_receive [OF assms]])
    (auto intro!: returns_bind [where Q = "\<lambda>_. True"] returns_lift ends_check_response assms returns_convert)

lemma ends_write_param_value [simp]: "ends (write_param_value J wt v sc)"
proof -
  have t: "ends (temporal_text J v f)" for f by (simp add: temporal_text_def split: option.split)
  have p: "ends (parse_date_text s)" "ends (parse_timestamp_text s)" for s
    by (simp_all add: parse_date_text_def parse_timestamp_text_def parse_or_def split: option.split)
  have m: "ends (map_sum (\<lambda>e. e) g r) = ends r" for g :: "byte list \<Rightarrow> byte list" and r :: "(TransportError, byte list) result"
    by (cases r) simp_all
  show ?thesis
    unfolding write_param_value_def Let_def by (auto simp: m t p intro!: ends_rbind)
qed

lemma ends_write_row [simp]: "ends (write_row J cs i)"
  by (induction J cs i rule: write_row.induct) (auto intro!: ends_rbind)

lemma ends_write_parameter_rows [simp]: "ends (write_parameter_rows J cols cs i n)"
  by (induction n arbitrary: i) (auto intro!: ends_rbind)

lemma ends_split_loop:
  assumes "\<And>i. ends (wr i)"
  shows "ends (split_loop wr ov lim n row st bytes rs)"
proof (induction n arbitrary: row st bytes rs)
  case (Suc n)
  then show ?case by (cases st) (auto simp: Let_def intro!: ends_rbind assms)
qed simp

lemma ends_parameters [simp]:
  "ends (split_parameter_rows J h cols lim)" "ends (build_range_payload h e r)"
  "ends (build_execute_prepared_payload J h ps)"
  by (auto simp: split_parameter_rows_def build_range_payload_def build_execute_prepared_payload_def Let_def
      intro!: ends_rbind ends_split_loop simp del: write_parameter_rows.simps)

lemma ends_add_range_result [simp]: "ends (add_range_result E n r)"
  by (auto simp: add_range_result_def add_i64_def intro!: ends_rbind split: QueryResult.split)

lemma returns_execute_ranges:
  assumes "live_env E"
  shows "returns W (\<lambda>_. True) (execute_ranges_from E h e rs n)"
proof (induction rs arbitrary: n)
  case (Cons r rs)
  have "returns W (\<lambda>_. True) (case step of Inr x \<Rightarrow> areturn x | Inl n \<Rightarrow> execute_ranges_from E h e rs n)" for step
    using Cons.IH by (cases step) (auto intro: returns_lift)
  then show ?case
    by (auto intro!: returns_bind [where Q = "\<lambda>_. True"] returns_lift returns_run_execute_prepared assms)
qed (auto intro: returns_lift)

lemma returns_execute_prepared_statement:
  assumes "live_env E"
  shows "returns W (\<lambda>_. True) (execute_prepared_statement E h ps)"
  unfolding execute_prepared_statement_def execute_prepared_ranges_def
proof (intro returns_basic returns_reads)
  show "ends (case ps of None \<Rightarrow> Inr None
      | Some cols \<Rightarrow> if ps_result_columns h = []
          then rbind (split_parameter_rows (te_json E) h cols (message_limit t)) (\<lambda>e. Inr (Some e)) else Inr None)"
    for t :: "'a NativeTcpTransport"
    by (auto intro!: ends_rbind split: option.split)
  have run: "returns W (\<lambda>_. True) (abind (alift (build_execute_prepared_payload (te_json E) h ps)) (run_execute_prepared E))"
    by (intro returns_bind [where Q = "\<lambda>_. True"] returns_lift returns_run_execute_prepared assms) simp_all
  fix encoded
  show "returns W (\<lambda>_. True) (case encoded of
      None \<Rightarrow> abind (alift (build_execute_prepared_payload (te_json E) h ps)) (run_execute_prepared E)
    | Some e \<Rightarrow> if ep_ranges e \<noteq> [] then execute_ranges_from E h e (ep_ranges e) 0
        else abind (alift (build_execute_prepared_payload (te_json E) h ps)) (run_execute_prepared E))"
    using run returns_execute_ranges [OF assms] by (auto split: option.split)
qed simp

lemma returns_create_prepared_statement:
  assumes "live_env E"
  shows "returns W (\<lambda>_. True) (create_prepared_statement E sql)"
  unfolding create_prepared_statement_def
  by (rule returns_bind [OF returns_require], rule returns_bind [OF returns_send_and_receive [OF assms]])
    (auto intro!: returns_bind [where Q = "\<lambda>_. True"] returns_lift ends_check_response assms split: NativeResponse.split)

lemma returns_set_attributes:
  assumes "live_env E"
  shows "returns W (\<lambda>_. True) (set_attributes E a)"
  unfolding set_attributes_def
  by (intro returns_basic returns_check_buf returns_lift assms) simp_all

lemma returns_refresh_current_schema:
  assumes "live_env E"
  shows "returns W (\<lambda>_. True) (refresh_current_schema E)"
  unfolding refresh_current_schema_def
  by (intro returns_basic returns_check_buf returns_reads returns_modify assms) simp_all

lemma returns_closes:
  assumes "live_env E"
  shows "returns W (\<lambda>_. True) (close_result_set E h)" "returns W (\<lambda>_. True) (close_prepared_statement E p)"
  unfolding close_result_set_def close_prepared_statement_def
  by (intro returns_basic returns_modify returns_close_request assms; simp)+

lemma returns_run_command:
  assumes "live_env E"
  shows "returns W (\<lambda>_. True) (run_command E c)"
  by (cases c)
    (auto simp: set_autocommit_def set_query_timeout_def set_current_schema_def
      intro!: returns_bind [where Q = "\<lambda>_. True"] returns_lift returns_execute_query returns_fetch_results
        returns_execute_prepared_statement returns_create_prepared_statement returns_set_attributes
        returns_refresh_current_schema returns_closes assms)

subsection \<open>The login\<close>

lemma returns_receive_message:
  assumes "live_env E"
  shows "returns W (\<lambda>(h, d). length d < 2 ^ 32) (receive_message E)"
  unfolding receive_message_def
  by (rule returns_bind [OF returns_receive_into_buf [OF assms]], rule returns_reads) (auto simp: responsive_def)

lemma ends_reject_exception:
  assumes "live_env E" "length d < 2 ^ 32"
  shows "ends (reject_exception E ctx (extract_result_data h d))"
  unfolding reject_exception_def
  by (auto intro!: ends_rbind ends_parse_result_data assms split: NativeResponse.split)
    (use assms(2) in \<open>auto simp: extract_result_data_def Let_def\<close>)

lemma ends_exasol_encode_pwd [simp]: "ends (exasol_encode_pwd ovf L d ph n e)"
proof -
  have b: "ends (rsa_block ovf L ib n e i enc)" for ib i enc
    by (auto simp: rsa_block_def usize_sub_def Let_def intro!: ends_rbind split: option.split)
  have "ends (rsa_blocks ovf L ib n e k m enc)" for ib k m enc
    by (induction m arbitrary: k enc) (auto intro!: ends_rbind b)
  then show ?thesis by (auto simp: exasol_encode_pwd_def Let_def protocol_error_def intro!: ends_rbind)
qed

lemma ends_build_auth_message: "ends (build_auth_message ovf L pw key ph c u)"
  by (auto simp: build_auth_message_def pad_password_def key_attributes_def generate_keys_def Let_def
      protocol_error_def graceful_ends [OF parse_rsa_public_key_graceful] SerialCounter_next_def
      intro!: ends_rbind split: option.split)

lemma ends_negotiated [simp]: "ends (negotiated_protocol_version v)" "ends (required_bytes a i w)"
  by (simp_all add: negotiated_protocol_version_def required_bytes_def split: option.split)

lemma returns_auth_message: "returns W (\<lambda>_. True) (auth_message E c key ph u)"
  unfolding auth_message_def [abs_def]
  by (rule returns_result [where k = "\<lambda>x _. x" and h = "\<lambda>_ e t. t\<lparr>nt_serial := e\<rparr>"]) (simp_all add: ends_build_auth_message)

lemma returns_activate: "returns W (\<lambda>_. True) (activate_encryption E u auth)"
proof (rule returnsI)
  fix t p t' assume t: "responsive W t" and run: "activate_encryption E u auth t = (p, t')"
  have "set_keys (te_cipher E) (send_key auth) (recv_key auth) (nt_encryptor t) \<noteq> Inl Diverged"
    using ends_crypt(3) unfolding ends_def by blast
  then show "responsive W t' \<and> answered W (\<lambda>_. True) p"
    using run t by (auto simp: activate_encryption_def split: sum.splits if_splits)
qed

lemma returns_login_exchange:
  assumes "live_env E"
  shows "returns W (\<lambda>_. True) (login_exchange E c)"
proof -
  have g: "returns W (\<lambda>_. True) (login_greeting E c)"
    unfolding login_greeting_def
    by (intro returns_bind [where Q = "\<lambda>_. True"] returns_send_raw returns_weaken [OF returns_receive_message]
        returns_prod returns_lift ends_rbind assms)
      (simp_all add: graceful_ends [OF parse_attributes_graceful])
  have p: "returns W (\<lambda>_. True) (login_password E c key ph)" for key ph
    unfolding login_password_def
    by (intro returns_bind [where Q = "\<lambda>_. True"] returns_reads returns_auth_message returns_send_raw
        returns_bind [OF returns_receive_message] returns_lift returns_activate returns_prod assms)
      (auto intro: ends_reject_exception [OF assms])
  have r: "returns W (\<lambda>_. True) (login_attributes_reply E)"
    unfolding login_attributes_reply_def send_message_def
    by (intro returns_bind [where Q = "\<lambda>_. True"] returns_send_message_with_serial
        returns_bind [OF returns_receive_message] returns_lift returns_prod assms)
      (auto intro: ends_reject_exception [OF assms])
  show ?thesis
    unfolding login_exchange_def Let_def
    by (intro returns_bind [where Q = "\<lambda>_. True"] g p r returns_modify returns_lift returns_prod) simp_all
qed

text \<open>
  The setup is bounded by its deadline whatever the peer does: a login that waits for ever is
  dropped, with the timeout error, and the transport is closed and released.
\<close>

lemma authenticate_silent_peer:
  assumes "live_env E" "responsive True t" "conn_state t = Connected" "lc_deadline (nt_lifecycle t) = Some dl"
    and "authenticate E lt c now lag t = (r, t')"
  shows "ends r \<and> (fst (login_exchange E c t) = Pending \<or> max now (dl_deadline dl) < lt_finish lt \<longrightarrow>
      r = fail (timeout_error dl Login) \<and> conn_state t' = Closed \<and> released t')"
proof -
  obtain p u where log: "login_exchange E c t = (p, u)" by force
  note p = returnsD [OF returns_login_exchange [OF assms(1)] assms(2) log]
  obtain x s1 now' where run: "SetupDeadline_run dl Login now (native_login E lt c t) = (x, s1, now')"
    by (metis prod_cases3)
  note facts = native.authenticate_cases [where E = E and lt = lt, simplified, OF assms(3,4) run
      assms(5) [unfolded authenticate_def]]
  show ?thesis
  proof (rule SetupDeadline_run_cases [OF run])
    assume "outcome (native_login E lt c t) = Ready x" "finish (native_login E lt c t) \<le> max now (dl_deadline dl)"
    then show ?thesis using p log facts(1) by (auto simp: native_login_def answered_def)
  next
    assume to: "x = fail (timeout_error dl Login)" "now' = max now (dl_deadline dl)"
    have "dl_deadline dl \<le> now' + lag" using to(2) by simp
    then have "conn_state t' = Closed \<and> released t'" using facts(4) [OF to(1)] by blast
    then show ?thesis using to(1) facts(1) by (metis ends_simps(2))
  qed
qed

end
