(* ===== verification/Transport_Wire.thy ===== *)
theory Transport_Wire
  imports Transport_Frame Envelope_Laws
begin

text \<open>
  The two ends of a connection. A server that is in step with the client's encryption reads
  the request the client sent, and the client reads the reply the server sent; replies that
  say the statement is still executing are passed over. The laws are stated for any reply
  body; \<open>Envelope_Laws\<close> gives the bodies a server writes.
\<close>

subsection \<open>The server's side\<close>

record server_reply =
  sr_command :: byte
  sr_serial :: u32
  sr_attrs :: AttributeSet
  sr_parts :: u32
  sr_body :: "byte list"

definition reply_payload :: "server_reply \<Rightarrow> byte list" where
  "reply_payload r = AttributeSet_serialize (sr_attrs r) @ sr_body r"

definition reply_header :: "server_reply \<Rightarrow> MessageHeader" where
  "reply_header r = \<lparr>message_length = of_nat (length (reply_payload r)), command = sr_command r, serial = sr_serial r,
    num_attributes = AttributeSet_num_attributes (sr_attrs r),
    attribute_data_len = of_nat (length (AttributeSet_serialize (sr_attrs r))), num_result_parts = sr_parts r\<rparr>"

definition reply_ok :: "native_env \<Rightarrow> server_reply \<Rightarrow> bool" where
  "reply_ok E r \<longleftrightarrow> list_all attr_ok (sr_attrs r) \<and> length (sr_attrs r) < 2 ^ 32
    \<and> length (reply_payload r) < 2 ^ 32 \<and> reserve E (length (reply_payload r))"

definition seal :: "'c cipher \<Rightarrow> 'c ChaCha20Encryptor \<Rightarrow> byte list \<Rightarrow> (TransportError, byte list \<times> 'c ChaCha20Encryptor) result" where
  "seal C e d = (if is_active e then encrypt C e d else Inr (d, e))"

definition unseal :: "'c cipher \<Rightarrow> 'c ChaCha20Encryptor \<Rightarrow> byte list \<Rightarrow> (TransportError, byte list \<times> 'c ChaCha20Encryptor) result" where
  "unseal C e d = (if is_active e then decrypt C e d else Inr (d, e))"

definition server_sends ::
  "'c cipher \<Rightarrow> 'c ChaCha20Encryptor \<Rightarrow> server_reply \<Rightarrow> (TransportError, byte list \<times> 'c ChaCha20Encryptor) result" where
  "server_sends C srv r = rbind (seal C srv (reply_payload r)) (\<lambda>(c, srv').
    Inr (serialize_header (reply_header r) @ c, srv'))"

lemma in_step_sym: "in_step a b \<Longrightarrow> in_step b a"
  by (auto simp: in_step_def)

lemma in_step_active: "in_step a b \<Longrightarrow> is_active a = is_active b"
  by (auto simp: in_step_def is_active_def)

lemma seal_unseal:
  assumes "stream_cipher C" "in_step a b" "seal C a d = Inr (c, a')"
  shows "\<exists>b'. unseal C b c = Inr (d, b') \<and> in_step a' b' \<and> length c = length d"
  using encrypt_decrypt_step [OF assms(1,2), of d c a'] encrypt_length [OF assms(1), of a d c a']
    in_step_active [OF assms(2)] assms(2,3)
  by (auto simp: seal_def unseal_def split: if_splits)

subsection \<open>Streams\<close>

fun map_io :: "(io_stream \<Rightarrow> io_stream) \<Rightarrow> NativeStream \<Rightarrow> NativeStream" where
  "map_io f (Plain io) = Plain (f io)"
| "map_io f (Tls io) = Tls (f io)"

lemma io_of_map_io [simp]: "io_of (map_io f st) = f (io_of st)"
  by (cases st) simp_all

lemma read_exact_prefix:
  assumes "inbox (io_of st) = d @ rest"
  shows "read_exact (length d) st = (Ready (Inr d), map_io (\<lambda>io. io\<lparr>inbox := rest\<rparr>) st)"
  using assms by (cases st) (simp_all add: read_exact_def on_stream_def io_read_exact_def)

text \<open>A stream whose writes complete.\<close>

definition writable :: "NativeStream \<Rightarrow> bool" where
  "writable st \<longleftrightarrow> write_outcomes (io_of st) = []"

definition sent :: "byte list \<Rightarrow> NativeStream \<Rightarrow> NativeStream" where
  "sent d = map_io (\<lambda>io. io\<lparr>outbox := outbox io @ d\<rparr>)"

lemma sent_simps [simp]:
  "writable (sent d st) = writable st" "inbox (io_of (sent d st)) = inbox (io_of st)"
  "outbox (io_of (sent d st)) = outbox (io_of st) @ d"
  by (simp_all add: sent_def writable_def)

lemma sent_sent [simp]: "sent d' (sent d st) = sent (d @ d') st"
  by (cases st) (simp_all add: sent_def)

lemma send_raw_writable:
  assumes "nt_stream t = Some st" "writable st"
  shows "send_raw d t = (Ready (Inr ()), t\<lparr>nt_stream := Some (sent d st)\<rparr>)"
proof -
  have io: "io_write_all x io = (Ready (Inr ()), io\<lparr>outbox := outbox io @ x\<rparr>)" if "write_outcomes io = []" for x io
    using that by (simp add: io_write_all_def Let_def)
  have "abind (write_all d) (\<lambda>_. flush) st = (Ready (Inr ()), sent d st)"
    using assms(2) by (cases st) (simp_all add: abind_def write_all_def flush_def on_stream_def writable_def io sent_def)
  then show ?thesis using assms(1) by (simp add: send_raw_def stream_mut_def)
qed

subsection \<open>A request\<close>

definition request_bytes :: "byte \<Rightarrow> AttributeSet \<Rightarrow> byte list option \<Rightarrow> u32 \<Rightarrow> byte list \<Rightarrow> byte list" where
  "request_bytes cmd attrs d ser c = serialize_header (request_header cmd attrs d ser) @ c"

lemma send_message_sealed:
  assumes "nt_stream t = Some st" "writable st" "seal (te_cipher E) (nt_encryptor t) (request_payload attrs d) = Inr (c, enc)"
  shows "send_message_with_serial E cmd attrs d (Some ser) t =
    (Ready (Inr ()), t\<lparr>nt_stream := Some (sent (request_bytes cmd attrs d ser c) st), nt_encryptor := enc\<rparr>)"
proof -
  have e: "encrypt_payload E (request_payload attrs d) t = (Ready (Inr c), t\<lparr>nt_encryptor := enc\<rparr>)"
    using assms(3) by (auto simp: encrypt_payload_def seal_def split: if_splits)
  show ?thesis
    using assms(1,2)
    by (simp add: send_message_with_serial_def act_simps abind_def e send_raw_writable request_bytes_def)
qed

text \<open>The header tells the server where the request ends and where its attributes end.\<close>

lemma request_header_parses:
  "parse_header (take HEADER_SIZE (request_bytes cmd attrs d ser c)) = Some (request_header cmd attrs d ser)"
  "drop HEADER_SIZE (request_bytes cmd attrs d ser c) = c"
  by (simp_all add: request_bytes_def HEADER_SIZE_def parse_serialize_header)

subsection \<open>A reply\<close>

lemma reply_slices:
  assumes "reply_ok E r"
  shows "response_attributes (reply_header r) (reply_payload r) = Inr (sr_attrs r)"
    and "result_data_slice (reply_header r) (reply_payload r) = sr_body r"
    and "extract_result_data (reply_header r) (reply_payload r) = sr_body r"
    and "unat (message_length (reply_header r)) = length (reply_payload r)"
proof -
  let ?a = "AttributeSet_serialize (sr_attrs r)"
  have len: "length ?a < 2 ^ 32" "length (reply_payload r) < 2 ^ 32"
    using assms by (auto simp: reply_ok_def reply_payload_def)
  then have a: "unat (attribute_data_len (reply_header r)) = length ?a"
    by (simp add: reply_header_def unat_of_nat_u32)
  show m: "unat (message_length (reply_header r)) = length (reply_payload r)"
    using len by (simp add: reply_header_def unat_of_nat_u32)
  show "result_data_slice (reply_header r) (reply_payload r) = sr_body r"
    "extract_result_data (reply_header r) (reply_payload r) = sr_body r"
    unfolding result_data_slice_def extract_result_data_def Let_def a by (simp_all add: reply_payload_def)
  show "response_attributes (reply_header r) (reply_payload r) = Inr (sr_attrs r)"
  proof (cases "sr_attrs r = []")
    case True
    then show ?thesis
      by (simp add: response_attributes_def reply_header_def AttributeSet_num_attributes_def AttributeSet_new_def)
  next
    case False
    have ok: "list_all attr_ok (sr_attrs r)" "length (sr_attrs r) < 2 ^ 32" using assms by (auto simp: reply_ok_def)
    have "serialize_attribute a \<noteq> []" for a
    proof -
      have "length (serialize_attribute a) \<ge> 2" by (simp add: length_serialize_attribute serialized_len_def split: AttributeValue.split)
      then show ?thesis by auto
    qed
    then have "?a \<noteq> []" using False by (cases "sr_attrs r") (auto simp: AttributeSet_serialize_def)
    then have "attribute_data_len (reply_header r) \<noteq> 0" using a by (metis length_0_conv unat_0)
    moreover have "num_attributes (reply_header r) \<noteq> 0"
      using False ok(2) unat_of_nat_u32 [of "length (sr_attrs r)"]
      by (auto simp: reply_header_def AttributeSet_num_attributes_def)
    ultimately show ?thesis
      using parse_serialize_attributes [OF ok, of "[]"]
      unfolding response_attributes_def Let_def a by (simp add: reply_payload_def reply_header_def)
  qed
qed

text \<open>The state after a reply: its bytes taken off the stream, its payload in the buffer.\<close>

definition after_reply ::
  "server_reply \<Rightarrow> 'c ChaCha20Encryptor \<Rightarrow> NativeStream \<Rightarrow> 'c NativeTcpTransport \<Rightarrow> 'c NativeTcpTransport" where
  "after_reply r enc st t = record_schema (sr_attrs r)
    (t\<lparr>nt_stream := Some st, nt_encryptor := enc, nt_recv_buf := reply_payload r\<rparr>)"

lemma receive_sealed:
  assumes "stream_cipher (te_cipher E)" "in_step srv (nt_encryptor t)" "server_sends (te_cipher E) srv r = Inr (bytes, srv')"
    and "nt_stream t = Some st" "inbox (io_of st) = bytes @ rest" "reply_ok (te_native E) r"
  shows "\<exists>enc. receive_into_buf E t = (Ready (Inr (reply_header r)),
      after_reply r enc (map_io (\<lambda>io. io\<lparr>inbox := rest\<rparr>) st) t) \<and> in_step srv' enc"
proof -
  let ?h = "reply_header r" and ?p = "reply_payload r"
  from assms(3) obtain c where c: "seal (te_cipher E) srv ?p = Inr (c, srv')" "bytes = serialize_header ?h @ c"
    by (auto simp: server_sends_def res_simps)
  from seal_unseal [OF assms(1,2) c(1)] obtain enc where
    u: "unseal (te_cipher E) (nt_encryptor t) c = Inr (?p, enc)" and step: "in_step srv' enc" and len: "length c = length ?p"
    by blast
  have hd: "inbox (io_of st) = serialize_header ?h @ c @ rest" using assms(5) c(2) by simp
  let ?st = "map_io (\<lambda>io. io\<lparr>inbox := c @ rest\<rparr>) st" and ?st' = "map_io (\<lambda>io. io\<lparr>inbox := rest\<rparr>) st"
  have r1: "stream_mut (read_exact HEADER_SIZE) t = (Ready (Inr (serialize_header ?h)), t\<lparr>nt_stream := Some ?st\<rparr>)"
    using read_exact_prefix [OF hd] assms(4) by (simp add: stream_mut_def HEADER_SIZE_def)
  have st': "map_io (\<lambda>io. io\<lparr>inbox := rest\<rparr>) ?st = ?st'" by (cases st) simp_all
  let ?t = "t\<lparr>nt_stream := Some ?st, nt_recv_buf := []\<rparr>"
  have fill: "fill_buf E (length ?p) ?t = (Ready (Inr ()), t\<lparr>nt_stream := Some ?st', nt_encryptor := enc, nt_recv_buf := ?p\<rparr>)"
  proof (cases "?p = []")
    case True
    then have "c = []" "enc = nt_encryptor t"
      using len u crypt_nothing [OF assms(1)] by (auto simp: unseal_def split: if_splits)
    then show ?thesis using True by (simp add: fill_buf_def act_simps)
  next
    case False
    have ex: "read_exact (length ?p) ?st = (Ready (Inr c), ?st')"
      using read_exact_prefix [of ?st c rest] st' len by simp
    show ?thesis
      using False assms(6) u
      by (auto simp: fill_buf_def act_simps alloc_def reply_ok_def abind_def read_payload_def ex decrypt_buf_def unseal_def
          split: if_splits)
  qed
  show ?thesis
    using step by (intro exI [of _ enc])
      (simp add: receive_into_buf_def abind_def [of "stream_mut (read_exact HEADER_SIZE)"] r1 parse_serialize_header act_simps
        receive_payload_def reply_slices [OF assms(6)] abind_def [of "fill_buf E (length ?p)"] fill after_reply_def)
qed

subsection \<open>An exchange\<close>

fun server_sends_all ::
  "'c cipher \<Rightarrow> 'c ChaCha20Encryptor \<Rightarrow> server_reply list \<Rightarrow> (TransportError, byte list \<times> 'c ChaCha20Encryptor) result" where
  "server_sends_all C srv [] = Inr ([], srv)"
| "server_sends_all C srv (r # rs) = rbind (server_sends C srv r) (\<lambda>(b, srv').
    rbind (server_sends_all C srv' rs) (\<lambda>(bs, srv''). Inr (b @ bs, srv'')))"

text \<open>The schema recorded after a sequence of replies: the last one that names a schema decides.\<close>

definition schema_after :: "server_reply list \<Rightarrow> string option \<Rightarrow> string option" where
  "schema_after rs s = fold (\<lambda>r s. case current_schema_change (sr_attrs r) of None \<Rightarrow> s | Some s' \<Rightarrow> s') rs s"

lemma server_sends_length: "server_sends C srv r = Inr (b, srv') \<Longrightarrow> HEADER_SIZE \<le> length b"
  by (auto simp: server_sends_def res_simps HEADER_SIZE_def)

lemma server_sends_all_length: "server_sends_all C srv rs = Inr (b, srv') \<Longrightarrow> length rs * HEADER_SIZE \<le> length b"
proof (induction rs arbitrary: srv b)
  case (Cons r rs)
  then obtain b1 srv1 b2 where "server_sends C srv r = Inr (b1, srv1)" "server_sends_all C srv1 rs = Inr (b2, srv')" "b = b1 @ b2"
    by (auto simp: res_simps)
  then show ?case using Cons.IH server_sends_length [of C srv r b1 srv1] by fastforce
qed simp

definition still_executing :: "native_env \<Rightarrow> server_reply \<Rightarrow> bool" where
  "still_executing E r \<longleftrightarrow> (\<exists>env. parse_response E (sr_body r) = Inr env \<and> terminal env = StillExecuting)"

lemma after_reply_simps [simp]:
  "nt_stream (after_reply r enc st t) = Some st" "nt_encryptor (after_reply r enc st t) = enc"
  "nt_recv_buf (after_reply r enc st t) = reply_payload r" "nt_serial (after_reply r enc st t) = nt_serial t"
  "nt_current_schema (after_reply r enc st t) = schema_after [r] (nt_current_schema t)"
  by (simp_all add: after_reply_def record_schema_def schema_after_def split: option.split)

text \<open>The client passes over the replies that say the statement is still executing.\<close>

lemma await_replies:
  assumes "stream_cipher (te_cipher E)" "in_step srv (nt_encryptor t)"
    and "server_sends_all (te_cipher E) srv (ws @ [r]) = Inr (bytes, srv')"
    and "nt_stream t = Some st" "inbox (io_of st) = bytes @ rest" "list_all (reply_ok (te_native E)) (ws @ [r])"
    and "list_all (still_executing (te_native E)) ws" "parse_response (te_native E) (sr_body r) = Inr env"
    and "terminal env \<noteq> StillExecuting" "length ws < n"
  shows "\<exists>t'. await_reply n E t = (Ready (Inr (reply_header r)), t') \<and> nt_recv_buf t' = reply_payload r
    \<and> nt_stream t' = Some (map_io (\<lambda>io. io\<lparr>inbox := rest\<rparr>) st) \<and> in_step srv' (nt_encryptor t')
    \<and> nt_serial t' = nt_serial t \<and> nt_current_schema t' = schema_after (ws @ [r]) (nt_current_schema t)"
  using assms(2-7,10)
proof (induction ws arbitrary: srv t st bytes n)
  case Nil
  then obtain m where n: "n = Suc m" by (cases n) auto
  have b: "server_sends (te_cipher E) srv r = Inr (bytes, srv')" using Nil.prems(2) by (auto simp: res_simps)
  have ok: "reply_ok (te_native E) r" using Nil.prems(5) by simp
  from receive_sealed [OF assms(1) Nil.prems(1) b Nil.prems(3,4) ok] obtain enc where
    "receive_into_buf E t = (Ready (Inr (reply_header r)), after_reply r enc (map_io (\<lambda>io. io\<lparr>inbox := rest\<rparr>) st) t)"
    "in_step srv' enc" by blast
  then show ?case
    using assms(8,9) by (simp add: n abind_def act_eval reply_slices [OF ok])
next
  case (Cons w ws)
  then obtain m where n: "n = Suc m" "length ws < m" by (cases n) auto
  from Cons.prems(2) obtain b srv1 bs where b: "server_sends (te_cipher E) srv w = Inr (b, srv1)"
    "server_sends_all (te_cipher E) srv1 (ws @ [r]) = Inr (bs, srv')" "bytes = b @ bs" by (auto simp: res_simps)
  have ok: "reply_ok (te_native E) w" using Cons.prems(5) by simp
  have i: "inbox (io_of st) = b @ bs @ rest" using Cons.prems(4) b(3) by simp
  from receive_sealed [OF assms(1) Cons.prems(1) b(1) Cons.prems(3) i ok] obtain enc where
    rec: "receive_into_buf E t = (Ready (Inr (reply_header w)), after_reply w enc (map_io (\<lambda>io. io\<lparr>inbox := bs @ rest\<rparr>) st) t)"
    and enc: "in_step srv1 enc" by blast
  let ?st = "map_io (\<lambda>io. io\<lparr>inbox := bs @ rest\<rparr>) st" and ?t = "after_reply w enc (map_io (\<lambda>io. io\<lparr>inbox := bs @ rest\<rparr>) st) t"
  have "await_reply n E t = await_reply m E ?t"
    using Cons.prems(6) by (auto simp: n(1) abind_def act_eval rec reply_slices [OF ok] still_executing_def)
  moreover have "map_io (\<lambda>io. io\<lparr>inbox := rest\<rparr>) ?st = map_io (\<lambda>io. io\<lparr>inbox := rest\<rparr>) st" by (cases st) simp_all
  moreover have "schema_after (ws @ [r]) (nt_current_schema ?t) = schema_after ((w # ws) @ [r]) (nt_current_schema t)"
    by (simp add: schema_after_def)
  moreover have "in_step srv1 (nt_encryptor ?t)" "nt_stream ?t = Some ?st" "inbox (io_of ?st) = bs @ rest" using enc by simp_all
  ultimately show ?case
    using Cons.IH [of srv1 ?t bs ?st m] b(2) Cons.prems(5,6) n(2) by simp
qed

text \<open>
  A server in step with the client receives the request and sends these replies; what comes
  after them is \<open>rest\<close>.
\<close>

definition answers ::
  "('c, 'n) transport_env \<Rightarrow> 'c ChaCha20Encryptor \<Rightarrow> byte list \<Rightarrow> server_reply list \<Rightarrow> byte list \<Rightarrow>
    'c NativeTcpTransport \<Rightarrow> 'c ChaCha20Encryptor \<Rightarrow> bool" where
  "answers E srv request replies rest t srv' \<longleftrightarrow> (\<exists>st c enc srv1 bytes.
    nt_stream t = Some st \<and> writable st \<and> in_step (nt_encryptor t) srv
    \<and> seal (te_cipher E) (nt_encryptor t) request = Inr (c, enc) \<and> unseal (te_cipher E) srv c = Inr (request, srv1)
    \<and> server_sends_all (te_cipher E) srv1 replies = Inr (bytes, srv') \<and> inbox (io_of st) = bytes @ rest
    \<and> list_all (reply_ok (te_native E)) replies)"

definition received :: "byte list \<Rightarrow> server_reply list \<Rightarrow> 'c ChaCha20Encryptor \<Rightarrow> 'c NativeTcpTransport \<Rightarrow> 'c NativeTcpTransport \<Rightarrow> bool" where
  "received rest replies srv' t t' \<longleftrightarrow> nt_recv_buf t' = reply_payload (last replies)
    \<and> (\<exists>st. nt_stream t' = Some st \<and> writable st \<and> inbox (io_of st) = rest) \<and> in_step (nt_encryptor t') srv'
    \<and> nt_serial t' = snd (SerialCounter_next (nt_serial t))
    \<and> nt_current_schema t' = schema_after replies (nt_current_schema t) \<and> wire_step t t'"

text \<open>What the stream carries for a request: the header, then the payload the server unseals to the request.\<close>

definition request_sent :: "('c, 'n) transport_env \<Rightarrow> 'c ChaCha20Encryptor \<Rightarrow> byte \<Rightarrow> AttributeSet \<Rightarrow> byte list option \<Rightarrow>
    'c NativeTcpTransport \<Rightarrow> 'c NativeTcpTransport \<Rightarrow> bool" where
  "request_sent E srv cmd attrs d t t' \<longleftrightarrow> (\<exists>st st' c srv1. nt_stream t = Some st \<and> nt_stream t' = Some st'
    \<and> outbox (io_of st') = outbox (io_of st)
        @ serialize_header (request_header cmd attrs d (fst (SerialCounter_next (nt_serial t)))) @ c
    \<and> unseal (te_cipher E) srv c = Inr (request_payload attrs d, srv1))"

lemma exchange:
  assumes "stream_cipher (te_cipher E)" "answers E srv (request_payload attrs d) (ws @ [r]) rest t srv'"
    and "list_all (still_executing (te_native E)) ws" "parse_response (te_native E) (sr_body r) = Inr env"
    and "terminal env \<noteq> StillExecuting"
  shows "\<exists>t'. send_and_fill_buf E cmd attrs d t = (Ready (Inr (reply_header r)), t') \<and> received rest (ws @ [r]) srv' t t'
    \<and> request_sent E srv cmd attrs d t t'"
proof -
  from assms(2) obtain st c enc srv1 bytes where
    st: "nt_stream t = Some st" "writable st" "in_step (nt_encryptor t) srv" "inbox (io_of st) = bytes @ rest"
    and c: "seal (te_cipher E) (nt_encryptor t) (request_payload attrs d) = Inr (c, enc)"
      "unseal (te_cipher E) srv c = Inr (request_payload attrs d, srv1)"
    and b: "server_sends_all (te_cipher E) srv1 (ws @ [r]) = Inr (bytes, srv')" "list_all (reply_ok (te_native E)) (ws @ [r])"
    unfolding answers_def by blast
  from seal_unseal [OF assms(1) st(3) c(1)] c(2) have step: "in_step srv1 enc" by (auto intro: in_step_sym)
  define ser where "ser = fst (SerialCounter_next (nt_serial t))"
  let ?t = "t\<lparr>nt_serial := snd (SerialCounter_next (nt_serial t))\<rparr>"
  let ?st = "sent (request_bytes cmd attrs d ser c) st"
  let ?u = "?t\<lparr>nt_stream := Some ?st, nt_encryptor := enc\<rparr>"
  have ts: "take_serial t = (Ready (Inr ser), ?t)" by (simp add: take_serial_def ser_def case_prod_unfold)
  have send: "send_message_with_serial E cmd attrs d (Some ser) ?t = (Ready (Inr ()), ?u)"
    using send_message_sealed [of ?t st E attrs d c enc cmd ser] st(1,2) c(1) by simp
  have "length ws < Suc (pending_bytes ?u)"
    using server_sends_all_length [OF b(1)] st(4) by (simp add: pending_bytes_def HEADER_SIZE_def)
  from await_replies [where t = ?u and st = ?st and rest = rest, OF assms(1) _ b(1) _ _ b(2) assms(3-5) this] step st(4)
  obtain t' where t': "await_reply (Suc (pending_bytes ?u)) E ?u = (Ready (Inr (reply_header r)), t')"
    "nt_recv_buf t' = reply_payload r" "nt_stream t' = Some (map_io (\<lambda>io. io\<lparr>inbox := rest\<rparr>) ?st)"
    "in_step srv' (nt_encryptor t')" "nt_serial t' = nt_serial ?u"
    "nt_current_schema t' = schema_after (ws @ [r]) (nt_current_schema ?u)" by auto
  have run: "send_and_fill_buf E cmd attrs d t = (Ready (Inr (reply_header r)), t')"
    using t'(1) by (simp add: send_and_fill_buf_def abind_def ts send del: await_reply.simps)
  moreover have "writable (map_io (\<lambda>io. io\<lparr>inbox := rest\<rparr>) ?st)" using st(2) by (simp add: writable_def sent_def)
  moreover have "request_sent E srv cmd attrs d t t'"
    using st(1) t'(3) c(2) by (auto simp: request_sent_def request_bytes_def ser_def)
  ultimately show ?thesis
    using t' steps_byD [OF wire_send_and_fill_buf run] by (auto simp: received_def intro: in_step_sym)
qed

end
