(* ===== verification/Command_Laws.thy ===== *)
theory Command_Laws
  imports Transport_Wire Transport_States
begin

text \<open>
  Whole operations against a server in step with the client: what the server receives, what
  the caller gets, and what the transport remembers. A dialogue is a sequence of requests
  with the replies to each.
\<close>

subsection \<open>Dialogues\<close>

text \<open>The server receives a sealed request and sends its replies.\<close>

definition serves ::
  "'c cipher \<Rightarrow> 'c ChaCha20Encryptor \<Rightarrow> byte list \<Rightarrow> server_reply list \<Rightarrow> byte list \<Rightarrow> 'c ChaCha20Encryptor \<Rightarrow> bool" where
  "serves C srv request replies bytes srv' \<longleftrightarrow> (\<exists>c srv1. unseal C srv c = Inr (request, srv1)
    \<and> server_sends_all C srv1 replies = Inr (bytes, srv'))"

fun dialogue ::
  "'c cipher \<Rightarrow> 'c ChaCha20Encryptor \<Rightarrow> (byte list \<times> server_reply list) list \<Rightarrow> byte list \<Rightarrow> 'c ChaCha20Encryptor \<Rightarrow> bool" where
  "dialogue C srv [] bytes srv' \<longleftrightarrow> bytes = [] \<and> srv' = srv"
| "dialogue C srv ((request, replies) # xs) bytes srv' \<longleftrightarrow>
    (\<exists>b srv1 bs. serves C srv request replies b srv1 \<and> bytes = b @ bs \<and> dialogue C srv1 xs bs srv')"

text \<open>The client's end: a writable stream with the server's bytes to come, in step with the server.\<close>

definition facing :: "'c ChaCha20Encryptor \<Rightarrow> byte list \<Rightarrow> 'c NativeTcpTransport \<Rightarrow> bool" where
  "facing srv bytes t \<longleftrightarrow> in_step (nt_encryptor t) srv
    \<and> (\<exists>st. nt_stream t = Some st \<and> writable st \<and> inbox (io_of st) = bytes)"

lemma seal_of_unseal:
  assumes "stream_cipher C" "in_step a b" "unseal C b c = Inr (d, b')"
  shows "\<exists>a'. seal C a d = Inr (c, a')"
proof (cases "is_active b")
  case False
  then show ?thesis using assms(3) in_step_active [OF assms(2)] by (auto simp: seal_def unseal_def)
next
  case True
  then obtain s where s: "recv_cipher b = Some s" "send_cipher a = Some s"
    using assms(2) by (auto simp: is_active_def in_step_def)
  then obtain s' where "apply_keystream C s c = Some (d, s')"
    using True assms(3) by (auto simp: unseal_def decrypt_def ChaCha20State_apply_def res_simps split: option.splits)
  from stream_cipherD [OF assms(1) this] show ?thesis
    using s True in_step_active [OF assms(2)] by (simp add: seal_def encrypt_def ChaCha20State_apply_def)
qed

lemma facing_answers:
  assumes "stream_cipher (te_cipher E)" "facing srv (bytes @ rest) t" "serves (te_cipher E) srv request replies bytes srv'"
    and "list_all (reply_ok (te_native E)) replies"
  shows "answers E srv request replies rest t srv'"
proof -
  obtain st where st: "nt_stream t = Some st" "writable st" "inbox (io_of st) = bytes @ rest" "in_step (nt_encryptor t) srv"
    using assms(2) by (auto simp: facing_def)
  obtain c srv1 where c: "unseal (te_cipher E) srv c = Inr (request, srv1)"
    "server_sends_all (te_cipher E) srv1 replies = Inr (bytes, srv')" using assms(3) by (auto simp: serves_def)
  from seal_of_unseal [OF assms(1) st(4) c(1)] obtain a' where "seal (te_cipher E) (nt_encryptor t) request = Inr (c, a')"
    by blast
  then show ?thesis using st c assms(4) unfolding answers_def by blast
qed

text \<open>The replies to one request: any number of StillExecuting, then a final one.\<close>

definition final_reply :: "native_env \<Rightarrow> server_reply list \<Rightarrow> NativeResponse \<Rightarrow> bool" where
  "final_reply E replies response \<longleftrightarrow> list_all (reply_ok E) replies \<and> replies \<noteq> []
    \<and> list_all (still_executing E) (butlast replies) \<and> response \<noteq> StillExecuting
    \<and> (\<exists>ws. parse_response E (sr_body (last replies)) = Inr \<lparr>warnings = ws, terminal = response\<rparr>)"

lemma exchange_final:
  assumes "stream_cipher (te_cipher E)" "facing srv (bytes @ rest) t"
    and "serves (te_cipher E) srv (request_payload attrs d) replies bytes srv'" "final_reply (te_native E) replies response"
  shows "\<exists>h t' ws. send_and_fill_buf E cmd attrs d t = (Ready (Inr h), t')
    \<and> parse_response (te_native E) (result_data_slice h (nt_recv_buf t')) = Inr \<lparr>warnings = ws, terminal = response\<rparr>
    \<and> response_attributes h (nt_recv_buf t') = Inr (sr_attrs (last replies))
    \<and> received rest replies srv' t t' \<and> request_sent E srv cmd attrs d t t'"
proof -
  obtain ws where f: "list_all (reply_ok (te_native E)) replies" "replies \<noteq> []"
    "list_all (still_executing (te_native E)) (butlast replies)" "response \<noteq> StillExecuting"
    "parse_response (te_native E) (sr_body (last replies)) = Inr \<lparr>warnings = ws, terminal = response\<rparr>"
    using assms(4) by (auto simp: final_reply_def)
  have split: "butlast replies @ [last replies] = replies" using f(2) by simp
  have a: "answers E srv (request_payload attrs d) (butlast replies @ [last replies]) rest t srv'"
    using facing_answers [OF assms(1-3) f(1)] split by simp
  from exchange [OF assms(1) a f(3,5)] f(4) obtain t' where
    t': "send_and_fill_buf E cmd attrs d t = (Ready (Inr (reply_header (last replies))), t')"
    "received rest replies srv' t t'" "request_sent E srv cmd attrs d t t'" unfolding split by auto
  have ok: "reply_ok (te_native E) (last replies)" using f(1,2) by (simp add: list_all_iff)
  have "nt_recv_buf t' = reply_payload (last replies)" using t'(2) by (simp add: received_def)
  then show ?thesis using t' f(5) reply_slices [OF ok] by auto
qed

lemma received_facing:
  assumes "received rest replies srv' t t'"
  shows "facing srv' rest t'" "conn_state t' = conn_state t" "nt_fetch_positions t' = nt_fetch_positions t"
    "nt_result_columns t' = nt_result_columns t" "nt_session t' = nt_session t"
    "nt_current_schema t' = schema_after replies (nt_current_schema t)"
  using assms by (auto simp: received_def facing_def wire_step_def)

lemma facing_fields [simp]:
  "facing srv b (t\<lparr>nt_fetch_positions := f\<rparr>) = facing srv b t" "facing srv b (t\<lparr>nt_result_columns := g\<rparr>) = facing srv b t"
  "facing srv b (t\<lparr>nt_current_schema := s\<rparr>) = facing srv b t" "facing srv b (t\<lparr>nt_session := z\<rparr>) = facing srv b t"
  by (simp_all add: facing_def)

lemma facing_cache [simp]: "facing srv b (cache_result r t) = facing srv b t"
  by (simp add: cache_result_def facing_def split: NativeResponse.split)

lemma require_passes: "conn_state t = Authenticated \<Longrightarrow> require_authenticated w t = (Ready (Inr ()), t)"
  by (simp add: require_authenticated_def require_def act_simps)

lemma request_payload_data [simp]: "request_payload AttributeSet_new (Some d) = d"
  by (simp add: request_payload_def AttributeSet_new_def AttributeSet_serialize_def)

lemmas exchange_data = exchange_final [where attrs = AttributeSet_new and d = "Some d", unfolded request_payload_data] for d

text \<open>A final reply as the caller checks it: exceptions become errors.\<close>

definition accepted :: "NativeResponse \<Rightarrow> (TransportError, NativeResponse) result" where
  "accepted response = (case response of
      Exception message sql_state \<Rightarrow> fail (sql_error message sql_state) | _ \<Rightarrow> Inr response)"

lemma accepted_same: "accepted response = Inr r \<Longrightarrow> r = response"
  by (auto simp: accepted_def split: NativeResponse.splits)

lemma check_response_slice:
  assumes "parse_response (te_native E) (result_data_slice h d) = Inr env"
  shows "check_response E h d = rbind (accepted (terminal env)) (\<lambda>_. Inr env)"
  using assms
  by (simp add: check_response_def extract_result_data_def result_data_slice_def accepted_def split: NativeResponse.split)

subsection \<open>Queries\<close>

lemma execute_query_answered:
  assumes "conn_state t = Authenticated" "stream_cipher (te_cipher E)" "facing srv (bytes @ rest) t"
    and "serves (te_cipher E) srv (as_bytes sql) replies bytes srv'" "final_reply (te_native E) replies response"
  shows "\<exists>t'. received rest replies srv' t t' \<and> request_sent E srv CMD_EXECUTE AttributeSet_new (Some (as_bytes sql)) t t'
    \<and> execute_query E sql t = (case accepted response of
        Inl e \<Rightarrow> (Ready (Inl e), t')
      | Inr r \<Rightarrow> (Ready (native_result_to_query_result E r), cache_result r t'))"
proof -
  obtain h t' ws where s: "send_and_fill_buf E CMD_EXECUTE AttributeSet_new (Some (as_bytes sql)) t = (Ready (Inr h), t')"
    "parse_response (te_native E) (result_data_slice h (nt_recv_buf t')) = Inr \<lparr>warnings = ws, terminal = response\<rparr>"
    and r: "received rest replies srv' t t'" "request_sent E srv CMD_EXECUTE AttributeSet_new (Some (as_bytes sql)) t t'"
    using exchange_data [OF assms(2-5)] by blast
  show ?thesis
    using r assms(1) s
    by (intro exI [of _ t'])
      (cases response; simp add: execute_query_def require_passes abind_def act_eval convert_and_cache_result_def accepted_def)
qed

subsection \<open>Fetching a result set\<close>

definition enc_more_rows :: "byte list \<Rightarrow> byte list" where
  "enc_more_rows d = u32_to_le 1 @ R_MORE_ROWS # d"

lemma parse_more_rows: "parse_response E (enc_more_rows d) = Inr \<lparr>warnings = [], terminal = MoreRows d\<rparr>"
proof -
  have r: "read_i32 (u32_to_le 1 @ R_MORE_ROWS # d) 0 = Inr (1, 4)"
    by (simp add: read_i32_def)
  have n: "(u32_to_le 1 @ R_MORE_ROWS # d) ! 4 = R_MORE_ROWS" by (simp add: nth_append)
  have "read_u8 (u32_to_le 1 @ R_MORE_ROWS # d) 4 = Inr (R_MORE_ROWS, 5)"
    by (simp add: read_u8_def nth_append)
  then have "parse_parts E (u32_to_le 1 @ R_MORE_ROWS # d) (Suc 0) [] None 4
      = Inr (([], Some (MoreRows d)), length (u32_to_le 1 @ R_MORE_ROWS # d))"
    by (simp add: pbind_def Let_def const_defs slice_def assign_terminal_result_def preturn_def)
  then have "try_parse_counted_envelope E (u32_to_le 1 @ R_MORE_ROWS # d) = Inr (Some \<lparr>warnings = [], terminal = MoreRows d\<rparr>)"
    using r n by (simp add: try_parse_counted_envelope_def is_known_response_type_def const_defs)
  then show ?thesis
    by (simp add: parse_response_def enc_more_rows_def)
qed

text \<open>
  One fetch: the request names the rows from the recorded position on; the rows of the reply
  come back decoded, and the position moves behind them.
\<close>

lemma fetch_more_rows:
  assumes "conn_state t = Authenticated" "stream_cipher (te_cipher E)" "facing srv (bytes @ rest) t"
    and "nt_result_columns t h = Some cols" "nt_fetch_positions t h = Some p"
    and "serves (te_cipher E) srv (fetch_request h p (server_message_size t)) replies bytes srv'"
    and "final_reply (te_native E) replies (MoreRows d)" "parse_fetch_to_record_batch (te_native E) d cols = Inr (n, batch)"
    and "in_signed 64 (sint p + sint n)"
  shows "\<exists>t'. fetch_results E h t = (Ready (Inr (arrow_data (to_column_info cols) batch n)), t')
    \<and> facing srv' rest t' \<and> conn_state t' = Authenticated \<and> nt_session t' = nt_session t
    \<and> nt_result_columns t' h = Some cols \<and> nt_fetch_positions t' h = Some (p + n)
    \<and> request_sent E srv CMD_FETCH2 AttributeSet_new (Some (fetch_request h p (server_message_size t))) t t'"
proof -
  obtain hd u ws where s: "send_and_fill_buf E CMD_FETCH2 AttributeSet_new
        (Some (fetch_request h p (server_message_size t))) t = (Ready (Inr hd), u)"
    "parse_response (te_native E) (result_data_slice hd (nt_recv_buf u)) = Inr \<lparr>warnings = ws, terminal = MoreRows d\<rparr>"
    and r: "received rest replies srv' t u" "request_sent E srv CMD_FETCH2 AttributeSet_new
        (Some (fetch_request h p (server_message_size t))) t u"
    using exchange_data [OF assms(2,3,6,7)] by blast
  let ?u = "u\<lparr>nt_fetch_positions := (nt_fetch_positions u)(h \<mapsto> p + n)\<rparr>"
  have "fetch_results E h t = (Ready (Inr (arrow_data (to_column_info cols) batch n)), ?u)"
    using assms(1,4,5,8,9) s
    by (simp add: fetch_results_def require_passes abind_def act_eval Let_def check_response_slice [OF s(2)] accepted_def
        fetch_response_def advance_position_def add_i64_def)
  moreover have "request_sent E srv CMD_FETCH2 AttributeSet_new (Some (fetch_request h p (server_message_size t))) t ?u"
    using r(2) by (simp add: request_sent_def)
  ultimately show ?thesis
    using received_facing [OF r(1)] assms(1,4) by (intro exI [of _ ?u]) simp
qed

text \<open>Fetching in sequence.\<close>

fun fetch_times :: "('c, 'n) transport_env \<Rightarrow> ResultSetHandle \<Rightarrow> nat \<Rightarrow> ('c NativeTcpTransport, ResultData list) action" where
  "fetch_times E h 0 = areturn []"
| "fetch_times E h (Suc k) = abind (fetch_results E h) (\<lambda>d. abind (fetch_times E h k) (\<lambda>ds. areturn (d # ds)))"

text \<open>
  The dialogue of a server that sends chunks of rows: each request asks for the rows after
  those already sent.
\<close>

record chunk =
  ch_replies :: "server_reply list"
  ch_data :: "byte list"
  ch_rows :: i64
  ch_batch :: RecordBatch

definition chunk_ok :: "native_env \<Rightarrow> NativeColumnMeta list \<Rightarrow> chunk \<Rightarrow> bool" where
  "chunk_ok E cols c \<longleftrightarrow> final_reply E (ch_replies c) (MoreRows (ch_data c)) \<and> 0 \<le> sint (ch_rows c)
    \<and> parse_fetch_to_record_batch E (ch_data c) cols = Inr (ch_rows c, ch_batch c)"

fun fetch_dialogue :: "i32 \<Rightarrow> i64 \<Rightarrow> i64 \<Rightarrow> chunk list \<Rightarrow> (byte list \<times> server_reply list) list" where
  "fetch_dialogue h sz p [] = []"
| "fetch_dialogue h sz p (c # cs) =
    (fetch_request h p sz, ch_replies c) # fetch_dialogue h sz (p + ch_rows c) cs"

lemma sint_add_fits: "in_signed 64 (sint a + sint b) \<Longrightarrow> sint (a + b :: i64) = sint a + sint b"
  by (simp add: in_signed_def sint_word_ariths signed_take_bit_int_eq_self)

lemma fetch_times_dialogue:
  assumes "stream_cipher (te_cipher E)"
    and "conn_state t = Authenticated" "facing srv (bytes @ rest) t" "nt_result_columns t h = Some cols"
    and "nt_fetch_positions t h = Some p" "dialogue (te_cipher E) srv (fetch_dialogue h (server_message_size t) p cs) bytes srv'"
    and "list_all (chunk_ok (te_native E) cols) cs"
    and "0 \<le> sint p" "sint p + sum_list (map (\<lambda>c. sint (ch_rows c)) cs) < 2 ^ 63"
  shows "\<exists>t'. fetch_times E h (length cs) t
      = (Ready (Inr (map (\<lambda>c. arrow_data (to_column_info cols) (ch_batch c) (ch_rows c)) cs)), t')
    \<and> facing srv' rest t' \<and> nt_fetch_positions t' h = Some (p + sum_list (map ch_rows cs)) \<and> conn_state t' = Authenticated"
  using assms(2-9)
proof (induction cs arbitrary: t srv bytes p)
  case Nil
  then show ?case by (auto simp: act_simps)
next
  case (Cons c cs)
  from Cons.prems(5) obtain b srv1 bs where
    b: "serves (te_cipher E) srv (fetch_request h p (server_message_size t)) (ch_replies c) b srv1" "bytes = b @ bs"
    "dialogue (te_cipher E) srv1 (fetch_dialogue h (server_message_size t) (p + ch_rows c) cs) bs srv'" by auto
  have c: "final_reply (te_native E) (ch_replies c) (MoreRows (ch_data c))" "0 \<le> sint (ch_rows c)"
    "parse_fetch_to_record_batch (te_native E) (ch_data c) cols = Inr (ch_rows c, ch_batch c)"
    using Cons.prems(6) by (simp_all add: chunk_ok_def)
  have rest_ok: "list_all (chunk_ok (te_native E) cols) cs" using Cons.prems(6) by simp
  have nonneg: "0 \<le> sum_list (map (\<lambda>c. sint (ch_rows c)) cs)"
    using rest_ok by (intro sum_list_nonneg) (auto simp: chunk_ok_def list_all_iff)
  then have fits: "in_signed 64 (sint p + sint (ch_rows c))"
    using Cons.prems(7,8) c(2) by (simp add: in_signed_def)
  have f: "facing srv (b @ bs @ rest) t" using Cons.prems(2) b(2) by simp
  from fetch_more_rows [OF Cons.prems(1) assms(1) f Cons.prems(3,4) b(1) c(1,3) fits] obtain t1 where
    t1: "fetch_results E h t = (Ready (Inr (arrow_data (to_column_info cols) (ch_batch c) (ch_rows c))), t1)"
    "facing srv1 (bs @ rest) t1" "conn_state t1 = Authenticated" "nt_session t1 = nt_session t"
    "nt_result_columns t1 h = Some cols" "nt_fetch_positions t1 h = Some (p + ch_rows c)" by blast
  have sz: "server_message_size t1 = server_message_size t" using t1(4) by (simp add: server_message_size_def)
  have "0 \<le> sint (p + ch_rows c)" "sint (p + ch_rows c) + sum_list (map (\<lambda>c. sint (ch_rows c)) cs) < 2 ^ 63"
    using sint_add_fits [OF fits] Cons.prems(7,8) c(2) by simp_all
  from Cons.IH [OF t1(3,2,5,6) _ rest_ok this] b(3) sz obtain t' where
    "fetch_times E h (length cs) t1
      = (Ready (Inr (map (\<lambda>c. arrow_data (to_column_info cols) (ch_batch c) (ch_rows c)) cs)), t')"
    "facing srv' rest t'" "nt_fetch_positions t' h = Some (p + ch_rows c + sum_list (map ch_rows cs))"
    "conn_state t' = Authenticated" by auto
  then show ?case using t1(1) by (auto simp: abind_def act_eval add.assoc)
qed

text \<open>Closing a result set forgets it, whatever the server answers.\<close>

lemma close_result_set_answered:
  assumes "conn_state t = Authenticated" "stream_cipher (te_cipher E)" "facing srv (bytes @ rest) t"
    and "serves (te_cipher E) srv (u32_to_le h) replies bytes srv'" "final_reply (te_native E) replies response"
  shows "\<exists>t' r. close_result_set E h t = (Ready r, t') \<and> (r = Inr () \<or> (\<exists>e. r = fail e)) \<and> facing srv' rest t'
    \<and> nt_fetch_positions t' h = None \<and> nt_result_columns t' h = None"
proof -
  let ?t = "t\<lparr>nt_fetch_positions := (nt_fetch_positions t)(h := None), nt_result_columns := (nt_result_columns t)(h := None)\<rparr>"
  have f: "facing srv (bytes @ rest) ?t" using assms(3) by simp
  obtain hd t' ws where s: "send_and_fill_buf E CMD_CLOSE_RESULTSET AttributeSet_new (Some (u32_to_le h)) ?t = (Ready (Inr hd), t')"
    "parse_response (te_native E) (result_data_slice hd (nt_recv_buf t')) = Inr \<lparr>warnings = ws, terminal = response\<rparr>"
    and r: "received rest replies srv' ?t t'"
    using exchange_data [OF assms(2) f assms(4,5)] by blast
  have "\<exists>r. close_result_set E h t = (Ready r, t') \<and> (r = Inr () \<or> (\<exists>e. r = fail e))"
    using s assms(1)
    by (simp add: close_result_set_def close_request_def require_passes send_and_receive_def abind_def act_eval
        check_response_slice [OF s(2)] accepted_def split: NativeResponse.split)
  then show ?thesis using received_facing [OF r] by auto
qed

subsection \<open>Prepared statements\<close>

lemma run_execute_prepared_answered:
  assumes "stream_cipher (te_cipher E)" "facing srv (bytes @ rest) t"
    and "serves (te_cipher E) srv d replies bytes srv'" "final_reply (te_native E) replies response"
  shows "\<exists>t'. received rest replies srv' t t' \<and> request_sent E srv CMD_EXECUTE_PREPARED AttributeSet_new (Some d) t t'
    \<and> run_execute_prepared E d t = (case accepted response of
        Inl e \<Rightarrow> (Ready (Inl e), t')
      | Inr r \<Rightarrow> (Ready (native_result_to_query_result E r), cache_result r t'))"
proof -
  obtain h t' ws where s: "send_and_fill_buf E CMD_EXECUTE_PREPARED AttributeSet_new (Some d) t = (Ready (Inr h), t')"
    "parse_response (te_native E) (result_data_slice h (nt_recv_buf t')) = Inr \<lparr>warnings = ws, terminal = response\<rparr>"
    and r: "received rest replies srv' t t'" "request_sent E srv CMD_EXECUTE_PREPARED AttributeSet_new (Some d) t t'"
    using exchange_data [OF assms] by blast
  show ?thesis
    using r s
    by (intro exI [of _ t'])
      (auto dest: accepted_same simp: run_execute_prepared_def execute_prepared_attributes_def send_and_receive_def abind_def act_eval
        check_response_slice [OF s(2)] convert_and_cache_result_def split: sum.split)
qed

text \<open>
  A batch of parameter rows split into ranges: the server receives one message per range, in
  order, and the caller gets the sum of the row counts.
\<close>

lemma execute_ranges_counts:
  assumes "stream_cipher (te_cipher E)"
    and "facing srv (bytes @ rest) t" "length rs = length qs"
    and "\<forall>i < length rs. build_range_payload h e (rs ! i) = Inr (fst (qs ! i))"
    and "dialogue (te_cipher E) srv qs bytes srv'" "length counts = length qs"
    and "\<forall>i < length qs. final_reply (te_native E) (snd (qs ! i)) (RowCount (counts ! i)) \<and> 0 \<le> sint (counts ! i)"
    and "0 \<le> sint n" "sint n + sum_list (map sint counts) < 2 ^ 63"
  shows "\<exists>t'. execute_ranges_from E h e rs n t = (Ready (Inr (QRowCount (n + sum_list counts))), t') \<and> facing srv' rest t'"
  using assms(2-9)
proof (induction rs arbitrary: t srv bytes qs counts n)
  case Nil
  then show ?case by (auto simp: act_simps)
next
  case (Cons r rs)
  obtain q replies qs' where qs: "qs = (q, replies) # qs'" using Cons.prems(2) by (cases qs) auto
  obtain k ks where counts: "counts = k # ks" using Cons.prems(5) qs by (cases counts) auto
  obtain b srv1 bs where b: "serves (te_cipher E) srv q replies b srv1" "bytes = b @ bs" "dialogue (te_cipher E) srv1 qs' bs srv'"
    using Cons.prems(4) qs by auto
  have pay: "build_range_payload h e r = Inr q" and f: "final_reply (te_native E) replies (RowCount k)" and k: "0 \<le> sint k"
    using Cons.prems(3,6) qs counts by force+
  have f0: "facing srv (b @ bs @ rest) t" using Cons.prems(1) b(2) by simp
  from run_execute_prepared_answered [OF assms(1) f0 b(1) f] obtain t1 where
    t1: "received (bs @ rest) replies srv1 t t1" "run_execute_prepared E q t = (Ready (Inr (QRowCount k)), t1)"
    by (auto simp: accepted_def native_result_to_query_result_def cache_result_def)
  have "0 \<le> sint (ks ! i)" if "i < length qs'" for i using Cons.prems(6) that qs counts by force
  then have nonneg: "0 \<le> sum_list (map sint ks)"
    using Cons.prems(5) qs counts by (intro sum_list_nonneg) (auto simp: in_set_conv_nth)
  then have fits: "in_signed 64 (sint n + sint k)" using Cons.prems(7,8) k counts by (simp add: in_signed_def)
  have i3: "\<forall>i < length rs. build_range_payload h e (rs ! i) = Inr (fst (qs' ! i))" using Cons.prems(3) qs by force
  have i6: "\<forall>i < length qs'. final_reply (te_native E) (snd (qs' ! i)) (RowCount (ks ! i)) \<and> 0 \<le> sint (ks ! i)"
    using Cons.prems(6) qs counts by force
  have "0 \<le> sint (n + k)" "sint (n + k) + sum_list (map sint ks) < 2 ^ 63"
    using sint_add_fits [OF fits] Cons.prems(7,8) k counts by simp_all
  from Cons.IH [OF received_facing(1) [OF t1(1)] _ i3 b(3) _ i6 this] Cons.prems(2,5) qs counts obtain t' where
    "execute_ranges_from E h e rs (n + k) t1 = (Ready (Inr (QRowCount (n + k + sum_list ks))), t')" "facing srv' rest t'" by auto
  then show ?case
    using t1(2) fits by (auto simp: pay counts abind_def act_eval add_range_result_def add_i64_def add.assoc)
qed

lemma execute_prepared_counts:
  assumes "stream_cipher (te_cipher E)" "conn_state t = Authenticated" "ps_result_columns h = []"
    and "split_parameter_rows (te_json E) h cols (message_limit t) = Inr e" "ep_ranges e \<noteq> []"
    and "facing srv (bytes @ rest) t" "length (ep_ranges e) = length qs"
    and "\<forall>i < length (ep_ranges e). build_range_payload h e (ep_ranges e ! i) = Inr (fst (qs ! i))"
    and "dialogue (te_cipher E) srv qs bytes srv'" "length counts = length qs"
    and "\<forall>i < length qs. final_reply (te_native E) (snd (qs ! i)) (RowCount (counts ! i)) \<and> 0 \<le> sint (counts ! i)"
    and "sum_list (map sint counts) < 2 ^ 63"
  shows "\<exists>t'. execute_prepared_statement E h (Some cols) t = (Ready (Inr (QRowCount (sum_list counts))), t') \<and> facing srv' rest t'"
  using execute_ranges_counts [OF assms(1,6-11), of 0] assms(2-5,12)
  by (simp add: execute_prepared_statement_def require_passes abind_def act_eval execute_prepared_ranges_def)

text \<open>Creating a statement: the handle with the described parameters and result columns.\<close>

lemma create_prepared_answered:
  assumes "conn_state t = Authenticated" "stream_cipher (te_cipher E)" "facing srv (bytes @ rest) t"
    and "serves (te_cipher E) srv (as_bytes sql) replies bytes srv'"
    and "final_reply (te_native E) replies (PreparedStatement sh params cols)"
  shows "\<exists>t'. create_prepared_statement E sql t = (Ready (Inr (prepared_handle sh params cols)), t')
    \<and> received rest replies srv' t t'"
proof -
  obtain h t' ws where s: "send_and_fill_buf E CMD_CREATE_PREPARED AttributeSet_new (Some (as_bytes sql)) t = (Ready (Inr h), t')"
    "parse_response (te_native E) (result_data_slice h (nt_recv_buf t')) = Inr \<lparr>warnings = ws, terminal = PreparedStatement sh params cols\<rparr>"
    and r: "received rest replies srv' t t'"
    using exchange_data [OF assms(2-5)] by blast
  show ?thesis
    using r s assms(1)
    by (intro exI [of _ t'])
      (simp add: create_prepared_statement_def require_passes send_and_receive_def abind_def act_eval
        check_response_slice [OF s(2)] accepted_def)
qed

subsection \<open>The current schema\<close>

lemma refresh_schema_answered:
  assumes "conn_state t = Authenticated" "stream_cipher (te_cipher E)" "facing srv (bytes @ rest) t"
    and "serves (te_cipher E) srv [] replies bytes srv'" "final_reply (te_native E) replies Empty"
  shows "\<exists>t'. refresh_current_schema E t = (Ready (Inr (current_schema t')), t') \<and> facing srv' rest t'
    \<and> current_schema t' = current_schema_from_get_attributes (sr_attrs (last replies))"
proof -
  have p: "request_payload AttributeSet_new None = []"
    by (simp add: request_payload_def AttributeSet_new_def AttributeSet_serialize_def)
  obtain h t' ws where s: "send_and_fill_buf E CMD_GET_ATTRIBUTES AttributeSet_new None t = (Ready (Inr h), t')"
    "parse_response (te_native E) (result_data_slice h (nt_recv_buf t')) = Inr \<lparr>warnings = ws, terminal = Empty\<rparr>"
    "response_attributes h (nt_recv_buf t') = Inr (sr_attrs (last replies))"
    and r: "received rest replies srv' t t'"
    using exchange_final [where attrs = AttributeSet_new and d = None, unfolded p, OF assms(2-5)] by blast
  show ?thesis
    using received_facing [OF r] s assms(1)
    by (intro exI [of _ "t'\<lparr>nt_current_schema := current_schema_from_get_attributes (sr_attrs (last replies))\<rparr>"])
      (simp add: refresh_current_schema_def require_passes abind_def act_eval check_response_slice [OF s(2)] accepted_def
        current_schema_def)
qed

end
