(* ===== verification/Protocol.thy ===== *)
theory Protocol
  imports Messages Actions
begin

text \<open>
  The interface between the layers: the trait \<open>TransportProtocol\<close> of
  \<open>src/transport/protocol.rs\<close>. The driver holds a \<open>dyn TransportProtocol\<close>, a value with a
  table of its methods; the table is a record of actions on the state \<open>'t\<close> of the
  transport. A mutex guards the value, so the calls of one client never overlap.
\<close>

record 't transport_protocol =
  tp_connect :: "ConnectionParams \<Rightarrow> ('t, unit) action"
  tp_authenticate :: "Credentials \<Rightarrow> ('t, SessionInfo) action"
  tp_execute_query :: "string \<Rightarrow> ('t, QueryResult) action"
  tp_fetch_results :: "ResultSetHandle \<Rightarrow> ('t, ResultData) action"
  tp_close_result_set :: "ResultSetHandle \<Rightarrow> ('t, unit) action"
  tp_create_prepared_statement :: "string \<Rightarrow> ('t, PreparedStatementHandle) action"
  tp_execute_prepared_statement ::
    "PreparedStatementHandle \<Rightarrow> json list list option \<Rightarrow> ('t, QueryResult) action"
  tp_close_prepared_statement :: "PreparedStatementHandle \<Rightarrow> ('t, unit) action"
  tp_close :: "('t, unit) action"
  tp_terminate :: "'t \<Rightarrow> 't"
  tp_is_connected :: "'t \<Rightarrow> bool"
  tp_set_autocommit :: "bool \<Rightarrow> ('t, unit) action"
  tp_set_query_timeout :: "u64 \<Rightarrow> ('t, unit) action"
  tp_set_current_schema :: "string \<Rightarrow> ('t, unit) action"
  tp_refresh_current_schema :: "('t, string option) action"
  tp_current_schema :: "'t \<Rightarrow> string option"

text \<open>\<open>map_err\<close> of the result of an awaited call, and a call whose result is dropped (\<open>let _ =\<close>).\<close>

definition amap_err :: "('e \<Rightarrow> 'f) \<Rightarrow> ('e, 's, 'a) task \<Rightarrow> ('f, 's, 'a) task" where
  "amap_err f m s = (case m s of
      (Ready r, s') \<Rightarrow> (Ready (map_err f r), s')
    | (Pending, s') \<Rightarrow> (Pending, s'))"

definition aignore :: "('e, 's, 'a) task \<Rightarrow> ('f, 's, unit) task" where
  "aignore m s = (case m s of
      (Ready (Inl Panic), s') \<Rightarrow> (Ready (Inl Panic), s')
    | (Ready (Inl Diverged), s') \<Rightarrow> (Ready (Inl Diverged), s')
    | (Ready (Inl (Failure _)), s') \<Rightarrow> (Ready (Inr ()), s')
    | (Ready (Inr _), s') \<Rightarrow> (Ready (Inr ()), s')
    | (Pending, s') \<Rightarrow> (Pending, s'))"

lemma amap_err_Ready [simp]:
  "amap_err f m s = (Ready (Inr x), s') \<longleftrightarrow> m s = (Ready (Inr x), s')"
  by (auto simp: amap_err_def res_simps split: prod.splits poll.splits)

lemma snd_amap_err [simp]: "snd (amap_err f m s) = snd (m s)"
  by (auto simp: amap_err_def split: prod.splits poll.splits)

lemma snd_aignore [simp]: "snd (aignore m s) = snd (m s)"
  by (auto simp: aignore_def split: prod.splits poll.splits sum.splits fault.splits)

lemma steps_by_amap_err: "steps_by R m \<Longrightarrow> steps_by R (amap_err f m)"
  by (simp add: steps_by_def)

lemma steps_by_aignore: "steps_by R m \<Longrightarrow> steps_by R (aignore m)"
  by (simp add: steps_by_def)

end
