(* ===== verification/Type_Mapping.thy ===== *)
theory Type_Mapping
  imports Messages
begin

text \<open>
  The types of result columns: \<open>ExasolType\<close> and its mapping to Arrow types with the field
  metadata (\<open>src/types/mapping.rs\<close>), the schema builder (\<open>src/types/schema.rs\<close>), the
  reading of a column description (\<open>exasol_type_of\<close> in \<open>src/query/results.rs\<close>), and the
  conversion errors of \<open>src/error.rs\<close>. The JSON text of an \<open>ExasolType\<close> is what the
  derived \<open>Serialize\<close> instance writes and is a parameter.
\<close>

subsection \<open>Conversion errors\<close>

record value_error =
  ve_row :: nat
  ve_column :: nat
  ve_column_name :: string
  ve_value :: string
  ve_target_type :: string
  ve_message :: string

datatype ConversionError =
    UnsupportedType string
  | ValueConversionFailed value_error
  | SchemaMismatch string
  | InvalidFormat string
  | NumericOverflow value_error
  | InvalidUtf8 nat nat
  | ArrowError string

definition show_value_error :: "string \<Rightarrow> string \<Rightarrow> value_error \<Rightarrow> string" where
  "show_value_error what to_for v =
    what @ '' at row '' @ show_nat (ve_row v) @ '', column '' @ show_nat (ve_column v) @ '' ('' @
    ve_column_name v @ '') '' @ to_for @ '' '' @ ve_target_type v @ '': '' @ ve_message v @
    ''; value: '' @ ve_value v"

fun show_conversion_error :: "ConversionError \<Rightarrow> string" where
  "show_conversion_error (UnsupportedType t) = ''Unsupported Exasol type: '' @ t"
| "show_conversion_error (ValueConversionFailed v) = show_value_error ''Failed to convert value'' ''to'' v"
| "show_conversion_error (SchemaMismatch m) = ''Schema mismatch: '' @ m"
| "show_conversion_error (InvalidFormat m) = ''Invalid data format: '' @ m"
| "show_conversion_error (NumericOverflow v) = show_value_error ''Numeric overflow'' ''for'' v"
| "show_conversion_error (InvalidUtf8 r c) =
    ''Invalid UTF-8 string at row '' @ show_nat r @ '', column '' @ show_nat c"
| "show_conversion_error (ArrowError m) = ''Arrow error: '' @ m"

text \<open>A failure of one value, which does not know its column, or of the column.\<close>

datatype ColumnConversionError =
    ValueError nat string bool
  | OtherError ConversionError

subsection \<open>Exasol types\<close>

datatype ExasolType =
    EBoolean
  | EChar nat
  | EVarchar nat
  | EDecimal nat int
  | EDouble
  | EDate
  | ETimestamp bool
  | EIntervalYearToMonth
  | EIntervalDayToSecond nat
  | EGeometry "i32 option"
  | EHashtype nat

text \<open>\<open>x as usize\<close> of an \<open>i64\<close>, \<open>x as u8\<close> and \<open>x as i8\<close> of an \<open>i32\<close>.\<close>

definition as_usize :: "i64 \<Rightarrow> nat" where "as_usize x = unat x"

definition as_u8 :: "i32 \<Rightarrow> nat" where "as_u8 x = unat x mod 256"

definition as_i8 :: "i32 \<Rightarrow> int" where "as_i8 x = wrap_signed 8 (sint x)"

definition hashtype_from_reported_size :: "i64 option \<Rightarrow> ExasolType" where
  "hashtype_from_reported_size reported_size = EHashtype (case reported_size of
      None \<Rightarrow> 16
    | Some n \<Rightarrow> as_usize (of_int (trunc_div (sint n) 2)))"

fun ExasolType_type_name :: "ExasolType \<Rightarrow> string" where
  "ExasolType_type_name EBoolean = ''BOOLEAN''"
| "ExasolType_type_name (EChar _) = ''CHAR''"
| "ExasolType_type_name (EVarchar _) = ''VARCHAR''"
| "ExasolType_type_name (EDecimal _ _) = ''DECIMAL''"
| "ExasolType_type_name EDouble = ''DOUBLE''"
| "ExasolType_type_name EDate = ''DATE''"
| "ExasolType_type_name (ETimestamp tz) = (if tz then ''TIMESTAMP WITH LOCAL TIME ZONE'' else ''TIMESTAMP'')"
| "ExasolType_type_name EIntervalYearToMonth = ''INTERVAL YEAR TO MONTH''"
| "ExasolType_type_name (EIntervalDayToSecond _) = ''INTERVAL DAY TO SECOND''"
| "ExasolType_type_name (EGeometry _) = ''GEOMETRY''"
| "ExasolType_type_name (EHashtype _) = ''HASHTYPE''"

fun to_ddl_type :: "ExasolType \<Rightarrow> string" where
  "to_ddl_type EBoolean = ''BOOLEAN''"
| "to_ddl_type (EChar n) = ''CHAR('' @ show_nat n @ '')''"
| "to_ddl_type (EVarchar n) = ''VARCHAR('' @ show_nat n @ '')''"
| "to_ddl_type (EDecimal p s) = ''DECIMAL('' @ show_nat p @ '','' @ show_int s @ '')''"
| "to_ddl_type EDouble = ''DOUBLE''"
| "to_ddl_type EDate = ''DATE''"
| "to_ddl_type (ETimestamp tz) = (if tz then ''TIMESTAMP WITH LOCAL TIME ZONE'' else ''TIMESTAMP'')"
| "to_ddl_type EIntervalYearToMonth = ''INTERVAL YEAR(9) TO MONTH''"
| "to_ddl_type (EIntervalDayToSecond p) = ''INTERVAL DAY(9) TO SECOND('' @ show_nat p @ '')''"
| "to_ddl_type (EGeometry g) = (case g of Some s \<Rightarrow> ''GEOMETRY('' @ show_int (sint s) @ '')'' | None \<Rightarrow> ''GEOMETRY'')"
| "to_ddl_type (EHashtype n) = ''HASHTYPE('' @ show_nat n @ '' BYTE)''"

fun exasol_to_arrow :: "ExasolType \<Rightarrow> ArrowDataType" where
  "exasol_to_arrow EBoolean = BooleanT"
| "exasol_to_arrow (EChar _) = Utf8"
| "exasol_to_arrow (EVarchar _) = Utf8"
| "exasol_to_arrow (EDecimal p s) = Decimal128 p s"
| "exasol_to_arrow EDouble = Float64"
| "exasol_to_arrow EDate = Date32"
| "exasol_to_arrow (ETimestamp tz) = Timestamp Microsecond (if tz then Some ''UTC'' else None)"
| "exasol_to_arrow EIntervalYearToMonth = IntervalMonthDayNanoT"
| "exasol_to_arrow (EIntervalDayToSecond _) = IntervalMonthDayNanoT"
| "exasol_to_arrow (EGeometry _) = Binary"
| "exasol_to_arrow (EHashtype _) = Binary"

text \<open>The metadata of a field: keys and values, with \<open>type_json\<close> for \<open>serde_json::to_string\<close>.\<close>

type_synonym metadata = "(string \<times> string) list"

definition create_field_metadata :: "(ExasolType \<Rightarrow> string) \<Rightarrow> ExasolType \<Rightarrow> metadata" where
  "create_field_metadata type_json t =
    [(''exasol:type'', type_json t), (''exasol:type_name'', ExasolType_type_name t)] @
    (case t of
       EChar n \<Rightarrow> [(''exasol:size'', show_nat n)]
     | EVarchar n \<Rightarrow> [(''exasol:size'', show_nat n)]
     | EDecimal p s \<Rightarrow> [(''exasol:precision'', show_nat p), (''exasol:scale'', show_int s)]
     | EGeometry (Some g) \<Rightarrow> [(''exasol:srid'', show_int (sint g))]
     | _ \<Rightarrow> [])"

definition exasol_type_of :: "DataType \<Rightarrow> (ConversionError, ExasolType) result" where
  "exasol_type_of dt = (let n = type_name dt in
     if n = ''BOOLEAN'' then Inr EBoolean
     else if n = ''CHAR'' then Inr (EChar (as_usize (case dt_size dt of None \<Rightarrow> 1 | Some s \<Rightarrow> s)))
     else if n = ''VARCHAR'' then Inr (EVarchar (as_usize (case dt_size dt of None \<Rightarrow> 2000000 | Some s \<Rightarrow> s)))
     else if n = ''DECIMAL'' then
       Inr (EDecimal (as_u8 (case dt_precision dt of None \<Rightarrow> 18 | Some p \<Rightarrow> p))
                     (as_i8 (case dt_scale dt of None \<Rightarrow> 0 | Some s \<Rightarrow> s)))
     else if n = ''DOUBLE'' then Inr EDouble
     else if n = ''DATE'' then Inr EDate
     else if n = ''TIMESTAMP'' then
       Inr (ETimestamp (case with_local_time_zone dt of None \<Rightarrow> False | Some b \<Rightarrow> b))
     else if n = ''TIMESTAMP WITH LOCAL TIME ZONE'' then Inr (ETimestamp True)
     else if n = ''INTERVAL YEAR TO MONTH'' then Inr EIntervalYearToMonth
     else if n = ''INTERVAL DAY TO SECOND'' then
       Inr (EIntervalDayToSecond (as_u8 (case fraction dt of None \<Rightarrow> 3 | Some f \<Rightarrow> f)))
     else if n = ''GEOMETRY'' then Inr (EGeometry (srid dt))
     else if n = ''HASHTYPE'' then Inr (hashtype_from_reported_size (dt_size dt))
     else fail (UnsupportedType n))"

subsection \<open>Schemas\<close>

record ColumnMetadata =
  col_name :: string
  col_data_type :: ExasolType
  col_nullable :: bool

record MetaField = Field +
  field_metadata :: metadata

text \<open>\<open>SchemaBuilder::build\<close>; no type of a column fails to map.\<close>

definition schema_build :: "(ExasolType \<Rightarrow> string) \<Rightarrow> ColumnMetadata list \<Rightarrow> MetaField list" where
  "schema_build type_json columns = map (\<lambda>col.
    \<lparr>field_name = col_name col, field_type = exasol_to_arrow (col_data_type col),
     field_nullable = col_nullable col,
     field_metadata = create_field_metadata type_json (col_data_type col)\<rparr>) columns"

text \<open>\<open>Iterator::collect\<close> into a \<open>Result\<close>: the first error, in order.\<close>

primrec rmap :: "('a \<Rightarrow> ('e, 'b) result) \<Rightarrow> 'a list \<Rightarrow> ('e, 'b list) result" where
  "rmap f [] = Inr []"
| "rmap f (x # xs) = rbind (f x) (\<lambda>y. rbind (rmap f xs) (\<lambda>ys. Inr (y # ys)))"

definition build_schema :: "(ExasolType \<Rightarrow> string) \<Rightarrow> ColumnInfo list \<Rightarrow> (ConversionError, MetaField list) result" where
  "build_schema type_json columns =
    rbind (rmap (\<lambda>col. rbind (exasol_type_of (ci_data_type col)) (\<lambda>t.
      Inr \<lparr>col_name = ci_name col, col_data_type = t, col_nullable = True\<rparr>)) columns) (\<lambda>cols.
    Inr (schema_build type_json cols))"

subsection \<open>Laws\<close>

lemma rmap_Inr_iff: "rmap f xs = Inr ys \<longleftrightarrow> list_all2 (\<lambda>x y. f x = Inr y) xs ys"
  by (induction xs arbitrary: ys) (auto simp: rbind_Inr_iff list_all2_Cons1)

lemma graceful_rmap: "(\<And>x. x \<in> set xs \<Longrightarrow> graceful (f x)) \<Longrightarrow> graceful (rmap f xs)"
  by (induction xs) (auto intro!: graceful_rbind)

lemma graceful_exasol_type_of: "graceful (exasol_type_of dt)"
  by (simp add: exasol_type_of_def Let_def)

text \<open>The schema has a nullable field per column, with its name.\<close>

lemma build_schema_fields:
  assumes "build_schema J columns = Inr schema"
  shows "length schema = length columns" and "map field_name schema = map ci_name columns"
    and "\<forall>f \<in> set schema. field_nullable f"
proof -
  from assms obtain cols where cols: "schema = schema_build J cols"
    and all: "list_all2 (\<lambda>col m. rbind (exasol_type_of (ci_data_type col))
      (\<lambda>t. Inr \<lparr>col_name = ci_name col, col_data_type = t, col_nullable = True\<rparr>) = Inr m) columns cols"
    by (auto simp: build_schema_def rbind_Inr_iff rmap_Inr_iff)
  show "length schema = length columns"
    using cols list_all2_lengthD [OF all] by (simp add: schema_build_def)
  have "map col_name cols = map ci_name columns \<and> (\<forall>m \<in> set cols. col_nullable m)"
    using all by (induction rule: list_all2_induct) (auto simp: rbind_Inr_iff)
  then show "map field_name schema = map ci_name columns" "\<forall>f \<in> set schema. field_nullable f"
    using cols by (auto simp: schema_build_def comp_def)
qed

end
