(* ===== verification/Results.thy ===== *)
theory Results
  imports Protocol Type_Mapping
begin

text \<open>
  Result sets, \<open>src/query/results.rs\<close>: the record batch of a result, from Arrow data or from
  JSON rows, and the pagination of a result set that the server holds. Parameters
  (\<open>result_env\<close>) are the build profile, the texts of JSON values and Arrow types, the
  JSON of an \<open>ExasolType\<close>, floating-point scaling, and the \<open>arrow\<close> crate's check of a decimal
  type and of a record batch.
\<close>

record result_env =
  re_overflow_checks :: bool
  re_type_json :: "ExasolType \<Rightarrow> string"
  re_json_text :: "json \<Rightarrow> string"
  re_as_f64 :: "json \<Rightarrow> u64 option"
  re_float_to_decimal :: "u64 \<Rightarrow> int \<Rightarrow> int"
  re_type_text :: "ArrowDataType \<Rightarrow> string"
  re_decimal_type :: "nat \<Rightarrow> int \<Rightarrow> string + unit"
  re_try_new :: "nat option \<Rightarrow> Field list \<Rightarrow> column list \<Rightarrow> string + RecordBatch"
  re_max_pages :: nat

text \<open>A record batch whose fields carry metadata.\<close>

record ResultBatch = RecordBatch +
  rb_metadata :: "metadata list"

record QueryMetadata =
  qm_schema :: "MetaField list"
  qm_total_rows :: "i64 option"
  qm_column_count :: nat
  execution_time_ms :: "u64 option"

definition QueryMetadata_new :: "MetaField list \<Rightarrow> i64 option \<Rightarrow> QueryMetadata" where
  "QueryMetadata_new schema rows =
    \<lparr>qm_schema = schema, qm_total_rows = rows, qm_column_count = length schema, execution_time_ms = None\<rparr>"

datatype ResultSet =
    RowCountResult i64
  | Stream "ResultSetHandle option" QueryMetadata "ResultBatch list" bool

subsection \<open>Record batches\<close>

definition with_metadata :: "metadata list \<Rightarrow> RecordBatch \<Rightarrow> ResultBatch" where
  "with_metadata ms b = \<lparr>rb_fields = rb_fields b, rb_columns = rb_columns b, rb_num_rows = rb_num_rows b,
    rb_metadata = ms\<rparr>"

text \<open>\<open>RecordBatch::try_new\<close> over a schema: the metadata of the fields is kept and not looked at.\<close>

definition batch_try_new ::
  "result_env \<Rightarrow> nat option \<Rightarrow> Field list \<Rightarrow> metadata list \<Rightarrow> column list \<Rightarrow> (ConversionError, ResultBatch) result" where
  "batch_try_new E rows fs ms cols = (case re_try_new E rows fs cols of
      Inl e \<Rightarrow> fail (ArrowError e)
    | Inr b \<Rightarrow> Inr (with_metadata ms b))"

definition with_field_metadata ::
  "result_env \<Rightarrow> RecordBatch \<Rightarrow> MetaField list \<Rightarrow> (ConversionError, ResultBatch) result" where
  "with_field_metadata E batch schema =
    (if length (rb_fields batch) \<noteq> length schema then
       fail (SchemaMismatch (''Arrow batch has '' @ show_nat (length (rb_fields batch)) @
         '' columns, but the result set metadata schema has '' @ show_nat (length schema)))
     else batch_try_new E (Some (rb_num_rows batch)) (rb_fields batch) (map field_metadata schema) (rb_columns batch))"

definition empty_record_batch :: "result_env \<Rightarrow> MetaField list \<Rightarrow> (ConversionError, ResultBatch) result" where
  "empty_record_batch E schema =
    batch_try_new E None (map Field.truncate schema) (map field_metadata schema) (map (\<lambda>_. []) schema)"

subsection \<open>Arrow arrays of JSON values\<close>

text \<open>\<open>.ok()\<close>: an error becomes null, a panic stays one.\<close>

definition result_ok :: "('e, 'a) result \<Rightarrow> ('f, 'a option) result" where
  "result_ok r = (case r of
      Inr x \<Rightarrow> Inr (Some x) | Inl (Failure _) \<Rightarrow> Inr None | Inl Panic \<Rightarrow> Inl Panic | Inl Diverged \<Rightarrow> Inl Diverged)"

definition column_of :: "json list list \<Rightarrow> nat \<Rightarrow> json list" where
  "column_of rows c = map (\<lambda>row. if c < length row then row ! c else JNull) rows"

definition render_as_text :: "result_env \<Rightarrow> json \<Rightarrow> string" where
  "render_as_text E v = (case json_as_str v of Some s \<Rightarrow> s | None \<Rightarrow> re_json_text E v)"

definition json_to_string_array :: "(json \<Rightarrow> string) \<Rightarrow> json list \<Rightarrow> column" where
  "json_to_string_array render vs = map (\<lambda>v. if json_is_null v then None else Some (CUtf8 (render v))) vs"

definition json_to_binary_array :: "json list \<Rightarrow> column" where
  "json_to_binary_array vs = map (\<lambda>v. map_option (\<lambda>s. CBinary (as_bytes s)) (json_as_str v)) vs"

definition json_to_boolean_array :: "json list \<Rightarrow> column" where
  "json_to_boolean_array vs = map (\<lambda>v. map_option CBoolean (json_as_bool v)) vs"

definition json_to_primitive_array ::
  "('a \<Rightarrow> cell) \<Rightarrow> (json \<Rightarrow> ('e, 'a option) result) \<Rightarrow> json list \<Rightarrow> ('e, column) result" where
  "json_to_primitive_array mk extract vs = rmap (\<lambda>v. rbind (extract v) (\<lambda>x. Inr (map_option mk x))) vs"

text \<open>Loops that number the rows of a column.\<close>

primrec rmap_rows :: "nat \<Rightarrow> (nat \<Rightarrow> json \<Rightarrow> ('e, 'b) result) \<Rightarrow> json list \<Rightarrow> ('e, 'b list) result" where
  "rmap_rows i f [] = Inr []"
| "rmap_rows i f (v # vs) = rbind (f i v) (\<lambda>x. rbind (rmap_rows (i + 1) f vs) (\<lambda>xs. Inr (x # xs)))"

definition json_to_interval_array :: "result_env \<Rightarrow> json list \<Rightarrow> (ColumnConversionError, column) result" where
  "json_to_interval_array E vs = rmap_rows 0 (\<lambda>row v. case v of
      JNull \<Rightarrow> Inr None
    | JString s \<Rightarrow> map_err (\<lambda>reason. ValueError row reason False)
        (rbind (parse_interval (re_overflow_checks E) s) (\<lambda>x. Inr (Some (CInterval x))))
    | other \<Rightarrow> fail (ValueError row (''Expected an INTERVAL string, got '' @ re_json_text E other) False)) vs"

subsection \<open>Decimals\<close>

record DecimalParseFailure =
  df_reason :: string
  df_overflow :: bool

definition decimal_invalid :: "string \<Rightarrow> DecimalParseFailure" where
  "decimal_invalid r = \<lparr>df_reason = r, df_overflow = False\<rparr>"

definition decimal_overflow :: "string \<Rightarrow> DecimalParseFailure" where
  "decimal_overflow r = \<lparr>df_reason = r, df_overflow = True\<rparr>"

text \<open>
  \<open>IntErrorKind\<close> of a failed \<open>i128\<close> parse: the digits are read from the left and the first
  one that takes the value out of range ends it, so an overflow is reported when the
  leading digits alone are out of range.
\<close>

definition int_parse_overflows :: "string \<Rightarrow> bool" where
  "int_parse_overflows s =
    (let neg = take 1 s = ''-''; body = (if neg \<or> take 1 s = ''+'' then drop 1 s else s);
         n = int (digits_val (takeWhile is_ascii_digit body))
     in \<not> in_signed 128 (if neg then - n else n))"

definition arith :: "bool \<Rightarrow> nat \<Rightarrow> int \<Rightarrow> ('e, int) result" where
  "arith ovf w x = (if in_signed w x then Inr x else if ovf then Inl Panic else Inr (wrap_signed w x))"

definition checked_or :: "int \<Rightarrow> (DecimalParseFailure, int) result" where
  "checked_or x = (if in_signed 128 x then Inr x else fail (decimal_overflow ''Decimal overflow''))"

definition slice_prefix :: "nat \<Rightarrow> string \<Rightarrow> ('e, string) result" where
  "slice_prefix n s =
    (if n \<le> length s \<and> (n < length s \<longrightarrow> \<not> utf8_tail (byte_of_char (s ! n))) then Inr (take n s) else Inl Panic)"

definition parse_string_to_decimal :: "bool \<Rightarrow> string \<Rightarrow> int \<Rightarrow> (DecimalParseFailure, int) result" where
  "parse_string_to_decimal ovf s scale =
    (if s = [] then fail (decimal_invalid ''Empty decimal string'')
     else
     rbind (case split_on (CHR ''.'') s of
         [i] \<Rightarrow> Inr (i, [])
       | [i, f] \<Rightarrow> Inr (i, f)
       | _ \<Rightarrow> fail (decimal_invalid (''Invalid decimal format: '' @ s))) (\<lambda>(integer_part, decimal_part).
     rbind (case parse_i128 integer_part of
         Some i \<Rightarrow> Inr i
       | None \<Rightarrow> fail (if int_parse_overflows integer_part
           then decimal_overflow (''integer part '' @ integer_part @ '' exceeds the 128-bit range'')
           else decimal_invalid (''Invalid integer part: '' @ integer_part))) (\<lambda>integer.
     rbind (arith ovf 128 (10 ^ nat (scale mod 2 ^ 32))) (\<lambda>p.
     rbind (checked_or (integer * p)) (\<lambda>scaled.
     if decimal_part = [] then Inr scaled
     else
       let scale_usize = nat (scale mod 2 ^ 64); decimal_digits = min (length decimal_part) scale_usize in
       rbind (slice_prefix decimal_digits decimal_part) (\<lambda>prefix.
       rbind (case parse_i128 prefix of
           Some d \<Rightarrow> Inr d
         | None \<Rightarrow> fail (decimal_invalid (''Invalid decimal part: '' @ decimal_part))) (\<lambda>decimal_value.
       rbind (arith ovf 128 (10 ^ ((scale_usize - decimal_digits) mod 2 ^ 32))) (\<lambda>q.
       rbind (arith ovf 128 (decimal_value * q)) (\<lambda>scaled_decimal.
       rbind (if take 1 integer_part = ''-'' then arith ovf 128 (- scaled_decimal) else Inr scaled_decimal) (\<lambda>term.
       checked_or (scaled + term)))))))))))"

text \<open>An integer is scaled in 64 bits.\<close>

definition scale_to_decimal :: "result_env \<Rightarrow> json \<Rightarrow> int \<Rightarrow> (DecimalParseFailure, int option) result" where
  "scale_to_decimal E v scale = (case json_as_str v of
      Some s \<Rightarrow> rbind (parse_string_to_decimal (re_overflow_checks E) s scale) (\<lambda>d. Inr (Some d))
    | None \<Rightarrow> (case json_as_i64 v of
        Some i \<Rightarrow> rbind (arith (re_overflow_checks E) 64 (10 ^ nat (scale mod 2 ^ 32))) (\<lambda>p.
            rbind (arith (re_overflow_checks E) 64 (i * p)) (\<lambda>d. Inr (Some d)))
      | None \<Rightarrow> (case re_as_f64 E v of
          Some f \<Rightarrow> Inr (Some (re_float_to_decimal E f scale))
        | None \<Rightarrow> Inr None)))"

definition json_to_decimal_array ::
  "result_env \<Rightarrow> json list \<Rightarrow> nat \<Rightarrow> int \<Rightarrow> (ColumnConversionError, column) result" where
  "json_to_decimal_array E vs precision scale =
    rbind (case re_decimal_type E precision scale of
        Inl e \<Rightarrow> fail (OtherError (ArrowError e)) | Inr _ \<Rightarrow> Inr ()) (\<lambda>_.
    rmap_rows 0 (\<lambda>row v.
      map_err (\<lambda>failure. ValueError row (df_reason failure) (df_overflow failure))
        (rbind (scale_to_decimal E v scale) (\<lambda>d. Inr (map_option CDecimal d)))) vs)"

subsection \<open>Columns and batches of JSON rows\<close>

text \<open>A text value is parsed; a value that is no text, or does not parse, is null.\<close>

definition from_text :: "(string \<Rightarrow> (string, int) result) \<Rightarrow> json \<Rightarrow> ('e, int option) result" where
  "from_text parse v = (case json_as_str v of Some s \<Rightarrow> result_ok (parse s) | None \<Rightarrow> Inr None)"

definition json_column_to_array :: "result_env \<Rightarrow> MetaField \<Rightarrow> json list \<Rightarrow> (ColumnConversionError, column) result" where
  "json_column_to_array E fld vs = (let ovf = re_overflow_checks E in
    case field_type fld of
      BooleanT \<Rightarrow> Inr (json_to_boolean_array vs)
    | Int32 \<Rightarrow> json_to_primitive_array CInt32 (\<lambda>v. Inr (map_option (wrap_signed 32) (json_as_i64 v))) vs
    | Int64 \<Rightarrow> json_to_primitive_array CInt64 (\<lambda>v. Inr (json_as_i64 v)) vs
    | Float64 \<Rightarrow> json_to_primitive_array CFloat64 (\<lambda>v. Inr (re_as_f64 E v)) vs
    | Utf8 \<Rightarrow> Inr (json_to_string_array (render_as_text E) vs)
    | Decimal128 p s \<Rightarrow> json_to_decimal_array E vs p s
    | Date32 \<Rightarrow> json_to_primitive_array CDate (from_text (parse_date_to_days ovf)) vs
    | Timestamp _ _ \<Rightarrow> json_to_primitive_array CTimestamp (from_text (parse_timestamp_to_micros ovf)) vs
    | IntervalMonthDayNanoT \<Rightarrow> json_to_interval_array E vs
    | Binary \<Rightarrow> Inr (json_to_binary_array vs))"

definition into_conversion_error ::
  "result_env \<Rightarrow> nat \<Rightarrow> string \<Rightarrow> json list \<Rightarrow> ArrowDataType \<Rightarrow> ColumnConversionError \<Rightarrow> ConversionError" where
  "into_conversion_error E col name vs target e = (case e of
      OtherError err \<Rightarrow> err
    | ValueError row reason overflow \<Rightarrow>
        (let v = \<lparr>ve_row = row, ve_column = col, ve_column_name = name,
               ve_value = re_json_text E (if row < length vs then vs ! row else JNull),
               ve_target_type = re_type_text E target, ve_message = reason\<rparr>
         in if overflow then NumericOverflow v else ValueConversionFailed v))"

definition column_major_to_record_batch ::
  "result_env \<Rightarrow> json list list \<Rightarrow> MetaField list \<Rightarrow> (ConversionError, ResultBatch) result" where
  "column_major_to_record_batch E rows schema =
    (if rows = [] then empty_record_batch E schema
     else rbind (rmap (\<lambda>(c, fld). let vs = column_of rows c in
         map_err (into_conversion_error E c (field_name fld) vs (field_type fld)) (json_column_to_array E fld vs))
         (enumerate 0 schema)) (\<lambda>arrays.
       batch_try_new E None (map Field.truncate schema) (map field_metadata schema) arrays))"

definition payload_to_record_batch ::
  "result_env \<Rightarrow> ResultPayload \<Rightarrow> MetaField list \<Rightarrow> (ConversionError, ResultBatch) result" where
  "payload_to_record_batch E p schema = (case p of
      PayloadArrow batch \<Rightarrow> with_field_metadata E batch schema
    | PayloadJson rows \<Rightarrow> column_major_to_record_batch E rows schema)"

abbreviation execution_failed :: "ConversionError \<Rightarrow> QueryError" where
  "execution_failed e \<equiv> ExecutionFailed (show_conversion_error e)"

subsection \<open>Result sets\<close>

definition from_transport_result :: "result_env \<Rightarrow> QueryResult \<Rightarrow> (QueryError, ResultSet) result" where
  "from_transport_result E r = (case r of
      QRowCount n \<Rightarrow> Inr (RowCountResult n)
    | QResultSet h d \<Rightarrow>
        rbind (map_err execution_failed (build_schema (re_type_json E) (rd_columns d))) (\<lambda>schema.
        let received = payload_num_rows (rd_data d) in
        rbind (map_err execution_failed
          (if received = 0 then empty_record_batch E schema else payload_to_record_batch E (rd_data d) schema)) (\<lambda>batch.
        Inr (Stream h (QueryMetadata_new schema (Some (rd_total_rows d))) [batch]
          (h = None \<or> rd_total_rows d = of_nat received)))))"

fun ResultSet_row_count :: "ResultSet \<Rightarrow> i64 option" where
  "ResultSet_row_count (RowCountResult n) = Some n"
| "ResultSet_row_count (Stream _ _ _ _) = None"

text \<open>\<open>total_rows.unwrap_or(0).max(0) as usize\<close>.\<close>

definition expected_rows :: "QueryMetadata \<Rightarrow> nat" where
  "expected_rows md = (case qm_total_rows md of None \<Rightarrow> 0 | Some n \<Rightarrow> nat (sint n))"

text \<open>The sum of \<open>usize\<close> row counts.\<close>

primrec row_count_of :: "result_env \<Rightarrow> ResultBatch list \<Rightarrow> ('e, nat) result" where
  "row_count_of E [] = Inr 0"
| "row_count_of E (b # bs) = rbind (row_count_of E bs) (\<lambda>n. usize_add (re_overflow_checks E) n (rb_num_rows b))"

datatype PageFetchError = Fetch QueryError | RowCountMismatch string

fun page_fetch_error :: "PageFetchError \<Rightarrow> QueryError" where
  "page_fetch_error (Fetch e) = e"
| "page_fetch_error (RowCountMismatch m) = ExecutionFailed m"

definition page_of ::
  "result_env \<Rightarrow> QueryMetadata \<Rightarrow> nat \<Rightarrow> ResultData \<Rightarrow> (PageFetchError, ResultBatch option) result" where
  "page_of E md rows_received d =
    (let expected = expected_rows md in
     if payload_num_rows (rd_data d) = 0 then
       (if expected = 0 then Inr None
        else fail (RowCountMismatch (''Result set ended after '' @ show_nat rows_received @
          '' rows, but its total row count is '' @ show_nat expected)))
     else
       rbind (map_err (Fetch \<circ> execution_failed) (payload_to_record_batch E (rd_data d) (qm_schema md))) (\<lambda>batch.
       rbind (usize_add (re_overflow_checks E) rows_received (rb_num_rows batch)) (\<lambda>after.
       if 0 < expected \<and> expected < after then
         fail (RowCountMismatch (''Result set delivered '' @ show_nat after @
           '' rows, but its total row count is '' @ show_nat expected))
       else Inr (Some batch))))"

definition fetch_page_after ::
  "result_env \<Rightarrow> 't transport_protocol \<Rightarrow> ResultSetHandle \<Rightarrow> QueryMetadata \<Rightarrow> nat \<Rightarrow>
    (PageFetchError, 't, ResultBatch option) task" where
  "fetch_page_after E P h md rows_received =
    (let expected = expected_rows md in
     if 0 < expected \<and> expected \<le> rows_received then areturn None
     else abind (amap_err (\<lambda>e. Fetch (ExecutionFailed (show_transport_error e))) (tp_fetch_results P h)) (\<lambda>d.
       alift (page_of E md rows_received d)))"

text \<open>
  The loop of \<open>paginate_remaining\<close>. With a known total every turn adds a row to the collected
  ones, so one more turn than the total is enough; without one the server decides when
  the loop ends, and the model stops after \<open>re_max_pages\<close> turns.
\<close>

primrec paginate ::
  "nat \<Rightarrow> result_env \<Rightarrow> 't transport_protocol \<Rightarrow> ResultSetHandle \<Rightarrow> QueryMetadata \<Rightarrow> ResultBatch list \<Rightarrow>
    (QueryError, 't, ResultBatch list) task" where
  "paginate 0 E P h md collected = alift (Inl Diverged)"
| "paginate (Suc n) E P h md collected =
    abind (alift (row_count_of E collected)) (\<lambda>rows.
    abind (amap_err page_fetch_error (fetch_page_after E P h md rows)) (\<lambda>page. case page of
        None \<Rightarrow> areturn collected
      | Some batch \<Rightarrow> paginate n E P h md (collected @ [batch])))"

definition paginate_remaining ::
  "result_env \<Rightarrow> 't transport_protocol \<Rightarrow> ResultSetHandle \<Rightarrow> QueryMetadata \<Rightarrow> ResultBatch list \<Rightarrow>
    (QueryError, 't, ResultBatch list) task" where
  "paginate_remaining E P h md collected =
    paginate (if 0 < expected_rows md then expected_rows md + 1 else re_max_pages E) E P h md collected"

definition check_buffered_rows :: "result_env \<Rightarrow> QueryMetadata \<Rightarrow> ResultBatch list \<Rightarrow> (QueryError, unit) result" where
  "check_buffered_rows E md batches =
    rbind (row_count_of E batches) (\<lambda>rows. let expected = expected_rows md in
     if 0 < expected \<and> rows \<noteq> expected then
       fail (ExecutionFailed (''Result set delivered '' @ show_nat rows @ '' rows, but its total row count is '' @
         show_nat expected))
     else Inr ())"

text \<open>The pagination's result is returned after the handle was closed, whatever it is.\<close>

definition afinally :: "('e, 's, 'a) task \<Rightarrow> ('e, 's, unit) task \<Rightarrow> ('e, 's, 'a) task" where
  "afinally m cleanup s = (case m s of
      (Pending, s') \<Rightarrow> (Pending, s')
    | (Ready (Inl Panic), s') \<Rightarrow> (Ready (Inl Panic), s')
    | (Ready (Inl Diverged), s') \<Rightarrow> (Ready (Inl Diverged), s')
    | (Ready r, s') \<Rightarrow> abind cleanup (\<lambda>_. alift r) s')"

definition fetch_all :: "result_env \<Rightarrow> 't transport_protocol \<Rightarrow> ResultSet \<Rightarrow> (QueryError, 't, ResultBatch list) task" where
  "fetch_all E P rs = (case rs of
      RowCountResult _ \<Rightarrow> athrow (NoResultSet ''Cannot fetch batches from row count result'')
    | Stream handle md batches complete \<Rightarrow>
        afinally
          (case handle of
             Some h \<Rightarrow> if \<not> complete then paginate_remaining E P h md batches
                      else alift (rbind (check_buffered_rows E md batches) (\<lambda>_. Inr batches))
           | None \<Rightarrow> alift (rbind (check_buffered_rows E md batches) (\<lambda>_. Inr batches)))
          (case handle of Some h \<Rightarrow> aignore (tp_close_result_set P h) | None \<Rightarrow> areturn ()))"

subsection \<open>Iteration\<close>

record ResultSetIterator =
  it_handle :: "ResultSetHandle option"
  it_metadata :: QueryMetadata
  it_batches :: "ResultBatch list"
  it_current_index :: nat
  it_complete :: bool

definition into_iterator :: "ResultSet \<Rightarrow> (QueryError, ResultSetIterator) result" where
  "into_iterator rs = (case rs of
      Stream h md batches complete \<Rightarrow> Inr \<lparr>it_handle = h, it_metadata = md, it_batches = batches,
        it_current_index = 0, it_complete = complete\<rparr>
    | RowCountResult _ \<Rightarrow> fail (NoResultSet ''Cannot iterate over row count result''))"

text \<open>The state of an iteration is the iterator and the transport it shares.\<close>

definition fetch_next_batch ::
  "result_env \<Rightarrow> 't transport_protocol \<Rightarrow> (QueryError, ResultSetIterator \<times> 't, ResultBatch option) task" where
  "fetch_next_batch E P = (\<lambda>(it, t).
    if it_complete it then (Ready (Inr None), (it, t))
    else (case it_handle it of
        None \<Rightarrow> (Ready (Inr None), (it\<lparr>it_complete := True\<rparr>, t))
      | Some h \<Rightarrow> (case row_count_of E (it_batches it) of
          Inl e \<Rightarrow> (Ready (Inl e), (it, t))
        | Inr rows_received \<Rightarrow> (case fetch_page_after E P h (it_metadata it) rows_received t of
            (Pending, t') \<Rightarrow> (Pending, (it, t'))
          | (Ready (Inr None), t') \<Rightarrow> (Ready (Inr None), (it\<lparr>it_complete := True\<rparr>, t'))
          | (Ready (Inr (Some b)), t') \<Rightarrow> (Ready (Inr (Some b)), (it, t'))
          | (Ready (Inl (Failure (RowCountMismatch m))), t') \<Rightarrow>
              (Ready (fail (ExecutionFailed m)), (it\<lparr>it_complete := True\<rparr>, t'))
          | (Ready (Inl (Failure (Fetch e))), t') \<Rightarrow> (Ready (fail e), (it, t'))
          | (Ready (Inl Panic), t') \<Rightarrow> (Ready (Inl Panic), (it, t'))
          | (Ready (Inl Diverged), t') \<Rightarrow> (Ready (Inl Diverged), (it, t'))))))"

text \<open>
  Where the iterator is called: outside every runtime, on a thread that has entered one,
  or in an asynchronous task of it, where \<open>Handle::block_on\<close> panics.
\<close>

datatype runtime_context = NoRuntime | EnteredRuntime | AsyncTask

definition block_on :: "runtime_context \<Rightarrow> ('e, 's, 'a) task \<Rightarrow> ('e, 's, 'a) task" where
  "block_on rt m = (if rt = AsyncTask then alift (Inl Panic) else m)"

definition next_batch ::
  "result_env \<Rightarrow> 't transport_protocol \<Rightarrow> runtime_context \<Rightarrow>
    (QueryError, ResultSetIterator \<times> 't, ResultBatch option) task" where
  "next_batch E P rt = (\<lambda>(it, t).
    if it_current_index it < length (it_batches it) then
      (Ready (Inr (Some (it_batches it ! it_current_index it))),
       (it\<lparr>it_current_index := it_current_index it + 1\<rparr>, t))
    else if it_complete it then (Ready (Inr None), (it, t))
    else if rt = NoRuntime then (Ready (fail (InvalidState ''No async runtime available'')), (it, t))
    else (case block_on rt (fetch_next_batch E P) (it, t) of
        (Ready (Inr (Some b)), (it', t')) \<Rightarrow>
          (Ready (Inr (Some b)),
           (it'\<lparr>it_batches := it_batches it' @ [b], it_current_index := it_current_index it' + 1\<rparr>, t'))
      | r \<Rightarrow> r))"

definition close_iterator :: "'t transport_protocol \<Rightarrow> ResultSetIterator \<Rightarrow> (QueryError, 't, unit) task" where
  "close_iterator P it = (case it_handle it of
      Some h \<Rightarrow> amap_err (\<lambda>e. ExecutionFailed (show_transport_error e)) (tp_close_result_set P h)
    | None \<Rightarrow> areturn ())"

end
