(* ===== verification/Result_Laws.thy ===== *)
theory Result_Laws
  imports Results
begin

text \<open>
  What a client gets from a result set: \<open>fetch_all\<close> returns all rows of the total or an
  error, in the order of the server's pages, and the iterator yields the same batches where it
  can fetch. The contract of the source of pages is the locale \<open>page_source\<close>.
\<close>

subsection \<open>Row counts\<close>

text \<open>
  The documented behaviour of \<open>RecordBatch::try_new\<close> on success: the fields and columns as
  given, and as many rows as the options say or the first column has.
\<close>

definition batches_documented :: "result_env \<Rightarrow> bool" where
  "batches_documented E \<longleftrightarrow> (\<forall>rows fs cols b. re_try_new E rows fs cols = Inr b \<longrightarrow>
    rb_fields b = fs \<and> rb_columns b = cols \<and>
    (case rows of Some n \<Rightarrow> rb_num_rows b = n | None \<Rightarrow> cols \<noteq> [] \<and> rb_num_rows b = length (hd cols)))"

lemma batch_try_new_rows:
  assumes "batches_documented E" and "batch_try_new E rows fs ms cols = Inr b"
  shows "rb_columns b = cols" and "rb_fields b = fs" and "rb_metadata b = ms"
    and "rows = Some n \<Longrightarrow> rb_num_rows b = n"
    and "rows = None \<Longrightarrow> cols \<noteq> [] \<and> rb_num_rows b = length (hd cols)"
proof -
  from assms(2) obtain x where x: "re_try_new E rows fs cols = Inr x" and b: "b = with_metadata ms x"
    by (auto simp: batch_try_new_def split: sum.splits)
  have "rb_fields x = fs \<and> rb_columns x = cols \<and>
      (case rows of Some n \<Rightarrow> rb_num_rows x = n | None \<Rightarrow> cols \<noteq> [] \<and> rb_num_rows x = length (hd cols))"
    using assms(1) x unfolding batches_documented_def by blast
  then show "rb_columns b = cols" "rb_fields b = fs" "rb_metadata b = ms" "rows = Some n \<Longrightarrow> rb_num_rows b = n"
    "rows = None \<Longrightarrow> cols \<noteq> [] \<and> rb_num_rows b = length (hd cols)"
    by (auto simp: b with_metadata_def)
qed

lemma rmap_length: "rmap f xs = Inr ys \<Longrightarrow> length ys = length xs"
  by (auto simp: rmap_Inr_iff dest: list_all2_lengthD)

lemma rmap_rows_length: "rmap_rows i f vs = Inr ys \<Longrightarrow> length ys = length vs"
  by (induction vs arbitrary: i ys) (auto simp: rbind_Inr_iff)

lemma json_column_length: "json_column_to_array E fld vs = Inr c \<Longrightarrow> length c = length vs"
  by (auto simp: json_column_to_array_def Let_def json_to_boolean_array_def json_to_primitive_array_def
      json_to_string_array_def json_to_binary_array_def json_to_interval_array_def json_to_decimal_array_def
      rbind_Inr_iff split: ArrowDataType.splits dest!: rmap_length rmap_rows_length)

text \<open>A payload of rows becomes a batch of as many rows.\<close>

lemma payload_batch_rows:
  assumes "batches_documented E" and "payload_to_record_batch E p schema = Inr b" and "payload_num_rows p \<noteq> 0"
  shows "rb_num_rows b = payload_num_rows p"
proof (cases p)
  case (PayloadArrow batch)
  then show ?thesis
    using assms batch_try_new_rows(4) [OF assms(1)]
    by (auto simp: payload_to_record_batch_def with_field_metadata_def split: if_splits)
next
  case (PayloadJson rows)
  then have "rows \<noteq> []" using assms(3) by auto
  then obtain arrays where arrays: "rmap (\<lambda>(c, fld). let vs = column_of rows c in
         map_err (into_conversion_error E c (field_name fld) vs (field_type fld)) (json_column_to_array E fld vs))
         (enumerate 0 schema) = Inr arrays"
    and b: "batch_try_new E None (map Field.truncate schema) (map field_metadata schema) arrays = Inr b"
    using assms(2) PayloadJson
    by (auto simp: payload_to_record_batch_def column_major_to_record_batch_def rbind_Inr_iff)
  from batch_try_new_rows(5) [OF assms(1) b] have ne: "arrays \<noteq> []" and n: "rb_num_rows b = length (hd arrays)"
    by auto
  obtain x xs where "enumerate 0 schema = x # xs" and "hd arrays \<in> set arrays"
    using ne rmap_length [OF arrays] by (cases "enumerate 0 schema") auto
  then have "\<exists>c fld. json_column_to_array E fld (column_of rows c) = Inr (hd arrays)"
    using arrays by (cases arrays) (auto simp: rbind_Inr_iff Let_def map_err_Inr_iff split: prod.splits)
  then show ?thesis using n PayloadJson by (auto dest!: json_column_length simp: column_of_def)
qed

abbreviation rows_in :: "ResultBatch list \<Rightarrow> nat" where
  "rows_in bs \<equiv> sum_list (map rb_num_rows bs)"

lemma row_count_of_sum: "rows_in bs < 2 ^ 64 \<Longrightarrow> row_count_of E bs = Inr (rows_in bs)"
  by (induction bs) (simp_all add: usize_add_def add.commute)

lemma expected_rows_less: "expected_rows md < 2 ^ 63"
proof (cases "qm_total_rows md")
  case (Some n)
  have "sint n < 2 ^ 63" using sint_lt [of n] by simp
  then show ?thesis using Some by (simp add: expected_rows_def nat_less_iff)
qed (simp add: expected_rows_def)

subsection \<open>Conversions end\<close>

definition halts :: "('e, 'a) result \<Rightarrow> bool" where
  "halts r \<longleftrightarrow> r \<noteq> Inl Diverged"

lemma halts_simps [simp]: "halts (Inr x)" "halts (fail e)" "halts (Inl Panic)"
  by (simp_all add: halts_def)

lemma halts_rbind [simp]: "halts (rbind m f) \<longleftrightarrow> halts m \<and> (\<forall>x. m = Inr x \<longrightarrow> halts (f x))"
  by (cases m) (auto simp: halts_def)

lemma halts_map_err [simp]: "halts (map_err f r) = halts r"
  by (auto simp: map_err_def halts_def split: sum.splits fault.splits)

lemma halts_rmap: "(\<And>x. halts (f x)) \<Longrightarrow> halts (rmap f xs)"
  by (induction xs) auto

lemma halts_rmap_rows: "(\<And>i x. halts (f i x)) \<Longrightarrow> halts (rmap_rows i f xs)"
  by (induction xs arbitrary: i) auto

lemma halts_result_ok: "halts r \<Longrightarrow> halts (result_ok r)"
  by (auto simp: result_ok_def halts_def split: sum.splits fault.splits)

lemma halts_basic [simp]:
  "halts (i_arith v w x)" "halts (arith v w x)" "halts (parse_or y m)" "halts (str_prefix n s)" "halts (checked_or x)"
  "halts (slice_prefix n s)" "halts (usize_add v i j)"
  by (simp_all add: i_arith_def arith_def parse_or_def str_prefix_def checked_or_def slice_prefix_def usize_add_def
      split: option.split)

lemma halts_fraction [simp]: "halts (fractional_seconds_to_units s n)"
  by (simp add: fractional_seconds_to_units_def Let_def split: option.split)

lemma halts_ymd [simp]: "halts (ymd_to_days v y m d)"
  by (simp add: ymd_to_days_def Let_def)

lemma halts_date [simp]: "halts (parse_date_to_days v s)"
  by (simp add: parse_date_to_days_def Let_def split: list.split)

lemma halts_time_of_day [simp]: "halts (parse_time_of_day_to_micros v s)"
  by (simp add: parse_time_of_day_to_micros_def parse_seconds_field_to_micros_def
      fractional_seconds_to_micros_def Let_def split: list.split option.split)

lemma halts_timestamp [simp]: "halts (parse_timestamp_to_micros v s)"
  by (simp add: parse_timestamp_to_micros_def Let_def split: list.split)

lemma halts_interval_time [simp]: "halts (parse_interval_time_to_nanos s)"
  by (simp add: parse_interval_time_to_nanos_def parse_interval_seconds_to_nanos_def
      fractional_seconds_to_nanos_def Let_def split: list.split option.split)

lemma halts_interval_parts [simp]:
  "halts (parse_interval_months y m)" "halts (parse_interval_days_and_nanos s)"
  by (simp_all add: parse_interval_months_def parse_interval_days_and_nanos_def Let_def
      split: list.split option.split prod.split)

lemma halts_interval [simp]: "halts (parse_interval v s)"
  by (simp add: parse_interval_def Let_def split: list.split option.split prod.split)

lemma halts_decimal [simp]: "halts (parse_string_to_decimal v s n)"
  by (simp add: parse_string_to_decimal_def Let_def split: list.split option.split prod.split)

lemma halts_scale [simp]: "halts (scale_to_decimal E v n)"
  by (simp add: scale_to_decimal_def split: option.split)

lemma halts_from_text: "(\<And>s. halts (f s)) \<Longrightarrow> halts (from_text f v)"
  by (simp add: from_text_def halts_result_ok split: option.split)

lemma halts_json_column [simp]: "halts (json_column_to_array E fld vs)"
  by (simp add: json_column_to_array_def Let_def json_to_primitive_array_def json_to_interval_array_def
      json_to_decimal_array_def halts_rmap halts_rmap_rows halts_from_text
      split: ArrowDataType.split json.split sum.split)

lemma halts_batch [simp]: "halts (batch_try_new E r fs ms cs)"
  by (simp add: batch_try_new_def split: sum.split)

lemma halts_payload [simp]: "halts (payload_to_record_batch E p schema)"
  by (simp add: payload_to_record_batch_def with_field_metadata_def column_major_to_record_batch_def
      empty_record_batch_def halts_rmap Let_def split: ResultPayload.split prod.split)

lemma page_of_halts: "halts (page_of E md r d)"
  by (simp add: page_of_def Let_def)

subsection \<open>Pagination\<close>

text \<open>The pages a transport hands out one after the other.\<close>

primrec fetched :: "'t transport_protocol \<Rightarrow> ResultSetHandle \<Rightarrow> ResultData list \<Rightarrow> 't \<Rightarrow> 't \<Rightarrow> bool" where
  "fetched P h [] t t' \<longleftrightarrow> t' = t"
| "fetched P h (d # ds) t t' \<longleftrightarrow> (\<exists>t1. tp_fetch_results P h t = (Ready (Inr d), t1) \<and> fetched P h ds t1 t')"

text \<open>
  What the pagination relies on, in the states of the transport that satisfy \<open>I\<close>: a fetch
  keeps \<open>I\<close> and does not spin, closing does not spin, and the sum of the rows is checked for
  overflow unless every page is small.
\<close>

locale page_source =
  fixes E :: result_env and P :: "'t transport_protocol" and I :: "'t \<Rightarrow> bool"
  assumes documented: "I t \<Longrightarrow> batches_documented E"
    and fetch_keeps: "I t \<Longrightarrow> I (snd (tp_fetch_results P h t))"
    and page_size: "I t \<Longrightarrow> tp_fetch_results P h t = (Ready (Inr d), t') \<Longrightarrow>
      re_overflow_checks E \<or> payload_num_rows (rd_data d) < 2 ^ 63"
    and no_spin: "I t \<Longrightarrow> fst (tp_fetch_results P h t) \<noteq> Ready (Inl Diverged)"
    and close_no_spin: "I t \<Longrightarrow> fst (tp_close_result_set P h t) \<noteq> Ready (Inl Diverged)"
begin

lemma page_of_known_total:
  assumes "0 < expected_rows md" and "r < expected_rows md"
    and "batches_documented E" "re_overflow_checks E \<or> payload_num_rows (rd_data d) < 2 ^ 63" and "page_of E md r d = Inr p"
  shows "\<exists>b. p = Some b \<and> payload_to_record_batch E (rd_data d) (qm_schema md) = Inr b
    \<and> 0 < rb_num_rows b \<and> r + rb_num_rows b \<le> expected_rows md"
proof -
  have some: "payload_num_rows (rd_data d) \<noteq> 0" using assms(1,5) by (auto simp: page_of_def Let_def split: if_splits)
  then obtain b where b: "payload_to_record_batch E (rd_data d) (qm_schema md) = Inr b"
    and rest: "rbind (usize_add (re_overflow_checks E) r (rb_num_rows b)) (\<lambda>after.
       if 0 < expected_rows md \<and> expected_rows md < after then
         fail (RowCountMismatch (''Result set delivered '' @ show_nat after @
           '' rows, but its total row count is '' @ show_nat (expected_rows md)))
       else Inr (Some b)) = Inr p"
    using assms(5) by (auto simp: page_of_def Let_def rbind_Inr_iff map_err_Inr_iff)
  have rows: "rb_num_rows b = payload_num_rows (rd_data d)"
    by (rule payload_batch_rows [OF assms(3) b some])
  then have "re_overflow_checks E \<or> r + rb_num_rows b < 2 ^ 64" using assms(2,4) expected_rows_less [of md] by auto
  then show ?thesis using rest b rows some assms(1) by (auto simp: usize_add_def split: if_splits)
qed

lemma fetch_page_cases:
  assumes "I t" and "r < expected_rows md" and "fetch_page_after E P h md r t = (Ready (Inr p), t')"
  shows "I t' \<and> (\<exists>d b. tp_fetch_results P h t = (Ready (Inr d), t') \<and> p = Some b
    \<and> payload_to_record_batch E (rd_data d) (qm_schema md) = Inr b
    \<and> 0 < rb_num_rows b \<and> r + rb_num_rows b \<le> expected_rows md)"
proof -
  obtain d where d: "tp_fetch_results P h t = (Ready (Inr d), t')" and p: "page_of E md r d = Inr p"
    using assms by (auto simp: fetch_page_after_def Let_def abind_Ready alift_Ready)
  have "I t'" using fetch_keeps [OF assms(1), of h] d by simp
  with page_of_known_total [OF _ assms(2) documented [OF assms(1)] page_size [OF assms(1) d] p] assms(2) d show ?thesis by auto
qed

text \<open>With a known total the collected rows reach it exactly.\<close>

lemma paginate_complete:
  assumes "0 < expected_rows md" and "I t" and "rows_in collected \<le> expected_rows md"
    and "paginate n E P h md collected t = (Ready (Inr bs), t')"
  shows "rows_in bs = expected_rows md \<and> (\<exists>ds pages. bs = collected @ pages \<and> fetched P h ds t t'
    \<and> list_all2 (\<lambda>d b. payload_to_record_batch E (rd_data d) (qm_schema md) = Inr b) ds pages)"
  using assms(2-4)
proof (induction n arbitrary: collected t)
  case (Suc n)
  have rows: "row_count_of E collected = (Inr (rows_in collected) :: (QueryError, nat) result)"
    using Suc.prems(2) expected_rows_less [of md] by (intro row_count_of_sum) simp
  show ?case
  proof (cases "rows_in collected = expected_rows md")
    case True
    then have "bs = collected \<and> t' = t"
      using Suc.prems(3) rows assms(1)
      by (auto simp: abind_Ready act_simps fetch_page_after_def amap_err_def)
    then show ?thesis using True by (auto intro!: exI [of _ "[]"])
  next
    case False
    then have less: "rows_in collected < expected_rows md" using Suc.prems(2) by simp
    obtain p t1 where page: "fetch_page_after E P h md (rows_in collected) t = (Ready (Inr p), t1)"
      and rest: "(case p of None \<Rightarrow> areturn collected | Some b \<Rightarrow> paginate n E P h md (collected @ [b])) t1
        = (Ready (Inr bs), t')"
      using Suc.prems(3) rows by (auto simp: abind_Ready act_simps)
    from fetch_page_cases [OF Suc.prems(1) less page] obtain d b where t1: "I t1" and d: "tp_fetch_results P h t = (Ready (Inr d), t1)" "p = Some b"
      "payload_to_record_batch E (rd_data d) (qm_schema md) = Inr b" "rows_in collected + rb_num_rows b \<le> expected_rows md"
      by auto
    with rest Suc.IH [of t1 "collected @ [b]"] t1 obtain ds pages where "rows_in bs = expected_rows md"
      "bs = collected @ b # pages" "fetched P h ds t1 t'"
      "list_all2 (\<lambda>d b. payload_to_record_batch E (rd_data d) (qm_schema md) = Inr b) ds pages"
      by auto
    then show ?thesis using d by (auto intro!: exI [of _ "d # ds"] exI [of _ "b # pages"])
  qed
qed (simp add: act_simps)

text \<open>Every turn adds a row: the bound on the turns is never reached.\<close>

lemma paginate_returns:
  assumes "0 < expected_rows md" and "I t" and "rows_in collected \<le> expected_rows md"
    and "expected_rows md - rows_in collected < n"
  shows "fst (paginate n E P h md collected t) \<noteq> Ready (Inl Diverged)"
  using assms(2-4)
proof (induction n arbitrary: collected t)
  case (Suc n)
  have rows: "row_count_of E collected = (Inr (rows_in collected) :: (QueryError, nat) result)"
    using Suc.prems(2) expected_rows_less [of md] by (intro row_count_of_sum) simp
  show ?case
  proof (cases "rows_in collected = expected_rows md")
    case True
    then show ?thesis using rows assms(1) by (simp add: act_simps fetch_page_after_def amap_err_def abind_def)
  next
    case False
    then have less: "rows_in collected < expected_rows md" using Suc.prems(2) by simp
    obtain r t1 where page: "fetch_page_after E P h md (rows_in collected) t = (r, t1)" by fastforce
    have spin: "r \<noteq> Ready (Inl Diverged)"
      using page less no_spin [OF Suc.prems(1), of h] page_of_halts
      by (auto simp: fetch_page_after_def abind_def amap_err_def map_err_def act_eval halts_def
          split: prod.splits poll.splits sum.splits fault.splits)
    show ?thesis
    proof (cases "\<exists>p. r = Ready (Inr p)")
      case True
      then obtain p where p: "r = Ready (Inr p)" by blast
      from fetch_page_cases [OF Suc.prems(1) less page [unfolded p]] obtain b where t1: "I t1" and b: "p = Some b" "0 < rb_num_rows b"
        "rows_in collected + rb_num_rows b \<le> expected_rows md" by auto
      have "fst (paginate n E P h md (collected @ [b]) t1) \<noteq> Ready (Inl Diverged)"
        using Suc.prems b t1 less by (intro Suc.IH) auto
      then show ?thesis using rows page p b by (simp add: act_simps abind_def amap_err_def)
    next
      case False
      then show ?thesis using rows page spin
        by (auto simp: act_simps abind_def amap_err_def map_err_def split: poll.splits sum.splits fault.splits)
    qed
  qed
qed simp

lemma paginate_keeps: "I t \<Longrightarrow> I (snd (paginate n E P h md collected t))"
proof (induction n arbitrary: collected t)
  case (Suc n)
  have page: "I (snd (fetch_page_after E P h md r t))" for r
    using fetch_keeps [OF Suc.prems, of h] Suc.prems
    by (auto simp: fetch_page_after_def abind_def amap_err_def act_eval Let_def
        split: prod.splits poll.splits sum.splits)
  show ?case
  proof (cases "row_count_of E collected :: (QueryError, nat) result")
    case (Inr r)
    obtain q t1 where "fetch_page_after E P h md r t = (q, t1)" by fastforce
    with page [of r] have "fetch_page_after E P h md r t = (q, t1)" "I t1" by simp_all
    then show ?thesis using Inr Suc.IH [OF \<open>I t1\<close>]
      by (auto simp: abind_def act_eval amap_err_def map_err_def split: poll.split sum.split fault.split option.split)
  qed (use Suc.prems in \<open>simp add: abind_def act_eval\<close>)
qed (simp add: act_eval)

subsection \<open>All rows\<close>

text \<open>The first batch has the rows of the first payload.\<close>

lemma first_batch:
  assumes "batches_documented E" and "from_transport_result E (QResultSet handle d) = Inr rs"
  obtains schema b where "build_schema (re_type_json E) (rd_columns d) = Inr schema"
    "rs = Stream handle (QueryMetadata_new schema (Some (rd_total_rows d))) [b]
      (handle = None \<or> rd_total_rows d = of_nat (payload_num_rows (rd_data d)))"
    "rb_num_rows b = payload_num_rows (rd_data d)"
proof -
  let ?n = "payload_num_rows (rd_data d)"
  from assms(2) obtain schema b where s: "build_schema (re_type_json E) (rd_columns d) = Inr schema"
    and b: "(if ?n = 0 then empty_record_batch E schema else payload_to_record_batch E (rd_data d) schema) = Inr b"
    and rs: "rs = Stream handle (QueryMetadata_new schema (Some (rd_total_rows d))) [b]
      (handle = None \<or> rd_total_rows d = of_nat ?n)"
    by (auto simp: from_transport_result_def Let_def rbind_Inr_iff map_err_Inr_iff)
  have "rb_num_rows b = ?n"
  proof (cases "?n = 0")
    case True
    then have "batch_try_new E None (map Field.truncate schema) (map field_metadata schema) (map (\<lambda>_. []) schema) = Inr b"
      using b by (simp add: empty_record_batch_def)
    from batch_try_new_rows(5) [OF assms(1) this] True show ?thesis by (cases schema) auto
  next
    case False
    then show ?thesis using b payload_batch_rows [OF assms(1)] by simp
  qed
  with s rs that show ?thesis by blast
qed

lemma afinally_Ready:
  "afinally m c t = (Ready (Inr x), t') \<longleftrightarrow> (\<exists>t1. m t = (Ready (Inr x), t1) \<and> c t1 = (Ready (Inr ()), t'))"
  by (auto simp: afinally_def abind_Ready alift_Ready split: prod.splits poll.splits sum.splits fault.splits)

lemma aignore_Ready: "aignore m t = (Ready (Inr ()), t') \<Longrightarrow> t' = snd (m t)"
  by (auto simp: aignore_def split: prod.splits poll.splits sum.splits fault.splits)

lemma check_buffered_total:
  assumes "0 < expected_rows md" and "rows_in bs < 2 ^ 63" and "check_buffered_rows E md bs = Inr u"
  shows "rows_in bs = expected_rows md"
  using assms row_count_of_sum [of bs E, where ?'a = QueryError]
  by (auto simp: check_buffered_rows_def Let_def split: if_splits)

lemma fetch_all_total:
  assumes rs: "from_transport_result E (QResultSet handle d) = Inr rs"
    and total: "0 < sint (rd_total_rows d)" "int (payload_num_rows (rd_data d)) \<le> sint (rd_total_rows d)"
    and run: "I t" "fetch_all E P rs t = (Ready (Inr bs), t')"
  shows "int (rows_in bs) = sint (rd_total_rows d) \<and> (\<exists>b pages ds schema t1. bs = b # pages
    \<and> rb_num_rows b = payload_num_rows (rd_data d)
    \<and> list_all2 (\<lambda>d b. payload_to_record_batch E (rd_data d) schema = Inr b) ds pages
    \<and> (case handle of None \<Rightarrow> ds = [] \<and> t' = t
       | Some h \<Rightarrow> fetched P h ds t t1 \<and> t' = snd (tp_close_result_set P h t1)))"
proof -
  obtain schema b where b: "rs = Stream handle (QueryMetadata_new schema (Some (rd_total_rows d))) [b]
      (handle = None \<or> rd_total_rows d = of_nat (payload_num_rows (rd_data d)))"
    "rb_num_rows b = payload_num_rows (rd_data d)"
    by (rule first_batch [OF documented [OF run(1)] rs])
  let ?md = "QueryMetadata_new schema (Some (rd_total_rows d))"
  have exp: "int (expected_rows ?md) = sint (rd_total_rows d)" "0 < expected_rows ?md"
    using total by (simp_all add: expected_rows_def QueryMetadata_new_def)
  have small: "rows_in [b] \<le> expected_rows ?md" using b(2) total exp by simp
  have buffered: "rows_in bs = expected_rows ?md \<and> bs = [b] \<and> t1 = t"
    if "alift (rbind (check_buffered_rows E ?md [b]) (\<lambda>_. Inr [b])) t = (Ready (Inr bs), t1)" for t1
    using that check_buffered_total [OF exp(2), of "[b]"] small expected_rows_less [of ?md]
    by (auto simp: alift_Ready rbind_Inr_iff)
  show ?thesis
  proof (cases handle)
    case None
    then show ?thesis using run(2) b buffered exp by (auto simp: fetch_all_def afinally_Ready act_simps)
  next
    case (Some h)
    obtain t1 where pag: "(if \<not> (rd_total_rows d = of_nat (payload_num_rows (rd_data d))) then paginate_remaining E P h ?md [b]
        else alift (rbind (check_buffered_rows E ?md [b]) (\<lambda>_. Inr [b]))) t = (Ready (Inr bs), t1)"
      and close: "t' = snd (tp_close_result_set P h t1)"
      using run(2) b(1) Some by (auto simp: fetch_all_def afinally_Ready dest: aignore_Ready)
    show ?thesis
    proof (cases "rd_total_rows d = of_nat (payload_num_rows (rd_data d))")
      case True
      then show ?thesis using pag close buffered exp b Some by (auto intro!: exI [of _ "[]"])
    next
      case False
      then obtain n where "paginate n E P h ?md [b] t = (Ready (Inr bs), t1)"
        using pag by (auto simp: paginate_remaining_def)
      from paginate_complete [OF exp(2) run(1) small this] obtain ds pages where "rows_in bs = expected_rows ?md" "bs = [b] @ pages" "fetched P h ds t t1"
        "list_all2 (\<lambda>d b. payload_to_record_batch E (rd_data d) (qm_schema ?md) = Inr b) ds pages" by blast
      then show ?thesis using close exp b Some by auto
    qed
  qed
qed

lemma fetch_all_returns:
  assumes "from_transport_result E (QResultSet handle d) = Inr rs"
    and "0 < sint (rd_total_rows d)" "int (payload_num_rows (rd_data d)) \<le> sint (rd_total_rows d)" and "I t"
  shows "fst (fetch_all E P rs t) \<noteq> Ready (Inl Diverged)"
proof -
  obtain schema b where b: "rs = Stream handle (QueryMetadata_new schema (Some (rd_total_rows d))) [b]
      (handle = None \<or> rd_total_rows d = of_nat (payload_num_rows (rd_data d)))"
    "rb_num_rows b = payload_num_rows (rd_data d)"
    by (rule first_batch [OF documented [OF assms(4)] assms(1)])
  let ?md = "QueryMetadata_new schema (Some (rd_total_rows d))"
  have exp: "0 < expected_rows ?md" "rows_in [b] \<le> expected_rows ?md"
    using assms b(2) by (simp_all add: expected_rows_def QueryMetadata_new_def)
  have buffered: "check_buffered_rows E ?md [b] \<noteq> Inl Diverged"
    by (simp add: check_buffered_rows_def Let_def usize_add_def)
  have pag: "fst (paginate_remaining E P h ?md [b] t) \<noteq> Ready (Inl Diverged)" for h
    using paginate_returns [OF exp(1) assms(4) exp(2), of "expected_rows ?md + 1"] exp
    by (simp add: paginate_remaining_def del: paginate.simps)
  have fin: "fst (afinally m c t) \<noteq> Ready (Inl Diverged)"
    if "fst (m t) \<noteq> Ready (Inl Diverged)" "fst (c (snd (m t))) \<noteq> Ready (Inl Diverged)"
    for m :: "(QueryError, 't, ResultBatch list) task" and c
    using that by (auto simp: afinally_def abind_def act_eval split: prod.splits poll.splits sum.splits fault.splits)
  have close: "fst (aignore (tp_close_result_set P h) s) \<noteq> Ready (Inl Diverged)" if "I s" for h s
    using close_no_spin [OF that, of h] by (auto simp: aignore_def split: prod.splits poll.splits sum.splits fault.splits)
  let ?checked = "alift (rbind (check_buffered_rows E ?md [b]) (\<lambda>_. Inr [b]))"
  have states: "I (snd (?checked t))" "I (snd (paginate_remaining E P h ?md [b] t))" for h
    using assms(4) paginate_keeps by (simp_all add: act_eval paginate_remaining_def del: paginate.simps)
  have lifted: "fst (?checked t) \<noteq> Ready (Inl Diverged)"
    using buffered by (simp add: act_eval rbind_Inl_iff)
  show ?thesis
  proof (cases handle)
    case None
    then show ?thesis using fin [of ?checked "areturn ()"] lifted by (simp add: b(1) fetch_all_def act_eval)
  next
    case (Some h)
    let ?close = "aignore (tp_close_result_set P h)"
    have "fst (afinally ?checked ?close t) \<noteq> Ready (Inl Diverged)"
      "fst (afinally (paginate_remaining E P h ?md [b]) ?close t) \<noteq> Ready (Inl Diverged)"
      by (rule fin, rule lifted, rule close, rule states(1), rule fin, rule pag, rule close, rule states(2))
    then show ?thesis using Some
      by (cases "rd_total_rows d = of_nat (payload_num_rows (rd_data d))") (simp_all only: b(1) fetch_all_def
          ResultSet.case option.case simp_thms option.distinct if_True if_False)
  qed
qed

end

text \<open>Pages that add up to the total are all handed out.\<close>

lemma paginate_pages:
  assumes "batches_documented E" "0 < expected_rows md"
    and "fetched P h ds t t'" "list_all2 (\<lambda>d b. payload_to_record_batch E (rd_data d) (qm_schema md) = Inr b) ds pages"
    and "list_all (\<lambda>d. 0 < payload_num_rows (rd_data d)) ds"
    and "rows_in collected + sum_list (map (\<lambda>d. payload_num_rows (rd_data d)) ds) = expected_rows md" "length ds < n"
  shows "paginate n E P h md collected t = (Ready (Inr (collected @ pages)), t')"
  using assms(3-7)
proof (induction ds arbitrary: n t pages collected)
  case Nil
  then obtain k where "n = Suc k" "row_count_of E collected = (Inr (rows_in collected) :: (QueryError, nat) result)"
    using expected_rows_less [of md] row_count_of_sum [of collected E] by (cases n) auto
  then show ?case using Nil assms(2)
    by (simp add: abind_def act_eval fetch_page_after_def amap_err_def)
next
  case (Cons d ds)
  obtain k where n: "n = Suc k" "length ds < k" using Cons.prems(5) by (cases n) auto
  obtain t1 where t1: "tp_fetch_results P h t = (Ready (Inr d), t1)" "fetched P h ds t1 t'" using Cons.prems(1) by auto
  obtain b bs where b: "pages = b # bs" "payload_to_record_batch E (rd_data d) (qm_schema md) = Inr b"
    "list_all2 (\<lambda>d b. payload_to_record_batch E (rd_data d) (qm_schema md) = Inr b) ds bs"
    using Cons.prems(2) by (auto simp: list_all2_Cons1)
  have rows: "rb_num_rows b = payload_num_rows (rd_data d)" "0 < payload_num_rows (rd_data d)"
    using payload_batch_rows [OF assms(1) b(2)] Cons.prems(3) by simp_all
  have le: "rows_in collected < expected_rows md" "rows_in collected + rb_num_rows b \<le> expected_rows md"
    using Cons.prems(4) rows by simp_all
  then have small: "rows_in collected + rb_num_rows b < 2 ^ 64" using expected_rows_less [of md] by simp
  have count: "row_count_of E collected = (Inr (rows_in collected) :: (QueryError, nat) result)"
    using small by (intro row_count_of_sum) simp
  have "page_of E md (rows_in collected) d = Inr (Some b)"
    using b(2) rows le small by (simp add: page_of_def Let_def usize_add_def)
  then have page: "fetch_page_after E P h md (rows_in collected) t = (Ready (Inr (Some b)), t1)"
    using t1(1) le by (simp add: fetch_page_after_def abind_def amap_err_def act_eval)
  have "paginate k E P h md (collected @ [b]) t1 = (Ready (Inr ((collected @ [b]) @ bs)), t')"
    using Cons.prems(3,4) rows n by (intro Cons.IH [OF t1(2) b(3)]) simp_all
  then show ?case using n(1) count page b(1) by (simp add: abind_def act_eval amap_err_def)
qed

text \<open>
  The total is not checked against a first payload that is too long when the server still
  holds the result set: the pagination ends at once and hands the rows out.
\<close>

lemma overlong_accepted:
  assumes "from_transport_result E (QResultSet (Some h) d) = Inr rs" and "batches_documented E"
    and "0 < sint (rd_total_rows d)" "sint (rd_total_rows d) < int (payload_num_rows (rd_data d))"
    and "payload_num_rows (rd_data d) < 2 ^ 63" and "tp_close_result_set P h t = (Ready (Inr ()), t')"
  shows "\<exists>b. fetch_all E P rs t = (Ready (Inr [b]), t') \<and> sint (rd_total_rows d) < int (rb_num_rows b)"
proof -
  have ne: "rd_total_rows d \<noteq> of_nat (payload_num_rows (rd_data d))"
  proof
    assume "rd_total_rows d = of_nat (payload_num_rows (rd_data d))"
    then have "sint (rd_total_rows d) = int (payload_num_rows (rd_data d))"
      using assms(5) by (simp add: signed_of_nat signed_take_bit_int_eq_self)
    then show False using assms(4) by simp
  qed
  from assms(1) obtain schema b
    where pb: "payload_to_record_batch E (rd_data d) schema = Inr b"
    and rs: "rs = Stream (Some h) (QueryMetadata_new schema (Some (rd_total_rows d))) [b] False"
    using ne assms(3,4) by (auto simp: from_transport_result_def Let_def rbind_Inr_iff map_err_Inr_iff)
  have rows: "rb_num_rows b = payload_num_rows (rd_data d)"
    using payload_batch_rows [OF assms(2) pb] assms(3,4) by simp
  let ?md = "QueryMetadata_new schema (Some (rd_total_rows d))"
  have exp: "0 < expected_rows ?md" "expected_rows ?md \<le> rb_num_rows b"
    using assms(3,4) rows by (simp_all add: expected_rows_def QueryMetadata_new_def)
  have "paginate_remaining E P h ?md [b] t = (Ready (Inr [b]), t)"
    using exp rows assms(5)
    by (simp add: paginate_remaining_def act_simps usize_add_def fetch_page_after_def amap_err_def abind_def)
  then show ?thesis using rs assms(4,6) rows
    by (simp add: fetch_all_def afinally_def aignore_def abind_def act_eval)
qed

subsection \<open>Iteration\<close>

text \<open>Calling the iterator until it ends.\<close>

primrec drain ::
  "nat \<Rightarrow> result_env \<Rightarrow> 't transport_protocol \<Rightarrow> runtime_context \<Rightarrow> ResultBatch list \<Rightarrow>
    (QueryError, ResultSetIterator \<times> 't, ResultBatch list) task" where
  "drain 0 E P rt acc = alift (Inl Diverged)"
| "drain (Suc n) E P rt acc = abind (next_batch E P rt) (\<lambda>b. case b of
      None \<Rightarrow> areturn acc
    | Some b \<Rightarrow> drain n E P rt (acc @ [b]))"

lemma drain_buffered:
  "i + k = length (it_batches it) \<Longrightarrow> it_current_index it = i \<Longrightarrow>
    drain (k + n) E P rt (take i (it_batches it)) (it, t) =
    drain n E P rt (it_batches it) (it\<lparr>it_current_index := length (it_batches it)\<rparr>, t)"
proof (induction k arbitrary: i it)
  case 0
  then show ?case by (cases it) simp
next
  case (Suc k)
  let ?it = "it\<lparr>it_current_index := i + 1\<rparr>"
  have "next_batch E P rt (it, t) = (Ready (Inr (Some (it_batches it ! i))), (?it, t))"
    using Suc.prems by (simp add: next_batch_def)
  moreover have "take i (it_batches it) @ [it_batches it ! i] = take (i + 1) (it_batches ?it)"
    using Suc.prems by (simp add: take_Suc_conv_app_nth)
  ultimately show ?case using Suc.IH [of "i + 1" ?it] Suc.prems by (simp add: abind_def)
qed

lemma drain_pages:
  "it_handle it = Some h \<Longrightarrow> \<not> it_complete it \<Longrightarrow> it_current_index it = length (it_batches it) \<Longrightarrow>
    (case drain n E P EnteredRuntime (it_batches it) (it, t) of (p, (it', t')) \<Rightarrow> (p, t')) =
    paginate n E P h (it_metadata it) (it_batches it) t"
proof (induction n arbitrary: it t)
  case (Suc n)
  show ?case
  proof (cases "row_count_of E (it_batches it) :: (QueryError, nat) result")
    case (Inl e)
    then show ?thesis using Suc.prems
      by (simp add: abind_def next_batch_def block_on_def fetch_next_batch_def act_eval)
  next
    case (Inr rows)
    obtain p t1 where page: "fetch_page_after E P h (it_metadata it) rows t = (p, t1)" by fastforce
    show ?thesis
    proof (cases "\<exists>b. p = Ready (Inr (Some b))")
      case True
      then obtain b where b: "p = Ready (Inr (Some b))" by blast
      let ?it = "it\<lparr>it_batches := it_batches it @ [b], it_current_index := it_current_index it + 1\<rparr>"
      show ?thesis
        using Suc.IH [of ?it t1] Suc.prems Inr page b
        by (simp add: abind_def next_batch_def block_on_def fetch_next_batch_def act_eval amap_err_def)
    next
      case False
      then show ?thesis using Suc.prems Inr page
        by (auto simp: abind_def next_batch_def block_on_def fetch_next_batch_def act_eval amap_err_def map_err_def
            split: poll.splits sum.splits fault.splits option.splits PageFetchError.splits)
    qed
  qed
qed (simp add: act_eval)

text \<open>Reading everything that is left, and the transport afterwards.\<close>

definition iterate_all ::
  "nat \<Rightarrow> result_env \<Rightarrow> 't transport_protocol \<Rightarrow> runtime_context \<Rightarrow> ResultSetIterator \<Rightarrow>
    (QueryError, 't, ResultBatch list) task" where
  "iterate_all n E P rt it t = (case drain n E P rt [] (it, t) of (p, (it', t')) \<Rightarrow> (p, t'))"

lemma iterate_stream:
  assumes "into_iterator (Stream handle md batches complete) = Inr it"
  shows "iterate_all (length batches + n) E P rt it t =
    (case drain n E P rt batches (it\<lparr>it_current_index := length batches\<rparr>, t) of (p, (it', t')) \<Rightarrow> (p, t'))"
proof -
  have it: "it_batches it = batches" "it_current_index it = 0" using assms by (auto simp: into_iterator_def)
  then show ?thesis
    using drain_buffered [of 0 "length batches" it n E P rt t] by (simp add: iterate_all_def)
qed

lemma iterate_paginate:
  assumes "into_iterator (Stream (Some h) md batches False) = Inr it"
  shows "iterate_all (length batches + n) E P EnteredRuntime it t = paginate n E P h md batches t"
proof -
  have "it_batches it = batches" "it_handle it = Some h" "\<not> it_complete it" "it_metadata it = md"
    using assms by (auto simp: into_iterator_def)
  then show ?thesis
    using drain_pages [of "it\<lparr>it_current_index := length batches\<rparr>" h n E P t] by (simp add: iterate_stream [OF assms])
qed

text \<open>Without a page to fetch, the iterator ends after the batches it holds; it cannot fetch one outside
  a runtime or in an asynchronous task.\<close>

lemma iterate_buffered:
  assumes "into_iterator (Stream handle md batches complete) = Inr it"
  shows "complete \<or> handle = None \<and> rt = EnteredRuntime \<Longrightarrow>
      iterate_all (length batches + Suc n) E P rt it t = (Ready (Inr batches), t)"
    "\<not> complete \<Longrightarrow> iterate_all (length batches + Suc n) E P NoRuntime it t =
      (Ready (fail (InvalidState ''No async runtime available'')), t)"
    "\<not> complete \<Longrightarrow> iterate_all (length batches + Suc n) E P AsyncTask it t = (Ready (Inl Panic), t)"
proof -
  have it: "it_batches it = batches" "it_handle it = handle" "it_complete it = complete"
    using assms by (auto simp: into_iterator_def)
  show "complete \<or> handle = None \<and> rt = EnteredRuntime \<Longrightarrow>
      iterate_all (length batches + Suc n) E P rt it t = (Ready (Inr batches), t)"
    "\<not> complete \<Longrightarrow> iterate_all (length batches + Suc n) E P NoRuntime it t =
      (Ready (fail (InvalidState ''No async runtime available'')), t)"
    "\<not> complete \<Longrightarrow> iterate_all (length batches + Suc n) E P AsyncTask it t = (Ready (Inl Panic), t)"
    unfolding iterate_stream [OF assms]
    by (auto simp: it next_batch_def block_on_def fetch_next_batch_def abind_def act_eval)
qed

end
