(* ===== verification/Native_Protocol.thy ===== *)
theory Native_Protocol
  imports Result_Laws Transport_Liveness
begin

text \<open>
  The native transport as an implementation of the transport protocol: \<open>impl TransportProtocol
  for NativeTcpTransport\<close> in \<open>src/transport/native/mod.rs\<close>. The clock is read when the setup
  starts and when the login starts. The contract of the pagination is interpreted on it.
\<close>

record native_clock =
  nc_max :: instant
  nc_connect :: instant
  nc_login :: instant
  nc_lag :: nat

definition native_protocol ::
  "('c, 'n) transport_env \<Rightarrow> network \<Rightarrow> login_timing \<Rightarrow> native_clock \<Rightarrow> 'c NativeTcpTransport transport_protocol" where
  "native_protocol E W lt K = \<lparr>
    tp_connect = (\<lambda>ps t. apfst Ready (connect W (nc_max K) (nc_connect K) ps t)),
    tp_authenticate = (\<lambda>cr t. apfst Ready (authenticate E lt cr (nc_login K) (nc_lag K) t)),
    tp_execute_query = execute_query E,
    tp_fetch_results = fetch_results E,
    tp_close_result_set = close_result_set E,
    tp_create_prepared_statement = create_prepared_statement E,
    tp_execute_prepared_statement = execute_prepared_statement E,
    tp_close_prepared_statement = close_prepared_statement E,
    tp_close = close E lt,
    tp_terminate = terminate_transport E lt,
    tp_is_connected = is_connected,
    tp_set_autocommit = set_autocommit E,
    tp_set_query_timeout = set_query_timeout E,
    tp_set_current_schema = set_current_schema E,
    tp_refresh_current_schema = refresh_current_schema E,
    tp_current_schema = current_schema\<rparr>"

text \<open>One build profile for the whole driver, and the documented behaviour of its libraries.\<close>

definition native_ready :: "result_env \<Rightarrow> ('c, 'n) transport_env \<Rightarrow> 'c NativeTcpTransport \<Rightarrow> bool" where
  "native_ready R E t \<longleftrightarrow> batches_documented R \<and> live_env E \<and>
    re_overflow_checks R = overflow_checks (te_native E) \<and> responsive True t"

interpretation native_pages: page_source R "native_protocol E W lt K" "native_ready R E"
proof
  fix t :: "'a NativeTcpTransport" and h d t'
  assume ready: "native_ready R E t"
  then have live: "live_env E" and resp: "responsive True t" by (simp_all add: native_ready_def)
  obtain p u where run: "fetch_results E h t = (p, u)" by fastforce
  from returnsD [OF returns_fetch_results [OF live] resp run]
  show "native_ready R E (snd (tp_fetch_results (native_protocol E W lt K) h t))"
    and "fst (tp_fetch_results (native_protocol E W lt K) h t) \<noteq> Ready (Inl Diverged)"
    using ready run by (auto simp: native_protocol_def native_ready_def)
  obtain q v where close: "close_result_set E h t = (q, v)" by fastforce
  from returnsD [OF returns_closes(1) [OF live] resp close]
  show "fst (tp_close_result_set (native_protocol E W lt K) h t) \<noteq> Ready (Inl Diverged)"
    using close by (auto simp: native_protocol_def)
  show "re_overflow_checks R \<or> payload_num_rows (rd_data d) < 2 ^ 63"
    using ready by (simp add: native_ready_def live_env_def)
  show "batches_documented R" using ready by (simp add: native_ready_def)
qed

end
