(* ===== verification/Native_Results.thy ===== *)
theory Native_Results
  imports Native_Protocol Command_Laws
begin

text \<open>
  Result sets over the native transport, end to end: a result set that the server holds is
  fetched page by page, handed out whole, and closed.
\<close>

lemma fetched_times:
  "fetch_times E h (length ds) t = (Ready (Inr ds), t') \<Longrightarrow> fetched (native_protocol E W lt K) h ds t t'"
proof (induction ds arbitrary: t)
  case (Cons d ds)
  then obtain t1 where "fetch_results E h t = (Ready (Inr d), t1)" "fetch_times E h (length ds) t1 = (Ready (Inr ds), t')"
    by (auto simp: abind_Ready alift_Ready)
  then show ?case using Cons.IH by (auto simp: native_protocol_def)
qed (simp add: act_eval)

lemma fetch_times_length: "fetch_times E h n t = (Ready (Inr ds), t') \<Longrightarrow> length ds = n"
  by (induction n arbitrary: t ds) (auto simp: act_eval abind_Ready alift_Ready)

lemma native_fetch_all:
  assumes R: "batches_documented R" and C: "stream_cipher (te_cipher E)"
    and rs: "rs = Stream (Some h) md [b] False"
    and t: "conn_state t = Authenticated" "facing srv (bytes @ bytes' @ rest) t" "nt_result_columns t h = Some cols"
      "nt_fetch_positions t h = Some p"
    and pages: "dialogue (te_cipher E) srv (fetch_dialogue h (server_message_size t) p cs) bytes srv1"
      "list_all (chunk_ok (te_native E) cols) cs" "0 \<le> sint p" "sint p + sum_list (map (\<lambda>c. sint (ch_rows c)) cs) < 2 ^ 63"
    and conv: "list_all2 (\<lambda>c b. with_field_metadata R (ch_batch c) (qm_schema md) = Inr b) cs bs"
      "list_all (\<lambda>c. 0 < rb_num_rows (ch_batch c)) cs"
    and total: "0 < expected_rows md" "rb_num_rows b + sum_list (map (\<lambda>c. rb_num_rows (ch_batch c)) cs) = expected_rows md"
    and close: "serves (te_cipher E) srv1 (u32_to_le h) replies bytes' srv2" "final_reply (te_native E) replies response"
  shows "\<exists>t'. fetch_all R (native_protocol E W lt K) rs t = (Ready (Inr (b # bs)), t') \<and> facing srv2 rest t'
    \<and> nt_fetch_positions t' h = None \<and> nt_result_columns t' h = None"
proof -
  let ?ds = "map (\<lambda>c. arrow_data (to_column_info cols) (ch_batch c) (ch_rows c)) cs"
  obtain t1 where t1: "fetch_times E h (length cs) t = (Ready (Inr ?ds), t1)" "facing srv1 (bytes' @ rest) t1"
    "conn_state t1 = Authenticated"
    using fetch_times_dialogue [OF C t pages(1,2,3,4)] by blast
  then have f: "fetched (native_protocol E W lt K) h ?ds t t1" using fetched_times [of E h ?ds t t1] by simp
  have len: "length cs \<le> sum_list (map (\<lambda>c. rb_num_rows (ch_batch c)) cs)"
    using conv(2) by (induction cs) auto
  have "paginate_remaining R (native_protocol E W lt K) h md [b] t = (Ready (Inr ([b] @ bs)), t1)"
    unfolding paginate_remaining_def
    by (rule paginate_pages [OF R total(1) f])
      (use conv total len in \<open>auto simp: list_all2_map1 arrow_data_def payload_to_record_batch_def list_all_iff comp_def
        simp del: paginate.simps\<close>)
  moreover obtain t2 r where "close_result_set E h t1 = (Ready r, t2)" "r = Inr () \<or> (\<exists>e. r = fail e)"
    "facing srv2 rest t2" "nt_fetch_positions t2 h = None" "nt_result_columns t2 h = None"
    using close_result_set_answered [OF t1(3) C t1(2) close] by blast
  ultimately show ?thesis
    by (auto simp: rs fetch_all_def afinally_def aignore_def abind_def act_eval native_protocol_def)
qed

lemma with_field_metadata_columns:
  "batches_documented R \<Longrightarrow> with_field_metadata R batch schema = Inr b \<Longrightarrow> rb_columns b = rb_columns batch"
  by (auto simp: with_field_metadata_def split: if_splits dest: batch_try_new_rows(1))

text \<open>From the answer to a query on: the first rows came with it, the others are fetched.\<close>

lemma native_result_set:
  assumes R: "batches_documented R" and C: "stream_cipher (te_cipher E)"
    and rs: "from_transport_result R (QResultSet (Some h) d) = Inr rs" "build_schema (re_type_json R) (rd_columns d) = Inr schema"
    and t: "conn_state t = Authenticated" "facing srv (bytes @ bytes' @ rest) t" "nt_result_columns t h = Some cols"
      "nt_fetch_positions t h = Some p"
    and pages: "dialogue (te_cipher E) srv (fetch_dialogue h (server_message_size t) p cs) bytes srv1"
      "list_all (chunk_ok (te_native E) cols) cs" "0 \<le> sint p" "sint p + sum_list (map (\<lambda>c. sint (ch_rows c)) cs) < 2 ^ 63"
    and conv: "list_all2 (\<lambda>c b. with_field_metadata R (ch_batch c) schema = Inr b) cs bs"
      "list_all (\<lambda>c. 0 < rb_num_rows (ch_batch c)) cs"
    and total: "cs \<noteq> []"
      "int (payload_num_rows (rd_data d) + sum_list (map (\<lambda>c. rb_num_rows (ch_batch c)) cs)) = sint (rd_total_rows d)"
    and close: "serves (te_cipher E) srv1 (u32_to_le h) replies bytes' srv2" "final_reply (te_native E) replies response"
  shows "\<exists>b t'. fetch_all R (native_protocol E W lt K) rs t = (Ready (Inr (b # bs)), t')
    \<and> rb_num_rows b = payload_num_rows (rd_data d) \<and> map rb_columns bs = map (\<lambda>c. rb_columns (ch_batch c)) cs
    \<and> facing srv2 rest t' \<and> nt_fetch_positions t' h = None \<and> nt_result_columns t' h = None"
proof -
  let ?n = "payload_num_rows (rd_data d)" and ?md = "QueryMetadata_new schema (Some (rd_total_rows d))"
  obtain schema' b where b': "build_schema (re_type_json R) (rd_columns d) = Inr schema'"
    "rs = Stream (Some h) (QueryMetadata_new schema' (Some (rd_total_rows d))) [b]
      (Some h = None \<or> rd_total_rows d = of_nat ?n)" "rb_num_rows b = ?n"
    by (rule native_pages.first_batch [OF R rs(1)])
  then have b: "rs = Stream (Some h) ?md [b] (rd_total_rows d = of_nat ?n)" "rb_num_rows b = ?n"
    using rs(2) by simp_all
  have more: "0 < sum_list (map (\<lambda>c. rb_num_rows (ch_batch c)) cs)"
    using conv(2) total(1) by (cases cs) auto
  have "int ?n < sint (rd_total_rows d)" "sint (rd_total_rows d) < 2 ^ 63"
    using more total(2) sint_lt [of "rd_total_rows d"] by simp_all
  moreover from this have "sint (of_nat ?n :: i64) = int ?n"
    by (simp add: signed_of_nat signed_take_bit_int_eq_self)
  ultimately have "rd_total_rows d \<noteq> of_nat ?n" by auto
  then have rs': "rs = Stream (Some h) ?md [b] False" using b(1) by simp
  have exp: "0 < expected_rows ?md" "rb_num_rows b + sum_list (map (\<lambda>c. rb_num_rows (ch_batch c)) cs) = expected_rows ?md"
    using total(2) more b(2) by (simp_all add: expected_rows_def QueryMetadata_new_def)
  have conv': "list_all2 (\<lambda>c b. with_field_metadata R (ch_batch c) (qm_schema ?md) = Inr b) cs bs"
    using conv(1) by (simp add: QueryMetadata_new_def)
  have "map rb_columns bs = map (\<lambda>c. rb_columns (ch_batch c)) cs"
    using conv(1) by (induction rule: list_all2_induct) (auto dest: with_field_metadata_columns [OF R])
  with native_fetch_all [OF R C rs' t pages conv' conv(2) exp close] b(2) show ?thesis by blast
qed

end
