(* ===== verification/Statement.thy ===== *)
theory Statement
  imports Errors
begin

text \<open>
  SQL statements with positional parameters, \<open>src/query/statement.rs\<close>: the statement
  types, parameter values and their SQL literals, the scanner that finds the placeholders,
  and the substitution of the bound values.

  A Rust \<open>char\<close> is the \<^typ>\<open>string\<close> of its UTF-8 bytes. Two tables of the standard
  library are fields of \<open>text_env\<close>: the upper case of a character outside ASCII, and the
  decimal text of an \<open>f64\<close>.
\<close>

record text_env =
  upper_char :: "string \<Rightarrow> string"
  show_f64 :: "u64 \<Rightarrow> string"

subsection \<open>Characters of a text\<close>

definition is_ascii :: "char \<Rightarrow> bool" where
  "is_ascii c \<longleftrightarrow> (of_char c :: nat) < 128"

definition is_utf8_tail :: "char \<Rightarrow> bool" where
  "is_utf8_tail c \<longleftrightarrow> 128 \<le> (of_char c :: nat) \<and> (of_char c :: nat) < 192"

text \<open>\<open>str::char_indices\<close>, from the byte offset \<open>i\<close>.\<close>

function char_indices :: "nat \<Rightarrow> string \<Rightarrow> (nat \<times> string) list" where
  "char_indices i [] = []"
| "char_indices i (c # cs) =
    (if is_ascii c then (i, [c]) # char_indices (i + 1) cs
     else (let t = takeWhile is_utf8_tail cs in
       (i, c # t) # char_indices (i + 1 + length t) (dropWhile is_utf8_tail cs)))"
  by pat_completeness auto
termination
  by (relation "measure (length \<circ> snd)") (auto simp: less_Suc_eq_le length_dropWhile_le)

abbreviation text_chars :: "string \<Rightarrow> string list" where
  "text_chars s \<equiv> map snd (char_indices 0 s)"

definition to_ascii_uppercase :: "char \<Rightarrow> char" where
  "to_ascii_uppercase c =
    (if 97 \<le> (of_char c :: nat) \<and> (of_char c :: nat) \<le> 122 then char_of ((of_char c :: nat) - 32) else c)"

text \<open>\<open>char::to_uppercase\<close> and \<open>str::to_uppercase\<close>.\<close>

definition char_to_uppercase :: "text_env \<Rightarrow> string \<Rightarrow> string" where
  "char_to_uppercase T u = (case u of
      [c] \<Rightarrow> if is_ascii c then [to_ascii_uppercase c] else upper_char T u
    | _ \<Rightarrow> upper_char T u)"

definition to_uppercase :: "text_env \<Rightarrow> string \<Rightarrow> string" where
  "to_uppercase T s = concat (map (char_to_uppercase T) (text_chars s))"

text \<open>\<open>char::is_whitespace\<close>: the characters with the Unicode property White\_Space.\<close>

definition utf8_of :: "nat list \<Rightarrow> string" where
  "utf8_of bs = map char_of bs"

definition is_whitespace :: "string \<Rightarrow> bool" where
  "is_whitespace u \<longleftrightarrow>
    u \<in> set (map utf8_of [[9], [10], [11], [12], [13], [32], [194, 133], [194, 160], [225, 154, 128],
      [226, 128, 168], [226, 128, 169], [226, 128, 175], [226, 129, 159], [227, 128, 128]])
    \<or> u \<in> set (map (\<lambda>b. utf8_of [226, 128, b]) [128..<139])"

definition trim_start :: "string \<Rightarrow> string" where
  "trim_start s = concat (dropWhile is_whitespace (text_chars s))"

definition starts_with :: "string \<Rightarrow> string \<Rightarrow> bool" where
  "starts_with s p \<longleftrightarrow> take (length p) s = p"

fun contains :: "string \<Rightarrow> string \<Rightarrow> bool" where
  "contains [] p \<longleftrightarrow> p = []"
| "contains (c # s) p \<longleftrightarrow> starts_with (c # s) p \<or> contains s p"

text \<open>\<open>str::replace\<close> of one character by a text.\<close>

definition replace_char :: "char \<Rightarrow> string \<Rightarrow> string \<Rightarrow> string" where
  "replace_char a r s = concat (map (\<lambda>c. if c = a then r else [c]) s)"

subsection \<open>Statement types\<close>

datatype StatementType = Select | Insert | Update | Delete | Ddl | Transaction | Other

definition from_sql :: "text_env \<Rightarrow> string \<Rightarrow> StatementType" where
  "from_sql T sql = (let trimmed = to_uppercase T (trim_start sql); starts = starts_with trimmed in
     if starts ''SELECT'' \<or> starts ''WITH'' then Select
     else if starts ''INSERT'' then Insert
     else if starts ''UPDATE'' then Update
     else if starts ''DELETE'' then Delete
     else if starts ''CREATE'' \<or> starts ''ALTER'' \<or> starts ''DROP'' \<or> starts ''TRUNCATE'' then Ddl
     else if starts ''BEGIN'' \<or> starts ''COMMIT'' \<or> starts ''ROLLBACK'' then Transaction
     else Other)"

definition returns_result_set :: "StatementType \<Rightarrow> bool" where
  "returns_result_set t \<longleftrightarrow> t = Select"

definition returns_row_count :: "StatementType \<Rightarrow> bool" where
  "returns_row_count t \<longleftrightarrow> t = Insert \<or> t = Update \<or> t = Delete"

subsection \<open>Parameter values\<close>

datatype Parameter =
    PNull
  | PBoolean bool
  | PInteger i64
  | PFloat u64
  | PString string
  | PBinary "byte list"

definition injection_patterns :: "string list" where
  "injection_patterns =
    [ CHR 0x27 # ''; DROP'', CHR 0x27 # ''; DELETE'', CHR 0x27 # ''; UPDATE'', CHR 0x27 # ''; INSERT'',
      CHR 0x27 # '' OR '' @ [CHR 0x27] @ ''1'' @ [CHR 0x27, CHR ''='', CHR 0x27] @ ''1'',
      CHR 0x27 # '' OR 1=1'', CHR 0x27 # '' OR TRUE'', ''UNION SELECT'', ''EXEC('', ''EXECUTE('' ]"

definition contains_sql_injection_pattern :: "text_env \<Rightarrow> string \<Rightarrow> bool" where
  "contains_sql_injection_pattern T s =
    (let upper = to_uppercase T s in list_ex (contains upper) injection_patterns)"

text \<open>\<open>f64::is_nan\<close> or \<open>f64::is_infinite\<close>: all bits of the exponent are set.\<close>

definition f64_not_finite :: "u64 \<Rightarrow> bool" where
  "f64_not_finite f \<longleftrightarrow> unat f div 2 ^ 52 mod 2 ^ 11 = 2047"

text \<open>\<open>hex::encode\<close>.\<close>

definition hex_char :: "nat \<Rightarrow> char" where
  "hex_char n = (if n < 10 then digit_char n else char_of (87 + n))"

definition hex_encode :: "byte list \<Rightarrow> string" where
  "hex_encode bs = concat (map (\<lambda>b. [hex_char (unat b div 16), hex_char (unat b mod 16)]) bs)"

definition quoted :: "string \<Rightarrow> string" where
  "quoted s = CHR 0x27 # s @ [CHR 0x27]"

definition to_sql_literal :: "text_env \<Rightarrow> Parameter \<Rightarrow> (QueryError, string) result" where
  "to_sql_literal T p = (case p of
      PNull \<Rightarrow> Inr ''NULL''
    | PBoolean b \<Rightarrow> Inr (if b then ''TRUE'' else ''FALSE'')
    | PInteger i \<Rightarrow> Inr (show_int (sint i))
    | PFloat f \<Rightarrow>
        if f64_not_finite f then fail (ParameterBindingError 0 ''NaN and Infinity are not supported'')
        else Inr (show_f64 T f)
    | PString s \<Rightarrow>
        if contains_sql_injection_pattern T s then fail SqlInjectionDetected
        else Inr (quoted (replace_char (CHR 0x27) [CHR 0x27, CHR 0x27] s))
    | PBinary b \<Rightarrow> Inr (quoted (hex_encode b)))"

subsection \<open>The placeholder scanner\<close>

datatype ScanState = Normal | SingleQuoted | DoubleQuoted | LineComment | BlockComment

record ScanStep =
  ss_state :: ScanState
  is_placeholder :: bool
  consumed_pair :: bool

definition go :: "ScanState \<Rightarrow> ScanStep" where
  "go st = \<lparr>ss_state = st, is_placeholder = False, consumed_pair = False\<rparr>"

definition go_past_pair :: "ScanState \<Rightarrow> ScanStep" where
  "go_past_pair st = \<lparr>ss_state = st, is_placeholder = False, consumed_pair = True\<rparr>"

definition placeholder :: ScanStep where
  "placeholder = \<lparr>ss_state = Normal, is_placeholder = True, consumed_pair = False\<rparr>"

definition step_outside_literal :: "string \<Rightarrow> char option \<Rightarrow> ScanStep" where
  "step_outside_literal c following =
    (if c = ''?'' then placeholder
     else if c = [CHR 0x27] then go SingleQuoted
     else if c = [CHR 0x22] then go DoubleQuoted
     else if c = ''-'' \<and> following = Some (CHR ''-'') then go_past_pair LineComment
     else if c = ''/'' \<and> following = Some (CHR ''*'') then go_past_pair BlockComment
     else go Normal)"

definition step_inside_quotes :: "ScanState \<Rightarrow> char \<Rightarrow> string \<Rightarrow> char option \<Rightarrow> ScanStep" where
  "step_inside_quotes st quote c following =
    (if c \<noteq> [quote] then go st
     else if following = Some quote then go_past_pair st
     else go Normal)"

definition step_inside_line_comment :: "string \<Rightarrow> ScanStep" where
  "step_inside_line_comment c = (if c = [CHR 0x0A] then go Normal else go LineComment)"

definition step_inside_block_comment :: "string \<Rightarrow> char option \<Rightarrow> ScanStep" where
  "step_inside_block_comment c following =
    (if c = ''*'' \<and> following = Some (CHR ''/'') then go_past_pair Normal else go BlockComment)"

definition scan_step :: "ScanState \<Rightarrow> string \<Rightarrow> char option \<Rightarrow> ScanStep" where
  "scan_step st c following = (case st of
      Normal \<Rightarrow> step_outside_literal c following
    | SingleQuoted \<Rightarrow> step_inside_quotes st (CHR 0x27) c following
    | DoubleQuoted \<Rightarrow> step_inside_quotes st (CHR 0x22) c following
    | LineComment \<Rightarrow> step_inside_line_comment c
    | BlockComment \<Rightarrow> step_inside_block_comment c following)"

text \<open>\<open>bytes.get(i)\<close>.\<close>

definition byte_at :: "string \<Rightarrow> nat \<Rightarrow> char option" where
  "byte_at s i = (if i < length s then Some (s ! i) else None)"

text \<open>The loop of \<open>scan_placeholders\<close> over what the iterator still yields.\<close>

function scan_loop :: "string \<Rightarrow> ScanState \<Rightarrow> (nat \<times> string) list \<Rightarrow> nat list" where
  "scan_loop bytes st [] = []"
| "scan_loop bytes st ((i, c) # iter) =
    (let step = scan_step st c (byte_at bytes (i + 1));
         positions = scan_loop bytes (ss_state step) (if consumed_pair step then drop 1 iter else iter)
     in if is_placeholder step then i # positions else positions)"
  by pat_completeness auto
termination
  by (relation "measure (\<lambda>(_, _, iter). length iter)") auto

definition scan_placeholders :: "string \<Rightarrow> nat list" where
  "scan_placeholders sql = scan_loop sql Normal (char_indices 0 sql)"

subsection \<open>Statements\<close>

record Statement =
  st_sql :: string
  st_parameters :: "Parameter option list"
  st_timeout_ms :: "u64 option"
  st_statement_type :: StatementType

definition Statement_new :: "text_env \<Rightarrow> string \<Rightarrow> Statement" where
  "Statement_new T sql =
    \<lparr>st_sql = sql, st_parameters = [], st_timeout_ms = None, st_statement_type = from_sql T sql\<rparr>"

definition set_timeout :: "u64 \<Rightarrow> Statement \<Rightarrow> Statement" where
  "set_timeout ms st = st\<lparr>st_timeout_ms := Some ms\<rparr>"

text \<open>\<open>Vec::resize\<close> with \<open>None\<close>.\<close>

definition resize :: "nat \<Rightarrow> 'a option list \<Rightarrow> 'a option list" where
  "resize n xs = take n xs @ replicate (n - length xs) None"

text \<open>
  \<open>index + 1\<close> overflows for the largest \<open>usize\<close>: with or without overflow checks the call
  panics, the second time at the index of the emptied list.
\<close>

definition bind_parameter :: "nat \<Rightarrow> Parameter \<Rightarrow> Statement \<Rightarrow> (QueryError, Statement) result" where
  "bind_parameter index v st =
    (if 2 ^ 64 \<le> index + 1 then Inl Panic
     else (let ps = (if length (st_parameters st) \<le> index then resize (index + 1) (st_parameters st)
                     else st_parameters st)
           in Inr (st\<lparr>st_parameters := ps[index := Some v]\<rparr>)))"

primrec bind_from :: "nat \<Rightarrow> Parameter list \<Rightarrow> Statement \<Rightarrow> (QueryError, Statement) result" where
  "bind_from i [] st = Inr st"
| "bind_from i (p # ps) st = rbind (bind_parameter i p st) (bind_from (i + 1) ps)"

definition bind_all :: "Parameter list \<Rightarrow> Statement \<Rightarrow> (QueryError, Statement) result" where
  "bind_all ps st = bind_from 0 ps st"

definition clear_parameters :: "Statement \<Rightarrow> Statement" where
  "clear_parameters st = st\<lparr>st_parameters := []\<rparr>"

subsection \<open>The final SQL\<close>

text \<open>
  \<open>String::replace_range(pos..pos + 1, text)\<close>; it panics outside the text. Every position
  the scanner reports is that of an ASCII byte, so the bounds are character boundaries.
\<close>

definition replace_range :: "string \<Rightarrow> nat \<Rightarrow> string \<Rightarrow> (QueryError, string) result" where
  "replace_range s pos lit = (if pos < length s then Inr (take pos s @ lit @ drop (pos + 1) s) else Inl Panic)"

text \<open>\<open>self.parameters[i].as_ref().ok_or_else(...)\<close>.\<close>

definition bound_parameter :: "Parameter option list \<Rightarrow> nat \<Rightarrow> (QueryError, Parameter) result" where
  "bound_parameter params i =
    (if i < length params
     then (case params ! i of None \<Rightarrow> fail (ParameterBindingError i ''Parameter not bound'') | Some p \<Rightarrow> Inr p)
     else Inl Panic)"

primrec substitute :: "text_env \<Rightarrow> Parameter option list \<Rightarrow> (nat \<times> nat) list \<Rightarrow> string \<Rightarrow> (QueryError, string) result" where
  "substitute T params [] sql = Inr sql"
| "substitute T params (x # xs) sql = (case x of (param_index, pos) \<Rightarrow>
    rbind (bound_parameter params param_index) (\<lambda>param.
    rbind (to_sql_literal T param) (\<lambda>literal.
    rbind (replace_range sql pos literal) (\<lambda>sql'. substitute T params xs sql'))))"

definition build_sql :: "text_env \<Rightarrow> Statement \<Rightarrow> (QueryError, string) result" where
  "build_sql T st =
    (let positions = scan_placeholders (st_sql st); n = length (st_parameters st) in
     if length positions > n then fail (ParameterBindingError n ''Not enough parameters bound'')
     else substitute T (st_parameters st) (rev (enumerate 0 positions)) (st_sql st))"

end
