(* ===== verification/Prepared.thy ===== *)
theory Prepared
  imports Statement Messages
begin

text \<open>
  Prepared statements on the client, \<open>src/query/prepared.rs\<close>: the parameters bound to a
  server-side handle and their conversion to the columns of JSON values the transports
  take.
\<close>

record PreparedStatement =
  pr_handle :: PreparedStatementHandle
  pr_parameters :: "Parameter option list"
  pr_closed :: bool

text \<open>
  \<open>num_params as usize\<close>. A negative count becomes a number next to \<open>2 ^ 64\<close>, for which
  \<open>vec![None; n]\<close> panics with a capacity overflow.
\<close>

definition PreparedStatement_new :: "PreparedStatementHandle \<Rightarrow> (QueryError, PreparedStatement) result" where
  "PreparedStatement_new h =
    (let n = i32_as_usize (num_params h) in
     if 2 ^ 63 \<le> n then Inl Panic
     else Inr \<lparr>pr_handle = h, pr_parameters = replicate n None, pr_closed = False\<rparr>)"

definition parameter_count :: "PreparedStatement \<Rightarrow> nat" where
  "parameter_count st = i32_as_usize (num_params (pr_handle st))"

definition mark_closed :: "PreparedStatement \<Rightarrow> PreparedStatement" where
  "mark_closed st = st\<lparr>pr_closed := True\<rparr>"

definition prepared_bind ::
  "nat \<Rightarrow> Parameter \<Rightarrow> PreparedStatement \<Rightarrow> (QueryError, PreparedStatement) result" where
  "prepared_bind index v st =
    (let n = length (pr_parameters st) in
     if n \<le> index then
       fail (ParameterBindingError index (''Parameter index '' @ show_nat index @
         '' out of bounds (statement has '' @ show_nat n @ '' parameters)''))
     else Inr (st\<lparr>pr_parameters := (pr_parameters st)[index := Some v]\<rparr>))"

definition prepared_clear :: "PreparedStatement \<Rightarrow> PreparedStatement" where
  "prepared_clear st = st\<lparr>pr_parameters := map (\<lambda>_. None) (pr_parameters st)\<rparr>"

subsection \<open>Parameters as JSON\<close>

text \<open>
  \<open>json!\<close> of an \<open>i64\<close> is a number with or without a sign; \<open>json!\<close> of a float that is not
  finite is null.
\<close>

definition parameter_to_json :: "Parameter \<Rightarrow> json" where
  "parameter_to_json p = (case p of
      PNull \<Rightarrow> JNull
    | PBoolean b \<Rightarrow> JBool b
    | PInteger i \<Rightarrow> if 0 \<le> sint i then JPosInt i else JNegInt i
    | PFloat f \<Rightarrow> if f64_not_finite f then JNull else JFloat f
    | PString s \<Rightarrow> JString s
    | PBinary b \<Rightarrow> JString (hex_encode b))"

primrec check_rows :: "nat \<Rightarrow> nat \<Rightarrow> Parameter list list \<Rightarrow> (QueryError, unit) result" where
  "check_rows expected i [] = Inr ()"
| "check_rows expected i (row # rows) =
    (if length row \<noteq> expected then
       fail (ParameterBindingError i (''Row '' @ show_nat i @ '' has '' @ show_nat (length row) @
         '' parameters but statement expects '' @ show_nat expected))
     else check_rows expected (i + 1) rows)"

definition build_batch_parameters_data ::
  "PreparedStatement \<Rightarrow> Parameter list list \<Rightarrow> (QueryError, json list list option) result" where
  "build_batch_parameters_data st rows =
    (if rows = [] then Inr None
     else (let expected = parameter_count st in
       rbind (check_rows expected 0 rows) (\<lambda>_.
         Inr (Some (map (\<lambda>c. map (\<lambda>row. parameter_to_json (row ! c)) rows) [0..<expected])))))"

primrec check_bound :: "nat \<Rightarrow> Parameter option list \<Rightarrow> (QueryError, unit) result" where
  "check_bound i [] = Inr ()"
| "check_bound i (p # ps) =
    (if p = None then fail (ParameterBindingError i (''Parameter '' @ show_nat i @ '' is not bound''))
     else check_bound (i + 1) ps)"

definition build_parameters_data :: "PreparedStatement \<Rightarrow> (QueryError, json list list option) result" where
  "build_parameters_data st =
    (if pr_parameters st = [] then Inr None
     else rbind (check_bound 0 (pr_parameters st)) (\<lambda>_.
       Inr (Some (map (\<lambda>p. [parameter_to_json (the p)]) (pr_parameters st)))))"

subsection \<open>Laws\<close>

lemma check_rows_ok: "check_rows n i rows = Inr u \<longleftrightarrow> list_all (\<lambda>row. length row = n) rows"
  by (induction rows arbitrary: i) auto

text \<open>The first row of another length is the one reported.\<close>

lemma check_rows_error:
  "list_all (\<lambda>row. length row = n) rows \<Longrightarrow> length row \<noteq> n \<Longrightarrow>
    check_rows n i (rows @ row # rest) = fail (ParameterBindingError (i + length rows)
      (''Row '' @ show_nat (i + length rows) @ '' has '' @ show_nat (length row) @
       '' parameters but statement expects '' @ show_nat n))"
  by (induction rows arbitrary: i) auto

lemma check_bound_ok: "check_bound i ps = Inr u \<longleftrightarrow> None \<notin> set ps"
  by (induction ps arbitrary: i) auto

text \<open>Rows become columns: the value of row \<open>r\<close> and column \<open>c\<close> stays where it was.\<close>

lemma build_batch_columns:
  assumes "build_batch_parameters_data st rows = Inr (Some cols)"
  shows "length cols = parameter_count st"
    and "c < parameter_count st \<Longrightarrow> length (cols ! c) = length rows"
    and "c < parameter_count st \<Longrightarrow> r < length rows \<Longrightarrow> cols ! c ! r = parameter_to_json (rows ! r ! c)"
  using assms
  by (auto simp: build_batch_parameters_data_def Let_def rbind_Inr_iff split: if_splits)

text \<open>A single row is a batch of one row.\<close>

lemma build_parameters_single_row:
  assumes "parameter_count st = length (pr_parameters st)" and "pr_parameters st \<noteq> []"
    and "None \<notin> set (pr_parameters st)"
  shows "build_parameters_data st = build_batch_parameters_data st [map the (pr_parameters st)]"
proof -
  have bound: "check_bound 0 (pr_parameters st) = Inr ()" using assms(3) by (simp add: check_bound_ok)
  have "map (\<lambda>p. [parameter_to_json (the p)]) (pr_parameters st) =
      map (\<lambda>c. [parameter_to_json (map the (pr_parameters st) ! c)]) [0..<length (pr_parameters st)]"
    by (rule nth_equalityI) simp_all
  then show ?thesis using assms(1,2) bound
    by (simp add: build_parameters_data_def build_batch_parameters_data_def)
qed

end
