(* ===== verification/Session.thy ===== *)
theory Session
  imports Messages Actions
begin

text \<open>
  The session of a connection, \<open>src/connection/session.rs\<close>, and the release version of the
  server, \<open>src/connection/version.rs\<close>. The methods take \<open>&self\<close> and keep their state in a
  lock and in atomics; the connection calls them one after the other through
  \<open>&mut self\<close>, so each is a function of the whole session. A \<open>Duration\<close> is a number
  of nanoseconds.
\<close>

subsection \<open>Release versions\<close>

type_synonym version = "nat \<times> nat \<times> nat"

text \<open>\<open>str::split\<close> yields at least one part.\<close>

definition parse_release_version :: "string \<Rightarrow> version option" where
  "parse_release_version s = (case split_on (CHR ''.'') s of
      major # minor # rest \<Rightarrow>
        (case parse_u32 major of None \<Rightarrow> None | Some ma \<Rightarrow>
        (case parse_u32 minor of None \<Rightarrow> None | Some mi \<Rightarrow>
        (case rest of
           [] \<Rightarrow> Some (ma, mi, 0)
         | raw # _ \<Rightarrow> (let digits = takeWhile is_ascii_digit raw in
             if digits = [] then None
             else map_option (\<lambda>patch. (ma, mi, patch)) (parse_u32 digits)))))
    | _ \<Rightarrow> None)"

text \<open>Tuples are compared lexicographically.\<close>

fun version_le :: "version \<Rightarrow> version \<Rightarrow> bool" where
  "version_le (a, b, c) (x, y, z) \<longleftrightarrow> a < x \<or> a = x \<and> (b < y \<or> b = y \<and> c \<le> z)"

fun version_supports_at_least :: "version \<Rightarrow> nat \<Rightarrow> nat \<Rightarrow> bool" where
  "version_supports_at_least (a, b, c) major minor \<longleftrightarrow> major < a \<or> major = a \<and> minor \<le> b"

definition version_supports_native_parquet :: "version \<Rightarrow> bool" where
  "version_supports_native_parquet v = version_le (2025, 1, 11) v"

subsection \<open>The session\<close>

record SessionConfig =
  max_retries :: u32
  auto_commit :: bool
  default_fetch_size :: nat
  sc_query_timeout :: "nat option"

definition SessionConfig_default :: SessionConfig where
  "SessionConfig_default =
    \<lparr>max_retries = 3, auto_commit = True, default_fetch_size = 1000, sc_query_timeout = None\<rparr>"

datatype SessionState = SReady | SInTransaction | SClosing | SClosed

definition can_execute :: "SessionState \<Rightarrow> bool" where
  "can_execute st \<longleftrightarrow> st = SReady \<or> st = SInTransaction"

record AuthResponseData =
  ar_session_id :: string
  ar_protocol_version :: i32
  ar_release_version :: string
  ar_database_name :: string
  ar_product_name :: string
  ar_max_data_message_size :: i64
  ar_max_identifier_length :: i32
  ar_max_varchar_length :: i64
  ar_identifier_quote_string :: string
  ar_time_zone :: string
  ar_time_zone_behavior :: string

record Session =
  se_session_id :: string
  se_server_info :: AuthResponseData
  se_config :: SessionConfig
  se_state :: SessionState
  se_query_count :: u64
  se_in_transaction :: bool
  se_release_version :: "version option option"

definition Session_new :: "string \<Rightarrow> AuthResponseData \<Rightarrow> SessionConfig \<Rightarrow> Session" where
  "Session_new sid info config = \<lparr>se_session_id = sid, se_server_info = info, se_config = config,
    se_state = SReady, se_query_count = 0, se_in_transaction = False, se_release_version = None\<rparr>"

text \<open>\<open>OnceLock::get_or_init\<close>: the version is parsed at the first call and kept.\<close>

definition parsed_release_version :: "Session \<Rightarrow> version option \<times> Session" where
  "parsed_release_version s = (case se_release_version s of
      Some v \<Rightarrow> (v, s)
    | None \<Rightarrow> (let v = parse_release_version (ar_release_version (se_server_info s))
              in (v, s\<lparr>se_release_version := Some v\<rparr>)))"

definition session_supports_native_parquet :: "Session \<Rightarrow> bool \<times> Session" where
  "session_supports_native_parquet s = (case parsed_release_version s of (v, s') \<Rightarrow>
    (case v of None \<Rightarrow> False | Some v \<Rightarrow> version_supports_native_parquet v, s'))"

definition session_supports_at_least :: "nat \<Rightarrow> nat \<Rightarrow> nat \<Rightarrow> Session \<Rightarrow> bool \<times> Session" where
  "session_supports_at_least major minor patch s = (case parsed_release_version s of (v, s') \<Rightarrow>
    (case v of None \<Rightarrow> False | Some v \<Rightarrow> version_le (major, minor, patch) v, s'))"

definition session_set_state :: "SessionState \<Rightarrow> Session \<Rightarrow> Session" where
  "session_set_state st s = s\<lparr>se_state := st\<rparr>"

text \<open>
  \<open>fetch_add(1) + 1\<close>: the counter wraps, the sum of the return value overflows when the
  counter did.
\<close>

definition increment_query_count :: "bool \<Rightarrow> ('e, Session, u64) task" where
  "increment_query_count ovf s =
    (Ready (if ovf \<and> se_query_count s = - 1 then Inl Panic else Inr (se_query_count s + 1)),
     s\<lparr>se_query_count := se_query_count s + 1\<rparr>)"

definition validate_ready :: "Session \<Rightarrow> (ConnectionError, unit) result" where
  "validate_ready s = (if can_execute (se_state s) then Inr () else fail ConnectionClosed)"

definition ensure_can_begin_transaction :: "Session \<Rightarrow> (ConnectionError, unit) result" where
  "ensure_can_begin_transaction s = rbind (validate_ready s) (\<lambda>_.
    if se_in_transaction s then fail (InvalidParameter ''transaction'' ''Transaction already active'')
    else Inr ())"

definition session_begin_transaction :: "(ConnectionError, Session, unit) task" where
  "session_begin_transaction =
    abind (areads ensure_can_begin_transaction) (\<lambda>_.
    abind (amodify (\<lambda>s. s\<lparr>se_in_transaction := True\<rparr>)) (\<lambda>_.
      amodify (session_set_state SInTransaction)))"

definition commit_transaction :: "(ConnectionError, Session, unit) task" where
  "commit_transaction s =
    (if \<not> se_in_transaction s then areturn () s
     else abind (amodify (\<lambda>s. s\<lparr>se_in_transaction := False\<rparr>)) (\<lambda>_. amodify (session_set_state SReady)) s)"

definition rollback_transaction :: "(ConnectionError, Session, unit) task" where
  "rollback_transaction s =
    (if \<not> se_in_transaction s then areturn () s
     else abind (amodify (\<lambda>s. s\<lparr>se_in_transaction := False\<rparr>)) (\<lambda>_. amodify (session_set_state SReady)) s)"

definition session_close :: "(ConnectionError, Session, unit) task" where
  "session_close =
    abind (amodify (session_set_state SClosing)) (\<lambda>_.
    abind (amodify (\<lambda>s. if se_in_transaction s then s\<lparr>se_in_transaction := False\<rparr> else s)) (\<lambda>_.
      amodify (session_set_state SClosed)))"

definition session_is_closed :: "Session \<Rightarrow> bool" where
  "session_is_closed s \<longleftrightarrow> se_state s = SClosed"

subsection \<open>Laws\<close>

lemma parse_u32_show: "n < 4294967296 \<Longrightarrow> parse_unsigned 4294967295 (show_nat n) = Some n"
  using parse_unsigned_digits [OF parse_digits_show, of 4294967295 n] by simp

lemma no_dot_show_nat: "CHR ''.'' \<notin> set (show_nat n)"
  using show_nat_digits [of n] by (auto simp: list_all_iff)

lemma takeWhile_digits:
  "s = [] \<or> \<not> is_ascii_digit (hd s) \<Longrightarrow> takeWhile is_ascii_digit (show_nat n @ s) = show_nat n"
proof -
  assume s: "s = [] \<or> \<not> is_ascii_digit (hd s)"
  have "\<forall>c\<in>set (show_nat n). is_ascii_digit c"
    using show_nat_digits [of n] by (simp add: list_all_iff)
  then show ?thesis using s by (cases s) (auto simp: takeWhile_append2)
qed

text \<open>A version parses whatever follows the digits of its patch number.\<close>

lemma parse_release_version_show:
  assumes "major < 2 ^ 32" "minor < 2 ^ 32" "patch < 2 ^ 32"
    and "suffix = [] \<or> \<not> is_ascii_digit (hd suffix)"
  shows "parse_release_version (show_nat major @ ''.'' @ show_nat minor @ ''.'' @ show_nat patch @ suffix) =
    Some (major, minor, patch)"
proof -
  obtain raw rest where raw: "split_on (CHR ''.'') (show_nat patch @ suffix) = raw # rest"
    by (cases "split_on (CHR ''.'') (show_nat patch @ suffix)") auto
  have "takeWhile is_ascii_digit raw = show_nat patch"
  proof (cases "CHR ''.'' \<in> set suffix")
    case False
    then have "raw = show_nat patch @ suffix"
      using raw no_dot_show_nat split_on_no_sep [of "CHR ''.''" "show_nat patch @ suffix"] by auto
    then show ?thesis using takeWhile_digits [OF assms(4)] by simp
  next
    case True
    then obtain a b where ab: "suffix = a @ CHR ''.'' # b" "CHR ''.'' \<notin> set a"
      by (metis split_list_first)
    then have "raw = show_nat patch @ a"
      using raw no_dot_show_nat split_on_sep [of "CHR ''.''" "show_nat patch @ a" b] by auto
    moreover have "a = [] \<or> \<not> is_ascii_digit (hd a)"
      using assms(4) ab(1) by (cases a) auto
    ultimately show ?thesis using takeWhile_digits by simp
  qed
  then show ?thesis
    using assms raw no_dot_show_nat
    by (simp add: parse_release_version_def split_on_sep parse_u32_show)
qed

text \<open>In every state the two records of an open transaction agree.\<close>

definition session_ok :: "Session \<Rightarrow> bool" where
  "session_ok s \<longleftrightarrow> (se_in_transaction s \<longleftrightarrow> se_state s = SInTransaction)"

lemma session_ok_new: "session_ok (Session_new sid info config)"
  by (simp add: session_ok_def Session_new_def)

lemma session_begin_cases:
  "session_begin_transaction s =
    (if \<not> can_execute (se_state s) then (Ready (fail ConnectionClosed), s)
     else if se_in_transaction s
     then (Ready (fail (InvalidParameter ''transaction'' ''Transaction already active'')), s)
     else (Ready (Inr ()), s\<lparr>se_in_transaction := True, se_state := SInTransaction\<rparr>))"
  by (simp add: session_begin_transaction_def ensure_can_begin_transaction_def validate_ready_def
      session_set_state_def act_simps)

lemma session_end_cases:
  "commit_transaction s =
    (Ready (Inr ()), if se_in_transaction s then s\<lparr>se_in_transaction := False, se_state := SReady\<rparr> else s)"
  "rollback_transaction s =
    (Ready (Inr ()), if se_in_transaction s then s\<lparr>se_in_transaction := False, se_state := SReady\<rparr> else s)"
  by (simp_all add: commit_transaction_def rollback_transaction_def session_set_state_def act_simps)

lemma session_close_cases:
  "session_close s = (Ready (Inr ()), s\<lparr>se_in_transaction := False, se_state := SClosed\<rparr>)"
  by (simp add: session_close_def session_set_state_def act_simps)

lemmas session_cases = session_begin_cases session_end_cases session_close_cases

lemma session_ok_steps:
  assumes "session_ok s"
  shows "session_ok (snd (session_begin_transaction s))" "session_ok (snd (commit_transaction s))"
    "session_ok (snd (rollback_transaction s))" "session_ok (snd (session_close s))"
    "session_ok (snd (increment_query_count ovf s))"
  using assms by (auto simp: session_ok_def session_cases can_execute_def increment_query_count_def)

end
