(* ===== verification/Connection.thy ===== *)
theory Connection
  imports Statement Prepared Session Results
begin

text \<open>
  The connection of \<open>src/adbc/connection.rs\<close>: a transport, a session and the connection
  parameters. Statements are executed with the query timeout of the session reconciled
  first; prepared statements, transactions, the current schema, the metadata queries and
  the setup and end of a connection follow. Every method is a task on the connection, over
  any implementation of the transport protocol. The parameters of the layers below are
  collected in \<open>driver_env\<close>.
\<close>

record driver_env =
  de_text :: text_env
  de_results :: result_env

definition de_overflow_checks :: "driver_env \<Rightarrow> bool" where
  "de_overflow_checks D = re_overflow_checks (de_results D)"

text \<open>\<open>ConnectionParams\<close> of \<open>src/connection/params.rs\<close>; durations in nanoseconds.\<close>

record DriverParams =
  dp_host :: string
  dp_port :: u16
  dp_username :: string
  dp_password :: string
  dp_schema :: "string option"
  dp_connection_timeout :: nat
  dp_query_timeout :: "nat option"
  dp_use_tls :: bool
  dp_validate_server_certificate :: bool
  dp_certificate_fingerprint :: "string option"
  dp_client_name :: string
  dp_client_version :: string
  dp_transport :: "string option"

record 't Connection =
  co_transport :: 't
  co_session :: Session
  co_params :: DriverParams

type_synonym ('t, 'a) conn_task = "(QueryError, 't Connection, 'a) task"

subsection \<open>Calls of the parts\<close>

definition on_transport :: "('e, 't, 'a) task \<Rightarrow> ('e, 't Connection, 'a) task" where
  "on_transport m c = (case m (co_transport c) of (p, t) \<Rightarrow> (p, c\<lparr>co_transport := t\<rparr>))"

definition on_session :: "('e, Session, 'a) task \<Rightarrow> ('e, 't Connection, 'a) task" where
  "on_session m c = (case m (co_session c) of (p, s) \<Rightarrow> (p, c\<lparr>co_session := s\<rparr>))"

text \<open>A result that is looked at later: only a panic ends the method at once.\<close>

definition acatch :: "('e, 's, 'a) task \<Rightarrow> ('f, 's, 'e + 'a) task" where
  "acatch m s = (case m s of
      (Ready (Inr x), s') \<Rightarrow> (Ready (Inr (Inr x)), s')
    | (Ready (Inl (Failure e)), s') \<Rightarrow> (Ready (Inr (Inl e)), s')
    | (Ready (Inl Panic), s') \<Rightarrow> (Ready (Inl Panic), s')
    | (Ready (Inl Diverged), s') \<Rightarrow> (Ready (Inl Diverged), s')
    | (Pending, s') \<Rightarrow> (Pending, s'))"

abbreviation failed_execution :: "TransportError \<Rightarrow> QueryError" where
  "failed_execution e \<equiv> ExecutionFailed (show_transport_error e)"

definition require_ready :: "('t, unit) conn_task" where
  "require_ready = areads (\<lambda>c. map_err (\<lambda>e. InvalidState (show_connection_error e)) (validate_ready (co_session c)))"

subsection \<open>Query timeouts\<close>

definition secs_ceil :: "nat \<Rightarrow> u64" where
  "secs_ceil d = (let secs = d div 1000000000 in
    of_nat (if 0 < d mod 1000000000 then min (secs + 1) (2 ^ 64 - 1) else secs))"

definition from_millis :: "u64 \<Rightarrow> nat" where
  "from_millis ms = unat ms * 1000000"

definition saturating_mul_u64 :: "u64 \<Rightarrow> nat \<Rightarrow> u64" where
  "saturating_mul_u64 x k = of_nat (min (unat x * k) (2 ^ 64 - 1))"

definition map_execution_error :: "TransportError \<Rightarrow> u64 \<Rightarrow> QueryError" where
  "map_execution_error err ms =
    (let message = show_transport_error err in
     if ms \<noteq> 0 \<and> (contains message ''R0001'' \<or> contains message ''Query terminated because timeout has been reached'')
     then QueryTimeout ms else ExecutionFailed message)"

definition create_statement :: "driver_env \<Rightarrow> string \<Rightarrow> 't Connection \<Rightarrow> Statement" where
  "create_statement D sql c =
    (let stmt = Statement_new (de_text D) sql in
     case dp_query_timeout (co_params c) of
       None \<Rightarrow> stmt
     | Some d \<Rightarrow> set_timeout (of_nat (min (d div 1000000) (2 ^ 64 - 1))) stmt)"

definition target_secs :: "Statement \<Rightarrow> u64" where
  "target_secs stmt = (case st_timeout_ms stmt of Some ms \<Rightarrow> secs_ceil (from_millis ms) | None \<Rightarrow> 0)"

definition applied_secs :: "Session \<Rightarrow> u64" where
  "applied_secs s = (case sc_query_timeout (se_config s) of Some d \<Rightarrow> secs_ceil d | None \<Rightarrow> 0)"

definition record_timeout :: "Statement \<Rightarrow> 't Connection \<Rightarrow> 't Connection" where
  "record_timeout stmt c = c\<lparr>co_session := (co_session c)\<lparr>se_config :=
    (se_config (co_session c))\<lparr>sc_query_timeout := map_option from_millis (st_timeout_ms stmt)\<rparr>\<rparr>\<rparr>"

subsection \<open>Executing statements\<close>

definition reconcile_timeout :: "'t transport_protocol \<Rightarrow> Statement \<Rightarrow> bool \<Rightarrow> ('t, unit) conn_task" where
  "reconcile_timeout P stmt needs_reconcile =
    (if needs_reconcile
     then amap_err failed_execution (on_transport (tp_set_query_timeout P (target_secs stmt)))
     else areturn ())"

definition finish_statement ::
  "'t transport_protocol \<Rightarrow> Statement \<Rightarrow> bool \<Rightarrow> string \<Rightarrow> ('t, QueryResult) conn_task" where
  "finish_statement P stmt needs_reconcile final_sql =
    abind (acatch (on_transport (tp_execute_query P final_sql))) (\<lambda>exec_result.
    abind (if needs_reconcile then amodify (record_timeout stmt) else areturn ()) (\<lambda>_.
    case exec_result of
      Inl e \<Rightarrow> athrow (map_execution_error e (saturating_mul_u64 (target_secs stmt) 1000))
    | Inr result \<Rightarrow> areturn result))"

definition run_statement :: "driver_env \<Rightarrow> 't transport_protocol \<Rightarrow> Statement \<Rightarrow> ('t, QueryResult) conn_task" where
  "run_statement D P stmt =
    abind require_ready (\<lambda>_.
    abind (on_session (increment_query_count (de_overflow_checks D))) (\<lambda>_.
    abind (alift (build_sql (de_text D) stmt)) (\<lambda>final_sql.
    abind (areads (\<lambda>c. Inr (target_secs stmt \<noteq> applied_secs (co_session c)))) (\<lambda>needs_reconcile.
    abind (reconcile_timeout P stmt needs_reconcile) (\<lambda>_.
      finish_statement P stmt needs_reconcile final_sql)))))"

definition execute_statement :: "driver_env \<Rightarrow> 't transport_protocol \<Rightarrow> Statement \<Rightarrow> ('t, ResultSet) conn_task" where
  "execute_statement D P stmt =
    abind (run_statement D P stmt) (\<lambda>result. alift (from_transport_result (de_results D) result))"

definition execute_statement_update :: "driver_env \<Rightarrow> 't transport_protocol \<Rightarrow> Statement \<Rightarrow> ('t, i64) conn_task" where
  "execute_statement_update D P stmt =
    abind (execute_statement D P stmt) (\<lambda>rs. case ResultSet_row_count rs of
        Some n \<Rightarrow> areturn n
      | None \<Rightarrow> athrow (NoResultSet ''Expected row count, got result set''))"

definition execute :: "driver_env \<Rightarrow> 't transport_protocol \<Rightarrow> string \<Rightarrow> ('t, ResultSet) conn_task" where
  "execute D P sql c = execute_statement D P (create_statement D sql c) c"

definition query :: "driver_env \<Rightarrow> 't transport_protocol \<Rightarrow> string \<Rightarrow> ('t, ResultBatch list) conn_task" where
  "query D P sql = abind (execute D P sql) (\<lambda>rs. on_transport (fetch_all (de_results D) P rs))"

definition execute_update :: "driver_env \<Rightarrow> 't transport_protocol \<Rightarrow> string \<Rightarrow> ('t, i64) conn_task" where
  "execute_update D P sql c = execute_statement_update D P (create_statement D sql c) c"

subsection \<open>Prepared statements\<close>

definition prepare :: "'t transport_protocol \<Rightarrow> string \<Rightarrow> ('t, PreparedStatement) conn_task" where
  "prepare P sql =
    abind require_ready (\<lambda>_.
    abind (amap_err failed_execution (on_transport (tp_create_prepared_statement P sql))) (\<lambda>handle.
      alift (PreparedStatement_new handle)))"

definition check_open :: "PreparedStatement \<Rightarrow> ('t, unit) conn_task" where
  "check_open stmt = (if pr_closed stmt then athrow StatementClosed else areturn ())"

definition run_prepared ::
  "'t transport_protocol \<Rightarrow> PreparedStatement \<Rightarrow> (QueryError, json list list option) result \<Rightarrow> ('t, QueryResult) conn_task" where
  "run_prepared P stmt params =
    abind (alift params) (\<lambda>params_data.
      amap_err failed_execution (on_transport (tp_execute_prepared_statement P (pr_handle stmt) params_data)))"

definition expect_row_count :: "QueryResult \<Rightarrow> (QueryError, i64) result" where
  "expect_row_count r = (case r of QRowCount n \<Rightarrow> Inr n | QResultSet _ _ \<Rightarrow> fail UnexpectedResultSet)"

definition execute_prepared :: "driver_env \<Rightarrow> 't transport_protocol \<Rightarrow> PreparedStatement \<Rightarrow> ('t, ResultSet) conn_task" where
  "execute_prepared D P stmt =
    abind (check_open stmt) (\<lambda>_. abind require_ready (\<lambda>_.
    abind (on_session (increment_query_count (de_overflow_checks D))) (\<lambda>_.
    abind (run_prepared P stmt (build_parameters_data stmt)) (\<lambda>r.
      alift (from_transport_result (de_results D) r)))))"

definition execute_prepared_update :: "'t transport_protocol \<Rightarrow> PreparedStatement \<Rightarrow> ('t, i64) conn_task" where
  "execute_prepared_update P stmt =
    abind (check_open stmt) (\<lambda>_. abind require_ready (\<lambda>_.
    abind (run_prepared P stmt (build_parameters_data stmt)) (\<lambda>r. alift (expect_row_count r))))"

definition execute_batch_update ::
  "'t transport_protocol \<Rightarrow> PreparedStatement \<Rightarrow> Parameter list list \<Rightarrow> ('t, i64) conn_task" where
  "execute_batch_update P stmt rows =
    abind (check_open stmt) (\<lambda>_. abind require_ready (\<lambda>_.
    abind (run_prepared P stmt (build_batch_parameters_data stmt rows)) (\<lambda>r. alift (expect_row_count r))))"

definition execute_batch ::
  "driver_env \<Rightarrow> 't transport_protocol \<Rightarrow> PreparedStatement \<Rightarrow> Parameter list list \<Rightarrow> ('t, ResultSet) conn_task" where
  "execute_batch D P stmt rows =
    abind (check_open stmt) (\<lambda>_. abind require_ready (\<lambda>_.
    abind (on_session (increment_query_count (de_overflow_checks D))) (\<lambda>_.
    abind (run_prepared P stmt (build_batch_parameters_data stmt rows)) (\<lambda>r.
      alift (from_transport_result (de_results D) r)))))"

text \<open>The statement is consumed; the flag it gets is not seen by anyone but its destructor.\<close>

definition close_prepared :: "'t transport_protocol \<Rightarrow> PreparedStatement \<Rightarrow> ('t, PreparedStatement) conn_task" where
  "close_prepared P stmt =
    (if pr_closed stmt then areturn stmt
     else abind (amap_err failed_execution (on_transport (tp_close_prepared_statement P (pr_handle stmt)))) (\<lambda>_.
       areturn (mark_closed stmt)))"

subsection \<open>Transactions\<close>

abbreviation transaction_error :: "ConnectionError \<Rightarrow> QueryError" where
  "transaction_error e \<equiv> TransactionError (show_connection_error e)"

definition begin_transaction :: "'t transport_protocol \<Rightarrow> ('t, unit) conn_task" where
  "begin_transaction P =
    abind (areads (\<lambda>c. map_err transaction_error (ensure_can_begin_transaction (co_session c)))) (\<lambda>_.
    abind (amap_err (\<lambda>e. TransactionError (show_transport_error e)) (on_transport (tp_set_autocommit P False))) (\<lambda>_.
      amap_err transaction_error (on_session session_begin_transaction)))"

definition in_transaction :: "'t Connection \<Rightarrow> bool" where
  "in_transaction c = se_in_transaction (co_session c)"

definition commit :: "driver_env \<Rightarrow> 't transport_protocol \<Rightarrow> ('t, unit) conn_task" where
  "commit D P c =
    (if \<not> in_transaction c then areturn () c
     else abind (execute_update D P ''COMMIT'') (\<lambda>_. amap_err transaction_error (on_session commit_transaction)) c)"

definition rollback :: "driver_env \<Rightarrow> 't transport_protocol \<Rightarrow> ('t, unit) conn_task" where
  "rollback D P c =
    (if \<not> in_transaction c then areturn () c
     else abind (execute_update D P ''ROLLBACK'') (\<lambda>_. amap_err transaction_error (on_session rollback_transaction)) c)"

subsection \<open>The current schema\<close>

definition set_schema :: "'t transport_protocol \<Rightarrow> string \<Rightarrow> ('t, unit) conn_task" where
  "set_schema P name = abind require_ready (\<lambda>_.
    amap_err failed_execution (on_transport (tp_set_current_schema P name)))"

definition refresh_schema :: "'t transport_protocol \<Rightarrow> ('t, string option) conn_task" where
  "refresh_schema P = abind require_ready (\<lambda>_.
    amap_err failed_execution (on_transport (tp_refresh_current_schema P)))"

definition connection_schema :: "'t transport_protocol \<Rightarrow> 't Connection \<Rightarrow> string option" where
  "connection_schema P c = tp_current_schema P (co_transport c)"

subsection \<open>Metadata queries\<close>

abbreviation "quote_mark \<equiv> [CHR 0x27]"

text \<open>\<open>format!("{} = '{}'", column, value.replace('\'', "''"))\<close>.\<close>

definition equals_filter :: "string \<Rightarrow> string \<Rightarrow> string" where
  "equals_filter column v = column @ '' = '' @ quoted (replace_char (CHR 0x27) [CHR 0x27, CHR 0x27] v)"

definition optional_filter :: "string \<Rightarrow> string option \<Rightarrow> string list" where
  "optional_filter column v = (case v of None \<Rightarrow> [] | Some x \<Rightarrow> [equals_filter column x])"

fun join :: "'a list \<Rightarrow> 'a list list \<Rightarrow> 'a list" where
  "join sep [] = []"
| "join sep [x] = x"
| "join sep (x # xs) = x @ sep @ join sep xs"

definition catalogs_sql :: string where
  "catalogs_sql = ''SELECT DISTINCT SCHEMA_NAME AS CATALOG_NAME FROM SYS.EXA_ALL_SCHEMAS ORDER BY CATALOG_NAME''"

definition schemas_sql :: "string option \<Rightarrow> string" where
  "schemas_sql catalog = (case catalog of
      Some cat \<Rightarrow> ''SELECT SCHEMA_NAME FROM SYS.EXA_ALL_SCHEMAS WHERE '' @ equals_filter ''SCHEMA_NAME'' cat @
        '' ORDER BY SCHEMA_NAME''
    | None \<Rightarrow> ''SELECT SCHEMA_NAME FROM SYS.EXA_ALL_SCHEMAS ORDER BY SCHEMA_NAME'')"

definition tables_sql :: "string option \<Rightarrow> string option \<Rightarrow> string" where
  "tables_sql schema table =
    (let conditions = [''OBJECT_TYPE IN ('' @ quoted ''TABLE'' @ '', '' @ quoted ''VIEW'' @ '')''] @
           optional_filter ''ROOT_NAME'' schema @ optional_filter ''OBJECT_NAME'' table
     in ''SELECT ROOT_NAME AS TABLE_SCHEMA, OBJECT_NAME AS TABLE_NAME, OBJECT_TYPE AS TABLE_TYPE FROM SYS.EXA_ALL_OBJECTS '' @
        ''WHERE '' @ join '' AND '' conditions @ '' ORDER BY ROOT_NAME, OBJECT_NAME'')"

definition columns_sql :: "string option \<Rightarrow> string option \<Rightarrow> string option \<Rightarrow> string option \<Rightarrow> string" where
  "columns_sql catalog schema table column =
    (let conditions = optional_filter ''COLUMN_SCHEMA'' catalog @ optional_filter ''COLUMN_SCHEMA'' schema @
           optional_filter ''COLUMN_TABLE'' table @ optional_filter ''COLUMN_NAME'' column;
         where_clause = (if conditions = [] then [] else ''WHERE '' @ join '' AND '' conditions)
     in ''SELECT COLUMN_SCHEMA, COLUMN_TABLE, COLUMN_NAME, COLUMN_TYPE, COLUMN_NUM_PREC, COLUMN_NUM_SCALE, COLUMN_IS_NULLABLE FROM SYS.EXA_ALL_COLUMNS '' @
        where_clause @ '' ORDER BY COLUMN_SCHEMA, COLUMN_TABLE, ORDINAL_POSITION'')"

definition get_catalogs :: "driver_env \<Rightarrow> 't transport_protocol \<Rightarrow> ('t, ResultSet) conn_task" where
  "get_catalogs D P = execute D P catalogs_sql"

definition get_schemas :: "driver_env \<Rightarrow> 't transport_protocol \<Rightarrow> string option \<Rightarrow> ('t, ResultSet) conn_task" where
  "get_schemas D P catalog = execute D P (schemas_sql catalog)"

definition get_tables ::
  "driver_env \<Rightarrow> 't transport_protocol \<Rightarrow> string option \<Rightarrow> string option \<Rightarrow> string option \<Rightarrow> ('t, ResultSet) conn_task" where
  "get_tables D P catalog schema table = execute D P (tables_sql schema table)"

definition get_columns ::
  "driver_env \<Rightarrow> 't transport_protocol \<Rightarrow> string option \<Rightarrow> string option \<Rightarrow> string option \<Rightarrow> string option \<Rightarrow>
    ('t, ResultSet) conn_task" where
  "get_columns D P catalog schema table column = execute D P (columns_sql catalog schema table column)"

subsection \<open>End and setup of a connection\<close>

definition connection_failed :: "DriverParams \<Rightarrow> string \<Rightarrow> ConnectionError" where
  "connection_failed ps m = ConnectionFailed (dp_host ps) (dp_port ps) m"

definition is_closed :: "'t transport_protocol \<Rightarrow> 't Connection \<Rightarrow> bool" where
  "is_closed P c \<longleftrightarrow> session_is_closed (co_session c) \<or> \<not> tp_is_connected P (co_transport c)"

text \<open>\<open>close\<close> and \<open>shutdown\<close>.\<close>

definition close_connection :: "'t transport_protocol \<Rightarrow> (ConnectionError, 't Connection, unit) task" where
  "close_connection P c =
    abind (on_session session_close) (\<lambda>_.
      amap_err (\<lambda>e. connection_failed (co_params c) (show_transport_error e)) (on_transport (tp_close P))) c"

text \<open>\<open>as_millis() as u64\<close> keeps the low 64 bits.\<close>

definition transport_params :: "DriverParams \<Rightarrow> ConnectionParams" where
  "transport_params ps = (ConnectionParams_new (dp_host ps) (dp_port ps))\<lparr>use_tls := dp_use_tls ps,
    validate_server_certificate := dp_validate_server_certificate ps,
    timeout_ms := of_nat (dp_connection_timeout ps div 1000000),
    certificate_fingerprint := dp_certificate_fingerprint ps\<rparr>"

definition login_credentials :: "DriverParams \<Rightarrow> Credentials" where
  "login_credentials ps = \<lparr>username = dp_username ps, password = dp_password ps,
    client_name = dp_client_name ps, client_version = dp_client_version ps\<rparr>"

definition auth_response :: "SessionInfo \<Rightarrow> AuthResponseData" where
  "auth_response info = \<lparr>ar_session_id = session_id info, ar_protocol_version = protocol_version info,
    ar_release_version = release_version info, ar_database_name = database_name info,
    ar_product_name = product_name info, ar_max_data_message_size = max_data_message_size info,
    ar_max_identifier_length = 128, ar_max_varchar_length = 2000000, ar_identifier_quote_string = [CHR 0x22],
    ar_time_zone = (case time_zone info of None \<Rightarrow> ''UTC'' | Some z \<Rightarrow> z),
    ar_time_zone_behavior = ''INVALID TIMESTAMP TO DOUBLE''\<rparr>"

definition new_connection :: "DriverParams \<Rightarrow> SessionInfo \<Rightarrow> 't \<Rightarrow> 't Connection" where
  "new_connection ps info t = \<lparr>co_transport = t,
    co_session = Session_new (session_id info) (auth_response info)
      (SessionConfig_default\<lparr>sc_query_timeout := dp_query_timeout ps\<rparr>),
    co_params = ps\<rparr>"

text \<open>Connect, log in, and forward a configured query timeout.\<close>

definition establish :: "'t transport_protocol \<Rightarrow> DriverParams \<Rightarrow> (ConnectionError, 't, SessionInfo) task" where
  "establish P ps =
    abind (amap_err (\<lambda>e. connection_failed ps (show_transport_error e)) (tp_connect P (transport_params ps))) (\<lambda>_.
    abind (amap_err (\<lambda>e. AuthenticationFailed (show_transport_error e)) (tp_authenticate P (login_credentials ps))) (\<lambda>info.
    abind (case dp_query_timeout ps of
        None \<Rightarrow> areturn ()
      | Some d \<Rightarrow> amap_err (\<lambda>e. connection_failed ps (''failed to set query timeout: '' @ show_transport_error e))
          (tp_set_query_timeout P (secs_ceil d))) (\<lambda>_.
      areturn info)))"

text \<open>A schema that the server rejects closes the connection again.\<close>

definition open_schema :: "'t transport_protocol \<Rightarrow> DriverParams \<Rightarrow> (ConnectionError, 't Connection, unit) task" where
  "open_schema P ps = (case dp_schema ps of
      None \<Rightarrow> areturn ()
    | Some name \<Rightarrow>
        abind (acatch (set_schema P name)) (\<lambda>r. case r of
            Inr _ \<Rightarrow> areturn ()
          | Inl e \<Rightarrow> abind (aignore (close_connection P)) (\<lambda>_.
              athrow (connection_failed ps (''failed to set schema '' @ quote_mark @ name @ quote_mark @
                '' from the connection parameters: '' @ show_query_error e)))))"

definition connect_with_transport ::
  "'t transport_protocol \<Rightarrow> DriverParams \<Rightarrow> 't \<Rightarrow> (ConnectionError, 't Connection) poll" where
  "connect_with_transport P ps t = (case establish P ps t of
      (Ready (Inr info), t1) \<Rightarrow> (case open_schema P ps (new_connection ps info t1) of
          (Ready (Inr _), c) \<Rightarrow> Ready (Inr c)
        | (Ready (Inl e), c) \<Rightarrow> Ready (Inl e)
        | (Pending, c) \<Rightarrow> Pending)
    | (Ready (Inl e), t1) \<Rightarrow> Ready (Inl e)
    | (Pending, t1) \<Rightarrow> Pending)"

text \<open>The executor that the import and export functions run their SQL with.\<close>

definition sql_executor :: "'t transport_protocol \<Rightarrow> string \<Rightarrow> (string, 't Connection, u64) task" where
  "sql_executor P sql =
    abind (amap_err show_transport_error (on_transport (tp_execute_query P sql))) (\<lambda>r.
      areturn (case r of QRowCount n \<Rightarrow> n | QResultSet _ _ \<Rightarrow> 0))"

end
