(* ===== verification/Connection_String.thy ===== *)
theory Connection_String
  imports Connection Handshake
begin

text \<open>
  Connection strings and the connection builder, \<open>src/connection/params.rs\<close>. Parameters
  (\<open>string_env\<close>) are \<open>urlencoding::decode\<close>, the lower case of a text with characters outside
  ASCII, the version of the build, and the order in which a \<open>HashMap\<close> yields its keys, which
  the standard library leaves open.
\<close>

record string_env =
  se_decode :: "string \<Rightarrow> string + string"
  se_lowercase :: "string \<Rightarrow> string"
  se_driver_version :: string
  se_keys :: "(string \<rightharpoonup> string) \<Rightarrow> string list"

text \<open>What the standard library promises of an iteration: every key once, in some order.\<close>

definition iterates :: "string_env \<Rightarrow> bool" where
  "iterates S \<longleftrightarrow> (\<forall>m. finite (dom m) \<longrightarrow> distinct (se_keys S m) \<and> set (se_keys S m) = dom m)"

subsection \<open>Text\<close>

definition trim :: "string \<Rightarrow> string" where
  "trim s = concat (rev (dropWhile is_whitespace (rev (dropWhile is_whitespace (text_chars s)))))"

definition strip_prefix :: "string \<Rightarrow> string \<Rightarrow> string option" where
  "strip_prefix p s = (if starts_with s p then Some (drop (length p) s) else None)"

text \<open>\<open>rfind\<close> and the two slices around it; \<open>rsplit_once\<close>.\<close>

definition rsplit_once :: "char \<Rightarrow> string \<Rightarrow> (string \<times> string) option" where
  "rsplit_once c s = map_option (\<lambda>(a, b). (rev b, rev a)) (split_once c (rev s))"

definition to_ascii_lowercase :: "char \<Rightarrow> char" where
  "to_ascii_lowercase c =
    (if 65 \<le> (of_char c :: nat) \<and> (of_char c :: nat) \<le> 90 then char_of ((of_char c :: nat) + 32) else c)"

definition to_lowercase :: "string_env \<Rightarrow> string \<Rightarrow> string" where
  "to_lowercase S s = (if list_all is_ascii s then map to_ascii_lowercase s else se_lowercase S s)"

definition from_secs :: "nat \<Rightarrow> nat" where
  "from_secs n = n * 1000000000"

subsection \<open>The builder\<close>

record ConnectionBuilder =
  cb_host :: "string option"
  cb_port :: "u16 option"
  cb_username :: "string option"
  cb_password :: "string option"
  cb_schema :: "string option"
  cb_connection_timeout :: "nat option"
  cb_query_timeout :: "nat option"
  cb_use_tls :: "bool option"
  cb_validate_server_certificate :: "bool option"
  cb_certificate_fingerprint :: "string option"
  cb_client_name :: "string option"
  cb_client_version :: "string option"
  cb_transport :: "string option"

definition ConnectionBuilder_new :: ConnectionBuilder where
  "ConnectionBuilder_new = \<lparr>cb_host = None, cb_port = None, cb_username = None, cb_password = None,
    cb_schema = None, cb_connection_timeout = None, cb_query_timeout = None, cb_use_tls = None,
    cb_validate_server_certificate = None, cb_certificate_fingerprint = None, cb_client_name = None,
    cb_client_version = None, cb_transport = None\<rparr>"

definition or_default :: "'a option \<Rightarrow> 'a \<Rightarrow> 'a" where
  "or_default x d = (case x of Some y \<Rightarrow> y | None \<Rightarrow> d)"

definition required :: "string \<Rightarrow> string \<Rightarrow> 'a option \<Rightarrow> (ConnectionError, 'a) result" where
  "required parameter message x = (case x of Some y \<Rightarrow> Inr y | None \<Rightarrow> fail (InvalidParameter parameter message))"

definition ensure :: "bool \<Rightarrow> string \<Rightarrow> string \<Rightarrow> (ConnectionError, unit) result" where
  "ensure b parameter message = (if b then Inr () else fail (InvalidParameter parameter message))"

definition build :: "string_env \<Rightarrow> ConnectionBuilder \<Rightarrow> (ConnectionError, DriverParams) result" where
  "build S b =
    rbind (required ''host'' ''Host is required'' (cb_host b)) (\<lambda>host.
    rbind (required ''username'' ''Username is required'' (cb_username b)) (\<lambda>user.
    rbind (ensure (host \<noteq> []) ''host'' ''Host cannot be empty'') (\<lambda>_.
    rbind (ensure (user \<noteq> []) ''username'' ''Username cannot be empty'') (\<lambda>_.
    let port = or_default (cb_port b) 8563 in
    rbind (ensure (port \<noteq> 0) ''port'' ''Port must be greater than 0'') (\<lambda>_.
    let timeout = or_default (cb_connection_timeout b) (from_secs 30) in
    rbind (ensure (timeout div 1000000000 \<le> 300) ''connection_timeout'' ''Connection timeout cannot exceed 300 seconds'') (\<lambda>_.
    Inr \<lparr>dp_host = host, dp_port = port, dp_username = user, dp_password = or_default (cb_password b) [],
      dp_schema = cb_schema b, dp_connection_timeout = timeout, dp_query_timeout = cb_query_timeout b,
      dp_use_tls = or_default (cb_use_tls b) True,
      dp_validate_server_certificate = or_default (cb_validate_server_certificate b) True,
      dp_certificate_fingerprint = cb_certificate_fingerprint b,
      dp_client_name = or_default (cb_client_name b) DRIVER_NAME,
      dp_client_version = or_default (cb_client_version b) (se_driver_version S),
      dp_transport = cb_transport b\<rparr>))))))"

subsection \<open>Parts of a connection string\<close>

definition decode :: "string_env \<Rightarrow> string \<Rightarrow> string \<Rightarrow> (ConnectionError, string) result" where
  "decode S what s = (case se_decode S s of
      Inl e \<Rightarrow> fail (ParseError (''Failed to decode '' @ what @ '': '' @ e))
    | Inr t \<Rightarrow> Inr t)"

text \<open>The loop over the pairs of the query, numbered from \<open>i\<close>.\<close>

fun parse_pairs :: "string_env \<Rightarrow> nat \<Rightarrow> string list \<Rightarrow> (string \<rightharpoonup> string) \<Rightarrow> (ConnectionError, string \<rightharpoonup> string) result" where
  "parse_pairs S i [] params = Inr params"
| "parse_pairs S i (pair # rest) params =
    (if pair = [] then parse_pairs S (i + 1) rest params
     else (case split_once (CHR ''='') pair of
         None \<Rightarrow> fail (ParseError (''Invalid query parameter format at position '' @ show_nat (i + 1) @ '': expected key=value''))
       | Some (k, v) \<Rightarrow>
           rbind (decode S ''key'' k) (\<lambda>key. rbind (decode S ''value'' v) (\<lambda>val.
             parse_pairs S (i + 1) rest (params(key \<mapsto> val))))))"

definition parse_query_params :: "string_env \<Rightarrow> string option \<Rightarrow> (ConnectionError, string \<rightharpoonup> string) result" where
  "parse_query_params S query_string = (case query_string of
      None \<Rightarrow> Inr Map.empty
    | Some q \<Rightarrow> parse_pairs S 0 (split_on (CHR ''&'') q) Map.empty)"

definition parse_auth :: "string_env \<Rightarrow> string \<Rightarrow> (ConnectionError, string \<times> string option) result" where
  "parse_auth S auth =
    (let (user, pass) = (case split_once (CHR '':'') auth of
         Some (u, p) \<Rightarrow> (u, Some p) | None \<Rightarrow> (auth, None)) in
     rbind (decode S ''username'' user) (\<lambda>user.
     case pass of
       None \<Rightarrow> Inr (user, None)
     | Some p \<Rightarrow> rbind (decode S ''password'' p) (\<lambda>p. Inr (user, Some p))))"

definition parse_port :: "string \<Rightarrow> (ConnectionError, u16) result" where
  "parse_port s = (case parse_unsigned 65535 s of
      Some n \<Rightarrow> Inr (of_nat n)
    | None \<Rightarrow> fail (ParseError ''Invalid port: expected a number from 1 to 65535''))"

text \<open>An address in brackets, then the general form.\<close>

definition bracketed :: "string \<Rightarrow> (string \<times> string) option" where
  "bracketed host_port = (case host_port of
      [] \<Rightarrow> None
    | c # r \<Rightarrow> if c = CHR ''['' then split_once (CHR '']'') r else None)"

definition parse_host_port :: "string \<Rightarrow> (ConnectionError, string \<times> u16) result" where
  "parse_host_port host_port = (case bracketed host_port of
      Some (h, port_part) \<Rightarrow> (case strip_prefix '':'' port_part of
          Some s \<Rightarrow> rbind (parse_port s) (\<lambda>p. Inr (h, p))
        | None \<Rightarrow> Inr (h, 8563))
    | None \<Rightarrow> (case rsplit_once (CHR '':'') host_port of
          Some (h, port_str) \<Rightarrow> rbind (parse_port port_str) (\<lambda>p. Inr (h, p))
        | None \<Rightarrow> Inr (host_port, 8563)))"

subsection \<open>Query parameters\<close>

definition ACCEPTED_QUERY_KEYS :: "string list" where
  "ACCEPTED_QUERY_KEYS = [''timeout'', ''connection_timeout'', ''query_timeout'', ''tls'', ''use_tls'', ''ssl'',
    ''validate_certificate'', ''verify_certificate'', ''validateservercertificate'', ''client_name'',
    ''client_version'', ''certificate_fingerprint'', ''certificatefingerprint'', ''transport'', ''user'',
    ''username'', ''password'', ''pass'']"

definition parse_timeout :: "string \<Rightarrow> string \<Rightarrow> (ConnectionError, nat) result" where
  "parse_timeout key v = (case parse_unsigned (2 ^ 64 - 1) v of
      Some n \<Rightarrow> Inr (from_secs n)
    | None \<Rightarrow> fail (InvalidParameter key ''Invalid timeout value: expected a whole number of seconds''))"

definition parse_bool :: "string_env \<Rightarrow> string \<Rightarrow> string \<Rightarrow> (ConnectionError, bool) result" where
  "parse_bool S key v = (let l = to_lowercase S v in
    if l \<in> set [''true'', ''1'', ''yes'', ''on''] then Inr True
    else if l \<in> set [''false'', ''0'', ''no'', ''off''] then Inr False
    else fail (InvalidParameter key ''Invalid boolean value: expected true, false, 1, 0, yes, no, on, or off''))"

definition parse_transport :: "string_env \<Rightarrow> string \<Rightarrow> (ConnectionError, string) result" where
  "parse_transport S v = (let l = to_lowercase S v in
    if l \<in> set [''native'', ''websocket''] then Inr l
    else fail (InvalidParameter ''transport'' (''Invalid transport value. Must be '' @ quoted ''native'' @ '' or '' @ quoted ''websocket'')))"

definition unknown_parameter :: "bool \<Rightarrow> string \<Rightarrow> ConnectionError" where
  "unknown_parameter redact_keys key =
    (let (parameter, hint) = (if redact_keys
         then (''<redacted>'', '' The query contains '' @ quoted ''@'' @ '': percent-encode '' @ quoted ''?'' @ '' and '' @ quoted ''@'' @
           '' in the user name and password.'')
         else (key, [])) in
     InvalidParameter parameter (''Unknown connection parameter.'' @ hint @ '' Accepted parameters: '' @
       join '', '' ACCEPTED_QUERY_KEYS))"

text \<open>One pair of the query, as the update that it makes to the builder.\<close>

definition apply_query_param ::
  "string_env \<Rightarrow> bool \<Rightarrow> string \<Rightarrow> string \<Rightarrow> (ConnectionError, ConnectionBuilder \<Rightarrow> ConnectionBuilder) result" where
  "apply_query_param S redact_keys key v =
    (if key \<in> set [''timeout'', ''connection_timeout''] then
       rbind (parse_timeout key v) (\<lambda>d. Inr (cb_connection_timeout_update (\<lambda>_. Some d)))
     else if key = ''query_timeout'' then
       rbind (parse_timeout key v) (\<lambda>d. Inr (cb_query_timeout_update (\<lambda>_. Some d)))
     else if key = ''idle_timeout'' then rbind (parse_timeout key v) (\<lambda>_. Inr id)
     else if key \<in> set [''tls'', ''use_tls'', ''ssl''] then
       rbind (parse_bool S key v) (\<lambda>b. Inr (cb_use_tls_update (\<lambda>_. Some b)))
     else if key \<in> set [''validate_certificate'', ''verify_certificate'', ''validateservercertificate''] then
       rbind (parse_bool S key v) (\<lambda>b. Inr (cb_validate_server_certificate_update (\<lambda>_. Some b)))
     else if key = ''client_name'' then Inr (cb_client_name_update (\<lambda>_. Some v))
     else if key = ''client_version'' then Inr (cb_client_version_update (\<lambda>_. Some v))
     else if key \<in> set [''certificate_fingerprint'', ''certificatefingerprint''] then
       Inr (cb_certificate_fingerprint_update (\<lambda>_. Some v))
     else if key = ''transport'' then
       rbind (parse_transport S v) (\<lambda>t. Inr (cb_transport_update (\<lambda>_. Some t)))
     else fail (unknown_parameter redact_keys key))"

fun apply_keys ::
  "string_env \<Rightarrow> bool \<Rightarrow> (string \<rightharpoonup> string) \<Rightarrow> string list \<Rightarrow> ConnectionBuilder \<Rightarrow> (ConnectionError, ConnectionBuilder) result" where
  "apply_keys S redact_keys params [] b = Inr b"
| "apply_keys S redact_keys params (key # keys) b =
    rbind (apply_query_param S redact_keys key (the (params key))) (\<lambda>upd. apply_keys S redact_keys params keys (upd b))"

definition apply_query_params ::
  "string_env \<Rightarrow> ConnectionBuilder \<Rightarrow> (string \<rightharpoonup> string) \<Rightarrow> bool \<Rightarrow> (ConnectionError, ConnectionBuilder) result" where
  "apply_query_params S b params redact_keys = apply_keys S redact_keys params (se_keys S params) b"

subsection \<open>Connection strings\<close>

fun first_of :: "'a option list \<Rightarrow> 'a option" where
  "first_of [] = None"
| "first_of (Some x # xs) = Some x"
| "first_of (None # xs) = first_of xs"

definition parse_error :: "string \<Rightarrow> 'a option \<Rightarrow> (ConnectionError, 'a) result" where
  "parse_error message x = (case x of Some y \<Rightarrow> Inr y | None \<Rightarrow> fail (ParseError message))"

definition credential_keys :: "string set" where
  "credential_keys = {''user'', ''username'', ''password'', ''pass''}"

definition parse_with_credentials ::
  "string_env \<Rightarrow> string \<Rightarrow> string option \<Rightarrow> string option \<Rightarrow> (ConnectionError, DriverParams) result" where
  "parse_with_credentials S uri user_arg pass_arg =
    rbind (parse_error (''Connection string must start with '' @ quoted ''exasol://'')
      (strip_prefix ''exasol://'' (trim uri))) (\<lambda>url.
    let (main_part, query_string) = (case split_once (CHR ''?'') url of
          Some (m, q) \<Rightarrow> (m, Some q) | None \<Rightarrow> (url, None)) in
    rbind (parse_query_params S query_string) (\<lambda>params.
    let (auth_part, host_part) = (case rsplit_once (CHR ''@'') main_part of
          Some (a, h) \<Rightarrow> (Some a, h) | None \<Rightarrow> (None, main_part)) in
    rbind (case auth_part of
        Some auth \<Rightarrow> rbind (parse_auth S auth) (\<lambda>(u, p). Inr (Some u, p))
      | None \<Rightarrow> Inr (None, None)) (\<lambda>(userinfo_username, userinfo_password).
    rbind (parse_error ''Username is required''
      (first_of [user_arg, userinfo_username, params ''user'', params ''username''])) (\<lambda>user.
    let pass = or_default (first_of [pass_arg, userinfo_password, params ''password'', params ''pass'']) [];
        (host_port, schema) = (case split_once (CHR ''/'') host_part of
          Some (h, s) \<Rightarrow> (h, if s = [] then None else Some s) | None \<Rightarrow> (host_part, None)) in
    rbind (parse_host_port host_port) (\<lambda>(host, port).
    rbind (apply_query_params S
      (ConnectionBuilder_new\<lparr>cb_host := Some host, cb_port := Some port, cb_username := Some user,
        cb_password := Some pass, cb_schema := schema\<rparr>)
      (params |` (- credential_keys))
      (case query_string of None \<Rightarrow> False | Some q \<Rightarrow> CHR ''@'' \<in> set q)) (\<lambda>b.
    build S b))))))"

text \<open>\<open>from_str\<close>.\<close>

definition connection_params_from_str :: "string_env \<Rightarrow> string \<Rightarrow> (ConnectionError, DriverParams) result" where
  "connection_params_from_str S s = parse_with_credentials S s None None"

end
