(* ===== verification/Connection_String_Laws.thy ===== *)
theory Connection_String_Laws
  imports Connection_String "HOL-Library.Multiset"
begin

text \<open>
  What holds of connection strings: the order of the query parameters does not matter unless
  two of them name the same setting, a string composed of encoded parts parses to the parts,
  and the errors name no text of the string when a password may have shifted into the query.
\<close>

subsection \<open>The order of the parameters\<close>

text \<open>The setting that a key stands for.\<close>

definition setting :: "string \<Rightarrow> string" where
  "setting key =
    (if key \<in> set [''timeout'', ''connection_timeout''] then ''connection_timeout''
     else if key \<in> set [''tls'', ''use_tls'', ''ssl''] then ''tls''
     else if key \<in> set [''validate_certificate'', ''verify_certificate'', ''validateservercertificate''] then ''validate''
     else if key \<in> set [''certificate_fingerprint'', ''certificatefingerprint''] then ''fingerprint''
     else key)"

definition update_of :: "string_env \<Rightarrow> bool \<Rightarrow> (string \<rightharpoonup> string) \<Rightarrow> string \<Rightarrow> ConnectionBuilder \<Rightarrow> ConnectionBuilder" where
  "update_of S r params key = (case apply_query_param S r key (the (params key)) of Inr u \<Rightarrow> u | Inl _ \<Rightarrow> id)"

lemma apply_keys_fold:
  "apply_keys S r params ks b = Inr b' \<longleftrightarrow>
    (\<forall>k \<in> set ks. \<exists>u. apply_query_param S r k (the (params k)) = Inr u) \<and> b' = fold (update_of S r params) ks b"
  by (induction ks arbitrary: b) (auto simp: rbind_Inr_iff update_of_def)

text \<open>The updates of a parameter, by its setting.\<close>

definition known_keys :: "string list" where
  "known_keys = [''timeout'', ''connection_timeout'', ''query_timeout'', ''idle_timeout'', ''tls'', ''use_tls'', ''ssl'',
    ''validate_certificate'', ''verify_certificate'', ''validateservercertificate'', ''client_name'',
    ''client_version'', ''certificate_fingerprint'', ''certificatefingerprint'', ''transport'']"

lemma unknown_key: "key \<notin> set known_keys \<Longrightarrow> apply_query_param S r key v = fail (unknown_parameter r key)"
  by (simp add: apply_query_param_def known_keys_def)

inductive changes :: "(ConnectionBuilder \<Rightarrow> ConnectionBuilder) \<Rightarrow> string \<Rightarrow> bool" where
  "changes (cb_connection_timeout_update (\<lambda>_. Some d)) ''connection_timeout''"
| "changes (cb_query_timeout_update (\<lambda>_. Some d)) ''query_timeout''"
| "changes id ''idle_timeout''"
| "changes (cb_use_tls_update (\<lambda>_. Some b)) ''tls''"
| "changes (cb_validate_server_certificate_update (\<lambda>_. Some b)) ''validate''"
| "changes (cb_client_name_update (\<lambda>_. Some v)) ''client_name''"
| "changes (cb_client_version_update (\<lambda>_. Some v)) ''client_version''"
| "changes (cb_certificate_fingerprint_update (\<lambda>_. Some v)) ''fingerprint''"
| "changes (cb_transport_update (\<lambda>_. Some v)) ''transport''"

lemma settings:
  "map setting known_keys = [''connection_timeout'', ''connection_timeout'', ''query_timeout'', ''idle_timeout'', ''tls'', ''tls'', ''tls'',
    ''validate'', ''validate'', ''validate'', ''client_name'', ''client_version'', ''fingerprint'', ''fingerprint'', ''transport'']"
  by code_simp

lemma apply_query_param_changes:
  assumes "apply_query_param S r key v = Inr u"
  shows "changes u (setting key)"
proof -
  have "key \<in> set known_keys" using unknown_key [of key S r v] assms by auto
  then show ?thesis
    using assms settings unfolding known_keys_def list.set insert_iff empty_iff simp_thms
    by (elim disjE) (auto simp: apply_query_param_def rbind_Inr_iff intro: changes.intros)
qed

lemma changes_commute: "changes u k \<Longrightarrow> changes u' k' \<Longrightarrow> k \<noteq> k' \<Longrightarrow> u \<circ> u' = u' \<circ> u"
  by (elim changes.cases) (simp_all add: fun_eq_iff)

lemma updates_commute:
  assumes "setting k \<noteq> setting k'"
  shows "update_of S r params k \<circ> update_of S r params k' = update_of S r params k' \<circ> update_of S r params k"
proof (cases "(\<exists>u. apply_query_param S r k (the (params k)) = Inr u) \<and> (\<exists>u. apply_query_param S r k' (the (params k')) = Inr u)")
  case True
  then obtain u u' where u: "apply_query_param S r k (the (params k)) = Inr u" "apply_query_param S r k' (the (params k')) = Inr u'"
    by blast
  from changes_commute [OF apply_query_param_changes [OF u(1)] apply_query_param_changes [OF u(2)] assms] u show ?thesis
    by (simp add: update_of_def)
next
  case False
  then show ?thesis by (auto simp: update_of_def split: sum.splits)
qed

lemma apply_keys_order:
  assumes "mset ks = mset ks'" and "inj_on setting (set ks)" and "apply_keys S r params ks b = Inr b'"
  shows "apply_keys S r params ks' b = Inr b'"
proof -
  have "fold (update_of S r params) ks = fold (update_of S r params) ks'"
  proof (rule fold_multiset_equiv [OF _ assms(1)])
    show "update_of S r params x \<circ> update_of S r params y = update_of S r params y \<circ> update_of S r params x"
      if "x \<in> set ks" "y \<in> set ks" for x y
      using that assms(2) updates_commute [of x y] by (cases "x = y") (auto dest: inj_onD)
  qed
  moreover have "set ks' = set ks" using mset_eq_setD [OF assms(1)] by simp
  ultimately show ?thesis using assms(3) by (simp add: apply_keys_fold)
qed

text \<open>Two libraries that differ in the iteration order only.\<close>

abbreviation reordered :: "string_env \<Rightarrow> ((string \<rightharpoonup> string) \<Rightarrow> string list) \<Rightarrow> string_env" where
  "reordered S f \<equiv> S\<lparr>se_keys := f\<rparr>"

lemma reordered_parts [simp]:
  "decode (reordered S f) = decode S" "build (reordered S f) b = build S b"
  "apply_query_param (reordered S f) r k v = apply_query_param S r k v"
  by (simp_all add: decode_def build_def apply_query_param_def parse_bool_def parse_transport_def to_lowercase_def fun_eq_iff)

lemma reordered_auth [simp]: "parse_auth (reordered S f) auth = parse_auth S auth"
  unfolding parse_auth_def reordered_parts ..

lemma reordered_pairs [simp]: "parse_pairs (reordered S f) i ps m = parse_pairs S i ps m"
  by (induction ps arbitrary: i m) (simp_all split: option.split)

lemma reordered_query [simp]: "parse_query_params (reordered S f) q = parse_query_params S q"
  by (simp add: parse_query_params_def split: option.split)

lemma reordered_keys [simp]: "apply_keys (reordered S f) r m ks b = apply_keys S r m ks b"
  by (induction ks arbitrary: b) simp_all

lemma parse_pairs_finite: "parse_pairs S i ps m = Inr m' \<Longrightarrow> finite (dom m) \<Longrightarrow> finite (dom m')"
  by (induction S i ps m arbitrary: m' rule: parse_pairs.induct)
    (auto simp: rbind_Inr_iff split: if_splits option.splits)

definition query_of :: "string \<Rightarrow> string option" where
  "query_of uri = (case strip_prefix ''exasol://'' (trim uri) of
      None \<Rightarrow> None | Some url \<Rightarrow> map_option snd (split_once (CHR ''?'') url))"

text \<open>Everything before the query parameters are applied.\<close>

definition prepared_builder ::
  "string_env \<Rightarrow> string \<Rightarrow> string option \<Rightarrow> string option \<Rightarrow>
    (ConnectionError, ConnectionBuilder \<times> (string \<rightharpoonup> string) \<times> bool) result" where
  "prepared_builder S uri user_arg pass_arg =
    rbind (parse_error (''Connection string must start with '' @ quoted ''exasol://'')
      (strip_prefix ''exasol://'' (trim uri))) (\<lambda>url.
    let (main_part, query_string) = (case split_once (CHR ''?'') url of
          Some (m, q) \<Rightarrow> (m, Some q) | None \<Rightarrow> (url, None)) in
    rbind (parse_query_params S query_string) (\<lambda>params.
    let (auth_part, host_part) = (case rsplit_once (CHR ''@'') main_part of
          Some (a, h) \<Rightarrow> (Some a, h) | None \<Rightarrow> (None, main_part)) in
    rbind (case auth_part of
        Some auth \<Rightarrow> rbind (parse_auth S auth) (\<lambda>(u, p). Inr (Some u, p))
      | None \<Rightarrow> Inr (None, None)) (\<lambda>(userinfo_username, userinfo_password).
    rbind (parse_error ''Username is required''
      (first_of [user_arg, userinfo_username, params ''user'', params ''username''])) (\<lambda>user.
    let pass = or_default (first_of [pass_arg, userinfo_password, params ''password'', params ''pass'']) [];
        (host_port, schema) = (case split_once (CHR ''/'') host_part of
          Some (h, s) \<Rightarrow> (h, if s = [] then None else Some s) | None \<Rightarrow> (host_part, None)) in
    rbind (parse_host_port host_port) (\<lambda>(host, port).
    Inr (ConnectionBuilder_new\<lparr>cb_host := Some host, cb_port := Some port, cb_username := Some user,
        cb_password := Some pass, cb_schema := schema\<rparr>, params |` (- credential_keys),
        (case query_string of None \<Rightarrow> False | Some q \<Rightarrow> CHR ''@'' \<in> set q)))))))"

lemma parse_prepared:
  "parse_with_credentials S uri u p =
    rbind (prepared_builder S uri u p) (\<lambda>(b, m, r). rbind (apply_query_params S b m r) (build S))"
  by (simp add: parse_with_credentials_def prepared_builder_def rbind_assoc Let_def split_def)

lemma reordered_prepared [simp]: "prepared_builder (reordered S f) uri u p = prepared_builder S uri u p"
  unfolding prepared_builder_def reordered_query reordered_auth ..

lemma prepared_finite: "prepared_builder S uri u p = Inr (b, m, r) \<Longrightarrow> finite (dom m)"
  using parse_pairs_finite [where m = Map.empty]
  by (auto simp: prepared_builder_def Let_def split_def rbind_Inr_iff parse_query_params_def split: option.splits)

lemma apply_keys_rejected:
  "apply_keys S r m ks b = Inl e \<Longrightarrow> \<exists>k \<in> set ks. apply_query_param S r k (the (m k)) = Inl e"
  by (induction ks arbitrary: b) (auto simp: rbind_Inl_iff)

text \<open>The parameters that are rejected on their own, with their errors.\<close>

definition rejects ::
  "string_env \<Rightarrow> string \<Rightarrow> string option \<Rightarrow> string option \<Rightarrow> string \<Rightarrow> ConnectionError fault \<Rightarrow> bool" where
  "rejects S uri u p k e \<longleftrightarrow> (\<exists>b m r. prepared_builder S uri u p = Inr (b, m, r) \<and> k \<in> dom m
    \<and> apply_query_param S r k (the (m k)) = Inl e)"

definition distinct_settings :: "string_env \<Rightarrow> string \<Rightarrow> string option \<Rightarrow> string option \<Rightarrow> bool" where
  "distinct_settings S uri u p \<longleftrightarrow>
    (\<forall>b m r. prepared_builder S uri u p = Inr (b, m, r) \<longrightarrow> inj_on setting (dom m))"

lemma parse_any_order:
  assumes "iterates S" "iterates (reordered S f)" and "distinct_settings S uri u p"
  shows "parse_with_credentials (reordered S f) uri u p = parse_with_credentials S uri u p
    \<or> (\<exists>k k' e e'. k \<noteq> k' \<and> rejects S uri u p k e \<and> rejects S uri u p k' e'
      \<and> parse_with_credentials S uri u p = Inl e \<and> parse_with_credentials (reordered S f) uri u p = Inl e')"
proof (cases "prepared_builder S uri u p")
  case (Inl e)
  then show ?thesis by (simp add: parse_prepared)
next
  case (Inr prep)
  then obtain b m r where prep: "prepared_builder S uri u p = Inr (b, m, r)" by (cases prep) auto
  then have inj: "inj_on setting (dom m)" using assms(3) by (simp add: distinct_settings_def)
  have "finite (dom m)" using prepared_finite [OF prep] .
  then have keys: "distinct (se_keys S m)" "set (se_keys S m) = dom m" "distinct (f m)" "set (f m) = dom m"
    using assms(1,2) by (auto simp: iterates_def)
  then have same: "mset (se_keys S m) = mset (f m)" by (simp add: set_eq_iff_mset_eq_distinct [symmetric])
  have "build (reordered S f) = build S" by (rule ext) simp
  then have parse: "parse_with_credentials S uri u p = rbind (apply_keys S r m (se_keys S m) b) (build S)"
    "parse_with_credentials (reordered S f) uri u p = rbind (apply_keys S r m (f m) b) (build S)"
    by (simp_all add: parse_prepared prep apply_query_params_def)
  have order: "apply_keys S r m (f m) b = Inr b' \<longleftrightarrow> apply_keys S r m (se_keys S m) b = Inr b'" for b'
    using apply_keys_order [OF same, of S r m b b'] apply_keys_order [OF same [symmetric], of S r m b b'] inj keys(2,4) by auto
  show ?thesis
  proof (cases "apply_keys S r m (se_keys S m) b")
    case (Inr b')
    then show ?thesis using order [of b'] by (simp add: parse)
  next
    case (Inl e)
    moreover obtain e' where e': "apply_keys S r m (f m) b = Inl e'"
      using order Inl by (cases "apply_keys S r m (f m) b") auto
    moreover obtain k k' where "k \<in> dom m" "apply_query_param S r k (the (m k)) = Inl e"
      "k' \<in> dom m" "apply_query_param S r k' (the (m k')) = Inl e'"
      using apply_keys_rejected [OF Inl] apply_keys_rejected [OF e'] keys(2,4) by auto
    ultimately show ?thesis using prep by (cases "k = k'") (auto simp: parse rejects_def)
  qed
qed

subsection \<open>Errors\<close>

text \<open>The errors whose texts hold nothing of the connection string.\<close>

definition public_message :: "string_env \<Rightarrow> string \<Rightarrow> bool" where
  "public_message S m \<longleftrightarrow> m = ''Connection string must start with '' @ quoted ''exasol://''
    \<or> m = ''Username is required'' \<or> m = ''Invalid port: expected a number from 1 to 65535''
    \<or> (\<exists>n. m = ''Invalid query parameter format at position '' @ show_nat n @ '': expected key=value'')
    \<or> (\<exists>what s e. what \<in> {''key'', ''value'', ''username'', ''password''} \<and> se_decode S s = Inl e
        \<and> m = ''Failed to decode '' @ what @ '': '' @ e)"

definition redacted_text :: string where
  "redacted_text = ''Unknown connection parameter.'' @ ('' The query contains '' @ quoted ''@'' @ '': percent-encode '' @ quoted ''?'' @ '' and '' @ quoted ''@'' @
    '' in the user name and password.'') @ '' Accepted parameters: '' @ join '', '' ACCEPTED_QUERY_KEYS"

definition fixed_texts :: "string set" where
  "fixed_texts = {''Host is required'', ''Username is required'', ''Host cannot be empty'', ''Username cannot be empty'',
    ''Port must be greater than 0'', ''Connection timeout cannot exceed 300 seconds'',
    ''Invalid timeout value: expected a whole number of seconds'',
    ''Invalid boolean value: expected true, false, 1, 0, yes, no, on, or off'',
    ''Invalid transport value. Must be '' @ quoted ''native'' @ '' or '' @ quoted ''websocket'', redacted_text}"

definition public_error :: "string_env \<Rightarrow> ConnectionError \<Rightarrow> bool" where
  "public_error S e \<longleftrightarrow> (\<exists>m. e = ParseError m \<and> public_message S m)
    \<or> (\<exists>parameter m. e = InvalidParameter parameter m \<and> m \<in> fixed_texts \<and>
        parameter \<in> set (known_keys @ [''<redacted>'', ''host'', ''username'', ''port'']))"

definition only_public :: "string_env \<Rightarrow> (ConnectionError, 'a) result \<Rightarrow> bool" where
  "only_public S r \<longleftrightarrow> (\<forall>e. r = Inl e \<longrightarrow> (\<exists>e'. e = Failure e' \<and> public_error S e'))"

named_theorems public_intros \<open>computations with public errors only\<close>

lemma only_public_simps [simp]: "only_public S (Inr x)" "only_public S (fail e) = public_error S e"
  by (simp_all add: only_public_def)

lemma only_public_bind [public_intros]:
  "only_public S m \<Longrightarrow> (\<And>x. only_public S (f x)) \<Longrightarrow> only_public S (rbind m f)"
  by (cases m) (auto simp: only_public_def)

lemma only_public_parse_error [public_intros]: "public_message S m \<Longrightarrow> only_public S (parse_error m x)"
  by (auto simp: parse_error_def public_error_def split: option.split)

lemma only_public_decode [public_intros]:
  "what \<in> {''key'', ''value'', ''username'', ''password''} \<Longrightarrow> only_public S (decode S what s)"
proof (cases "se_decode S s")
  case (Inl e)
  assume "what \<in> {''key'', ''value'', ''username'', ''password''}"
  then have "public_message S (''Failed to decode '' @ what @ '': '' @ e)"
    unfolding public_message_def using Inl by blast
  then show ?thesis using Inl by (simp only: decode_def sum.case only_public_simps public_error_def) blast
qed (simp add: decode_def)

lemma only_public_pairs [public_intros]: "only_public S (parse_pairs S i ps m)"
proof (induction ps arbitrary: i m)
  case (Cons p ps)
  have "public_message S (''Invalid query parameter format at position '' @ show_nat (i + 1) @ '': expected key=value'')"
    unfolding public_message_def by blast
  then have "public_error S (ParseError (''Invalid query parameter format at position '' @ show_nat (i + 1) @ '': expected key=value''))"
    unfolding public_error_def by blast
  then show ?case using Cons.IH
    by (auto simp del: append.simps show_nat.simps intro!: public_intros split: option.split)
qed simp

lemma only_public_query [public_intros]: "only_public S (parse_query_params S q)"
  by (auto simp: parse_query_params_def intro!: public_intros split: option.split)

lemma only_public_auth [public_intros]: "only_public S (parse_auth S a)"
  by (auto simp: parse_auth_def intro!: public_intros split: option.split)

lemma only_public_port [public_intros]: "only_public S (parse_port s)"
  unfolding parse_port_def
  by (cases "parse_unsigned 65535 s") (simp_all only: option.case only_public_simps public_error_def public_message_def, blast)

lemma only_public_host [public_intros]: "only_public S (parse_host_port s)"
  by (auto simp: parse_host_port_def intro!: public_intros split: option.split)

lemma fixed_texts_timeout: "''Invalid timeout value: expected a whole number of seconds'' \<in> fixed_texts"
  "''Invalid boolean value: expected true, false, 1, 0, yes, no, on, or off'' \<in> fixed_texts"
  unfolding fixed_texts_def by (rule insertI1 | rule insertI2)+

lemma only_public_names [public_intros]:
  "parameter \<in> set (known_keys @ [''<redacted>'', ''host'', ''username'', ''port'']) \<Longrightarrow> m \<in> fixed_texts \<Longrightarrow> only_public S (required parameter m x)"
  "parameter \<in> set (known_keys @ [''<redacted>'', ''host'', ''username'', ''port'']) \<Longrightarrow> m \<in> fixed_texts \<Longrightarrow> only_public S (ensure c parameter m)"
  "parameter \<in> set (known_keys @ [''<redacted>'', ''host'', ''username'', ''port'']) \<Longrightarrow> only_public S (parse_timeout parameter v)"
  "parameter \<in> set (known_keys @ [''<redacted>'', ''host'', ''username'', ''port'']) \<Longrightarrow> only_public S (parse_bool S parameter v)"
  by (auto simp: required_def ensure_def parse_timeout_def parse_bool_def Let_def public_error_def fixed_texts_timeout split: option.split)

lemma public_build [public_intros]: "only_public S (build S b)"
  unfolding build_def Let_def by (intro public_intros) (simp_all add: known_keys_def fixed_texts_def)

lemma only_public_if [public_intros]:
  "(c \<Longrightarrow> only_public S m) \<Longrightarrow> (\<not> c \<Longrightarrow> only_public S m') \<Longrightarrow> only_public S (if c then m else m')"
  by simp

lemma public_param: "only_public S (apply_query_param S True key v)"
proof -
  have "only_public S (parse_transport S v)"
    by (simp add: parse_transport_def Let_def public_error_def known_keys_def fixed_texts_def)
  moreover have "unknown_parameter True key = InvalidParameter ''<redacted>'' redacted_text"
    unfolding unknown_parameter_def redacted_text_def if_True Let_def split_conv ..
  then have "public_error S (unknown_parameter True key)"
    by (simp add: public_error_def fixed_texts_def)
  ultimately show ?thesis
    unfolding apply_query_param_def
    by (intro public_intros only_public_simps) (simp_all only: only_public_simps, auto simp: known_keys_def)
qed

lemma public_keys [public_intros]: "only_public S (apply_keys S True m ks b)"
  by (induction ks arbitrary: b) (auto intro!: only_public_bind public_param)

lemma public_prepared: "only_public S (prepared_builder S uri u p)"
  unfolding prepared_builder_def Let_def split_def
  by (intro public_intros) (auto simp: public_message_def intro!: public_intros split: option.split)

lemma prepared_redacts:
  "prepared_builder S uri u p = Inr (b, m, r) \<Longrightarrow> query_of uri = Some q \<Longrightarrow> r \<longleftrightarrow> CHR ''@'' \<in> set q"
  by (auto simp: prepared_builder_def query_of_def parse_error_def Let_def split_def rbind_Inr_iff split: option.splits)

lemma parse_errors_public:
  assumes "query_of uri = Some q" "CHR ''@'' \<in> set q"
  shows "only_public S (parse_with_credentials S uri u p)"
proof (cases "prepared_builder S uri u p")
  case (Inl e)
  then show ?thesis using public_prepared [of S uri u p] by (simp add: parse_prepared only_public_def)
next
  case (Inr x)
  obtain b m r where x: "x = (b, m, r)" by (cases x)
  then have r using prepared_redacts [of S uri u p b m r q] Inr assms by simp
  then show ?thesis using Inr x
    by (auto simp: parse_prepared apply_query_params_def intro!: public_intros)
qed

subsection \<open>Composed connection strings\<close>

definition url_char :: "char \<Rightarrow> bool" where
  "url_char c \<longleftrightarrow> 33 \<le> (of_char c :: nat) \<and> (of_char c :: nat) < 127"

definition part_char :: "char \<Rightarrow> bool" where
  "part_char c \<longleftrightarrow> url_char c \<and> c \<notin> set '':/?@&=[]''"

text \<open>Percent-encoding as documented: decoding undoes it, and its output needs no further encoding.\<close>

definition encodes :: "(string \<Rightarrow> string) \<Rightarrow> string_env \<Rightarrow> bool" where
  "encodes enc S \<longleftrightarrow> (\<forall>s. se_decode S (enc s) = Inr s \<and> list_all part_char (enc s))"

definition compose_url :: "(string \<Rightarrow> string) \<Rightarrow> string \<Rightarrow> string \<Rightarrow> string \<Rightarrow> u16 \<Rightarrow> string option \<Rightarrow> string" where
  "compose_url enc user pass addr prt schema =
    ''exasol://'' @ enc user @ CHR '':'' # enc pass @ CHR ''@'' # addr @ CHR '':'' # show_nat (unat prt) @
    (case schema of None \<Rightarrow> [] | Some s \<Rightarrow> CHR ''/'' # s)"

lemma text_chars_ascii: "list_all is_ascii s \<Longrightarrow> map snd (char_indices i s) = map (\<lambda>c. [c]) s"
  by (induction s arbitrary: i) simp_all

lemma url_char_props: "url_char c \<Longrightarrow> is_ascii c \<and> \<not> is_whitespace [c]"
proof -
  assume c: "url_char c"
  have "c \<noteq> char_of n" if "n < 33 \<or> 127 \<le> n" "n < 256" for n :: nat
    using c that by (auto simp: url_char_def)
  then show ?thesis using c by (auto simp: is_whitespace_def utf8_of_def is_ascii_def url_char_def)
qed

lemma trim_url: "list_all url_char s \<Longrightarrow> trim s = s"
proof -
  assume s: "list_all url_char s"
  then have a: "list_all is_ascii s" using url_char_props by (auto simp: list_all_iff)
  let ?cs = "map (\<lambda>c. [c]) s"
  have w: "\<forall>x \<in> set ?cs. \<not> is_whitespace x" using s url_char_props by (auto simp: list_all_iff)
  have d: "dropWhile is_whitespace xs = xs" if "\<forall>x \<in> set xs. \<not> is_whitespace x" for xs
    using that by (cases xs) auto
  from d [OF w] d [of "rev ?cs"] w have "dropWhile is_whitespace ?cs = ?cs" "dropWhile is_whitespace (rev ?cs) = rev ?cs"
    by simp_all
  then show ?thesis by (simp add: trim_def text_chars_ascii [OF a] concat_map_singleton)
qed

lemma rsplit_once_sep: "c \<notin> set b \<Longrightarrow> rsplit_once c (a @ c # b) = Some (a, b)"
  using split_once_sep [of c "rev b" "rev a"] by (simp add: rsplit_once_def)

lemma part_chars: "list_all part_char s \<Longrightarrow> list_all url_char s" "list_all part_char s \<Longrightarrow> c \<in> set '':/?@&=[]'' \<Longrightarrow> c \<notin> set s"
  by (auto simp: list_all_iff part_char_def)

lemma digits_part: "list_all part_char (show_nat n)"
proof -
  have "part_char c" if "is_ascii_digit c" for c using that by (auto simp: is_ascii_digit_def part_char_def url_char_def)
  then show ?thesis using show_nat_digits [of n] by (auto simp: list_all_iff)
qed

lemma parse_host_port_composed:
  assumes "list_all part_char addr" "addr \<noteq> []"
  shows "parse_host_port (addr @ CHR '':'' # show_nat (unat prt)) = Inr (addr, prt)"
proof -
  have "unat prt \<le> 65535" using unsigned_less [of prt, where ?'a = nat] by simp
  then have p: "parse_unsigned 65535 (show_nat (unat prt)) = Some (unat prt)"
    by (simp add: parse_unsigned_digits [OF parse_digits_show])
  obtain c r where "addr = c # r" "c \<noteq> CHR ''[''" using assms by (cases addr) (auto simp: part_char_def)
  then have "bracketed (addr @ CHR '':'' # show_nat (unat prt)) = None" by (simp add: bracketed_def)
  moreover have "rsplit_once (CHR '':'') (addr @ CHR '':'' # show_nat (unat prt)) = Some (addr, show_nat (unat prt))"
    by (rule rsplit_once_sep) (use part_chars(2) [OF digits_part] in simp)
  ultimately show ?thesis by (simp add: parse_host_port_def parse_port_def p)
qed

lemma compose_parses:
  assumes enc: "encodes enc S" and it: "iterates S"
    and host: "list_all part_char addr" "addr \<noteq> []" and schema: "schema \<noteq> Some []"
      "\<And>s. schema = Some s \<Longrightarrow> list_all url_char s \<and> CHR ''?'' \<notin> set s \<and> CHR ''@'' \<notin> set s"
    and user: "user \<noteq> []" and port: "prt \<noteq> 0"
  shows "connection_params_from_str S (compose_url enc user pass addr prt schema) =
    Inr \<lparr>dp_host = addr, dp_port = prt, dp_username = user, dp_password = pass, dp_schema = schema,
      dp_connection_timeout = from_secs 30, dp_query_timeout = None, dp_use_tls = True,
      dp_validate_server_certificate = True, dp_certificate_fingerprint = None, dp_client_name = DRIVER_NAME,
      dp_client_version = se_driver_version S, dp_transport = None\<rparr>"
proof -
  let ?num = "show_nat (unat prt)" and ?tail = "case schema of None \<Rightarrow> [] | Some s \<Rightarrow> CHR ''/'' # s"
  let ?auth = "enc user @ CHR '':'' # enc pass" and ?hp = "addr @ CHR '':'' # ?num @ ?tail"
  have e: "list_all part_char (enc user)" "list_all part_char (enc pass)" "se_decode S (enc user) = Inr user"
    "se_decode S (enc pass) = Inr pass" using enc by (simp_all add: encodes_def)
  note parts = e(1,2) host(1) digits_part [of "unat prt"]
  have tail: "list_all url_char ?tail" "CHR ''?'' \<notin> set ?tail" "CHR ''@'' \<notin> set ?tail"
    using schema(2) by (auto simp: url_char_def split: option.split)
  have absent: "c \<notin> set (enc user)" "c \<notin> set (enc pass)" "c \<notin> set addr" "c \<notin> set ?num" if "c \<in> set '':/?@&=[]''" for c
    using that parts part_chars(2) by blast+
  have "list_all url_char (compose_url enc user pass addr prt schema)"
    using tail(1) parts [THEN part_chars(1)] by (simp add: compose_url_def) (simp add: url_char_def)
  then have trimmed: "strip_prefix ''exasol://'' (trim (compose_url enc user pass addr prt schema)) = Some (?auth @ CHR ''@'' # ?hp)"
    by (simp add: trim_url) (simp add: compose_url_def strip_prefix_def starts_with_def)
  have q: "split_once (CHR ''?'') (?auth @ CHR ''@'' # ?hp) = None"
    by (rule split_once_no_sep) (use absent tail in auto)
  have at: "rsplit_once (CHR ''@'') (?auth @ CHR ''@'' # ?hp) = Some (?auth, ?hp)"
    by (rule rsplit_once_sep) (use absent tail in auto)
  have auth: "parse_auth S ?auth = Inr (user, Some pass)"
    using split_once_sep [of "CHR '':''" "enc user" "enc pass"] absent(1) [of "CHR '':''"] e
    by (simp add: parse_auth_def decode_def)
  have slash: "(case split_once (CHR ''/'') ?hp of
      Some (h, s) \<Rightarrow> (h, if s = [] then None else Some s) | None \<Rightarrow> (?hp, None)) = (addr @ CHR '':'' # ?num, schema)"
  proof (cases schema)
    case None
    then show ?thesis using absent(3,4) [of "CHR ''/''"] by (simp add: split_once_no_sep)
  next
    case (Some s)
    then have "s \<noteq> []" using schema(1) by simp
    have "split_once (CHR ''/'') ((addr @ CHR '':'' # ?num) @ CHR ''/'' # s) = Some (addr @ CHR '':'' # ?num, s)"
      by (rule split_once_sep) (use absent(3,4) [of "CHR ''/''"] in simp)
    then show ?thesis using Some \<open>s \<noteq> []\<close> by simp
  qed
  have keys: "se_keys S (Map.empty |` A) = []" for A
    using it by (simp add: iterates_def) (metis dom_empty finite.emptyI set_empty)
  show ?thesis
    using trimmed q at auth slash parse_host_port_composed [OF host] keys user port host(2)
    by (simp add: connection_params_from_str_def parse_with_credentials_def parse_error_def parse_query_params_def
        apply_query_params_def build_def ConnectionBuilder_new_def required_def ensure_def or_default_def from_secs_def Let_def)
qed

end
