(* ===== verification/Statement_Laws.thy ===== *)
theory Statement_Laws
  imports Statement
begin

text \<open>
  What the substitution of parameters means. The scanner looks one byte ahead; the
  reference is an automaton that reads one byte at a time and keeps a pending state
  instead, so texts can be concatenated. Its output is the sequence of lexical events of
  the text, in which a quoted literal is one unit and comments disappear.
\<close>

named_theorems lex_simps \<open>steps of the lexical automaton\<close>

subsection \<open>The lexical automaton\<close>

datatype quote = Single | Double

fun mark :: "quote \<Rightarrow> char" where
  "mark Single = CHR 0x27"
| "mark Double = CHR 0x22"

datatype lex = Outside | Dash | Slash | Quoted quote | QuoteEnd quote | Line | Block | Star

abbreviation "newline \<equiv> CHR 0x0A"

definition lex_outside :: "char \<Rightarrow> lex" where
  "lex_outside c =
    (if c = mark Single then Quoted Single else if c = mark Double then Quoted Double
     else if c = CHR ''-'' then Dash else if c = CHR ''/'' then Slash else Outside)"

fun lex_next :: "lex \<Rightarrow> char \<Rightarrow> lex" where
  "lex_next Outside c = lex_outside c"
| "lex_next Dash c = (if c = CHR ''-'' then Line else lex_outside c)"
| "lex_next Slash c = (if c = CHR ''*'' then Block else lex_outside c)"
| "lex_next (Quoted q) c = (if c = mark q then QuoteEnd q else Quoted q)"
| "lex_next (QuoteEnd q) c = (if c = mark q then Quoted q else lex_outside c)"
| "lex_next Line c = (if c = newline then Outside else Line)"
| "lex_next Block c = (if c = CHR ''*'' then Star else Block)"
| "lex_next Star c = (if c = CHR ''/'' then Outside else if c = CHR ''*'' then Star else Block)"

text \<open>The states in which the next byte is outside every literal and comment.\<close>

fun open_text :: "lex \<Rightarrow> bool" where
  "open_text (Quoted q) = False"
| "open_text Line = False"
| "open_text Block = False"
| "open_text Star = False"
| "open_text _ = True"

definition is_hole :: "lex \<Rightarrow> char \<Rightarrow> bool" where
  "is_hole q c \<longleftrightarrow> c = CHR ''?'' \<and> open_text q"

fun hole_positions :: "nat \<Rightarrow> lex \<Rightarrow> string \<Rightarrow> nat list" where
  "hole_positions i q [] = []"
| "hole_positions i q (c # s) =
    (if is_hole q c then i # hole_positions (i + 1) (lex_next q c) s
     else hole_positions (i + 1) (lex_next q c) s)"

definition holes :: "string \<Rightarrow> nat" where
  "holes s = length (hole_positions 0 Outside s)"

lemma quote_neq: "q \<noteq> Single \<longleftrightarrow> q = Double"
  by (cases q) simp_all

lemma mark_neq [simp]: "CHR ''?'' \<noteq> mark q" "mark q \<noteq> CHR ''?''"
  by (cases q; simp)+

lemma lex_next_hole [simp]: "is_hole q c \<Longrightarrow> lex_next q c = Outside"
  by (cases q) (auto simp: is_hole_def lex_outside_def split: if_splits)

subsection \<open>The scanner is the automaton\<close>

fun lex_of :: "ScanState \<Rightarrow> lex" where
  "lex_of Normal = Outside"
| "lex_of SingleQuoted = Quoted Single"
| "lex_of DoubleQuoted = Quoted Double"
| "lex_of LineComment = Line"
| "lex_of BlockComment = Block"

lemma lex_next_not_ascii: "\<not> is_ascii c \<Longrightarrow> lex_next (lex_of st) c = lex_of st"
  by (cases st) (auto simp: is_ascii_def lex_outside_def)

lemma hole_ascii: "is_hole q c \<Longrightarrow> is_ascii c"
  by (auto simp: is_hole_def is_ascii_def)

lemma hole_positions_not_ascii:
  "list_all (\<lambda>c. \<not> is_ascii c) t \<Longrightarrow>
    hole_positions i (lex_of st) (t @ s) = hole_positions (i + length t) (lex_of st) s"
  by (induction t arbitrary: i) (auto simp: lex_next_not_ascii dest: hole_ascii)

lemma tail_not_ascii: "list_all (\<lambda>c. \<not> is_ascii c) (takeWhile is_utf8_tail s)"
  by (auto simp: list_all_iff is_ascii_def is_utf8_tail_def dest!: set_takeWhileD)

lemma scan_step_not_ascii: "\<not> is_ascii c \<Longrightarrow> scan_step st (c # t) b = go st"
  by (cases st) (auto simp: scan_step_def step_outside_literal_def step_inside_quotes_def
      step_inside_line_comment_def step_inside_block_comment_def is_ascii_def)

text \<open>A pending state behaves as the text outside unless the second byte of its pair follows.\<close>

lemma hole_positions_pending:
  "(s = [] \<or> hd s \<noteq> CHR ''-'') \<Longrightarrow> hole_positions i Dash s = hole_positions i Outside s"
  "(s = [] \<or> hd s \<noteq> CHR ''*'') \<Longrightarrow> hole_positions i Slash s = hole_positions i Outside s"
  "(s = [] \<or> hd s \<noteq> mark q) \<Longrightarrow> hole_positions i (QuoteEnd q) s = hole_positions i Outside s"
  "(s = [] \<or> hd s \<noteq> CHR ''/'') \<Longrightarrow> hole_positions i Star s = hole_positions i Block s"
  by (cases s; simp add: is_hole_def)+

definition following :: "string \<Rightarrow> char option" where
  "following s = (case s of [] \<Rightarrow> None | c # _ \<Rightarrow> Some c)"

lemma byte_at_following: "byte_at (pre @ c # s) (length pre + 1) = following s"
  by (cases s) (simp_all add: byte_at_def following_def nth_append)

lemma following_neq: "following s \<noteq> Some c \<Longrightarrow> s = [] \<or> hd s \<noteq> c"
  by (cases s) (simp_all add: following_def)

lemma following_eq: "following s = Some c \<longleftrightarrow> (\<exists>s'. s = c # s')"
  by (cases s) (auto simp: following_def)

text \<open>One turn of the scanner on an ASCII character, with and without its pair.\<close>

lemma scan_step_single:
  assumes "step = scan_step st [c] (following s)" and "\<not> consumed_pair step"
  shows "hole_positions i (lex_of st) (c # s) =
    (if is_placeholder step then i # hole_positions (i + 1) (lex_of (ss_state step)) s
     else hole_positions (i + 1) (lex_of (ss_state step)) s)"
  using assms
  by (cases st)
    (auto simp: scan_step_def step_outside_literal_def step_inside_quotes_def step_inside_line_comment_def
      step_inside_block_comment_def go_def go_past_pair_def placeholder_def is_hole_def lex_outside_def
      hole_positions_pending following_neq split: if_splits)

lemma scan_step_pair:
  assumes "step = scan_step st [c] (following s)" and "consumed_pair step"
  shows "\<exists>e s'. s = e # s' \<and> is_ascii e \<and> \<not> is_placeholder step \<and>
    hole_positions i (lex_of st) (c # s) = hole_positions (i + 2) (lex_of (ss_state step)) s'"
  using assms
  by (cases st)
    (auto simp: scan_step_def step_outside_literal_def step_inside_quotes_def step_inside_line_comment_def
      step_inside_block_comment_def go_def go_past_pair_def placeholder_def is_hole_def lex_outside_def
      following_eq is_ascii_def split: if_splits)

lemma scan_loop_positions:
  "scan_loop (pre @ s) st (char_indices (length pre) s) = hole_positions (length pre) (lex_of st) s"
proof (induction "length s" arbitrary: pre s st rule: less_induct)
  case less
  show ?case
  proof (cases s)
    case (Cons c cs)
    let ?step = "scan_step st [c] (following cs)"
    show ?thesis
    proof (cases "is_ascii c")
      case ascii: True
      show ?thesis
      proof (cases "consumed_pair ?step")
        case True
        then obtain e s' where s': "cs = e # s'" "is_ascii e" "\<not> is_placeholder ?step"
          and h: "hole_positions (length pre) (lex_of st) (c # cs) =
            hole_positions (length pre + 2) (lex_of (ss_state ?step)) s'"
          using scan_step_pair [OF refl] by blast
        have "scan_loop ((pre @ [c, e]) @ s') (ss_state ?step) (char_indices (length (pre @ [c, e])) s') =
            hole_positions (length (pre @ [c, e])) (lex_of (ss_state ?step)) s'"
          using less [of s' "pre @ [c, e]"] Cons s'(1) by simp
        then show ?thesis
          using True Cons s' h ascii byte_at_following [of pre c cs] by (simp add: Let_def)
      next
        case False
        have "scan_loop ((pre @ [c]) @ cs) (ss_state ?step) (char_indices (length (pre @ [c])) cs) =
            hole_positions (length (pre @ [c])) (lex_of (ss_state ?step)) cs"
          using less [of cs "pre @ [c]"] Cons by simp
        then show ?thesis
          using False Cons ascii byte_at_following [of pre c cs]
            scan_step_single [OF refl False, of "length pre"] by (simp add: Let_def)
      qed
    next
      case wide: False
      let ?t = "takeWhile is_utf8_tail cs" and ?r = "dropWhile is_utf8_tail cs"
      have "length ?r < length s" using Cons by (simp add: less_Suc_eq_le length_dropWhile_le)
      then have "scan_loop ((pre @ c # ?t) @ ?r) st (char_indices (length (pre @ c # ?t)) ?r) =
          hole_positions (length (pre @ c # ?t)) (lex_of st) ?r"
        by (rule less)
      moreover have "list_all (\<lambda>c. \<not> is_ascii c) (c # ?t)"
        using wide tail_not_ascii by simp
      from hole_positions_not_ascii [OF this, of "length pre" st ?r]
      have "hole_positions (length pre) (lex_of st) s = hole_positions (length (pre @ c # ?t)) (lex_of st) ?r"
        using Cons by simp
      ultimately show ?thesis
        using Cons wide by (simp add: Let_def scan_step_not_ascii go_def)
    qed
  qed simp
qed

lemma scan_placeholders_holes: "scan_placeholders s = hole_positions 0 Outside s"
  using scan_loop_positions [of "[]" s Normal] by (simp add: scan_placeholders_def)

subsection \<open>One pass from left to right\<close>

text \<open>
  The reference of the substitution: copy the text and put the next literal in the place of
  each placeholder.
\<close>

fun fill :: "lex \<Rightarrow> string \<Rightarrow> string list \<Rightarrow> string" where
  "fill q [] ls = []"
| "fill q (c # s) ls =
    (if is_hole q c then (case ls of [] \<Rightarrow> c # fill Outside s [] | l # ls' \<Rightarrow> l @ fill Outside s ls')
     else c # fill (lex_next q c) s ls)"

text \<open>The literals of the parameters from \<open>k\<close> on; the last one is converted first.\<close>

primrec literals :: "text_env \<Rightarrow> Parameter option list \<Rightarrow> nat \<Rightarrow> nat \<Rightarrow> (QueryError, string list) result" where
  "literals T params k 0 = Inr []"
| "literals T params k (Suc n) =
    rbind (literals T params (k + 1) n) (\<lambda>ls.
    rbind (bound_parameter params k) (\<lambda>p.
    rbind (to_sql_literal T p) (\<lambda>l. Inr (l # ls))))"

lemma substitute_append:
  "substitute T params (xs @ ys) sql = rbind (substitute T params xs sql) (substitute T params ys)"
  by (induction xs arbitrary: sql) (auto simp: rbind_assoc intro!: rbind_cong)

lemma substitute_fill:
  "substitute T params (rev (enumerate k (hole_positions (length pre) q s))) (pre @ s) =
    rbind (literals T params k (length (hole_positions (length pre) q s))) (\<lambda>ls. Inr (pre @ fill q s ls))"
proof (induction s arbitrary: pre k q)
  case (Cons c s)
  show ?case
  proof (cases "is_hole q c")
    case True
    let ?ps = "hole_positions (length pre + 1) Outside s"
    have "substitute T params (rev (enumerate (k + 1) ?ps)) (pre @ c # s) =
        rbind (literals T params (k + 1) (length ?ps)) (\<lambda>ls. Inr (pre @ c # fill Outside s ls))"
      using Cons.IH [of "k + 1" "pre @ [c]" Outside] by simp
    then show ?thesis
      using True by (simp add: substitute_append rbind_assoc replace_range_def)
  next
    case False
    then show ?thesis using Cons.IH [of k "pre @ [c]" "lex_next q c"] by simp
  qed
qed simp

lemma build_sql_fill:
  "build_sql T st =
    (if length (st_parameters st) < holes (st_sql st)
     then fail (ParameterBindingError (length (st_parameters st)) ''Not enough parameters bound'')
     else rbind (literals T (st_parameters st) 0 (holes (st_sql st))) (\<lambda>ls. Inr (fill Outside (st_sql st) ls)))"
  using substitute_fill [of T "st_parameters st" 0 "[]" Outside "st_sql st"]
  by (simp add: build_sql_def scan_placeholders_holes holes_def)

lemma graceful_literal: "graceful (to_sql_literal T p)"
  by (simp add: to_sql_literal_def split: Parameter.splits)

lemma graceful_literals: "k + n \<le> length params \<Longrightarrow> graceful (literals T params k n)"
  by (induction n arbitrary: k)
    (auto simp: bound_parameter_def graceful_literal split: option.splits intro!: graceful_rbind)

lemma graceful_build_sql: "graceful (build_sql T st)"
  by (auto simp: build_sql_fill intro!: graceful_rbind graceful_literals)

lemma literals_nth:
  assumes "literals T params k n = Inr ls"
  shows "length ls = n" and "i < n \<Longrightarrow>
    \<exists>p. k + i < length params \<and> params ! (k + i) = Some p \<and> to_sql_literal T p = Inr (ls ! i)"
  using assms
proof (induction n arbitrary: k ls i)
  case (Suc n)
  {
    case 1
    then show ?case using Suc.IH(1) by (auto simp: res_simps)
  next
    case 2
    then obtain l ls' p where l: "ls = l # ls'" "literals T params (k + 1) n = Inr ls'"
      "bound_parameter params k = Inr p" "to_sql_literal T p = Inr l"
      by (auto simp: res_simps)
    show ?case
    proof (cases i)
      case 0
      then show ?thesis using l by (auto simp: bound_parameter_def split: if_splits option.splits)
    next
      case (Suc j)
      then show ?thesis using Suc.IH(2) [of j "k + 1" ls'] l 2 by simp
    qed
  }
qed simp_all

subsection \<open>Lexical events\<close>

datatype event = Code char | Hole | Open quote | Inner char | Close quote

fun pending :: "lex \<Rightarrow> event list" where
  "pending Dash = [Code (CHR ''-'')]"
| "pending Slash = [Code (CHR ''/'')]"
| "pending (QuoteEnd q) = [Close q]"
| "pending _ = []"

definition emit_outside :: "char \<Rightarrow> event list" where
  "emit_outside c =
    (if c = CHR ''?'' then [Hole]
     else if c = mark Single then [Open Single] else if c = mark Double then [Open Double]
     else if c = CHR ''-'' \<or> c = CHR ''/'' then [] else [Code c])"

fun emit :: "lex \<Rightarrow> char \<Rightarrow> event list" where
  "emit Outside c = emit_outside c"
| "emit Dash c = (if c = CHR ''-'' then [] else pending Dash @ emit_outside c)"
| "emit Slash c = (if c = CHR ''*'' then [] else pending Slash @ emit_outside c)"
| "emit (Quoted q) c = (if c = mark q then [] else [Inner c])"
| "emit (QuoteEnd q) c = (if c = mark q then [Inner c] else pending (QuoteEnd q) @ emit_outside c)"
| "emit Line c = (if c = newline then [Code c] else [])"
| "emit Block c = []"
| "emit Star c = []"

fun events :: "lex \<Rightarrow> string \<Rightarrow> event list" where
  "events q [] = pending q"
| "events q (c # s) = emit q c @ events (lex_next q c) s"

text \<open>The events of a template with the events of a value in the place of each placeholder.\<close>

fun fill_events :: "event list \<Rightarrow> event list list \<Rightarrow> event list" where
  "fill_events [] vs = []"
| "fill_events (Hole # es) [] = Hole # fill_events es []"
| "fill_events (Hole # es) (v # vs) = v @ fill_events es vs"
| "fill_events (e # es) vs = e # fill_events es vs"

definition literal_events :: "string \<Rightarrow> event list" where
  "literal_events s = Open Single # map Inner s @ [Close Single]"

definition value_events :: "text_env \<Rightarrow> Parameter \<Rightarrow> event list" where
  "value_events T p = (case p of
      PNull \<Rightarrow> map Code ''NULL''
    | PBoolean b \<Rightarrow> map Code (if b then ''TRUE'' else ''FALSE'')
    | PInteger i \<Rightarrow> map Code (show_int (sint i))
    | PFloat f \<Rightarrow> map Code (show_f64 T f)
    | PString s \<Rightarrow> literal_events s
    | PBinary b \<Rightarrow> literal_events (hex_encode b))"

text \<open>
  A template whose placeholders stand free: none follows a minus sign or a closing
  apostrophe, and none is followed by an apostrophe or another placeholder.
\<close>

fun separated :: "lex \<Rightarrow> string \<Rightarrow> bool" where
  "separated q [] = True"
| "separated q (c # s) \<longleftrightarrow>
    (is_hole q c \<longrightarrow> q \<noteq> Dash \<and> q \<noteq> QuoteEnd Single \<and> (s = [] \<or> hd s \<notin> {mark Single, CHR ''?''}))
    \<and> separated (lex_next q c) s"

text \<open>The documented form of the text of a finite \<open>f64\<close>: an optional minus sign, digits, a point.\<close>

definition number_text :: "string \<Rightarrow> bool" where
  "number_text s \<longleftrightarrow> (let d = (if take 1 s = ''-'' then drop 1 s else s) in
     d \<noteq> [] \<and> list_all (\<lambda>c. is_ascii_digit c \<or> c = CHR ''.'') d)"

subsection \<open>A literal is one unit\<close>

definition free_state :: "lex \<Rightarrow> bool" where
  "free_state q \<longleftrightarrow> open_text q \<and> q \<noteq> Dash \<and> q \<noteq> QuoteEnd Single"

text \<open>After any free state, and before any text that does not go on with an apostrophe.\<close>

definition reads_as :: "string \<Rightarrow> event list \<Rightarrow> bool" where
  "reads_as l v \<longleftrightarrow> (\<forall>q s. free_state q \<longrightarrow> (s = [] \<or> hd s \<noteq> mark Single) \<longrightarrow>
    events q (l @ s) = pending q @ v @ events Outside s)"

definition plain_char :: "char \<Rightarrow> bool" where
  "plain_char c \<longleftrightarrow> c \<notin> {CHR ''?'', mark Single, mark Double, CHR ''-'', CHR ''/'', CHR ''*''}"

lemma plain_char_step:
  assumes "plain_char c"
  shows "open_text q \<Longrightarrow> emit q c = pending q @ [Code c]" and "open_text q \<Longrightarrow> lex_next q c = Outside"
proof -
  have "c \<noteq> mark r" for r using assms by (cases r) (auto simp: plain_char_def)
  then show "open_text q \<Longrightarrow> emit q c = pending q @ [Code c]" "open_text q \<Longrightarrow> lex_next q c = Outside"
    using assms by (cases q; simp add: plain_char_def emit_outside_def lex_outside_def)+
qed

lemma events_plain_chars: "list_all plain_char cs \<Longrightarrow> events Outside (cs @ s) = map Code cs @ events Outside s"
  by (induction cs) (simp_all add: plain_char_step [where q = Outside, simplified])

lemma events_plain_open:
  "open_text q \<Longrightarrow> list_all plain_char cs \<Longrightarrow> cs \<noteq> [] \<Longrightarrow>
    events q (cs @ s) = pending q @ map Code cs @ events Outside s"
  by (cases cs) (simp_all add: plain_char_step events_plain_chars)

lemma reads_as_plain: "list_all plain_char cs \<Longrightarrow> cs \<noteq> [] \<Longrightarrow> reads_as cs (map Code cs)"
  by (simp add: reads_as_def free_state_def events_plain_open)

lemma reads_as_minus:
  assumes "list_all plain_char cs" and "cs \<noteq> []"
  shows "reads_as (CHR ''-'' # cs) (map Code (CHR ''-'' # cs))"
proof -
  have "emit q (CHR ''-'') = pending q \<and> lex_next q (CHR ''-'') = Dash" if "free_state q" for q
  proof -
    have "CHR ''-'' \<noteq> mark r" for r by (cases r) simp_all
    then show ?thesis using that
      by (cases q) (simp_all add: free_state_def emit_outside_def lex_outside_def)
  qed
  then show ?thesis using events_plain_open [of Dash cs] assms by (simp add: reads_as_def)
qed

lemma digit_plain: "is_ascii_digit c \<or> c = CHR ''.'' \<Longrightarrow> plain_char c"
  by (auto simp: plain_char_def is_ascii_digit_def)

lemma reads_as_number: "number_text s \<Longrightarrow> reads_as s (map Code s)"
proof -
  assume num: "number_text s"
  show ?thesis
  proof (cases "take 1 s = ''-''")
    case True
    then obtain cs where s: "s = CHR ''-'' # cs" by (cases s) auto
    then have "list_all plain_char cs" "cs \<noteq> []"
      using num by (auto simp: number_text_def Let_def list_all_iff intro!: digit_plain)
    then show ?thesis unfolding s by (rule reads_as_minus)
  next
    case False
    then show ?thesis
      using num by (intro reads_as_plain) (auto simp: number_text_def Let_def list_all_iff intro!: digit_plain)
  qed
qed

lemma number_text_show_int: "number_text (show_int i)"
proof -
  have "list_all (\<lambda>c. is_ascii_digit c \<or> c = CHR ''.'') (show_nat n)" for n
    using show_nat_digits [of n] by (auto simp: list_all_iff)
  moreover have "take 1 (show_nat n) \<noteq> ''-''" for n
    using show_nat_digits [of n] by (cases "show_nat n") auto
  ultimately show ?thesis by (auto simp: number_text_def show_int_def Let_def)
qed

lemma events_escaped:
  "s = [] \<or> hd s \<noteq> mark Single \<Longrightarrow>
    events (Quoted Single) (replace_char (CHR 0x27) [CHR 0x27, CHR 0x27] t @ CHR 0x27 # s) =
      map Inner t @ Close Single # events Outside s"
proof (induction t)
  case Nil
  then show ?case by (cases s) (simp_all add: replace_char_def)
qed (simp_all add: replace_char_def)

lemma reads_as_escaped:
  "reads_as (quoted (replace_char (CHR 0x27) [CHR 0x27, CHR 0x27] t)) (literal_events t)"
proof -
  have "emit q (CHR 0x27) = pending q @ [Open Single] \<and> lex_next q (CHR 0x27) = Quoted Single"
    if "free_state q" for q
    using that by (cases q) (auto simp: free_state_def emit_outside_def lex_outside_def quote_neq)
  then show ?thesis
    by (simp add: reads_as_def quoted_def literal_events_def events_escaped)
qed

lemma hex_char_not_quote: "n < 16 \<Longrightarrow> hex_char n \<noteq> CHR 0x27"
proof -
  assume "n < 16"
  then have "(of_char (hex_char n) :: nat) \<noteq> of_char (CHR 0x27)"
    by (auto simp: hex_char_def)
  then show ?thesis by metis
qed

lemma escaped_hex: "replace_char (CHR 0x27) r (hex_encode bs) = hex_encode bs"
proof -
  have "unat b div 16 < 16" for b :: byte using unat_byte_less [of b] by simp
  then show ?thesis
    by (induction bs) (auto simp: hex_encode_def replace_char_def hex_char_not_quote)
qed

lemma reads_as_literal:
  assumes "to_sql_literal T p = Inr l"
    and "\<And>f. \<not> f64_not_finite f \<Longrightarrow> number_text (show_f64 T f)"
  shows "reads_as l (value_events T p)"
proof (cases p)
  case PNull
  have "reads_as ''NULL'' (map Code ''NULL'')"
    by (rule reads_as_plain) (simp_all add: plain_char_def)
  then show ?thesis using PNull assms(1) by (auto simp: to_sql_literal_def value_events_def)
next
  case (PBoolean b)
  have "reads_as ''TRUE'' (map Code ''TRUE'')" "reads_as ''FALSE'' (map Code ''FALSE'')"
    by (rule reads_as_plain; simp add: plain_char_def)+
  then show ?thesis using PBoolean assms(1) by (cases b) (auto simp: to_sql_literal_def value_events_def)
next
  case (PInteger i)
  then show ?thesis using assms(1) reads_as_number [OF number_text_show_int]
    by (auto simp: to_sql_literal_def value_events_def)
next
  case (PFloat f)
  then show ?thesis using assms reads_as_number [of "show_f64 T f"]
    by (auto simp: to_sql_literal_def value_events_def split: if_splits)
next
  case (PString t)
  then show ?thesis using assms(1) reads_as_escaped [of t]
    by (auto simp: to_sql_literal_def value_events_def split: if_splits)
next
  case (PBinary b)
  then show ?thesis using assms(1) reads_as_escaped [of "hex_encode b"]
    by (auto simp: to_sql_literal_def value_events_def escaped_hex)
qed

subsection \<open>The events of the final text\<close>

lemma fill_events_append: "Hole \<notin> set a \<Longrightarrow> fill_events (a @ es) vs = a @ fill_events es vs"
proof (induction a)
  case (Cons e a)
  then show ?case by (cases e) simp_all
qed simp

lemma pending_no_hole: "Hole \<notin> set (pending q)"
  by (cases q) simp_all

lemma emit_no_hole: "\<not> is_hole q c \<Longrightarrow> Hole \<notin> set (emit q c)"
  by (cases q) (auto simp: is_hole_def emit_outside_def)

lemma emit_hole: "is_hole q c \<Longrightarrow> emit q c = pending q @ [Hole]"
  by (cases q) (auto simp: is_hole_def emit_outside_def)

lemma hd_fill: "s = [] \<or> hd s \<noteq> CHR ''?'' \<Longrightarrow> fill q s ls = [] \<or> hd (fill q s ls) = hd s"
  by (cases s) (auto simp: is_hole_def)

lemma events_fill:
  "separated q s \<Longrightarrow> list_all2 reads_as ls vs \<Longrightarrow> events q (fill q s ls) = fill_events (events q s) vs"
proof (induction s arbitrary: q ls vs)
  case Nil
  then show ?case using fill_events_append [OF pending_no_hole, of q "[]" vs] by simp
next
  case (Cons c s)
  show ?case
  proof (cases "is_hole q c")
    case hole: True
    show ?thesis
    proof (cases ls)
      case Nil
      then have "vs = []" using Cons.prems(2) by simp
      then show ?thesis using hole Nil Cons.IH [of Outside "[]" "[]"] Cons.prems(1)
        by (simp add: emit_hole fill_events_append [OF pending_no_hole])
    next
      case (Cons l ls')
      then obtain v vs' where vs: "vs = v # vs'" "reads_as l v" "list_all2 reads_as ls' vs'"
        using Cons.prems(2) by (cases vs) auto
      have rest: "fill Outside s ls' = [] \<or> hd (fill Outside s ls') \<noteq> mark Single"
        using hole Cons.prems(1) hd_fill [of s Outside ls'] by (cases s) auto
      have free: "free_state q"
        using hole Cons.prems(1) by (simp add: free_state_def is_hole_def)
      have "events q (l @ fill Outside s ls') = pending q @ v @ events Outside (fill Outside s ls')"
        using vs(2) rest free unfolding reads_as_def by blast
      then show ?thesis
        using hole Cons vs Cons.IH [of Outside ls' vs'] Cons.prems(1)
        by (simp add: emit_hole fill_events_append [OF pending_no_hole])
    qed
  next
    case False
    then show ?thesis using Cons.IH [of "lex_next q c" ls vs] Cons.prems
      by (simp add: fill_events_append [OF emit_no_hole])
  qed
qed

lemma literals_read_as:
  assumes "literals T params k n = Inr ls"
    and "\<And>f. \<not> f64_not_finite f \<Longrightarrow> number_text (show_f64 T f)"
  shows "list_all2 reads_as ls (map (\<lambda>p. value_events T (the p)) (take n (drop k params)))"
proof (rule list_all2I)
  have len: "length ls = n" by (rule literals_nth(1) [OF assms(1)])
  have room: "n \<le> length params - k"
  proof (cases n)
    case (Suc m)
    then show ?thesis using literals_nth(2) [OF assms(1), of m] by auto
  qed simp
  show "length ls = length (map (\<lambda>p. value_events T (the p)) (take n (drop k params)))"
    using len room by simp
  show "\<forall>x\<in>set (zip ls (map (\<lambda>p. value_events T (the p)) (take n (drop k params)))). case_prod reads_as x"
  proof (clarsimp simp: in_set_conv_nth)
    fix i assume i: "i < length ls" "i < length params - k" "i < n"
    then obtain p where "k + i < length params" "params ! (k + i) = Some p" "to_sql_literal T p = Inr (ls ! i)"
      using literals_nth(2) [OF assms(1), of i] by auto
    then show "reads_as (ls ! i) (value_events T (the (params ! (k + i))))"
      using reads_as_literal [OF _ assms(2)] by simp
  qed
qed

lemma build_sql_events:
  assumes "build_sql T st = Inr sql" and "separated Outside (st_sql st)"
    and "\<And>f. \<not> f64_not_finite f \<Longrightarrow> number_text (show_f64 T f)"
  shows "events Outside sql =
    fill_events (events Outside (st_sql st))
      (map (\<lambda>p. value_events T (the p)) (take (holes (st_sql st)) (st_parameters st)))"
proof -
  obtain ls where ls: "literals T (st_parameters st) 0 (holes (st_sql st)) = Inr ls"
    "sql = fill Outside (st_sql st) ls"
    using assms(1) by (auto simp: build_sql_fill res_simps split: if_splits)
  from literals_read_as [OF ls(1) assms(3)] events_fill [OF assms(2)] show ?thesis
    using ls(2) by simp
qed


text \<open>A line comment swallows everything up to the end of the line.\<close>

lemma events_line: "newline \<notin> set cs \<Longrightarrow> events Line (cs @ s) = events Line s"
  by (induction cs) auto

subsection \<open>Binding\<close>

lemma bind_from_parameters:
  "length (st_parameters st) = i \<Longrightarrow> bind_from i ps st = Inr st' \<Longrightarrow>
    st_sql st' = st_sql st \<and> st_parameters st' = st_parameters st @ map Some ps"
proof (induction ps arbitrary: i st)
  case (Cons p ps)
  have "(st_parameters st @ [None])[length (st_parameters st) := Some p] = st_parameters st @ [Some p]"
    by simp
  then have "bind_parameter i p st = Inr (st\<lparr>st_parameters := st_parameters st @ [Some p]\<rparr>)"
    using Cons.prems by (auto simp: bind_parameter_def resize_def rbind_Inr_iff split: if_splits)
  then show ?case
    using Cons.prems Cons.IH [of "st\<lparr>st_parameters := st_parameters st @ [Some p]\<rparr>" "i + 1"] by simp
qed simp

lemma bind_all_new:
  "bind_all ps (Statement_new T sql) = Inr st \<Longrightarrow> st_sql st = sql \<and> st_parameters st = map Some ps"
  using bind_from_parameters [of "Statement_new T sql" 0 ps st] by (simp add: bind_all_def Statement_new_def)

text \<open>A parameter that was bound is the one found at its index; the others stay.\<close>

lemma bind_parameter_nth:
  assumes "bind_parameter i p st = Inr st'"
  shows "st_parameters st' ! i = Some p"
    and "j \<noteq> i \<Longrightarrow> j < length (st_parameters st) \<Longrightarrow> st_parameters st' ! j = st_parameters st ! j"
  using assms
  by (auto simp: bind_parameter_def resize_def nth_append Let_def split: if_splits)

end
