(* ===== verification/Connection_Laws.thy ===== *)
theory Connection_Laws
  imports Connection Statement_Laws Result_Laws
begin

text \<open>
  What the server of a connection has been told. A transport that also keeps the list of
  the calls the server acknowledged gives every connection a history; the session's record
  of the query timeout and of an open transaction agrees with that history in every state
  a client can reach.
\<close>

subsection \<open>Acknowledged calls\<close>

datatype call =
    QueryCall string
  | PrepareCall string
  | PreparedCall PreparedStatementHandle "json list list option"
  | ReleaseCall PreparedStatementHandle
  | AutocommitCall bool
  | TimeoutCall u64
  | SchemaCall string

type_synonym 't traced = "'t \<times> call list"

definition quietly :: "('e, 't, 'a) task \<Rightarrow> ('e, 't traced, 'a) task" where
  "quietly m = (\<lambda>(t, l). case m t of (p, t') \<Rightarrow> (p, (t', l)))"

definition logging :: "call \<Rightarrow> ('e, 't, 'a) task \<Rightarrow> ('e, 't traced, 'a) task" where
  "logging k m = (\<lambda>(t, l). case m t of
      (Ready (Inr x), t') \<Rightarrow> (Ready (Inr x), (t', l @ [k]))
    | (p, t') \<Rightarrow> (p, (t', l)))"

definition traced :: "'t transport_protocol \<Rightarrow> 't traced transport_protocol" where
  "traced P = \<lparr>
    tp_connect = (\<lambda>ps. quietly (tp_connect P ps)),
    tp_authenticate = (\<lambda>cr. quietly (tp_authenticate P cr)),
    tp_execute_query = (\<lambda>sql. logging (QueryCall sql) (tp_execute_query P sql)),
    tp_fetch_results = (\<lambda>h. quietly (tp_fetch_results P h)),
    tp_close_result_set = (\<lambda>h. quietly (tp_close_result_set P h)),
    tp_create_prepared_statement = (\<lambda>sql. logging (PrepareCall sql) (tp_create_prepared_statement P sql)),
    tp_execute_prepared_statement = (\<lambda>h ps. logging (PreparedCall h ps) (tp_execute_prepared_statement P h ps)),
    tp_close_prepared_statement = (\<lambda>h. logging (ReleaseCall h) (tp_close_prepared_statement P h)),
    tp_close = quietly (tp_close P),
    tp_terminate = map_prod (tp_terminate P) id,
    tp_is_connected = (\<lambda>(t, l). tp_is_connected P t),
    tp_set_autocommit = (\<lambda>b. logging (AutocommitCall b) (tp_set_autocommit P b)),
    tp_set_query_timeout = (\<lambda>n. logging (TimeoutCall n) (tp_set_query_timeout P n)),
    tp_set_current_schema = (\<lambda>s. logging (SchemaCall s) (tp_set_current_schema P s)),
    tp_refresh_current_schema = quietly (tp_refresh_current_schema P),
    tp_current_schema = (\<lambda>(t, l). tp_current_schema P t)\<rparr>"

lemma traced_simps [simp]:
  "tp_execute_query (traced P) sql = logging (QueryCall sql) (tp_execute_query P sql)"
  "tp_fetch_results (traced P) h = quietly (tp_fetch_results P h)"
  "tp_close_result_set (traced P) h = quietly (tp_close_result_set P h)"
  "tp_create_prepared_statement (traced P) sql = logging (PrepareCall sql) (tp_create_prepared_statement P sql)"
  "tp_execute_prepared_statement (traced P) st ps = logging (PreparedCall st ps) (tp_execute_prepared_statement P st ps)"
  "tp_close_prepared_statement (traced P) st = logging (ReleaseCall st) (tp_close_prepared_statement P st)"
  "tp_close (traced P) = quietly (tp_close P)"
  "tp_set_autocommit (traced P) b = logging (AutocommitCall b) (tp_set_autocommit P b)"
  "tp_set_query_timeout (traced P) n = logging (TimeoutCall n) (tp_set_query_timeout P n)"
  "tp_set_current_schema (traced P) s = logging (SchemaCall s) (tp_set_current_schema P s)"
  "tp_refresh_current_schema (traced P) = quietly (tp_refresh_current_schema P)"
  "tp_connect (traced P) ps' = quietly (tp_connect P ps')"
  "tp_authenticate (traced P) cr = quietly (tp_authenticate P cr)"
  by (simp_all add: traced_def)

text \<open>The settings of the server after a history; a timeout of 0 means that none was set.\<close>

fun after_call :: "u64 \<times> bool \<Rightarrow> call \<Rightarrow> u64 \<times> bool" where
  "after_call (n, b) (TimeoutCall m) = (m, b)"
| "after_call (n, b) (AutocommitCall a) = (n, a)"
| "after_call s _ = s"

definition server_settings :: "call list \<Rightarrow> u64 \<times> bool" where
  "server_settings l = foldl after_call (0, True) l"

abbreviation "server_timeout l \<equiv> fst (server_settings l)"
abbreviation "server_autocommit l \<equiv> snd (server_settings l)"

lemma server_settings_simps [simp]:
  "server_settings [] = (0, True)" "server_settings (l @ [k]) = after_call (server_settings l) k"
  by (simp_all add: server_settings_def)

text \<open>The calls that leave both settings alone.\<close>

fun neutral :: "call \<Rightarrow> bool" where
  "neutral (TimeoutCall _) = False"
| "neutral (AutocommitCall _) = False"
| "neutral _ = True"

lemma after_neutral [simp]: "neutral k \<Longrightarrow> after_call s k = s"
  by (cases k; cases s) simp_all

subsection \<open>Outcomes of tasks\<close>

definition settled :: "('e, 'a) poll \<Rightarrow> bool" where
  "settled p \<longleftrightarrow> (\<exists>r. p = Ready r \<and> graceful r)"

lemma settled_simps [simp]:
  "settled (Ready r) = graceful r" "\<not> settled Pending"
  by (simp_all add: settled_def)

abbreviation history :: "'t traced Connection \<Rightarrow> call list" where
  "history c \<equiv> snd (co_transport c)"

text \<open>A task that keeps a property of the connection whenever it comes to an end.\<close>

definition keeps :: "('s \<Rightarrow> bool) \<Rightarrow> ('e, 's, 'a) task \<Rightarrow> bool" where
  "keeps I m \<longleftrightarrow> (\<forall>s p s'. I s \<longrightarrow> m s = (p, s') \<longrightarrow> settled p \<longrightarrow> I s')"

named_theorems keeps_intros \<open>tasks that keep an invariant\<close>

lemma keepsD: "keeps I m \<Longrightarrow> I s \<Longrightarrow> m s = (p, s') \<Longrightarrow> settled p \<Longrightarrow> I s'"
  unfolding keeps_def by blast

lemma keeps_pure [keeps_intros]: "keeps I (alift r)" "keeps I (areads g)"
  by (auto simp: keeps_def act_eval)

lemma keeps_modify: "(\<And>s. I s \<Longrightarrow> I (g s)) \<Longrightarrow> keeps I (amodify g)"
  by (auto simp: keeps_def act_eval)

lemma keeps_bind [keeps_intros]:
  assumes "keeps I m" "\<And>x. keeps I (f x)"
  shows "keeps I (abind m f)"
proof -
  have "I s'" if "I s" "abind m f s = (p, s')" "settled p" for s p s'
  proof (cases "m s")
    case (Pair q s1)
    then have "settled q"
      using that(2,3) by (auto simp: abind_def settled_def graceful_def split: poll.splits sum.splits)
    then have "I s1" by (rule keepsD [OF assms(1) that(1) Pair])
    then show ?thesis
      using that(2,3) Pair keepsD [OF assms(2)]
      by (auto simp: abind_def split: poll.splits sum.splits)
  qed
  then show ?thesis by (auto simp: keeps_def)
qed

lemma abind_settledE:
  assumes "abind m f s = (p, s')" and "settled p"
  obtains x s1 where "m s = (Ready (Inr x), s1)" "f x s1 = (p, s')"
  | e where "m s = (Ready (fail e), s')" "p = Ready (fail e)"
  using assms
  by (cases "m s"; cases "fst (m s)"; cases p)
    (auto simp: abind_def graceful_def split: sum.splits fault.splits, (metis fault.exhaust)+)

lemma keeps_map_err [keeps_intros]: "keeps I m \<Longrightarrow> keeps I (amap_err f m)"
  by (fastforce simp: keeps_def amap_err_def split: prod.splits poll.splits)

lemma keeps_if [keeps_intros]: "keeps I m \<Longrightarrow> keeps I m' \<Longrightarrow> keeps I (if b then m else m')"
  by simp

lemma keeps_option [keeps_intros]:
  "keeps I m \<Longrightarrow> (\<And>x. keeps I (f x)) \<Longrightarrow> keeps I (case y of None \<Rightarrow> m | Some x \<Rightarrow> f x)"
  by (cases y) simp_all

subsection \<open>The invariant of a connection\<close>

definition conn_ok :: "'t traced Connection \<Rightarrow> bool" where
  "conn_ok c \<longleftrightarrow> applied_secs (co_session c) = server_timeout (history c) \<and> session_ok (co_session c)
    \<and> (se_in_transaction (co_session c) \<longrightarrow> \<not> server_autocommit (history c))"

lemma logging_cases:
  assumes "on_transport (logging k m) c = (p, c')"
  obtains t' where "c' = c\<lparr>co_transport := (t', history c @ [k])\<rparr>" "\<exists>x. p = Ready (Inr x)"
  | t' where "c' = c\<lparr>co_transport := (t', history c)\<rparr>" "\<not> (\<exists>x. p = Ready (Inr x))"
  using assms
  by (auto simp: on_transport_def logging_def split: prod.splits poll.splits sum.splits)

lemma keeps_quietly [keeps_intros]: "keeps conn_ok (on_transport (quietly m))"
  by (auto simp: keeps_def on_transport_def quietly_def conn_ok_def split: prod.splits)

lemma keeps_logging: "neutral k \<Longrightarrow> keeps conn_ok (on_transport (logging k m))"
  unfolding keeps_def by (auto simp: conn_ok_def elim!: logging_cases)

lemma keeps_increment [keeps_intros]: "keeps conn_ok (on_session (increment_query_count v))"
  by (auto simp: keeps_def on_session_def increment_query_count_def conn_ok_def session_ok_def applied_secs_def)

lemma keeps_session_end [keeps_intros]:
  "keeps conn_ok (on_session commit_transaction)" "keeps conn_ok (on_session rollback_transaction)"
  "keeps conn_ok (on_session session_close)"
  by (auto simp: keeps_def on_session_def session_cases conn_ok_def session_ok_def applied_secs_def)

lemma keeps_require_ready [keeps_intros]: "keeps conn_ok require_ready"
  by (simp add: require_ready_def keeps_intros)

text \<open>The end of a statement: the query, then the record of the timeout.\<close>

lemma finish_statement_cases:
  assumes "finish_statement (traced P) stmt needs sql c = (p, c')" and "settled p"
  obtains t' ks where "c' = (if needs then record_timeout stmt else id) (c\<lparr>co_transport := (t', history c @ ks)\<rparr>)"
    "ks = [] \<or> ks = [QueryCall sql]" "\<And>x. p = Ready (Inr x) \<Longrightarrow> ks = [QueryCall sql]"
proof -
  obtain q c1 where q: "on_transport (logging (QueryCall sql) (tp_execute_query P sql)) c = (q, c1)" by fastforce
  then have call: "on_transport (tp_execute_query (traced P) sql) c = (q, c1)" by simp
  from q show thesis
  proof (cases rule: logging_cases)
    case (1 t')
    then show thesis using assms call that [of t' "[QueryCall sql]"]
      by (auto simp: finish_statement_def acatch_def abind_def act_eval split: if_splits)
  next
    case (2 t')
    then show thesis using assms call that [of t' "[]"]
      by (auto simp: finish_statement_def acatch_def abind_def act_eval
          split: poll.splits sum.splits fault.splits if_splits)
  qed
qed

lemma applied_record_timeout [simp]: "applied_secs (co_session (record_timeout stmt c)) = target_secs stmt"
  by (simp add: applied_secs_def record_timeout_def target_secs_def split: option.split)

lemma record_timeout_session [simp]:
  "session_ok (co_session (record_timeout stmt c)) = session_ok (co_session c)"
  "se_in_transaction (co_session (record_timeout stmt c)) = se_in_transaction (co_session c)"
  by (simp_all add: record_timeout_def session_ok_def)

lemma history_record [simp]: "history (record_timeout stmt c) = history c"
  by (simp add: record_timeout_def)

text \<open>
  Every statement runs with the timeout that it asks for: the last one the server
  acknowledged before the query is the statement's own.
\<close>

lemma reconcile_cases:
  assumes ok: "conn_ok c" and run: "reconcile_timeout (traced P) stmt (target_secs stmt \<noteq> applied_secs (co_session c)) c = (p, c')"
    and set: "settled p"
  obtains t' ks where "c' = c\<lparr>co_transport := (t', history c @ ks)\<rparr>"
    "server_autocommit (history c @ ks) = server_autocommit (history c)"
    "p = Ready (Inr ()) \<Longrightarrow> server_timeout (history c @ ks) = target_secs stmt"
    "p \<noteq> Ready (Inr ()) \<Longrightarrow> ks = []"
proof (cases "target_secs stmt = applied_secs (co_session c)")
  case True
  then show thesis using run that [of "fst (co_transport c)" "[]"] ok
    by (auto simp: reconcile_timeout_def act_eval conn_ok_def)
next
  case False
  let ?k = "TimeoutCall (target_secs stmt)"
  obtain q c1 where q: "on_transport (logging ?k (tp_set_query_timeout P (target_secs stmt))) c = (q, c1)"
    by fastforce
  with run False have p: "amap_err failed_execution (on_transport (logging ?k (tp_set_query_timeout P (target_secs stmt)))) c = (p, c')"
    by (simp add: reconcile_timeout_def)
  obtain n b where s: "server_settings (history c) = (n, b)" by fastforce
  from q show thesis
  proof (cases rule: logging_cases)
    case (1 t')
    then show thesis using p q that [of t' "[?k]"] s by (auto simp: amap_err_def)
  next
    case (2 t')
    then show thesis using p q that [of t' "[]"]
      by (auto simp: amap_err_def map_err_def split: poll.splits sum.splits fault.splits)
  qed
qed

lemma run_statement_traced:
  assumes ok: "conn_ok c" and run: "run_statement D (traced P) stmt c = (p, c')" and set: "settled p"
  shows "conn_ok c' \<and> (\<forall>r. p = Ready (Inr r) \<longrightarrow> (\<exists>sql l. build_sql (de_text D) stmt = Inr sql
    \<and> history c' = l @ [QueryCall sql] \<and> server_timeout l = target_secs stmt))"
proof -
  let ?tail = "\<lambda>sql. abind (areads (\<lambda>c. Inr (target_secs stmt \<noteq> applied_secs (co_session c)))) (\<lambda>needs.
      abind (reconcile_timeout (traced P) stmt needs) (\<lambda>_. finish_statement (traced P) stmt needs sql))"
  have tail: "conn_ok c' \<and> (\<forall>r. p = Ready (Inr r) \<longrightarrow>
      (\<exists>l. history c' = l @ [QueryCall sql] \<and> server_timeout l = target_secs stmt))"
    if ok1: "conn_ok c1" and t: "?tail sql c1 = (p, c')" for sql c1
  proof -
    let ?needs = "target_secs stmt \<noteq> applied_secs (co_session c1)"
    have t': "abind (reconcile_timeout (traced P) stmt ?needs) (\<lambda>_. finish_statement (traced P) stmt ?needs sql) c1 = (p, c')"
      using t by (simp add: act_simps)
    obtain q c2 where q: "reconcile_timeout (traced P) stmt ?needs c1 = (q, c2)" by fastforce
    have sq: "settled q" using t' q set by (auto simp: abind_def graceful_def split: poll.splits sum.splits)
    obtain u ks where c2: "c2 = c1\<lparr>co_transport := (u, history c1 @ ks)\<rparr>"
      and auto: "server_autocommit (history c1 @ ks) = server_autocommit (history c1)"
      and hit: "q = Ready (Inr ()) \<Longrightarrow> server_timeout (history c1 @ ks) = target_secs stmt"
      and miss: "q \<noteq> Ready (Inr ()) \<Longrightarrow> ks = []"
      using reconcile_cases [OF ok1 q sq] by metis
    show ?thesis
    proof (cases "q = Ready (Inr ())")
      case False
      then have "c' = c2 \<and> (\<exists>e. p = Ready (fail e))"
        using t' q sq by (auto simp: abind_def settled_def graceful_def split: poll.splits sum.splits)
          (metis fault.exhaust)
      then show ?thesis using ok1 c2 miss False by (auto simp: conn_ok_def)
    next
      case True
      then have "finish_statement (traced P) stmt ?needs sql c2 = (p, c')" using t' q by (simp add: abind_def)
      from finish_statement_cases [OF this set] obtain v ks' where
        c': "c' = (if ?needs then record_timeout stmt else id) (c2\<lparr>co_transport := (v, history c2 @ ks')\<rparr>)"
        and ks': "ks' = [] \<or> ks' = [QueryCall sql]" "\<And>x. p = Ready (Inr x) \<Longrightarrow> ks' = [QueryCall sql]"
        by metis
      have "server_settings (history c2 @ ks') = server_settings (history c2)"
        using ks'(1) by auto
      then have "conn_ok c'" using c' c2 ok1 hit [OF True] auto
        by (cases ?needs) (auto simp: conn_ok_def)
      then show ?thesis using c' c2 ks'(2) hit [OF True] by (auto split: if_splits)
    qed
  qed
  have inc: "conn_ok c1" if "on_session (increment_query_count v) c = (q, c1)" for v q c1
    using that ok by (auto simp: on_session_def increment_query_count_def conn_ok_def session_ok_def applied_secs_def)
  have start: "c1 = c" if "require_ready c = (q, c1)" for q c1
    using that by (simp add: require_ready_def act_eval)
  let ?build = "\<lambda>_. abind (alift (build_sql (de_text D) stmt)) ?tail"
  let ?inc = "on_session (increment_query_count (de_overflow_checks D))"
  have "abind require_ready (\<lambda>_. abind ?inc ?build) c = (p, c')"
    using run by (simp only: run_statement_def)
  then show ?thesis using set
  proof (cases rule: abind_settledE)
    case (1 x c0)
    then have "abind ?inc ?build c = (p, c')" by (simp only: start [OF 1(1)])
    then show ?thesis using set
    proof (cases rule: abind_settledE)
      case (1 y c1)
      then have "abind (alift (build_sql (de_text D) stmt)) ?tail c1 = (p, c')" by simp
      then show ?thesis using set
      proof (cases rule: abind_settledE)
        case (1 sql c2)
        then have "build_sql (de_text D) stmt = Inr sql" "c2 = c1" by (auto simp: act_eval)
        then show ?thesis using tail [OF inc [OF \<open>?inc c = (Ready (Inr y), c1)\<close>]] 1(2) by blast
      qed (use inc [OF 1(1)] in \<open>auto simp: act_eval\<close>)
    qed (auto dest: inc)
  qed (use ok start in auto)
qed

lemma keeps_run_statement [keeps_intros]: "keeps conn_ok (run_statement D (traced P) stmt)"
  unfolding keeps_def using run_statement_traced by blast

subsection \<open>Calls that leave the history alone\<close>

text \<open>Fetching and closing result sets is no acknowledged call of the history.\<close>

abbreviation same_history :: "'t traced \<Rightarrow> 't traced \<Rightarrow> bool" where
  "same_history s s' \<equiv> snd s' = snd s"

interpretation same_history: step_relation same_history
  by unfold_locales auto

lemma by_quietly: "steps_by same_history (quietly m)"
  by (auto simp: steps_by_def quietly_def split: prod.splits)

lemma by_paginate: "steps_by same_history (paginate n E (traced P) h md bs)"
proof (induction n arbitrary: bs)
  case (Suc n)
  have "steps_by same_history (fetch_page_after E (traced P) h md r)" for r
    unfolding fetch_page_after_def Let_def
    by (intro same_history.by_intros) (simp add: steps_by_amap_err by_quietly)
  then show ?case using Suc
    by (auto intro!: same_history.by_intros steps_by_amap_err split: option.split)
qed (simp add: same_history.by_lift)

lemma by_finally:
  assumes "steps_by same_history m" "steps_by same_history d"
  shows "steps_by same_history (afinally m d)"
proof -
  have "same_history s (snd (afinally m d s))" for s
  proof -
    obtain p s1 q s2 where runs: "m s = (p, s1)" "d s1 = (q, s2)" by (metis surj_pair)
    then have "snd s1 = snd s" "snd s2 = snd s1" using assms by (auto dest: steps_byD)
    then show ?thesis using runs
      by (auto simp: afinally_def abind_def act_eval split: poll.split sum.split fault.split)
  qed
  then show ?thesis by (simp add: steps_by_def)
qed

lemma by_fetch_all: "steps_by same_history (fetch_all E (traced P) rs)"
proof (cases rs)
  case (Stream handle md batches complete)
  then show ?thesis
    by (cases handle) (auto simp: fetch_all_def paginate_remaining_def simp del: paginate.simps
        intro!: by_finally steps_by_aignore by_quietly by_paginate same_history.by_lift)
qed (simp add: fetch_all_def same_history.by_lift)

lemma keeps_on_transport: "steps_by same_history m \<Longrightarrow> keeps conn_ok (on_transport m)"
  unfolding keeps_def
  by (auto simp: on_transport_def conn_ok_def dest: steps_byD split: prod.splits)

subsection \<open>Every call keeps the invariant\<close>

lemma keeps_catch [keeps_intros]: "keeps I m \<Longrightarrow> keeps I (acatch m)"
  by (fastforce simp: keeps_def acatch_def split: prod.splits poll.splits sum.splits fault.splits)

lemma keeps_ignore [keeps_intros]: "keeps I m \<Longrightarrow> keeps I (aignore m)"
  by (fastforce simp: keeps_def aignore_def split: prod.splits poll.splits sum.splits fault.splits)

lemma keeps_sum [keeps_intros]:
  "(\<And>x. keeps I (f x)) \<Longrightarrow> (\<And>y. keeps I (g y)) \<Longrightarrow> keeps I (case z of Inl x \<Rightarrow> f x | Inr y \<Rightarrow> g y)"
  by (cases z) simp_all

lemma keeps_execute_statement [keeps_intros]:
  "keeps conn_ok (execute_statement D (traced P) stmt)" "keeps conn_ok (execute_statement_update D (traced P) stmt)"
  unfolding execute_statement_update_def execute_statement_def by (intro keeps_intros)+

lemma keeps_execute [keeps_intros]:
  "keeps conn_ok (execute D (traced P) sql)" "keeps conn_ok (execute_update D (traced P) sql)"
  using keeps_execute_statement unfolding execute_def execute_update_def keeps_def by blast+

lemma keeps_query [keeps_intros]: "keeps conn_ok (query D (traced P) sql)"
  unfolding query_def by (intro keeps_intros keeps_on_transport by_fetch_all)

lemma keeps_prepared [keeps_intros]:
  "keeps conn_ok (prepare (traced P) sql)" "keeps conn_ok (execute_prepared D (traced P) st)"
  "keeps conn_ok (execute_prepared_update (traced P) st)" "keeps conn_ok (execute_batch D (traced P) st rows)"
  "keeps conn_ok (execute_batch_update (traced P) st rows)" "keeps conn_ok (close_prepared (traced P) st)"
  unfolding prepare_def execute_prepared_def execute_prepared_update_def execute_batch_def execute_batch_update_def
    close_prepared_def run_prepared_def check_open_def traced_simps
  by (intro keeps_intros keeps_logging neutral.simps [THEN iffD2] TrueI)+

lemma keeps_guard: "keeps I m \<Longrightarrow> keeps I (\<lambda>c. if b c then areturn x c else m c)"
  unfolding keeps_def by (metis act_eval(1) prod.inject)

lemma begin_transaction_traced:
  assumes "conn_ok c" and "begin_transaction (traced P) c = (p, c')" and "settled p"
  shows "conn_ok c'"
proof -
  let ?auto = "amap_err (\<lambda>e. TransactionError (show_transport_error e))
    (on_transport (logging (AutocommitCall False) (tp_set_autocommit P False)))"
  let ?start = "amap_err transaction_error (on_session session_begin_transaction) :: ('a traced, unit) conn_task"
  have "abind (areads (\<lambda>c. map_err transaction_error (ensure_can_begin_transaction (co_session c))))
      (\<lambda>_. abind ?auto (\<lambda>_. ?start)) c = (p, c')"
    using assms(2) by (simp add: begin_transaction_def)
  then show ?thesis using assms(3)
  proof (cases rule: abind_settledE)
    case (1 x c0)
    then have "c0 = c" "ensure_can_begin_transaction (co_session c) = Inr ()"
      by (auto simp: act_eval map_err_Inr_iff)
    then have free: "\<not> se_in_transaction (co_session c)"
      by (auto simp: ensure_can_begin_transaction_def rbind_Inr_iff split: if_splits)
    obtain n b where s: "server_settings (history c) = (n, b)" by fastforce
    have "abind ?auto (\<lambda>_. ?start) c = (p, c')" using 1(2) \<open>c0 = c\<close> by simp
    then show ?thesis using assms(3)
    proof (cases rule: abind_settledE)
      case (1 y c1)
      then have "on_transport (logging (AutocommitCall False) (tp_set_autocommit P False)) c = (Ready (Inr y), c1)"
        by simp
      then obtain u where "c1 = c\<lparr>co_transport := (u, history c @ [AutocommitCall False])\<rparr>"
        by (auto elim: logging_cases)
      then show ?thesis using 1(2) assms(1,3) s
        by (auto simp: amap_err_def on_session_def session_begin_cases conn_ok_def session_ok_def applied_secs_def
            can_execute_def split: if_splits)
    next
      case (2 e)
      then obtain r where "on_transport (logging (AutocommitCall False) (tp_set_autocommit P False)) c = (r, c')"
        by (auto simp: amap_err_def split: prod.splits poll.splits)
      moreover have "\<not> (\<exists>x. r = Ready (Inr x))" using 2 calculation by (auto simp: amap_err_def)
      ultimately show ?thesis using assms(1) by (auto elim!: logging_cases simp: conn_ok_def)
    qed
  next
    case (2 e)
    then show ?thesis using assms(1) by (simp add: act_eval)
  qed
qed

lemma keeps_transaction [keeps_intros]:
  "keeps conn_ok (begin_transaction (traced P))" "keeps conn_ok (commit D (traced P))" "keeps conn_ok (rollback D (traced P))"
proof -
  show "keeps conn_ok (begin_transaction (traced P))"
    unfolding keeps_def using begin_transaction_traced by blast
  show "keeps conn_ok (commit D (traced P))" "keeps conn_ok (rollback D (traced P))"
    unfolding commit_def [abs_def] rollback_def [abs_def] by (rule keeps_guard, intro keeps_intros)+
qed

lemma keeps_schema [keeps_intros]:
  "keeps conn_ok (set_schema (traced P) name)" "keeps conn_ok (refresh_schema (traced P))"
  "keeps conn_ok (sql_executor (traced P) sql)"
  unfolding set_schema_def refresh_schema_def sql_executor_def traced_simps
  by (intro keeps_intros keeps_logging neutral.simps [THEN iffD2] TrueI)+

lemma keeps_close [keeps_intros]: "keeps conn_ok (close_connection (traced P))"
proof -
  have "keeps conn_ok (abind (on_session session_close)
      (\<lambda>_. amap_err (\<lambda>e. connection_failed ps (show_transport_error e)) (on_transport (quietly (tp_close P)))))" for ps
    by (intro keeps_intros)
  then show ?thesis unfolding keeps_def close_connection_def traced_simps by blast
qed

subsection \<open>Reachable connections\<close>

datatype conn_call =
    CallStatement Statement | CallExecute string | CallQuery string | CallUpdate string
  | CallPrepare string | CallPrepared PreparedStatement | CallPreparedUpdate PreparedStatement
  | CallBatch PreparedStatement "Parameter list list" | CallBatchUpdate PreparedStatement "Parameter list list"
  | CallClosePrepared PreparedStatement
  | CallBegin | CallCommit | CallRollback
  | CallSetSchema string | CallRefreshSchema | CallSqlExecutor string | CallClose

text \<open>Whether a call came to an end, and the connection it leaves.\<close>

definition finished :: "('e, 's, 'a) task \<Rightarrow> 's \<Rightarrow> bool \<times> 's" where
  "finished m s = map_prod settled id (m s)"

fun run_call :: "driver_env \<Rightarrow> 't transport_protocol \<Rightarrow> conn_call \<Rightarrow> 't Connection \<Rightarrow> bool \<times> 't Connection" where
  "run_call D P (CallStatement stmt) = finished (execute_statement D P stmt)"
| "run_call D P (CallExecute sql) = finished (execute D P sql)"
| "run_call D P (CallQuery sql) = finished (query D P sql)"
| "run_call D P (CallUpdate sql) = finished (execute_update D P sql)"
| "run_call D P (CallPrepare sql) = finished (prepare P sql)"
| "run_call D P (CallPrepared st) = finished (execute_prepared D P st)"
| "run_call D P (CallPreparedUpdate st) = finished (execute_prepared_update P st)"
| "run_call D P (CallBatch st rows) = finished (execute_batch D P st rows)"
| "run_call D P (CallBatchUpdate st rows) = finished (execute_batch_update P st rows)"
| "run_call D P (CallClosePrepared st) = finished (close_prepared P st)"
| "run_call D P CallBegin = finished (begin_transaction P)"
| "run_call D P CallCommit = finished (commit D P)"
| "run_call D P CallRollback = finished (rollback D P)"
| "run_call D P (CallSetSchema s) = finished (set_schema P s)"
| "run_call D P CallRefreshSchema = finished (refresh_schema P)"
| "run_call D P (CallSqlExecutor sql) = finished (sql_executor P sql)"
| "run_call D P CallClose = finished (close_connection P)"

inductive conn_reachable :: "driver_env \<Rightarrow> 't transport_protocol \<Rightarrow> 't traced Connection \<Rightarrow> bool"
  for D :: driver_env and P :: "'t transport_protocol" where
  opened: "connect_with_transport (traced P) ps (t, []) = Ready (Inr c) \<Longrightarrow> conn_reachable D P c"
| called: "conn_reachable D P c \<Longrightarrow> run_call D (traced P) k c = (True, c') \<Longrightarrow> conn_reachable D P c'"

lemma finished_keeps: "keeps conn_ok m \<Longrightarrow> finished m c = (True, c') \<Longrightarrow> conn_ok c \<Longrightarrow> conn_ok c'"
  unfolding finished_def by (cases "m c") (auto dest: keepsD)

lemma run_call_ok: "conn_ok c \<Longrightarrow> run_call D (traced P) k c = (True, c') \<Longrightarrow> conn_ok c'"
  by (cases k) (auto elim!: finished_keeps [rotated] intro: keeps_intros)

lemma keeps_open_schema: "keeps conn_ok (open_schema (traced P) ps)"
  unfolding open_schema_def by (intro keeps_intros)

lemma establish_history:
  assumes "establish (traced P) ps (t, []) = (Ready (Inr info), s)"
  shows "server_settings (snd s) = (case dp_query_timeout ps of None \<Rightarrow> 0 | Some d \<Rightarrow> secs_ceil d, True)"
proof -
  obtain s1 s2 where s: "quietly (tp_connect P (transport_params ps)) (t, []) = (Ready (Inr ()), s1)"
    "quietly (tp_authenticate P (login_credentials ps)) s1 = (Ready (Inr info), s2)"
    "(case dp_query_timeout ps of None \<Rightarrow> areturn ()
      | Some d \<Rightarrow> amap_err (\<lambda>e. connection_failed ps (''failed to set query timeout: '' @ show_transport_error e))
          (logging (TimeoutCall (secs_ceil d)) (tp_set_query_timeout P (secs_ceil d)))) s2 = (Ready (Inr ()), s)"
    using assms by (auto simp: establish_def abind_Ready alift_Ready split: option.splits)
  have "snd s2 = []" using s(1,2) by (auto simp: quietly_def split: prod.splits)
  then show ?thesis using s(3)
    by (auto simp: act_eval logging_def server_settings_def split: option.splits prod.splits poll.splits sum.splits)
qed

lemma connected_ok:
  assumes "connect_with_transport (traced P) ps (t, []) = Ready (Inr c)"
  shows "conn_ok c"
proof -
  obtain info s u where e: "establish (traced P) ps (t, []) = (Ready (Inr info), s)"
    and o: "open_schema (traced P) ps (new_connection ps info s) = (Ready (Inr u), c)"
    using assms by (auto simp: connect_with_transport_def split: prod.splits poll.splits sum.splits)
  have "conn_ok (new_connection ps info s)"
    using establish_history [OF e]
    by (simp add: conn_ok_def new_connection_def session_ok_def Session_new_def applied_secs_def split: option.splits)
  then show ?thesis using keepsD [OF keeps_open_schema _ o] by simp
qed

lemma reachable_conn_ok: "conn_reachable D P c \<Longrightarrow> conn_ok c"
  by (induction rule: conn_reachable.induct) (auto intro: connected_ok run_call_ok)

subsection \<open>Transactions\<close>

lemma build_sql_plain: "holes sql = 0 \<Longrightarrow> st_sql st = sql \<Longrightarrow> build_sql T st = Inr (fill Outside sql [])"
  by (simp add: build_sql_fill)

lemma create_statement_sql [simp]:
  "st_sql (create_statement D sql c) = sql" "st_parameters (create_statement D sql c) = []"
  by (simp_all add: create_statement_def Statement_new_def set_timeout_def Let_def split: option.split)

text \<open>A statement changes neither the transaction flag nor the state of the session.\<close>

definition same_session_state :: "'t Connection \<Rightarrow> 't Connection \<Rightarrow> bool" where
  "same_session_state c c' \<longleftrightarrow> se_state (co_session c') = se_state (co_session c)
    \<and> se_in_transaction (co_session c') = se_in_transaction (co_session c)"

interpretation session_state: step_relation same_session_state
  by unfold_locales (auto simp: same_session_state_def)

lemma by_on_transport: "steps_by same_session_state (on_transport m)"
  by (auto simp: steps_by_def on_transport_def same_session_state_def split: prod.split)

lemma snd_acatch [simp]: "snd (acatch m c) = snd (m c)"
  by (auto simp: acatch_def split: prod.splits poll.splits sum.splits fault.splits)

lemma by_session_count: "steps_by same_session_state (on_session (increment_query_count v))"
  by (simp add: steps_by_def on_session_def increment_query_count_def same_session_state_def)

lemma by_run_statement: "steps_by same_session_state (run_statement D P stmt)"
proof -
  have "steps_by same_session_state (acatch (on_transport m))" for m :: "('a, QueryResult) action"
    using by_on_transport by (simp add: steps_by_def)
  moreover have "steps_by same_session_state (amodify (record_timeout stmt))"
    by (rule session_state.by_modify) (simp add: same_session_state_def record_timeout_def)
  ultimately show ?thesis
    unfolding run_statement_def require_ready_def reconcile_timeout_def finish_statement_def
    by (intro session_state.by_intros steps_by_amap_err by_on_transport by_session_count)
      (auto intro: session_state.by_intros split: sum.split)
qed

lemma by_execute_update: "steps_by same_session_state (execute_update D P sql)"
proof -
  have "steps_by same_session_state (execute_statement_update D P stmt)" for stmt
    unfolding execute_statement_update_def execute_statement_def
    by (intro session_state.by_intros by_run_statement) (auto intro: session_state.by_intros split: option.split)
  then show ?thesis by (simp add: steps_by_def execute_update_def)
qed

lemma execute_update_traced:
  assumes "conn_ok c" and "execute_update D (traced P) sql c = (Ready (Inr n), c')" and "holes sql = 0"
    and "fill Outside sql [] = sql"
  shows "\<exists>l. history c' = l @ [QueryCall sql]"
proof -
  obtain r where r: "run_statement D (traced P) (create_statement D sql c) c = (Ready (Inr r), c')"
    using assms(2)
    by (auto simp: execute_update_def execute_statement_update_def execute_statement_def abind_Ready alift_Ready
        split: option.splits)
  have "build_sql (de_text D) (create_statement D sql c) = Inr sql"
    using build_sql_plain [OF assms(3) create_statement_sql(1)] assms(4) by simp
  then show ?thesis using run_statement_traced [OF assms(1) r] by auto
qed

lemma plain_commands:
  "holes ''COMMIT'' = 0" "fill Outside ''COMMIT'' [] = ''COMMIT''"
  "holes ''ROLLBACK'' = 0" "fill Outside ''ROLLBACK'' [] = ''ROLLBACK''"
  by (simp_all add: holes_def is_hole_def lex_outside_def)

text \<open>What ends a transaction: the server's answer to the command with a row count, and nothing else.\<close>

lemma execute_update_acknowledged:
  "(\<exists>n c'. execute_update D P sql c = (Ready (Inr n), c')) \<longleftrightarrow>
    (\<exists>n c'. run_statement D P (create_statement D sql c) c = (Ready (Inr (QRowCount n)), c'))"
proof
  assume "\<exists>n c'. execute_update D P sql c = (Ready (Inr n), c')"
  then obtain r c' where r: "run_statement D P (create_statement D sql c) c = (Ready (Inr r), c')"
    and count: "\<exists>n rs. from_transport_result (de_results D) r = Inr rs \<and> ResultSet_row_count rs = Some n"
    by (auto simp: execute_update_def execute_statement_update_def execute_statement_def abind_Ready alift_Ready
        split: option.splits)
  from count have "\<exists>n. r = QRowCount n"
    by (cases r) (auto simp: from_transport_result_def rbind_Inr_iff Let_def)
  then show "\<exists>n c'. run_statement D P (create_statement D sql c) c = (Ready (Inr (QRowCount n)), c')"
    using r by blast
next
  assume "\<exists>n c'. run_statement D P (create_statement D sql c) c = (Ready (Inr (QRowCount n)), c')"
  then show "\<exists>n c'. execute_update D P sql c = (Ready (Inr n), c')"
    by (auto simp: execute_update_def execute_statement_update_def execute_statement_def abind_def act_eval
        from_transport_result_def)
qed

definition acknowledged :: "driver_env \<Rightarrow> 't transport_protocol \<Rightarrow> string \<Rightarrow> 't Connection \<Rightarrow> bool" where
  "acknowledged D P sql c \<longleftrightarrow>
    (\<exists>n c'. run_statement D P (create_statement D sql c) c = (Ready (Inr (QRowCount n)), c'))"

lemma end_transaction:
  assumes ok: "conn_ok c" and tx: "in_transaction c"
    and fin: "fin = commit_transaction \<or> fin = rollback_transaction" and plain: "holes sql = 0" "fill Outside sql [] = sql"
    and run: "abind (execute_update D (traced P) sql) (\<lambda>_. amap_err transaction_error (on_session fin)) c = (p, c')"
    and set: "settled p"
  shows "if acknowledged D (traced P) sql c
    then p = Ready (Inr ()) \<and> \<not> in_transaction c' \<and> (\<exists>l. history c' = l @ [QueryCall sql])
    else (\<exists>e. p = Ready (fail e)) \<and> in_transaction c'"
  using run set
proof (cases rule: abind_settledE)
  case (1 n c1)
  obtain l where l: "history c1 = l @ [QueryCall sql]"
    using execute_update_traced [OF ok 1(1) plain] by blast
  have "same_session_state c c1" using steps_byD [OF by_execute_update 1(1)] .
  then have "in_transaction c1" using tx by (simp add: same_session_state_def in_transaction_def)
  moreover have "acknowledged D (traced P) sql c"
    using execute_update_acknowledged 1(1) unfolding acknowledged_def by blast
  ultimately show ?thesis using 1(2) fin l
    by (auto simp: amap_err_def on_session_def session_end_cases in_transaction_def)
next
  case (2 e)
  have "same_session_state c c'" using steps_byD [OF by_execute_update 2(1)] .
  moreover have "\<not> acknowledged D (traced P) sql c"
    unfolding acknowledged_def execute_update_acknowledged [symmetric] using 2(1) by simp
  ultimately show ?thesis using tx 2(2) by (simp add: same_session_state_def in_transaction_def)
qed

lemma commit_outcome:
  assumes "conn_ok c" "in_transaction c" "commit D (traced P) c = (p, c')" "settled p"
  shows "if acknowledged D (traced P) ''COMMIT'' c
    then p = Ready (Inr ()) \<and> \<not> in_transaction c' \<and> (\<exists>l. history c' = l @ [QueryCall ''COMMIT''])
    else (\<exists>e. p = Ready (fail e)) \<and> in_transaction c'"
  using end_transaction [OF assms(1,2) disjI1 [OF refl] plain_commands(1,2)] assms(2,3,4) by (simp add: commit_def)

lemma rollback_outcome:
  assumes "conn_ok c" "in_transaction c" "rollback D (traced P) c = (p, c')" "settled p"
  shows "if acknowledged D (traced P) ''ROLLBACK'' c
    then p = Ready (Inr ()) \<and> \<not> in_transaction c' \<and> (\<exists>l. history c' = l @ [QueryCall ''ROLLBACK''])
    else (\<exists>e. p = Ready (fail e)) \<and> in_transaction c'"
  using end_transaction [OF assms(1,2) disjI2 [OF refl] plain_commands(3,4)] assms(2,3,4) by (simp add: rollback_def)

text \<open>All other calls but closing the connection leave it in its transaction, however they end.\<close>

definition stays_in_transaction :: "'t Connection \<Rightarrow> 't Connection \<Rightarrow> bool" where
  "stays_in_transaction c c' \<longleftrightarrow> (in_transaction c \<longrightarrow> in_transaction c')"

interpretation open_transaction: step_relation stays_in_transaction
  by unfold_locales (auto simp: stays_in_transaction_def)

lemma stays_by_same: "steps_by same_session_state m \<Longrightarrow> steps_by stays_in_transaction m"
  by (auto simp: steps_by_def same_session_state_def stays_in_transaction_def in_transaction_def)

lemma stays_by_begin: "steps_by stays_in_transaction (on_session session_begin_transaction)"
  by (simp add: steps_by_def on_session_def session_begin_cases stays_in_transaction_def in_transaction_def)

lemmas stays_intros = open_transaction.by_intros steps_by_amap_err stays_by_begin
  stays_by_same [OF by_on_transport] stays_by_same [OF by_session_count] stays_by_same [OF by_run_statement]

lemma other_calls_stay:
  assumes "in_transaction c" and "k \<notin> {CallCommit, CallRollback, CallClose}"
  shows "in_transaction (snd (run_call D P k c))"
proof -
  have stays: "in_transaction (snd (finished m c))" if "steps_by stays_in_transaction m" for m :: "('e, 'a Connection, 'b) task"
    using that assms(1) by (simp add: steps_by_def stays_in_transaction_def finished_def)
  have prepared: "steps_by stays_in_transaction (run_prepared P st ps)" "steps_by stays_in_transaction (check_open st)"
    "steps_by stays_in_transaction require_ready" for st ps
    by (auto simp: run_prepared_def check_open_def require_ready_def intro!: stays_intros)
  have statement: "steps_by stays_in_transaction (execute_statement D P stmt)" for stmt
    unfolding execute_statement_def by (intro stays_intros)
  then have direct: "in_transaction (snd (execute D P sql c))" for sql
    using assms(1) by (simp add: execute_def steps_by_def stays_in_transaction_def)
  show ?thesis
  proof (cases k)
    case (CallQuery sql)
    have "steps_by stays_in_transaction (query D P sql)"
      unfolding query_def using statement
      by (intro stays_intros) (simp add: steps_by_def execute_def)
    then show ?thesis using CallQuery stays by simp
  next
    case (CallUpdate sql)
    then show ?thesis using stays [OF stays_by_same [OF by_execute_update]] by simp
  qed (use assms(2) direct prepared in \<open>auto simp: finished_def [of "execute D P sql" for sql]
      execute_prepared_def execute_prepared_update_def execute_batch_def execute_batch_update_def close_prepared_def
      prepare_def begin_transaction_def set_schema_def refresh_schema_def sql_executor_def
      intro!: stays statement stays_intros\<close>)
qed

subsection \<open>Rounding of timeouts\<close>

text \<open>Milliseconds are rounded up to seconds; no positive timeout becomes the 0 of no timeout.\<close>

lemma ceil_thousand: "(n + 999) div 1000 = (if 0 < n mod 1000 then n div 1000 + 1 else n div (1000 :: nat))"
proof -
  have "n + 999 = (n mod 1000 + 999) + n div 1000 * 1000" by simp
  then have "(n + 999) div 1000 = n div 1000 + (n mod 1000 + 999) div 1000"
    by (metis div_mult_self1 zero_neq_numeral)
  moreover have "(n mod 1000 + 999) div 1000 = (if 0 < n mod 1000 then 1 else 0)"
    by (auto intro: div_nat_eqI)
  ultimately show ?thesis by simp
qed

lemma target_secs_round:
  "unat (target_secs stmt) = (case st_timeout_ms stmt of None \<Rightarrow> 0 | Some ms \<Rightarrow> (unat ms + 999) div 1000)"
proof (cases "st_timeout_ms stmt")
  case (Some ms)
  let ?n = "unat ms"
  have n: "?n < 2 ^ 64" using unsigned_less [of ms, where ?'a = nat] by simp
  have d: "?n * 1000000 div 1000000000 = ?n div 1000"
    using div_mult2_eq [of "?n * 1000000" 1000000 1000] by simp
  have m: "?n * 1000000 mod 1000000000 = (?n mod 1000) * 1000000"
    using mult_mod_left [of "?n" 1000 1000000] by simp
  have "(if 0 < ?n mod 1000 then ?n div 1000 + 1 else ?n div 1000) = (?n + 999) div 1000"
    by (simp add: ceil_thousand)
  moreover have "?n div 1000 + 1 < 2 ^ 64" using n by simp
  ultimately show ?thesis using Some d m
    by (simp add: target_secs_def secs_ceil_def from_millis_def Let_def unsigned_of_nat take_bit_nat_eq_self
        min_def split: if_splits)
qed (simp add: target_secs_def)

subsection \<open>A closed connection\<close>

lemma closed_connection_silent:
  assumes "\<not> can_execute (se_state (co_session c))" "\<not> pr_closed st"
  shows "execute_statement D P stmt c = (Ready (fail (InvalidState ''Connection is closed'')), c)"
    "prepare P sql c = (Ready (fail (InvalidState ''Connection is closed'')), c)"
    "execute_prepared D P st c = (Ready (fail (InvalidState ''Connection is closed'')), c)"
    "execute_batch_update P st rows c = (Ready (fail (InvalidState ''Connection is closed'')), c)"
    "set_schema P name c = (Ready (fail (InvalidState ''Connection is closed'')), c)"
    "begin_transaction P c = (Ready (fail (TransactionError ''Connection is closed'')), c)"
  using assms
  by (simp_all add: execute_statement_def run_statement_def prepare_def execute_prepared_def execute_batch_update_def
      set_schema_def begin_transaction_def require_ready_def validate_ready_def ensure_can_begin_transaction_def
      check_open_def act_simps abind_def)

end
