(* ===== verification/Metadata_Laws.thy ===== *)
theory Metadata_Laws
  imports Connection_Laws
begin

text \<open>
  The metadata queries of a connection as SQL text: the values of the filters are string
  literals of the query, whatever characters they hold, and the rest of the text is fixed.
\<close>

text \<open>Text that reads as a given sequence of events wherever an apostrophe does not follow.\<close>

definition reads_outside :: "string \<Rightarrow> event list \<Rightarrow> bool" where
  "reads_outside x v \<longleftrightarrow> (\<forall>s. (s = [] \<or> hd s \<noteq> mark Single) \<longrightarrow> events Outside (x @ s) = v @ events Outside s)"

lemma reads_outside_literal: "reads_outside (quoted (replace_char (CHR 0x27) [CHR 0x27, CHR 0x27] t)) (literal_events t)"
  using reads_as_escaped [of t] by (simp add: reads_as_def reads_outside_def free_state_def)

lemma reads_outside_plain: "list_all plain_char x \<Longrightarrow> reads_outside x (map Code x)"
  by (simp add: reads_outside_def events_plain_chars)

lemma reads_outside_append:
  "reads_outside x v \<Longrightarrow> reads_outside y w \<Longrightarrow> y = [] \<or> hd y \<noteq> mark Single \<Longrightarrow> reads_outside (x @ y) (v @ w)"
  by (cases y) (auto simp: reads_outside_def)

lemma reads_outside_events: "reads_outside x v \<Longrightarrow> events Outside x = v"
  by (drule reads_outside_def [THEN iffD1, rule_format, of _ _ "[]"]) simp_all

lemma reads_outside_join:
  assumes "reads_outside sep sv" "sep \<noteq> []" "hd sep \<noteq> mark Single"
  shows "list_all2 reads_outside xs vs \<Longrightarrow> list_all (\<lambda>x. x \<noteq> [] \<and> hd x \<noteq> mark Single) xs \<Longrightarrow>
    reads_outside (join sep xs) (join sv vs)"
proof (induction xs arbitrary: vs)
  case (Cons x xs)
  then obtain v ws where vs: "vs = v # ws" "reads_outside x v" "list_all2 reads_outside xs ws"
    by (auto simp: list_all2_Cons1)
  show ?case
  proof (cases xs)
    case Nil
    then show ?thesis using vs by simp
  next
    case (Cons y ys)
    then obtain w us where ws: "ws = w # us" using vs(3) by (auto simp: list_all2_Cons1)
    have "hd (join sep xs) \<noteq> mark Single" using Cons Cons.prems(2) by (cases ys) auto
    then have "reads_outside (sep @ join sep xs) (sv @ join sv ws)"
      using Cons.IH [OF vs(3)] Cons.prems(2) reads_outside_append [OF assms(1)] by auto
    then have "reads_outside (x @ sep @ join sep xs) (v @ sv @ join sv ws)"
      using reads_outside_append [OF vs(2)] assms(2,3) by simp
    then show ?thesis using Cons vs(1) ws by simp
  qed
qed (simp add: reads_outside_def)

definition filter_events :: "string \<Rightarrow> string option \<Rightarrow> event list list" where
  "filter_events column v = (case v of None \<Rightarrow> [] | Some x \<Rightarrow> [map Code (column @ '' = '') @ literal_events x])"

lemma reads_filter:
  assumes "list_all plain_char column" "column \<noteq> []"
  shows "list_all2 reads_outside (optional_filter column v) (filter_events column v)"
    and "list_all (\<lambda>x. x \<noteq> [] \<and> hd x \<noteq> mark Single) (optional_filter column v)"
proof -
  have eq: "list_all plain_char '' = ''" by (simp add: plain_char_def)
  have "reads_outside (equals_filter column x) (map Code (column @ '' = '') @ literal_events x)" for x
    unfolding equals_filter_def
    using events_plain_chars [of "column @ '' = ''"] reads_outside_literal [of x] assms(1) eq
    by (simp add: reads_outside_def)
  then show "list_all2 reads_outside (optional_filter column v) (filter_events column v)"
    by (simp add: optional_filter_def filter_events_def split: option.split)
  have "hd column \<noteq> mark Single" using assms by (cases column) (auto simp: plain_char_def)
  then show "list_all (\<lambda>x. x \<noteq> [] \<and> hd x \<noteq> mark Single) (optional_filter column v)"
    using assms(2) by (simp add: optional_filter_def equals_filter_def split: option.split)
qed

text \<open>The events tell the placeholders.\<close>

lemma length_hole_positions: "length (hole_positions i q s) = count_list (events q s) Hole"
proof (induction s arbitrary: i q)
  case Nil
  then show ?case using pending_no_hole [of q] by (simp add: count_list_0_iff)
next
  case (Cons c s)
  then show ?case
    using pending_no_hole [of q] emit_no_hole [of q c] by (auto simp: emit_hole count_list_0_iff)
qed

lemma no_holes: "Hole \<notin> set (events Outside s) \<Longrightarrow> holes s = 0"
  by (simp add: holes_def length_hole_positions count_list_0_iff)

lemma fill_no_holes: "hole_positions i q s = [] \<Longrightarrow> fill q s ls = s"
  by (induction s arbitrary: i q) (auto split: if_splits)

lemma build_sql_metadata:
  assumes "Hole \<notin> set (events Outside sql)"
  shows "build_sql T (create_statement D sql c) = Inr sql"
proof -
  have "hole_positions 0 Outside sql = []" using no_holes [OF assms] by (simp add: holes_def)
  then show ?thesis using build_sql_plain [OF no_holes [OF assms] create_statement_sql(1)] fill_no_holes by auto
qed

text \<open>A query with a list of conditions between two fixed texts.\<close>

lemma reads_outside_where:
  assumes "list_all2 reads_outside xs vs" "list_all (\<lambda>x. x \<noteq> [] \<and> hd x \<noteq> mark Single) xs"
    and "list_all plain_char pre" "list_all plain_char post" "post \<noteq> []" "xs \<noteq> []"
  shows "events Outside (pre @ join '' AND '' xs @ post) = map Code pre @ join (map Code '' AND '') vs @ map Code post"
proof -
  have sep: "reads_outside '' AND '' (map Code '' AND '')"
    by (rule reads_outside_plain) (simp add: plain_char_def)
  have j: "reads_outside (join '' AND '' xs) (join (map Code '' AND '') vs)"
    by (rule reads_outside_join [OF sep _ _ assms(1,2)]) simp_all
  have "hd post \<noteq> mark Single" using assms(4,5) by (cases post) (auto simp: plain_char_def)
  then have "reads_outside (join '' AND '' xs @ post) (join (map Code '' AND '') vs @ map Code post)"
    by (intro reads_outside_append [OF j reads_outside_plain [OF assms(4)]]) simp
  moreover have "hd (join '' AND '' xs @ post) \<noteq> mark Single"
    using assms(2,6) by (cases xs rule: remdups_adj.cases) auto
  ultimately have "reads_outside (pre @ join '' AND '' xs @ post) (map Code pre @ join (map Code '' AND '') vs @ map Code post)"
    by (intro reads_outside_append [OF reads_outside_plain [OF assms(3)]]) simp_all
  then show ?thesis by (rule reads_outside_events)
qed

text \<open>The three queries that take filters, with their fixed texts.\<close>

abbreviation sql_and :: "event list" where
  "sql_and \<equiv> map Code '' AND ''"

definition schemas_head :: string where
  "schemas_head = ''SELECT SCHEMA_NAME FROM SYS.EXA_ALL_SCHEMAS WHERE ''"

definition schemas_order :: string where
  "schemas_order = '' ORDER BY SCHEMA_NAME''"

definition tables_head :: string where
  "tables_head = ''SELECT ROOT_NAME AS TABLE_SCHEMA, OBJECT_NAME AS TABLE_NAME, OBJECT_TYPE AS TABLE_TYPE FROM SYS.EXA_ALL_OBJECTS WHERE ''"

definition tables_order :: string where
  "tables_order = '' ORDER BY ROOT_NAME, OBJECT_NAME''"

definition columns_head :: string where
  "columns_head = ''SELECT COLUMN_SCHEMA, COLUMN_TABLE, COLUMN_NAME, COLUMN_TYPE, COLUMN_NUM_PREC, COLUMN_NUM_SCALE, COLUMN_IS_NULLABLE FROM SYS.EXA_ALL_COLUMNS ''"

definition columns_order :: string where
  "columns_order = '' ORDER BY COLUMN_SCHEMA, COLUMN_TABLE, ORDINAL_POSITION''"

definition where_text :: string where
  "where_text = ''WHERE ''"

lemma plain_texts:
  "list_all plain_char schemas_head" "list_all plain_char schemas_order" "list_all plain_char tables_head"
  "list_all plain_char tables_order" "list_all plain_char columns_head" "list_all plain_char columns_order"
  "list_all plain_char where_text" "list_all plain_char ''SCHEMA_NAME''" "list_all plain_char ''ROOT_NAME''"
  "list_all plain_char ''OBJECT_NAME''" "list_all plain_char ''COLUMN_SCHEMA''" "list_all plain_char ''COLUMN_TABLE''"
  "list_all plain_char ''COLUMN_NAME''"
  by code_simp+

lemma order_texts [simp]: "schemas_order \<noteq> []" "tables_order \<noteq> []" "columns_order \<noteq> []"
  by (simp_all add: schemas_order_def tables_order_def columns_order_def)

definition object_types_text :: string where
  "object_types_text = ''OBJECT_TYPE IN ('' @ quoted ''TABLE'' @ '', '' @ quoted ''VIEW'' @ '')''"

definition object_types :: "event list" where
  "object_types = map Code ''OBJECT_TYPE IN ('' @ literal_events ''TABLE'' @ map Code '', '' @ literal_events ''VIEW'' @ map Code '')''"

definition column_conditions :: "string option \<Rightarrow> string option \<Rightarrow> string option \<Rightarrow> string option \<Rightarrow> string list" where
  "column_conditions catalog schema table column =
    optional_filter ''COLUMN_SCHEMA'' catalog @ optional_filter ''COLUMN_SCHEMA'' schema @
    optional_filter ''COLUMN_TABLE'' table @ optional_filter ''COLUMN_NAME'' column"

definition column_filters :: "string option \<Rightarrow> string option \<Rightarrow> string option \<Rightarrow> string option \<Rightarrow> event list list" where
  "column_filters catalog schema table column =
    filter_events ''COLUMN_SCHEMA'' catalog @ filter_events ''COLUMN_SCHEMA'' schema @
    filter_events ''COLUMN_TABLE'' table @ filter_events ''COLUMN_NAME'' column"

lemma metadata_texts:
  "schemas_sql (Some v) = schemas_head @ join '' AND '' (optional_filter ''SCHEMA_NAME'' (Some v)) @ schemas_order"
  "tables_sql schema table = tables_head @ join '' AND '' (object_types_text # optional_filter ''ROOT_NAME'' schema @
      optional_filter ''OBJECT_NAME'' table) @ tables_order"
  "columns_sql catalog schema table column = columns_head @
    (if column_conditions catalog schema table column = [] then []
     else where_text @ join '' AND '' (column_conditions catalog schema table column)) @ columns_order"
  by (simp_all only: schemas_sql_def tables_sql_def columns_sql_def schemas_head_def schemas_order_def tables_head_def
      tables_order_def columns_head_def columns_order_def object_types_text_def column_conditions_def where_text_def
      optional_filter_def option.case join.simps Let_def append_Cons append_Nil)

lemma reads_object_types: "reads_outside object_types_text object_types"
  by (simp add: reads_outside_def object_types_text_def object_types_def literal_events_def quoted_def
      emit_outside_def lex_outside_def)

lemma schemas_events:
  "events Outside (schemas_sql (Some v)) =
    map Code schemas_head @ join sql_and (filter_events ''SCHEMA_NAME'' (Some v)) @ map Code schemas_order"
  unfolding metadata_texts
  by (rule reads_outside_where [OF reads_filter [OF plain_texts(8)]]) (simp_all add: plain_texts(1,2) optional_filter_def)

lemma tables_events:
  "events Outside (tables_sql schema table) = map Code tables_head @
    join sql_and (object_types # filter_events ''ROOT_NAME'' schema @ filter_events ''OBJECT_NAME'' table) @ map Code tables_order"
proof -
  let ?xs = "object_types_text # optional_filter ''ROOT_NAME'' schema @ optional_filter ''OBJECT_NAME'' table"
  have "hd object_types_text \<noteq> mark Single" "object_types_text \<noteq> []" by (simp_all add: object_types_text_def)
  then have "list_all2 reads_outside ?xs (object_types # filter_events ''ROOT_NAME'' schema @ filter_events ''OBJECT_NAME'' table)"
    "list_all (\<lambda>x. x \<noteq> [] \<and> hd x \<noteq> mark Single) ?xs"
    using reads_filter [OF plain_texts(9)] reads_filter [OF plain_texts(10)] reads_object_types
    by (simp_all add: list_all2_appendI)
  then show ?thesis unfolding metadata_texts by (rule reads_outside_where) (simp_all add: plain_texts)
qed

lemma columns_events:
  "events Outside (columns_sql catalog schema table column) = map Code columns_head @
    (if column_filters catalog schema table column = [] then []
     else map Code where_text @ join sql_and (column_filters catalog schema table column)) @ map Code columns_order"
proof -
  let ?xs = "column_conditions catalog schema table column"
  have xs: "list_all2 reads_outside ?xs (column_filters catalog schema table column)"
    "list_all (\<lambda>x. x \<noteq> [] \<and> hd x \<noteq> mark Single) ?xs"
    using reads_filter [OF plain_texts(11)] reads_filter [OF plain_texts(12)] reads_filter [OF plain_texts(13)]
    by (simp_all add: list_all2_appendI column_filters_def column_conditions_def)
  have nil: "?xs = [] \<longleftrightarrow> column_filters catalog schema table column = []"
    using list_all2_lengthD [OF xs(1)] by auto
  show ?thesis
  proof (cases "?xs = []")
    case True
    then show ?thesis using nil reads_outside_events [OF reads_outside_plain [of "columns_head @ columns_order"]]
      by (simp add: metadata_texts plain_texts)
  next
    case False
    have "events Outside ((columns_head @ where_text) @ join '' AND '' ?xs @ columns_order) =
        map Code (columns_head @ where_text) @ join sql_and (column_filters catalog schema table column) @ map Code columns_order"
      by (rule reads_outside_where [OF xs]) (simp_all add: plain_texts False)
    then show ?thesis using nil False by (simp add: metadata_texts)
  qed
qed

text \<open>No event of such a text is a placeholder.\<close>

lemma no_hole_code [simp]: "Hole \<notin> Code ` A" "Hole \<notin> set (literal_events s)"
  by (auto simp: literal_events_def)

lemma no_hole_filter [simp]: "list_all (\<lambda>v. Hole \<notin> set v) (filter_events c v)"
  by (auto simp: filter_events_def split: option.split)

lemma no_hole_join: "list_all (\<lambda>v. Hole \<notin> set v) vs \<Longrightarrow> Hole \<notin> set (join sql_and vs)"
  by (induction sql_and vs rule: join.induct) auto

lemma metadata_no_holes:
  "Hole \<notin> set (events Outside (schemas_sql (Some v)))"
  "Hole \<notin> set (events Outside (tables_sql schema table))"
  "Hole \<notin> set (events Outside (columns_sql catalog schema table column))"
proof -
  have c: "list_all (\<lambda>v. Hole \<notin> set v) (column_filters catalog schema table column)"
    by (simp add: column_filters_def)
  have t: "list_all (\<lambda>v. Hole \<notin> set v) (object_types # filter_events ''ROOT_NAME'' schema @ filter_events ''OBJECT_NAME'' table)"
    by (auto simp: object_types_def)
  show "Hole \<notin> set (events Outside (schemas_sql (Some v)))"
    "Hole \<notin> set (events Outside (tables_sql schema table))"
    "Hole \<notin> set (events Outside (columns_sql catalog schema table column))"
    unfolding schemas_events tables_events columns_events
    using no_hole_join [OF c] no_hole_join [OF t] no_hole_join [OF no_hole_filter [of "''SCHEMA_NAME''" "Some v"]]
    by (auto simp del: join.simps list.simps(9))
qed

text \<open>A text without placeholders reaches the server as it is.\<close>

lemma metadata_sent:
  assumes "conn_ok c" and "Hole \<notin> set (events Outside sql)" and "execute D (traced P) sql c = (Ready (Inr rs), c')"
  shows "\<exists>l. history c' = l @ [QueryCall sql]"
proof -
  obtain r where r: "run_statement D (traced P) (create_statement D sql c) c = (Ready (Inr r), c')"
    using assms(3) by (auto simp: execute_def execute_statement_def abind_Ready alift_Ready)
  from run_statement_traced [OF assms(1) r] show ?thesis using build_sql_metadata [OF assms(2), of "de_text D" D c] by auto
qed

lemma plain_number: "list_all plain_char (show_nat n)"
proof -
  have "plain_char c" if "is_ascii_digit c" for c using that by (auto simp: is_ascii_digit_def plain_char_def)
  then show ?thesis using show_nat_digits [of n] by (auto simp: list_all_iff)
qed

end
