(* ===== verification/Bulk_Sql.thy ===== *)
theory Bulk_Sql
  imports Metadata_Laws
begin

text \<open>
  The SQL texts of IMPORT and EXPORT: the shared clauses of \<open>src/query/clauses.rs\<close> and the
  builders of \<open>src/query/import.rs\<close> and \<open>src/query/export.rs\<close>. A Rust \<open>char\<close> is its UTF-8
  text. The enum \<open>RowSeparator\<close> is declared with the same variants in both builders.
\<close>

abbreviation line_break :: string where
  "line_break \<equiv> [newline]"

text \<open>\<open>value.replace('\'', "''")\<close> between apostrophes.\<close>

definition sql_literal :: "string \<Rightarrow> string" where
  "sql_literal v = quoted (replace_char (CHR 0x27) [CHR 0x27, CHR 0x27] v)"

subsection \<open>Clauses\<close>

definition quoted_endpoint :: "string \<Rightarrow> string \<Rightarrow> string option \<Rightarrow> string" where
  "quoted_endpoint address url_suffix public_key =
    (let address = replace_char (CHR 0x27) [CHR 0x27, CHR 0x27] address;
         url_suffix = replace_char (CHR 0x27) [CHR 0x27, CHR 0x27] url_suffix in
     case public_key of
       Some fingerprint \<Rightarrow> quoted (''https://'' @ address @ url_suffix) @ '' PUBLIC KEY '' @ sql_literal fingerprint
     | None \<Rightarrow> quoted (''http://'' @ address @ url_suffix))"

definition escape_sql_char :: "string \<Rightarrow> string" where
  "escape_sql_char c = (if c = [CHR 0x27] then [CHR 0x27, CHR 0x27] else c)"

record CsvFraming =
  cf_encoding :: string
  cf_column_separator :: string
  cf_column_delimiter :: string
  cf_row_separator :: string

definition CsvFraming_to_sql :: "CsvFraming \<Rightarrow> string" where
  "CsvFraming_to_sql f =
    line_break @ ''ENCODING = '' @ sql_literal (cf_encoding f) @
    line_break @ ''COLUMN SEPARATOR = '' @ quoted (escape_sql_char (cf_column_separator f)) @
    line_break @ ''COLUMN DELIMITER = '' @ quoted (escape_sql_char (cf_column_delimiter f)) @
    line_break @ ''ROW SEPARATOR = '' @ sql_literal (cf_row_separator f)"

definition null_clause :: "string option \<Rightarrow> string" where
  "null_clause null_value = (case null_value of
      None \<Rightarrow> [] | Some v \<Rightarrow> line_break @ ''NULL = '' @ sql_literal v)"

subsection \<open>IMPORT\<close>

datatype RowSeparator = LF | CR | CRLF

fun RowSeparator_to_sql :: "RowSeparator \<Rightarrow> string" where
  "RowSeparator_to_sql LF = ''LF''"
| "RowSeparator_to_sql CR = ''CR''"
| "RowSeparator_to_sql CRLF = ''CRLF''"

datatype Compression = Uncompressed | Gzip | Bzip2

fun import_extension :: "Compression \<Rightarrow> string" where
  "import_extension Uncompressed = ''.csv''"
| "import_extension Gzip = ''.csv.gz''"
| "import_extension Bzip2 = ''.csv.bz2''"

datatype ImportFormat = Csv | Parquet

datatype TrimMode = NoTrim | LTrim | RTrim | Trim

fun TrimMode_to_sql :: "TrimMode \<Rightarrow> string option" where
  "TrimMode_to_sql NoTrim = None"
| "TrimMode_to_sql LTrim = Some ''LTRIM''"
| "TrimMode_to_sql RTrim = Some ''RTRIM''"
| "TrimMode_to_sql Trim = Some ''TRIM''"

record ImportFileEntry =
  fe_address :: string
  fe_file_name :: string
  fe_public_key :: "string option"

record ImportQuery =
  iq_table :: string
  iq_schema :: "string option"
  iq_columns :: "string list option"
  iq_address :: "string option"
  iq_public_key :: "string option"
  iq_file_name :: string
  iq_file_entries :: "ImportFileEntry list option"
  iq_column_separator :: string
  iq_column_delimiter :: string
  iq_row_separator :: RowSeparator
  iq_encoding :: string
  iq_skip :: u32
  iq_null_value :: "string option"
  iq_trim :: TrimMode
  iq_compression :: Compression
  iq_reject_limit :: "u32 option"
  iq_format :: ImportFormat

definition ImportQuery_new :: "string \<Rightarrow> ImportQuery" where
  "ImportQuery_new table = \<lparr>iq_table = table, iq_schema = None, iq_columns = None, iq_address = None,
    iq_public_key = None, iq_file_name = ''001.csv'', iq_file_entries = None, iq_column_separator = '','',
    iq_column_delimiter = [CHR 0x22], iq_row_separator = LF, iq_encoding = ''UTF-8'', iq_skip = 0,
    iq_null_value = None, iq_trim = NoTrim, iq_compression = Uncompressed, iq_reject_limit = None,
    iq_format = Csv\<rparr>"

text \<open>The settings of the builder.\<close>

definition import_schema :: "string \<Rightarrow> ImportQuery \<Rightarrow> ImportQuery" where
  "import_schema v q = q\<lparr>iq_schema := Some v\<rparr>"

definition import_columns :: "string list \<Rightarrow> ImportQuery \<Rightarrow> ImportQuery" where
  "import_columns v q = q\<lparr>iq_columns := Some v\<rparr>"

definition import_at_address :: "string \<Rightarrow> ImportQuery \<Rightarrow> ImportQuery" where
  "import_at_address v q = q\<lparr>iq_address := Some v\<rparr>"

definition import_with_public_key :: "string \<Rightarrow> ImportQuery \<Rightarrow> ImportQuery" where
  "import_with_public_key v q = q\<lparr>iq_public_key := Some v\<rparr>"

definition import_file_name :: "string \<Rightarrow> ImportQuery \<Rightarrow> ImportQuery" where
  "import_file_name v q = q\<lparr>iq_file_name := v\<rparr>"

definition import_column_separator :: "string \<Rightarrow> ImportQuery \<Rightarrow> ImportQuery" where
  "import_column_separator v q = q\<lparr>iq_column_separator := v\<rparr>"

definition import_column_delimiter :: "string \<Rightarrow> ImportQuery \<Rightarrow> ImportQuery" where
  "import_column_delimiter v q = q\<lparr>iq_column_delimiter := v\<rparr>"

definition import_row_separator :: "RowSeparator \<Rightarrow> ImportQuery \<Rightarrow> ImportQuery" where
  "import_row_separator v q = q\<lparr>iq_row_separator := v\<rparr>"

definition import_encoding :: "string \<Rightarrow> ImportQuery \<Rightarrow> ImportQuery" where
  "import_encoding v q = q\<lparr>iq_encoding := v\<rparr>"

definition import_skip :: "u32 \<Rightarrow> ImportQuery \<Rightarrow> ImportQuery" where
  "import_skip v q = q\<lparr>iq_skip := v\<rparr>"

definition import_null_value :: "string \<Rightarrow> ImportQuery \<Rightarrow> ImportQuery" where
  "import_null_value v q = q\<lparr>iq_null_value := Some v\<rparr>"

definition import_trim :: "TrimMode \<Rightarrow> ImportQuery \<Rightarrow> ImportQuery" where
  "import_trim v q = q\<lparr>iq_trim := v\<rparr>"

definition import_compressed :: "Compression \<Rightarrow> ImportQuery \<Rightarrow> ImportQuery" where
  "import_compressed v q = q\<lparr>iq_compression := v\<rparr>"

definition import_reject_limit :: "u32 \<Rightarrow> ImportQuery \<Rightarrow> ImportQuery" where
  "import_reject_limit v q = q\<lparr>iq_reject_limit := Some v\<rparr>"

definition import_with_format :: "ImportFormat \<Rightarrow> ImportQuery \<Rightarrow> ImportQuery" where
  "import_with_format v q = q\<lparr>iq_format := v\<rparr>"

definition import_with_files :: "ImportFileEntry list \<Rightarrow> ImportQuery \<Rightarrow> ImportQuery" where
  "import_with_files v q = q\<lparr>iq_file_entries := Some v\<rparr>"

definition is_parquet :: "ImportQuery \<Rightarrow> bool" where
  "is_parquet q \<longleftrightarrow> iq_format q = Parquet"

definition strip_suffix :: "string \<Rightarrow> string \<Rightarrow> string option" where
  "strip_suffix p s = (if length p \<le> length s \<and> drop (length s - length p) s = p
    then Some (take (length s - length p) s) else None)"

definition known_extensions :: "string list" where
  "known_extensions = [''.gz'', ''.bz2'', ''.csv'', ''.parquet'']"

fun first_suffix :: "string list \<Rightarrow> string \<Rightarrow> string option" where
  "first_suffix [] s = None"
| "first_suffix (p # ps) s = (case strip_suffix p s of Some t \<Rightarrow> Some t | None \<Rightarrow> first_suffix ps s)"

function strip_known_extensions :: "string \<Rightarrow> string" where
  "strip_known_extensions current = (case first_suffix known_extensions current of
      Some next' \<Rightarrow> if length next' < length current then strip_known_extensions next' else current
    | None \<Rightarrow> current)"
  by pat_completeness auto
termination
  by (relation "measure length") auto

declare strip_known_extensions.simps [simp del]

definition file_name_for :: "ImportQuery \<Rightarrow> string \<Rightarrow> string" where
  "file_name_for q base_name = (let base = strip_known_extensions base_name in
    case iq_format q of
      Parquet \<Rightarrow> base @ ''.parquet''
    | Csv \<Rightarrow> base @ import_extension (iq_compression q))"

definition endpoint_of :: "ImportQuery \<Rightarrow> string \<Rightarrow> string option \<Rightarrow> string" where
  "endpoint_of q address public_key =
    quoted_endpoint address (if is_parquet q then '';MaxConcurrentReads=1'' else []) public_key"

definition target_clause :: "ImportQuery \<Rightarrow> string" where
  "target_clause q = ''IMPORT INTO '' @ (case iq_schema q of None \<Rightarrow> [] | Some s \<Rightarrow> s @ ''.'') @ iq_table q @
    (case iq_columns q of None \<Rightarrow> [] | Some cols \<Rightarrow> '' ('' @ join '', '' cols @ '')'')"

definition file_entry_clause :: "ImportQuery \<Rightarrow> ImportFileEntry \<Rightarrow> string" where
  "file_entry_clause q entry = '' AT '' @ endpoint_of q (fe_address entry) (fe_public_key entry) @
    '' FILE '' @ quoted (file_name_for q (fe_file_name entry))"

definition import_source_clause :: "ImportQuery \<Rightarrow> string" where
  "import_source_clause q = line_break @ ''FROM '' @ (if is_parquet q then ''PARQUET'' else ''CSV'') @
    (case iq_file_entries q of
       Some entries \<Rightarrow> concat (map (file_entry_clause q) entries)
     | None \<Rightarrow> '' AT '' @ endpoint_of q (case iq_address q of Some a \<Rightarrow> a | None \<Rightarrow> []) (iq_public_key q) @
         line_break @ ''FILE '' @ quoted (file_name_for q (iq_file_name q)))"

definition csv_option_clauses :: "ImportQuery \<Rightarrow> string" where
  "csv_option_clauses q =
    CsvFraming_to_sql \<lparr>cf_encoding = iq_encoding q, cf_column_separator = iq_column_separator q,
      cf_column_delimiter = iq_column_delimiter q, cf_row_separator = RowSeparator_to_sql (iq_row_separator q)\<rparr> @
    (if 0 < iq_skip q then line_break @ ''SKIP = '' @ show_nat (unat (iq_skip q)) else []) @
    null_clause (iq_null_value q) @
    (case TrimMode_to_sql (iq_trim q) of None \<Rightarrow> [] | Some t \<Rightarrow> line_break @ ''TRIM = '' @ quoted t) @
    (case iq_reject_limit q of None \<Rightarrow> [] | Some n \<Rightarrow> line_break @ ''REJECT LIMIT '' @ show_nat (unat n))"

definition build_import :: "ImportQuery \<Rightarrow> string" where
  "build_import q = target_clause q @ import_source_clause q @ (if is_parquet q then [] else csv_option_clauses q)"

subsection \<open>EXPORT\<close>

fun export_extension :: "Compression \<Rightarrow> string" where
  "export_extension Uncompressed = []"
| "export_extension Gzip = ''.gz''"
| "export_extension Bzip2 = ''.bz2''"

datatype DelimitMode = Auto | Always | Never

fun DelimitMode_as_sql :: "DelimitMode \<Rightarrow> string" where
  "DelimitMode_as_sql Auto = ''AUTO''"
| "DelimitMode_as_sql Always = ''ALWAYS''"
| "DelimitMode_as_sql Never = ''NEVER''"

datatype ExportSource = TableSource "string option" string "string list" | QuerySource string

definition qualified_name :: "string option \<Rightarrow> string \<Rightarrow> string" where
  "qualified_name schema name = (case schema of Some s \<Rightarrow> s @ ''.'' @ name | None \<Rightarrow> name)"

fun select_statement :: "ExportSource \<Rightarrow> string" where
  "select_statement (TableSource schema name columns) =
    ''SELECT '' @ (if columns = [] then ''*'' else join '', '' columns) @ '' FROM '' @ qualified_name schema name"
| "select_statement (QuerySource sql) = sql"

record ExportQuery =
  eq_source :: ExportSource
  eq_address :: string
  eq_public_key :: "string option"
  eq_file_name :: string
  eq_column_separator :: string
  eq_column_delimiter :: string
  eq_row_separator :: RowSeparator
  eq_encoding :: string
  eq_null_value :: "string option"
  eq_delimit_mode :: DelimitMode
  eq_compression :: Compression
  eq_with_column_names :: bool

definition with_source :: "ExportSource \<Rightarrow> ExportQuery" where
  "with_source source = \<lparr>eq_source = source, eq_address = [], eq_public_key = None, eq_file_name = ''001.csv'',
    eq_column_separator = '','', eq_column_delimiter = [CHR 0x22], eq_row_separator = LF, eq_encoding = ''UTF-8'',
    eq_null_value = None, eq_delimit_mode = Auto, eq_compression = Uncompressed, eq_with_column_names = False\<rparr>"

definition from_table :: "string \<Rightarrow> ExportQuery" where
  "from_table table = with_source (TableSource None table [])"

definition from_query :: "string \<Rightarrow> ExportQuery" where
  "from_query sql = with_source (QuerySource sql)"

text \<open>The settings of the builder; schema and columns are ignored for a query.\<close>

definition export_schema :: "string \<Rightarrow> ExportQuery \<Rightarrow> ExportQuery" where
  "export_schema v q = (case eq_source q of
      TableSource _ name columns \<Rightarrow> q\<lparr>eq_source := TableSource (Some v) name columns\<rparr> | QuerySource _ \<Rightarrow> q)"

definition export_columns :: "string list \<Rightarrow> ExportQuery \<Rightarrow> ExportQuery" where
  "export_columns v q = (case eq_source q of
      TableSource schema name _ \<Rightarrow> q\<lparr>eq_source := TableSource schema name v\<rparr> | QuerySource _ \<Rightarrow> q)"

definition export_at_address :: "string \<Rightarrow> ExportQuery \<Rightarrow> ExportQuery" where
  "export_at_address v q = q\<lparr>eq_address := v\<rparr>"

definition export_with_public_key :: "string \<Rightarrow> ExportQuery \<Rightarrow> ExportQuery" where
  "export_with_public_key v q = q\<lparr>eq_public_key := Some v\<rparr>"

definition export_file_name :: "string \<Rightarrow> ExportQuery \<Rightarrow> ExportQuery" where
  "export_file_name v q = q\<lparr>eq_file_name := v\<rparr>"

definition export_column_separator :: "string \<Rightarrow> ExportQuery \<Rightarrow> ExportQuery" where
  "export_column_separator v q = q\<lparr>eq_column_separator := v\<rparr>"

definition export_column_delimiter :: "string \<Rightarrow> ExportQuery \<Rightarrow> ExportQuery" where
  "export_column_delimiter v q = q\<lparr>eq_column_delimiter := v\<rparr>"

definition export_row_separator :: "RowSeparator \<Rightarrow> ExportQuery \<Rightarrow> ExportQuery" where
  "export_row_separator v q = q\<lparr>eq_row_separator := v\<rparr>"

definition export_encoding :: "string \<Rightarrow> ExportQuery \<Rightarrow> ExportQuery" where
  "export_encoding v q = q\<lparr>eq_encoding := v\<rparr>"

definition export_null_value :: "string \<Rightarrow> ExportQuery \<Rightarrow> ExportQuery" where
  "export_null_value v q = q\<lparr>eq_null_value := Some v\<rparr>"

definition export_delimit_mode :: "DelimitMode \<Rightarrow> ExportQuery \<Rightarrow> ExportQuery" where
  "export_delimit_mode v q = q\<lparr>eq_delimit_mode := v\<rparr>"

definition export_compressed :: "Compression \<Rightarrow> ExportQuery \<Rightarrow> ExportQuery" where
  "export_compressed v q = q\<lparr>eq_compression := v\<rparr>"

definition export_with_column_names :: "bool \<Rightarrow> ExportQuery \<Rightarrow> ExportQuery" where
  "export_with_column_names v q = q\<lparr>eq_with_column_names := v\<rparr>"

fun export_source_clause :: "ExportSource \<Rightarrow> string" where
  "export_source_clause (TableSource schema name columns) = ''EXPORT '' @ qualified_name schema name @
    (if columns = [] then [] else '' ('' @ join '', '' columns @ '')'')"
| "export_source_clause (QuerySource sql) = ''EXPORT ('' @ sql @ '')''"

definition destination_clause :: "ExportQuery \<Rightarrow> string" where
  "destination_clause q = line_break @ ''INTO CSV AT '' @ quoted_endpoint (eq_address q) [] (eq_public_key q) @
    line_break @ ''FILE '' @ quoted (eq_file_name q @ export_extension (eq_compression q))"

definition format_option_clauses :: "ExportQuery \<Rightarrow> string" where
  "format_option_clauses q =
    CsvFraming_to_sql \<lparr>cf_encoding = eq_encoding q, cf_column_separator = eq_column_separator q,
      cf_column_delimiter = eq_column_delimiter q, cf_row_separator = RowSeparator_to_sql (eq_row_separator q)\<rparr> @
    null_clause (eq_null_value q) @
    (if eq_with_column_names q then line_break @ ''WITH COLUMN NAMES'' else []) @
    line_break @ ''DELIMIT = '' @ DelimitMode_as_sql (eq_delimit_mode q)"

definition build_export :: "ExportQuery \<Rightarrow> string" where
  "build_export q = export_source_clause (eq_source q) @ destination_clause q @ format_option_clauses q"

end
