(* ===== verification/Bulk_Sql_Laws.thy ===== *)
theory Bulk_Sql_Laws
  imports Bulk_Sql
begin

text \<open>
  The texts of IMPORT and EXPORT as SQL: the option values, addresses and fingerprints are
  string literals, whatever characters they hold. File names are the exception: they are put
  between apostrophes as they are.
\<close>

subsection \<open>Literals\<close>

lemma replace_char_append [simp]: "replace_char a r (x @ y) = replace_char a r x @ replace_char a r y"
  by (simp add: replace_char_def)

lemma replace_char_absent: "a \<notin> set x \<Longrightarrow> replace_char a r x = x"
  by (induction x) (auto simp: replace_char_def)

lemma quoted_literal: "CHR 0x27 \<notin> set x \<Longrightarrow> quoted x = sql_literal x"
  by (simp add: sql_literal_def replace_char_absent)

text \<open>A text that is one \<open>char\<close>: an apostrophe, or no apostrophe in it.\<close>

definition one_char :: "string \<Rightarrow> bool" where
  "one_char c \<longleftrightarrow> c = [CHR 0x27] \<or> CHR 0x27 \<notin> set c"

lemma quoted_char: "one_char c \<Longrightarrow> quoted (escape_sql_char c) = sql_literal c"
  by (auto simp: one_char_def escape_sql_char_def sql_literal_def replace_char_absent) (simp add: replace_char_def)

definition endpoint_url :: "string \<Rightarrow> string \<Rightarrow> string option \<Rightarrow> string" where
  "endpoint_url address suffix key = (if key = None then ''http://'' else ''https://'') @ address @ suffix"

lemma quoted_endpoint_literals:
  "quoted_endpoint address suffix key = sql_literal (endpoint_url address suffix key) @
    (case key of None \<Rightarrow> [] | Some fingerprint \<Rightarrow> '' PUBLIC KEY '' @ sql_literal fingerprint)"
  by (simp add: quoted_endpoint_def sql_literal_def endpoint_url_def Let_def replace_char_def split: option.split)

subsection \<open>Texts of fixed parts and literals\<close>

datatype piece = Fixed string | Literal string

fun piece_text :: "piece \<Rightarrow> string" where
  "piece_text (Fixed s) = s"
| "piece_text (Literal v) = sql_literal v"

fun piece_events :: "piece \<Rightarrow> event list" where
  "piece_events (Fixed s) = map Code s"
| "piece_events (Literal v) = literal_events v"

abbreviation "pieces_text ps \<equiv> concat (map piece_text ps)"
abbreviation "pieces_events ps \<equiv> concat (map piece_events ps)"

text \<open>Fixed parts are plain and not empty, and no two literals touch.\<close>

fun spaced :: "piece list \<Rightarrow> bool" where
  "spaced [] \<longleftrightarrow> True"
| "spaced (Fixed s # ps) \<longleftrightarrow> s \<noteq> [] \<and> list_all plain_char s \<and> spaced ps"
| "spaced [Literal v] \<longleftrightarrow> True"
| "spaced (Literal v # Fixed s # ps) \<longleftrightarrow> spaced (Fixed s # ps)"
| "spaced (Literal v # Literal w # ps) \<longleftrightarrow> False"

lemma reads_outside_fixed: "list_all plain_char s \<Longrightarrow> reads_outside x v \<Longrightarrow> reads_outside (s @ x) (map Code s @ v)"
  by (simp add: reads_outside_def events_plain_chars)

lemma spaced_reads: "spaced ps \<Longrightarrow> reads_outside (pieces_text ps) (pieces_events ps)"
proof (induction ps rule: spaced.induct)
  case (2 s ps)
  then show ?case using reads_outside_fixed by simp
next
  case (3 v)
  then show ?case using reads_outside_literal [of v] by (simp add: sql_literal_def)
next
  case (4 v s ps)
  then have "hd s \<noteq> mark Single" "s \<noteq> []" by (cases s; auto simp: plain_char_def)+
  then show ?case using 4 reads_outside_append [OF reads_outside_literal [of v]] by (auto simp: sql_literal_def)
qed (simp_all add: reads_outside_def)

lemma spaced_append:
  "spaced ps \<Longrightarrow> spaced qs \<Longrightarrow> qs = [] \<or> (\<exists>s. hd qs = Fixed s) \<Longrightarrow> spaced (ps @ qs)"
proof (induction ps rule: spaced.induct)
  case (3 v)
  then show ?case by (cases qs) auto
qed auto

lemma spaced_concat: "(\<And>ps. ps \<in> set pss \<Longrightarrow> spaced ps \<and> ps \<noteq> [] \<and> (\<exists>s. hd ps = Fixed s)) \<Longrightarrow> spaced (concat pss)"
proof (induction pss)
  case (Cons ps pss)
  have "concat pss = [] \<or> (\<exists>s. hd (concat pss) = Fixed s)"
    using Cons.prems by (cases pss) auto
  then show ?case using Cons by (auto intro!: spaced_append)
qed simp

subsection \<open>The clauses as pieces\<close>

definition framing_pieces :: "CsvFraming \<Rightarrow> piece list" where
  "framing_pieces f =
    [Fixed (line_break @ ''ENCODING = ''), Literal (cf_encoding f),
     Fixed (line_break @ ''COLUMN SEPARATOR = ''), Literal (cf_column_separator f),
     Fixed (line_break @ ''COLUMN DELIMITER = ''), Literal (cf_column_delimiter f),
     Fixed (line_break @ ''ROW SEPARATOR = ''), Literal (cf_row_separator f)]"

definition optional_pieces :: "string \<Rightarrow> string option \<Rightarrow> piece list" where
  "optional_pieces key v = (case v of None \<Rightarrow> [] | Some x \<Rightarrow> [Fixed key, Literal x])"

definition fixed_if :: "bool \<Rightarrow> string \<Rightarrow> piece list" where
  "fixed_if b s = (if b then [Fixed s] else [])"

definition endpoint_pieces :: "string \<Rightarrow> string \<Rightarrow> string option \<Rightarrow> piece list" where
  "endpoint_pieces address suffix key =
    Literal (endpoint_url address suffix key) # optional_pieces '' PUBLIC KEY '' key"

lemma endpoint_text: "quoted_endpoint address suffix key = pieces_text (endpoint_pieces address suffix key)"
  by (simp add: quoted_endpoint_literals endpoint_pieces_def optional_pieces_def split: option.split)

lemma framing_text:
  "one_char (cf_column_separator f) \<Longrightarrow> one_char (cf_column_delimiter f) \<Longrightarrow> CsvFraming_to_sql f = pieces_text (framing_pieces f)"
  by (simp add: CsvFraming_to_sql_def framing_pieces_def quoted_char)

lemma null_text: "null_clause v = pieces_text (optional_pieces (line_break @ ''NULL = '') v)"
  by (simp add: null_clause_def optional_pieces_def split: option.split)

definition import_framing :: "ImportQuery \<Rightarrow> CsvFraming" where
  "import_framing q = \<lparr>cf_encoding = iq_encoding q, cf_column_separator = iq_column_separator q,
    cf_column_delimiter = iq_column_delimiter q, cf_row_separator = RowSeparator_to_sql (iq_row_separator q)\<rparr>"

definition import_option_pieces :: "ImportQuery \<Rightarrow> piece list" where
  "import_option_pieces q = framing_pieces (import_framing q) @
    fixed_if (0 < iq_skip q) (line_break @ ''SKIP = '' @ show_nat (unat (iq_skip q))) @
    optional_pieces (line_break @ ''NULL = '') (iq_null_value q) @
    optional_pieces (line_break @ ''TRIM = '') (TrimMode_to_sql (iq_trim q)) @
    fixed_if (iq_reject_limit q \<noteq> None) (line_break @ ''REJECT LIMIT '' @ show_nat (unat (the (iq_reject_limit q))))"

definition import_suffix :: "ImportQuery \<Rightarrow> string" where
  "import_suffix q = (if is_parquet q then '';MaxConcurrentReads=1'' else [])"

definition entry_pieces :: "ImportQuery \<Rightarrow> ImportFileEntry \<Rightarrow> piece list" where
  "entry_pieces q e = Fixed '' AT '' # endpoint_pieces (fe_address e) (import_suffix q) (fe_public_key e) @
    [Fixed '' FILE '', Literal (file_name_for q (fe_file_name e))]"

definition import_source_pieces :: "ImportQuery \<Rightarrow> piece list" where
  "import_source_pieces q = Fixed (line_break @ ''FROM '' @ (if is_parquet q then ''PARQUET'' else ''CSV'')) #
    (case iq_file_entries q of
       Some entries \<Rightarrow> concat (map (entry_pieces q) entries)
     | None \<Rightarrow> Fixed '' AT '' # endpoint_pieces (case iq_address q of Some a \<Rightarrow> a | None \<Rightarrow> []) (import_suffix q) (iq_public_key q) @
         [Fixed (line_break @ ''FILE ''), Literal (file_name_for q (iq_file_name q))])"

text \<open>The file names have no apostrophe, and the separators are one \<open>char\<close> each.\<close>

definition import_ok :: "ImportQuery \<Rightarrow> bool" where
  "import_ok q \<longleftrightarrow> one_char (iq_column_separator q) \<and> one_char (iq_column_delimiter q) \<and> CHR 0x27 \<notin> set (iq_file_name q)
    \<and> (\<forall>es. iq_file_entries q = Some es \<longrightarrow> (\<forall>e \<in> set es. CHR 0x27 \<notin> set (fe_file_name e)))"

lemma first_suffix_take: "first_suffix ps s = Some t \<Longrightarrow> \<exists>p \<in> set ps. s = t @ p"
  by (induction ps) (auto simp: strip_suffix_def split: option.splits if_splits, metis append_take_drop_id)

lemma strip_known_prefix: "\<exists>r. s = strip_known_extensions s @ r"
proof (induction s rule: strip_known_extensions.induct)
  case (1 s)
  show ?case
  proof (cases "first_suffix known_extensions s")
    case None
    then show ?thesis by (simp add: strip_known_extensions.simps)
  next
    case (Some t)
    then obtain p where p: "s = t @ p" using first_suffix_take by blast
    show ?thesis
    proof (cases "length t < length s")
      case True
      then obtain r where "t = strip_known_extensions t @ r" using 1 Some by blast
      moreover have "strip_known_extensions s = strip_known_extensions t"
        using Some True by (subst strip_known_extensions.simps) simp
      ultimately have "s = strip_known_extensions s @ r @ p" using p by (metis append.assoc)
      then show ?thesis by blast
    next
      case False
      then have "strip_known_extensions s = s" using Some by (subst strip_known_extensions.simps) simp
      then show ?thesis by simp
    qed
  qed
qed

lemma file_name_no_apostrophe: "CHR 0x27 \<notin> set s \<Longrightarrow> CHR 0x27 \<notin> set (file_name_for q s)"
proof -
  assume s: "CHR 0x27 \<notin> set s"
  obtain r where "s = strip_known_extensions s @ r" using strip_known_prefix by blast
  then have "CHR 0x27 \<notin> set (strip_known_extensions s)" using s by (metis Un_iff set_append)
  then show ?thesis by (cases "iq_compression q"; cases "iq_format q") (simp_all add: file_name_for_def Let_def)
qed

lemma csv_options_text: "import_ok q \<Longrightarrow> csv_option_clauses q = pieces_text (import_option_pieces q)"
proof -
  assume q: "import_ok q"
  then have "CsvFraming_to_sql (import_framing q) = pieces_text (framing_pieces (import_framing q))"
    by (intro framing_text) (simp_all add: import_ok_def import_framing_def)
  moreover have "quoted t = sql_literal t" if "TrimMode_to_sql m = Some t" for m t
    using that by (cases m) (auto intro!: quoted_literal)
  ultimately show ?thesis
    by (auto simp: csv_option_clauses_def import_option_pieces_def import_framing_def null_text fixed_if_def
        optional_pieces_def split: option.split)
qed

lemma concat_pieces:
  "(\<And>e. e \<in> set es \<Longrightarrow> f e = pieces_text (g e)) \<Longrightarrow> concat (map f es) = pieces_text (concat (map g es))"
  by (induction es) simp_all

lemma import_source_text: "import_ok q \<Longrightarrow> import_source_clause q = pieces_text (import_source_pieces q)"
proof -
  assume q: "import_ok q"
  then have "file_entry_clause q e = pieces_text (entry_pieces q e)" if "iq_file_entries q = Some es" "e \<in> set es" for es e
    using that by (simp add: file_entry_clause_def entry_pieces_def endpoint_of_def endpoint_text import_suffix_def import_ok_def
        quoted_literal file_name_no_apostrophe)
  then have "concat (map (file_entry_clause q) es) = pieces_text (concat (map (entry_pieces q) es))" if "iq_file_entries q = Some es" for es
    by (rule concat_pieces) (use that in blast)
  then show ?thesis using q
    by (auto simp: import_source_clause_def import_source_pieces_def endpoint_of_def endpoint_text import_suffix_def import_ok_def
        quoted_literal file_name_no_apostrophe split: option.split)
qed

lemma spaced_endpoint: "spaced (endpoint_pieces a u k)"
  by (simp add: endpoint_pieces_def optional_pieces_def plain_char_def split: option.split)

lemma spaced_endpoint_then:
  assumes "list_all plain_char s" "s \<noteq> []" "list_all plain_char f" "f \<noteq> []"
  shows "spaced (Fixed s # endpoint_pieces a u k @ [Fixed f, Literal v])"
proof -
  have "spaced ((Fixed s # endpoint_pieces a u k) @ [Fixed f, Literal v])"
    by (rule spaced_append) (use assms in \<open>simp_all add: spaced_endpoint\<close>)
  then show ?thesis by simp
qed

lemma plain_break: "list_all plain_char (line_break @ s) = list_all plain_char s"
  by (simp add: plain_char_def)

lemma spaced_optional: "list_all plain_char s \<Longrightarrow> s \<noteq> [] \<Longrightarrow> spaced (optional_pieces s v)"
  "optional_pieces s v = [] \<or> (\<exists>x. hd (optional_pieces s v) = Fixed x)"
  "list_all plain_char s \<Longrightarrow> s \<noteq> [] \<Longrightarrow> spaced (fixed_if b s)" "fixed_if b s = [] \<or> (\<exists>x. hd (fixed_if b s) = Fixed x)"
  by (auto simp: optional_pieces_def fixed_if_def split: option.split)

lemma spaced_framing: "spaced (framing_pieces f)"
  by (simp add: framing_pieces_def plain_char_def)

text \<open>Pieces that start with a fixed part, if with any.\<close>

definition led :: "piece list \<Rightarrow> bool" where
  "led ps \<longleftrightarrow> spaced ps \<and> (ps = [] \<or> (\<exists>s. hd ps = Fixed s))"

lemma led_append: "led ps \<Longrightarrow> led qs \<Longrightarrow> led (ps @ qs)"
  by (cases ps) (auto simp: led_def intro!: spaced_append)

lemma led_parts:
  "list_all plain_char s \<Longrightarrow> s \<noteq> [] \<Longrightarrow> led (optional_pieces s v)" "list_all plain_char s \<Longrightarrow> s \<noteq> [] \<Longrightarrow> led (fixed_if b s)"
  "led (framing_pieces f)" "led []"
  using spaced_optional spaced_framing by (auto simp: led_def) (simp add: framing_pieces_def)

lemma led_import_options: "led (import_option_pieces q)"
  unfolding import_option_pieces_def
  by (intro led_append led_parts) (simp_all add: plain_number, simp_all add: plain_char_def)

lemma led_import_source: "led (import_source_pieces q)"
proof -
  have "led (entry_pieces q e)" for e
    unfolding led_def entry_pieces_def using spaced_endpoint_then [of "'' AT ''" "'' FILE ''"] by (simp add: plain_char_def)
  then have "led (concat (map (entry_pieces q) es))" for es
    by (induction es) (simp_all add: led_append led_parts)
  moreover have "led (Fixed '' AT '' # endpoint_pieces a u k @ [Fixed (line_break @ ''FILE ''), Literal v])" for a u k v
    unfolding led_def using spaced_endpoint_then [of "'' AT ''" "line_break @ ''FILE ''"] by (simp add: plain_char_def)
  moreover have "led [Fixed (line_break @ ''FROM '' @ (if is_parquet q then ''PARQUET'' else ''CSV''))]"
    by (simp add: led_def plain_char_def)
  ultimately show ?thesis
    unfolding import_source_pieces_def
    using led_append [of "[Fixed (line_break @ ''FROM '' @ (if is_parquet q then ''PARQUET'' else ''CSV''))]"]
    by (auto split: option.split)
qed

lemma led_reads:
  assumes "reads_outside x v" "led ps"
  shows "events Outside (x @ pieces_text ps) = v @ pieces_events ps"
proof -
  have "pieces_text ps = [] \<or> hd (pieces_text ps) \<noteq> mark Single"
    using assms(2) by (cases ps rule: spaced.cases) (auto simp: led_def plain_char_def neq_Nil_conv)
  then show ?thesis
    using reads_outside_events reads_outside_append [OF assms(1) spaced_reads] assms(2) by (auto simp: led_def)
qed

lemma import_events:
  assumes "import_ok q" "reads_outside (target_clause q) v"
  shows "events Outside (build_import q) =
    v @ pieces_events (import_source_pieces q @ (if is_parquet q then [] else import_option_pieces q))"
proof -
  have "led (import_source_pieces q @ (if is_parquet q then [] else import_option_pieces q))"
    by (intro led_append led_import_source) (simp add: led_import_options led_parts)
  from led_reads [OF assms(2) this] show ?thesis
    using assms(1) by (cases "is_parquet q") (simp_all add: build_import_def import_source_text csv_options_text)
qed

subsection \<open>EXPORT\<close>

definition export_framing :: "ExportQuery \<Rightarrow> CsvFraming" where
  "export_framing q = \<lparr>cf_encoding = eq_encoding q, cf_column_separator = eq_column_separator q,
    cf_column_delimiter = eq_column_delimiter q, cf_row_separator = RowSeparator_to_sql (eq_row_separator q)\<rparr>"

definition export_pieces :: "ExportQuery \<Rightarrow> piece list" where
  "export_pieces q = (Fixed (line_break @ ''INTO CSV AT '') # endpoint_pieces (eq_address q) [] (eq_public_key q) @
      [Fixed (line_break @ ''FILE ''), Literal (eq_file_name q @ export_extension (eq_compression q))]) @
    framing_pieces (export_framing q) @ optional_pieces (line_break @ ''NULL = '') (eq_null_value q) @
    fixed_if (eq_with_column_names q) (line_break @ ''WITH COLUMN NAMES'') @
    [Fixed (line_break @ ''DELIMIT = '' @ DelimitMode_as_sql (eq_delimit_mode q))]"

definition export_ok :: "ExportQuery \<Rightarrow> bool" where
  "export_ok q \<longleftrightarrow> one_char (eq_column_separator q) \<and> one_char (eq_column_delimiter q) \<and> CHR 0x27 \<notin> set (eq_file_name q)"

lemma export_text:
  assumes "export_ok q"
  shows "destination_clause q @ format_option_clauses q = pieces_text (export_pieces q)"
proof -
  have "CsvFraming_to_sql (export_framing q) = pieces_text (framing_pieces (export_framing q))"
    using assms by (intro framing_text) (simp_all add: export_ok_def export_framing_def)
  moreover have "quoted (eq_file_name q @ export_extension (eq_compression q))
      = sql_literal (eq_file_name q @ export_extension (eq_compression q))"
    by (rule quoted_literal) (use assms in \<open>cases "eq_compression q"; simp add: export_ok_def\<close>)
  ultimately show ?thesis
    by (simp add: destination_clause_def format_option_clauses_def export_pieces_def export_framing_def endpoint_text null_text fixed_if_def)
qed

lemma led_export: "led (export_pieces q)"
proof -
  have "list_all plain_char (DelimitMode_as_sql m)" for m by (cases m) (simp_all add: plain_char_def)
  then have "led [Fixed (line_break @ ''DELIMIT = '' @ DelimitMode_as_sql (eq_delimit_mode q))]"
    by (simp add: led_def) (simp add: plain_char_def)
  moreover have "led (Fixed (line_break @ ''INTO CSV AT '') # endpoint_pieces a u k @ [Fixed (line_break @ ''FILE ''), Literal v])" for a u k v
    unfolding led_def using spaced_endpoint_then [of "line_break @ ''INTO CSV AT ''" "line_break @ ''FILE ''"] by (simp add: plain_char_def)
  ultimately show ?thesis unfolding export_pieces_def
    by (intro led_append led_parts) (simp_all add: plain_char_def)
qed

lemma export_events:
  assumes "export_ok q" "reads_outside (export_source_clause (eq_source q)) v"
  shows "events Outside (build_export q) = v @ pieces_events (export_pieces q)"
  using led_reads [OF assms(2) led_export] export_text [OF assms(1)] by (simp add: build_export_def)

subsection \<open>File names\<close>

lemma strip_known_done: "first_suffix known_extensions s = None \<Longrightarrow> strip_known_extensions s = s"
  by (simp add: strip_known_extensions.simps)

lemma strip_known_step: "first_suffix known_extensions s = Some t \<Longrightarrow> strip_known_extensions s = strip_known_extensions t"
proof -
  assume t: "first_suffix known_extensions s = Some t"
  then obtain p where "p \<in> set known_extensions" "s = t @ p" using first_suffix_take by blast
  then have "length t < length s" by (auto simp: known_extensions_def)
  then show ?thesis using t by (subst strip_known_extensions.simps) simp
qed

lemma strip_known_fixed: "first_suffix known_extensions (strip_known_extensions s) = None"
proof (induction s rule: strip_known_extensions.induct)
  case (1 s)
  show ?case
  proof (cases "first_suffix known_extensions s")
    case None
    then show ?thesis by (simp add: strip_known_done)
  next
    case (Some t)
    then obtain p where "p \<in> set known_extensions" "s = t @ p" using first_suffix_take by blast
    then have "length t < length s" by (auto simp: known_extensions_def)
    then show ?thesis using 1 Some strip_known_step [OF Some] by simp
  qed
qed

lemma suffix_steps:
  "first_suffix known_extensions (t @ ''.gz'') = Some t" "first_suffix known_extensions (t @ ''.bz2'') = Some t"
  "first_suffix known_extensions (t @ ''.csv'') = Some t" "first_suffix known_extensions (t @ ''.parquet'') = Some t"
  by (simp_all add: known_extensions_def strip_suffix_def)

lemma strip_known_added: "strip_known_extensions (t @ (case f of Parquet \<Rightarrow> ''.parquet'' | Csv \<Rightarrow> import_extension c)) = strip_known_extensions t"
proof -
  have "strip_known_extensions (t @ ''.csv'' @ e) = strip_known_extensions t" if "e \<in> {[], ''.gz'', ''.bz2''}" for e
    using that suffix_steps(1,2) [of "t @ ''.csv''"] suffix_steps(3) [of t] by (auto dest!: strip_known_step)
  then show ?thesis
    using suffix_steps(4) [of t] by (cases f; cases c) (auto dest: strip_known_step)
qed

lemma file_name_for_eq:
  "file_name_for q n = strip_known_extensions n @ (case iq_format q of Parquet \<Rightarrow> ''.parquet'' | Csv \<Rightarrow> import_extension (iq_compression q))"
  by (simp add: file_name_for_def Let_def split: ImportFormat.split)

lemma file_name_idempotent: "file_name_for q (file_name_for q' n) = file_name_for q n"
  by (simp add: file_name_for_eq strip_known_added strip_known_done strip_known_fixed)

text \<open>A file name with an apostrophe ends its literal.\<close>

lemma file_name_breaks_out:
  assumes "CHR 0x27 \<notin> set a" "b \<noteq> []" "hd b \<noteq> CHR 0x27" "first_suffix known_extensions (a @ CHR 0x27 # b) = None"
  shows "events Outside (quoted (file_name_for q (a @ CHR 0x27 # b)) @ rest) = literal_events a @
    events Outside (b @ (case iq_format q of Parquet \<Rightarrow> ''.parquet'' | Csv \<Rightarrow> import_extension (iq_compression q)) @ CHR 0x27 # rest)"
proof -
  let ?e = "case iq_format q of Parquet \<Rightarrow> ''.parquet'' | Csv \<Rightarrow> import_extension (iq_compression q)"
  have "quoted (file_name_for q (a @ CHR 0x27 # b)) @ rest = quoted a @ b @ ?e @ CHR 0x27 # rest"
    by (simp add: file_name_for_eq strip_known_done [OF assms(4)] quoted_def)
  moreover have "reads_outside (quoted a) (literal_events a)"
    using reads_outside_literal [of a] assms(1) by (simp add: replace_char_absent)
  moreover have "hd (b @ ?e @ CHR 0x27 # rest) \<noteq> mark Single" using assms(2,3) by (cases b) auto
  ultimately show ?thesis by (simp add: reads_outside_def)
qed

definition import_head_pieces :: "ImportQuery \<Rightarrow> piece list" where
  "import_head_pieces q = [Fixed (line_break @ ''FROM '' @ (if is_parquet q then ''PARQUET'' else ''CSV'')), Fixed '' AT ''] @
    endpoint_pieces (case iq_address q of Some a \<Rightarrow> a | None \<Rightarrow> []) (import_suffix q) (iq_public_key q)"

definition import_file_extension :: "ImportQuery \<Rightarrow> string" where
  "import_file_extension q = (case iq_format q of Parquet \<Rightarrow> ''.parquet'' | Csv \<Rightarrow> import_extension (iq_compression q))"

lemma import_breaks_out:
  assumes "iq_file_entries q = None" "iq_file_name q = a @ CHR 0x27 # b" "reads_outside (target_clause q) v"
    and "CHR 0x27 \<notin> set a" "b \<noteq> []" "hd b \<noteq> CHR 0x27" "first_suffix known_extensions (a @ CHR 0x27 # b) = None"
  shows "events Outside (build_import q) = v @ pieces_events (import_head_pieces q) @ map Code (line_break @ ''FILE '') @
    literal_events a @ events Outside (b @ import_file_extension q @ CHR 0x27 # (if is_parquet q then [] else csv_option_clauses q))"
proof -
  let ?rest = "if is_parquet q then [] else csv_option_clauses q" and ?file = "quoted (file_name_for q (a @ CHR 0x27 # b))"
  have whole: "build_import q = target_clause q @ pieces_text (import_head_pieces q) @ (line_break @ ''FILE '') @ ?file @ ?rest"
    using assms(1,2) by (simp add: build_import_def import_source_clause_def import_head_pieces_def endpoint_of_def endpoint_text import_suffix_def)
  have s: "spaced (import_head_pieces q)" "hd (import_head_pieces q) = Fixed (line_break @ ''FROM '' @ (if is_parquet q then ''PARQUET'' else ''CSV''))"
    using spaced_endpoint by (simp_all add: import_head_pieces_def plain_char_def)
  have head: "reads_outside (target_clause q @ pieces_text (import_head_pieces q)) (v @ pieces_events (import_head_pieces q))"
    by (rule reads_outside_append [OF assms(3) spaced_reads [OF s(1)]]) (simp add: import_head_pieces_def)
  have plain: "list_all plain_char (line_break @ ''FILE '')" by (simp add: plain_char_def)
  have "events Outside (build_import q) = (v @ pieces_events (import_head_pieces q)) @ events Outside ((line_break @ ''FILE '') @ ?file @ ?rest)"
    using head unfolding whole reads_outside_def by simp
  also have "events Outside ((line_break @ ''FILE '') @ ?file @ ?rest) = map Code (line_break @ ''FILE '') @ events Outside (?file @ ?rest)"
    by (rule events_plain_chars [OF plain])
  also have "events Outside (?file @ ?rest) = literal_events a @ events Outside (b @ import_file_extension q @ CHR 0x27 # ?rest)"
    using file_name_breaks_out [OF assms(4-7)] by (simp add: import_file_extension_def)
  finally show ?thesis by simp
qed

end
