(* ===== verification/Schema_Inference.thy ===== *)
theory Schema_Inference
  imports Metadata_Laws Type_Mapping
begin

text \<open>
  Schema inference for imported files: the Exasol type of an Arrow type and the mode of column
  names (\<open>src/types/mapping.rs\<close>), inferred schemas, their DDL and the widening of types
  (\<open>src/types/infer.rs\<close>), and the inference from CSV and Parquet files (\<open>src/types/csv_infer.rs\<close>,
  \<open>src/types/parquet_infer.rs\<close>), with the errors of \<open>src/import/mod.rs\<close>. Opening a file, the
  schema readers of the \<open>arrow\<close> and \<open>parquet\<close> crates and the text of an Arrow type are parameters.
\<close>

subsection \<open>Arrow types\<close>

text \<open>\<open>DataType\<close> of the \<open>arrow\<close> crate: the variants that the mapping names, and the others by name.\<close>

datatype IntervalUnit = YearMonth | DayTime | MonthDayNano

datatype SourceType =
    SBoolean | SUtf8 | SLargeUtf8 | SUtf8View | SBinary | SLargeBinary | SBinaryView | SFixedSizeBinary int
  | SDictionary SourceType SourceType
  | SInt8 | SInt16 | SInt32 | SInt64 | SUInt8 | SUInt16 | SUInt32 | SUInt64 | SFloat32 | SFloat64
  | SDecimal128 nat int | SDecimal256 nat int | SDate32 | SDate64
  | STimestamp TimeUnit "string option" | SInterval IntervalUnit | SOther string

record SourceField =
  sf_name :: string
  sf_type :: SourceType
  sf_nullable :: bool

record ArrowCsvFormat =
  fmt_header :: bool
  fmt_delimiter :: byte
  fmt_quote :: "byte option"
  fmt_escape :: "byte option"

record infer_env =
  ie_show_type :: "SourceType \<Rightarrow> string"
  ie_is_key_type :: "SourceType \<Rightarrow> bool"
  ie_open :: "string \<Rightarrow> string + byte list"
  ie_csv_schema :: "ArrowCsvFormat \<Rightarrow> byte list \<Rightarrow> nat option \<Rightarrow> string + SourceField list \<times> nat"
  ie_parquet_schema :: "byte list \<Rightarrow> string + SourceField list"

definition MAX_DECIMAL_PRECISION :: nat where
  "MAX_DECIMAL_PRECISION = 36"

abbreviation longest_varchar :: ExasolType where
  "longest_varchar \<equiv> EVarchar 2000000"

definition decimal_to_exasol :: "infer_env \<Rightarrow> SourceType \<Rightarrow> nat \<Rightarrow> int \<Rightarrow> (ConversionError, ExasolType) result" where
  "decimal_to_exasol E arrow_type precision scale =
    (if 1 \<le> precision \<and> precision \<le> MAX_DECIMAL_PRECISION \<and> 0 \<le> scale \<and> scale \<le> int precision
     then Inr (EDecimal precision scale)
     else fail (UnsupportedType (''Arrow type '' @ ie_show_type E arrow_type @
       '', because Exasol DECIMAL takes a precision from 1 to '' @ show_nat MAX_DECIMAL_PRECISION @
       '' and a scale from 0 to the precision'')))"

definition arrow_to_exasol :: "infer_env \<Rightarrow> SourceType \<Rightarrow> (ConversionError, ExasolType) result" where
  "arrow_to_exasol E arrow_type =
    (if arrow_type = SBoolean then Inr EBoolean
     else case arrow_type of
       SUtf8 \<Rightarrow> Inr longest_varchar | SLargeUtf8 \<Rightarrow> Inr longest_varchar | SUtf8View \<Rightarrow> Inr longest_varchar
     | SBinary \<Rightarrow> Inr longest_varchar | SLargeBinary \<Rightarrow> Inr longest_varchar | SBinaryView \<Rightarrow> Inr longest_varchar
     | SFixedSizeBinary _ \<Rightarrow> Inr longest_varchar
     | SDictionary key_type value_type \<Rightarrow>
         if ie_is_key_type E key_type \<and> (value_type = SUtf8 \<or> value_type = SLargeUtf8) then Inr longest_varchar
         else fail (UnsupportedType (''Arrow type '' @ ie_show_type E arrow_type))
     | SInt8 \<Rightarrow> Inr (EDecimal 18 0) | SInt16 \<Rightarrow> Inr (EDecimal 18 0) | SInt32 \<Rightarrow> Inr (EDecimal 18 0)
     | SInt64 \<Rightarrow> Inr (EDecimal 36 0)
     | SUInt8 \<Rightarrow> Inr (EDecimal 18 0) | SUInt16 \<Rightarrow> Inr (EDecimal 18 0) | SUInt32 \<Rightarrow> Inr (EDecimal 18 0)
     | SUInt64 \<Rightarrow> Inr (EDecimal 36 0)
     | SFloat32 \<Rightarrow> Inr EDouble | SFloat64 \<Rightarrow> Inr EDouble
     | SDecimal128 precision scale \<Rightarrow> decimal_to_exasol E arrow_type precision scale
     | SDecimal256 precision scale \<Rightarrow> decimal_to_exasol E arrow_type precision scale
     | SDate32 \<Rightarrow> Inr EDate | SDate64 \<Rightarrow> Inr EDate
     | STimestamp _ tz \<Rightarrow> Inr (ETimestamp (tz \<noteq> None))
     | SInterval YearMonth \<Rightarrow> Inr EIntervalYearToMonth
     | SInterval DayTime \<Rightarrow> Inr (EIntervalDayToSecond 3)
     | SInterval MonthDayNano \<Rightarrow> Inr (EIntervalDayToSecond 3)
     | _ \<Rightarrow> fail (UnsupportedType (''Arrow type '' @ ie_show_type E arrow_type)))"

subsection \<open>Column names\<close>

datatype ColumnNameMode = QuotedNames | Sanitize

definition is_ascii_alphanumeric :: "char \<Rightarrow> bool" where
  "is_ascii_alphanumeric c \<longleftrightarrow> is_ascii_digit c \<or> (65 \<le> (of_char c :: nat) \<and> (of_char c :: nat) \<le> 90)
    \<or> (97 \<le> (of_char c :: nat) \<and> (of_char c :: nat) \<le> 122)"

definition sanitize_char :: "string \<Rightarrow> char" where
  "sanitize_char u = (case u of
      [c] \<Rightarrow> if is_ascii_alphanumeric c \<or> c = CHR ''_'' then to_ascii_uppercase c else CHR ''_''
    | _ \<Rightarrow> CHR ''_'')"

definition sanitize_column_name :: "string \<Rightarrow> string" where
  "sanitize_column_name name =
    (let result = map sanitize_char (text_chars name);
         result = (case result of [] \<Rightarrow> result | c # _ \<Rightarrow> if is_ascii_digit c then CHR ''_'' # result else result) in
     if result = [] then ''_'' else result)"

definition quote_column_name :: "string \<Rightarrow> string" where
  "quote_column_name name = CHR 0x22 # replace_char (CHR 0x22) [CHR 0x22, CHR 0x22] name @ [CHR 0x22]"

definition quote_identifier :: "string \<Rightarrow> string" where
  "quote_identifier name = quote_column_name name"

definition format_column_name :: "string \<Rightarrow> ColumnNameMode \<Rightarrow> string" where
  "format_column_name name mode = (case mode of
      QuotedNames \<Rightarrow> quote_column_name name | Sanitize \<Rightarrow> sanitize_column_name name)"

subsection \<open>Inferred schemas\<close>

record InferredColumn =
  ic_original_name :: string
  ic_ddl_name :: string
  ic_exasol_type :: ExasolType
  ic_nullable :: bool

record InferredTableSchema =
  is_columns :: "InferredColumn list"
  is_source_files :: "string list"

definition to_ddl :: "InferredTableSchema \<Rightarrow> string \<Rightarrow> string option \<Rightarrow> string" where
  "to_ddl sch table_name schema_name =
    (let table_ref = (case schema_name of Some s \<Rightarrow> s @ ''.'' @ table_name | None \<Rightarrow> table_name);
         column_defs = map (\<lambda>col. ''    '' @ ic_ddl_name col @ '' '' @ to_ddl_type (ic_exasol_type col)) (is_columns sch) in
     ''CREATE TABLE '' @ table_ref @ '' ('' @ [newline] @ join ('','' @ [newline]) column_defs @ [newline] @ '');'')"

definition widen_type :: "ExasolType \<Rightarrow> ExasolType \<Rightarrow> ExasolType" where
  "widen_type a b =
    (if a = b then a
     else case (a, b) of
       (EDecimal p1 s1, EDecimal p2 s2) \<Rightarrow> EDecimal (min (max p1 p2) 36) (max s1 s2)
     | (EVarchar s1, EVarchar s2) \<Rightarrow> EVarchar (min (max s1 s2) 2000000)
     | (EChar s1, EChar s2) \<Rightarrow> EChar (min (max s1 s2) 2000)
     | (EChar s1, EVarchar s2) \<Rightarrow> EVarchar (min (max s1 s2) 2000000)
     | (EVarchar s2, EChar s1) \<Rightarrow> EVarchar (min (max s1 s2) 2000000)
     | (EDecimal _ _, EDouble) \<Rightarrow> EDouble
     | (EDouble, EDecimal _ _) \<Rightarrow> EDouble
     | (ETimestamp tz1, ETimestamp tz2) \<Rightarrow> ETimestamp (tz1 \<or> tz2)
     | (EIntervalDayToSecond p1, EIntervalDayToSecond p2) \<Rightarrow> EIntervalDayToSecond (max p1 p2)
     | _ \<Rightarrow> longest_varchar)"

subsection \<open>Errors\<close>

datatype ImportError =
    ImportIoError string
  | ImportParquetError string
  | ImportArrowError string
  | ImportTransportError TransportError
  | ImportQueryError string
  | ImportConversionError string
  | ImportInvalidConfig string
  | ImportCsvWriteError string
  | ImportArrowIpcError string
  | ImportSqlError string
  | ImportHttpTransportError string
  | ImportStreamError string
  | ImportCompressionError string
  | ImportInvalidSessionState string
  | ImportChannelError string
  | ParallelImportError string
  | SchemaInferenceError string
  | SchemaMismatchError string

definition columns_mismatch :: "string \<Rightarrow> nat \<Rightarrow> string \<Rightarrow> nat \<Rightarrow> ImportError" where
  "columns_mismatch first_path n path m = SchemaMismatchError (''Schema mismatch: '' @ quoted first_path @ '' has '' @ show_nat n @
    '' columns, but '' @ quoted path @ '' has '' @ show_nat m @ '' columns'')"

text \<open>An opened file, or the error with the given prefix.\<close>

definition open_file :: "infer_env \<Rightarrow> string \<Rightarrow> (ImportError, byte list) result" where
  "open_file E path = (case ie_open E path of
      Inl e \<Rightarrow> fail (SchemaInferenceError (''Failed to open file '' @ quoted path @ '': '' @ e))
    | Inr content \<Rightarrow> Inr content)"

subsection \<open>CSV files\<close>

record CsvInferenceOptions =
  io_delimiter :: byte
  io_has_header :: bool
  io_quote :: "byte option"
  io_escape :: "byte option"
  io_null_regex :: "string option"
  io_max_sample_records :: "nat option"
  io_column_name_mode :: ColumnNameMode

definition CsvInferenceOptions_default :: CsvInferenceOptions where
  "CsvInferenceOptions_default = \<lparr>io_delimiter = 0x2C, io_has_header = True, io_quote = Some 0x22, io_escape = None,
    io_null_regex = Some ''^$'', io_max_sample_records = None, io_column_name_mode = QuotedNames\<rparr>"

definition with_delimiter :: "byte \<Rightarrow> CsvInferenceOptions \<Rightarrow> CsvInferenceOptions" where
  "with_delimiter v opts = opts\<lparr>io_delimiter := v\<rparr>"

definition with_has_header :: "bool \<Rightarrow> CsvInferenceOptions \<Rightarrow> CsvInferenceOptions" where
  "with_has_header v opts = opts\<lparr>io_has_header := v\<rparr>"

definition with_quote :: "byte option \<Rightarrow> CsvInferenceOptions \<Rightarrow> CsvInferenceOptions" where
  "with_quote v opts = opts\<lparr>io_quote := v\<rparr>"

definition with_escape :: "byte option \<Rightarrow> CsvInferenceOptions \<Rightarrow> CsvInferenceOptions" where
  "with_escape v opts = opts\<lparr>io_escape := v\<rparr>"

definition with_null_regex :: "string option \<Rightarrow> CsvInferenceOptions \<Rightarrow> CsvInferenceOptions" where
  "with_null_regex v opts = opts\<lparr>io_null_regex := v\<rparr>"

definition with_max_sample_records :: "nat option \<Rightarrow> CsvInferenceOptions \<Rightarrow> CsvInferenceOptions" where
  "with_max_sample_records v opts = opts\<lparr>io_max_sample_records := v\<rparr>"

definition with_column_name_mode :: "ColumnNameMode \<Rightarrow> CsvInferenceOptions \<Rightarrow> CsvInferenceOptions" where
  "with_column_name_mode v opts = opts\<lparr>io_column_name_mode := v\<rparr>"

text \<open>\<open>Format::default()\<close> has no quote and no escape character set.\<close>

definition build_csv_format :: "CsvInferenceOptions \<Rightarrow> ArrowCsvFormat" where
  "build_csv_format opts = \<lparr>fmt_header = io_has_header opts, fmt_delimiter = io_delimiter opts,
    fmt_quote = io_quote opts, fmt_escape = io_escape opts\<rparr>"

definition csv_column :: "infer_env \<Rightarrow> CsvInferenceOptions \<Rightarrow> nat \<Rightarrow> SourceField \<Rightarrow> InferredColumn" where
  "csv_column E opts i field =
    (let original_name = (if io_has_header opts then sf_name field else ''col_'' @ show_nat (i + 1));
         exasol_type = (case arrow_to_exasol E (sf_type field) of Inr t \<Rightarrow> t | Inl _ \<Rightarrow> longest_varchar) in
     \<lparr>ic_original_name = original_name, ic_ddl_name = format_column_name original_name (io_column_name_mode opts),
      ic_exasol_type = exasol_type, ic_nullable = sf_nullable field\<rparr>)"

definition csv_schema_to_columns :: "infer_env \<Rightarrow> SourceField list \<Rightarrow> CsvInferenceOptions \<Rightarrow> InferredColumn list" where
  "csv_schema_to_columns E flds opts = map (\<lambda>(i, field). csv_column E opts i field) (enumerate 0 flds)"

text \<open>The columns of one file, the same steps in both functions below.\<close>

definition csv_file_columns :: "infer_env \<Rightarrow> CsvInferenceOptions \<Rightarrow> string \<Rightarrow> (ImportError, InferredColumn list) result" where
  "csv_file_columns E opts path =
    rbind (open_file E path) (\<lambda>content.
    case ie_csv_schema E (build_csv_format opts) content (io_max_sample_records opts) of
      Inl e \<Rightarrow> fail (SchemaInferenceError (''Failed to infer CSV schema from '' @ quoted path @ '': '' @ e))
    | Inr (flds, records_read) \<Rightarrow>
        if records_read = 0 then fail (SchemaInferenceError (''CSV file '' @ quoted path @ '' contains no data rows''))
        else Inr (csv_schema_to_columns E flds opts))"

definition infer_schema_from_csv :: "infer_env \<Rightarrow> string \<Rightarrow> CsvInferenceOptions \<Rightarrow> (ImportError, InferredTableSchema) result" where
  "infer_schema_from_csv E path opts =
    rbind (csv_file_columns E opts path) (\<lambda>columns. Inr \<lparr>is_columns = columns, is_source_files = [path]\<rparr>)"

definition widen_column :: "InferredColumn \<Rightarrow> ExasolType \<Rightarrow> bool \<Rightarrow> InferredColumn" where
  "widen_column col other_type other_nullable =
    col\<lparr>ic_exasol_type := widen_type (ic_exasol_type col) other_type, ic_nullable := ic_nullable col \<or> other_nullable\<rparr>"

fun merge_csv_files ::
  "infer_env \<Rightarrow> CsvInferenceOptions \<Rightarrow> string \<Rightarrow> string list \<Rightarrow> InferredColumn list option \<Rightarrow>
    (ImportError, InferredColumn list option) result" where
  "merge_csv_files E opts first_path [] merged = Inr merged"
| "merge_csv_files E opts first_path (path # paths) merged =
    rbind (csv_file_columns E opts path) (\<lambda>file_columns.
    case merged of
      None \<Rightarrow> merge_csv_files E opts first_path paths (Some file_columns)
    | Some columns \<Rightarrow>
        if length file_columns \<noteq> length columns
        then fail (columns_mismatch first_path (length columns) path (length file_columns))
        else merge_csv_files E opts first_path paths
          (Some (map2 (\<lambda>col other. widen_column col (ic_exasol_type other) (ic_nullable other)) columns file_columns)))"

definition infer_schema_from_csv_files ::
  "infer_env \<Rightarrow> string list \<Rightarrow> CsvInferenceOptions \<Rightarrow> (ImportError, InferredTableSchema) result" where
  "infer_schema_from_csv_files E file_paths opts = (case file_paths of
      [] \<Rightarrow> fail (SchemaInferenceError ''No files provided for schema inference'')
    | [path] \<Rightarrow> infer_schema_from_csv E path opts
    | first_path # _ \<Rightarrow>
        rbind (merge_csv_files E opts first_path file_paths None) (\<lambda>merged. case merged of
            None \<Rightarrow> Inl Panic
          | Some columns \<Rightarrow> Inr \<lparr>is_columns = columns, is_source_files = file_paths\<rparr>))"

subsection \<open>Parquet files\<close>

fun arrow_schema_to_columns :: "infer_env \<Rightarrow> ColumnNameMode \<Rightarrow> SourceField list \<Rightarrow> (ImportError, InferredColumn list) result" where
  "arrow_schema_to_columns E mode [] = Inr []"
| "arrow_schema_to_columns E mode (field # flds) = (case arrow_to_exasol E (sf_type field) of
      Inl (Failure e) \<Rightarrow> fail (SchemaInferenceError (''Failed to map type for column '' @ quoted (sf_name field) @ '': '' @ show_conversion_error e))
    | Inl Panic \<Rightarrow> Inl Panic
    | Inl Diverged \<Rightarrow> Inl Diverged
    | Inr exasol_type \<Rightarrow> rbind (arrow_schema_to_columns E mode flds) (\<lambda>columns.
        Inr (\<lparr>ic_original_name = sf_name field, ic_ddl_name = format_column_name (sf_name field) mode,
          ic_exasol_type = exasol_type, ic_nullable = sf_nullable field\<rparr> # columns)))"

definition parquet_file_schema :: "infer_env \<Rightarrow> string \<Rightarrow> (ImportError, SourceField list) result" where
  "parquet_file_schema E path =
    rbind (open_file E path) (\<lambda>content. case ie_parquet_schema E content of
      Inl e \<Rightarrow> fail (SchemaInferenceError (''Failed to read Parquet metadata from '' @ quoted path @ '': '' @ e))
    | Inr flds \<Rightarrow> Inr flds)"

definition infer_schema_from_parquet :: "infer_env \<Rightarrow> string \<Rightarrow> ColumnNameMode \<Rightarrow> (ImportError, InferredTableSchema) result" where
  "infer_schema_from_parquet E path mode =
    rbind (parquet_file_schema E path) (\<lambda>flds.
    rbind (arrow_schema_to_columns E mode flds) (\<lambda>columns.
    Inr \<lparr>is_columns = columns, is_source_files = [path]\<rparr>))"

fun read_parquet_schemas :: "infer_env \<Rightarrow> string list \<Rightarrow> (ImportError, (string \<times> SourceField list) list) result" where
  "read_parquet_schemas E [] = Inr []"
| "read_parquet_schemas E (path # paths) =
    rbind (parquet_file_schema E path) (\<lambda>flds.
    rbind (read_parquet_schemas E paths) (\<lambda>schemas. Inr ((path, flds) # schemas)))"

text \<open>The loop over the fields of one more file, and the loop over the files.\<close>

fun merge_parquet_fields :: "infer_env \<Rightarrow> string \<Rightarrow> InferredColumn list \<Rightarrow> SourceField list \<Rightarrow> (ImportError, InferredColumn list) result" where
  "merge_parquet_fields E path (col # columns) (field # flds) = (case arrow_to_exasol E (sf_type field) of
      Inl (Failure e) \<Rightarrow> fail (SchemaInferenceError (''Failed to map type for column '' @ quoted (sf_name field) @ '' in '' @ quoted path @
        '': '' @ show_conversion_error e))
    | Inl Panic \<Rightarrow> Inl Panic
    | Inl Diverged \<Rightarrow> Inl Diverged
    | Inr other_type \<Rightarrow> rbind (merge_parquet_fields E path columns flds) (\<lambda>columns.
        Inr (widen_column col other_type (sf_nullable field) # columns)))"
| "merge_parquet_fields E path columns [] = Inr columns"
| "merge_parquet_fields E path [] (field # flds) = Inl Panic"

fun merge_parquet_files ::
  "infer_env \<Rightarrow> string \<Rightarrow> InferredColumn list \<Rightarrow> (string \<times> SourceField list) list \<Rightarrow> (ImportError, InferredColumn list) result" where
  "merge_parquet_files E first_path columns [] = Inr columns"
| "merge_parquet_files E first_path columns ((path, flds) # schemas) =
    (if length flds \<noteq> length columns
     then fail (columns_mismatch first_path (length columns) path (length flds))
     else rbind (merge_parquet_fields E path columns flds) (\<lambda>columns. merge_parquet_files E first_path columns schemas))"

definition infer_schema_from_parquet_files ::
  "infer_env \<Rightarrow> string list \<Rightarrow> ColumnNameMode \<Rightarrow> (ImportError, InferredTableSchema) result" where
  "infer_schema_from_parquet_files E file_paths mode = (case file_paths of
      [] \<Rightarrow> fail (SchemaInferenceError ''No files provided for schema inference'')
    | [path] \<Rightarrow> infer_schema_from_parquet E path mode
    | _ \<Rightarrow> rbind (read_parquet_schemas E file_paths) (\<lambda>schemas. case schemas of
          [] \<Rightarrow> Inl Panic
        | (first_path, first_schema) # others \<Rightarrow>
            rbind (arrow_schema_to_columns E mode first_schema) (\<lambda>columns.
            rbind (merge_parquet_files E first_path columns others) (\<lambda>columns.
            Inr \<lparr>is_columns = columns, is_source_files = file_paths\<rparr>))))"

end
