(* ===== verification/Schema_Inference_Laws.thy ===== *)
theory Schema_Inference_Laws
  imports Schema_Inference
begin

text \<open>
  What schema inference gives: widening is the least upper bound of the types that inference
  produces, so the schema of several files does not depend on their order; when widened
  decimals hold all values of both; and the DDL text read as SQL.
\<close>

subsection \<open>Joins\<close>

text \<open>Least upper bounds on a part of a type, and folds of them.\<close>

locale joins =
  fixes jn :: "'a \<Rightarrow> 'a \<Rightarrow> 'a" and ok :: "'a \<Rightarrow> bool"
  assumes jn_ok: "ok a \<Longrightarrow> ok b \<Longrightarrow> ok (jn a b)"
    and jn_idem: "jn a a = a"
    and jn_comm: "jn a b = jn b a"
    and jn_assoc: "ok a \<Longrightarrow> ok b \<Longrightarrow> ok c \<Longrightarrow> jn (jn a b) c = jn a (jn b c)"
begin

lemma fold_ok: "ok a \<Longrightarrow> list_all ok xs \<Longrightarrow> ok (foldl jn a xs)"
  by (induction xs arbitrary: a) (simp_all add: jn_ok)

lemma fold_above_start: "ok a \<Longrightarrow> list_all ok xs \<Longrightarrow> jn a (foldl jn a xs) = foldl jn a xs"
proof (induction xs arbitrary: a)
  case (Cons x xs)
  then have "jn (jn a x) (foldl jn (jn a x) xs) = foldl jn (jn a x) xs" by (simp add: jn_ok)
  moreover have "ok (foldl jn (jn a x) xs)" using Cons.prems by (simp add: fold_ok jn_ok)
  ultimately show ?case using Cons.prems
    by simp (metis jn_assoc jn_idem jn_ok)
qed (simp add: jn_idem)

lemma fold_above: "ok a \<Longrightarrow> list_all ok xs \<Longrightarrow> x \<in> set (a # xs) \<Longrightarrow> jn x (foldl jn a xs) = foldl jn a xs"
proof (induction xs arbitrary: a)
  case (Cons y ys)
  show ?case
  proof (cases "x \<in> set ys")
    case True
    then show ?thesis using Cons by (simp add: jn_ok)
  next
    case False
    let ?r = "foldl jn (jn a y) ys"
    have ok: "ok a" "ok y" "ok ?r" using Cons.prems by (simp_all add: fold_ok jn_ok)
    have above: "jn (jn a y) ?r = ?r" using fold_above_start [of "jn a y" ys] Cons.prems by (simp add: jn_ok)
    have "jn a ?r = ?r" using above ok by (metis jn_assoc jn_idem jn_ok)
    moreover have "jn y ?r = ?r" using above ok by (metis jn_assoc jn_comm jn_idem jn_ok)
    ultimately show ?thesis using False Cons.prems by auto
  qed
qed (simp add: jn_idem)

lemma fold_least:
  "ok a \<Longrightarrow> list_all ok xs \<Longrightarrow> ok u \<Longrightarrow> (\<And>x. x \<in> set (a # xs) \<Longrightarrow> jn x u = u) \<Longrightarrow> jn (foldl jn a xs) u = u"
proof (induction xs arbitrary: a)
  case (Cons y ys)
  have "jn (jn a y) u = u" using Cons.prems by (simp add: jn_assoc)
  then have "jn x u = u" if "x \<in> set (jn a y # ys)" for x using that Cons.prems(4) by auto
  then show ?case using Cons.IH [of "jn a y"] Cons.prems by (simp add: jn_ok)
qed simp

lemma fold_set:
  assumes "ok a" "list_all ok xs" "set (b # ys) = set (a # xs)"
  shows "foldl jn b ys = foldl jn a xs"
proof -
  have ok: "ok b" "list_all ok ys" using assms by (auto simp: list_all_iff)
  have "jn (foldl jn b ys) (foldl jn a xs) = foldl jn a xs"
    by (rule fold_least [OF ok fold_ok [OF assms(1,2)]]) (metis fold_above assms)
  moreover have "jn (foldl jn a xs) (foldl jn b ys) = foldl jn b ys"
    by (rule fold_least [OF assms(1,2) fold_ok [OF ok]]) (metis fold_above ok assms(3))
  ultimately show ?thesis by (metis jn_comm)
qed

end

subsection \<open>Widening\<close>

text \<open>The types that inference produces.\<close>

fun inferable :: "ExasolType \<Rightarrow> bool" where
  "inferable (EDecimal p s) \<longleftrightarrow> 1 \<le> p \<and> p \<le> 36 \<and> 0 \<le> s \<and> s \<le> int p"
| "inferable (EVarchar n) \<longleftrightarrow> n \<le> 2000000"
| "inferable (EChar n) \<longleftrightarrow> n \<le> 2000"
| "inferable (EGeometry _) \<longleftrightarrow> False"
| "inferable (EHashtype _) \<longleftrightarrow> False"
| "inferable _ \<longleftrightarrow> True"

lemma arrow_to_exasol_inferable: "arrow_to_exasol E t = Inr x \<Longrightarrow> inferable x"
  by (auto simp: arrow_to_exasol_def decimal_to_exasol_def MAX_DECIMAL_PRECISION_def
      split: SourceType.splits IntervalUnit.splits if_splits)

lemma widen_comm: "widen_type a b = widen_type b a"
  by (cases a; cases b) (auto simp: widen_type_def max.commute)

lemma widen_inferable: "inferable a \<Longrightarrow> inferable b \<Longrightarrow> inferable (widen_type a b)"
  by (cases a; cases b) (auto simp: widen_type_def)

text \<open>Types widen within their family, and to the longest text across families.\<close>

fun family :: "ExasolType \<Rightarrow> nat" where
  "family EBoolean = 0"
| "family (EChar _) = 1"
| "family (EVarchar _) = 1"
| "family (EDecimal _ _) = 2"
| "family EDouble = 2"
| "family EDate = 3"
| "family (ETimestamp _) = 4"
| "family EIntervalYearToMonth = 5"
| "family (EIntervalDayToSecond _) = 6"
| "family (EGeometry _) = 7"
| "family (EHashtype _) = 8"

lemma widen_idem: "widen_type a a = a"
  by (simp add: widen_type_def)

lemma widen_across: "family a \<noteq> family b \<Longrightarrow> widen_type a b = longest_varchar"
  by (cases a; cases b) (simp_all add: widen_type_def)

lemma widen_family: "inferable a \<Longrightarrow> inferable b \<Longrightarrow> family a = family b \<Longrightarrow> family (widen_type a b) = family a"
  by (cases a; cases b) (simp_all add: widen_type_def)

lemma widen_longest: "inferable a \<Longrightarrow> widen_type a longest_varchar = longest_varchar"
  by (cases a) (simp_all add: widen_type_def)

lemma widen_within:
  "p \<le> 36 \<Longrightarrow> p' \<le> 36 \<Longrightarrow> widen_type (EDecimal p s) (EDecimal p' s') = EDecimal (max p p') (max s s')"
  "inferable (EVarchar n) \<Longrightarrow> inferable (EVarchar n') \<Longrightarrow> widen_type (EVarchar n) (EVarchar n') = EVarchar (max n n')"
  "inferable (EChar n) \<Longrightarrow> inferable (EChar n') \<Longrightarrow> widen_type (EChar n) (EChar n') = EChar (max n n')"
  "inferable (EChar n) \<Longrightarrow> inferable (EVarchar n') \<Longrightarrow> widen_type (EChar n) (EVarchar n') = EVarchar (max n n')"
  "inferable (EChar n) \<Longrightarrow> inferable (EVarchar n') \<Longrightarrow> widen_type (EVarchar n') (EChar n) = EVarchar (max n n')"
  "widen_type (EDecimal p s) EDouble = EDouble" "widen_type EDouble (EDecimal p s) = EDouble"
  "widen_type (ETimestamp b) (ETimestamp b') = ETimestamp (b \<or> b')"
  "widen_type (EIntervalDayToSecond k) (EIntervalDayToSecond k') = EIntervalDayToSecond (max k k')"
  by (auto simp: widen_type_def)

lemma widen_assoc_within:
  "inferable a \<Longrightarrow> inferable b \<Longrightarrow> inferable c \<Longrightarrow> family a = family b \<Longrightarrow> family b = family c \<Longrightarrow>
    widen_type (widen_type a b) c = widen_type a (widen_type b c)"
  by (cases a; cases b; simp; cases c; simp add: widen_within widen_idem max.assoc)

lemma widen_assoc:
  assumes "inferable a" "inferable b" "inferable c"
  shows "widen_type (widen_type a b) c = widen_type a (widen_type b c)"
proof -
  have ab: "inferable (widen_type a b)" and bc: "inferable (widen_type b c)"
    using assms by (simp_all add: widen_inferable)
  consider (within) "family a = family b" "family b = family c" | (left) "family a \<noteq> family b" "family b = family c"
    | (right) "family a = family b" "family b \<noteq> family c" | (apart) "family a \<noteq> family b" "family b \<noteq> family c" by blast
  then show ?thesis
  proof cases
    case within
    then show ?thesis using assms by (rule_tac widen_assoc_within)
  next
    case left
    then have "family a \<noteq> family (widen_type b c)" using assms widen_family by metis
    then show ?thesis using left assms widen_longest widen_across widen_comm by metis
  next
    case right
    then have "family (widen_type a b) \<noteq> family c" using assms widen_family by metis
    then show ?thesis using right assms widen_longest widen_across widen_comm by metis
  next
    case apart
    then show ?thesis using assms widen_longest widen_across widen_comm by metis
  qed
qed

interpretation widening: joins widen_type inferable
proof
  show "widen_type a b = widen_type b a" for a b by (rule widen_comm)
qed (simp_all add: widen_inferable widen_assoc widen_idem)

subsection \<open>Merging files\<close>

definition merge_columns :: "InferredColumn list \<Rightarrow> InferredColumn list \<Rightarrow> InferredColumn list" where
  "merge_columns columns others = map2 (\<lambda>col other. widen_column col (ic_exasol_type other) (ic_nullable other)) columns others"

text \<open>The columns of the files, all of them read and of one length, merged in their order.\<close>

definition columns_in :: "('p \<Rightarrow> (ImportError, InferredColumn list) result) \<Rightarrow> 'p \<Rightarrow> InferredColumn list" where
  "columns_in file p = (case file p of Inr x \<Rightarrow> x | Inl _ \<Rightarrow> [])"

definition has_columns :: "('p \<Rightarrow> (ImportError, InferredColumn list) result) \<Rightarrow> nat \<Rightarrow> 'p \<Rightarrow> bool" where
  "has_columns file n p \<longleftrightarrow> file p = Inr (columns_in file p) \<and> length (columns_in file p) = n"

definition merged_from :: "('p \<Rightarrow> (ImportError, InferredColumn list) result) \<Rightarrow> 'p list \<Rightarrow> InferredColumn list \<Rightarrow> bool" where
  "merged_from file paths columns \<longleftrightarrow> (case paths of
      [] \<Rightarrow> False
    | p # ps \<Rightarrow> list_all (has_columns file (length columns)) paths
        \<and> columns = foldl merge_columns (columns_in file p) (map (columns_in file) ps))"

lemma merge_columns_length: "length others = length columns \<Longrightarrow> length (merge_columns columns others) = length columns"
  by (simp add: merge_columns_def)

lemma merge_columns_lengths:
  "list_all (has_columns file (length c)) ps \<Longrightarrow> length (foldl merge_columns c (map (columns_in file) ps)) = length c"
  by (induction ps arbitrary: c) (simp_all add: merge_columns_length has_columns_def)

lemma merge_csv_files_iff:
  "merge_csv_files E opts first_path paths (Some columns) = Inr r \<longleftrightarrow>
    list_all (has_columns (csv_file_columns E opts) (length columns)) paths
      \<and> r = Some (foldl merge_columns columns (map (columns_in (csv_file_columns E opts)) paths))"
proof (induction paths arbitrary: columns)
  case (Cons p paths)
  show ?case
  proof (cases "csv_file_columns E opts p")
    case (Inr x)
    then have x: "columns_in (csv_file_columns E opts) p = x" by (simp add: columns_in_def)
    show ?thesis
      using Inr x Cons.IH [of "merge_columns columns x"]
      by (auto simp: has_columns_def merge_columns_length simp flip: merge_columns_def)
  qed (simp add: has_columns_def)
qed auto

lemma merged_from_Cons:
  "merged_from file (p # ps) columns \<longleftrightarrow> file p = Inr (columns_in file p)
    \<and> list_all (has_columns file (length (columns_in file p))) ps
    \<and> columns = foldl merge_columns (columns_in file p) (map (columns_in file) ps)"
proof -
  have "length columns = length (columns_in file p)"
    if "list_all (has_columns file (length (columns_in file p))) ps"
      "columns = foldl merge_columns (columns_in file p) (map (columns_in file) ps)"
    using merge_columns_lengths [OF that(1)] that(2) by simp
  then show ?thesis by (auto simp: merged_from_def has_columns_def)
qed

lemma inferred_eq: "sch = \<lparr>is_columns = c, is_source_files = f\<rparr> \<longleftrightarrow> is_columns sch = c \<and> is_source_files sch = f"
  by (cases sch) auto

lemma infer_csv_files_iff:
  "infer_schema_from_csv_files E paths opts = Inr sch \<longleftrightarrow>
    merged_from (csv_file_columns E opts) paths (is_columns sch) \<and> is_source_files sch = paths"
proof (cases paths)
  case (Cons p ps)
  show ?thesis
  proof (cases "csv_file_columns E opts p")
    case (Inl e)
    then show ?thesis using Cons
      by (cases ps) (simp_all add: infer_schema_from_csv_files_def infer_schema_from_csv_def merged_from_Cons)
  next
    case (Inr x)
    then have x: "columns_in (csv_file_columns E opts) p = x" by (simp add: columns_in_def)
    show ?thesis
    proof (cases ps)
      case Nil
      then show ?thesis using Cons Inr x
        by (auto simp: infer_schema_from_csv_files_def infer_schema_from_csv_def merged_from_Cons inferred_eq)
    next
      case (Cons q qs)
      have "infer_schema_from_csv_files E paths opts =
          rbind (merge_csv_files E opts p (q # qs) (Some x)) (\<lambda>merged. case merged of
            None \<Rightarrow> Inl Panic
          | Some columns \<Rightarrow> Inr \<lparr>is_columns = columns, is_source_files = p # q # qs\<rparr>)"
        using Cons Inr \<open>paths = p # ps\<close> by (simp add: infer_schema_from_csv_files_def)
      then show ?thesis using Cons Inr x \<open>paths = p # ps\<close>
        by (auto simp: merged_from_Cons rbind_Inr_iff merge_csv_files_iff inferred_eq simp del: merge_csv_files.simps)
    qed
  qed
qed (simp add: infer_schema_from_csv_files_def merged_from_def)

definition parquet_file_columns :: "infer_env \<Rightarrow> ColumnNameMode \<Rightarrow> string \<Rightarrow> (ImportError, InferredColumn list) result" where
  "parquet_file_columns E mode path = rbind (parquet_file_schema E path) (arrow_schema_to_columns E mode)"

lemma arrow_schema_length: "arrow_schema_to_columns E mode flds = Inr cs \<Longrightarrow> length cs = length flds"
  by (induction flds arbitrary: cs) (auto simp: rbind_Inr_iff split: sum.splits fault.splits)

lemma merge_parquet_fields_iff:
  "length flds = length columns \<Longrightarrow> merge_parquet_fields E path columns flds = Inr r \<longleftrightarrow>
    (\<exists>x. arrow_schema_to_columns E mode flds = Inr x \<and> r = merge_columns columns x)"
proof (induction columns flds arbitrary: r rule: list_induct2')
  case (4 c cs f fs)
  then show ?case by (auto simp: rbind_Inr_iff merge_columns_def split: sum.splits fault.splits)
qed (auto simp: merge_columns_def)

lemma merge_parquet_files_iff:
  "merge_parquet_files E first_path columns schemas = Inr r \<longleftrightarrow>
    list_all (has_columns (\<lambda>(_, flds). arrow_schema_to_columns E mode flds) (length columns)) schemas
      \<and> r = foldl merge_columns columns (map (columns_in (\<lambda>(_, flds). arrow_schema_to_columns E mode flds)) schemas)"
proof (induction schemas arbitrary: columns)
  case (Cons s schemas)
  obtain path flds where s: "s = (path, flds)" by (cases s)
  show ?case
  proof (cases "arrow_schema_to_columns E mode flds")
    case (Inl e)
    then have "merge_parquet_fields E path columns flds \<noteq> Inr x" if "length flds = length columns" for x
      using merge_parquet_fields_iff [OF that, of E path x mode] by simp
    then show ?thesis using Inl by (auto simp: s has_columns_def rbind_Inr_iff)
  next
    case (Inr x)
    then have x: "columns_in (\<lambda>(_, flds). arrow_schema_to_columns E mode flds) s = x" by (simp add: columns_in_def s)
    have "length x = length flds" by (rule arrow_schema_length [OF Inr])
    moreover have "merge_parquet_fields E path columns flds = Inr (merge_columns columns x)" if "length flds = length columns"
      using merge_parquet_fields_iff [OF that, of E path _ mode] Inr by simp
    ultimately show ?thesis using Inr x Cons.IH [of "merge_columns columns x"]
      by (auto simp: s has_columns_def merge_columns_length)
  qed
qed auto

lemma read_parquet_schemas_iff:
  "read_parquet_schemas E paths = Inr schemas \<longleftrightarrow> list_all2 (\<lambda>p s. fst s = p \<and> parquet_file_schema E p = Inr (snd s)) paths schemas"
  by (induction paths arbitrary: schemas) (auto simp: rbind_Inr_iff list_all2_Cons1)

lemma parquet_columns_list:
  assumes "list_all2 (\<lambda>p s. fst s = p \<and> parquet_file_schema E p = Inr (snd s)) paths schemas"
  shows "list_all (has_columns (\<lambda>(_, flds). arrow_schema_to_columns E mode flds) n) schemas =
      list_all (has_columns (parquet_file_columns E mode) n) paths"
    and "map (columns_in (\<lambda>(_, flds). arrow_schema_to_columns E mode flds)) schemas = map (columns_in (parquet_file_columns E mode)) paths"
  using assms by (induction rule: list_all2_induct) (auto simp: has_columns_def columns_in_def parquet_file_columns_def)

lemma read_schemas_total: "(\<And>p. p \<in> set paths \<Longrightarrow> \<exists>x. parquet_file_schema E p = Inr x) \<Longrightarrow> \<exists>schemas. read_parquet_schemas E paths = Inr schemas"
  by (induction paths) force+

lemma merged_parquet_read:
  assumes "merged_from (parquet_file_columns E mode) paths columns"
  shows "\<exists>schemas. read_parquet_schemas E paths = Inr schemas"
proof (rule read_schemas_total)
  fix p
  assume "p \<in> set paths"
  then have "has_columns (parquet_file_columns E mode) (length columns) p"
    using assms by (auto simp: merged_from_def list_all_iff split: list.splits)
  then show "\<exists>x. parquet_file_schema E p = Inr x"
    by (auto simp: has_columns_def parquet_file_columns_def rbind_Inr_iff)
qed

lemma infer_parquet_many:
  "infer_schema_from_parquet_files E (p # q # ps) mode = Inr sch \<longleftrightarrow>
    merged_from (parquet_file_columns E mode) (p # q # ps) (is_columns sch) \<and> is_source_files sch = p # q # ps"
proof (cases "read_parquet_schemas E (p # q # ps)")
  case (Inl e)
  then have "\<not> merged_from (parquet_file_columns E mode) (p # q # ps) (is_columns sch)"
    using merged_parquet_read [of E mode "p # q # ps"] by force
  then show ?thesis using Inl by (simp add: infer_schema_from_parquet_files_def del: read_parquet_schemas.simps)
next
  case (Inr schemas)
  then have read: "list_all2 (\<lambda>p s. fst s = p \<and> parquet_file_schema E p = Inr (snd s)) (p # q # ps) schemas"
    by (simp only: read_parquet_schemas_iff)
  then obtain flds others where schemas: "schemas = (p, flds) # others" and first: "parquet_file_schema E p = Inr flds"
    and rest: "list_all2 (\<lambda>p s. fst s = p \<and> parquet_file_schema E p = Inr (snd s)) (q # ps) others"
    by (auto simp: list_all2_Cons1)
  have infer: "infer_schema_from_parquet_files E (p # q # ps) mode = rbind (parquet_file_columns E mode p) (\<lambda>columns.
      rbind (merge_parquet_files E p columns others) (\<lambda>columns. Inr \<lparr>is_columns = columns, is_source_files = p # q # ps\<rparr>))"
    using Inr first by (simp add: infer_schema_from_parquet_files_def schemas parquet_file_columns_def del: read_parquet_schemas.simps)
  show ?thesis
  proof (cases "parquet_file_columns E mode p")
    case (Inr c)
    then have "columns_in (parquet_file_columns E mode) p = c" by (simp add: columns_in_def)
    then show ?thesis using Inr parquet_columns_list [OF rest, of mode]
      by (auto simp: infer merged_from_Cons rbind_Inr_iff merge_parquet_files_iff [of _ _ _ _ _ mode] inferred_eq)
  qed (simp add: infer merged_from_Cons)
qed

lemma infer_parquet_files_iff:
  "infer_schema_from_parquet_files E paths mode = Inr sch \<longleftrightarrow>
    merged_from (parquet_file_columns E mode) paths (is_columns sch) \<and> is_source_files sch = paths"
proof -
  consider "paths = []" | p where "paths = [p]" | p q ps where "paths = p # q # ps" by (cases paths rule: remdups_adj.cases) auto
  then show ?thesis
  proof cases
    case 2
    have "infer_schema_from_parquet E p mode =
        rbind (parquet_file_columns E mode p) (\<lambda>columns. Inr \<lparr>is_columns = columns, is_source_files = [p]\<rparr>)"
      by (simp add: infer_schema_from_parquet_def parquet_file_columns_def rbind_assoc)
    then show ?thesis using 2
      by (cases "parquet_file_columns E mode p")
        (auto simp: infer_schema_from_parquet_files_def merged_from_Cons columns_in_def inferred_eq)
  next
    case 3
    then show ?thesis using infer_parquet_many by simp
  qed (simp add: infer_schema_from_parquet_files_def merged_from_def)
qed

text \<open>One column of the merged schema.\<close>

lemma merge_columns_nth:
  assumes "length others = length columns" "j < length columns"
  shows "ic_exasol_type (merge_columns columns others ! j) = widen_type (ic_exasol_type (columns ! j)) (ic_exasol_type (others ! j))"
    and "ic_nullable (merge_columns columns others ! j) = (ic_nullable (columns ! j) \<or> ic_nullable (others ! j))"
    and "ic_original_name (merge_columns columns others ! j) = ic_original_name (columns ! j)"
    and "ic_ddl_name (merge_columns columns others ! j) = ic_ddl_name (columns ! j)"
  using assms by (simp_all add: merge_columns_def widen_column_def)

lemma merged_nth:
  assumes "\<forall>x \<in> set cs. length x = length c" "j < length c"
  shows "ic_exasol_type (foldl merge_columns c cs ! j) = foldl widen_type (ic_exasol_type (c ! j)) (map (\<lambda>x. ic_exasol_type (x ! j)) cs)"
    and "ic_nullable (foldl merge_columns c cs ! j) = (\<exists>x \<in> set (c # cs). ic_nullable (x ! j))"
    and "ic_original_name (foldl merge_columns c cs ! j) = ic_original_name (c ! j)"
    and "ic_ddl_name (foldl merge_columns c cs ! j) = ic_ddl_name (c ! j)"
  using assms by (induction cs arbitrary: c) (auto simp: merge_columns_length merge_columns_nth)

lemma merged_from_nth:
  assumes "merged_from file (p # ps) columns" "j < length columns"
  shows "ic_exasol_type (columns ! j) =
      foldl widen_type (ic_exasol_type (columns_in file p ! j)) (map (\<lambda>q. ic_exasol_type (columns_in file q ! j)) ps)"
    and "ic_nullable (columns ! j) = (\<exists>q \<in> set (p # ps). ic_nullable (columns_in file q ! j))"
    and "ic_original_name (columns ! j) = ic_original_name (columns_in file p ! j)"
    and "ic_ddl_name (columns ! j) = ic_ddl_name (columns_in file p ! j)"
proof -
  have len: "\<forall>x \<in> set (map (columns_in file) ps). length x = length (columns_in file p)" "length (columns_in file p) = length columns"
    and eq: "columns = foldl merge_columns (columns_in file p) (map (columns_in file) ps)"
    using assms(1) by (auto simp: merged_from_def list_all_iff has_columns_def)
  note parts = merged_nth [OF len(1), of j, unfolded len(2), OF assms(2), folded eq]
  show "ic_exasol_type (columns ! j) =
      foldl widen_type (ic_exasol_type (columns_in file p ! j)) (map (\<lambda>q. ic_exasol_type (columns_in file q ! j)) ps)"
    using parts(1) by (simp add: comp_def)
  show "ic_nullable (columns ! j) = (\<exists>q \<in> set (p # ps). ic_nullable (columns_in file q ! j))" using parts(2) by auto
  show "ic_original_name (columns ! j) = ic_original_name (columns_in file p ! j)"
    "ic_ddl_name (columns ! j) = ic_ddl_name (columns_in file p ! j)" using parts(3,4) by simp_all
qed

text \<open>Files whose columns all have a type that inference produces.\<close>

definition typed_files :: "('p \<Rightarrow> (ImportError, InferredColumn list) result) \<Rightarrow> bool" where
  "typed_files file \<longleftrightarrow> (\<forall>p x. file p = Inr x \<longrightarrow> list_all (\<lambda>col. inferable (ic_exasol_type col)) x)"

lemma csv_file_columns_Inr:
  assumes "csv_file_columns E opts p = Inr x"
  shows "\<exists>flds. x = csv_schema_to_columns E flds opts"
proof -
  obtain content where content: "open_file E p = Inr content"
    using assms by (auto simp: csv_file_columns_def rbind_Inr_iff)
  show ?thesis using assms
    by (cases "ie_csv_schema E (build_csv_format opts) content (io_max_sample_records opts)")
      (auto simp: csv_file_columns_def content split: if_splits)
qed

lemma csv_files_typed: "typed_files (csv_file_columns E opts)"
proof -
  have "inferable (case arrow_to_exasol E t of Inr x \<Rightarrow> x | Inl _ \<Rightarrow> longest_varchar)" for t
    using arrow_to_exasol_inferable [of E t] by (cases "arrow_to_exasol E t") simp_all
  then have "list_all (\<lambda>col. inferable (ic_exasol_type col)) (csv_schema_to_columns E flds opts)" for flds
    by (auto simp: list_all_iff csv_schema_to_columns_def csv_column_def Let_def)
  then show ?thesis using csv_file_columns_Inr by (fastforce simp: typed_files_def)
qed

lemma parquet_files_typed: "typed_files (parquet_file_columns E mode)"
proof -
  have "arrow_schema_to_columns E mode flds = Inr x \<Longrightarrow> list_all (\<lambda>col. inferable (ic_exasol_type col)) x" for flds x
    by (induction flds arbitrary: x) (auto simp: rbind_Inr_iff arrow_to_exasol_inferable split: sum.splits fault.splits)
  then show ?thesis by (auto simp: typed_files_def parquet_file_columns_def rbind_Inr_iff)
qed

definition least_type :: "ExasolType \<Rightarrow> ExasolType set \<Rightarrow> bool" where
  "least_type t ts \<longleftrightarrow> inferable t \<and> (\<forall>x \<in> ts. widen_type x t = t)
    \<and> (\<forall>u. inferable u \<and> (\<forall>x \<in> ts. widen_type x u = u) \<longrightarrow> widen_type t u = u)"

lemma columns_in_typed:
  assumes "typed_files file" "merged_from file paths columns" "p \<in> set paths" "j < length columns"
  shows "inferable (ic_exasol_type (columns_in file p ! j))"
proof -
  have "has_columns file (length columns) p"
    using assms(2,3) by (auto simp: merged_from_def list_all_iff split: list.splits)
  then show ?thesis using assms(1,4) by (auto simp: has_columns_def typed_files_def list_all_length)
qed

lemma merged_least:
  assumes "typed_files file" "merged_from file paths columns" "j < length columns"
  shows "least_type (ic_exasol_type (columns ! j)) ((\<lambda>p. ic_exasol_type (columns_in file p ! j)) ` set paths)"
proof -
  obtain p ps where paths: "paths = p # ps" using assms(2) by (cases paths) (simp_all add: merged_from_def)
  let ?t = "\<lambda>q. ic_exasol_type (columns_in file q ! j)"
  have ok: "inferable (?t p)" "list_all inferable (map ?t ps)"
    using columns_in_typed [OF assms(1,2) _ assms(3)] by (auto simp: paths list_all_iff)
  have eq: "ic_exasol_type (columns ! j) = foldl widen_type (?t p) (map ?t ps)"
    by (rule merged_from_nth(1) [OF assms(2) [unfolded paths] assms(3)])
  have img: "?t ` set paths = set (?t p # map ?t ps)" by (simp add: paths)
  show ?thesis unfolding least_type_def eq img
    using widening.fold_ok [OF ok] widening.fold_above [OF ok] widening.fold_least [OF ok] by blast
qed

lemma merged_any_order:
  assumes "typed_files file" "merged_from file paths columns" "set paths' = set paths"
  shows "\<exists>columns'. merged_from file paths' columns'
    \<and> map ic_exasol_type columns' = map ic_exasol_type columns \<and> map ic_nullable columns' = map ic_nullable columns"
proof -
  obtain p ps where paths: "paths = p # ps" using assms(2) by (cases paths) (simp_all add: merged_from_def)
  obtain q qs where paths': "paths' = q # qs" using assms(3) paths by (cases paths') simp_all
  let ?c = "foldl merge_columns (columns_in file q) (map (columns_in file) qs)"
  have "list_all (has_columns file (length columns)) paths" using assms(2) unfolding merged_from_def paths list.case by (rule conjunct1)
  then have all: "list_all (has_columns file (length columns)) paths'" by (simp only: list_all_iff assms(3))
  then have "list_all (has_columns file (length (columns_in file q))) qs" "length (columns_in file q) = length columns"
    by (auto simp: paths' has_columns_def)
  then have len: "length ?c = length columns" using merge_columns_lengths by metis
  then have merged: "merged_from file (q # qs) ?c" using all by (simp add: merged_from_def paths')
  have "ic_exasol_type (?c ! j) = ic_exasol_type (columns ! j) \<and> ic_nullable (?c ! j) = ic_nullable (columns ! j)"
    if "j < length columns" for j
  proof -
    let ?t = "\<lambda>p. ic_exasol_type (columns_in file p ! j)"
    have ok: "inferable (?t p)" "list_all inferable (map ?t ps)"
      using columns_in_typed [OF assms(1,2) _ that] by (auto simp: paths list_all_iff)
    have "set (?t q # map ?t qs) = ?t ` set paths'" "set (?t p # map ?t ps) = ?t ` set paths" by (auto simp: paths paths')
    then have "set (?t q # map ?t qs) = set (?t p # map ?t ps)" using assms(3) by simp
    from widening.fold_set [OF ok this] show ?thesis
      using merged_from_nth(1,2) [OF assms(2) [unfolded paths] that] merged_from_nth(1,2) [OF merged, of j] that len
        assms(3) paths paths' by auto
  qed
  then have "map ic_exasol_type ?c = map ic_exasol_type columns" "map ic_nullable ?c = map ic_nullable columns"
    using len by (auto intro!: nth_equalityI)
  then show ?thesis using merged paths' by blast
qed

subsection \<open>Values of widened decimals\<close>

text \<open>The number \<open>i / 10\<^sup>k\<close> is a value of a decimal type.\<close>

fun decimal_value :: "ExasolType \<Rightarrow> int \<times> nat \<Rightarrow> bool" where
  "decimal_value (EDecimal p s) (i, k) \<longleftrightarrow> (\<exists>j. \<bar>j\<bar> < 10 ^ p \<and> i * 10 ^ nat s = j * 10 ^ k)"
| "decimal_value _ _ \<longleftrightarrow> False"

lemma decimal_value_widens:
  assumes "decimal_value (EDecimal p s) v" "0 \<le> s" "s \<le> s'" "int p + (s' - s) \<le> int p'"
  shows "decimal_value (EDecimal p' s') v"
proof -
  obtain i k j where v: "v = (i, k)" and j: "\<bar>j\<bar> < 10 ^ p" "i * 10 ^ nat s = j * 10 ^ k"
    using assms(1) by (cases v) auto
  let ?d = "nat (s' - s)"
  have s': "nat s' = nat s + ?d" using assms(2,3) by linarith
  have "i * 10 ^ nat s' = j * 10 ^ ?d * 10 ^ k" using j(2) by (simp add: s' power_add)
  moreover have "\<bar>j * 10 ^ ?d\<bar> < 10 ^ p'"
  proof -
    have "\<bar>j * 10 ^ ?d\<bar> = \<bar>j\<bar> * 10 ^ ?d" by (simp add: abs_mult)
    also have "\<dots> < 10 ^ p * 10 ^ ?d" using j(1) by simp
    also have "\<dots> = (10 :: int) ^ (p + ?d)" by (simp add: power_add)
    also have "\<dots> \<le> 10 ^ p'" by (rule power_increasing) (use assms in linarith)+
    finally show ?thesis .
  qed
  ultimately show ?thesis using v by auto
qed

text \<open>The largest value of a decimal type fits into a type of a larger scale only with its integer digits.\<close>

lemma decimal_value_largest:
  assumes "decimal_value (EDecimal p' s') (10 ^ p - 1, nat s)" "0 \<le> s" "s \<le> s'" "1 \<le> p"
  shows "int p + (s' - s) \<le> int p'"
proof (rule ccontr)
  assume not: "\<not> ?thesis"
  let ?d = "nat (s' - s)"
  have s': "nat s' = nat s + ?d" using assms(2,3) by linarith
  obtain j :: int where j: "\<bar>j\<bar> < 10 ^ p'" "(10 ^ p - 1) * 10 ^ nat s' = j * 10 ^ nat s" using assms(1) by auto
  then have "j = (10 ^ p - 1) * 10 ^ ?d" by (simp add: s' power_add)
  moreover have "(10 :: int) ^ (p - 1) \<le> 10 ^ p - 1"
    using one_le_power [of "10 :: int" "p - 1"] assms(4) by (cases p) simp_all
  ultimately have "(10 :: int) ^ (p - 1) * 10 ^ ?d \<le> j" by (simp add: mult_right_mono)
  moreover have "(10 :: int) ^ p' \<le> 10 ^ (p - 1 + ?d)" by (rule power_increasing) (use not assms in linarith)+
  ultimately have "10 ^ p' \<le> j" by (simp add: power_add)
  then show False using j(1) by simp
qed

lemma decimal_value_own: "decimal_value (EDecimal p s) (10 ^ p - 1, nat s)"
  by (auto intro!: exI [of _ "10 ^ p - 1"])

lemma widened_decimals:
  assumes "inferable (EDecimal p s)" "inferable (EDecimal p' s')"
  shows "(\<forall>v. decimal_value (EDecimal p s) v \<or> decimal_value (EDecimal p' s') v \<longrightarrow>
      decimal_value (widen_type (EDecimal p s) (EDecimal p' s')) v)
    \<longleftrightarrow> max (int p - s) (int p' - s') + max s s' \<le> int (max p p')"
proof -
  have ok: "0 \<le> s" "0 \<le> s'" "1 \<le> p" "1 \<le> p'" using assms by auto
  have w: "widen_type (EDecimal p s) (EDecimal p' s') = EDecimal (max p p') (max s s')"
    using assms by (simp add: widen_within)
  have arith: "max (int p - s) (int p' - s') + max s s' \<le> int (max p p') \<longleftrightarrow>
      int p + (max s s' - s) \<le> int (max p p') \<and> int p' + (max s s' - s') \<le> int (max p p')"
    by (auto simp: max_def)
  show ?thesis unfolding w arith
  proof
    assume all: "\<forall>v. decimal_value (EDecimal p s) v \<or> decimal_value (EDecimal p' s') v \<longrightarrow> decimal_value (EDecimal (max p p') (max s s')) v"
    have "decimal_value (EDecimal (max p p') (max s s')) (10 ^ p - 1, nat s)"
      "decimal_value (EDecimal (max p p') (max s s')) (10 ^ p' - 1, nat s')"
      using all decimal_value_own by blast+
    from decimal_value_largest [OF this(1) ok(1) _ ok(3)] decimal_value_largest [OF this(2) ok(2) _ ok(4)]
    show "int p + (max s s' - s) \<le> int (max p p') \<and> int p' + (max s s' - s') \<le> int (max p p')" by simp
  next
    assume "int p + (max s s' - s) \<le> int (max p p') \<and> int p' + (max s s' - s') \<le> int (max p p')"
    then show "\<forall>v. decimal_value (EDecimal p s) v \<or> decimal_value (EDecimal p' s') v \<longrightarrow> decimal_value (EDecimal (max p p') (max s s')) v"
      using decimal_value_widens ok by (metis max.cobounded1 max.cobounded2)
  qed
qed

subsection \<open>The DDL text\<close>

definition identifier_events :: "string \<Rightarrow> event list" where
  "identifier_events n = Open Double # map Inner n @ [Close Double]"

lemma events_quoted_name:
  "s = [] \<or> hd s \<noteq> mark Double \<Longrightarrow> events (Quoted Double) (replace_char (CHR 0x22) [CHR 0x22, CHR 0x22] t @ CHR 0x22 # s) =
    map Inner t @ Close Double # events Outside s"
proof (induction t)
  case Nil
  then show ?case by (cases s) (simp_all add: replace_char_def)
qed (simp_all add: replace_char_def)

lemma events_identifier:
  "s = [] \<or> hd s \<noteq> mark Double \<Longrightarrow> events Outside (quote_column_name n @ s) = identifier_events n @ events Outside s"
  using events_quoted_name [of s n] by (simp add: quote_column_name_def identifier_events_def lex_outside_def emit_outside_def)

text \<open>Sanitized names are unquoted identifiers.\<close>

definition identifier_char :: "char \<Rightarrow> bool" where
  "identifier_char c \<longleftrightarrow> is_ascii_digit c \<or> c = CHR ''_'' \<or> (65 \<le> (of_char c :: nat) \<and> (of_char c :: nat) \<le> 90)"

definition unquoted_identifier :: "string \<Rightarrow> bool" where
  "unquoted_identifier n \<longleftrightarrow> n \<noteq> [] \<and> \<not> is_ascii_digit (hd n) \<and> list_all identifier_char n"

lemma sanitize_char_identifier: "identifier_char (sanitize_char u)"
  by (auto simp: identifier_char_def sanitize_char_def is_ascii_alphanumeric_def to_ascii_uppercase_def is_ascii_digit_def split: list.split)

lemma sanitized_identifier: "unquoted_identifier (sanitize_column_name n)"
proof -
  have u: "\<not> is_ascii_digit (CHR ''_'')" "identifier_char (CHR ''_'')" by (simp_all add: is_ascii_digit_def identifier_char_def)
  have all: "list_all identifier_char (map sanitize_char (text_chars n))" by (simp add: list_all_iff sanitize_char_identifier)
  show ?thesis
  proof (cases "map sanitize_char (text_chars n)")
    case Nil
    then show ?thesis unfolding sanitize_column_name_def Nil using u by (simp add: unquoted_identifier_def)
  next
    case (Cons c cs)
    then show ?thesis using all u unfolding sanitize_column_name_def Cons by (simp add: unquoted_identifier_def Let_def)
  qed
qed

lemma identifier_plain: "unquoted_identifier n \<Longrightarrow> list_all plain_char n"
  by (auto simp: unquoted_identifier_def identifier_char_def list_all_iff is_ascii_digit_def plain_char_def)

definition name_events :: "ColumnNameMode \<Rightarrow> string \<Rightarrow> event list" where
  "name_events mode n = (case mode of QuotedNames \<Rightarrow> identifier_events n | Sanitize \<Rightarrow> map Code (sanitize_column_name n))"

lemma events_name:
  "s = [] \<or> hd s \<noteq> mark Double \<Longrightarrow> events Outside (format_column_name n mode @ s) = name_events mode n @ events Outside s"
  using events_plain_chars [OF identifier_plain [OF sanitized_identifier [of n]]] events_identifier [of s n]
  by (cases mode) (simp_all add: format_column_name_def name_events_def)

definition column_events :: "ColumnNameMode \<Rightarrow> InferredColumn \<Rightarrow> event list" where
  "column_events mode col = map Code ''    '' @ name_events mode (ic_original_name col) @
    map Code ('' '' @ to_ddl_type (ic_exasol_type col))"

lemma ddl_type_plain: "inferable t \<Longrightarrow> list_all plain_char (to_ddl_type t)"
  by (cases t) (simp_all add: plain_number show_int_def plain_char_def)

definition formatted_column :: "ColumnNameMode \<Rightarrow> InferredColumn \<Rightarrow> bool" where
  "formatted_column mode col \<longleftrightarrow> ic_ddl_name col = format_column_name (ic_original_name col) mode \<and> inferable (ic_exasol_type col)"

lemma column_def_events:
  assumes "formatted_column mode col"
  shows "events Outside (''    '' @ ic_ddl_name col @ '' '' @ to_ddl_type (ic_exasol_type col) @ s) = column_events mode col @ events Outside s"
proof -
  let ?t = "'' '' @ to_ddl_type (ic_exasol_type col)"
  have t: "list_all plain_char ?t" using assms ddl_type_plain by (simp add: formatted_column_def plain_char_def)
  have b: "list_all plain_char ''    ''" by (simp add: plain_char_def)
  have "events Outside (format_column_name (ic_original_name col) mode @ ?t @ s) =
      name_events mode (ic_original_name col) @ events Outside (?t @ s)"
    by (rule events_name) simp
  then have "events Outside (''    '' @ format_column_name (ic_original_name col) mode @ ?t @ s) = column_events mode col @ events Outside s"
    unfolding events_plain_chars [OF b] events_plain_chars [OF t] column_events_def by simp
  then show ?thesis using assms by (simp add: formatted_column_def)
qed

lemma column_defs_events:
  assumes "list_all plain_char sep" "list_all (formatted_column mode) cols"
  shows "events Outside (join sep (map (\<lambda>col. ''    '' @ ic_ddl_name col @ '' '' @ to_ddl_type (ic_exasol_type col)) cols) @ s) =
    join (map Code sep) (map (column_events mode) cols) @ events Outside s"
  using assms(2)
proof (induction cols)
  case (Cons col cols)
  then show ?case
    using column_def_events [of mode col] events_plain_chars [OF assms(1)] by (cases cols) simp_all
qed simp

definition ddl_head :: "string \<Rightarrow> string option \<Rightarrow> string" where
  "ddl_head table_name schema_name = ''CREATE TABLE '' @
    (case schema_name of Some s \<Rightarrow> s @ ''.'' @ table_name | None \<Rightarrow> table_name) @ '' ('' @ [newline]"

lemma ddl_events:
  assumes "list_all plain_char table_name" "\<And>s. schema_name = Some s \<Longrightarrow> list_all plain_char s"
    and "list_all (formatted_column mode) (is_columns sch)"
  shows "events Outside (to_ddl sch table_name schema_name) = map Code (ddl_head table_name schema_name) @
    join (map Code ('','' @ [newline])) (map (column_events mode) (is_columns sch)) @ map Code ([newline] @ '');'')"
proof -
  let ?cols = "join ('','' @ [newline]) (map (\<lambda>col. ''    '' @ ic_ddl_name col @ '' '' @ to_ddl_type (ic_exasol_type col)) (is_columns sch))"
  have head: "list_all plain_char (ddl_head table_name schema_name)"
    using assms(1,2) by (auto simp: ddl_head_def plain_char_def split: option.split)
  have sep: "list_all plain_char ('','' @ [newline])" and tail: "list_all plain_char ([newline] @ '');'')"
    by (simp_all add: plain_char_def)
  have "to_ddl sch table_name schema_name = ddl_head table_name schema_name @ ?cols @ ([newline] @ '');'')"
    by (simp add: to_ddl_def ddl_head_def Let_def)
  then show ?thesis
    using column_defs_events [OF sep assms(3), of "[newline] @ '');''"] events_plain_chars [OF head] events_plain_chars [OF tail, of "[]"]
    by simp
qed

text \<open>The columns that inference returns.\<close>

lemma csv_columns_formatted:
  "csv_file_columns E opts p = Inr x \<Longrightarrow> j < length x \<Longrightarrow>
    ic_ddl_name (x ! j) = format_column_name (ic_original_name (x ! j)) (io_column_name_mode opts)"
  using csv_file_columns_Inr [of E opts p x] by (auto simp: csv_schema_to_columns_def csv_column_def Let_def nth_enumerate_eq)

lemma arrow_columns_formatted:
  "arrow_schema_to_columns E mode flds = Inr x \<Longrightarrow> list_all (\<lambda>col. ic_ddl_name col = format_column_name (ic_original_name col) mode) x"
  by (induction flds arbitrary: x) (auto simp: rbind_Inr_iff split: sum.splits fault.splits)

lemma merged_formatted:
  assumes "typed_files file" "merged_from file paths columns"
    and "\<And>p x j. file p = Inr x \<Longrightarrow> j < length x \<Longrightarrow> ic_ddl_name (x ! j) = format_column_name (ic_original_name (x ! j)) mode"
  shows "list_all (formatted_column mode) columns"
proof -
  obtain p ps where paths: "paths = p # ps" using assms(2) by (cases paths) (simp_all add: merged_from_def)
  have first: "file p = Inr (columns_in file p)" "length (columns_in file p) = length columns"
    using assms(2) by (auto simp: merged_from_def paths has_columns_def)
  have "formatted_column mode (columns ! j)" if "j < length columns" for j
    using assms(3) [OF first(1), of j] first(2) that merged_from_nth(3,4) [OF assms(2) [unfolded paths] that]
      merged_least [OF assms(1,2) that]
    by (simp add: formatted_column_def least_type_def)
  then show ?thesis by (simp add: list_all_length)
qed

lemma parquet_formatted:
  assumes "infer_schema_from_parquet_files E paths mode = Inr sch"
  shows "list_all (formatted_column mode) (is_columns sch)"
proof (rule merged_formatted [OF parquet_files_typed])
  show "merged_from (parquet_file_columns E mode) paths (is_columns sch)" using assms by (simp add: infer_parquet_files_iff)
  show "ic_ddl_name (x ! j) = format_column_name (ic_original_name (x ! j)) mode"
    if "parquet_file_columns E mode p = Inr x" "j < length x" for p x j
    using that arrow_columns_formatted [of E mode] by (auto simp: parquet_file_columns_def rbind_Inr_iff list_all_length)
qed

lemma csv_formatted:
  assumes "infer_schema_from_csv_files E paths opts = Inr sch"
  shows "list_all (formatted_column (io_column_name_mode opts)) (is_columns sch)"
  using assms by (auto simp: infer_csv_files_iff intro!: merged_formatted [OF csv_files_typed] csv_columns_formatted)

subsection \<open>Schemas of several files\<close>

definition least_schema :: "(string \<Rightarrow> (ImportError, InferredColumn list) result) \<Rightarrow> string list \<Rightarrow> InferredTableSchema \<Rightarrow> bool" where
  "least_schema file paths sch \<longleftrightarrow> (\<forall>j < length (is_columns sch).
    least_type (ic_exasol_type (is_columns sch ! j)) ((\<lambda>p. ic_exasol_type (columns_in file p ! j)) ` set paths))"

definition same_types :: "InferredTableSchema \<Rightarrow> InferredTableSchema \<Rightarrow> bool" where
  "same_types sch new \<longleftrightarrow> map ic_exasol_type (is_columns new) = map ic_exasol_type (is_columns sch)
    \<and> map ic_nullable (is_columns new) = map ic_nullable (is_columns sch)"

lemma merged_schema:
  assumes "typed_files file" "merged_from file paths (is_columns sch)" "set paths' = set paths"
  shows "least_schema file paths sch"
    and "\<exists>new. merged_from file paths' (is_columns new) \<and> is_source_files new = paths' \<and> same_types sch new"
proof -
  show "least_schema file paths sch" using merged_least [OF assms(1,2)] by (simp add: least_schema_def)
  obtain c where "merged_from file paths' c" "map ic_exasol_type c = map ic_exasol_type (is_columns sch)"
    "map ic_nullable c = map ic_nullable (is_columns sch)"
    using merged_any_order [OF assms] by blast
  then show "\<exists>new. merged_from file paths' (is_columns new) \<and> is_source_files new = paths' \<and> same_types sch new"
    by (intro exI [of _ "\<lparr>is_columns = c, is_source_files = paths'\<rparr>"]) (simp add: same_types_def)
qed

end
