(* ===== verification/Http_Tunnel.thy ===== *)
theory Http_Tunnel
  imports Connection_String Native_Transport
begin

text \<open>
  The HTTP tunnel of bulk import and export (\<open>src/transport/http_transport.rs\<close>): the EXA
  handshake, chunked transfer encoding, HTTP requests and responses, byte ranges of a
  Parquet file, and the client that holds the tunnel. A stream is the \<open>io_stream\<close> of the native
  transport: the bytes to come, what happens at their end, and the outcomes of writes. The
  channel to the consumer of an export and the imported file are explicit states. TLS,
  certificates, digests and the clock are parameters.
\<close>

subsection \<open>Streams\<close>

text \<open>The text of an I/O error.\<close>

fun io_text :: "TransportError \<Rightarrow> string" where
  "io_text (ReceiveError e) = e"
| "io_text (SendError e) = e"
| "io_text _ = []"

definition stream_read_exact :: "nat \<Rightarrow> (string, io_stream, byte list) task" where
  "stream_read_exact n = amap_err io_text (io_read_exact n)"

definition stream_write_all :: "byte list \<Rightarrow> (string, io_stream, unit) task" where
  "stream_write_all d = amap_err io_text (io_write_all d)"

definition stream_flush :: "(string, io_stream, unit) task" where
  "stream_flush = amap_err io_text (io_write_all [])"

definition on_fst :: "('e, 's, 'a) task \<Rightarrow> ('e, 's \<times> 't, 'a) task" where
  "on_fst m s = (case m (fst s) of (p, x) \<Rightarrow> (p, (x, snd s)))"

definition on_snd :: "('e, 't, 'a) task \<Rightarrow> ('e, 's \<times> 't, 'a) task" where
  "on_snd m s = (case m (snd s) of (p, x) \<Rightarrow> (p, (fst s, x)))"

text \<open>An error that the code maps with a prefix.\<close>

definition or_io :: "string \<Rightarrow> (string, 's, 'a) task \<Rightarrow> ('s, 'a) action" where
  "or_io prefix = amap_err (\<lambda>e. IoError (prefix @ e))"

definition or_protocol :: "string \<Rightarrow> (string, 's, 'a) task \<Rightarrow> ('s, 'a) action" where
  "or_protocol prefix = amap_err (\<lambda>e. ProtocolError (prefix @ e))"

subsection \<open>The EXA handshake\<close>

definition EXA_MAGIC_NUMBER :: u32 where "EXA_MAGIC_NUMBER = 0x02212102"
definition EXA_PROTOCOL_VERSION_MAJOR :: u32 where "EXA_PROTOCOL_VERSION_MAJOR = 1"
definition EXA_PROTOCOL_VERSION_MINOR :: u32 where "EXA_PROTOCOL_VERSION_MINOR = 1"
definition EXA_MAGIC_PACKET_SIZE :: nat where "EXA_MAGIC_PACKET_SIZE = 12"
definition EXA_RESPONSE_PACKET_SIZE :: nat where "EXA_RESPONSE_PACKET_SIZE = 24"
definition HTTP_CHUNK_SIZE :: nat where "HTTP_CHUNK_SIZE = 65536"
definition EXPORT_PIECE_MAX_BYTES :: nat where "EXPORT_PIECE_MAX_BYTES = 65536"
definition TUNNEL_SETUP_TIMEOUT :: nat where "TUNNEL_SETUP_TIMEOUT = 30000000000"

definition generate_magic_packet :: "byte list" where
  "generate_magic_packet =
    u32_to_le EXA_MAGIC_NUMBER @ u32_to_le EXA_PROTOCOL_VERSION_MAJOR @ u32_to_le EXA_PROTOCOL_VERSION_MINOR"

text \<open>\<open>format!("{:X}", n)\<close> and \<open>format!("{:08X}", n)\<close>.\<close>

definition hex_upper :: "nat \<Rightarrow> char" where
  "hex_upper n = (if n < 10 then digit_char n else char_of (55 + n))"

fun show_hex :: "nat \<Rightarrow> string" where
  "show_hex n = (if n < 16 then [hex_upper n] else show_hex (n div 16) @ [hex_upper (n mod 16)])"

declare show_hex.simps [simp del]

definition show_hex8 :: "u32 \<Rightarrow> string" where
  "show_hex8 w = (let s = show_hex (unat w) in replicate (8 - length s) (CHR ''0'') @ s)"

definition parse_magic_packet :: "byte list \<Rightarrow> (TransportError, u32 \<times> u32 \<times> u32) result" where
  "parse_magic_packet packet =
    (if length packet < EXA_MAGIC_PACKET_SIZE then
       fail (ProtocolError (''Magic packet too short: expected '' @ show_nat EXA_MAGIC_PACKET_SIZE @ '' bytes, got '' @
         show_nat (length packet)))
     else
       let magic = u32_of_le (take 4 packet); major = u32_of_le (take 4 (drop 4 packet));
           minor = u32_of_le (take 4 (drop 8 packet)) in
       if magic \<noteq> EXA_MAGIC_NUMBER then
         fail (ProtocolError (''Invalid magic number: expected 0x'' @ show_hex8 EXA_MAGIC_NUMBER @ '', got 0x'' @ show_hex8 magic))
       else Inr (magic, major, minor))"

text \<open>\<open>String::from_utf8_lossy\<close>: each ill-formed sequence becomes U+FFFD.\<close>

function from_utf8_lossy :: "byte list \<Rightarrow> byte list" where
  "from_utf8_lossy bs = (case utf8_error 0 bs of
      None \<Rightarrow> bs
    | Some (i, None) \<Rightarrow> take i bs @ [0xEF, 0xBF, 0xBD]
    | Some (i, Some n) \<Rightarrow> take i bs @ [0xEF, 0xBF, 0xBD] @ from_utf8_lossy (drop (max 1 (i + n)) bs))"
  by pat_completeness auto
termination
proof (relation "measure length")
  fix bs :: "byte list" and x i y n
  assume "utf8_error 0 bs = Some x"
  then have "bs \<noteq> []" by auto
  then show "(drop (max 1 (i + n)) bs, bs) \<in> measure length" by simp
qed simp

declare from_utf8_lossy.simps [simp del]

definition trim_nul :: "string \<Rightarrow> string" where
  "trim_nul s = rev (dropWhile (\<lambda>c. c = CHR 0x00) (rev s))"

definition parse_response_packet :: "byte list \<Rightarrow> (TransportError, string \<times> u16) result" where
  "parse_response_packet packet =
    (if length packet < EXA_RESPONSE_PACKET_SIZE then
       fail (ProtocolError (''Response packet too short: expected '' @ show_nat EXA_RESPONSE_PACKET_SIZE @ '' bytes, got '' @
         show_nat (length packet)))
     else
       let port = sint (u32_of_le (take 4 (drop 4 packet))) in
       if port < 0 \<or> port > 65535 then
         fail (ProtocolError (''Invalid port in response packet: '' @ show_int port))
       else
         let ip_string = trim_nul (text_of (from_utf8_lossy (take 16 (drop 8 packet)))) in
         if ip_string = [] then fail (ProtocolError ''Empty IP address in response packet'')
         else Inr (ip_string, of_int port))"

definition perform_handshake :: "(io_stream, string \<times> u16) action" where
  "perform_handshake =
    abind (or_io ''Failed to send magic packet: '' (stream_write_all generate_magic_packet)) (\<lambda>_.
    abind (or_io ''Failed to flush magic packet: '' stream_flush) (\<lambda>_.
    abind (or_io ''Failed to read response packet: '' (stream_read_exact EXA_RESPONSE_PACKET_SIZE)) (\<lambda>response.
      alift (parse_response_packet response))))"

subsection \<open>Chunked transfer encoding\<close>

definition crlf :: "byte list" where "crlf = [0x0D, 0x0A]"

definition encode_chunk :: "byte list \<Rightarrow> byte list" where
  "encode_chunk d =
    (if d = [] then as_bytes ''0'' @ crlf @ crlf
     else as_bytes (show_hex (length d)) @ crlf @ d @ crlf)"

definition hex_value :: "char \<Rightarrow> nat option" where
  "hex_value c = (let n = of_char c :: nat in
    if is_ascii_digit c then Some (n - 48)
    else if 65 \<le> n \<and> n \<le> 70 then Some (n - 55)
    else if 97 \<le> n \<and> n \<le> 102 then Some (n - 87)
    else None)"

text \<open>\<open>usize::from_str_radix(s, 16)\<close> with the \<open>Display\<close> texts of its errors.\<close>

fun parse_hex_digits :: "nat \<Rightarrow> string \<Rightarrow> string + nat" where
  "parse_hex_digits acc [] = Inr acc"
| "parse_hex_digits acc (c # s) = (case hex_value c of
      None \<Rightarrow> Inl ''invalid digit found in string''
    | Some d \<Rightarrow> if acc * 16 + d < 2 ^ 64 then parse_hex_digits (acc * 16 + d) s
        else Inl ''number too large to fit in target type'')"

definition parse_hex :: "string \<Rightarrow> string + nat" where
  "parse_hex s = (case s of
      [] \<Rightarrow> Inl ''cannot parse integer from empty string''
    | c # r \<Rightarrow> if c = CHR ''+'' \<and> r \<noteq> [] then parse_hex_digits 0 r else parse_hex_digits 0 s)"

definition parse_chunk_size :: "string \<Rightarrow> (TransportError, nat) result" where
  "parse_chunk_size size_line =
    (let size_str = trim (hd (split_on (CHR '';'') size_line)) in
     case parse_hex size_str of
       Inl e \<Rightarrow> fail (ProtocolError (''Invalid chunk size '' @ quoted size_str @ '': '' @ e))
     | Inr n \<Rightarrow> Inr n)"

text \<open>A line of the peer; \<open>n\<close> bounds the turns of the loop, each of which takes a byte.\<close>

definition line_text :: "byte list \<Rightarrow> (string, string) result" where
  "line_text line = (if utf8_valid line then Inr (text_of line) else fail (utf8_error_text line))"

primrec read_line_loop :: "nat \<Rightarrow> byte list \<Rightarrow> (string, io_stream, string) task" where
  "read_line_loop 0 line = alift (Inl Diverged)"
| "read_line_loop (Suc n) line =
    abind (stream_read_exact 1) (\<lambda>buf.
      if buf = [0x0D] then
        abind (stream_read_exact 1) (\<lambda>buf.
          if buf = [0x0A] then alift (line_text line)
          else read_line_loop n (line @ [0x0D] @ buf))
      else read_line_loop n (line @ buf))"

definition read_line :: "(string, io_stream, string) task" where
  "read_line io = read_line_loop (Suc (length (inbox io))) [] io"

text \<open>
  The bounded channel to the consumer of an export: the pieces it holds, whether the
  consumer still listens, and how many more pieces the consumer makes room for.
\<close>

record sink =
  sk_pieces :: "byte list list"
  sk_open :: bool
  sk_room :: "nat option"

definition sink_send :: "byte list \<Rightarrow> ('e, sink, unit) task" where
  "sink_send piece sk =
    (if \<not> sk_open sk then (Ready (Inr ()), sk)
     else (case sk_room sk of
         Some 0 \<Rightarrow> (Pending, sk)
       | Some (Suc n) \<Rightarrow> (Ready (Inr ()), sk\<lparr>sk_pieces := sk_pieces sk @ [piece], sk_room := Some n\<rparr>)
       | None \<Rightarrow> (Ready (Inr ()), sk\<lparr>sk_pieces := sk_pieces sk @ [piece]\<rparr>)))"

function forward_pieces :: "nat \<Rightarrow> nat \<Rightarrow> (io_stream \<times> sink, unit) action" where
  "forward_pieces len remaining =
    (if remaining = 0 then areturn ()
     else
       let n = min remaining EXPORT_PIECE_MAX_BYTES in
       abind (on_fst (or_io (''Failed to read body: '' @ show_nat remaining @ '' of '' @ show_nat len @ '' bytes still expected: '')
         (stream_read_exact n))) (\<lambda>piece.
       abind (on_snd (sink_send piece)) (\<lambda>_.
         forward_pieces len (remaining - n))))"
  by pat_completeness auto
termination by (relation "measure snd") (simp_all add: EXPORT_PIECE_MAX_BYTES_def)

declare forward_pieces.simps [simp del]

definition forward_sized_body :: "nat \<Rightarrow> (io_stream \<times> sink, unit) action" where
  "forward_sized_body len = forward_pieces len len"

primrec forward_chunks :: "nat \<Rightarrow> (io_stream \<times> sink, unit) action" where
  "forward_chunks 0 = alift (Inl Diverged)"
| "forward_chunks (Suc n) =
    abind (on_fst (or_protocol ''Failed to read chunk size: '' read_line)) (\<lambda>size_line.
    abind (alift (parse_chunk_size size_line)) (\<lambda>chunk_size.
    abind (forward_sized_body chunk_size) (\<lambda>_.
    abind (on_fst (or_protocol (''Failed to read the CRLF after a '' @ show_nat chunk_size @ ''-byte chunk: '')
      (stream_read_exact 2))) (\<lambda>_.
      if chunk_size = 0 then areturn () else forward_chunks n))))"

definition forward_chunked_body :: "(io_stream \<times> sink, unit) action" where
  "forward_chunked_body s = forward_chunks (Suc (length (inbox (fst s)))) s"

subsection \<open>HTTP requests\<close>

datatype HttpMethod = Get | Put | Head

fun show_method :: "HttpMethod \<Rightarrow> string" where
  "show_method Get = ''GET''"
| "show_method Put = ''PUT''"
| "show_method Head = ''HEAD''"

record HttpRequest =
  rq_method :: HttpMethod
  rq_path :: string
  rq_headers :: "string \<rightharpoonup> string"

definition content_length :: "HttpRequest \<Rightarrow> nat option" where
  "content_length r = (case rq_headers r ''content-length'' of
      None \<Rightarrow> None | Some v \<Rightarrow> parse_unsigned (2 ^ 64 - 1) v)"

definition is_chunked :: "string_env \<Rightarrow> HttpRequest \<Rightarrow> bool" where
  "is_chunked S r = (case rq_headers r ''transfer-encoding'' of
      None \<Rightarrow> False | Some v \<Rightarrow> contains (to_lowercase S v) ''chunked'')"

definition request_host :: "HttpRequest \<Rightarrow> string option" where
  "request_host r = rq_headers r ''host''"

text \<open>\<open>split_whitespace\<close>: the maximal runs of characters that are not white space.\<close>

fun words_of :: "string \<Rightarrow> string list \<Rightarrow> string list" where
  "words_of w [] = (if w = [] then [] else [w])"
| "words_of w (u # us) =
    (if is_whitespace u then (if w = [] then [] else [w]) @ words_of [] us else words_of (w @ u) us)"

definition split_whitespace :: "string \<Rightarrow> string list" where
  "split_whitespace s = words_of [] (text_chars s)"

definition parse_method :: "string \<Rightarrow> (TransportError, HttpMethod) result" where
  "parse_method s =
    (if s = ''GET'' then Inr Get else if s = ''PUT'' then Inr Put else if s = ''HEAD'' then Inr Head
     else fail (ProtocolError (''Unsupported HTTP method: '' @ quoted s)))"

primrec parse_headers :: "string_env \<Rightarrow> nat \<Rightarrow> (string \<rightharpoonup> string) \<Rightarrow> (io_stream, string \<rightharpoonup> string) action" where
  "parse_headers S 0 headers = alift (Inl Diverged)"
| "parse_headers S (Suc n) headers =
    abind (or_protocol ''Failed to read header line: '' read_line) (\<lambda>line.
      if line = [] then areturn headers
      else parse_headers S n (case split_once (CHR '':'') line of
          None \<Rightarrow> headers
        | Some (name, v) \<Rightarrow> headers(to_lowercase S (trim name) \<mapsto> trim v)))"

definition parse_http_request :: "string_env \<Rightarrow> (io_stream, HttpRequest) action" where
  "parse_http_request S =
    abind (or_protocol ''Failed to read request line: '' read_line) (\<lambda>request_line.
    let parts = split_whitespace request_line in
    if length parts < 3 then athrow (ProtocolError (''Invalid HTTP request line: '' @ quoted request_line))
    else abind (alift (parse_method (parts ! 0))) (\<lambda>method io.
      abind (parse_headers S (Suc (length (inbox io))) Map.empty) (\<lambda>headers.
        areturn \<lparr>rq_method = method, rq_path = parts ! 1, rq_headers = headers\<rparr>) io))"

subsection \<open>HTTP responses\<close>

definition eq_ignore_ascii_case :: "string \<Rightarrow> string \<Rightarrow> bool" where
  "eq_ignore_ascii_case a b \<longleftrightarrow> map to_ascii_lowercase a = map to_ascii_lowercase b"

definition build_http_response :: "u16 \<Rightarrow> string \<Rightarrow> (string \<times> string) list \<Rightarrow> byte list option \<Rightarrow> byte list" where
  "build_http_response status_code status_text headers body =
    as_bytes (''HTTP/1.1 '' @ show_nat (unat status_code) @ '' '' @ status_text) @ crlf @
    concat (map (\<lambda>(name, v). as_bytes (name @ '': '' @ v) @ crlf) headers) @
    (case body of
       None \<Rightarrow> []
     | Some b \<Rightarrow> if list_ex (\<lambda>(n, _). eq_ignore_ascii_case n ''content-length'') headers then []
         else as_bytes (''Content-Length: '' @ show_nat (length b)) @ crlf) @
    crlf @ (case body of None \<Rightarrow> [] | Some b \<Rightarrow> b)"

definition build_chunked_response_headers :: "byte list" where
  "build_chunked_response_headers = build_http_response 200 ''OK''
    [(''Content-Type'', ''application/octet-stream''), (''Transfer-Encoding'', ''chunked'')] None"

definition build_ok_response :: "byte list" where
  "build_ok_response = build_http_response 200 ''OK'' [] None"

subsection \<open>Byte ranges of a Parquet file\<close>

text \<open>
  The imported file (\<open>AsyncRead + AsyncSeek\<close>): its bytes, the position, the outcomes of the
  operations to come (\<open>Some e\<close> fails, everything else succeeds), and the text of the error
  of a read beyond the end.
\<close>

record byte_source =
  src_content :: "byte list"
  src_pos :: nat
  src_faults :: "string option list"
  src_eof :: string

definition src_step :: "(byte_source \<Rightarrow> (string, 'a) result \<times> byte_source) \<Rightarrow> (string, byte_source, 'a) task" where
  "src_step f src =
    (let src' = src\<lparr>src_faults := tl (src_faults src)\<rparr> in
     case src_faults src of
       Some e # _ \<Rightarrow> (Ready (fail e), src')
     | _ \<Rightarrow> (case f src' of (r, src'') \<Rightarrow> (Ready r, src'')))"

definition src_seek_end :: "(string, byte_source, nat) task" where
  "src_seek_end = src_step (\<lambda>src. (Inr (length (src_content src)), src\<lparr>src_pos := length (src_content src)\<rparr>))"

definition src_seek_start :: "nat \<Rightarrow> (string, byte_source, unit) task" where
  "src_seek_start n = src_step (\<lambda>src. (Inr (), src\<lparr>src_pos := n\<rparr>))"

definition src_read_exact :: "nat \<Rightarrow> (string, byte_source, byte list) task" where
  "src_read_exact n = src_step (\<lambda>src.
    if src_pos src + n \<le> length (src_content src)
    then (Inr (take n (drop (src_pos src) (src_content src))), src\<lparr>src_pos := src_pos src + n\<rparr>)
    else (fail (src_eof src), src\<lparr>src_pos := length (src_content src)\<rparr>))"

definition file_open :: "(io_stream \<times> byte_source, nat) action" where
  "file_open = on_snd (or_io ''Failed to determine the Parquet file size: '' src_seek_end)"

definition parse_byte_range :: "string \<Rightarrow> (nat \<times> nat) option" where
  "parse_byte_range range_header = (case strip_prefix ''bytes='' range_header of
      None \<Rightarrow> None
    | Some s \<Rightarrow> (case split_once (CHR ''-'') s of
        None \<Rightarrow> None
      | Some (start_str, end_str) \<Rightarrow> (case parse_unsigned (2 ^ 64 - 1) (trim start_str) of
          None \<Rightarrow> None
        | Some start \<Rightarrow> (case parse_unsigned (2 ^ 64 - 1) (trim end_str) of
            None \<Rightarrow> None
          | Some stop \<Rightarrow> Some (start, stop)))))"

definition write_bad_request_response :: "(io_stream, unit) action" where
  "write_bad_request_response =
    abind (or_io ''Failed to write 400: '' (stream_write_all (as_bytes ''HTTP/1.1 400 Bad Request'' @ crlf @ crlf))) (\<lambda>_.
      or_io ''Failed to flush 400: '' stream_flush)"

definition write_file_size_response :: "nat \<Rightarrow> (io_stream, unit) action" where
  "write_file_size_response file_len =
    abind (or_io ''Failed to write HEAD response: ''
      (stream_write_all (as_bytes ''HTTP/1.1 200 OK'' @ crlf @ as_bytes (''Content-Length: '' @ show_nat file_len) @ crlf @ crlf))) (\<lambda>_.
      or_io ''Failed to flush HEAD response: '' stream_flush)"

function write_span :: "nat \<Rightarrow> nat \<Rightarrow> nat \<Rightarrow> (io_stream \<times> byte_source, unit) action" where
  "write_span start span_len remaining =
    (if remaining = 0 then areturn ()
     else
       let n = min remaining HTTP_CHUNK_SIZE in
       abind (on_snd (or_io (''Failed to read the Parquet file: '' @ show_nat remaining @ '' of '' @ show_nat span_len @
         '' bytes from byte '' @ show_nat start @ '' still expected: '') (src_read_exact n))) (\<lambda>piece.
       abind (on_fst (or_io ''Failed to write response body: '' (stream_write_all piece))) (\<lambda>_.
         write_span start span_len (remaining - n))))"
  by pat_completeness auto
termination by (relation "measure (snd \<circ> snd)") (simp_all add: HTTP_CHUNK_SIZE_def)

declare write_span.simps [simp del]

definition write_span_response :: "byte list \<Rightarrow> nat \<Rightarrow> nat \<Rightarrow> (io_stream \<times> byte_source, unit) action" where
  "write_span_response head start stop =
    (let span_len = stop - start in
     abind (on_fst (or_io ''Failed to write response head: '' (stream_write_all head))) (\<lambda>_.
     abind (on_snd (or_io (''Failed to seek to byte '' @ show_nat start @ '' of the Parquet file: '') (src_seek_start start))) (\<lambda>_.
     abind (write_span start span_len span_len) (\<lambda>_.
       on_fst (or_io ''Failed to flush response: '' stream_flush)))))"

definition partial_head :: "nat \<Rightarrow> nat \<Rightarrow> nat \<Rightarrow> nat \<Rightarrow> byte list" where
  "partial_head span_len start clamped_end file_len =
    as_bytes ''HTTP/1.1 206 Partial Content'' @ crlf @ as_bytes (''Content-Length: '' @ show_nat span_len) @ crlf @
    as_bytes (''Content-Range: bytes '' @ show_nat start @ ''-'' @ show_nat clamped_end @ ''/'' @ show_nat file_len) @ crlf @ crlf"

definition serve_byte_range :: "nat \<Rightarrow> string \<Rightarrow> (io_stream \<times> byte_source, unit) action" where
  "serve_byte_range file_len range_header = (case parse_byte_range range_header of
      None \<Rightarrow> on_fst write_bad_request_response
    | Some (start, stop) \<Rightarrow>
        if file_len = 0 \<or> start \<ge> file_len then on_fst write_bad_request_response
        else
          let clamped_end = min stop (file_len - 1) in
          if clamped_end < start then on_fst write_bad_request_response
          else write_span_response (partial_head (clamped_end - start + 1) start clamped_end file_len) start (clamped_end + 1))"

definition serve_whole_file :: "nat \<Rightarrow> (io_stream \<times> byte_source, unit) action" where
  "serve_whole_file file_len =
    write_span_response (as_bytes ''HTTP/1.1 200 OK'' @ crlf @ as_bytes (''Content-Length: '' @ show_nat file_len) @ crlf @ crlf) 0 file_len"

definition reject_put :: "(io_stream \<times> byte_source, unit) action" where
  "reject_put =
    abind (on_fst (aignore (stream_write_all (as_bytes ''HTTP/1.1 405 Method Not Allowed'' @ crlf @ crlf)))) (\<lambda>_.
    abind (on_fst (aignore stream_flush)) (\<lambda>_.
      athrow (ProtocolError ''Unexpected PUT in Parquet import handler'')))"

definition serve_request :: "nat \<Rightarrow> HttpRequest \<Rightarrow> (io_stream \<times> byte_source, unit) action" where
  "serve_request file_len r = (case rq_method r of
      Head \<Rightarrow> on_fst (write_file_size_response file_len)
    | Get \<Rightarrow> (case rq_headers r ''range'' of
        Some range_header \<Rightarrow> serve_byte_range file_len range_header
      | None \<Rightarrow> serve_whole_file file_len)
    | Put \<Rightarrow> reject_put)"

text \<open>The peer ends the session by closing the connection, which shows as a failed read.\<close>

primrec serve_requests :: "string_env \<Rightarrow> nat \<Rightarrow> nat \<Rightarrow> (io_stream \<times> byte_source, unit) action" where
  "serve_requests S 0 file_len = alift (Inl Diverged)"
| "serve_requests S (Suc n) file_len =
    abind (acatch (on_fst (parse_http_request S))) (\<lambda>request. case request of
        Inl (IoError _) \<Rightarrow> areturn ()
      | Inl (ProtocolError _) \<Rightarrow> areturn ()
      | Inl e \<Rightarrow> athrow e
      | Inr r \<Rightarrow> abind (serve_request file_len r) (\<lambda>_. serve_requests S n file_len))"

definition serve_parquet_range_requests :: "string_env \<Rightarrow> (io_stream \<times> byte_source, unit) action" where
  "serve_parquet_range_requests S =
    abind file_open (\<lambda>file_len s. serve_requests S (Suc (length (inbox (fst s)))) file_len s)"

subsection \<open>Certificates\<close>

record TlsCertificate =
  tc_certificate_der :: "byte list"
  tc_private_key_der :: "byte list"
  tc_public_key_der :: "byte list"
  tc_fingerprint :: string

text \<open>
  The \<open>rcgen\<close>, \<open>rustls\<close>, \<open>sha2\<close> and \<open>base64\<close> crates, the network, and the clock: what a TCP
  connect, the EXA handshake and the accepted TLS handshake come to and when.
\<close>

record http_env =
  he_strings :: string_env
  he_key_pair :: "string + byte list \<times> byte list"
  he_cert_params :: "string + unit"
  he_self_signed :: "byte list \<Rightarrow> string + byte list"
  he_private_key :: "byte list \<Rightarrow> string + byte list"
  he_single_cert :: "byte list \<Rightarrow> byte list \<Rightarrow> string + unit"
  he_sha256 :: "byte list \<Rightarrow> byte list"
  he_base64 :: "byte list \<Rightarrow> string"
  he_connect :: "string \<Rightarrow> (string + io_stream) option \<times> instant"
  he_handshake_finish :: instant
  he_accept :: "io_stream \<Rightarrow> (string + io_stream) option \<times> instant"
  he_accept_now :: instant
  he_clock_max :: instant
  he_shutdown :: "io_stream \<Rightarrow> string + io_stream"

definition compute_sha256_fingerprint :: "http_env \<Rightarrow> byte list \<Rightarrow> string" where
  "compute_sha256_fingerprint H d = he_base64 H (he_sha256 H d)"

definition compute_public_key_fingerprint :: "http_env \<Rightarrow> byte list \<Rightarrow> string" where
  "compute_public_key_fingerprint H public_key_der = ''sha256//'' @ compute_sha256_fingerprint H public_key_der"

definition tls_or :: "string \<Rightarrow> string + 'a \<Rightarrow> (TransportError, 'a) result" where
  "tls_or prefix r = (case r of Inl e \<Rightarrow> fail (TlsError (prefix @ e)) | Inr x \<Rightarrow> Inr x)"

definition TlsCertificate_generate :: "http_env \<Rightarrow> (TransportError, TlsCertificate) result" where
  "TlsCertificate_generate H =
    rbind (tls_or ''Failed to generate key pair: '' (he_key_pair H)) (\<lambda>(private_key_der, public_key_der).
    rbind (tls_or ''Failed to create certificate params: '' (he_cert_params H)) (\<lambda>_.
    rbind (tls_or ''Failed to generate certificate: '' (he_self_signed H private_key_der)) (\<lambda>certificate_der.
      Inr \<lparr>tc_certificate_der = certificate_der, tc_private_key_der = private_key_der, tc_public_key_der = public_key_der,
        tc_fingerprint = compute_public_key_fingerprint H public_key_der\<rparr>)))"

definition to_server_config :: "http_env \<Rightarrow> TlsCertificate \<Rightarrow> (TransportError, unit) result" where
  "to_server_config H cert =
    rbind (tls_or ''Failed to parse private key: '' (he_private_key H (tc_private_key_der cert))) (\<lambda>key.
      tls_or ''Failed to create TLS config: '' (he_single_cert H (tc_certificate_der cert) key))"

subsection \<open>The tunnel\<close>

datatype TunnelStream =
    TunnelOpen io_stream
  | TlsHandshakePending io_stream nat
  | TunnelClosed

record HttpTransportClient =
  hc_stream :: TunnelStream
  hc_internal_addr :: string
  hc_tls_certificate :: "TlsCertificate option"

definition run_of :: "('a \<Rightarrow> 'b) \<Rightarrow> (string \<Rightarrow> TransportError) \<Rightarrow> (string + 'a) option \<times> instant \<Rightarrow> (unit, 'b) async_run" where
  "run_of f err r = \<lparr>outcome = (case fst r of
        None \<Rightarrow> Pending | Some (Inl e) \<Rightarrow> Ready (fail (err e)) | Some (Inr x) \<Rightarrow> Ready (Inr (f x))),
     finish = snd r, final = (), cut = ()\<rparr>"

definition handshake_run :: "http_env \<Rightarrow> io_stream \<Rightarrow> (io_stream, string \<times> u16) async_run" where
  "handshake_run H io = (case perform_handshake io of (p, io') \<Rightarrow>
    \<lparr>outcome = p, finish = he_handshake_finish H, final = io', cut = io'\<rparr>)"

definition connect_with_timeout ::
  "http_env \<Rightarrow> instant \<Rightarrow> string \<Rightarrow> u16 \<Rightarrow> bool \<Rightarrow> nat \<Rightarrow> (TransportError, HttpTransportClient) result" where
  "connect_with_timeout H now addr prt tls setup_timeout =
    (let target = addr @ '':'' @ show_nat (unat prt);
         deadline = SetupDeadline_start (he_clock_max H) now ''HTTP tunnel setup'' setup_timeout in
     case SetupDeadline_run deadline TcpConnect now
         (run_of id (\<lambda>e. IoError (''Failed to connect to '' @ target @ '': '' @ e)) (he_connect H target)) of
       (Inl e, _, _) \<Rightarrow> Inl e
     | (Inr tcp, _, now1) \<Rightarrow>
       (case SetupDeadline_run deadline ExaHandshake now1 (handshake_run H tcp) of
          (Inl e, _, _) \<Rightarrow> Inl e
        | (Inr (ip, internal_port), tcp', _) \<Rightarrow>
            let internal_addr = ip @ '':'' @ show_nat (unat internal_port) in
            if \<not> tls then Inr \<lparr>hc_stream = TunnelOpen tcp', hc_internal_addr = internal_addr, hc_tls_certificate = None\<rparr>
            else
              rbind (TlsCertificate_generate H) (\<lambda>cert.
              rbind (to_server_config H cert) (\<lambda>_.
              Inr \<lparr>hc_stream = TlsHandshakePending tcp' setup_timeout, hc_internal_addr = internal_addr,
                hc_tls_certificate = Some cert\<rparr>))))"

definition tunnel_connect :: "http_env \<Rightarrow> instant \<Rightarrow> string \<Rightarrow> u16 \<Rightarrow> bool \<Rightarrow> (TransportError, HttpTransportClient) result" where
  "tunnel_connect H now addr prt tls = connect_with_timeout H now addr prt tls TUNNEL_SETUP_TIMEOUT"

definition public_key_fingerprint :: "HttpTransportClient \<Rightarrow> string option" where
  "public_key_fingerprint c = map_option tc_fingerprint (hc_tls_certificate c)"

definition complete_handshake :: "http_env \<Rightarrow> io_stream \<Rightarrow> nat \<Rightarrow> (TransportError, io_stream) result" where
  "complete_handshake H io bound =
    fst (SetupDeadline_run (SetupDeadline_start (he_clock_max H) (he_accept_now H) ''HTTP tunnel setup'' bound) TlsHandshake
      (he_accept_now H) (run_of id (\<lambda>e. TlsError (''TLS handshake failed: '' @ e)) (he_accept H io)))"

text \<open>
  The open stream for the next operation. A pending TLS handshake is completed first; when it
  fails, the tunnel has been taken out of its place and stays closed.
\<close>

definition tunnel_open_stream :: "http_env \<Rightarrow> (HttpTransportClient, unit) action" where
  "tunnel_open_stream H c = (case hc_stream c of
      TlsHandshakePending io bound \<Rightarrow> (case complete_handshake H io bound of
          Inl e \<Rightarrow> (Ready (Inl e), c\<lparr>hc_stream := TunnelClosed\<rparr>)
        | Inr io' \<Rightarrow> (Ready (Inr ()), c\<lparr>hc_stream := TunnelOpen io'\<rparr>))
    | TunnelOpen _ \<Rightarrow> (Ready (Inr ()), c)
    | TunnelClosed \<Rightarrow> (Ready (fail (IoError ''HTTP tunnel is closed: its TLS handshake failed or never ran'')), c))"

text \<open>An operation on the open stream, beside a state \<open>'x\<close> of the caller.\<close>

definition on_open :: "http_env \<Rightarrow> (io_stream \<times> 'x, 'a) action \<Rightarrow> (HttpTransportClient \<times> 'x, 'a) action" where
  "on_open H m = abind (on_fst (tunnel_open_stream H)) (\<lambda>_ s. case hc_stream (fst s) of
      TunnelOpen io \<Rightarrow> (case m (io, snd s) of (p, (io', x)) \<Rightarrow> (p, ((fst s)\<lparr>hc_stream := TunnelOpen io'\<rparr>, x)))
    | _ \<Rightarrow> (Ready (Inl Panic), s))"

definition tunnel_write :: "http_env \<Rightarrow> byte list \<Rightarrow> (HttpTransportClient \<times> 'x, unit) action" where
  "tunnel_write H d = on_open H (on_fst (abind (or_io ''Failed to write data: '' (stream_write_all d)) (\<lambda>_.
    or_io ''Failed to flush data: '' stream_flush)))"

definition tunnel_shutdown :: "http_env \<Rightarrow> (HttpTransportClient, unit) action" where
  "tunnel_shutdown H c =
    (let ended = (\<lambda>r. case r of Inl e \<Rightarrow> fail (IoError (''Failed to shutdown connection: '' @ e)) | Inr _ \<Rightarrow> Inr ()) in
     case hc_stream c of
       TunnelOpen io \<Rightarrow> (Ready (ended (he_shutdown H io)),
         case he_shutdown H io of Inl _ \<Rightarrow> c | Inr io' \<Rightarrow> c\<lparr>hc_stream := TunnelOpen io'\<rparr>)
     | TlsHandshakePending io _ \<Rightarrow> (Ready (ended (he_shutdown H io)), c\<lparr>hc_stream := TunnelClosed\<rparr>)
     | TunnelClosed \<Rightarrow> (Ready (Inr ()), c))"

definition read_http_request :: "http_env \<Rightarrow> (HttpTransportClient \<times> 'x, HttpRequest) action" where
  "read_http_request H = on_open H (on_fst (parse_http_request (he_strings H)))"

definition read_chunked_body :: "http_env \<Rightarrow> (HttpTransportClient \<times> sink, unit) action" where
  "read_chunked_body H = on_open H forward_chunked_body"

definition write_http_response ::
  "http_env \<Rightarrow> u16 \<Rightarrow> string \<Rightarrow> (string \<times> string) list \<Rightarrow> byte list option \<Rightarrow> (HttpTransportClient \<times> 'x, unit) action" where
  "write_http_response H status_code status_text headers body =
    tunnel_write H (build_http_response status_code status_text headers body)"

definition write_chunked_response_headers :: "http_env \<Rightarrow> (HttpTransportClient \<times> 'x, unit) action" where
  "write_chunked_response_headers H = tunnel_write H build_chunked_response_headers"

definition write_chunked_body :: "http_env \<Rightarrow> byte list \<Rightarrow> (HttpTransportClient \<times> 'x, unit) action" where
  "write_chunked_body H d = (if d = [] then areturn () else tunnel_write H (encode_chunk d))"

definition write_final_chunk :: "http_env \<Rightarrow> (HttpTransportClient \<times> 'x, unit) action" where
  "write_final_chunk H = tunnel_write H (encode_chunk [])"

definition handle_import_request :: "http_env \<Rightarrow> (HttpTransportClient \<times> 'x, HttpRequest) action" where
  "handle_import_request H =
    abind (read_http_request H) (\<lambda>request.
    if rq_method request \<noteq> Get then
      athrow (ProtocolError (''Expected GET request for IMPORT, got '' @ show_method (rq_method request)))
    else abind (write_chunked_response_headers H) (\<lambda>_. areturn request))"

definition handle_parquet_import_requests :: "http_env \<Rightarrow> (HttpTransportClient \<times> byte_source, unit) action" where
  "handle_parquet_import_requests H = on_open H (serve_parquet_range_requests (he_strings H))"

definition export_body :: "http_env \<Rightarrow> HttpRequest \<Rightarrow> (HttpTransportClient \<times> sink, unit) action" where
  "export_body H request =
    (if is_chunked (he_strings H) request then read_chunked_body H
     else (case content_length request of
         Some n \<Rightarrow> on_open H (forward_sized_body n)
       | None \<Rightarrow> athrow (ProtocolError ''PUT request has no Content-Length or Transfer-Encoding'')))"

definition handle_export_request :: "http_env \<Rightarrow> (HttpTransportClient \<times> sink, HttpRequest) action" where
  "handle_export_request H =
    abind (read_http_request H) (\<lambda>request.
    if rq_method request \<noteq> Put then
      athrow (ProtocolError (''Expected PUT request for EXPORT, got '' @ show_method (rq_method request)))
    else
      abind (export_body H request) (\<lambda>_.
      abind (write_http_response H 200 ''OK'' [] None) (\<lambda>_. areturn request)))"

end
