(* ===== verification/Csv_Data.thy ===== *)
theory Csv_Data
  imports Http_Tunnel Bulk_Sql Schema_Inference
begin

text \<open>
  The data of bulk import and export: CSV rows in both directions (\<open>src/import/csv.rs\<close>,
  \<open>src/export/csv.rs\<close>), the CSV text of Arrow batches (\<open>src/import/arrow.rs\<close>) and the batches of
  CSV rows (\<open>src/export/arrow.rs\<close>), and the body of an import on the tunnel. A Rust \<open>char\<close> is its
  UTF-8 text, and the characters of a text are \<open>text_chars\<close>. The \<open>arrow\<close>, \<open>chrono\<close>, \<open>hex\<close> and
  compression crates and the text of a float are parameters.
\<close>

abbreviation lf :: string where "lf \<equiv> [CHR 0x0A]"
abbreviation cr :: string where "cr \<equiv> [CHR 0x0D]"

subsection \<open>Writing CSV\<close>

text \<open>A field that holds a separator, a delimiter or a line break is delimited, and its delimiters doubled.\<close>

definition needs_quoting :: "string \<Rightarrow> string \<Rightarrow> string \<Rightarrow> bool" where
  "needs_quoting separator delimiter v \<longleftrightarrow>
    separator \<in> set (text_chars v) \<or> delimiter \<in> set (text_chars v) \<or> lf \<in> set (text_chars v) \<or> cr \<in> set (text_chars v)"

definition escape_field :: "string \<Rightarrow> string \<Rightarrow> string \<Rightarrow> string" where
  "escape_field separator delimiter v =
    (if needs_quoting separator delimiter v
     then delimiter @ concat (map (\<lambda>c. if c = delimiter then delimiter @ c else c) (text_chars v)) @ delimiter
     else v)"

fun row_end :: "RowSeparator \<Rightarrow> string" where
  "row_end LF = lf"
| "row_end CR = cr"
| "row_end CRLF = cr @ lf"

definition format_csv_row :: "string list \<Rightarrow> string \<Rightarrow> string \<Rightarrow> RowSeparator \<Rightarrow> string" where
  "format_csv_row row separator delimiter row_separator =
    join separator (map (escape_field separator delimiter) row) @ row_end row_separator"

text \<open>The rows of an iterator as the data of an import (\<open>import_from_iter\<close>).\<close>

definition csv_text :: "string \<Rightarrow> string \<Rightarrow> RowSeparator \<Rightarrow> string list list \<Rightarrow> string" where
  "csv_text sep delim rs rows = concat (map (\<lambda>row. format_csv_row row sep delim rs) rows)"

subsection \<open>Reading CSV\<close>

text \<open>The errors of \<open>src/export/csv.rs\<close> that reading rows can have.\<close>

datatype CsvExportError =
    CsvIoError string
  | CsvTransportError TransportError
  | CsvHttpTransportError string
  | CsvSqlExecutionError string
  | CsvParseError nat string
  | CsvDecompressionError string
  | CsvChannelError string
  | CsvTimeout nat bool
  | CsvCancelled

text \<open>
  The characters of one row, from a state in the middle of it: a complete row with the
  characters after it, or the row, field and quote state in which the data ends.
\<close>

function scan_row ::
  "string \<Rightarrow> string \<Rightarrow> string list \<Rightarrow> string \<Rightarrow> bool \<Rightarrow> string list \<Rightarrow> (string list \<times> string \<times> bool) + (string list \<times> string list)" where
  "scan_row separator delimiter row field in_quotes [] = Inl (row, field, in_quotes)"
| "scan_row separator delimiter row field in_quotes (c # cs) =
    (if in_quotes then
       if c \<noteq> delimiter then scan_row separator delimiter row (field @ c) True cs
       else if cs \<noteq> [] \<and> hd cs = delimiter then scan_row separator delimiter row (field @ delimiter) True (tl cs)
       else scan_row separator delimiter row field False cs
     else if c = delimiter then scan_row separator delimiter row field True cs
     else if c = separator then scan_row separator delimiter (row @ [field]) [] False cs
     else if c = lf then Inr (row @ [field], cs)
     else if c = cr then
       if cs \<noteq> [] \<and> hd cs = lf then scan_row separator delimiter row field False cs
       else Inr (row @ [field], cs)
     else scan_row separator delimiter row (field @ c) False cs)"
  by pat_completeness auto
termination
  by (relation "measure (\<lambda>(_, _, _, _, _, cs). length cs)") auto

record CsvRows =
  cr_chars :: "string list"
  cr_separator :: string
  cr_delimiter :: string
  cr_rows_yielded :: nat

definition csv_rows :: "string \<Rightarrow> string \<Rightarrow> string \<Rightarrow> CsvRows" where
  "csv_rows d separator delimiter =
    \<lparr>cr_chars = text_chars d, cr_separator = separator, cr_delimiter = delimiter, cr_rows_yielded = 0\<rparr>"

definition CsvRows_next :: "CsvRows \<Rightarrow> (CsvExportError, string list) result option \<times> CsvRows" where
  "CsvRows_next it = (case scan_row (cr_separator it) (cr_delimiter it) [] [] False (cr_chars it) of
      Inr (row, rest) \<Rightarrow> (Some (Inr row), it\<lparr>cr_chars := rest, cr_rows_yielded := cr_rows_yielded it + 1\<rparr>)
    | Inl (row, field, in_quotes) \<Rightarrow>
        let it' = it\<lparr>cr_chars := []\<rparr> in
        if in_quotes then (Some (fail (CsvParseError (cr_rows_yielded it) ''Unclosed quote at end of data'')), it')
        else if cr_chars it = [] then (None, it')
        else (Some (Inr (row @ [field])), it'\<lparr>cr_rows_yielded := cr_rows_yielded it + 1\<rparr>))"

lemma scan_row_shorter: "scan_row sep delim row field q cs = Inr (row', rest) \<Longrightarrow> length rest < length cs"
  by (induction sep delim row field q cs rule: scan_row.induct) (auto split: if_splits)

text \<open>\<open>collect\<close> into a result: the rows up to the end or the first error.\<close>

function collect_rows :: "CsvRows \<Rightarrow> (CsvExportError, string list list) result" where
  "collect_rows it = (case CsvRows_next it of
      (None, _) \<Rightarrow> Inr []
    | (Some (Inl e), _) \<Rightarrow> Inl e
    | (Some (Inr row), it') \<Rightarrow> rbind (collect_rows it') (\<lambda>rows. Inr (row # rows)))"
  by pat_completeness auto
termination
  by (relation "measure (length \<circ> cr_chars)")
    (auto simp: CsvRows_next_def Let_def split: sum.splits prod.splits if_splits dest: scan_row_shorter)

declare collect_rows.simps [simp del]

definition parse_csv :: "string \<Rightarrow> string \<Rightarrow> string \<Rightarrow> (CsvExportError, string list list) result" where
  "parse_csv d separator delimiter = collect_rows (csv_rows d separator delimiter)"

text \<open>One line, whose line break is already removed: its fields and whether a quote is still open.\<close>

function scan_line :: "string \<Rightarrow> string \<Rightarrow> string list \<Rightarrow> string \<Rightarrow> bool \<Rightarrow> string list \<Rightarrow> string list \<times> bool" where
  "scan_line separator delimiter fs field in_quotes [] = (fs @ [field], in_quotes)"
| "scan_line separator delimiter fs field in_quotes (c # cs) =
    (if in_quotes then
       if c = delimiter then
         if cs \<noteq> [] \<and> hd cs = delimiter then scan_line separator delimiter fs (field @ delimiter) True (tl cs)
         else scan_line separator delimiter fs field False cs
       else scan_line separator delimiter fs (field @ c) True cs
     else if c = delimiter then scan_line separator delimiter fs field True cs
     else if c = separator then scan_line separator delimiter (fs @ [field]) [] False cs
     else scan_line separator delimiter fs (field @ c) False cs)"
  by pat_completeness auto
termination
  by (relation "measure (\<lambda>(_, _, _, _, _, cs). length cs)") auto

definition parse_csv_row :: "string \<Rightarrow> string \<Rightarrow> string \<Rightarrow> string list \<times> bool" where
  "parse_csv_row line separator delimiter = scan_line separator delimiter [] [] False (text_chars line)"

subsection \<open>CSV imports\<close>

record CsvImportOptions =
  ci_encoding :: string
  ci_column_separator :: string
  ci_column_delimiter :: string
  ci_row_separator :: RowSeparator
  ci_skip_rows :: u32
  ci_null_value :: "string option"
  ci_trim_mode :: TrimMode
  ci_compression :: Compression
  ci_reject_limit :: "u32 option"
  ci_use_tls :: bool
  ci_schema :: "string option"
  ci_columns :: "string list option"
  ci_host :: string
  ci_port :: u16

definition CsvImportOptions_default :: CsvImportOptions where
  "CsvImportOptions_default = \<lparr>ci_encoding = ''UTF-8'', ci_column_separator = '','', ci_column_delimiter = [CHR 0x22],
    ci_row_separator = LF, ci_skip_rows = 0, ci_null_value = None, ci_trim_mode = NoTrim, ci_compression = Uncompressed,
    ci_reject_limit = None, ci_use_tls = False, ci_schema = None, ci_columns = None, ci_host = [], ci_port = 0\<rparr>"

definition opt_set :: "('a \<Rightarrow> 'q \<Rightarrow> 'q) \<Rightarrow> 'a option \<Rightarrow> 'q \<Rightarrow> 'q" where
  "opt_set f v q = (case v of None \<Rightarrow> q | Some x \<Rightarrow> f x q)"

text \<open>The settings that the queries for one file and for several files share, in the order of the calls.\<close>

definition import_settings :: "CsvImportOptions \<Rightarrow> ImportQuery \<Rightarrow> ImportQuery" where
  "import_settings opts q =
    (let q = import_encoding (ci_encoding opts) q;
         q = import_column_separator (ci_column_separator opts) q;
         q = import_column_delimiter (ci_column_delimiter opts) q;
         q = import_row_separator (ci_row_separator opts) q;
         q = import_skip (ci_skip_rows opts) q;
         q = import_trim (ci_trim_mode opts) q;
         q = import_compressed (ci_compression opts) q;
         q = opt_set import_null_value (ci_null_value opts) q in
     opt_set import_reject_limit (ci_reject_limit opts) q)"

definition build_query :: "CsvImportOptions \<Rightarrow> string \<Rightarrow> string \<Rightarrow> string option \<Rightarrow> ImportQuery" where
  "build_query opts table address public_key =
    (let q = import_at_address address (ImportQuery_new table);
         q = opt_set import_schema (ci_schema opts) q;
         q = opt_set import_columns (ci_columns opts) q;
         q = opt_set import_with_public_key public_key q in
     import_settings opts q)"

definition build_multi_file_query :: "string \<Rightarrow> CsvImportOptions \<Rightarrow> ImportFileEntry list \<Rightarrow> ImportQuery" where
  "build_multi_file_query table opts entries =
    (let q = import_with_files entries (ImportQuery_new table);
         q = opt_set import_schema (ci_schema opts) q;
         q = opt_set import_columns (ci_columns opts) q in
     import_settings opts q)"

definition ends_with :: "string \<Rightarrow> string \<Rightarrow> bool" where
  "ends_with s p \<longleftrightarrow> strip_suffix p s \<noteq> None"

text \<open>A path is its bytes.\<close>

definition detect_compression :: "string_env \<Rightarrow> byte list \<Rightarrow> Compression \<Rightarrow> Compression" where
  "detect_compression S file_path explicit_compression =
    (if explicit_compression \<noteq> Uncompressed then explicit_compression
     else
       let path_str = to_lowercase S (text_of (from_utf8_lossy file_path)) in
       if ends_with path_str ''.gz'' \<or> ends_with path_str ''.gzip'' then Gzip
       else if ends_with path_str ''.bz2'' \<or> ends_with path_str ''.bzip2'' then Bzip2
       else Uncompressed)"

definition is_compressed_file :: "string_env \<Rightarrow> byte list \<Rightarrow> bool" where
  "is_compressed_file S file_path \<longleftrightarrow> detect_compression S file_path Uncompressed \<noteq> Uncompressed"

subsection \<open>The body of an import\<close>

text \<open>
  An encoder of the \<open>flate2\<close> or \<open>bzip2\<close> crate is its codec and the pieces it was given. What
  it hands out for the next piece and at the end are parameters.
\<close>

record encoder_env =
  en_write :: "Compression \<Rightarrow> byte list list \<Rightarrow> byte list \<Rightarrow> string + byte list"
  en_finish :: "Compression \<Rightarrow> byte list list \<Rightarrow> string + byte list"

record StreamEncoder =
  sc_codec :: Compression
  sc_pieces :: "byte list list"

definition StreamEncoder_new :: "Compression \<Rightarrow> StreamEncoder option" where
  "StreamEncoder_new compression =
    (if compression = Uncompressed then None else Some \<lparr>sc_codec = compression, sc_pieces = []\<rparr>)"

definition codec_name :: "Compression \<Rightarrow> string" where
  "codec_name c = (if c = Gzip then ''Gzip'' else ''Bzip2'')"

definition StreamEncoder_write :: "encoder_env \<Rightarrow> byte list \<Rightarrow> StreamEncoder \<Rightarrow> (ImportError, byte list \<times> StreamEncoder) result" where
  "StreamEncoder_write N piece e = (case en_write N (sc_codec e) (sc_pieces e) piece of
      Inl m \<Rightarrow> fail (ImportCompressionError (codec_name (sc_codec e) @ '' compression failed: '' @ m))
    | Inr ready \<Rightarrow> Inr (ready, e\<lparr>sc_pieces := sc_pieces e @ [piece]\<rparr>))"

definition StreamEncoder_finish :: "encoder_env \<Rightarrow> StreamEncoder \<Rightarrow> (ImportError, byte list) result" where
  "StreamEncoder_finish N e = (case en_finish N (sc_codec e) (sc_pieces e) of
      Inl m \<Rightarrow> fail (ImportCompressionError (codec_name (sc_codec e) @ '' finalization failed: '' @ m))
    | Inr rest \<Rightarrow> Inr rest)"

definition compress_data :: "encoder_env \<Rightarrow> byte list \<Rightarrow> Compression \<Rightarrow> (ImportError, byte list) result" where
  "compress_data N d compression = (case StreamEncoder_new compression of
      None \<Rightarrow> Inr d
    | Some encoder \<Rightarrow>
        rbind (StreamEncoder_write N d encoder) (\<lambda>(compressed, encoder).
        rbind (StreamEncoder_finish N encoder) (\<lambda>rest. Inr (compressed @ rest))))"

definition DEFAULT_BUFFER_SIZE :: nat where "DEFAULT_BUFFER_SIZE = 65536"

text \<open>\<open>slice::chunks\<close> of a positive size.\<close>

function chunks :: "nat \<Rightarrow> 'a list \<Rightarrow> 'a list list" where
  "chunks n xs = (if xs = [] \<or> n = 0 then [] else take n xs # chunks n (drop n xs))"
  by pat_completeness auto
termination by (relation "measure (length \<circ> snd)") auto

declare chunks.simps [simp del]

definition or_import :: "('s, 'a) action \<Rightarrow> (ImportError, 's, 'a) task" where
  "or_import = amap_err ImportTransportError"

primrec write_body_chunks :: "http_env \<Rightarrow> byte list list \<Rightarrow> (ImportError, HttpTransportClient \<times> 'x, unit) task" where
  "write_body_chunks H [] = areturn ()"
| "write_body_chunks H (chunk # rest) =
    abind (or_import (write_chunked_body H chunk)) (\<lambda>_. write_body_chunks H rest)"

definition write_chunked_data :: "http_env \<Rightarrow> byte list \<Rightarrow> (ImportError, HttpTransportClient \<times> 'x, unit) task" where
  "write_chunked_data H d =
    abind (write_body_chunks H (chunks DEFAULT_BUFFER_SIZE d)) (\<lambda>_. or_import (write_final_chunk H))"

definition await_import_request :: "http_env \<Rightarrow> (ImportError, HttpTransportClient \<times> 'x, unit) task" where
  "await_import_request H =
    abind (amap_err (\<lambda>e. ImportHttpTransportError (''Failed to handle import request: '' @ show_transport_error e))
      (handle_import_request H)) (\<lambda>_. areturn ())"

definition send_import_response :: "http_env \<Rightarrow> byte list \<Rightarrow> (ImportError, HttpTransportClient \<times> 'x, unit) task" where
  "send_import_response H d = abind (await_import_request H) (\<lambda>_. write_chunked_data H d)"

text \<open>
  A reader is what its reads yield before the end of the file: a piece of data, at most the
  buffer long and not empty, or an error.
\<close>

type_synonym file_reads = "(string + byte list) list"

fun read_to_end :: "file_reads \<Rightarrow> (ImportError, byte list) result" where
  "read_to_end [] = Inr []"
| "read_to_end (Inl e # _) = fail (ImportIoError e)"
| "read_to_end (Inr d # rs) = rbind (read_to_end rs) (\<lambda>ds. Inr (d @ ds))"

definition stream_reader_to_connection ::
  "http_env \<Rightarrow> encoder_env \<Rightarrow> file_reads \<Rightarrow> Compression \<Rightarrow> (ImportError, HttpTransportClient \<times> 'x, unit) task" where
  "stream_reader_to_connection H N reader compression =
    abind (await_import_request H) (\<lambda>_.
    abind (alift (read_to_end reader)) (\<lambda>d.
    abind (alift (compress_data N d compression)) (\<lambda>compressed_data.
      write_chunked_data H compressed_data)))"

definition write_body_piece :: "http_env \<Rightarrow> byte list \<Rightarrow> (ImportError, HttpTransportClient \<times> 'x, unit) task" where
  "write_body_piece H body = (if body = [] then areturn () else or_import (write_chunked_body H body))"

definition encode_piece :: "encoder_env \<Rightarrow> StreamEncoder option \<Rightarrow> byte list \<Rightarrow> (ImportError, byte list \<times> StreamEncoder option) result" where
  "encode_piece N encoder piece = (case encoder of
      Some e \<Rightarrow> rbind (StreamEncoder_write N piece e) (\<lambda>(body, e'). Inr (body, Some e'))
    | None \<Rightarrow> Inr (piece, None))"

primrec stream_reads ::
  "http_env \<Rightarrow> encoder_env \<Rightarrow> file_reads \<Rightarrow> StreamEncoder option \<Rightarrow> (ImportError, HttpTransportClient \<times> 'x, StreamEncoder option) task" where
  "stream_reads H N [] encoder = areturn encoder"
| "stream_reads H N (r # rs) encoder = (case r of
      Inl e \<Rightarrow> athrow (ImportIoError e)
    | Inr piece \<Rightarrow>
        abind (alift (encode_piece N encoder piece)) (\<lambda>(body, encoder').
        abind (write_body_piece H body) (\<lambda>_. stream_reads H N rs encoder')))"

definition stream_file_to_connection ::
  "http_env \<Rightarrow> encoder_env \<Rightarrow> file_reads \<Rightarrow> Compression \<Rightarrow> (ImportError, HttpTransportClient \<times> 'x, unit) task" where
  "stream_file_to_connection H N reader compression =
    abind (await_import_request H) (\<lambda>_.
    abind (stream_reads H N reader (StreamEncoder_new compression)) (\<lambda>encoder.
    abind (case encoder of
        Some e \<Rightarrow> abind (alift (StreamEncoder_finish N e)) (write_body_piece H)
      | None \<Rightarrow> areturn ()) (\<lambda>_.
      or_import (write_final_chunk H))))"

subsection \<open>CSV exports\<close>

record CsvExportOptions =
  cx_column_separator :: string
  cx_column_delimiter :: string
  cx_row_separator :: RowSeparator
  cx_encoding :: string
  cx_null_value :: "string option"
  cx_compression :: Compression
  cx_with_column_names :: bool
  cx_use_tls :: bool
  cx_timeout_ms :: "u64 option"
  cx_host :: string
  cx_port :: u16

definition CsvExportOptions_default :: CsvExportOptions where
  "CsvExportOptions_default = \<lparr>cx_column_separator = '','', cx_column_delimiter = [CHR 0x22], cx_row_separator = LF,
    cx_encoding = ''UTF-8'', cx_null_value = None, cx_compression = Uncompressed, cx_with_column_names = False,
    cx_use_tls = False, cx_timeout_ms = None, cx_host = [], cx_port = 0\<rparr>"

definition shared_csv_export_options :: "string \<Rightarrow> string \<Rightarrow> string \<Rightarrow> u16 \<Rightarrow> bool \<Rightarrow> CsvExportOptions" where
  "shared_csv_export_options separator delimiter hst prt tls = CsvExportOptions_default\<lparr>cx_column_separator := separator,
    cx_column_delimiter := delimiter, cx_with_column_names := False, cx_host := hst, cx_port := prt, cx_use_tls := tls\<rparr>"

text \<open>The EXPORT statement of \<open>export_to_callback\<close>.\<close>

definition export_query :: "ExportSource \<Rightarrow> CsvExportOptions \<Rightarrow> string \<Rightarrow> string option \<Rightarrow> ExportQuery" where
  "export_query source opts internal_addr fingerprint =
    (let q = (case source of
           TableSource schema name columns \<Rightarrow>
             let q = opt_set export_schema schema (from_table name) in
             if columns = [] then q else export_columns columns q
         | QuerySource sql \<Rightarrow> from_query sql);
         q = export_at_address internal_addr q;
         q = export_column_separator (cx_column_separator opts) q;
         q = export_column_delimiter (cx_column_delimiter opts) q;
         q = export_row_separator (cx_row_separator opts) q;
         q = export_encoding (cx_encoding opts) q;
         q = export_with_column_names (cx_with_column_names opts) q;
         q = export_compressed (cx_compression opts) q;
         q = opt_set export_null_value (cx_null_value opts) q in
     opt_set export_with_public_key fingerprint q)"

definition count_line_feeds :: "byte list \<Rightarrow> nat" where
  "count_line_feeds d = length (filter (\<lambda>b. b = 0x0A) d)"

subsection \<open>Decoding the pieces of an export\<close>

record FeedState =
  fd_data :: "byte list"
  fd_position :: nat
  fd_ended :: bool

datatype read_outcome = ReadOk "byte list" | WouldBlock | UnexpectedEof string | ReadFails string

definition PieceFeed_read :: "nat \<Rightarrow> FeedState \<Rightarrow> read_outcome \<times> FeedState" where
  "PieceFeed_read n f =
    (let len = min n (length (fd_data f) - fd_position f) in
     if len = 0 then (if fd_ended f \<or> n = 0 then ReadOk [] else WouldBlock, f)
     else (ReadOk (take len (drop (fd_position f) (fd_data f))), f\<lparr>fd_position := fd_position f + len\<rparr>))"

text \<open>
  The decoders of the \<open>flate2\<close> and \<open>bzip2\<close> crates read from the feed and keep a state \<open>'g\<close>; they are
  a parameter, as is a bound of the blocks that one feed gives.
\<close>

record 'g decoder_env =
  de_new :: "Compression \<Rightarrow> 'g"
  de_read :: "Compression \<Rightarrow> nat \<Rightarrow> 'g \<times> FeedState \<Rightarrow> read_outcome \<times> 'g \<times> FeedState"
  de_max_blocks :: "FeedState \<Rightarrow> nat"

record 'g PieceDecoder =
  pd_feed :: FeedState
  pd_state :: 'g
  pd_compression :: Compression

definition codec_of :: "Compression \<Rightarrow> string" where
  "codec_of c = (case c of Uncompressed \<Rightarrow> ''plain'' | Gzip \<Rightarrow> ''gzip'' | Bzip2 \<Rightarrow> ''bzip2'')"

definition PieceDecoder_new :: "'g decoder_env \<Rightarrow> Compression \<Rightarrow> 'g PieceDecoder" where
  "PieceDecoder_new D compression =
    \<lparr>pd_feed = \<lparr>fd_data = [], fd_position = 0, fd_ended = False\<rparr>, pd_state = de_new D compression, pd_compression = compression\<rparr>"

definition PieceDecoder_push :: "byte list \<Rightarrow> 'g PieceDecoder \<Rightarrow> 'g PieceDecoder" where
  "PieceDecoder_push piece p =
    (let f = pd_feed p in
     if fd_position f = length (fd_data f) then p\<lparr>pd_feed := f\<lparr>fd_data := piece, fd_position := 0\<rparr>\<rparr>
     else p\<lparr>pd_feed := f\<lparr>fd_data := fd_data f @ piece\<rparr>\<rparr>)"

definition PieceDecoder_end :: "'g PieceDecoder \<Rightarrow> 'g PieceDecoder" where
  "PieceDecoder_end p = p\<lparr>pd_feed := (pd_feed p)\<lparr>fd_ended := True\<rparr>\<rparr>"

definition DECODED_BLOCK_MAX_BYTES :: nat where "DECODED_BLOCK_MAX_BYTES = 65536"

definition decoder_read :: "'g decoder_env \<Rightarrow> nat \<Rightarrow> 'g PieceDecoder \<Rightarrow> read_outcome \<times> 'g PieceDecoder" where
  "decoder_read D n p =
    (if pd_compression p = Uncompressed then
       (case PieceFeed_read n (pd_feed p) of (r, f) \<Rightarrow> (r, p\<lparr>pd_feed := f\<rparr>))
     else (case de_read D (pd_compression p) n (pd_state p, pd_feed p) of (r, g, f) \<Rightarrow> (r, p\<lparr>pd_state := g, pd_feed := f\<rparr>)))"

definition next_block :: "'g decoder_env \<Rightarrow> 'g PieceDecoder \<Rightarrow> (CsvExportError, byte list option) result \<times> 'g PieceDecoder" where
  "next_block D p = (case decoder_read D DECODED_BLOCK_MAX_BYTES p of (r, p') \<Rightarrow>
    (case r of
       ReadOk d \<Rightarrow> Inr (if d = [] then None else Some d)
     | WouldBlock \<Rightarrow> Inr None
     | UnexpectedEof e \<Rightarrow> fail (CsvDecompressionError (''The '' @ codec_of (pd_compression p) @
         '' stream of the export body ended before it was complete: '' @ e))
     | ReadFails e \<Rightarrow> fail (CsvDecompressionError (''Failed to decode the '' @ codec_of (pd_compression p) @ '' export body: '' @ e)),
     p'))"

text \<open>Blocks go to a writer with the state \<open>'s\<close>.\<close>

definition or_csv_io :: "(string, 's, 'a) task \<Rightarrow> (CsvExportError, 's \<times> 'p, 'a) task" where
  "or_csv_io m = on_fst (amap_err CsvIoError m)"

primrec write_blocks_loop ::
  "'g decoder_env \<Rightarrow> (byte list \<Rightarrow> (string, 's, unit) task) \<Rightarrow> nat \<Rightarrow> nat \<Rightarrow> (CsvExportError, 's \<times> 'g PieceDecoder, nat) task" where
  "write_blocks_loop D w 0 line_feeds = alift (Inl Diverged)"
| "write_blocks_loop D w (Suc n) line_feeds =
    abind (\<lambda>s. case next_block D (snd s) of (r, p) \<Rightarrow> (Ready r, (fst s, p))) (\<lambda>block. case block of
        None \<Rightarrow> areturn line_feeds
      | Some d \<Rightarrow> abind (or_csv_io (w d)) (\<lambda>_. write_blocks_loop D w n (line_feeds + count_line_feeds d)))"

definition write_blocks ::
  "'g decoder_env \<Rightarrow> (byte list \<Rightarrow> (string, 's, unit) task) \<Rightarrow> (CsvExportError, 's \<times> 'g PieceDecoder, nat) task" where
  "write_blocks D w s =
    write_blocks_loop D w (if pd_compression (snd s) = Uncompressed then Suc (length (fd_data (pd_feed (snd s))))
      else de_max_blocks D (pd_feed (snd s))) 0 s"

primrec write_pieces ::
  "'g decoder_env \<Rightarrow> (byte list \<Rightarrow> (string, 's, unit) task) \<Rightarrow> byte list list \<Rightarrow> nat \<Rightarrow> (CsvExportError, 's \<times> 'g PieceDecoder, nat) task" where
  "write_pieces D w [] line_feeds = areturn line_feeds"
| "write_pieces D w (piece # ps) line_feeds =
    abind (amodify (\<lambda>s. (fst s, PieceDecoder_push piece (snd s)))) (\<lambda>_.
    abind (write_blocks D w) (\<lambda>n. write_pieces D w ps (line_feeds + n)))"

text \<open>The pieces are what the receiver yields until the channel is closed.\<close>

definition write_decoded ::
  "'g decoder_env \<Rightarrow> (byte list \<Rightarrow> (string, 's, unit) task) \<Rightarrow> (string, 's, unit) task \<Rightarrow> byte list list \<Rightarrow> Compression \<Rightarrow> (CsvExportError, 's, nat) task" where
  "write_decoded D w fl receiver compression s =
    (case (abind (write_pieces D w receiver 0) (\<lambda>line_feeds.
      abind (amodify (\<lambda>s. (fst s, PieceDecoder_end (snd s)))) (\<lambda>_.
      abind (write_blocks D w) (\<lambda>n.
      abind (or_csv_io fl) (\<lambda>_. areturn (line_feeds + n)))))) (s, PieceDecoder_new D compression) of
        (r, s') \<Rightarrow> (r, fst s'))"

text \<open>The rows of the data of an export (\<open>export_to_list\<close>), once it is decoded.\<close>

definition export_rows :: "byte list \<Rightarrow> string \<Rightarrow> string \<Rightarrow> (CsvExportError, string list list) result" where
  "export_rows d separator delimiter =
    (if utf8_valid d then parse_csv (text_of d) separator delimiter
     else fail (CsvParseError 0 (''Invalid UTF-8: '' @ utf8_error_text d)))"

end
