(* ===== verification/Arrow_Csv.thy ===== *)
theory Arrow_Csv
  imports Csv_Data
begin

text \<open>
  Arrow batches as CSV text for an import (\<open>src/import/arrow.rs\<close>), and CSV rows of an export as
  Arrow batches (\<open>src/export/arrow.rs\<close>). An array is its type with its optional values; a dictionary
  array has optional keys into an array of values. \<open>RecordBatch::try_new\<close>, the check of a decimal
  type, \<open>chrono\<close> and the texts of floats and of data types are parameters.
\<close>

subsection \<open>Arrays and batches\<close>

datatype source_value =
    VBool bool
  | VInt int
  | VFloat32 u32
  | VFloat64 u64
  | VText string
  | VBytes "byte list"
  | VDayTime int int
  | VMonthDayNano IntervalMonthDayNano

datatype SourceArray =
    PlainArray SourceType "source_value option list"
  | DictionaryArray SourceType "nat option list" SourceArray

fun array_type :: "SourceArray \<Rightarrow> SourceType" where
  "array_type (PlainArray t _) = t"
| "array_type (DictionaryArray k _ values) = SDictionary k (array_type values)"

record SourceBatch =
  sb_fields :: "SourceField list"
  sb_columns :: "SourceArray list"
  sb_num_rows :: nat

record ('d, 't) csv_env =
  ce_chrono :: "('d, 't) chrono"
  ce_overflow :: bool
  ce_strings :: string_env
  ce_show_type :: "SourceType \<Rightarrow> string"
  ce_widen :: "u32 \<Rightarrow> u64"
  ce_float_text :: "u64 \<Rightarrow> string"
  ce_parse_float :: "string \<Rightarrow> string + u64"
  ce_try_new :: "SourceField list \<Rightarrow> SourceArray list \<Rightarrow> string + SourceBatch"
  ce_decimal_type :: "nat \<Rightarrow> int \<Rightarrow> string option"

subsection \<open>Values as CSV fields\<close>

record CsvWriterOptions =
  cw_column_separator :: string
  cw_column_delimiter :: string
  cw_row_separator :: string
  cw_null_value :: string
  cw_write_header :: bool
  cw_date_format :: string
  cw_timestamp_format :: string

definition CsvWriterOptions_default :: CsvWriterOptions where
  "CsvWriterOptions_default = \<lparr>cw_column_separator = '','', cw_column_delimiter = [CHR 0x22], cw_row_separator = lf,
    cw_null_value = [], cw_write_header = False, cw_date_format = ''%Y-%m-%d'', cw_timestamp_format = ''%Y-%m-%d %H:%M:%S%.6f''\<rparr>"

definition escape_string :: "CsvWriterOptions \<Rightarrow> string \<Rightarrow> string" where
  "escape_string opts s = escape_field (cw_column_separator opts) (cw_column_delimiter opts) s"

definition f64_exponent_set :: "u64 \<Rightarrow> bool" where
  "f64_exponent_set f \<longleftrightarrow> unat f div 2 ^ 52 mod 2 ^ 11 = 2047"

definition f64_infinite :: "u64 \<Rightarrow> bool" where
  "f64_infinite f \<longleftrightarrow> f64_exponent_set f \<and> unat f mod 2 ^ 52 = 0"

definition f64_nan :: "u64 \<Rightarrow> bool" where
  "f64_nan f \<longleftrightarrow> f64_exponent_set f \<and> unat f mod 2 ^ 52 \<noteq> 0"

definition format_float :: "('d, 't) csv_env \<Rightarrow> u64 \<Rightarrow> string" where
  "format_float E val =
    (if f64_nan val then ''NaN''
     else if f64_infinite val then (if unat val < 2 ^ 63 then ''Infinity'' else ''-Infinity'')
     else ce_float_text E val)"

definition format_decimal_text :: "string \<Rightarrow> int \<Rightarrow> string" where
  "format_decimal_text unscaled scale =
    (if scale \<le> 0 then unscaled @ replicate (nat (- scale)) (CHR ''0'')
     else
       let (sign, digits) = (case strip_prefix ''-'' unscaled of Some d \<Rightarrow> (''-'', d) | None \<Rightarrow> ([], unscaled));
           scale = nat scale;
           digits = pad_zero (scale + 1) digits in
       sign @ take (length digits - scale) digits @ ''.'' @ drop (length digits - scale) digits)"

text \<open>Which function formats the values of a type.\<close>

datatype ValueFormatter =
    FormatBoolean | FormatInteger | FormatFloat | FormatString | FormatDictionary
  | FormatDate32 | FormatDate64 | FormatTimestamp TimeUnit | FormatDecimal int | FormatBinary
  | FormatYearMonth | FormatDayTime | FormatMonthDayNano

definition UNSUPPORTED_TYPE :: string where
  "UNSUPPORTED_TYPE = ''Unsupported Arrow type for CSV conversion''"

definition unsupported_type :: "('d, 't) csv_env \<Rightarrow> SourceType \<Rightarrow> ImportError" where
  "unsupported_type E t = ImportConversionError (UNSUPPORTED_TYPE @ '': '' @ ce_show_type E t)"

definition dictionary_formatter :: "SourceType \<Rightarrow> ValueFormatter option" where
  "dictionary_formatter key_type =
    (if key_type \<in> {SInt8, SInt16, SInt32, SInt64, SUInt8, SUInt16, SUInt32, SUInt64} then Some FormatDictionary else None)"

fun resolve_value_formatter :: "('d, 't) csv_env \<Rightarrow> SourceType \<Rightarrow> (ImportError, ValueFormatter) result" where
  "resolve_value_formatter E SBoolean = Inr FormatBoolean"
| "resolve_value_formatter E SInt8 = Inr FormatInteger"
| "resolve_value_formatter E SInt16 = Inr FormatInteger"
| "resolve_value_formatter E SInt32 = Inr FormatInteger"
| "resolve_value_formatter E SInt64 = Inr FormatInteger"
| "resolve_value_formatter E SUInt8 = Inr FormatInteger"
| "resolve_value_formatter E SUInt16 = Inr FormatInteger"
| "resolve_value_formatter E SUInt32 = Inr FormatInteger"
| "resolve_value_formatter E SUInt64 = Inr FormatInteger"
| "resolve_value_formatter E SFloat32 = Inr FormatFloat"
| "resolve_value_formatter E SFloat64 = Inr FormatFloat"
| "resolve_value_formatter E SUtf8 = Inr FormatString"
| "resolve_value_formatter E SLargeUtf8 = Inr FormatString"
| "resolve_value_formatter E SUtf8View = Inr FormatString"
| "resolve_value_formatter E (SDictionary key_type value_type) =
    (if value_type \<in> {SUtf8, SLargeUtf8} then
       (case dictionary_formatter key_type of
          Some f \<Rightarrow> Inr f | None \<Rightarrow> fail (unsupported_type E (SDictionary key_type value_type)))
     else fail (unsupported_type E (SDictionary key_type value_type)))"
| "resolve_value_formatter E SDate32 = Inr FormatDate32"
| "resolve_value_formatter E SDate64 = Inr FormatDate64"
| "resolve_value_formatter E (STimestamp u z) = Inr (FormatTimestamp u)"
| "resolve_value_formatter E (SDecimal128 p s) = Inr (FormatDecimal s)"
| "resolve_value_formatter E (SDecimal256 p s) = Inr (FormatDecimal s)"
| "resolve_value_formatter E SBinary = Inr FormatBinary"
| "resolve_value_formatter E SLargeBinary = Inr FormatBinary"
| "resolve_value_formatter E SBinaryView = Inr FormatBinary"
| "resolve_value_formatter E (SFixedSizeBinary n) = Inr FormatBinary"
| "resolve_value_formatter E (SInterval u) = Inr (case u of
      YearMonth \<Rightarrow> FormatYearMonth | DayTime \<Rightarrow> FormatDayTime | MonthDayNano \<Rightarrow> FormatMonthDayNano)"
| "resolve_value_formatter E (SOther n) = fail (unsupported_type E (SOther n))"

primrec check_fields :: "('d, 't) csv_env \<Rightarrow> SourceField list \<Rightarrow> (ImportError, unit) result" where
  "check_fields E [] = Inr ()"
| "check_fields E (f # fs) = (case resolve_value_formatter E (sf_type f) of
      Inl (Failure _) \<Rightarrow> fail (ImportConversionError (''Column '' @ quoted (sf_name f) @ '': '' @ UNSUPPORTED_TYPE @ '': '' @ ce_show_type E (sf_type f)))
    | Inl other \<Rightarrow> Inl other
    | Inr _ \<Rightarrow> check_fields E fs)"

definition check_schema_converts :: "('d, 't) csv_env \<Rightarrow> SourceField list \<Rightarrow> (ImportError, unit) result" where
  "check_schema_converts E schema = check_fields E schema"

definition or_conversion :: "(string, 'a) result \<Rightarrow> (ImportError, 'a) result" where
  "or_conversion = map_err ImportConversionError"

text \<open>The formatters, on a value of their array; an array whose values are not of its type is a failed downcast.\<close>

definition format_boolean :: "source_value \<Rightarrow> (ImportError, string) result" where
  "format_boolean v = (case v of VBool b \<Rightarrow> Inr (if b then ''true'' else ''false'') | _ \<Rightarrow> Inl Panic)"

definition format_integer :: "source_value \<Rightarrow> (ImportError, string) result" where
  "format_integer v = (case v of VInt i \<Rightarrow> Inr (show_int i) | _ \<Rightarrow> Inl Panic)"

definition format_float_value :: "('d, 't) csv_env \<Rightarrow> source_value \<Rightarrow> (ImportError, string) result" where
  "format_float_value E v = (case v of VFloat32 f \<Rightarrow> Inr (format_float E (ce_widen E f)) | VFloat64 f \<Rightarrow> Inr (format_float E f) | _ \<Rightarrow> Inl Panic)"

definition format_string :: "CsvWriterOptions \<Rightarrow> source_value \<Rightarrow> (ImportError, string) result" where
  "format_string opts v = (case v of VText s \<Rightarrow> Inr (escape_string opts s) | _ \<Rightarrow> Inl Panic)"

definition format_binary :: "source_value \<Rightarrow> (ImportError, string) result" where
  "format_binary v = (case v of VBytes bs \<Rightarrow> Inr (hex_encode bs) | _ \<Rightarrow> Inl Panic)"

definition format_date32_value :: "('d, 't) csv_env \<Rightarrow> source_value \<Rightarrow> (ImportError, string) result" where
  "format_date32_value E v = (case v of VInt days \<Rightarrow> or_conversion (format_date32 (ce_chrono E) days) | _ \<Rightarrow> Inl Panic)"

definition format_date64_value :: "('d, 't) csv_env \<Rightarrow> source_value \<Rightarrow> (ImportError, string) result" where
  "format_date64_value E v = (case v of VInt millis \<Rightarrow> or_conversion (format_date64 (ce_chrono E) millis) | _ \<Rightarrow> Inl Panic)"

definition format_year_month_value :: "source_value \<Rightarrow> (ImportError, string) result" where
  "format_year_month_value v = (case v of VInt months \<Rightarrow> Inr (format_interval_year_to_month months) | _ \<Rightarrow> Inl Panic)"

definition format_day_time_value :: "source_value \<Rightarrow> (ImportError, string) result" where
  "format_day_time_value v = (case v of VDayTime days millis \<Rightarrow> or_conversion (format_interval_day_to_second days millis) | _ \<Rightarrow> Inl Panic)"

definition format_month_day_nano_value :: "source_value \<Rightarrow> (ImportError, string) result" where
  "format_month_day_nano_value v = (case v of VMonthDayNano x \<Rightarrow> or_conversion (format_interval_month_day_nano x) | _ \<Rightarrow> Inl Panic)"

definition format_timestamp_value :: "('d, 't) csv_env \<Rightarrow> TimeUnit \<Rightarrow> source_value \<Rightarrow> (ImportError, string) result" where
  "format_timestamp_value E u v = (case v of VInt x \<Rightarrow> or_conversion (format_timestamp (ce_chrono E) u x) | _ \<Rightarrow> Inl Panic)"

definition format_decimal128_value :: "int \<Rightarrow> source_value \<Rightarrow> (ImportError, string) result" where
  "format_decimal128_value scale v = (case v of VInt x \<Rightarrow> Inr (format_decimal_text (show_int x) scale) | _ \<Rightarrow> Inl Panic)"

definition run_formatter :: "('d, 't) csv_env \<Rightarrow> CsvWriterOptions \<Rightarrow> ValueFormatter \<Rightarrow> source_value \<Rightarrow> (ImportError, string) result" where
  "run_formatter E opts f = (case f of
      FormatBoolean \<Rightarrow> format_boolean
    | FormatInteger \<Rightarrow> format_integer
    | FormatFloat \<Rightarrow> format_float_value E
    | FormatString \<Rightarrow> format_string opts
    | FormatDate32 \<Rightarrow> format_date32_value E
    | FormatDate64 \<Rightarrow> format_date64_value E
    | FormatTimestamp u \<Rightarrow> format_timestamp_value E u
    | FormatDecimal scale \<Rightarrow> format_decimal128_value scale
    | FormatBinary \<Rightarrow> format_binary
    | FormatYearMonth \<Rightarrow> format_year_month_value
    | FormatDayTime \<Rightarrow> format_day_time_value
    | FormatMonthDayNano \<Rightarrow> format_month_day_nano_value
    | FormatDictionary \<Rightarrow> (\<lambda>_. Inl Panic))"

primrec format_value :: "('d, 't) csv_env \<Rightarrow> CsvWriterOptions \<Rightarrow> SourceArray \<Rightarrow> nat \<Rightarrow> (ImportError, string) result" where
  "format_value E opts (PlainArray t vs) row_idx =
    rbind (resolve_value_formatter E t) (\<lambda>f.
      if length vs \<le> row_idx then Inl Panic
      else (case vs ! row_idx of None \<Rightarrow> Inr (cw_null_value opts) | Some v \<Rightarrow> run_formatter E opts f v))"
| "format_value E opts (DictionaryArray k keys values) row_idx =
    rbind (resolve_value_formatter E (SDictionary k (array_type values))) (\<lambda>f.
      if length keys \<le> row_idx then Inl Panic
      else (case keys ! row_idx of None \<Rightarrow> Inr (cw_null_value opts) | Some key \<Rightarrow> format_value E opts values key))"

definition format_row :: "('d, 't) csv_env \<Rightarrow> CsvWriterOptions \<Rightarrow> SourceBatch \<Rightarrow> nat \<Rightarrow> (ImportError, string) result" where
  "format_row E opts batch row_idx =
    rbind (rmap (\<lambda>column. format_value E opts column row_idx) (sb_columns batch)) (\<lambda>fs.
      Inr (join (cw_column_separator opts) fs @ cw_row_separator opts))"

definition format_header :: "CsvWriterOptions \<Rightarrow> SourceBatch \<Rightarrow> string" where
  "format_header opts batch =
    join (cw_column_separator opts) (map (\<lambda>f. escape_string opts (sf_name f)) (sb_fields batch)) @ cw_row_separator opts"

subsection \<open>The writer\<close>

text \<open>
  Both writers (\<open>ArrowToCsvWriter\<close> and \<open>SyncArrowToCsvWriter\<close>) write through \<open>w\<close>, on a state that
  the number of written rows goes along with.
\<close>

definition or_csv_write :: "(string, 's, 'a) task \<Rightarrow> (ImportError, 's \<times> nat, 'a) task" where
  "or_csv_write m = on_fst (amap_err ImportCsvWriteError m)"

primrec write_rows ::
  "('d, 't) csv_env \<Rightarrow> (byte list \<Rightarrow> (string, 's, unit) task) \<Rightarrow> CsvWriterOptions \<Rightarrow> SourceBatch \<Rightarrow> nat list \<Rightarrow> nat \<Rightarrow> (ImportError, 's \<times> nat, nat) task" where
  "write_rows E w opts batch [] written = areturn written"
| "write_rows E w opts batch (i # is) written =
    abind (alift (format_row E opts batch i)) (\<lambda>row_str.
    abind (or_csv_write (w (as_bytes row_str))) (\<lambda>_.
      write_rows E w opts batch is (written + length row_str)))"

definition write_batch ::
  "('d, 't) csv_env \<Rightarrow> (byte list \<Rightarrow> (string, 's, unit) task) \<Rightarrow> CsvWriterOptions \<Rightarrow> SourceBatch \<Rightarrow> (ImportError, 's \<times> nat, nat) task" where
  "write_batch E w opts batch =
    abind (alift (check_schema_converts E (sb_fields batch))) (\<lambda>_.
    abind (areads (\<lambda>s. Inr (snd s))) (\<lambda>rows_written.
    abind (if cw_write_header opts \<and> rows_written = 0 then
        let header = format_header opts batch in
        abind (or_csv_write (w (as_bytes header))) (\<lambda>_. areturn (length header))
      else areturn 0) (\<lambda>header_bytes.
    abind (write_rows E w opts batch [0..<sb_num_rows batch] header_bytes) (\<lambda>bytes_written.
    abind (amodify (\<lambda>s. (fst s, snd s + sb_num_rows batch))) (\<lambda>_.
      areturn bytes_written)))))"

definition finish_writer :: "(string, 's, unit) task \<Rightarrow> (ImportError, 's \<times> nat, nat) task" where
  "finish_writer fl = abind (or_csv_write fl) (\<lambda>_. areads (\<lambda>s. Inr (snd s)))"

text \<open>Writing to a \<open>Vec\<close> always succeeds.\<close>

definition vec_write :: "byte list \<Rightarrow> (string, byte list, unit) task" where
  "vec_write d buf = (Ready (Inr ()), buf @ d)"

definition vec_flush :: "(string, byte list, unit) task" where
  "vec_flush buf = (Ready (Inr ()), buf)"

definition run_vec :: "(ImportError, byte list \<times> nat, 'a) task \<Rightarrow> (ImportError, byte list) result" where
  "run_vec m = (case m ([], 0) of
      (Ready (Inr _), s) \<Rightarrow> Inr (fst s)
    | (Ready (Inl e), _) \<Rightarrow> Inl e
    | (Pending, _) \<Rightarrow> Inl Diverged)"

definition record_batch_to_csv :: "('d, 't) csv_env \<Rightarrow> SourceBatch \<Rightarrow> CsvWriterOptions \<Rightarrow> (ImportError, byte list) result" where
  "record_batch_to_csv E batch opts =
    run_vec (abind (write_batch E vec_write opts batch) (\<lambda>_. finish_writer vec_flush))"

primrec write_batches ::
  "('d, 't) csv_env \<Rightarrow> (byte list \<Rightarrow> (string, 's, unit) task) \<Rightarrow> CsvWriterOptions \<Rightarrow> SourceBatch list \<Rightarrow> (ImportError, 's \<times> nat, unit) task" where
  "write_batches E w opts [] = areturn ()"
| "write_batches E w opts (b # bs) = abind (write_batch E w opts b) (\<lambda>_. write_batches E w opts bs)"

text \<open>The data of \<open>import_from_record_batches\<close>.\<close>

definition record_batches_to_csv :: "('d, 't) csv_env \<Rightarrow> SourceBatch list \<Rightarrow> CsvWriterOptions \<Rightarrow> (ImportError, byte list) result" where
  "record_batches_to_csv E batches opts =
    run_vec (abind (write_batches E vec_write opts batches) (\<lambda>_. finish_writer vec_flush))"

record ArrowImportOptions =
  ai_schema :: "string option"
  ai_columns :: "string list option"
  ai_batch_size :: nat
  ai_csv_options :: CsvWriterOptions
  ai_use_tls :: bool
  ai_host :: string
  ai_port :: u16

definition ArrowImportOptions_default :: ArrowImportOptions where
  "ArrowImportOptions_default = \<lparr>ai_schema = None, ai_columns = None, ai_batch_size = 10000,
    ai_csv_options = CsvWriterOptions_default, ai_use_tls = False, ai_host = [], ai_port = 0\<rparr>"

definition csv_import_options :: "ArrowImportOptions \<Rightarrow> CsvImportOptions" where
  "csv_import_options opts = \<lparr>ci_encoding = ''UTF-8'', ci_column_separator = cw_column_separator (ai_csv_options opts),
    ci_column_delimiter = cw_column_delimiter (ai_csv_options opts), ci_row_separator = LF, ci_skip_rows = 0,
    ci_null_value = (if cw_null_value (ai_csv_options opts) = [] then None else Some (cw_null_value (ai_csv_options opts))),
    ci_trim_mode = NoTrim, ci_compression = Uncompressed, ci_reject_limit = None, ci_use_tls = ai_use_tls opts,
    ci_schema = ai_schema opts, ci_columns = ai_columns opts, ci_host = ai_host opts, ci_port = ai_port opts\<rparr>"

subsection \<open>CSV rows as arrays\<close>

datatype ArrowExportError =
    ArrowCsvParseError nat string
  | TypeConversionError nat nat string
  | SchemaError string
  | ArrowIoError string
  | ArrowError string
  | ArrowTransportError string

fun show_arrow_export_error :: "ArrowExportError \<Rightarrow> string" where
  "show_arrow_export_error (ArrowCsvParseError r m) = ''CSV parsing error at row '' @ show_nat r @ '': '' @ m"
| "show_arrow_export_error (TypeConversionError r c m) =
    ''Type conversion error at row '' @ show_nat r @ '', column '' @ show_nat c @ '': '' @ m"
| "show_arrow_export_error (SchemaError m) = ''Schema error: '' @ m"
| "show_arrow_export_error (ArrowIoError m) = ''I/O error: '' @ m"
| "show_arrow_export_error (ArrowError m) = ''Arrow error: '' @ m"
| "show_arrow_export_error (ArrowTransportError m) = ''Transport error: '' @ m"

record ArrowExportOptions =
  ae_batch_size :: nat
  ae_null_value :: "string option"
  ae_schema :: "SourceField list option"
  ae_column_separator :: string
  ae_column_delimiter :: string
  ae_host :: string
  ae_port :: u16
  ae_use_tls :: bool

definition ArrowExportOptions_default :: ArrowExportOptions where
  "ArrowExportOptions_default = \<lparr>ae_batch_size = 1024, ae_null_value = None, ae_schema = None, ae_column_separator = '','',
    ae_column_delimiter = [CHR 0x22], ae_host = [], ae_port = 0, ae_use_tls = False\<rparr>"

definition is_null_value :: "string \<Rightarrow> string option \<Rightarrow> bool" where
  "is_null_value v null_value \<longleftrightarrow> v = [] \<or> (case null_value of Some nv \<Rightarrow> v = nv | None \<Rightarrow> False)"

text \<open>The loop that the builders of typed columns share: the conversion of each value that is not null.\<close>

primrec append_values ::
  "(string \<Rightarrow> (string, source_value) result) \<Rightarrow> bool \<Rightarrow> string option \<Rightarrow> nat \<Rightarrow> nat \<Rightarrow> string list \<Rightarrow> (ArrowExportError, source_value option list) result" where
  "append_values conv nullable null_value r column [] = Inr []"
| "append_values conv nullable null_value r column (v # vs) =
    rbind (if is_null_value v null_value then
        if nullable then Inr None else fail (TypeConversionError r column ''NULL value in non-nullable column'')
      else rbind (map_err (TypeConversionError r column) (conv v)) (\<lambda>x. Inr (Some x))) (\<lambda>x.
    rbind (append_values conv nullable null_value (r + 1) column vs) (\<lambda>xs. Inr (x # xs)))"

definition parse_boolean :: "string_env \<Rightarrow> string \<Rightarrow> (string, source_value) result" where
  "parse_boolean S v =
    (let lower = to_lowercase S v in
     if lower \<in> {''true'', ''1'', ''t'', ''yes'', ''y''} then Inr (VBool True)
     else if lower \<in> {''false'', ''0'', ''f'', ''no'', ''n''} then Inr (VBool False)
     else fail (''Invalid boolean value: '' @ v))"

definition build_boolean_array ::
  "('d, 't) csv_env \<Rightarrow> string list \<Rightarrow> bool \<Rightarrow> string option \<Rightarrow> nat \<Rightarrow> nat \<Rightarrow> (ArrowExportError, SourceArray) result" where
  "build_boolean_array E vs nullable null_value start_row column =
    rbind (append_values (parse_boolean (ce_strings E)) nullable null_value start_row column vs) (\<lambda>xs. Inr (PlainArray SBoolean xs))"

text \<open>\<open>str::parse::<i64>\<close> with the texts of its errors.\<close>

fun digits_up :: "int \<Rightarrow> int \<Rightarrow> string \<Rightarrow> string + int" where
  "digits_up hi acc [] = Inr acc"
| "digits_up hi acc (c # s) =
    (if \<not> is_ascii_digit c then Inl ''invalid digit found in string''
     else if acc * 10 + int (digit_val c) \<le> hi then digits_up hi (acc * 10 + int (digit_val c)) s
     else Inl ''number too large to fit in target type'')"

fun digits_down :: "int \<Rightarrow> int \<Rightarrow> string \<Rightarrow> string + int" where
  "digits_down lo acc [] = Inr acc"
| "digits_down lo acc (c # s) =
    (if \<not> is_ascii_digit c then Inl ''invalid digit found in string''
     else if lo \<le> acc * 10 - int (digit_val c) then digits_down lo (acc * 10 - int (digit_val c)) s
     else Inl ''number too small to fit in target type'')"

definition parse_i64_text :: "string \<Rightarrow> string + int" where
  "parse_i64_text s = (case s of
      [] \<Rightarrow> Inl ''cannot parse integer from empty string''
    | c # r \<Rightarrow>
        if (c = CHR ''-'' \<or> c = CHR ''+'') \<and> r = [] then Inl ''invalid digit found in string''
        else if c = CHR ''-'' then digits_down (- (2 ^ 63)) 0 r
        else if c = CHR ''+'' then digits_up (2 ^ 63 - 1) 0 r
        else digits_up (2 ^ 63 - 1) 0 s)"

definition parse_int64 :: "string \<Rightarrow> (string, source_value) result" where
  "parse_int64 v = (case parse_i64_text v of
      Inl e \<Rightarrow> fail (''Invalid integer value '' @ quoted v @ '': '' @ e) | Inr n \<Rightarrow> Inr (VInt n))"

definition build_int64_array :: "string list \<Rightarrow> bool \<Rightarrow> string option \<Rightarrow> nat \<Rightarrow> nat \<Rightarrow> (ArrowExportError, SourceArray) result" where
  "build_int64_array vs nullable null_value start_row column =
    rbind (append_values parse_int64 nullable null_value start_row column vs) (\<lambda>xs. Inr (PlainArray SInt64 xs))"

definition parse_float64 :: "('d, 't) csv_env \<Rightarrow> string \<Rightarrow> (string, source_value) result" where
  "parse_float64 E v =
    (if v \<in> {''Infinity'', ''inf''} then Inr (VFloat64 0x7FF0000000000000)
     else if v \<in> {''-Infinity'', ''-inf''} then Inr (VFloat64 0xFFF0000000000000)
     else if v \<in> {''NaN'', ''nan''} then Inr (VFloat64 0x7FF8000000000000)
     else (case ce_parse_float E v of
         Inl e \<Rightarrow> fail (''Invalid float value '' @ quoted v @ '': '' @ e) | Inr f \<Rightarrow> Inr (VFloat64 f)))"

definition build_float64_array ::
  "('d, 't) csv_env \<Rightarrow> string list \<Rightarrow> bool \<Rightarrow> string option \<Rightarrow> nat \<Rightarrow> nat \<Rightarrow> (ArrowExportError, SourceArray) result" where
  "build_float64_array E vs nullable null_value start_row column =
    rbind (append_values (parse_float64 E) nullable null_value start_row column vs) (\<lambda>xs. Inr (PlainArray SFloat64 xs))"

definition build_string_array :: "string list \<Rightarrow> bool \<Rightarrow> string option \<Rightarrow> (ArrowExportError, SourceArray) result" where
  "build_string_array vs nullable null_value = Inr (PlainArray SUtf8 (map (\<lambda>v.
    if is_null_value v null_value then (if nullable then None else Some (VText [])) else Some (VText v)) vs))"

definition as_int :: "(string, int) result \<Rightarrow> (string, source_value) result" where
  "as_int r = rbind r (\<lambda>n. Inr (VInt n))"

definition build_date32_array ::
  "('d, 't) csv_env \<Rightarrow> string list \<Rightarrow> bool \<Rightarrow> string option \<Rightarrow> nat \<Rightarrow> nat \<Rightarrow> (ArrowExportError, SourceArray) result" where
  "build_date32_array E vs nullable null_value start_row column =
    rbind (append_values (\<lambda>v. as_int (parse_date_to_days (ce_overflow E) v)) nullable null_value start_row column vs)
      (\<lambda>xs. Inr (PlainArray SDate32 xs))"

text \<open>The builder gives timestamps without a time zone, whatever the zone of the field.\<close>

definition build_timestamp_array ::
  "('d, 't) csv_env \<Rightarrow> string list \<Rightarrow> bool \<Rightarrow> string option \<Rightarrow> nat \<Rightarrow> nat \<Rightarrow> (ArrowExportError, SourceArray) result" where
  "build_timestamp_array E vs nullable null_value start_row column =
    rbind (append_values (\<lambda>v. as_int (parse_timestamp_to_micros (ce_overflow E) v)) nullable null_value start_row column vs)
      (\<lambda>xs. Inr (PlainArray (STimestamp Microsecond None) xs))"

definition build_decimal128_array ::
  "('d, 't) csv_env \<Rightarrow> string list \<Rightarrow> nat \<Rightarrow> int \<Rightarrow> bool \<Rightarrow> string option \<Rightarrow> nat \<Rightarrow> nat \<Rightarrow> (ArrowExportError, SourceArray) result" where
  "build_decimal128_array E vs precision scale nullable null_value start_row column =
    (case ce_decimal_type E precision scale of
       Some e \<Rightarrow> fail (ArrowError e)
     | None \<Rightarrow>
         rbind (append_values (\<lambda>v. as_int (parse_decimal_to_i128 (ce_overflow E) v scale)) nullable null_value start_row column vs)
           (\<lambda>xs. Inr (PlainArray (SDecimal128 precision scale) xs)))"

definition build_array_from_strings ::
  "('d, 't) csv_env \<Rightarrow> string list \<Rightarrow> SourceType \<Rightarrow> bool \<Rightarrow> string option \<Rightarrow> nat \<Rightarrow> nat \<Rightarrow> (ArrowExportError, SourceArray) result" where
  "build_array_from_strings E vs data_type nullable null_value start_row column = (case data_type of
      SBoolean \<Rightarrow> build_boolean_array E vs nullable null_value start_row column
    | SInt64 \<Rightarrow> build_int64_array vs nullable null_value start_row column
    | SFloat64 \<Rightarrow> build_float64_array E vs nullable null_value start_row column
    | SUtf8 \<Rightarrow> build_string_array vs nullable null_value
    | SDate32 \<Rightarrow> build_date32_array E vs nullable null_value start_row column
    | STimestamp Microsecond _ \<Rightarrow> build_timestamp_array E vs nullable null_value start_row column
    | SDecimal128 precision scale \<Rightarrow> build_decimal128_array E vs precision scale nullable null_value start_row column
    | _ \<Rightarrow> fail (SchemaError (''Unsupported data type: '' @ ce_show_type E data_type)))"

subsection \<open>Batches of rows\<close>

definition column_values :: "string list list \<Rightarrow> nat \<Rightarrow> string list" where
  "column_values rows col_idx = map (\<lambda>r. if col_idx < length r then r ! col_idx else []) rows"

definition build_arrays ::
  "('d, 't) csv_env \<Rightarrow> SourceField list \<Rightarrow> string option \<Rightarrow> nat \<Rightarrow> string list list \<Rightarrow> (ArrowExportError, SourceArray list) result" where
  "build_arrays E schema null_value start_row rows =
    rmap (\<lambda>col_idx. let field = schema ! col_idx in
      build_array_from_strings E (column_values rows col_idx) (sf_type field) (sf_nullable field) null_value start_row col_idx)
      [0..<length schema]"

text \<open>
  The reader of an export: the lines to come as bytes, and the error with which they end, if any.
\<close>

record line_source =
  ls_bytes :: "byte list"
  ls_error :: "string option"

definition source_read_line :: "line_source \<Rightarrow> (ArrowExportError, string) result \<times> line_source" where
  "source_read_line src =
    (let line = takeWhile (\<lambda>b. b \<noteq> 0x0A) (ls_bytes src);
         rest = drop (length line) (ls_bytes src);
         whole = line @ take 1 rest;
         src' = src\<lparr>ls_bytes := drop 1 rest\<rparr> in
     if rest = [] \<and> ls_error src \<noteq> None then (fail (ArrowIoError (the (ls_error src))), src')
     else if utf8_valid whole then (Inr (text_of whole), src')
     else (fail (ArrowIoError ''stream did not contain valid UTF-8''), src'))"

definition trim_line_end :: "string \<Rightarrow> string" where
  "trim_line_end s = rev (dropWhile (\<lambda>c. c = CHR 0x0D \<or> c = CHR 0x0A) (rev s))"

record CsvToArrowReader =
  ar_source :: line_source
  ar_fields :: "SourceField list"
  ar_batch_size :: nat
  ar_null_value :: "string option"
  ar_column_separator :: string
  ar_column_delimiter :: string
  ar_current_row :: nat
  ar_finished :: bool

definition CsvToArrowReader_new :: "line_source \<Rightarrow> SourceField list \<Rightarrow> ArrowExportOptions \<Rightarrow> CsvToArrowReader" where
  "CsvToArrowReader_new source schema opts = \<lparr>ar_source = source, ar_fields = schema, ar_batch_size = ae_batch_size opts,
    ar_null_value = ae_null_value opts, ar_column_separator = ae_column_separator opts,
    ar_column_delimiter = ae_column_delimiter opts, ar_current_row = 0, ar_finished = False\<rparr>"

definition build_record_batch :: "('d, 't) csv_env \<Rightarrow> CsvToArrowReader \<Rightarrow> string list list \<Rightarrow> (ArrowExportError, SourceBatch) result" where
  "build_record_batch E r rows =
    rbind (build_arrays E (ar_fields r) (ar_null_value r) (ar_current_row r - length rows) rows) (\<lambda>arrays.
      case ce_try_new E (ar_fields r) arrays of Inl e \<Rightarrow> fail (ArrowError e) | Inr b \<Rightarrow> Inr b)"

primrec read_batch_rows :: "nat \<Rightarrow> string list list \<Rightarrow> CsvToArrowReader \<Rightarrow> (ArrowExportError, string list list) result \<times> CsvToArrowReader" where
  "read_batch_rows 0 rows r = (Inr rows, r)"
| "read_batch_rows (Suc n) rows r = (case source_read_line (ar_source r) of
      (Inl e, src) \<Rightarrow> (Inl e, r\<lparr>ar_source := src\<rparr>)
    | (Inr line, src) \<Rightarrow>
        let r = r\<lparr>ar_source := src\<rparr> in
        if line = [] then (Inr rows, r\<lparr>ar_finished := True\<rparr>)
        else if trim_line_end line = [] then read_batch_rows n rows r
        else (case parse_csv_row (trim_line_end line) (ar_column_separator r) (ar_column_delimiter r) of (fs, in_quotes) \<Rightarrow>
          if in_quotes then (fail (ArrowCsvParseError (ar_current_row r) ''Unclosed quote in CSV row''), r)
          else read_batch_rows n (rows @ [fs]) (r\<lparr>ar_current_row := ar_current_row r + 1\<rparr>)))"

definition next_batch_of_reader :: "('d, 't) csv_env \<Rightarrow> CsvToArrowReader \<Rightarrow> (ArrowExportError, SourceBatch option) result \<times> CsvToArrowReader" where
  "next_batch_of_reader E r =
    (if ar_finished r then (Inr None, r)
     else (case read_batch_rows (ar_batch_size r) [] r of
         (Inl e, r') \<Rightarrow> (Inl e, r')
       | (Inr rows, r') \<Rightarrow>
           if rows = [] then (Inr None, r')
           else (rbind (build_record_batch E r' rows) (\<lambda>b. Inr (Some b)), r')))"

text \<open>The part of \<open>export_to_record_batches\<close> that follows the export: rows in batches of the given size.\<close>

definition rows_to_batch ::
  "('d, 't) csv_env \<Rightarrow> SourceField list \<Rightarrow> string option \<Rightarrow> string list list \<Rightarrow> (CsvExportError, SourceBatch) result" where
  "rows_to_batch E schema null_value chunk =
    rbind (map_err (\<lambda>e. CsvParseError 0 (show_arrow_export_error e)) (build_arrays E schema null_value 0 chunk)) (\<lambda>arrays.
      case ce_try_new E schema arrays of Inl e \<Rightarrow> fail (CsvParseError 0 e) | Inr b \<Rightarrow> Inr b)"

definition rows_to_record_batches ::
  "('d, 't) csv_env \<Rightarrow> ArrowExportOptions \<Rightarrow> string list list \<Rightarrow> (CsvExportError, SourceBatch list) result" where
  "rows_to_record_batches E opts rows = (case ae_schema opts of
      None \<Rightarrow> fail (CsvParseError 0 ''Schema required for Arrow export'')
    | Some schema \<Rightarrow>
        if ae_batch_size opts = 0 then Inl Panic
        else rmap (rows_to_batch E schema (ae_null_value opts)) (chunks (ae_batch_size opts) rows))"

end
