(* ===== verification/Http_Tunnel_Laws.thy ===== *)
theory Http_Tunnel_Laws
  imports Http_Tunnel Connection_String_Laws
begin

text \<open>
  What holds of the HTTP tunnel: chunked bodies arrive as they were sent, in pieces of
  bounded size; requests that are composed of parts parse to the parts; every byte range of
  a file is answered with exactly its bytes; and the loops end when the bytes of the peer do.
\<close>

named_theorems tunnel_steps \<open>single steps on a stream, a sink or a file\<close>

subsection \<open>Steps\<close>

lemma read_step [tunnel_steps]:
  "n \<le> length (inbox io) \<Longrightarrow> stream_read_exact n io = (Ready (Inr (take n (inbox io))), io\<lparr>inbox := drop n (inbox io)\<rparr>)"
  by (simp add: stream_read_exact_def amap_err_def io_read_exact_def)

lemma write_step [tunnel_steps]:
  "write_outcomes io = [] \<Longrightarrow> stream_write_all d io = (Ready (Inr ()), io\<lparr>outbox := outbox io @ d\<rparr>)"
  "write_outcomes io = [] \<Longrightarrow> stream_flush io = (Ready (Inr ()), io)"
  by (simp_all add: stream_write_all_def stream_flush_def amap_err_def io_write_all_def Let_def)

lemma part_steps [tunnel_steps]:
  "m (fst s) = (Ready (Inr x), t) \<Longrightarrow> on_fst m s = (Ready (Inr x), (t, snd s))"
  "m' (snd s) = (Ready (Inr y), u) \<Longrightarrow> on_snd m' s = (Ready (Inr y), (fst s, u))"
  by (simp_all add: on_fst_def on_snd_def)

lemma or_steps [tunnel_steps]:
  "m s = (Ready (Inr x), t) \<Longrightarrow> or_io prefix m s = (Ready (Inr x), t)"
  "m s = (Ready (Inr x), t) \<Longrightarrow> or_protocol prefix m s = (Ready (Inr x), t)"
  by (simp_all add: or_io_def or_protocol_def)

subsection \<open>Lines\<close>

lemma read_line_loop_line:
  "0x0D \<notin> set l \<Longrightarrow> length l < n \<Longrightarrow> inbox io = l @ crlf @ rest \<Longrightarrow>
    read_line_loop n acc io = (Ready (line_text (acc @ l)), io\<lparr>inbox := rest\<rparr>)"
proof (induction l arbitrary: n acc io)
  case Nil
  then obtain n' where n: "n = Suc n'" by (cases n) auto
  have "stream_read_exact 1 io = (Ready (Inr [0x0D]), io\<lparr>inbox := 0x0A # rest\<rparr>)"
    using Nil.prems(3) read_step [of 1 io] by (simp add: crlf_def)
  moreover have "stream_read_exact 1 (io\<lparr>inbox := 0x0A # rest\<rparr>) = (Ready (Inr [0x0A]), io\<lparr>inbox := rest\<rparr>)"
    using read_step [of 1 "io\<lparr>inbox := 0x0A # rest\<rparr>"] by simp
  ultimately show ?case by (simp add: n abind_eval alift_def)
next
  case (Cons b l)
  then obtain n' where n: "n = Suc n'" by (cases n) auto
  have "stream_read_exact 1 io = (Ready (Inr [b]), io\<lparr>inbox := l @ crlf @ rest\<rparr>)"
    using Cons.prems(3) read_step [of 1 io] by simp
  then show ?case using Cons.IH [of n' "io\<lparr>inbox := l @ crlf @ rest\<rparr>" "acc @ [b]"] Cons.prems(1,2)
    by (simp add: n abind_eval)
qed

lemma utf8_ascii: "list_all (\<lambda>b. unat b < 128) bs \<Longrightarrow> utf8_valid bs"
proof -
  assume "list_all (\<lambda>b. unat b < 128) bs"
  then have "utf8_error i bs = None" for i by (induction bs arbitrary: i) simp_all
  then show ?thesis by (simp add: utf8_valid_def)
qed

text \<open>Texts of one line: ASCII without control characters.\<close>

definition line_char :: "char \<Rightarrow> bool" where
  "line_char c \<longleftrightarrow> 32 \<le> (of_char c :: nat) \<and> (of_char c :: nat) < 127"

lemma url_line_char: "url_char c \<Longrightarrow> line_char c"
  by (simp add: url_char_def line_char_def)

lemma line_byte: "line_char c \<Longrightarrow> unat (byte_of_char c) < 128 \<and> byte_of_char c \<noteq> 0x0D"
proof -
  assume c: "line_char c"
  then have u: "unat (byte_of_char c) = of_char c" by (simp add: byte_of_char_def line_char_def unat_of_nat)
  then have "unat (byte_of_char c) \<noteq> 13" using c by (simp add: line_char_def)
  then have "byte_of_char c \<noteq> 0x0D" by auto
  then show ?thesis using c u by (simp add: line_char_def)
qed

lemma read_line_text:
  assumes "list_all line_char l" "inbox io = as_bytes l @ crlf @ rest"
  shows "read_line io = (Ready (Inr l), io\<lparr>inbox := rest\<rparr>)"
proof -
  have "0x0D \<notin> set (as_bytes l)" "list_all (\<lambda>b. unat b < 128) (as_bytes l)"
    using assms(1) line_byte by (auto simp: as_bytes_def list_all_iff)
  moreover have "length (as_bytes l) < Suc (length (inbox io))" by (simp add: assms(2))
  ultimately show ?thesis
    using read_line_loop_line [of "as_bytes l" "Suc (length (inbox io))" io rest "[]"] assms(2)
    by (simp add: read_line_def line_text_def utf8_ascii)
qed

subsection \<open>Chunk sizes\<close>

lemma of_hex_upper: "n < 16 \<Longrightarrow> of_char (hex_upper n) = (if n < 10 then 48 + n else 55 + n :: nat)"
  by (simp add: hex_upper_def)

lemma hex_upper_value: "n < 16 \<Longrightarrow> hex_value (hex_upper n) = Some n"
  by (auto simp: hex_value_def is_ascii_digit_def of_hex_upper Let_def)

lemma hex_upper_url: "n < 16 \<Longrightarrow> url_char (hex_upper n) \<and> hex_upper n \<notin> {CHR '';'', CHR ''+''}"
proof -
  assume n: "n < 16"
  have "hex_upper n \<noteq> c" if "(of_char c :: nat) < 48 \<or> (57 < (of_char c :: nat) \<and> (of_char c :: nat) < 65)" for c
    using that of_hex_upper [OF n] n by (auto split: if_splits)
  then show ?thesis using n by (simp add: url_char_def of_hex_upper)
qed

lemma parse_hex_digits_append:
  "parse_hex_digits a (s @ t) = (case parse_hex_digits a s of Inl e \<Rightarrow> Inl e | Inr b \<Rightarrow> parse_hex_digits b t)"
  by (induction s arbitrary: a) (auto split: option.split)

lemma parse_show_hex: "n < 2 ^ 64 \<Longrightarrow> parse_hex_digits 0 (show_hex n) = Inr n"
proof (induction n rule: show_hex.induct)
  case (1 n)
  show ?case
  proof (cases "n < 16")
    case True
    then show ?thesis by (simp add: show_hex.simps hex_upper_value)
  next
    case False
    then have "parse_hex_digits 0 (show_hex (n div 16)) = Inr (n div 16)" using 1 by simp
    then show ?thesis using False 1(2)
      by (subst show_hex.simps) (simp add: parse_hex_digits_append hex_upper_value)
  qed
qed

lemma show_hex_chars: "list_all (\<lambda>c. url_char c \<and> c \<notin> {CHR '';'', CHR ''+''}) (show_hex n)"
proof (induction n rule: show_hex.induct)
  case (1 n)
  then show ?case using hex_upper_url by (subst show_hex.simps) (auto simp del: insert_iff)
qed

lemma show_hex_Cons: "\<exists>c r. show_hex n = c # r \<and> c \<noteq> CHR ''+''"
proof -
  have "show_hex n \<noteq> []" by (subst show_hex.simps) simp
  then show ?thesis using show_hex_chars [of n] by (cases "show_hex n") auto
qed

lemma parse_chunk_size_show: "n < 2 ^ 64 \<Longrightarrow> parse_chunk_size (show_hex n) = Inr n"
proof -
  assume n: "n < 2 ^ 64"
  have "list_all url_char (show_hex n)" "CHR '';'' \<notin> set (show_hex n)"
    using show_hex_chars [of n] by (auto simp: list_all_iff)
  moreover have "parse_hex (show_hex n) = Inr n"
    using show_hex_Cons [of n] parse_show_hex [OF n] by (auto simp: parse_hex_def)
  ultimately show ?thesis by (simp add: parse_chunk_size_def split_on_no_sep trim_url Let_def)
qed

subsection \<open>Bodies\<close>

text \<open>A body in pieces of at most \<open>EXPORT_PIECE_MAX_BYTES\<close>.\<close>

function pieces_of :: "byte list \<Rightarrow> byte list list" where
  "pieces_of d = (if d = [] then [] else take EXPORT_PIECE_MAX_BYTES d # pieces_of (drop EXPORT_PIECE_MAX_BYTES d))"
  by pat_completeness auto
termination by (relation "measure length") (simp_all add: EXPORT_PIECE_MAX_BYTES_def)

declare pieces_of.simps [simp del]

lemma pieces_of_Nil [simp]: "pieces_of [] = []"
  by (simp add: pieces_of.simps)

lemma concat_pieces_of: "concat (pieces_of d) = d"
  by (induction d rule: pieces_of.induct) (subst pieces_of.simps, simp)

lemma pieces_of_size: "p \<in> set (pieces_of d) \<Longrightarrow> p \<noteq> [] \<and> length p \<le> EXPORT_PIECE_MAX_BYTES"
proof (induction d rule: pieces_of.induct)
  case (1 d)
  then show ?case by (subst (asm) (2) pieces_of.simps) (auto simp: EXPORT_PIECE_MAX_BYTES_def split: if_splits)
qed

definition ready_sink :: "sink \<Rightarrow> bool" where
  "ready_sink sk \<longleftrightarrow> sk_open sk \<and> sk_room sk = None"

lemma sink_step [tunnel_steps]: "ready_sink sk \<Longrightarrow> sink_send piece sk = (Ready (Inr ()), sk\<lparr>sk_pieces := sk_pieces sk @ [piece]\<rparr>)"
  by (simp add: ready_sink_def sink_send_def)

lemma forward_pieces_all:
  "r \<le> length (inbox io) \<Longrightarrow> ready_sink sk \<Longrightarrow> forward_pieces len r (io, sk) =
    (Ready (Inr ()), (io\<lparr>inbox := drop r (inbox io)\<rparr>, sk\<lparr>sk_pieces := sk_pieces sk @ pieces_of (take r (inbox io))\<rparr>))"
proof (induction len r arbitrary: io sk rule: forward_pieces.induct)
  case (1 len r)
  show ?case
  proof (cases "r = 0")
    case True
    then show ?thesis by (simp add: forward_pieces.simps act_simps)
  next
    case False
    define n where "n = min r EXPORT_PIECE_MAX_BYTES"
    let ?io = "io\<lparr>inbox := drop n (inbox io)\<rparr>" and ?p = "take n (inbox io)"
    let ?sk = "sk\<lparr>sk_pieces := sk_pieces sk @ [?p]\<rparr>"
    have n: "n \<le> r" "n \<le> length (inbox io)" "0 < n" using False 1(2) by (simp_all add: n_def EXPORT_PIECE_MAX_BYTES_def)
    have step: "forward_pieces len r (io, sk) = forward_pieces len (r - n) (?io, ?sk)"
      using False n 1(3) by (subst forward_pieces.simps) (simp add: n_def [symmetric] Let_def abind_eval tunnel_steps)
    have ready: "ready_sink ?sk" using 1(3) by (simp add: ready_sink_def)
    have "pieces_of (take r (inbox io)) = ?p # pieces_of (take (r - n) (drop n (inbox io)))"
    proof -
      have "take EXPORT_PIECE_MAX_BYTES (take r (inbox io)) = ?p"
        by (simp add: n_def min.commute)
      moreover have "drop EXPORT_PIECE_MAX_BYTES (take r (inbox io)) = take (r - n) (drop n (inbox io))"
        by (cases "r \<le> EXPORT_PIECE_MAX_BYTES") (simp_all add: n_def drop_take)
      moreover have "take r (inbox io) \<noteq> []" using False 1(2) by auto
      ultimately show ?thesis by (subst pieces_of.simps) simp
    qed
    then show ?thesis using step 1(1) [OF False n_def, of ?io ?sk] n 1(2) ready by simp
  qed
qed

lemma forward_sized_all:
  "n \<le> length (inbox io) \<Longrightarrow> ready_sink sk \<Longrightarrow> forward_sized_body n (io, sk) =
    (Ready (Inr ()), (io\<lparr>inbox := drop n (inbox io)\<rparr>, sk\<lparr>sk_pieces := sk_pieces sk @ pieces_of (take n (inbox io))\<rparr>))"
  by (simp add: forward_sized_body_def forward_pieces_all)

definition chunked :: "byte list list \<Rightarrow> byte list" where
  "chunked ds = concat (map encode_chunk ds) @ encode_chunk []"

definition sendable :: "byte list \<Rightarrow> bool" where
  "sendable d \<longleftrightarrow> d \<noteq> [] \<and> length d < 2 ^ 64"

lemma forward_one_chunk:
  assumes "inbox io = as_bytes (show_hex (length d)) @ crlf @ d @ crlf @ rest" "length d < 2 ^ 64" "ready_sink sk"
  shows "forward_chunks (Suc n) (io, sk) =
    (if d = [] then areturn () else forward_chunks n) (io\<lparr>inbox := rest\<rparr>, sk\<lparr>sk_pieces := sk_pieces sk @ pieces_of d\<rparr>)"
proof -
  let ?io = "io\<lparr>inbox := d @ crlf @ rest\<rparr>" and ?sk = "sk\<lparr>sk_pieces := sk_pieces sk @ pieces_of d\<rparr>"
  have line: "list_all line_char (show_hex (length d))"
    using show_hex_chars [of "length d"] url_line_char by (auto simp: list_all_iff)
  have size: "or_protocol ''Failed to read chunk size: '' read_line io = (Ready (Inr (show_hex (length d))), ?io)"
    by (rule or_steps(2)) (rule read_line_text [OF line assms(1)])
  have body: "forward_sized_body (length d) (?io, sk) = (Ready (Inr ()), (io\<lparr>inbox := crlf @ rest\<rparr>, ?sk))"
    using forward_sized_all [of "length d" ?io sk] assms(3) by simp
  have "stream_read_exact 2 (io\<lparr>inbox := crlf @ rest\<rparr>) = (Ready (Inr crlf), io\<lparr>inbox := rest\<rparr>)"
    using read_step [of 2 "io\<lparr>inbox := crlf @ rest\<rparr>"] by (simp add: crlf_def)
  then show ?thesis using size body assms(2)
    by (simp add: abind_eval part_steps or_steps parse_chunk_size_show act_simps)
qed

lemma show_hex_zero: "show_hex 0 = ''0''"
proof -
  have "(of_char (hex_upper 0) :: nat) = of_char (CHR ''0'')" by (simp add: of_hex_upper)
  then have "hex_upper 0 = CHR ''0''" by (simp only: of_char_eq_iff)
  then show ?thesis by (simp add: show_hex.simps)
qed

lemma forward_chunks_all:
  "list_all sendable ds \<Longrightarrow> inbox io = chunked ds @ rest \<Longrightarrow> ready_sink sk \<Longrightarrow> length ds < n \<Longrightarrow>
    forward_chunks n (io, sk) = (Ready (Inr ()), (io\<lparr>inbox := rest\<rparr>, sk\<lparr>sk_pieces := sk_pieces sk @ concat (map pieces_of ds)\<rparr>))"
proof (induction ds arbitrary: io sk n)
  case Nil
  then obtain n' where n: "n = Suc n'" by (cases n) auto
  have "inbox io = as_bytes (show_hex (length [])) @ crlf @ [] @ crlf @ rest"
    using Nil show_hex_zero by (simp add: chunked_def encode_chunk_def)
  from forward_one_chunk [OF this _ Nil.prems(3), of n'] show ?case by (simp add: n alift_def del: forward_chunks.simps)
next
  case (Cons d ds)
  then obtain n' where n: "n = Suc n'" by (cases n) auto
  let ?io = "io\<lparr>inbox := chunked ds @ rest\<rparr>" and ?sk = "sk\<lparr>sk_pieces := sk_pieces sk @ pieces_of d\<rparr>"
  have d: "d \<noteq> []" "length d < 2 ^ 64" using Cons.prems(1) by (simp_all add: sendable_def)
  have "inbox io = as_bytes (show_hex (length d)) @ crlf @ d @ crlf @ (chunked ds @ rest)"
    using Cons.prems(2) d(1) by (simp add: chunked_def encode_chunk_def)
  from forward_one_chunk [OF this d(2) Cons.prems(3), of n'] have "forward_chunks n (io, sk) = forward_chunks n' (?io, ?sk)"
    using d(1) by (simp add: n del: forward_chunks.simps)
  then show ?case using Cons.IH [of ?io ?sk n'] Cons.prems n by (simp add: ready_sink_def)
qed

lemma chunked_length: "length ds < length (chunked ds)"
proof -
  have one: "1 \<le> length (encode_chunk d)" for d by (simp add: encode_chunk_def crlf_def)
  have "length ds \<le> length (concat (map encode_chunk ds))"
  proof (induction ds)
    case (Cons d ds)
    then show ?case using one [of d] by (simp del: length_concat)
  qed simp
  then show ?thesis using one [of "[]"] unfolding chunked_def length_append by linarith
qed

lemma forward_chunked_all:
  assumes "list_all sendable ds" "inbox io = chunked ds @ rest" "ready_sink sk"
  shows "forward_chunked_body (io, sk) =
    (Ready (Inr ()), (io\<lparr>inbox := rest\<rparr>, sk\<lparr>sk_pieces := sk_pieces sk @ concat (map pieces_of ds)\<rparr>))"
  unfolding forward_chunked_body_def
  by (rule forward_chunks_all [OF assms]) (use chunked_length [of ds] assms(2) in simp)

lemma concat_pieces_ofs: "concat (concat (map pieces_of ds)) = concat ds"
  by (induction ds) (simp_all add: concat_pieces_of)

subsection \<open>Requests\<close>

definition header_line :: "string \<times> string \<Rightarrow> string" where
  "header_line h = fst h @ '': '' @ snd h"

definition request_line :: "HttpMethod \<Rightarrow> string \<Rightarrow> string" where
  "request_line m path = show_method m @ '' '' @ path @ '' HTTP/1.1''"

definition http_request_bytes :: "HttpMethod \<Rightarrow> string \<Rightarrow> (string \<times> string) list \<Rightarrow> byte list" where
  "http_request_bytes m path hs = as_bytes (request_line m path) @ crlf @
    concat (map (\<lambda>h. as_bytes (header_line h) @ crlf) hs) @ crlf"

definition header_ok :: "string \<times> string \<Rightarrow> bool" where
  "header_ok h \<longleftrightarrow> fst h \<noteq> [] \<and> list_all url_char (fst h) \<and> CHR '':'' \<notin> set (fst h) \<and> list_all url_char (snd h)"

definition add_header :: "string_env \<Rightarrow> string \<times> string \<Rightarrow> (string \<rightharpoonup> string) \<Rightarrow> (string \<rightharpoonup> string)" where
  "add_header S h m = m(to_lowercase S (fst h) \<mapsto> snd h)"

lemma words_of_word: "list_all url_char w \<Longrightarrow> words_of v (map (\<lambda>c. [c]) w @ us) = words_of (v @ w) us"
proof (induction w arbitrary: v)
  case (Cons c w)
  then show ?case using url_char_props [of c] by simp
qed simp

lemma space_whitespace: "is_whitespace '' ''"
proof -
  have "(CHR '' '' :: char) = char_of (32 :: nat)" by code_simp
  then show ?thesis by (simp add: is_whitespace_def utf8_of_def)
qed

lemma split_three_words:
  assumes "list_all url_char a" "list_all url_char b" "list_all url_char c" "a \<noteq> []" "b \<noteq> []" "c \<noteq> []"
  shows "split_whitespace (a @ '' '' @ b @ '' '' @ c) = [a, b, c]"
proof -
  have "list_all is_ascii (a @ '' '' @ b @ '' '' @ c)"
    using assms(1-3) url_char_props by (auto simp: list_all_iff is_ascii_def)
  then have "text_chars (a @ '' '' @ b @ '' '' @ c) = map (\<lambda>x. [x]) a @ '' '' # map (\<lambda>x. [x]) b @ '' '' # map (\<lambda>x. [x]) c @ []"
    by (simp add: text_chars_ascii)
  then show ?thesis unfolding split_whitespace_def
    using assms space_whitespace words_of_word [of a "[]"] words_of_word [of b "[]"] words_of_word [of c "[]" "[]"] by simp
qed

lemma show_method_url: "list_all url_char (show_method m)" "show_method m \<noteq> []"
  by (cases m; simp add: url_char_def)+

lemma parse_show_method: "parse_method (show_method m) = Inr m"
  by (cases m) (simp_all add: parse_method_def)

lemma trim_space:
  assumes "list_all url_char v" "list_all is_ascii v"
  shows "trim ('' '' @ v) = v"
proof -
  have a: "list_all is_ascii ('' '' @ v)" using assms(2) by (simp add: is_ascii_def)
  let ?cs = "map (\<lambda>c. [c]) v"
  have w: "\<forall>x \<in> set ?cs. \<not> is_whitespace x" using assms(1) url_char_props by (auto simp: list_all_iff)
  have d: "dropWhile is_whitespace xs = xs" if "\<forall>x \<in> set xs. \<not> is_whitespace x" for xs
    using that by (cases xs) auto
  show ?thesis unfolding trim_def text_chars_ascii [OF a]
    using d [OF w] d [of "rev ?cs"] w space_whitespace by (simp add: concat_map_singleton)
qed

lemma header_parses:
  assumes "header_ok h"
  shows "split_once (CHR '':'') (header_line h) = Some (fst h, '' '' @ snd h)" "trim (fst h) = fst h" "trim ('' '' @ snd h) = snd h"
    "list_all line_char (header_line h)" "header_line h \<noteq> []"
proof -
  show "split_once (CHR '':'') (header_line h) = Some (fst h, '' '' @ snd h)"
    using split_once_sep [of "CHR '':''" "fst h" "'' '' @ snd h"] assms by (simp add: header_ok_def header_line_def)
  show "trim (fst h) = fst h" using assms by (simp add: header_ok_def trim_url)
  show "trim ('' '' @ snd h) = snd h"
    by (rule trim_space) (use assms url_char_props in \<open>auto simp: header_ok_def list_all_iff\<close>)
  have "line_char (CHR '':'')" "line_char (CHR '' '')" by (simp_all add: line_char_def)
  then show "list_all line_char (header_line h)"
    using assms url_line_char by (auto simp: header_ok_def header_line_def list_all_iff)
  show "header_line h \<noteq> []" using assms by (simp add: header_ok_def header_line_def)
qed

lemma parse_headers_all:
  "list_all header_ok hs \<Longrightarrow> inbox io = concat (map (\<lambda>h. as_bytes (header_line h) @ crlf) hs) @ crlf @ rest \<Longrightarrow> length hs < n \<Longrightarrow>
    parse_headers S n m io = (Ready (Inr (fold (add_header S) hs m)), io\<lparr>inbox := rest\<rparr>)"
proof (induction hs arbitrary: io n m)
  case Nil
  then obtain n' where n: "n = Suc n'" by (cases n) auto
  have "or_protocol ''Failed to read header line: '' read_line io = (Ready (Inr []), io\<lparr>inbox := rest\<rparr>)"
    by (rule or_steps(2), rule read_line_text) (use Nil in \<open>simp_all add: as_bytes_def\<close>)
  then show ?case by (simp add: n abind_eval alift_def)
next
  case (Cons h hs)
  then obtain n' where n: "n = Suc n'" by (cases n) auto
  have h: "header_ok h" using Cons.prems(1) by simp
  let ?io = "io\<lparr>inbox := concat (map (\<lambda>h. as_bytes (header_line h) @ crlf) hs) @ crlf @ rest\<rparr>"
  have "or_protocol ''Failed to read header line: '' read_line io = (Ready (Inr (header_line h)), ?io)"
    by (rule or_steps(2), rule read_line_text [OF header_parses(4) [OF h]]) (use Cons.prems(2) in simp)
  then have "parse_headers S n m io = parse_headers S n' (add_header S h m) ?io"
    using header_parses(1,2,3,5) [OF h] by (simp add: n abind_eval add_header_def)
  then show ?case using Cons.IH [of ?io n' "add_header S h m"] Cons.prems n by simp
qed

definition request_of :: "string_env \<Rightarrow> HttpMethod \<Rightarrow> string \<Rightarrow> (string \<times> string) list \<Rightarrow> HttpRequest" where
  "request_of S m path hs = \<lparr>rq_method = m, rq_path = path, rq_headers = fold (add_header S) hs Map.empty\<rparr>"

lemma request_line_parts:
  assumes "list_all url_char path" "path \<noteq> []"
  shows "split_whitespace (request_line m path) = [show_method m, path, ''HTTP/1.1'']" "list_all line_char (request_line m path)"
proof -
  have v: "list_all url_char ''HTTP/1.1''" by (simp add: url_char_def)
  show "split_whitespace (request_line m path) = [show_method m, path, ''HTTP/1.1'']"
    using split_three_words [OF show_method_url(1) [of m] assms(1) v show_method_url(2) assms(2)]
    by (simp add: request_line_def)
  show "list_all line_char (request_line m path)"
    using assms(1) show_method_url(1) [of m] url_line_char by (auto simp: request_line_def list_all_iff line_char_def)
qed

lemma parse_request_all:
  assumes "list_all url_char path" "path \<noteq> []" "list_all header_ok hs" "inbox io = http_request_bytes m path hs @ rest"
  shows "parse_http_request S io = (Ready (Inr (request_of S m path hs)), io\<lparr>inbox := rest\<rparr>)"
proof -
  let ?body = "concat (map (\<lambda>h. as_bytes (header_line h) @ crlf) hs) @ crlf @ rest"
  let ?io = "io\<lparr>inbox := ?body\<rparr>"
  have line: "or_protocol ''Failed to read request line: '' read_line io = (Ready (Inr (request_line m path)), ?io)"
    by (rule or_steps(2), rule read_line_text [OF request_line_parts(2) [OF assms(1,2)]])
      (use assms(4) in \<open>simp add: http_request_bytes_def\<close>)
  have "length hs < Suc (length ?body)"
  proof -
    have "length hs \<le> length (concat (map (\<lambda>h. as_bytes (header_line h) @ crlf) hs))"
      by (induction hs) (simp_all add: crlf_def del: length_concat)
    then show ?thesis by (simp del: length_concat)
  qed
  then have "parse_headers S (Suc (length (inbox ?io))) Map.empty ?io =
      (Ready (Inr (fold (add_header S) hs Map.empty)), io\<lparr>inbox := rest\<rparr>)"
    using parse_headers_all [OF assms(3), of ?io rest "Suc (length ?body)" S Map.empty] by (simp del: length_concat parse_headers.simps)
  then show ?thesis unfolding parse_http_request_def abind_eval(1) [where m = "or_protocol ''Failed to read request line: '' read_line" and s = io, OF line]
    by (simp add: request_line_parts(1) [OF assms(1,2)] parse_show_method act_simps abind_eval request_of_def Let_def
        del: parse_headers.simps length_concat)
qed

subsection \<open>The open tunnel\<close>

lemma on_open_step:
  "hc_stream c = TunnelOpen io \<Longrightarrow> m (io, x) = (p, (io', x')) \<Longrightarrow> on_open H m (c, x) = (p, (c\<lparr>hc_stream := TunnelOpen io'\<rparr>, x'))"
  by (simp add: on_open_def abind_def on_fst_def tunnel_open_stream_def)

lemma tunnel_write_step:
  assumes "hc_stream c = TunnelOpen io" "write_outcomes io = []"
  shows "tunnel_write H d (c, x) = (Ready (Inr ()), (c\<lparr>hc_stream := TunnelOpen (io\<lparr>outbox := outbox io @ d\<rparr>)\<rparr>, x))"
  unfolding tunnel_write_def
  by (rule on_open_step [OF assms(1)]) (use assms(2) in \<open>simp add: on_fst_def abind_eval tunnel_steps\<close>)

lemma read_request_step:
  assumes "hc_stream c = TunnelOpen io" "list_all url_char path" "path \<noteq> []" "list_all header_ok hs"
    and "inbox io = http_request_bytes m path hs @ rest"
  shows "read_http_request H (c, x) =
    (Ready (Inr (request_of (he_strings H) m path hs)), (c\<lparr>hc_stream := TunnelOpen (io\<lparr>inbox := rest\<rparr>)\<rparr>, x))"
  unfolding read_http_request_def
  by (rule on_open_step [OF assms(1)]) (simp add: on_fst_def parse_request_all [OF assms(2-5)])

text \<open>How the body of an export can be framed.\<close>

definition framed :: "string_env \<Rightarrow> HttpRequest \<Rightarrow> byte list list \<Rightarrow> byte list \<Rightarrow> bool" where
  "framed S r ds body \<longleftrightarrow>
    (is_chunked S r \<and> list_all sendable ds \<and> body = chunked ds)
    \<or> (\<not> is_chunked S r \<and> content_length r = Some (length body) \<and> ds = [body])"

lemma framed_body:
  assumes "framed (he_strings H) r ds body" "hc_stream c = TunnelOpen io" "inbox io = body @ rest" "ready_sink sk"
  shows "export_body H r (c, sk) =
    (Ready (Inr ()), (c\<lparr>hc_stream := TunnelOpen (io\<lparr>inbox := rest\<rparr>)\<rparr>, sk\<lparr>sk_pieces := sk_pieces sk @ concat (map pieces_of ds)\<rparr>))"
proof (cases "is_chunked (he_strings H) r")
  case True
  then have "list_all sendable ds" "inbox io = chunked ds @ rest" using assms(1,3) by (auto simp: framed_def)
  from forward_chunked_all [OF this assms(4)] show ?thesis
    using True on_open_step [OF assms(2)] by (simp add: export_body_def read_chunked_body_def)
next
  case False
  then have "content_length r = Some (length body)" "ds = [body]" using assms(1) by (auto simp: framed_def)
  then show ?thesis
    using False on_open_step [OF assms(2)] forward_sized_all [of "length body" io sk] assms(3,4) by (simp add: export_body_def)
qed

lemma export_request_all:
  assumes "hc_stream c = TunnelOpen io" "write_outcomes io = []" "list_all url_char path" "path \<noteq> []" "list_all header_ok hs"
    and "inbox io = http_request_bytes Put path hs @ body @ rest" "ready_sink sk"
    and "framed (he_strings H) (request_of (he_strings H) Put path hs) ds body"
  shows "handle_export_request H (c, sk) = (Ready (Inr (request_of (he_strings H) Put path hs)),
    (c\<lparr>hc_stream := TunnelOpen (io\<lparr>inbox := rest, outbox := outbox io @ build_ok_response\<rparr>)\<rparr>,
     sk\<lparr>sk_pieces := sk_pieces sk @ concat (map pieces_of ds)\<rparr>))"
proof -
  let ?r = "request_of (he_strings H) Put path hs"
  let ?c1 = "c\<lparr>hc_stream := TunnelOpen (io\<lparr>inbox := body @ rest\<rparr>)\<rparr>"
  let ?c2 = "c\<lparr>hc_stream := TunnelOpen (io\<lparr>inbox := rest\<rparr>)\<rparr>"
  let ?sk = "sk\<lparr>sk_pieces := sk_pieces sk @ concat (map pieces_of ds)\<rparr>"
  have read: "read_http_request H (c, sk) = (Ready (Inr ?r), (?c1, sk))"
    by (rule read_request_step [OF assms(1,3-6)])
  have body: "export_body H ?r (?c1, sk) = (Ready (Inr ()), (?c2, ?sk))"
    using framed_body [OF assms(8), of ?c1 "io\<lparr>inbox := body @ rest\<rparr>" rest sk] assms(7) by simp
  have ok: "write_http_response H 200 ''OK'' [] None (?c2, ?sk) =
      (Ready (Inr ()), (c\<lparr>hc_stream := TunnelOpen (io\<lparr>inbox := rest, outbox := outbox io @ build_ok_response\<rparr>)\<rparr>, ?sk))"
    using tunnel_write_step [of ?c2 "io\<lparr>inbox := rest\<rparr>" H build_ok_response ?sk] assms(2)
    by (simp add: write_http_response_def build_ok_response_def)
  have put: "rq_method ?r = Put" by (simp add: request_of_def)
  from read body ok put show ?thesis by (simp add: handle_export_request_def abind_eval alift_def)
qed

text \<open>An import: the request is answered with the head of a chunked response, then each piece of the body is written.\<close>

lemma import_request_step:
  assumes "hc_stream c = TunnelOpen io" "write_outcomes io = []" "list_all url_char path" "path \<noteq> []" "list_all header_ok hs"
    and "inbox io = http_request_bytes Get path hs @ rest"
  shows "handle_import_request H (c, x) = (Ready (Inr (request_of (he_strings H) Get path hs)),
    (c\<lparr>hc_stream := TunnelOpen (io\<lparr>inbox := rest, outbox := outbox io @ build_chunked_response_headers\<rparr>)\<rparr>, x))"
proof -
  let ?r = "request_of (he_strings H) Get path hs" and ?c1 = "c\<lparr>hc_stream := TunnelOpen (io\<lparr>inbox := rest\<rparr>)\<rparr>"
  let ?io2 = "io\<lparr>inbox := rest, outbox := outbox io @ build_chunked_response_headers\<rparr>"
  have "read_http_request H (c, x) = (Ready (Inr ?r), (?c1, x))" by (rule read_request_step [OF assms(1,3-6)])
  moreover have "write_chunked_response_headers H (?c1, x) = (Ready (Inr ()), (c\<lparr>hc_stream := TunnelOpen ?io2\<rparr>, x))"
    using tunnel_write_step [of ?c1 "io\<lparr>inbox := rest\<rparr>" H build_chunked_response_headers x] assms(2)
    by (simp add: write_chunked_response_headers_def)
  ultimately show ?thesis by (simp add: handle_import_request_def abind_eval alift_def request_of_def)
qed

lemma write_piece_step:
  assumes "hc_stream c = TunnelOpen io" "write_outcomes io = []"
  shows "d \<noteq> [] \<Longrightarrow> write_chunked_body H d (c, x) =
      (Ready (Inr ()), (c\<lparr>hc_stream := TunnelOpen (io\<lparr>outbox := outbox io @ encode_chunk d\<rparr>)\<rparr>, x))"
    "write_final_chunk H (c, x) = (Ready (Inr ()), (c\<lparr>hc_stream := TunnelOpen (io\<lparr>outbox := outbox io @ encode_chunk []\<rparr>)\<rparr>, x))"
  using tunnel_write_step [OF assms, of H] by (simp_all add: write_chunked_body_def write_final_chunk_def)

subsection \<open>Byte ranges\<close>

lemma source_steps [tunnel_steps]:
  "src_faults src = [] \<Longrightarrow> src_seek_end src = (Ready (Inr (length (src_content src))), src\<lparr>src_pos := length (src_content src)\<rparr>)"
  "src_faults src = [] \<Longrightarrow> src_seek_start n src = (Ready (Inr ()), src\<lparr>src_pos := n\<rparr>)"
  "src_faults src = [] \<Longrightarrow> src_pos src + n \<le> length (src_content src) \<Longrightarrow>
    src_read_exact n src = (Ready (Inr (take n (drop (src_pos src) (src_content src)))), src\<lparr>src_pos := src_pos src + n\<rparr>)"
  by (simp_all add: src_seek_end_def src_seek_start_def src_read_exact_def src_step_def Let_def)

lemma write_span_all:
  "write_outcomes io = [] \<Longrightarrow> src_faults src = [] \<Longrightarrow> src_pos src + r \<le> length (src_content src) \<Longrightarrow>
    write_span start span_len r (io, src) = (Ready (Inr ()),
      (io\<lparr>outbox := outbox io @ take r (drop (src_pos src) (src_content src))\<rparr>, src\<lparr>src_pos := src_pos src + r\<rparr>))"
proof (induction start span_len r arbitrary: io src rule: write_span.induct)
  case (1 start span_len r)
  show ?case
  proof (cases "r = 0")
    case True
    then show ?thesis by (simp add: write_span.simps act_simps)
  next
    case False
    define n where "n = min r HTTP_CHUNK_SIZE"
    let ?piece = "take n (drop (src_pos src) (src_content src))"
    let ?io = "io\<lparr>outbox := outbox io @ ?piece\<rparr>" and ?src = "src\<lparr>src_pos := src_pos src + n\<rparr>"
    have n: "n \<le> r" by (simp add: n_def)
    then have pos: "src_pos src + n \<le> length (src_content src)" using 1(4) by simp
    have "write_span start span_len r (io, src) = write_span start span_len (r - n) (?io, ?src)"
      using False 1(2,3) pos by (subst write_span.simps) (simp add: n_def [symmetric] Let_def abind_eval tunnel_steps)
    moreover have "take r (drop (src_pos src) (src_content src)) = ?piece @ take (r - n) (drop (src_pos src + n) (src_content src))"
      using n by (metis add_diff_inverse_nat linorder_not_less drop_drop take_add add.commute)
    ultimately show ?thesis using 1(1) [OF False n_def, of ?io ?src] 1(2-4) n by simp
  qed
qed

lemma write_span_response_all:
  assumes "write_outcomes io = []" "src_faults src = []" "start \<le> stop" "stop \<le> length (src_content src)"
  shows "write_span_response head start stop (io, src) = (Ready (Inr ()),
    (io\<lparr>outbox := outbox io @ head @ take (stop - start) (drop start (src_content src))\<rparr>, src\<lparr>src_pos := stop\<rparr>))"
proof -
  let ?io = "io\<lparr>outbox := outbox io @ head\<rparr>" and ?src = "src\<lparr>src_pos := start\<rparr>"
  have "write_span start (stop - start) (stop - start) (?io, ?src) = (Ready (Inr ()),
      (io\<lparr>outbox := outbox io @ head @ take (stop - start) (drop start (src_content src))\<rparr>, src\<lparr>src_pos := stop\<rparr>))"
    using write_span_all [of ?io ?src "stop - start" start "stop - start"] assms by simp
  then show ?thesis using assms(1,2) by (simp add: write_span_response_def Let_def abind_eval tunnel_steps)
qed

definition bad_request :: "byte list" where
  "bad_request = as_bytes ''HTTP/1.1 400 Bad Request'' @ crlf @ crlf"

definition file_head :: "nat \<Rightarrow> byte list" where
  "file_head n = as_bytes ''HTTP/1.1 200 OK'' @ crlf @ as_bytes (''Content-Length: '' @ show_nat n) @ crlf @ crlf"

text \<open>The answer to a request for a range of a file, and to any request for it.\<close>

definition range_response :: "byte list \<Rightarrow> string \<Rightarrow> byte list" where
  "range_response content range_header = (case parse_byte_range range_header of
      None \<Rightarrow> bad_request
    | Some (start, stop) \<Rightarrow>
        if start < length content \<and> start \<le> stop then
          let last = min stop (length content - 1) in
          partial_head (last - start + 1) start last (length content) @ take (last - start + 1) (drop start content)
        else bad_request)"

definition file_response :: "byte list \<Rightarrow> HttpRequest \<Rightarrow> byte list" where
  "file_response content r = (case rq_method r of
      Head \<Rightarrow> file_head (length content)
    | Get \<Rightarrow> (case rq_headers r ''range'' of Some h \<Rightarrow> range_response content h | None \<Rightarrow> file_head (length content) @ content)
    | Put \<Rightarrow> [])"

lemma serve_byte_range_all:
  assumes "write_outcomes io = []" "src_faults src = []"
  shows "\<exists>pos. serve_byte_range (length (src_content src)) h (io, src) =
    (Ready (Inr ()), (io\<lparr>outbox := outbox io @ range_response (src_content src) h\<rparr>, src\<lparr>src_pos := pos\<rparr>))"
proof -
  have bad: "on_fst write_bad_request_response (io, src) =
      (Ready (Inr ()), (io\<lparr>outbox := outbox io @ bad_request\<rparr>, src))"
    using assms(1) by (simp add: on_fst_def write_bad_request_response_def bad_request_def abind_eval tunnel_steps)
  show ?thesis
  proof (cases "parse_byte_range h")
    case None
    then show ?thesis using bad by (auto simp: serve_byte_range_def range_response_def intro: exI [of _ "src_pos src"])
  next
    case (Some ab)
    obtain start stop where ab: "ab = (start, stop)" by (cases ab)
    let ?last = "min stop (length (src_content src) - 1)"
    show ?thesis
    proof (cases "start < length (src_content src) \<and> start \<le> stop")
      case True
      then have "start \<le> ?last + 1" "?last + 1 \<le> length (src_content src)" "\<not> ?last < start" by auto
      with True show ?thesis
        using write_span_response_all [OF assms, of start "?last + 1"] Some ab
        by (auto simp: serve_byte_range_def range_response_def Let_def Suc_diff_le)
    next
      case False
      then show ?thesis using bad Some ab
        by (auto simp: serve_byte_range_def range_response_def Let_def intro: exI [of _ "src_pos src"])
    qed
  qed
qed

lemma serve_request_all:
  assumes "write_outcomes io = []" "src_faults src = []" "rq_method r \<noteq> Put"
  shows "\<exists>pos. serve_request (length (src_content src)) r (io, src) =
    (Ready (Inr ()), (io\<lparr>outbox := outbox io @ file_response (src_content src) r\<rparr>, src\<lparr>src_pos := pos\<rparr>))"
proof (cases "rq_method r")
  case Head
  then show ?thesis using assms(1)
    by (auto simp: serve_request_def file_response_def file_head_def write_file_size_response_def on_fst_def abind_eval tunnel_steps
        intro: exI [of _ "src_pos src"])
next
  case Get
  show ?thesis
  proof (cases "rq_headers r ''range''")
    case None
    then show ?thesis using Get write_span_response_all [OF assms(1,2), of 0 "length (src_content src)"]
      by (auto simp: serve_request_def file_response_def serve_whole_file_def file_head_def)
  next
    case (Some h)
    then show ?thesis using Get serve_byte_range_all [OF assms(1,2), of h] by (simp add: serve_request_def file_response_def)
  qed
next
  case Put
  then show ?thesis using assms(3) by simp
qed

text \<open>A session: the requests of the peer one after the other, then the end of the stream.\<close>

record peer_request =
  pr_method :: HttpMethod
  pr_path :: string
  pr_headers :: "(string \<times> string) list"

definition peer_bytes :: "peer_request \<Rightarrow> byte list" where
  "peer_bytes q = http_request_bytes (pr_method q) (pr_path q) (pr_headers q)"

definition peer_ok :: "peer_request \<Rightarrow> bool" where
  "peer_ok q \<longleftrightarrow> pr_method q \<noteq> Put \<and> list_all url_char (pr_path q) \<and> pr_path q \<noteq> [] \<and> list_all header_ok (pr_headers q)"

definition peer_request_of :: "string_env \<Rightarrow> peer_request \<Rightarrow> HttpRequest" where
  "peer_request_of S q = request_of S (pr_method q) (pr_path q) (pr_headers q)"

lemma request_at_end:
  assumes "inbox io = []" "inbox_end io = Some e"
  shows "parse_http_request S io = (Ready (fail (ProtocolError (''Failed to read request line: '' @ e))), io)"
proof -
  have "stream_read_exact 1 io = (Ready (fail e), io)"
    using assms by (simp add: stream_read_exact_def amap_err_def io_read_exact_def map_err_def)
  then have "read_line io = (Ready (fail e), io)" by (simp add: read_line_def abind_eval assms(1))
  then have "or_protocol ''Failed to read request line: '' read_line io = (Ready (fail (ProtocolError (''Failed to read request line: '' @ e))), io)"
    by (simp add: or_protocol_def amap_err_def map_err_def)
  then show ?thesis by (simp add: parse_http_request_def abind_eval)
qed

lemma serve_requests_step:
  "parse_http_request S io = (Ready (fail (ProtocolError m)), io') \<Longrightarrow>
    serve_requests S (Suc n) len (io, src) = (Ready (Inr ()), (io', src))"
  "parse_http_request S io = (Ready (Inr r), io') \<Longrightarrow>
    serve_requests S (Suc n) len (io, src) = abind (serve_request len r) (\<lambda>_. serve_requests S n len) (io', src)"
  by (simp_all add: abind_def acatch_def on_fst_def alift_def)

lemma serve_requests_all:
  "list_all peer_ok qs \<Longrightarrow> inbox io = concat (map peer_bytes qs) \<Longrightarrow> inbox_end io = Some e \<Longrightarrow> write_outcomes io = [] \<Longrightarrow>
    src_faults src = [] \<Longrightarrow> length qs < n \<Longrightarrow> \<exists>pos. serve_requests S n (length (src_content src)) (io, src) = (Ready (Inr ()),
      (io\<lparr>inbox := [], outbox := outbox io @ concat (map (\<lambda>q. file_response (src_content src) (peer_request_of S q)) qs)\<rparr>,
       src\<lparr>src_pos := pos\<rparr>))"
proof (induction qs arbitrary: io src n)
  case Nil
  then obtain n' where n: "n = Suc n'" by (cases n) auto
  have "serve_requests S n (length (src_content src)) (io, src) = (Ready (Inr ()), (io, src))"
    unfolding n by (rule serve_requests_step(1), rule request_at_end) (use Nil in simp_all)
  then show ?case using Nil.prems(2) by (auto intro!: exI [of _ "src_pos src"])
next
  case (Cons q qs)
  then obtain n' where n: "n = Suc n'" by (cases n) auto
  let ?r = "peer_request_of S q" and ?rest = "concat (map peer_bytes qs)"
  have q: "list_all url_char (pr_path q)" "pr_path q \<noteq> []" "list_all header_ok (pr_headers q)" "rq_method ?r \<noteq> Put"
    using Cons.prems(1) by (simp_all add: peer_ok_def peer_request_of_def request_of_def)
  have read: "parse_http_request S io = (Ready (Inr ?r), io\<lparr>inbox := ?rest\<rparr>)"
    unfolding peer_request_of_def by (rule parse_request_all [OF q(1-3)]) (use Cons.prems(2) peer_bytes_def [of q] in simp)
  obtain pos where served: "serve_request (length (src_content src)) ?r (io\<lparr>inbox := ?rest\<rparr>, src) = (Ready (Inr ()),
      (io\<lparr>inbox := ?rest, outbox := outbox io @ file_response (src_content src) ?r\<rparr>, src\<lparr>src_pos := pos\<rparr>))"
    using serve_request_all [of "io\<lparr>inbox := ?rest\<rparr>" src ?r] Cons.prems(4,5) q(4) by auto
  let ?io = "io\<lparr>inbox := ?rest, outbox := outbox io @ file_response (src_content src) ?r\<rparr>" and ?src = "src\<lparr>src_pos := pos\<rparr>"
  have "serve_requests S n (length (src_content src)) (io, src) = serve_requests S n' (length (src_content src)) (?io, ?src)"
    unfolding n serve_requests_step(2) [OF read] by (rule abind_eval(1)) (rule served)
  then show ?case using Cons.IH [of ?io ?src n'] Cons.prems n by auto
qed

lemma serve_session_all:
  assumes "list_all peer_ok qs" "inbox io = concat (map peer_bytes qs)" "inbox_end io = Some e" "write_outcomes io = []" "src_faults src = []"
  shows "\<exists>pos. serve_parquet_range_requests S (io, src) = (Ready (Inr ()),
    (io\<lparr>inbox := [], outbox := outbox io @ concat (map (\<lambda>q. file_response (src_content src) (peer_request_of S q)) qs)\<rparr>,
     src\<lparr>src_pos := pos\<rparr>))"
proof -
  let ?src = "src\<lparr>src_pos := length (src_content src)\<rparr>"
  have opened: "file_open (io, src) = (Ready (Inr (length (src_content src))), (io, ?src))"
    using assms(5) by (simp add: file_open_def tunnel_steps)
  have "1 \<le> length (peer_bytes q)" for q by (simp add: peer_bytes_def http_request_bytes_def crlf_def)
  then have "length qs \<le> length (concat (map peer_bytes qs))"
  proof (induction qs)
    case (Cons q qs)
    from Cons.prems [of q] Cons.IH [OF Cons.prems] show ?case by (simp del: length_concat)
  qed simp
  then have "length qs < Suc (length (inbox io))" using assms(2) by simp
  moreover have "src_faults ?src = []" using assms(5) by simp
  ultimately have "\<exists>pos. serve_requests S (Suc (length (inbox io))) (length (src_content ?src)) (io, ?src) = (Ready (Inr ()),
    (io\<lparr>inbox := [], outbox := outbox io @ concat (map (\<lambda>q. file_response (src_content ?src) (peer_request_of S q)) qs)\<rparr>,
     ?src\<lparr>src_pos := pos\<rparr>))"
    using serve_requests_all [OF assms(1-4)] by blast
  then obtain pos where "serve_requests S (Suc (length (inbox io))) (length (src_content src)) (io, ?src) = (Ready (Inr ()),
    (io\<lparr>inbox := [], outbox := outbox io @ concat (map (\<lambda>q. file_response (src_content src) (peer_request_of S q)) qs)\<rparr>,
     src\<lparr>src_pos := pos\<rparr>))" by (auto simp del: serve_requests.simps)
  then show ?thesis using opened by (auto simp: serve_parquet_range_requests_def abind_eval simp del: serve_requests.simps)
qed

text \<open>A request with another method ends the session without an error.\<close>

lemma unknown_method_ends:
  assumes "list_all url_char m" "m \<noteq> []" "m \<notin> {''GET'', ''PUT'', ''HEAD''}" "list_all url_char path" "path \<noteq> []"
    and "inbox io = as_bytes (m @ '' '' @ path @ '' HTTP/1.1'') @ crlf @ rest" "src_faults src = []"
  shows "serve_parquet_range_requests S (io, src) =
    (Ready (Inr ()), (io\<lparr>inbox := rest\<rparr>, src\<lparr>src_pos := length (src_content src)\<rparr>))"
proof -
  let ?line = "m @ '' '' @ path @ '' HTTP/1.1''" and ?src = "src\<lparr>src_pos := length (src_content src)\<rparr>"
  have v: "list_all url_char ''HTTP/1.1''" by (simp add: url_char_def)
  have parts: "split_whitespace ?line = [m, path, ''HTTP/1.1'']"
    using split_three_words [OF assms(1,4) v assms(2,5)] by simp
  have line: "list_all line_char ?line" using assms(1,4) url_line_char by (auto simp: list_all_iff line_char_def)
  have "or_protocol ''Failed to read request line: '' read_line io = (Ready (Inr ?line), io\<lparr>inbox := rest\<rparr>)"
    by (rule or_steps(2)) (rule read_line_text [OF line assms(6)])
  then have "parse_http_request S io = (Ready (fail (ProtocolError (''Unsupported HTTP method: '' @ quoted m))), io\<lparr>inbox := rest\<rparr>)"
    using assms(3) parts by (simp add: parse_http_request_def abind_eval parse_method_def act_simps)
  then have "serve_requests S (Suc (length (inbox io))) (length (src_content src)) (io, ?src) = (Ready (Inr ()), (io\<lparr>inbox := rest\<rparr>, ?src))"
    by (rule serve_requests_step(1))
  moreover have "file_open (io, src) = (Ready (Inr (length (src_content src))), (io, ?src))"
    using assms(7) by (simp add: file_open_def tunnel_steps)
  ultimately show ?thesis by (simp add: serve_parquet_range_requests_def abind_eval del: serve_requests.simps)
qed

subsection \<open>Termination\<close>

text \<open>
  Nothing puts bytes back, so the bytes still to come, measured by \<open>k\<close>, never grow, and
  every loop that reads a line takes some of them. An action is calm when it does not run
  out of turns and leaves no more bytes than it found.
\<close>

definition calm :: "('s \<Rightarrow> nat) \<Rightarrow> ('e, 's, 'a) task \<Rightarrow> 's \<Rightarrow> bool" where
  "calm k m s \<longleftrightarrow> fst (m s) \<noteq> Ready (Inl Diverged) \<and> k (snd (m s)) \<le> k s"

definition takes :: "('s \<Rightarrow> nat) \<Rightarrow> ('e, 's, 'a) task \<Rightarrow> 's \<Rightarrow> bool" where
  "takes k m s \<longleftrightarrow> (\<forall>x s'. m s = (Ready (Inr x), s') \<longrightarrow> k s' < k s)"

abbreviation left :: "io_stream \<Rightarrow> nat" where
  "left io \<equiv> length (inbox io)"

definition left_fst :: "io_stream \<times> 'x \<Rightarrow> nat" where
  "left_fst s = left (fst s)"

lemma calm_bind:
  assumes "calm k m s" and "\<And>x s'. m s = (Ready (Inr x), s') \<Longrightarrow> k s' \<le> k s \<Longrightarrow> calm k (f x) s'"
  shows "calm k (abind m f) s"
proof (cases "m s")
  case (Pair p s')
  then show ?thesis
    using assms by (cases p) (auto simp: calm_def abind_def split: sum.splits dest: order_trans)
qed

lemma calm_value: "r \<noteq> Inl Diverged \<Longrightarrow> calm k (alift r) s" "calm k (areturn x) s" "calm k (athrow e) s"
  by (simp_all add: calm_def alift_def act_simps)

lemma map_err_Diverged: "map_err f r = Inl Diverged \<longleftrightarrow> r = Inl Diverged"
  by (auto simp: map_err_def split: sum.splits fault.splits)

lemma calm_map: "calm k m s \<Longrightarrow> calm k (amap_err f m) s"
  by (auto simp: calm_def amap_err_def map_err_Diverged split: prod.splits poll.splits)

lemma calm_or: "calm k m s \<Longrightarrow> calm k (or_io prefix m) s" "calm k m s \<Longrightarrow> calm k (or_protocol prefix m) s"
  by (simp_all add: or_io_def or_protocol_def calm_map)

lemma calm_fst: "calm left m (fst s) \<Longrightarrow> calm left_fst (on_fst m) s"
  by (auto simp: calm_def left_fst_def on_fst_def split: prod.splits)

lemma calm_snd: "fst (m (snd s)) \<noteq> Ready (Inl Diverged) \<Longrightarrow> calm left_fst (on_snd m) s"
  by (auto simp: calm_def left_fst_def on_snd_def split: prod.splits)

lemma calm_ignore: "calm k m s \<Longrightarrow> calm k (aignore m) s"
  by (auto simp: calm_def aignore_def split: prod.splits poll.splits sum.splits fault.splits)

lemma calm_catch: "calm k m s \<Longrightarrow> calm k (acatch m) s"
  by (auto simp: calm_def acatch_def split: prod.splits poll.splits sum.splits fault.splits)

lemma calm_read: "calm left (stream_read_exact n) io"
  unfolding stream_read_exact_def
  by (rule calm_map) (auto simp: calm_def io_read_exact_def split: option.split)

lemma calm_write_all: "calm left (stream_write_all d) io"
  unfolding stream_write_all_def
  by (rule calm_map) (auto simp: calm_def io_write_all_def Let_def split: list.split write_outcome.split)

lemma calm_flush: "calm left stream_flush io"
  using calm_write_all [of "[]"] by (simp add: stream_flush_def stream_write_all_def)

lemmas calm_io = calm_read calm_write_all calm_flush

lemma takesD: "takes k m s \<Longrightarrow> m s = (Ready (Inr x), s') \<Longrightarrow> k s' < k s"
  by (auto simp: takes_def)

lemma read_takes: "0 < n \<Longrightarrow> takes left (stream_read_exact n) io"
  by (auto simp: takes_def stream_read_exact_def io_read_exact_def split: if_splits option.splits)

lemma takes_bind:
  assumes "takes k m s" and "\<And>x s'. m s = (Ready (Inr x), s') \<Longrightarrow> calm k (f x) s'"
  shows "takes k (abind m f) s"
  unfolding takes_def
proof (intro allI impI)
  fix x s' assume "abind m f s = (Ready (Inr x), s')"
  then obtain y t where "m s = (Ready (Inr y), t)" and "f y t = (Ready (Inr x), s')" by (auto simp: act_Ready)
  then show "k s' < k s" using assms(2) [of y t] takesD [OF assms(1)] by (fastforce simp: calm_def)
qed

lemma takes_map: "takes k m s \<Longrightarrow> takes k (or_protocol prefix m) s" "takes left m' (fst t) \<Longrightarrow> takes left_fst (on_fst m') t"
  by (auto simp: takes_def left_fst_def or_protocol_def on_fst_def split: prod.splits)

lemma read_line_loop_calm: "left io < n \<Longrightarrow> calm left (read_line_loop n line) io"
proof (induction n arbitrary: line io)
  case (Suc n)
  have "line_text l \<noteq> Inl Diverged" for l by (simp add: line_text_def)
  then show ?case unfolding read_line_loop.simps using Suc.prems
    by (auto intro!: calm_bind calm_io calm_value Suc.IH dest!: takesD [OF read_takes, rotated])
qed simp

lemma read_line_calm: "calm left read_line io"
  using read_line_loop_calm [of io "Suc (left io)" "[]"] by (simp add: calm_def read_line_def)

lemma read_line_takes: "takes left read_line io"
proof -
  have "line_text l \<noteq> Inl Diverged" for l by (simp add: line_text_def)
  then have "takes left (read_line_loop (Suc (left io)) []) io" unfolding read_line_loop.simps
    by (auto intro!: takes_bind read_takes calm_bind calm_io calm_value read_line_loop_calm dest!: takesD [OF read_takes, rotated])
  then show ?thesis by (simp add: takes_def read_line_def)
qed

lemmas line_calm = calm_or [OF read_line_calm] takes_map(1) [OF read_line_takes]

lemma parse_headers_calm: "left io < n \<Longrightarrow> calm left (parse_headers S n headers) io"
proof (induction n arbitrary: headers io)
  case (Suc n)
  then show ?case unfolding parse_headers.simps
    by (auto intro!: calm_bind line_calm calm_value Suc.IH dest!: takesD [OF line_calm(3)])
qed simp

lemma parse_method_ends: "parse_method t \<noteq> Inl Diverged"
  by (simp add: parse_method_def)

lemma calm_state: "calm k (m s) s \<Longrightarrow> calm k (\<lambda>s. m s s) s"
  by (simp add: calm_def)

lemma parse_request_calm: "calm left (parse_http_request S) io" "takes left (parse_http_request S) io"
proof -
  have tail: "calm left (\<lambda>io. abind (parse_headers S (Suc (left io)) Map.empty) (\<lambda>h. areturn (f h)) io) io"
    for f :: "(string \<rightharpoonup> string) \<Rightarrow> HttpRequest" and io
    by (rule calm_state) (intro calm_bind parse_headers_calm calm_value, simp)
  show "calm left (parse_http_request S) io" "takes left (parse_http_request S) io"
    unfolding parse_http_request_def Let_def
    by (auto intro!: calm_bind takes_bind line_calm calm_value parse_method_ends tail simp del: parse_headers.simps)
qed

lemma sink_send_ends: "fst (sink_send d sk) \<noteq> Ready (Inl Diverged)"
  by (auto simp: sink_send_def split: option.split nat.split)

lemma forward_sized_calm: "calm left_fst (forward_sized_body n) s"
proof -
  have "calm left_fst (forward_pieces len n) s" for len n s
    by (induction len n arbitrary: s rule: forward_pieces.induct)
      (subst forward_pieces.simps, auto simp: Let_def intro!: calm_bind calm_fst calm_snd calm_or calm_io calm_value sink_send_ends)
  then show ?thesis by (simp add: forward_sized_body_def)
qed

lemma parse_chunk_size_ends: "parse_chunk_size line \<noteq> Inl Diverged"
  by (simp add: parse_chunk_size_def Let_def split: sum.split)

lemma forward_chunks_calm: "left_fst s < n \<Longrightarrow> calm left_fst (forward_chunks n) s"
proof (induction n arbitrary: s)
  case (Suc n)
  show ?case unfolding forward_chunks.simps using Suc.prems
    by (auto intro!: calm_bind calm_fst calm_or calm_io calm_value line_calm parse_chunk_size_ends forward_sized_calm Suc.IH
        dest!: takesD [OF takes_map(2) [OF line_calm(3)]])
qed simp

lemma forward_chunked_calm: "calm left_fst forward_chunked_body s"
  using forward_chunks_calm [of s "Suc (left_fst s)"] by (simp add: calm_def left_fst_def forward_chunked_body_def del: forward_chunks.simps)

lemma src_ends:
  "fst (or_io prefix src_seek_end src) \<noteq> Ready (Inl Diverged)"
  "fst (or_io prefix (src_seek_start n) src) \<noteq> Ready (Inl Diverged)"
  "fst (or_io prefix (src_read_exact n) src) \<noteq> Ready (Inl Diverged)"
  by (auto simp: or_io_def amap_err_def map_err_Diverged src_seek_end_def src_seek_start_def src_read_exact_def src_step_def Let_def
      split: prod.splits poll.splits list.splits option.splits if_splits)

lemma write_span_calm: "calm left_fst (write_span start len n) s"
  by (induction start len n arbitrary: s rule: write_span.induct)
    (subst write_span.simps, auto simp: Let_def intro!: calm_bind calm_fst calm_snd calm_or calm_io calm_value src_ends)

lemma write_span_response_calm: "calm left_fst (write_span_response head start stop) s"
  unfolding write_span_response_def Let_def
  by (intro calm_bind calm_fst calm_snd calm_or calm_io src_ends write_span_calm)

lemma serve_request_calm: "calm left_fst (serve_request file_len r) s"
proof -
  have bad: "calm left_fst (on_fst write_bad_request_response) t" for t :: "io_stream \<times> byte_source"
    unfolding write_bad_request_response_def by (intro calm_fst calm_bind calm_or calm_io)
  show ?thesis
    by (auto simp: serve_request_def serve_byte_range_def serve_whole_file_def write_file_size_response_def reject_put_def Let_def
        intro!: calm_fst calm_bind calm_or calm_io calm_ignore calm_value write_span_response_calm bad
        split: HttpMethod.split option.split)
qed

lemma request_taken:
  "acatch (on_fst (parse_http_request S)) s = (Ready (Inr (Inr r)), t) \<Longrightarrow> left_fst t < left_fst s"
  using takesD [OF takes_map(2) [OF parse_request_calm(2)], of S s r t]
  by (auto simp: acatch_def split: prod.splits poll.splits sum.splits fault.splits)

lemma serve_requests_calm: "left_fst s < n \<Longrightarrow> calm left_fst (serve_requests S n file_len) s"
proof (induction n arbitrary: s)
  case (Suc n)
  show ?case unfolding serve_requests.simps using Suc.prems
    by (auto intro!: calm_bind calm_catch calm_fst parse_request_calm calm_value serve_request_calm Suc.IH dest!: request_taken
        split: sum.split TransportError.split)
qed simp

lemma serve_parquet_calm: "calm left_fst (serve_parquet_range_requests S) s"
proof -
  have loop: "calm left_fst (\<lambda>s. serve_requests S (Suc (left (fst s))) n s) s" for n s
    by (rule calm_state) (rule serve_requests_calm, simp add: left_fst_def)
  show ?thesis unfolding serve_parquet_range_requests_def file_open_def
    by (intro calm_bind calm_snd src_ends loop)
qed

text \<open>On the tunnel only the turns matter, so the measure is constant.\<close>

lemma complete_handshake_ends: "complete_handshake H io bound \<noteq> Inl Diverged"
  by (auto simp: complete_handshake_def SetupDeadline_run_def run_of_def Let_def split: option.split sum.split)

lemma tunnel_open_stream_calm: "calm (\<lambda>_. 0) (on_fst (tunnel_open_stream H)) s"
  using complete_handshake_ends
  by (auto simp: calm_def on_fst_def tunnel_open_stream_def split: TunnelStream.split sum.split prod.split)

lemma on_open_calm:
  assumes "\<And>t. calm k m t"
  shows "calm (\<lambda>_. 0) (on_open H m) s"
proof -
  have "fst (m t) \<noteq> Ready (Inl Diverged)" for t using assms [of t] by (simp add: calm_def)
  then show ?thesis unfolding on_open_def
    by (intro calm_bind [OF tunnel_open_stream_calm]) (fastforce simp: calm_def split: TunnelStream.split prod.split dest: arg_cong [where f = fst])
qed

lemma tunnel_calm:
  "calm (\<lambda>_. 0) (read_http_request H) s" "calm (\<lambda>_. 0) (tunnel_write H d) t"
  unfolding read_http_request_def tunnel_write_def
  by (intro on_open_calm [where k = left_fst] calm_fst calm_bind calm_or calm_io parse_request_calm)+

lemma import_calm: "calm (\<lambda>_. 0) (handle_import_request H) s"
  unfolding handle_import_request_def write_chunked_response_headers_def
  by (auto intro!: calm_bind tunnel_calm calm_value)

lemma parquet_calm: "calm (\<lambda>_. 0) (handle_parquet_import_requests H) s"
  unfolding handle_parquet_import_requests_def by (rule on_open_calm, rule serve_parquet_calm)

lemma export_body_calm: "calm (\<lambda>_. 0) (export_body H r) s"
  unfolding export_body_def read_chunked_body_def
  by (auto intro!: calm_value on_open_calm forward_chunked_calm forward_sized_calm split: option.split)

lemma export_calm: "calm (\<lambda>_. 0) (handle_export_request H) s"
  unfolding handle_export_request_def write_http_response_def
  by (auto intro!: calm_bind tunnel_calm calm_value export_body_calm)

end
