(* ===== verification/Csv_Laws.thy ===== *)
theory Csv_Laws
  imports Csv_Data Http_Tunnel_Laws
begin

text \<open>
  Laws of the CSV data of bulk import and export: rows that are written are read back, by the
  iterator over all rows and by the parser of a single line, and the body of an import carries
  exactly the data it was given.
\<close>

subsection \<open>Characters\<close>

text \<open>One encoded character.\<close>

definition utf8_unit :: "byte list \<Rightarrow> bool" where
  "utf8_unit u \<longleftrightarrow> (case u of
      [a] \<Rightarrow> unat a < 128
    | [a, b] \<Rightarrow> 194 \<le> unat a \<and> unat a < 224 \<and> utf8_second a b
    | [a, b, c] \<Rightarrow> 224 \<le> unat a \<and> unat a < 240 \<and> utf8_second a b \<and> utf8_tail c
    | [a, b, c, d] \<Rightarrow> 240 \<le> unat a \<and> unat a < 245 \<and> utf8_second a b \<and> utf8_tail c \<and> utf8_tail d
    | _ \<Rightarrow> False)"

lemma utf8_error_unit: "utf8_unit u \<Longrightarrow> utf8_error i (u @ r) = utf8_error (i + length u) r"
  unfolding utf8_unit_def by (auto split: list.splits simp del: utf8_error.simps(2)) (simp_all add: utf8_error.simps(2) eval_nat_numeral)

lemma utf8_error_first:
  assumes "utf8_error i (a # bs) = None"
  obtains u r where "a # bs = u @ r" "utf8_unit u" "utf8_error (i + length u) r = None"
proof (cases "unat a < 128")
  case True
  then show ?thesis using assms that [of "[a]" bs] by (simp add: utf8_unit_def)
next
  case False
  have a: "194 \<le> unat a" "unat a < 245" using assms False by (auto split: if_splits)
  obtain b r where bs: "bs = b # r" using assms False a by (cases bs) auto
  have b: "utf8_second a b" using assms False a bs by (auto split: if_splits)
  show ?thesis
  proof (cases "unat a < 224")
    case True
    then show ?thesis using assms that [of "[a, b]" r] False a b bs by (simp add: utf8_unit_def)
  next
    case f224: False
    obtain c r' where r: "r = c # r'" using assms False a b bs f224 by (cases r) auto
    have c: "utf8_tail c" using assms False a b bs f224 r by (auto split: if_splits)
    show ?thesis
    proof (cases "unat a < 240")
      case True
      then show ?thesis using assms that [of "[a, b, c]" r'] False a b bs f224 r c by (simp add: utf8_unit_def eval_nat_numeral)
    next
      case f240: False
      obtain d r'' where r': "r' = d # r''" using assms False a b bs f224 f240 r c by (cases r') auto
      have d: "utf8_tail d" using assms False a b bs f224 f240 r c r' by (auto split: if_splits)
      show ?thesis using assms that [of "[a, b, c, d]" r''] False a b bs f224 f240 r c r' d by (simp add: utf8_unit_def eval_nat_numeral)
    qed
  qed
qed

lemma utf8_error_units: "utf8_error i bs = None \<longleftrightarrow> (\<exists>us. list_all utf8_unit us \<and> bs = concat us)"
proof
  show "utf8_error i bs = None \<Longrightarrow> \<exists>us. list_all utf8_unit us \<and> bs = concat us"
  proof (induction bs arbitrary: i rule: length_induct)
    case (1 bs)
    show ?case
    proof (cases bs)
      case Nil
      then show ?thesis by (intro exI [of _ "[]"]) simp
    next
      case (Cons a bs')
      then obtain u r where ur: "bs = u @ r" "utf8_unit u" "utf8_error (i + length u) r = None"
        using utf8_error_first [of i a bs'] "1.prems" by metis
      then have "u \<noteq> []" by (auto simp: utf8_unit_def)
      then have "length r < length bs" using ur(1) by simp
      then obtain us where "list_all utf8_unit us" "r = concat us" using 1 ur(3) by blast
      then show ?thesis using ur by (intro exI [of _ "u # us"]) simp
    qed
  qed
  have "list_all utf8_unit us \<Longrightarrow> utf8_error i (concat us) = None" for us
    by (induction us arbitrary: i) (simp_all add: utf8_error_unit)
  then show "\<exists>us. list_all utf8_unit us \<and> bs = concat us \<Longrightarrow> utf8_error i bs = None" by auto
qed

text \<open>A character, and a text: every Rust string is one.\<close>

definition is_char :: "string \<Rightarrow> bool" where
  "is_char u \<longleftrightarrow> utf8_unit (as_bytes u)"

definition is_text :: "string \<Rightarrow> bool" where
  "is_text s \<longleftrightarrow> utf8_valid (as_bytes s)"

lemma char_shape:
  assumes "is_char u"
  obtains c t where "u = c # t" "if is_ascii c then t = [] else \<not> is_utf8_tail c \<and> list_all is_utf8_tail t"
proof -
  have tail: "is_utf8_tail c \<longleftrightarrow> utf8_tail (byte_of_char c)" and low: "is_ascii c \<longleftrightarrow> unat (byte_of_char c) < 128" for c
    by (simp_all add: is_utf8_tail_def utf8_tail_def is_ascii_def byte_of_char_def unat_of_nat)
  have second: "utf8_second a b \<Longrightarrow> utf8_tail b" for a b by (simp add: utf8_second_def)
  have "u \<noteq> [] \<and> (if is_ascii (hd u) then tl u = [] else \<not> is_utf8_tail (hd u) \<and> list_all is_utf8_tail (tl u))"
    using assms unfolding is_char_def utf8_unit_def as_bytes_def tail low
    by (auto split: list.splits simp: utf8_tail_def dest!: second)
  then show ?thesis using that [of "hd u" "tl u"] by simp
qed

text \<open>What can follow a character.\<close>

definition char_start :: "string \<Rightarrow> bool" where
  "char_start s \<longleftrightarrow> (case s of [] \<Rightarrow> True | c # _ \<Rightarrow> \<not> is_utf8_tail c)"

lemma ascii_not_tail: "is_ascii c \<Longrightarrow> \<not> is_utf8_tail c"
  by (simp add: is_ascii_def is_utf8_tail_def)

lemma char_text: "is_char u \<Longrightarrow> char_start (u @ s)"
  by (erule char_shape) (use ascii_not_tail in \<open>auto simp: char_start_def split: if_splits\<close>)

lemma chars_text: "list_all is_char us \<Longrightarrow> char_start s \<Longrightarrow> char_start (concat us @ s)"
  by (cases us) (simp_all add: char_text)

lemma chars_of_char:
  assumes "is_char u" "char_start s"
  shows "map snd (char_indices i (u @ s)) = u # map snd (char_indices (i + length u) s)"
proof -
  obtain c t where u: "u = c # t" and ct: "if is_ascii c then t = [] else \<not> is_utf8_tail c \<and> list_all is_utf8_tail t"
    using char_shape [OF assms(1)] by blast
  show ?thesis
  proof (cases "is_ascii c")
    case True
    then show ?thesis using u ct by simp
  next
    case False
    then have t: "\<forall>x \<in> set t. is_utf8_tail x" using ct by (simp add: list_all_iff)
    have "takeWhile is_utf8_tail (t @ s) = t \<and> dropWhile is_utf8_tail (t @ s) = s"
      using t assms(2) by (cases s) (auto simp: char_start_def takeWhile_append dropWhile_append)
    then show ?thesis using u False by (simp add: Let_def)
  qed
qed

lemma char_indices_shift: "map snd (char_indices i s) = map snd (char_indices j s)"
proof (induction i s arbitrary: j rule: char_indices.induct)
  case (2 i c cs)
  show ?case
  proof (cases "is_ascii c")
    case True
    then show ?thesis using 2(1) [of "j + 1"] by simp
  next
    case False
    then show ?thesis using 2(2) [of _ "j + 1 + length (takeWhile is_utf8_tail cs)"] by (simp add: Let_def)
  qed
qed simp

lemma text_chars_Cons: "is_char u \<Longrightarrow> char_start s \<Longrightarrow> text_chars (u @ s) = u # text_chars s"
  using chars_of_char [of u s 0] char_indices_shift [of "length u" s 0] by simp

lemma text_chars_concat: "list_all is_char us \<Longrightarrow> char_start s \<Longrightarrow> text_chars (concat us @ s) = us @ text_chars s"
  by (induction us) (simp_all add: text_chars_Cons chars_text)

lemma text_chars_of: "list_all is_char us \<Longrightarrow> text_chars (concat us) = us"
  using text_chars_concat [of us "[]"] by (simp add: char_start_def)

lemma concat_chars: "concat (map snd (char_indices i s)) = s"
  by (induction i s rule: char_indices.induct) (simp_all add: Let_def)

lemma is_text_chars:
  assumes "is_text s"
  shows "\<exists>us. list_all is_char us \<and> s = concat us"
proof -
  obtain us where us: "list_all utf8_unit us" "as_bytes s = concat us"
    using assms utf8_error_units [of 0 "as_bytes s"] by (auto simp: is_text_def utf8_valid_def)
  have "text_of (concat us) = concat (map text_of us)" by (induction us) (simp_all add: text_of_def)
  then have "s = concat (map text_of us)" using arg_cong [OF us(2), of text_of] by simp
  moreover have "list_all is_char (map text_of us)" using us(1) by (simp add: is_char_def list_all_iff)
  ultimately show ?thesis by blast
qed

lemma is_text_concat: "list_all is_char us \<Longrightarrow> is_text (concat us)"
proof -
  assume "list_all is_char us"
  then have "list_all utf8_unit (map as_bytes us)" by (simp add: is_char_def list_all_iff)
  moreover have "as_bytes (concat us) = concat (map as_bytes us)" by (induction us) (simp_all add: as_bytes_def)
  ultimately show ?thesis using utf8_error_units [of 0 "as_bytes (concat us)"] by (auto simp: is_text_def utf8_valid_def)
qed

lemma ascii_char: "is_ascii c \<Longrightarrow> is_char [c]"
  by (simp add: is_char_def utf8_unit_def as_bytes_def is_ascii_def byte_of_char_def unat_of_nat)

lemma line_chars: "is_char lf" "is_char cr"
  by (simp_all add: ascii_char is_ascii_def)

subsection \<open>Rows\<close>

text \<open>What a CSV dialect needs: separator and delimiter are different characters and no line breaks.\<close>

definition dialect :: "string \<Rightarrow> string \<Rightarrow> bool" where
  "dialect separator delimiter \<longleftrightarrow> is_char separator \<and> is_char delimiter \<and> separator \<noteq> delimiter
    \<and> separator \<notin> {lf, cr} \<and> delimiter \<notin> {lf, cr}"

text \<open>The characters that are written for a field with the characters \<open>us\<close>.\<close>

definition plain_field :: "string \<Rightarrow> string \<Rightarrow> string list \<Rightarrow> bool" where
  "plain_field sep delim us \<longleftrightarrow> set us \<inter> {sep, delim, lf, cr} = {}"

definition doubled :: "string \<Rightarrow> string list \<Rightarrow> string list" where
  "doubled delim us = concat (map (\<lambda>c. if c = delim then [delim, c] else [c]) us)"

definition field_chars :: "string \<Rightarrow> string \<Rightarrow> string list \<Rightarrow> string list" where
  "field_chars sep delim us = (if plain_field sep delim us then us else delim # doubled delim us @ [delim])"

lemma concat_doubled: "concat (doubled delim us) = concat (map (\<lambda>c. if c = delim then delim @ c else c) us)"
  by (induction us) (simp_all add: doubled_def)

lemma escape_field_chars:
  "list_all is_char us \<Longrightarrow> escape_field sep delim (concat us) = concat (field_chars sep delim us)"
  by (auto simp: escape_field_def field_chars_def plain_field_def needs_quoting_def text_chars_of concat_doubled)

lemma field_chars_ok: "is_char delim \<Longrightarrow> list_all is_char us \<Longrightarrow> list_all is_char (field_chars sep delim us)"
  by (auto simp: field_chars_def doubled_def list_all_iff)

lemma doubled_Cons: "doubled delim (c # us) = (if c = delim then [delim, c] else [c]) @ doubled delim us"
  by (simp add: doubled_def)

text \<open>Reading a field, in the iterator and in a line.\<close>

lemma scan_row_plain:
  "plain_field sep delim us \<Longrightarrow> scan_row sep delim row field False (us @ cs) = scan_row sep delim row (field @ concat us) False cs"
  by (induction us arbitrary: field) (auto simp: plain_field_def)

lemma scan_row_quoted:
  "\<not> (cs \<noteq> [] \<and> hd cs = delim) \<Longrightarrow>
    scan_row sep delim row field True (doubled delim us @ delim # cs) = scan_row sep delim row (field @ concat us) False cs"
  by (induction us arbitrary: field) (auto simp: doubled_def)

lemma scan_row_field:
  assumes "\<not> (cs \<noteq> [] \<and> hd cs = delim)"
  shows "scan_row sep delim row [] False (field_chars sep delim us @ cs) = scan_row sep delim row (concat us) False cs"
  using scan_row_plain [of sep delim us row "[]" cs] scan_row_quoted [OF assms, of sep row "[]" us]
  by (simp add: field_chars_def)

lemma scan_line_plain:
  "plain_field sep delim us \<Longrightarrow> scan_line sep delim row field False (us @ cs) = scan_line sep delim row (field @ concat us) False cs"
  by (induction us arbitrary: field) (auto simp: plain_field_def)

lemma scan_line_quoted:
  "\<not> (cs \<noteq> [] \<and> hd cs = delim) \<Longrightarrow>
    scan_line sep delim row field True (doubled delim us @ delim # cs) = scan_line sep delim row (field @ concat us) False cs"
  by (induction us arbitrary: field) (auto simp: doubled_def)

lemma scan_line_field:
  assumes "\<not> (cs \<noteq> [] \<and> hd cs = delim)"
  shows "scan_line sep delim row [] False (field_chars sep delim us @ cs) = scan_line sep delim row (concat us) False cs"
  using scan_line_plain [of sep delim us row "[]" cs] scan_line_quoted [OF assms, of sep row "[]" us]
  by (simp add: field_chars_def)

text \<open>The characters of a row, with the fields given as characters.\<close>

definition row_chars :: "string \<Rightarrow> string \<Rightarrow> string list list \<Rightarrow> string list" where
  "row_chars sep delim row = join [sep] (map (field_chars sep delim) row)"

fun end_chars :: "RowSeparator \<Rightarrow> string list" where
  "end_chars LF = [lf]"
| "end_chars CR = [cr]"
| "end_chars CRLF = [cr, lf]"

lemma scan_row_end:
  assumes "dialect sep delim" "rs = CR \<longrightarrow> \<not> (cs \<noteq> [] \<and> hd cs = lf)"
  shows "scan_row sep delim row field False (end_chars rs @ cs) = Inr (row @ [field], cs)"
  using assms by (cases rs) (auto simp: dialect_def)

lemma end_chars_hd: "dialect sep delim \<Longrightarrow> end_chars rs @ cs \<noteq> [] \<and> hd (end_chars rs @ cs) \<noteq> delim"
  by (cases rs) (auto simp: dialect_def)

lemma scan_row_all:
  "dialect sep delim \<Longrightarrow> row \<noteq> [] \<Longrightarrow> (rs = CR \<longrightarrow> \<not> (cs \<noteq> [] \<and> hd cs = lf)) \<Longrightarrow>
    scan_row sep delim fs [] False (row_chars sep delim row @ end_chars rs @ cs) = Inr (fs @ map concat row, cs)"
proof (induction row arbitrary: fs)
  case (Cons us row)
  show ?case
  proof (cases row)
    case Nil
    then show ?thesis
      using scan_row_field [of "end_chars rs @ cs" delim sep fs us] end_chars_hd [OF Cons.prems(1), of rs cs] scan_row_end [OF Cons.prems(1,3)]
      by (simp add: row_chars_def)
  next
    case (Cons vs more)
    let ?rest = "row_chars sep delim row @ end_chars rs @ cs"
    have "row_chars sep delim (us # row) = field_chars sep delim us @ sep # row_chars sep delim row"
      by (simp add: row_chars_def Cons)
    then have "scan_row sep delim fs [] False (row_chars sep delim (us # row) @ end_chars rs @ cs) =
        scan_row sep delim fs (concat us) False (sep # ?rest)"
      using scan_row_field [of "sep # ?rest" delim sep fs us] Cons.prems(1) by (simp add: dialect_def)
    also have "\<dots> = scan_row sep delim (fs @ [concat us]) [] False ?rest"
      using Cons.prems(1) by (simp add: dialect_def)
    finally show ?thesis using Cons.IH [of "fs @ [concat us]"] Cons.prems Cons by simp
  qed
qed simp

lemma row_chars_hd:
  assumes "dialect sep delim" "row \<noteq> []"
  shows "hd (row_chars sep delim row @ end_chars CR @ cs) \<noteq> lf"
proof -
  obtain us more where row: "row = us # more" using assms(2) by (cases row) auto
  have f: "field_chars sep delim us = [] \<or> hd (field_chars sep delim us) \<noteq> lf"
    using assms(1) by (cases us) (auto simp: field_chars_def plain_field_def dialect_def)
  show ?thesis
  proof (cases "field_chars sep delim us = []")
    case True
    then show ?thesis using assms(1) row by (cases more) (auto simp: row_chars_def dialect_def)
  next
    case False
    then show ?thesis using f row by (cases more) (auto simp: row_chars_def)
  qed
qed

definition data_chars :: "string \<Rightarrow> string \<Rightarrow> RowSeparator \<Rightarrow> string list list list \<Rightarrow> string list" where
  "data_chars sep delim rs rows = concat (map (\<lambda>row. row_chars sep delim row @ end_chars rs) rows)"

lemma data_chars_hd:
  assumes "dialect sep delim" "list_all (\<lambda>row. row \<noteq> []) rows" "rs = CR"
  shows "\<not> (data_chars sep delim rs rows \<noteq> [] \<and> hd (data_chars sep delim rs rows) = lf)"
proof (cases rows)
  case (Cons row more)
  then show ?thesis using row_chars_hd [OF assms(1), of row "data_chars sep delim rs more"] assms(2,3) by (simp add: data_chars_def)
qed (simp add: data_chars_def)

lemma collect_all:
  "dialect sep delim \<Longrightarrow> list_all (\<lambda>row. row \<noteq> []) rows \<Longrightarrow> cr_chars it = data_chars sep delim rs rows \<Longrightarrow>
    cr_separator it = sep \<Longrightarrow> cr_delimiter it = delim \<Longrightarrow> collect_rows it = Inr (map (map concat) rows)"
proof (induction rows arbitrary: it)
  case Nil
  then show ?case by (subst collect_rows.simps) (simp add: CsvRows_next_def data_chars_def)
next
  case (Cons row rows)
  let ?rest = "data_chars sep delim rs rows"
  have "scan_row sep delim [] [] False (row_chars sep delim row @ end_chars rs @ ?rest) = Inr ([] @ map concat row, ?rest)"
    by (rule scan_row_all [OF Cons.prems(1)]) (use Cons.prems data_chars_hd [OF Cons.prems(1), of rows rs] in auto)
  then have "CsvRows_next it = (Some (Inr (map concat row)), it\<lparr>cr_chars := ?rest, cr_rows_yielded := cr_rows_yielded it + 1\<rparr>)"
    using Cons.prems(3-5) by (simp add: CsvRows_next_def data_chars_def)
  then show ?case using Cons by (subst collect_rows.simps) simp
qed

text \<open>The text of rows has these characters.\<close>

lemma join_concat: "concat (join [sep] xss) = join sep (map concat xss)"
  by (induction "[sep]" xss rule: join.induct) simp_all

lemma row_end_chars: "row_end rs = concat (end_chars rs)"
  by (cases rs) simp_all

lemma format_row_chars:
  assumes "list_all (list_all is_char) row"
  shows "format_csv_row (map concat row) sep delim rs = concat (row_chars sep delim row @ end_chars rs)"
proof -
  have "map (escape_field sep delim) (map concat row) = map concat (map (field_chars sep delim) row)"
    using assms by (simp add: list_all_iff escape_field_chars)
  then show ?thesis unfolding format_csv_row_def row_chars_def concat_append join_concat row_end_chars by (simp only:)
qed

lemma join_chars: "is_char sep \<Longrightarrow> list_all (list_all is_char) xss \<Longrightarrow> list_all is_char (join [sep] xss)"
  by (induction "[sep]" xss rule: join.induct) simp_all

lemma end_chars_ok: "list_all is_char (end_chars rs)"
  by (cases rs) (simp_all add: line_chars)

lemma row_chars_ok:
  assumes "dialect sep delim" "list_all (list_all is_char) row"
  shows "list_all is_char (row_chars sep delim row)"
proof -
  have "list_all (list_all is_char) (map (field_chars sep delim) row)"
    using assms by (induction row) (simp_all add: dialect_def field_chars_ok)
  then show ?thesis using assms(1) by (simp add: row_chars_def join_chars dialect_def)
qed

lemma texts_as_chars: "list_all is_text row \<Longrightarrow> \<exists>cs. list_all (list_all is_char) cs \<and> row = map concat cs"
proof (induction row)
  case (Cons s row)
  then obtain us cs where "list_all is_char us" "s = concat us" "list_all (list_all is_char) cs" "row = map concat cs"
    using is_text_chars [of s] by auto
  then show ?case by (intro exI [of _ "us # cs"]) simp
qed simp

lemma rows_as_chars:
  "list_all (\<lambda>row. row \<noteq> [] \<and> list_all is_text row) rows \<Longrightarrow>
    \<exists>css. list_all (\<lambda>row. row \<noteq> [] \<and> list_all (list_all is_char) row) css \<and> rows = map (map concat) css"
proof (induction rows)
  case (Cons row rows)
  then obtain cs css where "list_all (list_all is_char) cs" "row = map concat cs" "cs \<noteq> []"
    "list_all (\<lambda>row. row \<noteq> [] \<and> list_all (list_all is_char) row) css" "rows = map (map concat) css"
    using texts_as_chars [of row] by auto
  then show ?case by (intro exI [of _ "cs # css"]) simp
qed simp

lemma csv_text_chars:
  assumes "list_all (list_all (list_all is_char)) css"
  shows "csv_text sep delim rs (map (map concat) css) = concat (data_chars sep delim rs css)"
  using assms by (induction css) (simp_all add: csv_text_def data_chars_def format_row_chars)

lemma parse_csv_text:
  assumes "dialect sep delim" "list_all (\<lambda>row. row \<noteq> [] \<and> list_all is_text row) rows"
  shows "parse_csv (csv_text sep delim rs rows) sep delim = Inr rows" "is_text (csv_text sep delim rs rows)"
proof -
  obtain css where css: "list_all (\<lambda>row. row \<noteq> [] \<and> list_all (list_all is_char) row) css" "rows = map (map concat) css"
    using rows_as_chars [OF assms(2)] by blast
  have ok: "list_all is_char (data_chars sep delim rs css)"
    using css(1) by (induction css) (simp_all add: data_chars_def row_chars_ok [OF assms(1)] end_chars_ok)
  have eq: "csv_text sep delim rs rows = concat (data_chars sep delim rs css)"
    unfolding css(2) by (rule csv_text_chars) (use css(1) in \<open>simp add: list_all_iff\<close>)
  have "collect_rows (csv_rows (csv_text sep delim rs rows) sep delim) = Inr (map (map concat) css)"
    by (rule collect_all [OF assms(1)]) (use css(1) ok eq in \<open>simp_all add: csv_rows_def text_chars_of list_all_iff\<close>)
  then show "parse_csv (csv_text sep delim rs rows) sep delim = Inr rows" using css(2) by (simp add: parse_csv_def)
  show "is_text (csv_text sep delim rs rows)" unfolding eq by (rule is_text_concat [OF ok])
qed

text \<open>A single line without its line break.\<close>

lemma scan_line_all:
  "dialect sep delim \<Longrightarrow> row \<noteq> [] \<Longrightarrow> scan_line sep delim fs [] False (row_chars sep delim row) = (fs @ map concat row, False)"
proof (induction row arbitrary: fs)
  case (Cons us row)
  show ?case
  proof (cases "row = []")
    case True
    then show ?thesis using scan_line_field [of "[]" delim sep fs us] by (simp add: row_chars_def)
  next
    case False
    then have "row_chars sep delim (us # row) = field_chars sep delim us @ sep # row_chars sep delim row"
      by (cases row) (simp_all add: row_chars_def)
    then show ?thesis
      using scan_line_field [of "sep # row_chars sep delim row" delim sep fs us] Cons.IH [of "fs @ [concat us]"] Cons.prems False
      by (simp add: dialect_def)
  qed
qed simp

subsection \<open>The body of an import\<close>

lemma concat_chunks: "0 < n \<Longrightarrow> concat (chunks n xs) = xs"
proof (induction n xs rule: chunks.induct)
  case (1 n xs)
  then show ?case by (subst chunks.simps) simp
qed

lemma chunks_size: "c \<in> set (chunks n xs) \<Longrightarrow> c \<noteq> [] \<and> length c \<le> n"
proof (induction n xs rule: chunks.induct)
  case (1 n xs)
  then show ?case by (subst (asm) (2) chunks.simps) (auto split: if_splits)
qed

lemma chunks_sendable: "list_all sendable (chunks DEFAULT_BUFFER_SIZE d)"
proof -
  have "length c < 2 ^ 64" if "length c \<le> DEFAULT_BUFFER_SIZE" for c :: "byte list"
    using that by (simp add: DEFAULT_BUFFER_SIZE_def)
  then show ?thesis using chunks_size [of _ DEFAULT_BUFFER_SIZE d] by (auto simp: list_all_iff sendable_def)
qed

lemma or_import_step: "m s = (Ready (Inr x), s') \<Longrightarrow> or_import m s = (Ready (Inr x), s')"
  by (simp add: or_import_def)

lemma write_body_chunks_all:
  "hc_stream c = TunnelOpen io \<Longrightarrow> write_outcomes io = [] \<Longrightarrow> list_all (\<lambda>d. d \<noteq> []) ds \<Longrightarrow>
    write_body_chunks H ds (c, x) =
      (Ready (Inr ()), (c\<lparr>hc_stream := TunnelOpen (io\<lparr>outbox := outbox io @ concat (map encode_chunk ds)\<rparr>)\<rparr>, x))"
proof (induction ds arbitrary: c io)
  case (Cons d ds)
  let ?io = "io\<lparr>outbox := outbox io @ encode_chunk d\<rparr>"
  let ?c = "c\<lparr>hc_stream := TunnelOpen ?io\<rparr>"
  have "or_import (write_chunked_body H d) (c, x) = (Ready (Inr ()), (?c, x))"
    by (rule or_import_step, rule write_piece_step(1)) (use Cons.prems in simp_all)
  then have "write_body_chunks H (d # ds) (c, x) = write_body_chunks H ds (?c, x)" by (simp add: abind_eval)
  then show ?case using Cons.IH [of ?c ?io] Cons.prems by simp
qed (simp add: act_simps)

lemma write_chunked_data_all:
  assumes "hc_stream c = TunnelOpen io" "write_outcomes io = []"
  shows "write_chunked_data H d (c, x) =
    (Ready (Inr ()), (c\<lparr>hc_stream := TunnelOpen (io\<lparr>outbox := outbox io @ chunked (chunks DEFAULT_BUFFER_SIZE d)\<rparr>)\<rparr>, x))"
proof -
  let ?ds = "chunks DEFAULT_BUFFER_SIZE d"
  let ?io = "io\<lparr>outbox := outbox io @ concat (map encode_chunk ?ds)\<rparr>"
  let ?c = "c\<lparr>hc_stream := TunnelOpen ?io\<rparr>"
  have ne: "list_all (\<lambda>d. d \<noteq> []) ?ds" using chunks_size [of _ DEFAULT_BUFFER_SIZE d] by (auto simp: list_all_iff)
  have "write_body_chunks H ?ds (c, x) = (Ready (Inr ()), (?c, x))" by (rule write_body_chunks_all [OF assms ne])
  moreover have "or_import (write_final_chunk H) (?c, x) =
      (Ready (Inr ()), (c\<lparr>hc_stream := TunnelOpen (io\<lparr>outbox := outbox io @ chunked ?ds\<rparr>)\<rparr>, x))"
    by (rule or_import_step) (use write_piece_step(2) [of ?c ?io H x] assms(2) in \<open>simp add: chunked_def\<close>)
  ultimately show ?thesis by (simp add: write_chunked_data_def abind_eval)
qed

lemma await_import_step:
  "handle_import_request H s = (Ready (Inr r), s') \<Longrightarrow> await_import_request H s = (Ready (Inr ()), s')"
  by (simp add: await_import_request_def abind_eval act_simps)

lemma send_import_all:
  assumes "hc_stream c = TunnelOpen io" "write_outcomes io = []" "list_all url_char path" "path \<noteq> []" "list_all header_ok hs"
    and "inbox io = http_request_bytes Get path hs @ rest"
  shows "send_import_response H d (c, x) = (Ready (Inr ()), (c\<lparr>hc_stream := TunnelOpen (io\<lparr>inbox := rest,
    outbox := outbox io @ build_chunked_response_headers @ chunked (chunks DEFAULT_BUFFER_SIZE d)\<rparr>)\<rparr>, x))"
proof -
  let ?io = "io\<lparr>inbox := rest, outbox := outbox io @ build_chunked_response_headers\<rparr>"
  let ?c = "c\<lparr>hc_stream := TunnelOpen ?io\<rparr>"
  have "await_import_request H (c, x) = (Ready (Inr ()), (?c, x))"
    by (rule await_import_step, rule import_request_step [OF assms])
  then show ?thesis using write_chunked_data_all [of ?c ?io H d x] assms(2) by (simp add: send_import_response_def abind_eval)
qed

lemma decode_body:
  assumes "ready_sink sk" "inbox io = chunked (chunks DEFAULT_BUFFER_SIZE d) @ rest"
  shows "\<exists>pieces. forward_chunked_body (io, sk) = (Ready (Inr ()), (io\<lparr>inbox := rest\<rparr>, sk\<lparr>sk_pieces := sk_pieces sk @ pieces\<rparr>))
    \<and> concat pieces = d"
  using forward_chunked_all [OF chunks_sendable assms(2,1)] concat_pieces_ofs [of "chunks DEFAULT_BUFFER_SIZE d"]
    concat_chunks [of DEFAULT_BUFFER_SIZE d] by (auto simp: DEFAULT_BUFFER_SIZE_def)

subsection \<open>Decoding\<close>

text \<open>A writer that appends what it is given.\<close>

definition appends :: "('s \<Rightarrow> byte list) \<Rightarrow> (byte list \<Rightarrow> (string, 's, unit) task) \<Rightarrow> (string, 's, unit) task \<Rightarrow> bool" where
  "appends out w fl \<longleftrightarrow> (\<forall>d s. \<exists>s'. w d s = (Ready (Inr ()), s') \<and> out s' = out s @ d)
    \<and> (\<forall>s. \<exists>s'. fl s = (Ready (Inr ()), s') \<and> out s' = out s)"

lemma count_append [simp]: "count_line_feeds (a @ b) = count_line_feeds a + count_line_feeds b"
  by (simp add: count_line_feeds_def)

text \<open>What the feed still holds; a decoder without compression hands out exactly that.\<close>

definition undelivered :: "'g PieceDecoder \<Rightarrow> byte list" where
  "undelivered p = drop (fd_position (pd_feed p)) (fd_data (pd_feed p))"

definition plain_decoder :: "'g PieceDecoder \<Rightarrow> bool" where
  "plain_decoder p \<longleftrightarrow> pd_compression p = Uncompressed \<and> fd_position (pd_feed p) \<le> length (fd_data (pd_feed p))"

lemma next_block_plain:
  assumes "plain_decoder p"
  shows "\<exists>p'. next_block D p = (Inr (if undelivered p = [] then None else Some (take DECODED_BLOCK_MAX_BYTES (undelivered p))), p')
    \<and> undelivered p' = drop DECODED_BLOCK_MAX_BYTES (undelivered p) \<and> plain_decoder p'"
proof -
  let ?n = "DECODED_BLOCK_MAX_BYTES" and ?f = "pd_feed p"
  define k where "k = min ?n (length (fd_data ?f) - fd_position ?f)"
  have n: "0 < ?n" by (simp add: DECODED_BLOCK_MAX_BYTES_def)
  have len: "length (undelivered p) = length (fd_data ?f) - fd_position ?f" by (simp add: undelivered_def)
  have plain: "pd_compression p = Uncompressed" "fd_position ?f \<le> length (fd_data ?f)" using assms by (simp_all add: plain_decoder_def)
  show ?thesis
  proof (cases "undelivered p = []")
    case True
    then have "k = 0" using len by (simp add: k_def)
    then show ?thesis using True assms plain n by (auto simp: next_block_def decoder_read_def PieceFeed_read_def Let_def simp flip: k_def)
  next
    case False
    then have "0 < length (undelivered p)" by simp
    then have "k \<noteq> 0" using n unfolding len k_def by simp
    let ?p = "p\<lparr>pd_feed := ?f\<lparr>fd_position := fd_position ?f + k\<rparr>\<rparr>"
    have piece: "take k (drop (fd_position ?f) (fd_data ?f)) = take ?n (undelivered p)"
      unfolding k_def undelivered_def by (simp add: min_def)
    have "take ?n (undelivered p) \<noteq> []" using False n by simp
    then have "next_block D p = (Inr (Some (take ?n (undelivered p))), ?p)"
      using plain(1) \<open>k \<noteq> 0\<close> piece by (simp add: next_block_def decoder_read_def PieceFeed_read_def Let_def flip: k_def)
    moreover have "undelivered ?p = drop ?n (undelivered p)" "plain_decoder ?p"
      using plain unfolding k_def undelivered_def plain_decoder_def by (auto simp: min_def add.commute)
    ultimately show ?thesis using False by auto
  qed
qed

lemma appendsD:
  assumes "appends out w fl"
  obtains s' where "w d s = (Ready (Inr ()), s')" "out s' = out s @ d"
  using assms unfolding appends_def by blast

lemma write_blocks_loop_all:
  assumes "appends out w fl"
  shows "plain_decoder p \<Longrightarrow> length (undelivered p) < n \<Longrightarrow>
    \<exists>s' p'. write_blocks_loop D w n lfs (s, p) = (Ready (Inr (lfs + count_line_feeds (undelivered p))), (s', p'))
      \<and> out s' = out s @ undelivered p \<and> undelivered p' = [] \<and> plain_decoder p'"
proof (induction n arbitrary: p s lfs)
  case (Suc n)
  obtain p' where p': "next_block D p = (Inr (if undelivered p = [] then None else Some (take DECODED_BLOCK_MAX_BYTES (undelivered p))), p')"
    "undelivered p' = drop DECODED_BLOCK_MAX_BYTES (undelivered p)" "plain_decoder p'"
    using next_block_plain [OF Suc.prems(1), of D] by blast
  show ?case
  proof (cases "undelivered p = []")
    case True
    then show ?thesis using p' by (simp add: abind_def act_simps count_line_feeds_def)
  next
    case False
    let ?d = "take DECODED_BLOCK_MAX_BYTES (undelivered p)"
    obtain s1 where s1: "w ?d s = (Ready (Inr ()), s1)" "out s1 = out s @ ?d" by (rule appendsD [OF assms])
    have step: "write_blocks_loop D w (Suc n) lfs (s, p) = write_blocks_loop D w n (lfs + count_line_feeds ?d) (s1, p')"
      using False p'(1) s1(1) by (simp add: abind_def or_csv_io_def on_fst_def amap_err_def)
    have "0 < DECODED_BLOCK_MAX_BYTES" by (simp add: DECODED_BLOCK_MAX_BYTES_def)
    then have "length (undelivered p') < n" using p'(2) Suc.prems(2) False by (cases "undelivered p") auto
    from Suc.IH [OF p'(3) this, of "lfs + count_line_feeds ?d" s1]
    obtain s2 p2 where "write_blocks_loop D w n (lfs + count_line_feeds ?d) (s1, p') =
        (Ready (Inr (lfs + count_line_feeds ?d + count_line_feeds (undelivered p'))), (s2, p2))"
      "out s2 = out s1 @ undelivered p'" "undelivered p2 = []" "plain_decoder p2" by blast
    moreover have "count_line_feeds ?d + count_line_feeds (undelivered p') = count_line_feeds (undelivered p)"
      unfolding p'(2) using count_append [of ?d "drop DECODED_BLOCK_MAX_BYTES (undelivered p)"] by simp
    ultimately show ?thesis using step s1(2) p'(2) by (simp add: add.assoc)
  qed
qed simp

lemma write_blocks_all:
  assumes "appends out w fl" "plain_decoder p"
  shows "\<exists>s' p'. write_blocks D w (s, p) = (Ready (Inr (count_line_feeds (undelivered p))), (s', p'))
    \<and> out s' = out s @ undelivered p \<and> undelivered p' = [] \<and> plain_decoder p'"
proof -
  have "length (undelivered p) < Suc (length (fd_data (pd_feed p)))" by (simp add: undelivered_def less_Suc_eq_le)
  from write_blocks_loop_all [OF assms this, of D 0 s] show ?thesis
    using assms(2) by (simp add: write_blocks_def plain_decoder_def del: write_blocks_loop.simps)
qed

lemma push_plain:
  "undelivered p = [] \<Longrightarrow> plain_decoder p \<Longrightarrow> undelivered (PieceDecoder_push d p) = d \<and> plain_decoder (PieceDecoder_push d p)"
  by (auto simp: undelivered_def plain_decoder_def PieceDecoder_push_def Let_def)

lemma write_pieces_all:
  assumes "appends out w fl"
  shows "undelivered p = [] \<Longrightarrow> plain_decoder p \<Longrightarrow>
    \<exists>s' p'. write_pieces D w ps lfs (s, p) = (Ready (Inr (lfs + count_line_feeds (concat ps))), (s', p'))
      \<and> out s' = out s @ concat ps \<and> undelivered p' = [] \<and> plain_decoder p'"
proof (induction ps arbitrary: s p lfs)
  case Nil
  then show ?case by (simp add: act_simps count_line_feeds_def)
next
  case (Cons d ps)
  let ?p = "PieceDecoder_push d p"
  have push: "undelivered ?p = d" "plain_decoder ?p" using push_plain [OF Cons.prems] by simp_all
  obtain s1 p1 where b: "write_blocks D w (s, ?p) = (Ready (Inr (count_line_feeds d)), (s1, p1))" "out s1 = out s @ d"
    "undelivered p1 = []" "plain_decoder p1" using write_blocks_all [OF assms push(2), of D s] push(1) by auto
  have "write_pieces D w (d # ps) lfs (s, p) = write_pieces D w ps (lfs + count_line_feeds d) (s1, p1)"
    using b(1) by (simp add: abind_def amodify_def)
  then show ?case using Cons.IH [OF b(3,4), of "lfs + count_line_feeds d" s1] b(2) by (simp add: add.assoc)
qed

lemma write_decoded_all:
  assumes "appends out w fl"
  shows "\<exists>s'. write_decoded D w fl ps Uncompressed s = (Ready (Inr (count_line_feeds (concat ps))), s') \<and> out s' = out s @ concat ps"
proof -
  let ?p0 = "PieceDecoder_new D Uncompressed"
  have p0: "undelivered ?p0 = []" "plain_decoder ?p0" by (simp_all add: PieceDecoder_new_def undelivered_def plain_decoder_def)
  obtain s1 p1 where a: "write_pieces D w ps 0 (s, ?p0) = (Ready (Inr (count_line_feeds (concat ps))), (s1, p1))"
    "out s1 = out s @ concat ps" "undelivered p1 = []" "plain_decoder p1" using write_pieces_all [OF assms p0, of D ps 0 s] by auto
  let ?p = "PieceDecoder_end p1"
  have e: "undelivered ?p = []" "plain_decoder ?p" using a(3,4) by (simp_all add: PieceDecoder_end_def undelivered_def plain_decoder_def)
  obtain s2 p2 where b: "write_blocks D w (s1, ?p) = (Ready (Inr 0), (s2, p2))" "out s2 = out s1"
    using write_blocks_all [OF assms e(2), of D s1] e(1) by (auto simp: count_line_feeds_def)
  obtain s3 where c: "fl s2 = (Ready (Inr ()), s3)" "out s3 = out s2" using assms unfolding appends_def by blast
  show ?thesis using a(1,2) b c
    by (simp add: write_decoded_def abind_eval amodify_def or_csv_io_def on_fst_def amap_err_def alift_def abind_def)
qed

end
