(* ===== verification/Arrow_Csv_Laws.thy ===== *)
theory Arrow_Csv_Laws
  imports Arrow_Csv Csv_Laws Conversion_Laws
begin

text \<open>
  Laws of the conversion between Arrow batches and CSV text: values of the types that the export
  reads back are formatted to texts that convert to the same values, so batches survive the way
  through CSV; and what the line-wise reader does with blank lines.
\<close>

subsection \<open>Decimal texts\<close>

lemma show_nat_snoc: "d < 10 \<Longrightarrow> 0 < x \<Longrightarrow> show_nat (10 * x + d) = show_nat x @ [digit_char d]"
  by (subst show_nat.simps) auto

lemma digit_char_0: "digit_char 0 = CHR ''0''"
proof -
  have "(of_char (digit_char 0) :: nat) = of_char (CHR ''0'')" by simp
  then show ?thesis by (simp only: of_char_eq_iff)
qed

lemma pad_zero_snoc:
  assumes "d < 10" "0 < k"
  shows "pad_zero (Suc k) (show_nat (10 * x + d)) = pad_zero k (show_nat x) @ [digit_char d]"
proof (cases "x = 0")
  case True
  have "replicate k (CHR ''0'') = replicate (k - 1) (CHR ''0'') @ [CHR ''0'']"
    using assms(2) replicate_append_same [of "k - 1" "CHR ''0''"] by (cases k) simp_all
  then show ?thesis using assms True show_nat.simps [of d] show_nat.simps [of 0] digit_char_0 by (simp add: pad_zero_def)
next
  case False
  then show ?thesis using assms by (simp add: pad_zero_def show_nat_snoc)
qed

lemma show_nat_split:
  "0 < k \<Longrightarrow> 10 ^ k \<le> n \<Longrightarrow> show_nat n = show_nat (n div 10 ^ k) @ pad_zero k (show_nat (n mod 10 ^ k))"
proof (induction k arbitrary: n)
  case (Suc k)
  define m d where "m = n div 10" and "d = n mod 10"
  have n: "n = 10 * m + d" "d < 10" by (simp_all add: m_def d_def)
  have m: "10 ^ k \<le> m" using Suc.prems(2) by (simp add: m_def less_eq_div_iff_mult_less_eq mult.commute)
  then have "0 < m" by (metis less_le_trans zero_less_numeral zero_less_power)
  have top: "n div 10 ^ Suc k = m div 10 ^ k" by (simp add: m_def div_mult2_eq)
  have low: "n mod 10 ^ Suc k = 10 * (m mod 10 ^ k) + d" by (simp add: m_def d_def mod_mult2_eq)
  have last: "show_nat n = show_nat m @ [digit_char d]" unfolding n(1) by (rule show_nat_snoc [OF n(2) \<open>0 < m\<close>])
  show ?case
  proof (cases "k = 0")
    case True
    have "pad_zero (Suc 0) (show_nat d) = [digit_char d]" using n(2) show_nat.simps [of d] by (simp add: pad_zero_def)
    then show ?thesis unfolding last True by (simp add: m_def d_def)
  next
    case False
    then have "show_nat m = show_nat (m div 10 ^ k) @ pad_zero k (show_nat (m mod 10 ^ k))" using Suc.IH m by blast
    then show ?thesis unfolding top low last using pad_zero_snoc [OF n(2), of k "m mod 10 ^ k"] False by simp
  qed
qed simp

lemma pad_split:
  assumes "0 < k"
  shows "pad_zero (k + 1) (show_nat n) = show_nat (n div 10 ^ k) @ pad_zero k (show_nat (n mod 10 ^ k))"
proof (cases "10 ^ k \<le> n")
  case True
  have "k < length (show_nat n)"
    using show_nat_split [OF assms True] length_show_nat [of "n mod 10 ^ k" k] assms
    by (simp add: length_pad_zero)
  then have "pad_zero (k + 1) (show_nat n) = show_nat n" by (simp add: pad_zero_def)
  then show ?thesis using show_nat_split [OF assms True] by simp
next
  case False
  then have "length (show_nat n) \<le> k" using length_show_nat [of n k] assms by simp
  then have "pad_zero (k + 1) (show_nat n) = CHR ''0'' # pad_zero k (show_nat n)" by (simp add: pad_zero_def Suc_diff_le)
  then show ?thesis using False show_nat.simps [of 0] digit_char_0 by simp
qed

lemma format_decimal_show: "0 \<le> scale \<Longrightarrow> format_decimal_text (show_int v) scale = show_decimal v (nat scale)"
proof (cases "scale = 0")
  case True
  then show ?thesis by (simp add: format_decimal_text_def show_decimal_def show_int_def signed_text_def)
next
  case False
  assume "0 \<le> scale"
  define k n where "k = nat scale" and "n = nat \<bar>v\<bar>"
  have k: "0 < k" "\<not> scale \<le> 0" using False \<open>0 \<le> scale\<close> by (simp_all add: k_def)
  have strip: "(case strip_prefix ''-'' (show_int v) of Some d \<Rightarrow> (''-'', d) | None \<Rightarrow> ([], show_int v)) =
      (if v < 0 then ''-'' else [], show_nat n)"
  proof (cases "v < 0")
    case True
    then show ?thesis by (simp add: show_int_def strip_prefix_def starts_with_def n_def)
  next
    case False
    obtain d r where "show_nat n = d # r" "d \<noteq> CHR ''-''" "d \<noteq> CHR ''+''" by (rule show_nat_hd)
    then show ?thesis using False by (simp add: show_int_def strip_prefix_def starts_with_def n_def)
  qed
  have len: "length (pad_zero k (show_nat (n mod 10 ^ k))) = k"
    using length_show_nat [of "n mod 10 ^ k" k] k(1) by (simp add: length_pad_zero)
  show ?thesis
    using k pad_split [OF k(1), of n] len
    by (simp add: format_decimal_text_def strip show_decimal_def signed_text_def flip: k_def n_def)
qed

subsection \<open>Integer texts\<close>

lemma digits_up_all:
  "list_all is_ascii_digit s \<Longrightarrow> 0 \<le> acc \<Longrightarrow> acc * 10 ^ length s + int (digits_val s) \<le> hi \<Longrightarrow>
    digits_up hi acc s = Inr (acc * 10 ^ length s + int (digits_val s))"
proof (induction s arbitrary: acc)
  case (Cons c s)
  let ?a = "acc * 10 + int (digit_val c)"
  have val: "acc * 10 ^ length (c # s) + int (digits_val (c # s)) = ?a * 10 ^ length s + int (digits_val s)"
    using digits_val_append [of "[c]" s] by (simp add: algebra_simps)
  have "?a \<le> ?a * 10 ^ length s" using Cons.prems(2) mult_left_mono [of 1 "10 ^ length s" ?a] by simp
  then have "?a \<le> hi" using Cons.prems(3) unfolding val by simp
  then show ?case unfolding val using Cons.IH [of ?a] Cons.prems unfolding val by simp
qed simp

lemma digits_down_all:
  "list_all is_ascii_digit s \<Longrightarrow> acc \<le> 0 \<Longrightarrow> lo \<le> acc * 10 ^ length s - int (digits_val s) \<Longrightarrow>
    digits_down lo acc s = Inr (acc * 10 ^ length s - int (digits_val s))"
proof (induction s arbitrary: acc)
  case (Cons c s)
  let ?a = "acc * 10 - int (digit_val c)"
  have val: "acc * 10 ^ length (c # s) - int (digits_val (c # s)) = ?a * 10 ^ length s - int (digits_val s)"
    using digits_val_append [of "[c]" s] by (simp add: algebra_simps)
  have "?a * 10 ^ length s \<le> ?a" using Cons.prems(2) mult_left_mono_neg [of 1 "10 ^ length s" ?a] by simp
  then have "lo \<le> ?a" using Cons.prems(3) unfolding val by simp
  then show ?case unfolding val using Cons.IH [of ?a] Cons.prems unfolding val by simp
qed simp

lemma parse_i64_show:
  assumes "in_signed 64 i"
  shows "parse_i64_text (show_int i) = Inr i"
proof (cases "i < 0")
  case True
  then show ?thesis using assms digits_down_all [of "show_nat (nat (- i))" 0 "- (2 ^ 63)"]
    by (simp add: show_int_def parse_i64_text_def in_signed_def)
next
  case False
  obtain d r where dr: "show_nat (nat i) = d # r" "d \<noteq> CHR ''-''" "d \<noteq> CHR ''+''" by (rule show_nat_hd)
  have "digits_up (2 ^ 63 - 1) 0 (show_nat (nat i)) = Inr i"
    using assms False digits_up_all [of "show_nat (nat i)" 0 "2 ^ 63 - 1"] by (simp add: in_signed_def)
  then show ?thesis using False dr by (simp add: show_int_def parse_i64_text_def)
qed

subsection \<open>Values\<close>

text \<open>The characters of numbers, dates and truth values.\<close>

definition value_char :: "char \<Rightarrow> bool" where
  "value_char c \<longleftrightarrow> is_ascii_digit c \<or> c \<in> set ''-.truefals''"

text \<open>A dialect whose separator and delimiter are none of them.\<close>

definition value_dialect :: "string \<Rightarrow> string \<Rightarrow> bool" where
  "value_dialect sep delim \<longleftrightarrow> dialect sep delim \<and> (\<forall>c. value_char c \<longrightarrow> sep \<noteq> [c] \<and> delim \<noteq> [c])"

text \<open>The types and values that both directions support exactly.\<close>

definition field_ok :: "('d, 't) csv_env \<Rightarrow> SourceField \<Rightarrow> bool" where
  "field_ok E f \<longleftrightarrow> (case sf_type f of
      SBoolean \<Rightarrow> True | SInt64 \<Rightarrow> True | SUtf8 \<Rightarrow> True | SDate32 \<Rightarrow> True
    | SDecimal128 p s \<Rightarrow> 0 \<le> s \<and> s \<le> 38 \<and> ce_decimal_type E p s = None
    | _ \<Rightarrow> False)"

fun source_value_ok :: "SourceType \<Rightarrow> source_value \<Rightarrow> bool" where
  "source_value_ok t (VBool b) \<longleftrightarrow> t = SBoolean"
| "source_value_ok t (VText s) \<longleftrightarrow> t = SUtf8 \<and> is_text s \<and> s \<noteq> []"
| "source_value_ok t (VInt i) \<longleftrightarrow> (case t of
      SInt64 \<Rightarrow> in_signed 64 i | SDate32 \<Rightarrow> - 719162 \<le> i \<and> i \<le> 2932896 | SDecimal128 p s \<Rightarrow> \<bar>i\<bar> < 10 ^ 38 | _ \<Rightarrow> False)"
| "source_value_ok t _ \<longleftrightarrow> False"

definition date_text :: "('d, 't) csv_env \<Rightarrow> int \<Rightarrow> string" where
  "date_text E d = (case format_date32 (ce_chrono E) d of Inr s \<Rightarrow> s | Inl _ \<Rightarrow> [])"

text \<open>The text of a value, before any delimiters.\<close>

fun value_text :: "('d, 't) csv_env \<Rightarrow> SourceType \<Rightarrow> source_value \<Rightarrow> string" where
  "value_text E t (VBool b) = (if b then ''true'' else ''false'')"
| "value_text E t (VText s) = s"
| "value_text E t (VInt i) = (case t of
      SDate32 \<Rightarrow> date_text E i | SDecimal128 p s \<Rightarrow> show_decimal i (nat s) | _ \<Rightarrow> show_int i)"
| "value_text E t _ = []"

lemma digits_value: "list_all is_ascii_digit s \<Longrightarrow> list_all value_char s"
  by (auto simp: list_all_iff value_char_def)

lemma minus_dot_value: "value_char (CHR ''-'')" "value_char (CHR ''.'')"
  by (simp_all add: value_char_def)

lemma show_nat_value: "list_all value_char (show_nat n)" "list_all value_char (pad_zero w (show_nat n))"
  by (simp_all add: digits_value)

lemma date_text_value:
  assumes "chrono_dates (ce_chrono E)" "- 719162 \<le> d" "d \<le> 2932896"
  shows "format_date32 (ce_chrono E) d = Inr (date_text E d)" "list_all value_char (date_text E d)" "date_text E d \<noteq> []"
    "parse_date_to_days ovf (date_text E d) = Inr d"
proof -
  obtain y m dd where t: "valid_date (y, m, dd)" "exasol_year y" "days_from_civil (y, m, dd) = d"
    "format_date32 (ce_chrono E) d = Inr (iso_date (y, m, dd))" using format_date32_in_range [OF assms] by blast
  then show "format_date32 (ce_chrono E) d = Inr (date_text E d)" by (simp add: date_text_def)
  have eq: "date_text E d = iso_date (y, m, dd)" using t(4) by (simp add: date_text_def)
  show "list_all value_char (date_text E d)" "date_text E d \<noteq> []"
    unfolding eq by (simp_all add: iso_date_def show_nat_value minus_dot_value)
  show "parse_date_to_days ovf (date_text E d) = Inr d" unfolding eq using parse_iso_date [OF t(1,2)] t(3) by simp
qed

lemma value_text_value:
  assumes "source_value_ok t v" "chrono_dates (ce_chrono E)" "t \<noteq> SUtf8"
  shows "list_all value_char (value_text E t v) \<and> value_text E t v \<noteq> []"
proof (cases v)
  case (VBool b)
  then show ?thesis by (simp add: value_char_def)
next
  case (VInt i)
  have "list_all value_char (show_int i) \<and> show_int i \<noteq> []" "list_all value_char (show_decimal i k) \<and> show_decimal i k \<noteq> []" for k
    by (simp_all add: show_int_def show_decimal_def signed_text_def show_nat_value minus_dot_value)
  then show ?thesis using VInt assms(1) date_text_value [OF assms(2)] by (auto split: SourceType.splits)
qed (use assms in auto)

lemma value_chars_text: "list_all value_char s \<Longrightarrow> list_all is_ascii s"
  by (auto simp: list_all_iff value_char_def is_ascii_digit_def is_ascii_def)

lemma ascii_text: "list_all is_ascii s \<Longrightarrow> is_text s"
proof -
  assume "list_all is_ascii s"
  then have "list_all is_char (map (\<lambda>c. [c]) s)" by (simp add: list_all_iff ascii_char)
  from is_text_concat [OF this] show ?thesis by simp
qed

lemma value_text_text:
  assumes "source_value_ok t v" "chrono_dates (ce_chrono E)"
  shows "is_text (value_text E t v)"
proof (cases "t = SUtf8")
  case True
  then show ?thesis using assms(1) by (cases v) auto
next
  case False
  then show ?thesis using value_text_value [OF assms] value_chars_text ascii_text by blast
qed

lemma escape_value:
  assumes "value_dialect sep delim" "list_all value_char s"
  shows "escape_field sep delim s = s"
proof -
  have "text_chars s = map (\<lambda>c. [c]) s" by (rule text_chars_ascii) (rule value_chars_text [OF assms(2)])
  moreover have "\<not> value_char (CHR 0x0A)" "\<not> value_char (CHR 0x0D)" by (simp_all add: value_char_def is_ascii_digit_def)
  ultimately show ?thesis using assms by (auto simp: escape_field_def needs_quoting_def value_dialect_def list_all_iff)
qed

text \<open>Formatting a value, and converting its text back.\<close>

lemma format_value_text:
  assumes "source_value_ok (sf_type f) v" "field_ok E f" "chrono_dates (ce_chrono E)"
    and "value_dialect (cw_column_separator opts) (cw_column_delimiter opts)"
  shows "\<exists>g. resolve_value_formatter E (sf_type f) = Inr g \<and> run_formatter E opts g v =
    Inr (escape_field (cw_column_separator opts) (cw_column_delimiter opts) (value_text E (sf_type f) v))"
proof -
  let ?esc = "escape_field (cw_column_separator opts) (cw_column_delimiter opts)"
  have esc: "?esc (value_text E (sf_type f) v) = value_text E (sf_type f) v" if "sf_type f \<noteq> SUtf8"
    using escape_value [OF assms(4)] value_text_value [OF assms(1,3) that] by blast
  show ?thesis
  proof (cases v)
    case (VBool b)
    then show ?thesis using assms(1) esc by (simp add: run_formatter_def format_boolean_def)
  next
    case (VText str)
    then show ?thesis using assms(1) by (simp add: run_formatter_def format_string_def escape_string_def)
  next
    case (VInt i)
    then consider "sf_type f = SInt64" | "sf_type f = SDate32" "- 719162 \<le> i" "i \<le> 2932896" | p s where "sf_type f = SDecimal128 p s"
      using assms(1) by (auto split: SourceType.splits)
    then show ?thesis
    proof cases
      case 1
      then show ?thesis using esc VInt by (simp add: run_formatter_def format_integer_def)
    next
      case 2
      then show ?thesis using esc VInt date_text_value(1) [OF assms(3)]
        by (simp add: run_formatter_def format_date32_value_def or_conversion_def)
    next
      case 3
      then show ?thesis using esc VInt assms(2) format_decimal_show [of s i]
        by (simp add: run_formatter_def format_decimal128_value_def field_ok_def)
    qed
  qed (use assms(1) in auto)
qed

text \<open>The conversion that the export applies to a text of a column.\<close>

fun convert :: "('d, 't) csv_env \<Rightarrow> SourceType \<Rightarrow> string \<Rightarrow> (string, source_value) result" where
  "convert E SBoolean = parse_boolean (ce_strings E)"
| "convert E SInt64 = parse_int64"
| "convert E SDate32 = (\<lambda>v. as_int (parse_date_to_days (ce_overflow E) v))"
| "convert E (SDecimal128 p s) = (\<lambda>v. as_int (parse_decimal_to_i128 (ce_overflow E) v s))"
| "convert E _ = (\<lambda>v. Inr (VText v))"

lemma parse_boolean_text: "parse_boolean S (if b then ''true'' else ''false'') = Inr (VBool b)"
proof -
  have "to_lowercase S ''true'' = ''true''" "to_lowercase S ''false'' = ''false''"
    by (simp_all add: to_lowercase_def to_ascii_lowercase_def is_ascii_def)
  then show ?thesis by (simp add: parse_boolean_def)
qed

lemma convert_value_text:
  assumes "source_value_ok (sf_type f) v" "field_ok E f" "chrono_dates (ce_chrono E)"
  shows "convert E (sf_type f) (value_text E (sf_type f) v) = Inr v"
proof (cases v)
  case (VBool b)
  then show ?thesis using assms(1) parse_boolean_text by simp
next
  case (VText str)
  then show ?thesis using assms(1) by simp
next
  case (VInt i)
  then consider "sf_type f = SInt64" "in_signed 64 i" | "sf_type f = SDate32" "- 719162 \<le> i" "i \<le> 2932896"
    | p s where "sf_type f = SDecimal128 p s" "\<bar>i\<bar> < 10 ^ 38"
    using assms(1) by (auto split: SourceType.splits)
  then show ?thesis
  proof cases
    case 1
    then show ?thesis using VInt parse_i64_show [of i] by (simp add: parse_int64_def)
  next
    case 2
    then show ?thesis using VInt date_text_value(4) [OF assms(3)] by (simp add: as_int_def)
  next
    case 3
    then have "parse_decimal_to_i128 (ce_overflow E) (show_decimal i (nat s) @ []) (int (nat s)) = Inr i"
      using assms(2) by (intro parse_show_decimal) (auto simp: field_ok_def)
    then show ?thesis using VInt 3 assms(2) by (simp add: as_int_def field_ok_def)
  qed
qed (use assms(1) in auto)

subsection \<open>Cells and rows\<close>

text \<open>The null text of the writer and that of the reader agree.\<close>

definition null_ok :: "CsvWriterOptions \<Rightarrow> string option \<Rightarrow> bool" where
  "null_ok opts null_value \<longleftrightarrow> is_null_value (cw_null_value opts) null_value \<and> is_text (cw_null_value opts)
    \<and> \<not> needs_quoting (cw_column_separator opts) (cw_column_delimiter opts) (cw_null_value opts)"

text \<open>A cell that survives: a null of a nullable column, or a supported value whose text does not stand for null.\<close>

definition cell_ok :: "('d, 't) csv_env \<Rightarrow> string option \<Rightarrow> SourceField \<Rightarrow> source_value option \<Rightarrow> bool" where
  "cell_ok E null_value f c \<longleftrightarrow> (case c of
      None \<Rightarrow> sf_nullable f
    | Some v \<Rightarrow> source_value_ok (sf_type f) v \<and> \<not> is_null_value (value_text E (sf_type f) v) null_value)"

definition cell_text :: "('d, 't) csv_env \<Rightarrow> CsvWriterOptions \<Rightarrow> SourceField \<Rightarrow> source_value option \<Rightarrow> string" where
  "cell_text E opts f c = (case c of None \<Rightarrow> cw_null_value opts | Some v \<Rightarrow> value_text E (sf_type f) v)"

lemma cell_text_text:
  "cell_ok E null_value f c \<Longrightarrow> null_ok opts null_value \<Longrightarrow> chrono_dates (ce_chrono E) \<Longrightarrow> is_text (cell_text E opts f c)"
  by (auto simp: cell_ok_def cell_text_def null_ok_def value_text_text split: option.splits)

lemma format_cell:
  assumes "cell_ok E null_value f c" "field_ok E f" "null_ok opts null_value" "chrono_dates (ce_chrono E)"
    and "value_dialect (cw_column_separator opts) (cw_column_delimiter opts)" "i < length cs" "cs ! i = c"
  shows "format_value E opts (PlainArray (sf_type f) cs) i =
    Inr (escape_field (cw_column_separator opts) (cw_column_delimiter opts) (cell_text E opts f c))"
proof -
  have resolves: "\<exists>g. resolve_value_formatter E (sf_type f) = Inr g"
    using assms(2) by (cases "sf_type f") (simp_all add: field_ok_def)
  show ?thesis
  proof (cases c)
    case None
    then show ?thesis using resolves assms(3,6,7) by (auto simp: cell_text_def null_ok_def escape_field_def)
  next
    case (Some v)
    then show ?thesis using format_value_text [of f v E opts] assms by (auto simp: cell_ok_def cell_text_def)
  qed
qed

lemma append_values_all:
  assumes "\<forall>c \<in> set cs. case c of None \<Rightarrow> nullable \<and> is_null_value (txt c) null_value
      | Some v \<Rightarrow> \<not> is_null_value (txt c) null_value \<and> conv (txt c) = Inr v"
  shows "append_values conv nullable null_value r column (map txt cs) = Inr cs"
  using assms by (induction cs arbitrary: r) (auto split: option.splits)

lemma build_column:
  assumes "\<forall>c \<in> set cs. cell_ok E null_value f c" "field_ok E f" "null_ok opts null_value" "chrono_dates (ce_chrono E)"
  shows "build_array_from_strings E (map (cell_text E opts f) cs) (sf_type f) (sf_nullable f) null_value r j =
    Inr (PlainArray (sf_type f) cs)"
proof -
  have cells: "\<forall>c \<in> set cs. case c of None \<Rightarrow> sf_nullable f \<and> is_null_value (cell_text E opts f c) null_value
      | Some v \<Rightarrow> \<not> is_null_value (cell_text E opts f c) null_value \<and> convert E (sf_type f) (cell_text E opts f c) = Inr v"
    using assms convert_value_text [of f _ E] by (auto simp: cell_ok_def cell_text_def null_ok_def split: option.splits)
  note all = append_values_all [OF cells]
  have texts: "map (\<lambda>v. if is_null_value v null_value then (if sf_nullable f then None else Some (VText [])) else Some (VText v))
      (map (cell_text E opts f) cs) = cs" if "sf_type f = SUtf8"
    using cells that by (induction cs) (auto split: option.splits)
  show ?thesis
    using assms(2) all texts
    by (cases "sf_type f")
      (simp_all add: field_ok_def build_array_from_strings_def build_boolean_array_def build_int64_array_def build_date32_array_def
        build_decimal128_array_def build_string_array_def)
qed

subsection \<open>Batches\<close>

text \<open>The batch of a list of rows.\<close>

definition rows_column :: "SourceField list \<Rightarrow> source_value option list list \<Rightarrow> nat \<Rightarrow> SourceArray" where
  "rows_column flds rows j = PlainArray (sf_type (flds ! j)) (map (\<lambda>r. r ! j) rows)"

definition source_batch_of :: "SourceField list \<Rightarrow> source_value option list list \<Rightarrow> SourceBatch" where
  "source_batch_of flds rows = \<lparr>sb_fields = flds, sb_columns = map (rows_column flds rows) [0..<length flds], sb_num_rows = length rows\<rparr>"

definition row_ok :: "('d, 't) csv_env \<Rightarrow> string option \<Rightarrow> SourceField list \<Rightarrow> source_value option list \<Rightarrow> bool" where
  "row_ok E null_value flds row \<longleftrightarrow> list_all2 (cell_ok E null_value) flds row"

definition row_texts :: "('d, 't) csv_env \<Rightarrow> CsvWriterOptions \<Rightarrow> SourceField list \<Rightarrow> source_value option list \<Rightarrow> string list" where
  "row_texts E opts flds row = map (\<lambda>j. cell_text E opts (flds ! j) (row ! j)) [0..<length flds]"

text \<open>What the settings of the two directions have in common.\<close>

definition settings_ok :: "('d, 't) csv_env \<Rightarrow> CsvWriterOptions \<Rightarrow> string option \<Rightarrow> SourceField list \<Rightarrow> bool" where
  "settings_ok E opts null_value flds \<longleftrightarrow> flds \<noteq> [] \<and> list_all (field_ok E) flds \<and> null_ok opts null_value
    \<and> chrono_dates (ce_chrono E) \<and> value_dialect (cw_column_separator opts) (cw_column_delimiter opts)
    \<and> cw_row_separator opts = lf \<and> \<not> cw_write_header opts"

text \<open>
  The documented behaviour of \<open>RecordBatch::try_new\<close>: as many arrays as flds, at least one, all of one
  length, each of its field's type and without nulls where the field has none, give a batch.
\<close>

definition arrays_documented :: "('d, 't) csv_env \<Rightarrow> bool" where
  "arrays_documented E \<longleftrightarrow> (\<forall>flds cols n. flds \<noteq> [] \<longrightarrow>
    list_all2 (\<lambda>f a. \<exists>cs. a = PlainArray (sf_type f) cs \<and> length cs = n \<and> (sf_nullable f \<or> None \<notin> set cs)) flds cols \<longrightarrow>
    ce_try_new E flds cols = Inr \<lparr>sb_fields = flds, sb_columns = cols, sb_num_rows = n\<rparr>)"

lemma rmap_all: "(\<And>x. x \<in> set xs \<Longrightarrow> f x = Inr (g x)) \<Longrightarrow> rmap f xs = Inr (map g xs)"
  by (induction xs) simp_all

lemma settings_field: "settings_ok E opts null_value flds \<Longrightarrow> j < length flds \<Longrightarrow> field_ok E (flds ! j)"
  by (simp add: settings_ok_def list_all_length)

lemma row_cell: "row_ok E null_value flds row \<Longrightarrow> j < length flds \<Longrightarrow> cell_ok E null_value (flds ! j) (row ! j)"
  by (simp add: row_ok_def list_all2_nthD)

lemma rmap_map: "rmap f (map h xs) = rmap (\<lambda>x. f (h x)) xs"
  by (induction xs) simp_all

lemma format_row_texts:
  assumes "settings_ok E opts null_value flds" "list_all (row_ok E null_value flds) rows" "i < length rows"
  shows "format_row E opts (source_batch_of flds rows) i =
    Inr (format_csv_row (row_texts E opts flds (rows ! i)) (cw_column_separator opts) (cw_column_delimiter opts) LF)"
proof -
  let ?esc = "escape_field (cw_column_separator opts) (cw_column_delimiter opts)"
  have row: "row_ok E null_value flds (rows ! i)" using assms(2,3) by (simp add: list_all_length)
  have "format_value E opts (rows_column flds rows j) i = Inr (?esc (cell_text E opts (flds ! j) (rows ! i ! j)))"
    if "j < length flds" for j
    unfolding rows_column_def
    by (rule format_cell [OF row_cell [OF row that] settings_field [OF assms(1) that]])
      (use assms(1,3) in \<open>simp_all add: settings_ok_def\<close>)
  then have "rmap (\<lambda>column. format_value E opts column i) (sb_columns (source_batch_of flds rows)) =
      Inr (map (\<lambda>j. ?esc (cell_text E opts (flds ! j) (rows ! i ! j))) [0..<length flds])"
    unfolding source_batch_of_def SourceBatch.simps rmap_map by (intro rmap_all) simp
  then show ?thesis using assms(1) by (simp add: format_row_def format_csv_row_def row_texts_def settings_ok_def comp_def)
qed

text \<open>The text of a list of rows.\<close>

definition rows_text :: "('d, 't) csv_env \<Rightarrow> CsvWriterOptions \<Rightarrow> SourceField list \<Rightarrow> source_value option list list \<Rightarrow> string" where
  "rows_text E opts flds rows =
    csv_text (cw_column_separator opts) (cw_column_delimiter opts) LF (map (row_texts E opts flds) rows)"

lemma rows_text_append: "rows_text E opts flds (xs @ ys) = rows_text E opts flds xs @ rows_text E opts flds ys"
  by (simp add: rows_text_def csv_text_def)

lemma vec_step: "or_csv_write (vec_write d) (buf, n) = (Ready (Inr ()), (buf @ d, n))"
  "or_csv_write vec_flush (buf, n) = (Ready (Inr ()), (buf, n))"
  by (simp_all add: or_csv_write_def on_fst_def vec_write_def vec_flush_def amap_err_def)

lemma write_rows_all:
  assumes "settings_ok E opts null_value flds" "list_all (row_ok E null_value flds) rows"
  shows "i \<le> length rows \<Longrightarrow> \<exists>k. write_rows E vec_write opts (source_batch_of flds rows) [i..<length rows] written (buf, n) =
    (Ready (Inr k), (buf @ as_bytes (rows_text E opts flds (drop i rows)), n))"
proof (induction "length rows - i" arbitrary: i written buf)
  case 0
  then show ?case by (simp add: act_simps rows_text_def csv_text_def as_bytes_def)
next
  case (Suc m)
  then have i: "i < length rows" by simp
  let ?row = "format_csv_row (row_texts E opts flds (rows ! i)) (cw_column_separator opts) (cw_column_delimiter opts) LF"
  have "rows_text E opts flds (drop i rows) = ?row @ rows_text E opts flds (drop (Suc i) rows)"
    using i by (simp add: rows_text_def csv_text_def flip: Cons_nth_drop_Suc)
  then have data: "as_bytes (rows_text E opts flds (drop i rows)) = as_bytes ?row @ as_bytes (rows_text E opts flds (drop (Suc i) rows))"
    by (simp add: as_bytes_def)
  have "write_rows E vec_write opts (source_batch_of flds rows) [i..<length rows] written (buf, n) =
      write_rows E vec_write opts (source_batch_of flds rows) [Suc i..<length rows] (written + length ?row) (buf @ as_bytes ?row, n)"
    using i by (simp add: upt_conv_Cons format_row_texts [OF assms i] act_simps abind_eval vec_step)
  then show ?case using Suc.hyps(1) [of "Suc i" "written + length ?row" "buf @ as_bytes ?row"] Suc.hyps(2) i unfolding data by auto
qed

lemma check_fields_ok: "list_all (field_ok E) flds \<Longrightarrow> check_fields E flds = Inr ()"
proof (induction flds)
  case (Cons f flds)
  then have "\<exists>g. resolve_value_formatter E (sf_type f) = Inr g" by (cases "sf_type f") (simp_all add: field_ok_def)
  then show ?case using Cons by auto
qed simp

lemma write_batch_all:
  assumes "settings_ok E opts null_value flds" "list_all (row_ok E null_value flds) rows"
  shows "\<exists>k. write_batch E vec_write opts (source_batch_of flds rows) (buf, n) =
    (Ready (Inr k), (buf @ as_bytes (rows_text E opts flds rows), n + length rows))"
proof -
  obtain k where "write_rows E vec_write opts (source_batch_of flds rows) [0..<length rows] 0 (buf, n) =
      (Ready (Inr k), (buf @ as_bytes (rows_text E opts flds rows), n))"
    using write_rows_all [OF assms, of 0 0 buf n] by auto
  moreover have "check_schema_converts E (sb_fields (source_batch_of flds rows)) = Inr ()" "\<not> cw_write_header opts"
    using assms(1) by (simp_all add: check_schema_converts_def source_batch_of_def check_fields_ok settings_ok_def)
  moreover have "sb_num_rows (source_batch_of flds rows) = length rows" by (simp add: source_batch_of_def)
  ultimately show ?thesis by (simp add: write_batch_def act_simps abind_eval)
qed

lemma write_batches_all:
  assumes "settings_ok E opts null_value flds"
  shows "list_all (list_all (row_ok E null_value flds)) bss \<Longrightarrow> write_batches E vec_write opts (map (source_batch_of flds) bss) (buf, n) =
    (Ready (Inr ()), (buf @ as_bytes (rows_text E opts flds (concat bss)), n + length (concat bss)))"
proof (induction bss arbitrary: buf n)
  case Nil
  then show ?case by (simp add: act_simps rows_text_def csv_text_def as_bytes_def)
next
  case (Cons rows bss)
  then obtain k where "write_batch E vec_write opts (source_batch_of flds rows) (buf, n) =
      (Ready (Inr k), (buf @ as_bytes (rows_text E opts flds rows), n + length rows))"
    using write_batch_all [OF assms, of rows buf n] by auto
  then show ?case using Cons by (simp add: abind_eval rows_text_append as_bytes_def add.assoc)
qed

lemma record_batches_csv:
  assumes "settings_ok E opts null_value flds" "list_all (list_all (row_ok E null_value flds)) bss"
  shows "record_batches_to_csv E (map (source_batch_of flds) bss) opts = Inr (as_bytes (rows_text E opts flds (concat bss)))"
  using write_batches_all [OF assms, of "[]" 0]
  by (simp add: record_batches_to_csv_def run_vec_def finish_writer_def abind_eval vec_step act_simps)

subsection \<open>The way back\<close>

lemma rows_text_parse:
  assumes "settings_ok E opts null_value flds" "list_all (row_ok E null_value flds) rows"
  shows "export_rows (as_bytes (rows_text E opts flds rows)) (cw_column_separator opts) (cw_column_delimiter opts) =
    Inr (map (row_texts E opts flds) rows)"
proof -
  have "list_all is_text (row_texts E opts flds row)" if row: "row_ok E null_value flds row" for row
  proof -
    have "is_text (cell_text E opts (flds ! j) (row ! j))" if "j < length flds" for j
      by (rule cell_text_text [OF row_cell [OF row that]]) (use assms(1) in \<open>simp_all add: settings_ok_def\<close>)
    then show ?thesis by (simp add: row_texts_def list_all_iff)
  qed
  moreover have "row_texts E opts flds row \<noteq> []" for row using assms(1) by (simp add: row_texts_def settings_ok_def)
  ultimately have texts: "list_all (\<lambda>row. row \<noteq> [] \<and> list_all is_text row) (map (row_texts E opts flds) rows)"
    using assms(2) by (auto simp: list_all_iff)
  have "dialect (cw_column_separator opts) (cw_column_delimiter opts)"
    using assms(1) by (simp add: settings_ok_def value_dialect_def)
  from parse_csv_text [OF this texts, of LF] show ?thesis by (simp add: export_rows_def rows_text_def is_text_def)
qed

lemma rows_back:
  assumes "settings_ok E opts null_value flds" "list_all (row_ok E null_value flds) rows" "arrays_documented E"
  shows "rows_to_batch E flds null_value (map (row_texts E opts flds) rows) = Inr (source_batch_of flds rows)"
proof -
  have cells: "\<forall>c \<in> set (map (\<lambda>r. r ! j) rows). cell_ok E null_value (flds ! j) c" if "j < length flds" for j
    using assms(2) row_cell that by (fastforce simp: list_all_iff)
  have "column_values (map (row_texts E opts flds) rows) j = map (cell_text E opts (flds ! j)) (map (\<lambda>r. r ! j) rows)"
    if "j < length flds" for j
    using that by (simp add: column_values_def row_texts_def)
  then have "build_array_from_strings E (column_values (map (row_texts E opts flds) rows) j) (sf_type (flds ! j))
      (sf_nullable (flds ! j)) null_value 0 j = Inr (rows_column flds rows j)" if "j < length flds" for j
    using that build_column [OF cells [OF that] settings_field [OF assms(1) that], of opts 0 j] assms(1)
    by (simp add: rows_column_def settings_ok_def)
  then have arrays: "build_arrays E flds null_value 0 (map (row_texts E opts flds) rows) = Inr (map (rows_column flds rows) [0..<length flds])"
    unfolding build_arrays_def by (intro rmap_all) (simp add: Let_def)
  have typed: "list_all2 (\<lambda>f a. \<exists>cs. a = PlainArray (sf_type f) cs \<and> length cs = length rows \<and> (sf_nullable f \<or> None \<notin> set cs))
      flds (map (rows_column flds rows) [0..<length flds])"
    using cells by (fastforce simp: list_all2_conv_all_nth rows_column_def cell_ok_def)
  have "flds \<noteq> []" using assms(1) by (simp add: settings_ok_def)
  then have "ce_try_new E flds (map (rows_column flds rows) [0..<length flds]) = Inr (source_batch_of flds rows)"
    using assms(3) typed unfolding arrays_documented_def source_batch_of_def by blast
  then show ?thesis by (simp add: rows_to_batch_def arrays)
qed

lemma chunks_map: "chunks n (map f xs) = map (map f) (chunks n xs)"
proof (induction n xs rule: chunks.induct)
  case (1 n xs)
  show ?case
  proof (cases "xs = [] \<or> n = 0")
    case True
    then show ?thesis by (subst (1 2) chunks.simps) auto
  next
    case False
    then show ?thesis using 1 by (subst (1 2) chunks.simps) (simp add: take_map drop_map)
  qed
qed

lemma chunks_elements: "c \<in> set (chunks n xs) \<Longrightarrow> set c \<subseteq> set xs"
proof (induction n xs rule: chunks.induct)
  case (1 n xs)
  then show ?case by (subst (asm) (2) chunks.simps) (auto split: if_splits dest: in_set_takeD in_set_dropD)
qed

lemma batches_back:
  assumes "settings_ok E opts (ae_null_value eopts) flds" "list_all (row_ok E (ae_null_value eopts) flds) rows" "arrays_documented E"
    and "ae_schema eopts = Some flds" "0 < ae_batch_size eopts"
  shows "rows_to_record_batches E eopts (map (row_texts E opts flds) rows) = Inr (map (source_batch_of flds) (chunks (ae_batch_size eopts) rows))"
proof -
  have "list_all (row_ok E (ae_null_value eopts) flds) c" if "c \<in> set (chunks (ae_batch_size eopts) rows)" for c
    using assms(2) chunks_elements [OF that] by (auto simp: list_all_iff)
  then have "rmap (\<lambda>c. rows_to_batch E flds (ae_null_value eopts) (map (row_texts E opts flds) c)) (chunks (ae_batch_size eopts) rows) =
      Inr (map (source_batch_of flds) (chunks (ae_batch_size eopts) rows))"
    using rows_back [OF assms(1) _ assms(3)] by (intro rmap_all) simp
  then show ?thesis using assms(4,5) by (simp add: rows_to_record_batches_def chunks_map rmap_map)
qed

subsection \<open>Blank lines\<close>

lemma read_blank_line:
  "ls_bytes src = 0x0A # rest \<Longrightarrow> source_read_line src = (Inr lf, src\<lparr>ls_bytes := rest\<rparr>)"
proof -
  have "as_bytes lf = [0x0A]" by (simp add: as_bytes_def byte_of_char_def)
  then have "text_of [0x0A] = lf" using text_of_as_bytes [of lf] by simp
  moreover have "utf8_valid [0x0A]" by (simp add: utf8_valid_def)
  ultimately show "ls_bytes src = 0x0A # rest \<Longrightarrow> ?thesis" by (simp add: source_read_line_def Let_def)
qed

lemma read_blank_lines:
  "ls_bytes (ar_source r) = replicate n 0x0A @ rest \<Longrightarrow>
    read_batch_rows n rows r = (Inr rows, r\<lparr>ar_source := (ar_source r)\<lparr>ls_bytes := rest\<rparr>\<rparr>)"
proof (induction n arbitrary: r)
  case (Suc n)
  then show ?case
    using read_blank_line [of "ar_source r" "replicate n 0x0A @ rest"] Suc.IH [of "r\<lparr>ar_source := (ar_source r)\<lparr>ls_bytes := replicate n 0x0A @ rest\<rparr>\<rparr>"]
    by (simp add: trim_line_end_def)
qed simp

lemma blank_batch:
  assumes "\<not> ar_finished r" "ls_bytes (ar_source r) = replicate (ar_batch_size r) 0x0A @ rest"
  shows "next_batch_of_reader E r = (Inr None, r\<lparr>ar_source := (ar_source r)\<lparr>ls_bytes := rest\<rparr>\<rparr>)"
  using assms read_blank_lines [of r "ar_batch_size r" rest "[]"] by (simp add: next_batch_of_reader_def)

text \<open>Nulls of a single column are blank lines when the null text is empty.\<close>

lemma null_row_text: "cw_null_value opts = [] \<Longrightarrow> as_bytes (rows_text E opts [f] [[None]]) = [0x0A]"
proof -
  assume "cw_null_value opts = []"
  then have "rows_text E opts [f] [[None]] = lf"
    by (simp add: rows_text_def csv_text_def row_texts_def cell_text_def format_csv_row_def escape_field_def needs_quoting_def)
  then show ?thesis by (simp add: as_bytes_def byte_of_char_def)
qed

lemma null_rows_text:
  assumes "cw_null_value opts = []"
  shows "as_bytes (rows_text E opts [f] (replicate n [None] @ rows)) = replicate n 0x0A @ as_bytes (rows_text E opts [f] rows)"
proof (induction n)
  case (Suc n)
  have "as_bytes (rows_text E opts [f] (replicate (Suc n) [None] @ rows)) =
      as_bytes (rows_text E opts [f] [[None]] @ rows_text E opts [f] (replicate n [None] @ rows))"
    using rows_text_append [of E opts "[f]" "[[None]]" "replicate n [None] @ rows"] by simp
  also have "\<dots> = as_bytes (rows_text E opts [f] [[None]]) @ as_bytes (rows_text E opts [f] (replicate n [None] @ rows))"
    by (simp only: as_bytes_def map_append)
  finally show ?case unfolding Suc null_row_text [OF assms] by simp
qed simp

end
