(* ===== verification/Arrow_Converter.thy ===== *)
theory Arrow_Converter
  imports Results Http_Tunnel
begin

text \<open>
  The conversion of JSON results to Arrow batches that the crate exports
  (\<open>src/arrow_conversion/builders.rs\<close> and \<open>converter.rs\<close>): one builder per type, which
  refuses a value it cannot read, and the converter with its two ways from rows to columns.
  What it uses of \<open>src/error.rs\<close> and of the type mapping is in \<open>Results\<close> and \<open>Type_Mapping\<close>.
  The parameters of \<open>Results\<close> are extended with the \<open>Debug\<close> text of a JSON value, the
  floating-point conversions, and the allocator's answer to a request for \<open>n\<close> elements.
\<close>

record converter_env = result_env +
  cv_json_debug :: "json \<Rightarrow> string"
  cv_parse_f64 :: "string \<Rightarrow> u64 option"
  cv_i64_as_f64 :: "int \<Rightarrow> u64"
  cv_scaled_text :: "u64 \<Rightarrow> int \<Rightarrow> string"
  cv_reserve :: "nat \<Rightarrow> bool"

subsection \<open>Builders\<close>

abbreviation invalid_value :: "nat \<Rightarrow> string \<Rightarrow> ColumnConversionError" where
  "invalid_value row reason \<equiv> ValueError row reason False"

abbreviation overflow_value :: "nat \<Rightarrow> string \<Rightarrow> ColumnConversionError" where
  "overflow_value row reason \<equiv> ValueError row reason True"

definition with_capacity :: "converter_env \<Rightarrow> nat \<Rightarrow> ('e, unit) result" where
  "with_capacity E n = (if cv_reserve E n then Inr () else Inl Panic)"

text \<open>An operation on \<open>usize\<close>.\<close>

definition usize_arith :: "bool \<Rightarrow> nat \<Rightarrow> ('e, nat) result" where
  "usize_arith ovf n = (if n < 2 ^ 64 then Inr n else if ovf then Inl Panic else Inr (n mod 2 ^ 64))"

text \<open>The loop that all builders have: a null stays null, the first failure ends it.\<close>

definition append_rows ::
  "(nat \<Rightarrow> json \<Rightarrow> (ColumnConversionError, cell) result) \<Rightarrow> json list \<Rightarrow> (ColumnConversionError, column) result" where
  "append_rows f vs = rmap_rows 0 (\<lambda>row v.
    if json_is_null v then Inr None else rbind (f row v) (\<lambda>c. Inr (Some c))) vs"

definition expected_kind :: "converter_env \<Rightarrow> string \<Rightarrow> nat \<Rightarrow> json \<Rightarrow> (ColumnConversionError, 'a) result" where
  "expected_kind E what row v = fail (invalid_value row (''Expected '' @ what @ '', got: '' @ cv_json_debug E v))"

definition append_boolean :: "converter_env \<Rightarrow> nat \<Rightarrow> json \<Rightarrow> (ColumnConversionError, cell) result" where
  "append_boolean E row v = (case json_as_bool v of
      Some b \<Rightarrow> Inr (CBoolean b)
    | None \<Rightarrow> expected_kind E ''boolean'' row v)"

definition build_json_boolean_array :: "converter_env \<Rightarrow> json list \<Rightarrow> (ColumnConversionError, column) result" where
  "build_json_boolean_array E vs = rbind (with_capacity E (length vs)) (\<lambda>_. append_rows (append_boolean E) vs)"

definition estimate_string_capacity :: "converter_env \<Rightarrow> json list \<Rightarrow> ('e, nat) result" where
  "estimate_string_capacity E vs =
    (let sample = List.map_filter json_as_str (take 10 vs);
         total_len = sum_list (map length sample);
         count = length sample in
     rbind (if count = 0 then Inr 32 else usize_arith (re_overflow_checks E) (total_len div count + 8)) (\<lambda>n.
     usize_arith (re_overflow_checks E) (n * length vs)))"

definition append_string :: "converter_env \<Rightarrow> nat \<Rightarrow> json \<Rightarrow> (ColumnConversionError, cell) result" where
  "append_string E row v = (case json_as_str v of
      Some s \<Rightarrow> Inr (CUtf8 s)
    | None \<Rightarrow> expected_kind E ''string'' row v)"

definition build_json_string_array :: "converter_env \<Rightarrow> json list \<Rightarrow> (ColumnConversionError, column) result" where
  "build_json_string_array E vs =
    rbind (estimate_string_capacity E vs) (\<lambda>estimated_bytes.
    rbind (with_capacity E (length vs)) (\<lambda>_.
    rbind (with_capacity E estimated_bytes) (\<lambda>_. append_rows (append_string E) vs)))"

definition validate_decimal_precision :: "string \<Rightarrow> nat \<Rightarrow> nat \<Rightarrow> (ColumnConversionError, unit) result" where
  "validate_decimal_precision value_str precision row =
    (let digits = filter is_ascii_digit value_str;
         total_digits = length digits;
         significant_digits = trim_start_matches (CHR ''0'') digits;
         significant_count = (if significant_digits = [] then 1 else length significant_digits) in
     if precision < significant_count then
       fail (overflow_value row (show_nat significant_count @ '' significant digits exceed precision '' @ show_nat precision))
     else if precision + 1 < total_digits then
       fail (overflow_value row (show_nat total_digits @ '' digits exceed precision '' @ show_nat precision))
     else Inr ())"

text \<open>Of a value that is no text, an integer is scaled in 128 bits, a float through its text.\<close>

definition json_decimal_to_i128 ::
  "converter_env \<Rightarrow> nat \<Rightarrow> int \<Rightarrow> nat \<Rightarrow> json \<Rightarrow> (ColumnConversionError, int) result" where
  "json_decimal_to_i128 E precision scale row v = (let ovf = re_overflow_checks E in
    case json_as_i64 v of
      Some n \<Rightarrow> rbind (arith ovf 128 (10 ^ nat (scale mod 2 ^ 32))) (\<lambda>p. arith ovf 128 (n * p))
    | None \<Rightarrow> (case re_as_f64 E v of
        Some f \<Rightarrow> (case parse_i128 (cv_scaled_text E f scale) of
            Some i \<Rightarrow> Inr i
          | None \<Rightarrow> fail (overflow_value row ''Value does not fit in 128 bits''))
      | None \<Rightarrow> (case json_as_str v of
          None \<Rightarrow> expected_kind E ''numeric value'' row v
        | Some value_str \<Rightarrow> rbind (validate_decimal_precision value_str precision row) (\<lambda>_.
            map_err (invalid_value row) (parse_decimal_to_i128 ovf value_str scale)))))"

definition build_json_decimal_array ::
  "converter_env \<Rightarrow> json list \<Rightarrow> nat \<Rightarrow> int \<Rightarrow> (ColumnConversionError, column) result" where
  "build_json_decimal_array E vs precision scale =
    rbind (with_capacity E (length vs)) (\<lambda>_.
    rbind (case re_decimal_type E precision scale of
        Inl e \<Rightarrow> fail (OtherError (ArrowError e)) | Inr _ \<Rightarrow> Inr ()) (\<lambda>_.
    append_rows (\<lambda>row v. rbind (json_decimal_to_i128 E precision scale row v) (\<lambda>i. Inr (CDecimal i))) vs))"

definition append_double :: "converter_env \<Rightarrow> nat \<Rightarrow> json \<Rightarrow> (ColumnConversionError, cell) result" where
  "append_double E row v = (case re_as_f64 E v of
      Some f \<Rightarrow> Inr (CFloat64 f)
    | None \<Rightarrow> (case json_as_i64 v of
        Some i \<Rightarrow> Inr (CFloat64 (cv_i64_as_f64 E i))
      | None \<Rightarrow> (case json_as_str v of
          Some s \<Rightarrow>
            if s = ''Infinity'' then Inr (CFloat64 0x7FF0000000000000)
            else if s = ''-Infinity'' then Inr (CFloat64 0xFFF0000000000000)
            else if s = ''NaN'' then Inr (CFloat64 0x7FF8000000000000)
            else (case cv_parse_f64 E s of
                Some f \<Rightarrow> Inr (CFloat64 f)
              | None \<Rightarrow> fail (invalid_value row (''Invalid float value: '' @ s)))
        | None \<Rightarrow> expected_kind E ''number'' row v)))"

definition build_json_double_array :: "converter_env \<Rightarrow> json list \<Rightarrow> (ColumnConversionError, column) result" where
  "build_json_double_array E vs = rbind (with_capacity E (length vs)) (\<lambda>_. append_rows (append_double E) vs)"

text \<open>The builders that read a text and refuse everything else.\<close>

definition append_parsed ::
  "converter_env \<Rightarrow> string \<Rightarrow> (string \<Rightarrow> (string, cell) result) \<Rightarrow> nat \<Rightarrow> json \<Rightarrow> (ColumnConversionError, cell) result" where
  "append_parsed E what parse row v = (case json_as_str v of
      Some s \<Rightarrow> map_err (invalid_value row) (parse s)
    | None \<Rightarrow> expected_kind E what row v)"

definition build_json_date_array :: "converter_env \<Rightarrow> json list \<Rightarrow> (ColumnConversionError, column) result" where
  "build_json_date_array E vs = rbind (with_capacity E (length vs)) (\<lambda>_.
    append_rows (append_parsed E ''date string''
      (\<lambda>s. rbind (parse_date_to_days (re_overflow_checks E) s) (\<lambda>d. Inr (CDate d)))) vs)"

text \<open>The time zone that \<open>with_timezone\<close> gives the array is that of the field.\<close>

definition build_json_timestamp_array :: "converter_env \<Rightarrow> json list \<Rightarrow> bool \<Rightarrow> (ColumnConversionError, column) result" where
  "build_json_timestamp_array E vs with_local_tz = rbind (with_capacity E (length vs)) (\<lambda>_.
    append_rows (append_parsed E ''timestamp string''
      (\<lambda>s. rbind (parse_timestamp_to_micros (re_overflow_checks E) s) (\<lambda>m. Inr (CTimestamp m)))) vs)"

definition build_json_interval_array :: "converter_env \<Rightarrow> json list \<Rightarrow> (ColumnConversionError, column) result" where
  "build_json_interval_array E vs = rbind (with_capacity E (length vs)) (\<lambda>_.
    append_rows (append_parsed E ''interval string''
      (\<lambda>s. rbind (parse_interval (re_overflow_checks E) s) (\<lambda>i. Inr (CInterval i)))) vs)"

text \<open>
  \<open>decode_hex\<close>, two bytes at a time: the slice panics when it ends inside a character, and
  \<open>u8::from_str_radix\<close> reads a sign like the reader of a chunk size.
\<close>

fun decode_pairs :: "string \<Rightarrow> (unit, byte list) result" where
  "decode_pairs (a # b # r) =
    (if r \<noteq> [] \<and> utf8_tail (byte_of_char (hd r)) then Inl Panic
     else case parse_hex [a, b] of
       Inl _ \<Rightarrow> fail ()
     | Inr n \<Rightarrow> rbind (decode_pairs r) (\<lambda>bs. Inr (of_nat n # bs)))"
| "decode_pairs _ = Inr []"

definition decode_hex :: "string \<Rightarrow> (unit, byte list) result" where
  "decode_hex s = (if \<not> 2 dvd length s then fail () else decode_pairs s)"

definition estimate_binary_capacity :: "converter_env \<Rightarrow> json list \<Rightarrow> ('e, nat) result" where
  "estimate_binary_capacity E vs =
    (let sample_count = min (length vs) 10;
         sample_total = sum_list (map (\<lambda>s. length s div 2) (List.map_filter json_as_str (take 10 vs))) in
     rbind (usize_arith (re_overflow_checks E)
       ((if sample_count = 0 then 32 else max 1 (sample_total div sample_count)) * length vs)) (\<lambda>n.
     Inr (max n 1024)))"

definition build_json_binary_array :: "converter_env \<Rightarrow> json list \<Rightarrow> (ColumnConversionError, column) result" where
  "build_json_binary_array E vs =
    rbind (estimate_binary_capacity E vs) (\<lambda>estimated_bytes.
    rbind (with_capacity E (length vs)) (\<lambda>_.
    rbind (with_capacity E estimated_bytes) (\<lambda>_.
    append_rows (append_parsed E ''hex string''
      (\<lambda>s. rbind (map_err (\<lambda>_. ''Invalid hex string: '' @ s) (decode_hex s)) (\<lambda>b. Inr (CBinary b)))) vs)))"

definition build_typed_array :: "converter_env \<Rightarrow> ExasolType \<Rightarrow> json list \<Rightarrow> (ColumnConversionError, column) result" where
  "build_typed_array E exasol_type vs = (case exasol_type of
      EBoolean \<Rightarrow> build_json_boolean_array E vs
    | EChar _ \<Rightarrow> build_json_string_array E vs
    | EVarchar _ \<Rightarrow> build_json_string_array E vs
    | EDecimal precision scale \<Rightarrow> build_json_decimal_array E vs precision scale
    | EDouble \<Rightarrow> build_json_double_array E vs
    | EDate \<Rightarrow> build_json_date_array E vs
    | ETimestamp with_local_tz \<Rightarrow> build_json_timestamp_array E vs with_local_tz
    | EIntervalYearToMonth \<Rightarrow> build_json_interval_array E vs
    | EIntervalDayToSecond _ \<Rightarrow> build_json_interval_array E vs
    | EGeometry _ \<Rightarrow> build_json_binary_array E vs
    | EHashtype _ \<Rightarrow> build_json_binary_array E vs)"

definition build_json_array ::
  "converter_env \<Rightarrow> ExasolType \<Rightarrow> json list \<Rightarrow> nat \<Rightarrow> string \<Rightarrow> (ConversionError, column) result" where
  "build_json_array E exasol_type vs col name =
    map_err (into_conversion_error (result_env.truncate E) col name vs (exasol_to_arrow exasol_type))
      (build_typed_array E exasol_type vs)"

subsection \<open>The converter\<close>

record ArrowConverter =
  ac_schema :: "MetaField list"
  ac_column_types :: "ExasolType list"

definition required_attribute :: "'a option \<Rightarrow> string \<Rightarrow> string \<Rightarrow> (ConversionError, 'a) result" where
  "required_attribute v tname attribute = (case v of
      Some x \<Rightarrow> Inr x
    | None \<Rightarrow> fail (InvalidFormat (tname @ '' type missing '' @ attribute)))"

definition parse_exasol_type :: "DataType \<Rightarrow> (ConversionError, ExasolType) result" where
  "parse_exasol_type dt = (let n = type_name dt in
     if n = ''BOOLEAN'' then Inr EBoolean
     else if n = ''CHAR'' then
       rbind (required_attribute (dt_size dt) ''CHAR'' ''size'') (\<lambda>s. Inr (EChar (as_usize s)))
     else if n = ''VARCHAR'' then
       rbind (required_attribute (dt_size dt) ''VARCHAR'' ''size'') (\<lambda>s. Inr (EVarchar (as_usize s)))
     else if n = ''DECIMAL'' then
       rbind (required_attribute (dt_precision dt) ''DECIMAL'' ''precision'') (\<lambda>p.
       rbind (required_attribute (dt_scale dt) ''DECIMAL'' ''scale'') (\<lambda>s.
       Inr (EDecimal (as_u8 p) (as_i8 s))))
     else if n = ''DOUBLE'' then Inr EDouble
     else if n = ''DATE'' then Inr EDate
     else if n = ''TIMESTAMP'' then
       Inr (ETimestamp (case with_local_time_zone dt of None \<Rightarrow> False | Some b \<Rightarrow> b))
     else if n = ''TIMESTAMP WITH LOCAL TIME ZONE'' then Inr (ETimestamp True)
     else if n = ''INTERVAL YEAR TO MONTH'' then Inr EIntervalYearToMonth
     else if n = ''INTERVAL DAY TO SECOND'' then
       Inr (EIntervalDayToSecond (as_u8 (case fraction dt of None \<Rightarrow> 3 | Some f \<Rightarrow> f)))
     else if n = ''GEOMETRY'' then Inr (EGeometry (srid dt))
     else if n = ''HASHTYPE'' then Inr (hashtype_from_reported_size (dt_size dt))
     else fail (UnsupportedType n))"

definition ArrowConverter_new :: "converter_env \<Rightarrow> ColumnInfo list \<Rightarrow> (ConversionError, ArrowConverter) result" where
  "ArrowConverter_new E columns =
    rbind (rmap (\<lambda>col. rbind (parse_exasol_type (ci_data_type col)) (\<lambda>t. Inr (ci_name col, t))) columns) (\<lambda>column_metadata.
    Inr \<lparr>ac_schema = schema_build (re_type_json E)
           (map (\<lambda>(name, t). \<lparr>col_name = name, col_data_type = t, col_nullable = True\<rparr>) column_metadata),
         ac_column_types = map snd column_metadata\<rparr>)"

definition check_row_width :: "ArrowConverter \<Rightarrow> json list list \<Rightarrow> (ConversionError, unit) result" where
  "check_row_width C rows = (case rows of
      first_row # _ \<Rightarrow>
        if length first_row \<noteq> length (ac_column_types C) then
          fail (SchemaMismatch (''Data has '' @ show_nat (length first_row) @ '' columns, expected ''
            @ show_nat (length (ac_column_types C))))
        else Inr ()
    | [] \<Rightarrow> Inr ())"

text \<open>An index past the end of the columns or of the schema panics.\<close>

definition build_json_record_batch :: "converter_env \<Rightarrow> ArrowConverter \<Rightarrow> json list list \<Rightarrow> (ConversionError, ResultBatch) result" where
  "build_json_record_batch E C columns =
    rbind (rmap (\<lambda>(col_idx, exasol_type).
      if col_idx < length columns \<and> col_idx < length (ac_schema C)
      then build_json_array E exasol_type (columns ! col_idx) col_idx (field_name (ac_schema C ! col_idx))
      else Inl Panic) (enumerate 0 (ac_column_types C))) (\<lambda>arrays.
    batch_try_new (result_env.truncate E) None (map Field.truncate (ac_schema C)) (map field_metadata (ac_schema C)) arrays)"

text \<open>\<open>RecordBatch::new_empty\<close>.\<close>

definition new_empty :: "MetaField list \<Rightarrow> ResultBatch" where
  "new_empty schema = \<lparr>rb_fields = map Field.truncate schema, rb_columns = map (\<lambda>_. []) schema, rb_num_rows = 0,
    rb_metadata = map field_metadata schema\<rparr>"

text \<open>A batch of the native transport, whose fields have no metadata.\<close>

definition native_batch :: "RecordBatch \<Rightarrow> ResultBatch" where
  "native_batch b = with_metadata (map (\<lambda>_. []) (rb_fields b)) b"

definition convert_to_record_batch :: "converter_env \<Rightarrow> ArrowConverter \<Rightarrow> ResultData \<Rightarrow> (ConversionError, ResultBatch) result" where
  "convert_to_record_batch E C d = (case rd_data d of
      PayloadArrow batch \<Rightarrow> Inr (native_batch batch)
    | PayloadJson rows \<Rightarrow>
        if rows = [] then Inr (new_empty (ac_schema C))
        else rbind (check_row_width C rows) (\<lambda>_.
          build_json_record_batch E C
            (map (\<lambda>col_idx. map (\<lambda>row. if col_idx < length row then row ! col_idx else JNull) rows)
              [0..<length (ac_column_types C)])))"

text \<open>The values of a row move to the ends of their columns.\<close>

definition push_row :: "nat \<Rightarrow> json list \<Rightarrow> json list list \<Rightarrow> json list list" where
  "push_row num_columns row columns = fold (\<lambda>(col_idx, v) columns.
    if col_idx < num_columns then columns[col_idx := columns ! col_idx @ [v]] else columns) (enumerate 0 row) columns"

definition convert_to_record_batch_owned :: "converter_env \<Rightarrow> ArrowConverter \<Rightarrow> ResultData \<Rightarrow> (ConversionError, ResultBatch) result" where
  "convert_to_record_batch_owned E C d = (case rd_data d of
      PayloadArrow batch \<Rightarrow> Inr (native_batch batch)
    | PayloadJson rows \<Rightarrow>
        if rows = [] then Inr (new_empty (ac_schema C))
        else rbind (check_row_width C rows) (\<lambda>_.
          let num_columns = length (ac_column_types C) in
          build_json_record_batch E C (fold (push_row num_columns) rows (replicate num_columns []))))"

definition convert_chunks :: "converter_env \<Rightarrow> ArrowConverter \<Rightarrow> ResultData list \<Rightarrow> (ConversionError, ResultBatch list) result" where
  "convert_chunks E C = rmap (convert_to_record_batch E C)"

definition convert_chunks_owned :: "converter_env \<Rightarrow> ArrowConverter \<Rightarrow> ResultData list \<Rightarrow> (ConversionError, ResultBatch list) result" where
  "convert_chunks_owned E C = rmap (convert_to_record_batch_owned E C)"

end
