(* ===== verification/Arrow_Converter_Laws.thy ===== *)
theory Arrow_Converter_Laws
  imports Arrow_Converter Column_Laws Result_Laws Conversion_Laws
begin

text \<open>
  What the JSON converter promises: moving the values of the rows to their columns equals
  picking the columns from the rows, what the server's JSON of the values converts to is
  what the native transport decodes, up to the zone of the session in timestamps with local
  time zone, and a batch that the converter accepts is the one that
  the result sets build from the same rows. The locale \<open>strict_reader\<close> states how a builder
  that refuses values and an extraction that does not relate.
\<close>

subsection \<open>From rows to columns\<close>

lemma push_values:
  "length columns = n \<Longrightarrow> fold (\<lambda>(i, v) columns. if i < n then columns[i := columns ! i @ [v]] else columns)
      (enumerate k row) columns =
    map (\<lambda>c. if k \<le> c \<and> c - k < length row then columns ! c @ [row ! (c - k)] else columns ! c) [0..<n]"
proof (induction row arbitrary: k columns)
  case Nil
  then show ?case by (auto intro: nth_equalityI)
next
  case (Cons v row)
  let ?cols = "if k < n then columns[k := columns ! k @ [v]] else columns"
  have "fold (\<lambda>(i, v) columns. if i < n then columns[i := columns ! i @ [v]] else columns) (enumerate (Suc k) row) ?cols =
      map (\<lambda>c. if Suc k \<le> c \<and> c - Suc k < length row then ?cols ! c @ [row ! (c - Suc k)] else ?cols ! c) [0..<n]"
    using Cons.prems by (intro Cons.IH) simp
  also have "\<dots> = map (\<lambda>c. if k \<le> c \<and> c - k < length (v # row) then columns ! c @ [(v # row) ! (c - k)] else columns ! c) [0..<n]"
    using Cons.prems by (intro map_cong refl) (auto simp: nth_Cons' nth_list_update not_le le_less_Suc_eq)
  finally show ?case by simp
qed

lemma push_row_eq:
  "length columns = n \<Longrightarrow> push_row n row columns =
    map (\<lambda>c. if c < length row then columns ! c @ [row ! c] else columns ! c) [0..<n]"
  using push_values [of columns n 0 row] by (simp add: push_row_def)

text \<open>Rows that are wide enough lose no value and need no padding.\<close>

lemma push_rows_eq:
  "list_all (\<lambda>row. n \<le> length row) rows \<Longrightarrow> length columns = n \<Longrightarrow>
    fold (push_row n) rows columns = map (\<lambda>c. columns ! c @ column_of rows c) [0..<n]"
proof (induction rows arbitrary: columns)
  case Nil
  then show ?case by (auto simp: column_of_def intro: nth_equalityI)
next
  case (Cons row rows)
  have row: "push_row n row columns = map (\<lambda>c. columns ! c @ [row ! c]) [0..<n]"
    using Cons.prems by (auto simp: push_row_eq)
  have "fold (push_row n) rows (push_row n row columns) =
      map (\<lambda>c. push_row n row columns ! c @ column_of rows c) [0..<n]"
    using Cons.prems by (intro Cons.IH) (simp_all add: row)
  then show ?case using Cons.prems by (auto simp: row column_of_def)
qed

lemma wide_rows_columns:
  assumes "list_all (\<lambda>row. n \<le> length row) rows"
  shows "fold (push_row n) rows (replicate n []) = map (column_of rows) [0..<n]"
  using push_rows_eq [OF assms, of "replicate n []"] by simp

fun wide_payload :: "nat \<Rightarrow> ResultPayload \<Rightarrow> bool" where
  "wide_payload n (PayloadJson rows) \<longleftrightarrow> list_all (\<lambda>row. n \<le> length row) rows"
| "wide_payload n (PayloadArrow _) \<longleftrightarrow> True"

lemma convert_borrowed_json:
  "rd_data d = PayloadJson rows \<Longrightarrow> rows \<noteq> [] \<Longrightarrow> convert_to_record_batch E C d =
    rbind (check_row_width C rows) (\<lambda>_. build_json_record_batch E C (map (column_of rows) [0..<length (ac_column_types C)]))"
  by (simp add: convert_to_record_batch_def column_of_def [abs_def])

lemma convert_owned_eq:
  assumes "wide_payload (length (ac_column_types C)) (rd_data d)"
  shows "convert_to_record_batch_owned E C d = convert_to_record_batch E C d"
  using assms
  by (cases "rd_data d")
    (auto simp: convert_to_record_batch_owned_def convert_to_record_batch_def wide_rows_columns column_of_def [abs_def] Let_def)

text \<open>An empty row after the first is dropped when the values are moved, and a row of nulls otherwise.\<close>

lemma empty_row_dropped: "fold (push_row n) (r # [] # rows) cols = fold (push_row n) (r # rows) cols"
  by (simp add: push_row_def)

subsection \<open>The texts of the values\<close>

text \<open>A value below \<open>10 ^ k\<close> has at most \<open>k\<close> digits after its leading zeros.\<close>

lemma significant_digits:
  assumes "list_all is_ascii_digit ds" "digits_val ds < 10 ^ k"
  shows "length (dropWhile (\<lambda>c. c = CHR ''0'') ds) \<le> k"
  using assms
proof (induction ds)
  case (Cons c ds)
  have v: "digits_val (c # ds) = digit_val c * 10 ^ length ds + digits_val ds"
    using digits_val_append [of "[c]" ds] by simp
  show ?case
  proof (cases "c = CHR ''0''")
    case True
    then show ?thesis using Cons v by simp
  next
    case False
    then have "of_char c \<noteq> (of_char (CHR ''0'') :: nat)" by (simp only: of_char_eq_iff not_False_eq_True)
    then have "of_char c \<noteq> (48 :: nat)" by simp
    moreover have "48 \<le> (of_char c :: nat)" using Cons.prems(1) by (simp add: is_ascii_digit_def)
    ultimately have "1 \<le> digit_val c" unfolding digit_val_def by linarith
    then have "1 * 10 ^ length ds \<le> digit_val c * 10 ^ length ds" by (rule mult_le_mono1)
    then have "10 ^ length ds \<le> digits_val (c # ds)" using v by linarith
    then have "(10 :: nat) ^ length ds < 10 ^ k" using Cons.prems(2) by linarith
    then show ?thesis using False by simp
  qed
qed simp

lemma decimal_text_precise:
  assumes "\<bar>i\<bar> < 10 ^ p" "s \<le> p" "0 < p"
  shows "validate_decimal_precision (show_decimal i s) p row = Inr ()"
proof -
  define n where "n = nat \<bar>i\<bar>"
  define q f where "q = n div 10 ^ s" and "f = n mod 10 ^ s"
  define ds where "ds = show_nat q @ (if s = 0 then [] else pad_zero s (show_nat f))"
  have "int n < 10 ^ p" using assms(1) by (simp add: n_def)
  then have n: "n < 10 ^ p" by (metis of_nat_less_iff of_nat_numeral of_nat_power)
  have f: "length (pad_zero s (show_nat f)) = s" if "0 < s"
    using that by (intro length_pad_zero length_show_nat) (simp_all add: f_def)
  have ds: "list_all is_ascii_digit ds" by (simp add: ds_def)
  have "filter is_ascii_digit ds = ds" "filter is_ascii_digit (show_nat m) = show_nat m"
    "filter is_ascii_digit (pad_zero s (show_nat m)) = pad_zero s (show_nat m)" for m
    by (simp_all add: filter_id_conv ds flip: list_all_iff)
  moreover have "\<not> is_ascii_digit (CHR ''-'')" "\<not> is_ascii_digit (CHR ''.'')" by (simp_all add: is_ascii_digit_def)
  ultimately have digits: "filter is_ascii_digit (show_decimal i s) = ds"
    by (simp add: show_decimal_def signed_text_def ds_def q_def f_def n_def)
  have "digits_val ds = n" using f by (cases "s = 0") (simp_all add: ds_def q_def f_def digits_val_append div_mult_mod_eq)
  then have sig: "length (dropWhile (\<lambda>c. c = CHR ''0'') ds) \<le> p" using ds n by (simp add: significant_digits)
  have q: "length (show_nat q) \<le> (if s = p then 1 else p - s)"
  proof (cases "s = p")
    case True
    then have "q < 10 ^ 1" using n by (simp add: q_def)
    then have "length (show_nat q) \<le> 1" by (rule length_show_nat) simp
    then show ?thesis using True by simp
  next
    case False
    have "(10 :: nat) ^ p = 10 ^ (p - s) * 10 ^ s" using assms(2) by (simp flip: power_add)
    then have "q < 10 ^ (p - s)" using n by (simp add: q_def div_less_iff_less_mult)
    then show ?thesis using False assms(2) by (simp add: length_show_nat)
  qed
  then have "length ds \<le> p + 1" using f assms(2) by (cases "s = 0") (auto simp: ds_def split: if_splits)
  then show ?thesis using sig assms(3)
    by (simp add: validate_decimal_precision_def digits trim_start_matches_def Let_def)
qed

text \<open>Two hexadecimal digits per byte.\<close>

lemma of_hex_char: "n < 16 \<Longrightarrow> of_char (hex_char n) = (if n < 10 then 48 + n else 87 + n :: nat)"
  by (simp add: hex_char_def digit_char_def)

lemma hex_chars:
  assumes "n < 16"
  shows "hex_value (hex_char n) = Some n" and "hex_char n \<noteq> CHR ''+''" and "\<not> utf8_tail (byte_of_char (hex_char n))"
proof -
  note c = of_hex_char [OF assms]
  show "hex_value (hex_char n) = Some n" using assms by (auto simp: hex_value_def is_ascii_digit_def c Let_def)
  have "(of_char (hex_char n) :: nat) \<noteq> of_char (CHR ''+'')" using assms c by auto
  then show "hex_char n \<noteq> CHR ''+''" by metis
  show "\<not> utf8_tail (byte_of_char (hex_char n))" using assms by (auto simp: utf8_tail_def byte_of_char_def c unat_of_nat)
qed

lemma nibbles: "unat b div 16 < 16" "unat b mod 16 < 16" for b :: byte
  using unat_byte_less [of b] by simp_all

lemma decode_hex_encode: "decode_hex (hex_encode bs) = Inr bs"
proof -
  have even: "2 dvd length (hex_encode bs)" by (induction bs) (simp_all add: hex_encode_def)
  have "decode_pairs (hex_encode bs) = Inr bs"
  proof (induction bs)
    case (Cons b bs)
    have cons: "hex_encode (b # bs) = hex_char (unat b div 16) # hex_char (unat b mod 16) # hex_encode bs"
      by (simp add: hex_encode_def)
    have bnd: "hex_encode bs \<noteq> [] \<longrightarrow> \<not> utf8_tail (byte_of_char (hd (hex_encode bs)))"
      by (cases bs) (simp_all add: hex_encode_def hex_chars nibbles)
    have "parse_hex [hex_char (unat b div 16), hex_char (unat b mod 16)] = Inr (unat b div 16 * 16 + unat b mod 16)"
      using nibbles [of b] by (simp add: parse_hex_def hex_chars)
    then show ?case using Cons bnd by (auto simp: cons)
  qed (simp add: hex_encode_def)
  then show ?thesis using even by (simp add: decode_hex_def)
qed

text \<open>A text with a two-byte character at an odd position is no error but a panic.\<close>

lemma decode_hex_panics: "decode_hex [CHR ''a'', CHR 0xC3, CHR 0xA9, CHR ''b''] = Inl Panic"
  by (simp add: decode_hex_def utf8_tail_def byte_of_char_def)

text \<open>The text of a timestamp with six fraction digits.\<close>

definition time_text :: "nat \<Rightarrow> nat \<Rightarrow> nat \<Rightarrow> nat \<Rightarrow> string" where
  "time_text h mi s us = pad_zero 2 (show_nat h) @ '':'' @ pad_zero 2 (show_nat mi) @ '':''
    @ pad_zero 2 (show_nat s) @ ''.'' @ pad_zero 6 (show_nat us)"

definition timestamp_text :: "date \<Rightarrow> nat \<Rightarrow> nat \<Rightarrow> nat \<Rightarrow> nat \<Rightarrow> string" where
  "timestamp_text t h mi s us = iso_date t @ '' '' @ time_text h mi s us"

lemma fractional_seconds_micros:
  assumes "us < 1000000"
  shows "fractional_seconds_to_micros (pad_zero 6 (show_nat us)) = Inr (int us)"
proof -
  have "length (show_nat us) \<le> 6" using assms by (intro length_show_nat) simp_all
  then have "length (pad_zero 6 (show_nat us)) = 6" by (rule length_pad_zero)
  then show ?thesis using assms
    by (simp add: fractional_seconds_to_micros_def fractional_seconds_to_units_def parse_signed_pad)
qed

lemma parse_time_text:
  assumes "h \<le> 255" "mi \<le> 255" "s \<le> 255" "us < 1000000"
  shows "parse_time_of_day_to_micros ovf (time_text h mi s us) =
    Inr (int h * 3600000000 + int mi * 60000000 + int s * 1000000 + int us)"
proof -
  let ?sec = "pad_zero 2 (show_nat s) @ ''.'' @ pad_zero 6 (show_nat us)"
  have sec: "parse_seconds_field_to_micros ovf ?sec = Inr (int s * 1000000 + int us)"
  proof -
    have "split_on (CHR ''.'') ?sec = [pad_zero 2 (show_nat s), pad_zero 6 (show_nat us)]" by (simp add: text_simps)
    then show ?thesis using assms
      by (simp add: parse_seconds_field_to_micros_def parse_signed_pad parse_or_def fractional_seconds_micros
          i_arith_in in_signed_def)
  qed
  have "split_on (CHR '':'') (time_text h mi s us) = [pad_zero 2 (show_nat h), pad_zero 2 (show_nat mi), ?sec]"
    by (simp add: time_text_def text_simps)
  then show ?thesis using assms
    by (simp add: parse_time_of_day_to_micros_def parse_signed_pad parse_or_def sec [simplified] i_arith_in in_signed_def)
qed

lemma parse_timestamp_text_micros:
  assumes "exasol_date t" "h \<le> 255" "mi \<le> 255" "s \<le> 255" "n < 1000000000"
  shows "parse_timestamp_to_micros ovf (timestamp_text t h mi s (n div 1000)) = Inr (micros_of t h mi s n)"
proof -
  obtain y m d where t: "t = (y, m, d)" by (cases t)
  note b = exasol_date_bounds [OF assms(1) [unfolded t]]
  have days: "parse_date_to_days ovf (iso_date t) = Inr (days_from_civil t)"
    using assms(1) by (simp add: t exasol_date_def parse_iso_date)
  have us: "n div 1000 < 1000000" using assms(5) by linarith
  have "CHR '' '' \<notin> set (iso_date t)" "CHR '' '' \<notin> set (time_text h mi s (n div 1000))"
    by (simp_all add: t iso_date_def time_text_def)
  then have "split_on (CHR '' '') (timestamp_text t h mi s (n div 1000)) = [iso_date t, time_text h mi s (n div 1000)]"
    by (simp add: timestamp_text_def text_simps)
  then show ?thesis using b assms us
    by (simp add: parse_timestamp_to_micros_def days [unfolded t] parse_time_text t i_arith_in in_signed_def micros_of_def Let_def)
qed

text \<open>The texts of intervals, read by their meaning: an optional sign for the whole value, and fields that may be padded.\<close>

definition sign_text :: "bool \<Rightarrow> string \<Rightarrow> bool" where
  "sign_text neg sg \<longleftrightarrow> (if neg then sg = ''-'' else sg = [] \<or> sg = ''+'')"

definition months_text :: "string \<Rightarrow> IntervalMonthDayNano \<Rightarrow> bool" where
  "months_text str i \<longleftrightarrow> (\<exists>neg sg w y m. sign_text neg sg \<and> m < 12 \<and> 12 * y + m < 2 ^ 31
    \<and> str = sg @ pad_zero w (show_nat y) @ ''-'' @ pad_zero 2 (show_nat m)
    \<and> i = interval_new ((if neg then -1 else 1) * int (12 * y + m)) 0 0)"

definition fraction_text :: "nat \<Rightarrow> nat \<Rightarrow> string" where
  "fraction_text k f = (if k = 0 then [] else ''.'' @ pad_zero k (show_nat f))"

definition clock_text :: "nat \<Rightarrow> nat \<Rightarrow> nat \<Rightarrow> nat \<Rightarrow> nat \<Rightarrow> string" where
  "clock_text h mi s k f = pad_zero 2 (show_nat h) @ '':'' @ pad_zero 2 (show_nat mi) @ '':''
    @ pad_zero 2 (show_nat s) @ fraction_text k f"

definition days_text :: "string \<Rightarrow> IntervalMonthDayNano \<Rightarrow> bool" where
  "days_text str i \<longleftrightarrow> (\<exists>neg sg w d h mi s k f. sign_text neg sg \<and> d \<le> 999999999 \<and> h < 24 \<and> mi < 60 \<and> s < 60
    \<and> k \<le> 9 \<and> f < 10 ^ k \<and> str = sg @ pad_zero w (show_nat d) @ '' '' @ clock_text h mi s k f
    \<and> i = interval_new 0 ((if neg then -1 else 1) * int d)
        ((if neg then -1 else 1) * int (((h * 60 + mi) * 60 + s) * 1000000000 + f * 10 ^ (9 - k))))"

lemma padded_hd: obtains c r where "pad_zero w (show_nat n) = c # r" "c \<noteq> CHR ''-''" "c \<noteq> CHR ''+''"
proof -
  obtain c r where c: "pad_zero w (show_nat n) = c # r" by (cases "pad_zero w (show_nat n)") auto
  have "list_all is_ascii_digit (pad_zero w (show_nat n))" by simp
  from that [OF c] digits_hd_no_sign [OF this c] show thesis by blast
qed

lemma signed_text_body:
  assumes "sign_text neg sg" "body = pad_zero w (show_nat n) @ rest"
  shows "(case sg @ body of
        c # r \<Rightarrow> if c = CHR ''-'' then (True, r) else if c = CHR ''+'' then (False, r) else (False, sg @ body)
      | [] \<Rightarrow> (False, sg @ body)) = (neg, body)"
proof -
  obtain c r where "pad_zero w (show_nat n) = c # r" "c \<noteq> CHR ''-''" "c \<noteq> CHR ''+''" by (rule padded_hd)
  then show ?thesis using assms by (auto simp: sign_text_def split: if_splits)
qed

lemma parse_months_text:
  assumes "months_text str i"
  shows "parse_interval ovf str = Inr i"
proof -
  obtain neg sg w y m where sg: "sign_text neg sg" and m: "m < 12" "12 * y + m < 2 ^ 31"
    and str: "str = sg @ pad_zero w (show_nat y) @ ''-'' @ pad_zero 2 (show_nat m)"
    and i: "i = interval_new ((if neg then -1 else 1) * int (12 * y + m)) 0 0"
    using assms unfolding months_text_def by blast
  define body where "body = pad_zero w (show_nat y) @ ''-'' @ pad_zero 2 (show_nat m)"
  have "split_on (CHR ''-'') body = [pad_zero w (show_nat y), pad_zero 2 (show_nat m)]"
    by (simp add: body_def text_simps)
  then have months: "parse_interval_months body str = Inr (int (12 * y + m))"
    using m by (simp add: parse_interval_months_def parse_signed_pad parse_or_def checked_def in_signed_def)
  have dash: "CHR ''-'' \<in> set body" by (simp add: body_def)
  have t: "str = sg @ body" by (simp add: str body_def)
  have c: "(case str of
        c # r \<Rightarrow> if c = CHR ''-'' then (True, r) else if c = CHR ''+'' then (False, r) else (False, str)
      | [] \<Rightarrow> (False, str)) = (neg, body)"
    unfolding t by (rule signed_text_body [OF sg body_def])
  have b: "int (12 * y + m) < 2 ^ 31" using m(2) by simp
  show ?thesis
    unfolding parse_interval_def c Let_def
    using dash months b by (simp add: i i_arith_def in_signed_def parse_or_def checked_def)
qed

lemma fraction_below:
  fixes f :: nat
  assumes "f < 10 ^ k" "k \<le> 9"
  shows "f * 10 ^ (9 - k) < 1000000000"
proof -
  have "f * 10 ^ (9 - k) < 10 ^ k * 10 ^ (9 - k)" using assms(1) by simp
  also have "\<dots> = 10 ^ 9" using assms(2) by (simp flip: power_add)
  finally show ?thesis by simp
qed

lemma fractional_nanos:
  assumes "f < 10 ^ k" "0 < k" "k \<le> 9"
  shows "fractional_seconds_to_nanos (pad_zero k (show_nat f)) = Inr (int (f * 10 ^ (9 - k)))"
proof -
  have len: "length (pad_zero k (show_nat f)) = k" using assms by (intro length_pad_zero length_show_nat)
  define g where "g = int (f * 10 ^ (9 - k))"
  have g: "int f * 10 ^ (9 - k) = g" "0 \<le> g" "g < 1000000000"
    using fraction_below [OF assms(1,3)] by (simp_all add: g_def del: of_nat_mult) simp_all
  have "f < 10 ^ 9" using assms(1) power_increasing [OF assms(3), of "10 :: nat"] by linarith
  then show ?thesis using g assms(3) unfolding g_def [symmetric]
    by (simp add: fractional_seconds_to_nanos_def fractional_seconds_to_units_def len parse_signed_pad)
qed

lemma parse_clock_text:
  assumes "h < 24" "mi < 60" "s < 60" "f < 10 ^ k" "k \<le> 9"
  shows "parse_interval_time_to_nanos (clock_text h mi s k f)
    = Inr (int (((h * 60 + mi) * 60 + s) * 1000000000 + f * 10 ^ (9 - k)))"
proof -
  let ?sec = "pad_zero 2 (show_nat s) @ fraction_text k f"
  define g where "g = f * 10 ^ (9 - k)"
  have g: "g < 1000000000" unfolding g_def by (rule fraction_below [OF assms(4,5)])
  have sec: "parse_interval_seconds_to_nanos ?sec = Inr (int (s * 1000000000 + g))"
  proof (cases "k = 0")
    case True
    then show ?thesis using assms
      by (simp add: parse_interval_seconds_to_nanos_def fraction_text_def text_simps parse_signed_pad parse_or_def
          checked_def in_signed_def g_def)
  next
    case False
    have "split_on (CHR ''.'') ?sec = [pad_zero 2 (show_nat s), pad_zero k (show_nat f)]"
      using False by (simp add: fraction_text_def text_simps)
    moreover have "fractional_seconds_to_nanos (pad_zero k (show_nat f)) = Inr (int g)"
      using fractional_nanos [OF assms(4) _ assms(5)] False by (simp add: g_def)
    ultimately show ?thesis using assms g
      by (simp add: parse_interval_seconds_to_nanos_def parse_signed_pad parse_or_def checked_def in_signed_def)
  qed
  have "CHR '':'' \<notin> set ?sec" by (simp add: fraction_text_def)
  then have "split_on (CHR '':'') (clock_text h mi s k f) = [pad_zero 2 (show_nat h), pad_zero 2 (show_nat mi), ?sec]"
    by (simp add: clock_text_def text_simps)
  then show ?thesis using assms g sec unfolding g_def [symmetric]
    by (simp add: parse_interval_time_to_nanos_def parse_signed_pad parse_or_def checked_def in_signed_def)
qed

lemma parse_days_text:
  assumes "days_text str i"
  shows "parse_interval ovf str = Inr i"
proof -
  obtain neg sg w d h mi s k f where sg: "sign_text neg sg" and d: "d \<le> 999999999"
    and b: "h < 24" "mi < 60" "s < 60" "f < 10 ^ k" "k \<le> 9"
    and str: "str = sg @ pad_zero w (show_nat d) @ '' '' @ clock_text h mi s k f"
    and i: "i = interval_new 0 ((if neg then -1 else 1) * int d)
        ((if neg then -1 else 1) * int (((h * 60 + mi) * 60 + s) * 1000000000 + f * 10 ^ (9 - k)))"
    using assms unfolding days_text_def by blast
  define body where "body = pad_zero w (show_nat d) @ '' '' @ clock_text h mi s k f"
  define N where "N = ((h * 60 + mi) * 60 + s) * 1000000000 + f * 10 ^ (9 - k)"
  have N: "N < 100000 * 1000000000" using b fraction_below [OF b(4,5)] by (simp add: N_def)
  have nospace: "CHR '' '' \<notin> set (clock_text h mi s k f)" by (simp add: clock_text_def fraction_text_def)
  then have "split_on (CHR '' '') body = [pad_zero w (show_nat d), clock_text h mi s k f]" by (simp add: body_def text_simps)
  then have parts: "parse_interval_days_and_nanos body = Inr (int d, int N)"
    using d parse_clock_text [OF b] by (simp add: parse_interval_days_and_nanos_def parse_signed_pad parse_or_def N_def)
  have nodash: "CHR ''-'' \<notin> set body" by (simp add: body_def clock_text_def fraction_text_def)
  have t: "str = sg @ body" by (simp add: str body_def)
  have c: "(case str of
        c # r \<Rightarrow> if c = CHR ''-'' then (True, r) else if c = CHR ''+'' then (False, r) else (False, str)
      | [] \<Rightarrow> (False, str)) = (neg, body)"
    unfolding t by (rule signed_text_body [OF sg body_def])
  show ?thesis
    unfolding parse_interval_def c Let_def
    unfolding i N_def [symmetric] using nodash parts d N by (simp add: i_arith_def in_signed_def)
qed

subsection \<open>The contract of a builder\<close>

text \<open>A builder reads every JSON value that the server may write for a value.\<close>

locale json_reader =
  fixes reader :: "nat \<Rightarrow> json \<Rightarrow> (ColumnConversionError, cell) result"
    and writes :: "wire_value \<Rightarrow> json \<Rightarrow> bool" and shown :: "wire_value \<Rightarrow> cell" and documented :: bool
  assumes reads: "documented \<Longrightarrow> writes v j \<Longrightarrow> reader row j = Inr (shown v)"
    and not_null: "writes v j \<Longrightarrow> \<not> json_is_null j"
begin

lemma rows_read:
  "documented \<Longrightarrow> list_all2 (\<lambda>v j. case v of None \<Rightarrow> j = JNull | Some v \<Rightarrow> writes v j) vs js \<Longrightarrow>
    rmap_rows k (\<lambda>row v. if json_is_null v then Inr None else rbind (reader row v) (\<lambda>c. Inr (Some c))) js =
      Inr (map (map_option shown) vs)"
proof (induction vs arbitrary: k js)
  case (Cons v vs)
  then obtain j js' where js: "js = j # js'" "case v of None \<Rightarrow> j = JNull | Some v \<Rightarrow> writes v j"
    and tl: "list_all2 (\<lambda>v j. case v of None \<Rightarrow> j = JNull | Some v \<Rightarrow> writes v j) vs js'" by (auto simp: list_all2_Cons1)
  then show ?case using Cons.IH [OF Cons.prems(1) tl] Cons.prems(1)
    by (cases v) (auto simp: reads dest: not_null)
qed simp

lemma column_read:
  "documented \<Longrightarrow> list_all2 (\<lambda>v j. case v of None \<Rightarrow> j = JNull | Some v \<Rightarrow> writes v j) vs js \<Longrightarrow>
    append_rows reader js = Inr (map (map_option shown) vs)"
  by (simp add: append_rows_def rows_read)

end

subsection \<open>What the server writes for a value\<close>

definition unscaled_value :: "wire_value \<Rightarrow> int option" where
  "unscaled_value v = (case v of
      WInt32 w \<Rightarrow> Some (sint w) | WInt64 w \<Rightarrow> Some (sint w) | WInt128 w \<Rightarrow> Some (sint w) | _ \<Rightarrow> None)"

lemma unscaled_value_cell: "unscaled_value v = Some i \<Longrightarrow> cell_of v = CDecimal i"
  by (auto simp: unscaled_value_def split: wire_value.splits)

text \<open>
  A decimal is written as a text, as an integer, or as a float that its scale takes to the
  unscaled value.
\<close>

definition decimal_writes :: "converter_env \<Rightarrow> nat \<Rightarrow> int \<Rightarrow> json \<Rightarrow> bool" where
  "decimal_writes E s i j \<longleftrightarrow> j = JString (show_decimal i s) \<or> (\<exists>m. json_as_i64 j = Some m \<and> i = m * 10 ^ s)
    \<or> (\<exists>w. j = JFloat w \<and> cv_scaled_text E w (int s) = show_int i)"

text \<open>
  The JSON values that the server writes for a value, in a session whose time zone is ahead of
  UTC by \<open>zone m\<close> microseconds at the instant \<open>m\<close>: a TIMESTAMP WITH LOCAL TIME ZONE is
  written as the date and time of the session. Geometries and hash values are not among them:
  the server writes them as texts and the builder decodes the texts.
\<close>

fun json_writes :: "converter_env \<Rightarrow> (int \<Rightarrow> int) \<Rightarrow> ExasolType \<Rightarrow> wire_value \<Rightarrow> json \<Rightarrow> bool" where
  "json_writes E zone EBoolean v j \<longleftrightarrow> (\<exists>b. v = WBool b \<and> j = JBool b)"
| "json_writes E zone (EChar _) v j \<longleftrightarrow> (\<exists>s. v = WText s \<and> length s < 2 ^ 31 \<and> j = JString s)"
| "json_writes E zone (EVarchar _) v j \<longleftrightarrow> (\<exists>s. v = WText s \<and> length s < 2 ^ 31 \<and> j = JString s)"
| "json_writes E zone (EDecimal p s) v j \<longleftrightarrow> 0 \<le> s \<and> nat s \<le> p \<and> 0 < p \<and> p \<le> 38
    \<and> (\<exists>i. unscaled_value v = Some i \<and> \<bar>i\<bar> < 10 ^ p \<and> decimal_writes E (nat s) i j)"
| "json_writes E zone EDouble v j \<longleftrightarrow> (\<exists>w. (v = WDouble w \<or> (\<exists>r. v = WReal r \<and> w = f32_to_f64 r)) \<and> j = JFloat w)"
| "json_writes E zone EDate v j \<longleftrightarrow> (\<exists>d. v = WDate d \<and> exasol_date d \<and> j = JString (iso_date d))"
| "json_writes E zone (ETimestamp tz) v j \<longleftrightarrow> (\<exists>d h mi s n d' h' mi' s' n'. v = WTimestamp d h mi s n
    \<and> exasol_date d' \<and> h' < 24 \<and> mi' < 60 \<and> s' < 60 \<and> n' < 1000000000
    \<and> micros_of d' h' mi' s' n' = micros_of d h mi s n + (if tz then zone (micros_of d h mi s n) else 0)
    \<and> j = JString (timestamp_text d' h' mi' s' (n' div 1000)))"
| "json_writes E zone EIntervalYearToMonth v j \<longleftrightarrow> (\<exists>s i. v = WInterval s i \<and> months_text s i \<and> j = JString s)"
| "json_writes E zone (EIntervalDayToSecond _) v j \<longleftrightarrow> (\<exists>s i. v = WInterval s i \<and> days_text s i \<and> j = JString s)"
| "json_writes E zone (EGeometry _) v j \<longleftrightarrow> False"
| "json_writes E zone (EHashtype _) v j \<longleftrightarrow> False"

text \<open>The cell that a value becomes: the instant, or for a local time zone the date and time of the session.\<close>

definition session_cell :: "(int \<Rightarrow> int) \<Rightarrow> ExasolType \<Rightarrow> wire_value \<Rightarrow> cell" where
  "session_cell zone t v = (case (t, cell_of v) of
      (ETimestamp True, CTimestamp m) \<Rightarrow> CTimestamp (m + zone m)
    | (_, c) \<Rightarrow> c)"

lemma session_cell_utc: "(\<forall>m. zone m = 0) \<or> t \<noteq> ETimestamp True \<Longrightarrow> session_cell zone t v = cell_of v"
  by (cases t; cases "cell_of v") (auto simp: session_cell_def split: bool.splits)

text \<open>
  The documented behaviour of the parameters: \<open>as_f64\<close> of a float and of what is no number,
  the decimal types of Arrow, memory for every request, and \<open>RecordBatch::try_new\<close> on
  nullable columns of one length and of the types of their fields.
\<close>

definition as_f64_documented :: "converter_env \<Rightarrow> bool" where
  "as_f64_documented E \<longleftrightarrow> (\<forall>w. re_as_f64 E (JFloat w) = Some w) \<and> (\<forall>s. re_as_f64 E (JString s) = None)
    \<and> re_as_f64 E JNull = None"

definition converter_documented :: "converter_env \<Rightarrow> bool" where
  "converter_documented E \<longleftrightarrow> as_f64_documented E \<and>
    (\<forall>p s. 0 < p \<longrightarrow> p \<le> 38 \<longrightarrow> 0 \<le> s \<longrightarrow> nat s \<le> p \<longrightarrow> re_decimal_type E p s = Inr ()) \<and>
    (\<forall>n. cv_reserve E n) \<and>
    (\<forall>n fcs. fcs \<noteq> [] \<longrightarrow> list_all (column_ok n) fcs \<longrightarrow>
      re_try_new E None (map fst fcs) (map snd fcs) =
        Inr \<lparr>rb_fields = map fst fcs, rb_columns = map snd fcs, rb_num_rows = n\<rparr>)"

lemma converter_documentedD:
  assumes "converter_documented E"
  shows "re_as_f64 E (JFloat w) = Some w" "re_as_f64 E (JString s) = None" "cv_reserve E n"
    "0 < p \<Longrightarrow> p \<le> 38 \<Longrightarrow> 0 \<le> sc \<Longrightarrow> nat sc \<le> p \<Longrightarrow> re_decimal_type E p sc = Inr ()"
    "fcs \<noteq> [] \<Longrightarrow> list_all (column_ok n) fcs \<Longrightarrow> re_try_new E None (map fst fcs) (map snd fcs) =
        Inr \<lparr>rb_fields = map fst fcs, rb_columns = map snd fcs, rb_num_rows = n\<rparr>"
  using assms unfolding converter_documented_def as_f64_documented_def by blast+

text \<open>The step of the builder of a type.\<close>

definition typed_reader :: "converter_env \<Rightarrow> ExasolType \<Rightarrow> nat \<Rightarrow> json \<Rightarrow> (ColumnConversionError, cell) result" where
  "typed_reader E t = (let ovf = re_overflow_checks E in case t of
      EBoolean \<Rightarrow> append_boolean E
    | EChar _ \<Rightarrow> append_string E
    | EVarchar _ \<Rightarrow> append_string E
    | EDecimal p s \<Rightarrow> (\<lambda>row v. rbind (json_decimal_to_i128 E p s row v) (\<lambda>i. Inr (CDecimal i)))
    | EDouble \<Rightarrow> append_double E
    | EDate \<Rightarrow> append_parsed E ''date string'' (\<lambda>s. rbind (parse_date_to_days ovf s) (\<lambda>d. Inr (CDate d)))
    | ETimestamp _ \<Rightarrow> append_parsed E ''timestamp string'' (\<lambda>s. rbind (parse_timestamp_to_micros ovf s) (\<lambda>m. Inr (CTimestamp m)))
    | EIntervalYearToMonth \<Rightarrow> append_parsed E ''interval string'' (\<lambda>s. rbind (parse_interval ovf s) (\<lambda>i. Inr (CInterval i)))
    | EIntervalDayToSecond _ \<Rightarrow> append_parsed E ''interval string'' (\<lambda>s. rbind (parse_interval ovf s) (\<lambda>i. Inr (CInterval i)))
    | EGeometry _ \<Rightarrow> append_parsed E ''hex string''
        (\<lambda>s. rbind (map_err (\<lambda>_. ''Invalid hex string: '' @ s) (decode_hex s)) (\<lambda>b. Inr (CBinary b)))
    | EHashtype _ \<Rightarrow> append_parsed E ''hex string''
        (\<lambda>s. rbind (map_err (\<lambda>_. ''Invalid hex string: '' @ s) (decode_hex s)) (\<lambda>b. Inr (CBinary b))))"

lemmas builder_defs = build_typed_array_def typed_reader_def build_json_boolean_array_def build_json_string_array_def
  build_json_decimal_array_def build_json_double_array_def build_json_date_array_def build_json_timestamp_array_def
  build_json_interval_array_def build_json_binary_array_def Let_def

lemma build_typed_array_rows: "build_typed_array E t vs = Inr c \<Longrightarrow> append_rows (typed_reader E t) vs = Inr c"
  by (cases t) (auto simp: builder_defs rbind_Inr_iff split: sum.splits)

lemma in_range_nonneg: "0 \<le> x \<Longrightarrow> x \<le> 10 ^ 38 \<Longrightarrow> in_signed 128 x" "0 \<le> x \<Longrightarrow> x \<le> 10 ^ 18 \<Longrightarrow> in_signed 64 x"
  by (simp_all add: in_signed_def)

lemma decimal_read:
  assumes doc: "converter_documented E" and w: "json_writes E zone (EDecimal p s) v j"
  shows "typed_reader E (EDecimal p s) row j = Inr (cell_of v)"
proof -
  obtain i where i: "unscaled_value v = Some i" "\<bar>i\<bar> < 10 ^ p" and s: "0 \<le> s" "nat s \<le> p" "0 < p" "p \<le> 38"
    and j: "decimal_writes E (nat s) i j" using w by auto
  have b: "\<bar>i\<bar> < 10 ^ 38" using i(2) power10_le [OF s(4)] by linarith
  have k: "nat (s mod 2 ^ 32) = nat s" "nat s \<le> 38" using s by simp_all
  note docs = converter_documentedD [OF doc]
  have "json_decimal_to_i128 E p s row j = Inr i"
  proof -
    consider (str) "j = JString (show_decimal i (nat s))" | (int) m where "json_as_i64 j = Some m" "i = m * 10 ^ nat s"
      | (float) w where "j = JFloat w" "cv_scaled_text E w s = show_int i"
      using j s(1) by (auto simp: decimal_writes_def)
    then show ?thesis
    proof cases
      case str
      have "parse_decimal_to_i128 o' (show_decimal i (nat s) @ []) (int (nat s)) = Inr i" for o'
        using b k(2) by (intro parse_show_decimal) simp_all
      then show ?thesis using s decimal_text_precise [OF i(2) s(2,3), of row]
        by (simp add: json_decimal_to_i128_def str docs)
    next
      case int
      have "in_signed 128 (10 ^ nat s)" using power10_le [OF k(2)] by (intro in_range_nonneg) simp_all
      moreover have "in_signed 128 i" using b by (auto simp: in_signed_def)
      ultimately show ?thesis using int k(1) by (simp add: json_decimal_to_i128_def arith_def)
    next
      case float
      have "parse_i128 (show_int i) = Some i" using b by (intro parse_signed_show_int) simp_all
      then show ?thesis using float by (simp add: json_decimal_to_i128_def docs)
    qed
  qed
  then show ?thesis by (simp add: typed_reader_def unscaled_value_cell [OF i(1)])
qed

interpretation json_text: json_reader "typed_reader E t" "json_writes E zone t" "session_cell zone t"
    "converter_documented E" for E t zone
proof
  fix v j row
  assume doc: "converter_documented E" and w: "json_writes E zone t v j"
  note docs = converter_documentedD [OF doc]
  show "typed_reader E t row j = Inr (session_cell zone t v)"
  proof (cases t)
    case (EDecimal p s)
    then show ?thesis using decimal_read [OF doc] w by (simp add: session_cell_def)
  next
    case (ETimestamp tz)
    then obtain d h mi s n d' h' mi' s' n' where v: "v = WTimestamp d h mi s n"
      and b: "exasol_date d'" "h' < 24" "mi' < 60" "s' < 60" "n' < 1000000000"
      and m: "micros_of d' h' mi' s' n' = micros_of d h mi s n + (if tz then zone (micros_of d h mi s n) else 0)"
      and j: "j = JString (timestamp_text d' h' mi' s' (n' div 1000))"
      using w unfolding ETimestamp json_writes.simps by blast
    have "parse_timestamp_to_micros o' (timestamp_text d' h' mi' s' (n' div 1000)) = Inr (micros_of d' h' mi' s' n')" for o'
      using b by (intro parse_timestamp_text_micros) simp_all
    then show ?thesis using m by (cases tz) (simp_all add: ETimestamp v j typed_reader_def append_parsed_def session_cell_def)
  qed (use w docs in \<open>auto simp: typed_reader_def append_boolean_def append_string_def append_double_def
      append_parsed_def parse_iso_date exasol_date_def parse_months_text parse_days_text session_cell_def\<close>)
next
  fix v j
  assume "json_writes E zone t v j"
  then show "\<not> json_is_null j" by (cases t; cases j) (auto simp: decimal_writes_def)
qed

subsection \<open>Columns and batches\<close>

lemma sum_list_bound: "list_all (\<lambda>x. x \<le> b) xs \<Longrightarrow> sum_list xs \<le> b * length xs" for b :: nat
  by (induction xs) auto

lemma mean_bound: "list_all (\<lambda>x. x \<le> b) xs \<Longrightarrow> length xs \<le> n \<Longrightarrow> sum_list xs div n \<le> b" for b :: nat
proof -
  assume "list_all (\<lambda>x. x \<le> b) xs" "length xs \<le> n"
  then have "sum_list xs \<le> b * n" using sum_list_bound [of b xs] mult_le_mono2 [of "length xs" n b] by linarith
  then have "sum_list xs div n \<le> b * n div n" by (rule div_le_mono)
  then show "sum_list xs div n \<le> b" by (cases "n = 0") simp_all
qed

text \<open>The capacity estimates of columns below the limits of the wire format stay in range.\<close>

definition texts_below :: "nat \<Rightarrow> json list \<Rightarrow> bool" where
  "texts_below b vs \<longleftrightarrow> list_all (\<lambda>v. case json_as_str v of Some s \<Rightarrow> length s \<le> b | None \<Rightarrow> True) vs"

lemma sample_texts:
  assumes "texts_below b vs"
  shows "list_all (\<lambda>s. length s \<le> b) (List.map_filter json_as_str (take k vs))"
    and "length (List.map_filter json_as_str (take k vs)) \<le> min (length vs) k"
  using assms
  by (auto simp: texts_below_def list_all_iff map_filter_def dest!: in_set_takeD split: option.splits
      intro: order_trans [OF length_filter_le])

lemma capacities_in_range:
  assumes "texts_below (2 ^ 32) vs" "length vs < 2 ^ 31"
  shows "\<exists>m. estimate_string_capacity E vs = (Inr m :: (ColumnConversionError, nat) result)"
    and "\<exists>m. estimate_binary_capacity E vs = (Inr m :: (ColumnConversionError, nat) result)"
proof -
  note t = sample_texts [OF assms(1), of 10]
  have prod: "x * length vs < 2 ^ 64" if "x \<le> 2 ^ 32 + 8" for x
  proof -
    have "x * length vs \<le> (2 ^ 32 + 8) * 2 ^ 31" using that assms(2) by (intro mult_le_mono) simp_all
    also have "\<dots> < (2 :: nat) ^ 64" by simp
    finally show ?thesis .
  qed
  let ?s = "List.map_filter json_as_str (take 10 vs)"
  have "sum_list (map length ?s) div length ?s \<le> 2 ^ 32"
    using t(1) by (intro mean_bound) (simp_all add: list_all_iff)
  then show "\<exists>m. estimate_string_capacity E vs = (Inr m :: (ColumnConversionError, nat) result)"
    using prod [of 32] prod [of "sum_list (map length ?s) div length ?s + 8"]
    by (simp add: estimate_string_capacity_def usize_arith_def Let_def)
  have "sum_list (map (\<lambda>s. length s div 2) ?s) div min (length vs) 10 \<le> 2 ^ 32"
    using t by (intro mean_bound) (auto simp: list_all_iff intro: order_trans [OF div_le_dividend])
  then show "\<exists>m. estimate_binary_capacity E vs = (Inr m :: (ColumnConversionError, nat) result)"
    using prod [of 32] prod [of "max 1 (sum_list (map (\<lambda>s. length s div 2) ?s) div min (length vs) 10)"]
    by (simp add: estimate_binary_capacity_def usize_arith_def Let_def)
qed

definition type_ok :: "ExasolType \<Rightarrow> bool" where
  "type_ok t \<longleftrightarrow> (case t of EDecimal p s \<Rightarrow> 0 \<le> s \<and> nat s \<le> p \<and> 0 < p \<and> p \<le> 38 | _ \<Rightarrow> True)"

text \<open>The types whose builders estimate a capacity.\<close>

definition sized_type :: "ExasolType \<Rightarrow> bool" where
  "sized_type t \<longleftrightarrow> (case t of EChar _ \<Rightarrow> True | EVarchar _ \<Rightarrow> True | EGeometry _ \<Rightarrow> True | EHashtype _ \<Rightarrow> True | _ \<Rightarrow> False)"

lemma build_typed_array_eq:
  assumes "converter_documented E" "type_ok t" "sized_type t \<Longrightarrow> texts_below (2 ^ 32) vs" "length vs < 2 ^ 31"
  shows "build_typed_array E t vs = append_rows (typed_reader E t) vs"
proof (cases "sized_type t")
  case True
  with capacities_in_range [OF assms(3,4), of E] show ?thesis
    by (cases t) (auto simp: builder_defs with_capacity_def sized_type_def converter_documentedD [OF assms(1)])
next
  case False
  then show ?thesis using assms(2)
    by (cases t) (auto simp: builder_defs with_capacity_def type_ok_def sized_type_def converter_documentedD [OF assms(1)])
qed

lemma length_hex_encode: "length (hex_encode bs) = 2 * length bs"
  by (induction bs) (simp_all add: hex_encode_def)

lemma json_writes_text: "json_writes E zone t v j \<Longrightarrow> sized_type t \<Longrightarrow> json_as_str j = Some s \<Longrightarrow> length s \<le> 2 ^ 32"
  by (cases t) (auto simp: sized_type_def)

text \<open>A column as the server writes it: null for null, and for a value one of its JSON values.\<close>

definition column_writes :: "converter_env \<Rightarrow> (int \<Rightarrow> int) \<Rightarrow> ExasolType \<Rightarrow> wire_value option list \<Rightarrow> json list \<Rightarrow> bool" where
  "column_writes E zone t vs js \<longleftrightarrow> type_ok t
    \<and> list_all2 (\<lambda>v j. case v of None \<Rightarrow> j = JNull | Some v \<Rightarrow> json_writes E zone t v j) vs js"

lemma column_writes_texts:
  assumes "column_writes E zone t vs js" "sized_type t"
  shows "texts_below (2 ^ 32) js"
  unfolding texts_below_def list_all_iff
proof
  fix j
  assume "j \<in> set js"
  then obtain v where "case v of None \<Rightarrow> j = JNull | Some v \<Rightarrow> json_writes E zone t v j"
    using assms(1) unfolding column_writes_def list_all2_conv_all_nth in_set_conv_nth by metis
  then show "case json_as_str j of Some s \<Rightarrow> length s \<le> 2 ^ 32 | None \<Rightarrow> True"
    using json_writes_text [OF _ assms(2)] by (cases v) (auto split: option.split)
qed

lemma build_json_column:
  assumes "converter_documented E" "column_writes E zone t vs js" "length js < 2 ^ 31"
  shows "build_json_array E t js col name = Inr (map (map_option (session_cell zone t)) vs)"
proof -
  have "build_typed_array E t js = append_rows (typed_reader E t) js"
    using assms column_writes_texts [OF assms(2)] by (intro build_typed_array_eq) (simp_all add: column_writes_def)
  also have "\<dots> = Inr (map (map_option (session_cell zone t)) vs)"
    using assms(1,2) by (intro json_text.column_read) (simp_all add: column_writes_def)
  finally show ?thesis by (simp add: build_json_array_def)
qed

lemma session_cell_type:
  "json_writes E zone t v j \<Longrightarrow> cell_has_type (exasol_to_arrow t) (session_cell zone t v)"
  by (cases t) (auto simp: unscaled_value_def session_cell_def split: wire_value.splits bool.splits)

lemma ArrowConverter_new_parts:
  assumes "ArrowConverter_new E cols = Inr C"
  shows "length (ac_schema C) = length cols" "length (ac_column_types C) = length cols"
    and "map field_type (ac_schema C) = map exasol_to_arrow (ac_column_types C)"
    and "list_all field_nullable (ac_schema C)"
    and "list_all2 (\<lambda>col t. parse_exasol_type (ci_data_type col) = Inr t) cols (ac_column_types C)"
    and "map field_name (ac_schema C) = map ci_name cols"
proof -
  obtain ms where r: "rmap (\<lambda>col. rbind (parse_exasol_type (ci_data_type col)) (\<lambda>t. Inr (ci_name col, t))) cols = Inr ms"
    and C: "C = \<lparr>ac_schema = schema_build (re_type_json E)
        (map (\<lambda>(name, t). \<lparr>col_name = name, col_data_type = t, col_nullable = True\<rparr>) ms), ac_column_types = map snd ms\<rparr>"
    using assms by (auto simp: ArrowConverter_new_def rbind_Inr_iff)
  have ms: "list_all2 (\<lambda>col m. \<exists>t. parse_exasol_type (ci_data_type col) = Inr t \<and> m = (ci_name col, t)) cols ms"
    using r unfolding rmap_Inr_iff by (rule list_all2_mono) (auto simp: rbind_Inr_iff)
  show "length (ac_schema C) = length cols" "length (ac_column_types C) = length cols"
    using list_all2_lengthD [OF ms] by (simp_all add: C schema_build_def)
  show "map field_type (ac_schema C) = map exasol_to_arrow (ac_column_types C)" "list_all field_nullable (ac_schema C)"
    by (auto simp: C schema_build_def list_all_iff)
  show "list_all2 (\<lambda>col t. parse_exasol_type (ci_data_type col) = Inr t) cols (ac_column_types C)"
    using ms by (auto simp: C list_all2_map2 elim!: list_all2_mono)
  show "map field_name (ac_schema C) = map ci_name cols"
    using ms unfolding C by (induction rule: list_all2_induct) (auto simp: schema_build_def)
qed

text \<open>The rows of a table as the server writes them.\<close>

definition table_writes :: "converter_env \<Rightarrow> (int \<Rightarrow> int) \<Rightarrow> ExasolType list \<Rightarrow> wire_value option list list \<Rightarrow> json list list \<Rightarrow> bool" where
  "table_writes E zone ts vss rows \<longleftrightarrow> list_all (\<lambda>row. length row = length ts) rows \<and> length vss = length ts
    \<and> (\<forall>c < length ts. column_writes E zone (ts ! c) (vss ! c) (column_of rows c))"

lemma column_cells_ok:
  assumes "column_writes E zone t vs js" "field_nullable f" "field_type f = exasol_to_arrow t"
  shows "column_ok (length js) (f, map (map_option (session_cell zone t)) vs)"
proof -
  have "cell_has_type (exasol_to_arrow t) (session_cell zone t v)" if v: "Some v \<in> set vs" for v
  proof -
    obtain j where "json_writes E zone t v j"
      using assms(1) v unfolding column_writes_def list_all2_conv_all_nth in_set_conv_nth by fastforce
    then show ?thesis by (rule session_cell_type)
  qed
  then show ?thesis
    using assms list_all2_lengthD by (fastforce simp: column_ok_def column_writes_def dest!: sym [of "Some _"])
qed

lemma convert_json_rows:
  assumes new: "ArrowConverter_new E cols = Inr C" and doc: "converter_documented E"
    and ok: "table_writes E zone (ac_column_types C) vss rows"
    and n: "rows \<noteq> []" "length rows < 2 ^ 31" and ne: "vss \<noteq> []"
    and d: "rd_data d = PayloadJson rows"
  shows "convert_to_record_batch E C d = Inr \<lparr>rb_fields = map Field.truncate (ac_schema C),
    rb_columns = map2 (\<lambda>t. map (map_option (session_cell zone t))) (ac_column_types C) vss, rb_num_rows = length rows,
    rb_metadata = map field_metadata (ac_schema C)\<rparr>"
proof -
  let ?ts = "ac_column_types C" and ?n = "length rows" and ?fs = "map Field.truncate (ac_schema C)"
  let ?cells = "map2 (\<lambda>t. map (map_option (session_cell zone t))) ?ts vss"
  note parts = ArrowConverter_new_parts [OF new]
  have len: "length vss = length ?ts" "length ?fs = length ?ts" using ok parts(1,2) by (simp_all add: table_writes_def)
  have width: "check_row_width C rows = Inr ()"
    using n(1) ok by (cases rows) (simp_all add: check_row_width_def table_writes_def)
  have writes: "column_writes E zone (?ts ! c) (vss ! c) (column_of rows c)" if "c < length ?ts" for c
    using ok that by (simp add: table_writes_def)
  have col: "build_json_array E (?ts ! c) (column_of rows c) c name = Inr (?cells ! c)" if "c < length ?ts" for c name
    using that len build_json_column [OF doc writes [OF that]] n(2) by (simp add: column_of_def)
  have arrays: "rmap (\<lambda>(col_idx, exasol_type).
      if col_idx < length (map (column_of rows) [0..<length ?ts]) \<and> col_idx < length (ac_schema C)
      then build_json_array E exasol_type (map (column_of rows) [0..<length ?ts] ! col_idx) col_idx (field_name (ac_schema C ! col_idx))
      else Inl Panic) (enumerate 0 ?ts) = Inr ?cells"
    unfolding rmap_Inr_iff using len parts(1,2) col by (simp add: list_all2_conv_all_nth nth_enumerate_eq del: nth_zip)
  have "list_all (column_ok ?n) (zip ?fs ?cells)"
    unfolding list_all_length
  proof (intro allI impI)
    fix c
    assume "c < length (zip ?fs ?cells)"
    then have c: "c < length ?ts" "c < length vss" "c < length (ac_schema C)" using len by simp_all
    have "field_nullable (ac_schema C ! c)" using parts(4) c by (simp add: list_all_length)
    moreover have "field_type (ac_schema C ! c) = exasol_to_arrow (?ts ! c)"
      using arg_cong [OF parts(3), of "\<lambda>l. l ! c"] c by simp
    ultimately show "column_ok ?n (zip ?fs ?cells ! c)"
      using column_cells_ok [OF writes [OF c(1)]] c by (simp add: Field.truncate_def column_of_def)
  qed
  then have "re_try_new E None (map fst (zip ?fs ?cells)) (map snd (zip ?fs ?cells)) =
      Inr \<lparr>rb_fields = map fst (zip ?fs ?cells), rb_columns = map snd (zip ?fs ?cells), rb_num_rows = ?n\<rparr>"
    using ne len doc by (intro converter_documentedD(5)) (auto simp: zip_eq_Nil_iff)
  then have "re_try_new E None ?fs ?cells = Inr \<lparr>rb_fields = ?fs, rb_columns = ?cells, rb_num_rows = ?n\<rparr>"
    using len by simp
  then have "batch_try_new (result_env.truncate E) None ?fs (map field_metadata (ac_schema C)) ?cells =
      Inr \<lparr>rb_fields = ?fs, rb_columns = ?cells, rb_num_rows = ?n, rb_metadata = map field_metadata (ac_schema C)\<rparr>"
    by (simp add: batch_try_new_def with_metadata_def result_env.truncate_def)
  then show ?thesis
    by (simp add: convert_borrowed_json [OF d n(1)] width build_json_record_batch_def arrays [simplified])
qed

subsection \<open>The converter and the result sets\<close>

text \<open>What a builder reads, an extraction that turns what it cannot read into null reads as well.\<close>

locale strict_reader =
  fixes strict :: "nat \<Rightarrow> json \<Rightarrow> (ColumnConversionError, cell) result"
    and lenient :: "nat \<Rightarrow> json \<Rightarrow> (ColumnConversionError, cell option) result"
    and fine :: "json \<Rightarrow> bool" and documented :: bool
  assumes agrees: "documented \<Longrightarrow> fine v \<Longrightarrow> \<not> json_is_null v \<Longrightarrow> strict row v = Inr c \<Longrightarrow> lenient row v = Inr (Some c)"
    and nulls: "documented \<Longrightarrow> lenient row JNull = Inr None"
begin

lemma rows_agree:
  "documented \<Longrightarrow> list_all (\<lambda>v. json_is_null v \<or> fine v) vs \<Longrightarrow>
    rmap_rows k (\<lambda>row v. if json_is_null v then Inr None else rbind (strict row v) (\<lambda>c. Inr (Some c))) vs = Inr col \<Longrightarrow>
    rmap_rows k lenient vs = Inr col"
proof (induction vs arbitrary: k col)
  case (Cons v vs)
  then obtain x xs where "rmap_rows (k + 1) lenient vs = Inr xs" "col = x # xs"
    and x: "(if json_is_null v then Inr None else rbind (strict k v) (\<lambda>c. Inr (Some c))) = Inr x"
    by (auto simp: rbind_Inr_iff)
  moreover have "lenient k v = Inr x"
  proof (cases "json_is_null v")
    case True
    then have "v = JNull" by (cases v) simp_all
    then show ?thesis using x nulls Cons.prems(1) by simp
  next
    case False
    then show ?thesis using x Cons.prems(1,2) agrees [of v k] by (auto simp: rbind_Inr_iff)
  qed
  ultimately show ?case by simp
qed simp

lemma column_agrees:
  "documented \<Longrightarrow> list_all (\<lambda>v. json_is_null v \<or> fine v) vs \<Longrightarrow> append_rows strict vs = Inr col \<Longrightarrow>
    rmap_rows 0 lenient vs = Inr col"
  using rows_agree by (simp add: append_rows_def)

end

lemma parse_i128_bound:
  assumes "parse_i128 s = Some i"
  shows "\<bar>i\<bar> < 10 ^ length s"
proof -
  obtain r m where r: "parse_digits r = Some m" "length r \<le> length s" and i: "\<bar>i\<bar> = int m"
    using assms by (fastforce simp: parse_signed_def Let_def split: list.splits if_splits option.splits)
  have "m < 10 ^ length r"
    using r(1) digits_val_less [of r] by (auto simp: parse_digits_def split: if_splits)
  also have "\<dots> \<le> 10 ^ length s" using r(2) by simp
  finally have "int m < 10 ^ length s" by (metis of_nat_less_iff of_nat_numeral of_nat_power)
  then show ?thesis using i by simp
qed

lemma decimal_parsers_agree:
  assumes "parse_decimal_to_i128 ovf s scale = Inr i" "0 \<le> scale" "scale \<le> 38"
  shows "parse_string_to_decimal ovf s scale = Inr i"
proof -
  define k where "k = nat scale"
  define P where "P = parse_i128"
  have k: "scale = int k" "k \<le> 38" "nat (int k mod 2 ^ 32) = k" "nat (int k mod 2 ^ 64) = k"
    using assms(2,3) by (simp_all add: k_def)
  note strict = assms(1) [unfolded parse_decimal_to_i128_def k(1) k(3) k(4) P_def [symmetric]]
  have pow: "i_arith ovf 128 (10 ^ m) = Inr (10 ^ m)" "arith ovf 128 (10 ^ m) = (Inr (10 ^ m) :: (DecimalParseFailure, int) result)"
    if "m \<le> 38" for m
    using that pow10_arith [OF that, of ovf] by (auto simp: i_arith_def arith_def split: if_splits)
  obtain ip dp where sp: "split_on (CHR ''.'') s = [ip] \<and> dp = [] \<or> split_on (CHR ''.'') s = [ip, dp]"
    using strict by (auto simp: Let_def split: list.splits)
  obtain j where j: "P ip = Some j" using strict sp by (auto simp: Let_def rbind_Inr_iff parse_or_def split: option.splits)
  have s: "s \<noteq> []" using sp j by (auto simp: split_on_Nil P_def parse_signed_def)
  have scaled: "in_signed 128 (j * 10 ^ k)"
    using strict sp k(2) by (auto simp: Let_def parse_or_def j pow checked_def split: if_splits)
  show ?thesis
  proof (cases "dp = []")
    case True
    then have "i = j * 10 ^ k" using strict sp scaled k(2) by (auto simp: Let_def parse_or_def j pow checked_def)
    then show ?thesis
      unfolding parse_string_to_decimal_def k(1) k(3) k(4) P_def [symmetric]
      using sp s True scaled k(2) by (auto simp: j pow checked_or_def)
  next
    case False
    define dd where "dd = min (length dp) k"
    have dd: "k - dd \<le> 38" "(k - dd) mod 2 ^ 32 = k - dd" "dd \<le> k" using k(2) by (simp_all add: dd_def)
    have spl: "split_on (CHR ''.'') s = [ip, dp]" using sp False by auto
    obtain pfx d x where pre: "str_prefix dd dp = Inr pfx" and d: "P pfx = Some d"
      and x: "i_arith ovf 128 (d * 10 ^ (k - dd)) = Inr x"
      and i: "i = (if take 1 ip = ''-'' then j * 10 ^ k - x else j * 10 ^ k + x)" "in_signed 128 i"
      using strict False k(2) scaled dd(1)
      by (auto simp: Let_def parse_or_def spl j pow checked_def rbind_Inr_iff dd_def [symmetric] split: option.splits if_splits)
    have slice: "slice_prefix dd dp = (Inr pfx :: (DecimalParseFailure, string) result)" "length pfx = dd"
      using pre by (auto simp: str_prefix_def slice_prefix_def split: if_splits)
    have "\<bar>d\<bar> < 10 ^ dd" using parse_i128_bound [of pfx d] d slice(2) by (simp add: P_def)
    then have "\<bar>d * 10 ^ (k - dd)\<bar> < 10 ^ dd * 10 ^ (k - dd)" by (simp add: abs_mult)
    also have "\<dots> = 10 ^ k" using dd(3) by (simp flip: power_add)
    also have "\<dots> \<le> 10 ^ 38" using k(2) by (rule power10_le)
    finally have small: "in_signed 128 (d * 10 ^ (k - dd))" "in_signed 128 (- (d * 10 ^ (k - dd)))"
      by (auto simp: in_signed_def)
    then have "x = d * 10 ^ (k - dd)" using x by (simp add: i_arith_def)
    then show ?thesis
      unfolding parse_string_to_decimal_def k(1) k(3) k(4) P_def [symmetric]
      using spl s False scaled k(2) small i slice(1) d j dd(1)
      by (auto simp: pow checked_or_def arith_def [of _ _ "d * 10 ^ (k - dd)"] arith_def [of _ _ "- (d * 10 ^ (k - dd))"]
          Let_def dd_def [symmetric] dd(2) split: if_splits)
  qed
qed

text \<open>
  The values that both read alike: all but texts in a DOUBLE column, which only the converter
  reads, fractional numbers in a DECIMAL column and integers that the result sets cannot scale
  in 64 bits, and values of binary columns, whose bytes the result sets take from the text as it is.
\<close>

fun read_alike :: "converter_env \<Rightarrow> ExasolType \<Rightarrow> json \<Rightarrow> bool" where
  "read_alike E EDouble v \<longleftrightarrow> re_as_f64 E v \<noteq> None"
| "read_alike E (EDecimal p s) v \<longleftrightarrow> 0 \<le> s \<and> s \<le> 38 \<and> ((\<exists>x. v = JString x)
    \<or> s \<le> 18 \<and> (\<exists>m. json_as_i64 v = Some m \<and> \<bar>m * 10 ^ nat s\<bar> < 2 ^ 63))"
| "read_alike E (EGeometry _) v \<longleftrightarrow> False"
| "read_alike E (EHashtype _) v \<longleftrightarrow> False"
| "read_alike E _ v \<longleftrightarrow> True"

text \<open>The extraction of one value by the result sets.\<close>

definition lenient_reader :: "result_env \<Rightarrow> ExasolType \<Rightarrow> nat \<Rightarrow> json \<Rightarrow> (ColumnConversionError, cell option) result" where
  "lenient_reader R t row v = (let ovf = re_overflow_checks R in case t of
      EBoolean \<Rightarrow> Inr (map_option CBoolean (json_as_bool v))
    | EChar _ \<Rightarrow> Inr (if json_is_null v then None else Some (CUtf8 (render_as_text R v)))
    | EVarchar _ \<Rightarrow> Inr (if json_is_null v then None else Some (CUtf8 (render_as_text R v)))
    | EDecimal p s \<Rightarrow> map_err (\<lambda>failure. ValueError row (df_reason failure) (df_overflow failure))
        (rbind (scale_to_decimal R v s) (\<lambda>d. Inr (map_option CDecimal d)))
    | EDouble \<Rightarrow> Inr (map_option CFloat64 (re_as_f64 R v))
    | EDate \<Rightarrow> rbind (from_text (parse_date_to_days ovf) v) (\<lambda>x. Inr (map_option CDate x))
    | ETimestamp _ \<Rightarrow> rbind (from_text (parse_timestamp_to_micros ovf) v) (\<lambda>x. Inr (map_option CTimestamp x))
    | EGeometry _ \<Rightarrow> Inr (map_option (\<lambda>s. CBinary (as_bytes s)) (json_as_str v))
    | EHashtype _ \<Rightarrow> Inr (map_option (\<lambda>s. CBinary (as_bytes s)) (json_as_str v))
    | _ \<Rightarrow> (case v of
          JNull \<Rightarrow> Inr None
        | JString s \<Rightarrow> map_err (\<lambda>reason. ValueError row reason False)
            (rbind (parse_interval ovf s) (\<lambda>x. Inr (Some (CInterval x))))
        | other \<Rightarrow> fail (ValueError row (''Expected an INTERVAL string, got '' @ re_json_text R other) False)))"

lemma rmap_rows_pure: "rmap_rows k (\<lambda>_ v. Inr (g v)) vs = Inr (map g vs)"
  by (induction vs arbitrary: k) simp_all

lemma rmap_rows_rmap: "rmap_rows k (\<lambda>_. f) vs = rmap f vs"
  by (induction vs arbitrary: k) simp_all

lemma rmap_pure: "rmap (\<lambda>v. Inr (g v)) vs = Inr (map g vs)"
  by (induction vs) simp_all

lemma json_column_rows:
  assumes "field_type fld = exasol_to_arrow t"
    and "\<And>p s. t = EDecimal p s \<Longrightarrow> re_decimal_type R p s = Inr ()"
  shows "json_column_to_array R fld vs = rmap_rows 0 (lenient_reader R t) vs"
  using assms
  by (cases t) (simp_all add: json_column_to_array_def lenient_reader_def [abs_def] json_to_boolean_array_def
      json_to_string_array_def json_to_primitive_array_def json_to_binary_array_def json_to_decimal_array_def
      json_to_interval_array_def rmap_rows_pure rmap_rows_rmap rmap_pure Let_def)

lemma truncate_sel [simp]:
  "re_overflow_checks (result_env.truncate E) = re_overflow_checks E"
  "re_as_f64 (result_env.truncate E) = re_as_f64 E"
  "re_decimal_type (result_env.truncate E) = re_decimal_type E"
  "re_json_text (result_env.truncate E) = re_json_text E"
  "re_type_json (result_env.truncate E) = re_type_json E"
  by (simp_all add: result_env.truncate_def)

interpretation alike: strict_reader "typed_reader E t" "lenient_reader (result_env.truncate E) t" "read_alike E t"
    "as_f64_documented E" for E t
proof
  fix v row c
  assume doc: "as_f64_documented E" and fine: "read_alike E t v" and nn: "\<not> json_is_null v"
    and strict: "typed_reader E t row v = Inr c"
  have str: "v = JString s" if "json_as_str v = Some s" for s using that by (cases v) simp_all
  show "lenient_reader (result_env.truncate E) t row v = Inr (Some c)"
  proof (cases t)
    case (EDecimal p s)
    then have s: "0 \<le> s" "s \<le> 38" using fine by simp_all
    have sc: "nat (s mod 2 ^ 32) = nat s" using s by simp
    consider (str) x where "v = JString x" | (int) m where "json_as_i64 v = Some m" "s \<le> 18" "\<bar>m * 10 ^ nat s\<bar> < 2 ^ 63"
      using fine EDecimal by auto
    then show ?thesis
    proof cases
      case (str x)
      then obtain i where i: "parse_decimal_to_i128 (re_overflow_checks E) x s = Inr i" "c = CDecimal i"
        using strict EDecimal doc
        by (auto simp: as_f64_documented_def typed_reader_def json_decimal_to_i128_def rbind_Inr_iff map_err_Inr_iff)
      show ?thesis using decimal_parsers_agree [OF i(1) s] str i(2) EDecimal
        by (simp add: lenient_reader_def scale_to_decimal_def Let_def)
    next
      case (int m)
      have "(10 :: int) ^ nat s \<le> 10 ^ 18" using int(2) s(1) by (intro power_increasing) simp_all
      then have p: "in_signed 64 (10 ^ nat s)" "in_signed 128 (10 ^ nat s)"
        using power10_le [of "nat s"] s by (auto intro: in_range_nonneg)
      have q: "in_signed 64 (m * 10 ^ nat s)" "in_signed 128 (m * 10 ^ nat s)" using int(3) by (auto simp: in_signed_def)
      have "json_as_str v = None" using int(1) by (cases v) simp_all
      then show ?thesis using int(1) p q strict EDecimal sc
        by (simp add: typed_reader_def json_decimal_to_i128_def lenient_reader_def scale_to_decimal_def arith_def Let_def)
    qed
  qed (use fine nn strict str in \<open>auto simp: typed_reader_def lenient_reader_def append_boolean_def append_string_def
      append_double_def append_parsed_def expected_kind_def render_as_text_def from_text_def result_ok_def
      rbind_Inr_iff map_err_Inr_iff split: option.splits\<close>)
next
  fix row
  assume "as_f64_documented E"
  then show "lenient_reader (result_env.truncate E) t row JNull = Inr None"
    by (cases t) (simp_all add: lenient_reader_def from_text_def scale_to_decimal_def as_f64_documented_def Let_def)
qed

lemma exasol_types_agree: "parse_exasol_type dt = Inr t \<Longrightarrow> exasol_type_of dt = Inr t"
  unfolding parse_exasol_type_def exasol_type_of_def Let_def required_attribute_def
  by (auto split: if_splits option.splits simp: rbind_Inr_iff)

lemma schemas_agree:
  assumes "ArrowConverter_new E cols = Inr C"
  shows "build_schema (re_type_json E) cols = Inr (ac_schema C)"
proof -
  obtain ms where r: "rmap (\<lambda>col. rbind (parse_exasol_type (ci_data_type col)) (\<lambda>t. Inr (ci_name col, t))) cols = Inr ms"
    and C: "ac_schema C = schema_build (re_type_json E)
        (map (\<lambda>(name, t). \<lparr>col_name = name, col_data_type = t, col_nullable = True\<rparr>) ms)"
    using assms by (auto simp: ArrowConverter_new_def rbind_Inr_iff)
  have "rmap (\<lambda>col. rbind (exasol_type_of (ci_data_type col)) (\<lambda>t.
      Inr \<lparr>col_name = ci_name col, col_data_type = t, col_nullable = True\<rparr>)) cols =
      Inr (map (\<lambda>(name, t). \<lparr>col_name = name, col_data_type = t, col_nullable = True\<rparr>) ms)"
    using r unfolding rmap_Inr_iff list_all2_map2
    by (rule list_all2_mono) (auto simp: rbind_Inr_iff dest: exasol_types_agree)
  then show ?thesis by (simp add: build_schema_def C)
qed

text \<open>All values of the rows are read alike.\<close>

definition rows_alike :: "converter_env \<Rightarrow> ArrowConverter \<Rightarrow> json list list \<Rightarrow> bool" where
  "rows_alike E C rows \<longleftrightarrow> (\<forall>c < length (ac_column_types C).
    list_all (\<lambda>v. json_is_null v \<or> read_alike E (ac_column_types C ! c) v) (column_of rows c))"

lemma column_refines:
  assumes "as_f64_documented E" "list_all (\<lambda>v. json_is_null v \<or> read_alike E t v) vs"
    and "build_json_array E t vs c name = Inr col" "field_type fld = exasol_to_arrow t"
  shows "json_column_to_array (result_env.truncate E) fld vs = Inr col"
proof -
  have built: "build_typed_array E t vs = Inr col" using assms(3) by (simp add: build_json_array_def map_err_Inr_iff)
  then have "re_decimal_type E p s = Inr ()" if "t = EDecimal p s" for p s
    using that by (auto simp: builder_defs rbind_Inr_iff split: sum.splits)
  then have "json_column_to_array (result_env.truncate E) fld vs = rmap_rows 0 (lenient_reader (result_env.truncate E) t) vs"
    using assms(4) by (intro json_column_rows) simp_all
  then show ?thesis
    using alike.column_agrees [OF assms(1,2) build_typed_array_rows [OF built]] by simp
qed

lemma convert_refines:
  assumes new: "ArrowConverter_new E cols = Inr C" and doc: "as_f64_documented E"
    and d: "rd_data d = PayloadJson rows" "rows \<noteq> []" and alike: "rows_alike E C rows"
    and conv: "convert_to_record_batch E C d = Inr b"
  shows "payload_to_record_batch (result_env.truncate E) (PayloadJson rows) (ac_schema C) = Inr b"
proof -
  let ?ts = "ac_column_types C" and ?R = "result_env.truncate E"
  note parts = ArrowConverter_new_parts [OF new]
  have len: "length (ac_schema C) = length ?ts" using parts(1,2) by simp
  obtain arrays where arrays: "rmap (\<lambda>(col_idx, exasol_type).
      if col_idx < length (map (column_of rows) [0..<length ?ts]) \<and> col_idx < length (ac_schema C)
      then build_json_array E exasol_type (map (column_of rows) [0..<length ?ts] ! col_idx) col_idx (field_name (ac_schema C ! col_idx))
      else Inl Panic) (enumerate 0 ?ts) = Inr arrays"
    and b: "batch_try_new ?R None (map Field.truncate (ac_schema C)) (map field_metadata (ac_schema C)) arrays = Inr b"
    using conv d by (auto simp: convert_borrowed_json rbind_Inr_iff build_json_record_batch_def)
  have "rmap (\<lambda>(c, fld). let vs = column_of rows c in
      map_err (into_conversion_error ?R c (field_name fld) vs (field_type fld)) (json_column_to_array ?R fld vs))
      (enumerate 0 (ac_schema C)) = Inr arrays"
    unfolding rmap_Inr_iff list_all2_conv_all_nth
  proof (intro conjI allI impI)
    show "length (enumerate 0 (ac_schema C)) = length arrays" using arrays len by (auto simp: rmap_Inr_iff dest: list_all2_lengthD)
    fix c
    assume "c < length (enumerate 0 (ac_schema C))"
    then have c: "c < length ?ts" using len by simp
    have ty: "field_type (ac_schema C ! c) = exasol_to_arrow (?ts ! c)"
      using arg_cong [OF parts(3), of "\<lambda>l. l ! c"] c len by simp
    have "build_json_array E (?ts ! c) (column_of rows c) c (field_name (ac_schema C ! c)) = Inr (arrays ! c)"
      using arrays c len unfolding rmap_Inr_iff list_all2_conv_all_nth by (auto simp: nth_enumerate_eq dest!: spec [of _ c])
    then have "json_column_to_array ?R (ac_schema C ! c) (column_of rows c) = Inr (arrays ! c)"
      using alike c ty doc unfolding rows_alike_def by (intro column_refines) blast+
    then show "(case enumerate 0 (ac_schema C) ! c of (c, fld) \<Rightarrow> let vs = column_of rows c in
        map_err (into_conversion_error ?R c (field_name fld) vs (field_type fld)) (json_column_to_array ?R fld vs)) = Inr (arrays ! c)"
      using c len by (simp add: nth_enumerate_eq)
  qed
  then show ?thesis using d(2) b by (simp add: payload_to_record_batch_def column_major_to_record_batch_def)
qed

subsection \<open>Binary columns\<close>

text \<open>A text that starts with no hexadecimal digit, such as the text of a geometry, is refused.\<close>

lemma decode_hex_refuses:
  assumes "hex_value c = None" "c \<noteq> CHR ''+''" "list_all (\<lambda>c. \<not> utf8_tail (byte_of_char c)) s" "hd s = c" "s \<noteq> []"
  shows "decode_hex s = fail ()"
proof (cases "2 dvd length s")
  case True
  with assms(4,5) obtain d r where s: "s = c # d # r" by (cases s rule: remdups_adj.cases) auto
  then have "parse_hex [c, d] = Inl ''invalid digit found in string''" using assms(1,2) by (simp add: parse_hex_def)
  moreover have "r \<noteq> [] \<Longrightarrow> \<not> utf8_tail (byte_of_char (hd r))" using assms(3) s by (cases r) simp_all
  ultimately show ?thesis using True s by (auto simp: decode_hex_def)
qed (simp add: decode_hex_def)

lemma binary_column_one:
  assumes "converter_documented E" "t = EGeometry sr \<or> t = EHashtype k" "length s \<le> 2 ^ 32"
  shows "build_json_array E t [JString s] col name = (case decode_hex s of
      Inr b \<Rightarrow> Inr [Some (CBinary b)]
    | Inl (Failure _) \<Rightarrow> fail (ValueConversionFailed \<lparr>ve_row = 0, ve_column = col, ve_column_name = name,
        ve_value = re_json_text E (JString s), ve_target_type = re_type_text E Binary,
        ve_message = ''Invalid hex string: '' @ s\<rparr>)
    | Inl Panic \<Rightarrow> Inl Panic
    | Inl Diverged \<Rightarrow> Inl Diverged)"
proof -
  have "texts_below (2 ^ 32) [JString s]" using assms(3) by (simp add: texts_below_def)
  then have "build_typed_array E t [JString s] = append_rows (typed_reader E t) [JString s]"
    using assms(1,2) by (intro build_typed_array_eq) (auto simp: type_ok_def)
  then show ?thesis using assms(2)
    by (auto simp: build_json_array_def append_rows_def typed_reader_def append_parsed_def map_err_def
        into_conversion_error_def result_env.truncate_def Let_def split: sum.splits fault.splits)
qed

end
