(* ===== verification/Spec2Isabelle.thy ===== *)
theory Spec2Isabelle
  imports Envelope_Laws Params_Laws Handshake_Laws Transport_Liveness Command_Laws Native_Results Connection_String_Laws Bulk_Sql_Laws Schema_Inference_Laws Arrow_Csv_Laws Arrow_Converter_Laws "HOL-Library.List_Lexorder" "HOL-Library.Char_ord"
begin

text \<open>
  A verification development for \<^emph>\<open>exarrow-rs\<close>, the Arrow (ADBC) driver for the Exasol
  database: its native TCP protocol, statements, result sets and connections.

  \<^bold>\<open>The program.\<close> The driver sends a command as a 21-byte header, an attribute block and a
  payload, and reads a reply of the same form. After login both directions are encrypted
  with one ChaCha20 stream each. A reply holds warnings and one terminal result; result
  rows come column by column in a binary layout and become an Arrow record batch. Prepared
  statements send their parameters in the same layout, split into messages of a bounded
  size. Above the transport a connection keeps a session, builds the SQL of statements with
  bound values, runs them with their query timeout, and hands out result sets page by page.

  \<^bold>\<open>The theories\<close>, with the source files under \<open>src/\<close> they model:

  \<^item> \<open>Prelude\<close>, \<open>Rust_Text\<close>: results with errors, panics and divergence as values, readers over a
    byte buffer, little-endian words, and the text functions of the Rust library
    (decimal text, \<open>parse\<close>, \<open>split\<close>, UTF-8 checking). The locale \<open>codec\<close> states that a
    reader undoes a writer.
  \<^item> \<open>Constants\<close> (\<open>transport/native/constants.rs\<close>), \<open>Errors\<close> (\<open>error.rs\<close>).
  \<^item> \<open>Framing\<close> (\<open>transport/native/framing.rs\<close>): headers and the serial counter.
  \<^item> \<open>Attributes\<close> (\<open>transport/native/attributes.rs\<close>): attribute sets, writer and parser.
  \<^item> \<open>Encryption\<close> (\<open>transport/native/encryption.rs\<close>): the two cipher streams. The cipher is a
    parameter whose documented behaviour is \<open>stream_cipher\<close>.
  \<^item> \<open>Conversion\<close>, \<open>Conversion_Laws\<close>, \<open>Calendar\<close> (\<open>types/conversion.rs\<close>): text of dates, times,
    intervals and decimals in both directions, against a Gregorian calendar written out
    independently of the code. The dates of the \<open>chrono\<close> crate are a parameter.
  \<^item> \<open>Arrow\<close>, \<open>Wire_Readers\<close>, \<open>Columns\<close>, \<open>Result_Parser\<close> (\<open>transport/native/result_parser.rs\<close>): the
    response parser from bytes to record batches. \<open>Column_Laws\<close> and \<open>Envelope_Laws\<close> give the
    writer side, what a server sends, and prove that the parser reads it; the locale
    \<open>wire_column\<close> is the contract of one column type and is interpreted for each of them.
    \<open>Parser_Laws\<close> shows that the parser ends.
  \<^item> \<open>Messages\<close> (\<open>transport/messages.rs\<close>, \<open>transport/protocol.rs\<close>, \<open>transport/native/arrow_builder.rs\<close>):
    the data passed to the layers above.
  \<^item> \<open>Native_Params\<close>, \<open>Params_Laws\<close> (\<open>transport/native/mod.rs\<close>): the encoding of parameters and the
    split into data messages.
  \<^item> \<open>Handshake\<close>, \<open>Handshake_Laws\<close> (\<open>transport/native/handshake.rs\<close>): the login messages. Big
    integers are a parameter whose documented behaviour is \<open>bignum_documented\<close>.
  \<^item> \<open>Lifecycle\<close> (\<open>transport/lifecycle.rs\<close>, \<open>transport/deadline.rs\<close>): connection states and the
    deadline of the setup.
  \<^item> \<open>Actions\<close>: asynchronous methods as actions on a state that return or wait for ever; the locale
    \<open>step_relation\<close> carries what every step keeps through the code.
  \<^item> \<open>Native_Transport\<close>, \<open>Native_Session\<close>, \<open>Native_Commands\<close> (\<open>transport/native/mod.rs\<close>): the state of the
    transport and one message exchange; connecting, the login and the lifecycle steps; and
    the operations of a session. What the peer does is data of the stream, so every theorem
    holds for every peer. \<open>Transport_Frame\<close> shows what each operation leaves alone and
    interprets the contract \<open>lifecycle_steps\<close> of the lifecycle on the native transport;
    \<open>Transport_States\<close> holds the abstract automaton of connection states, its refinement and the
    invariant of reachable states; \<open>Transport_Liveness\<close> shows that operations return when overflow is checked;
    \<open>Transport_Wire\<close> and \<open>Command_Laws\<close> run operations against a server that is in step with the
    client's encryption.
  \<^item> \<open>Statement\<close> (\<open>query/statement.rs\<close>): statements, the literals of bound values, the
    placeholder scanner and the final SQL. \<open>Statement_Laws\<close> has a lexical automaton that
    reads byte by byte, shows that the scanner with look-ahead is that automaton, and reads
    the final SQL back as a sequence of lexical events.
  \<^item> \<open>Prepared\<close> (\<open>query/prepared.rs\<close>): bound rows become columns of JSON values.
  \<^item> \<open>Session\<close> (\<open>connection/session.rs\<close>, \<open>connection/version.rs\<close>): the state of a session and
    the release version of the server.
  \<^item> \<open>Type_Mapping\<close> (\<open>types/mapping.rs\<close>, \<open>types/schema.rs\<close>): Exasol types and the schema of a
    result.
  \<^item> \<open>Protocol\<close> (\<open>transport/protocol.rs\<close>): the trait \<open>TransportProtocol\<close> as a table of methods, the
    interface between the transports and the layers above. \<open>Native_Protocol\<close> is the table of the
    native transport.
  \<^item> \<open>Results\<close> (\<open>query/results.rs\<close>): record batches of Arrow and JSON payloads, pagination of a result
    set that the server holds, collecting and iterating. \<open>Result_Laws\<close> states what pagination
    relies on as the locale \<open>page_source\<close>, interpreted on the native transport in
    \<open>Native_Protocol\<close>, and shows that collecting has all rows or fails, ends, and how it
    compares with the iterator in every runtime context; \<open>Native_Results\<close> runs it against a server.
  \<^item> \<open>Connection\<close> (\<open>adbc/connection.rs\<close>): setup, statements with the reconciliation of the query
    timeout, prepared statements, transactions, schema, metadata queries and the end of a
    connection, over any transport. \<open>Connection_Laws\<close> gives every connection the history of the
    calls that the server acknowledged, and shows that the session agrees with it in every
    reachable state and which calls end a transaction; \<open>Metadata_Laws\<close> reads the metadata queries as SQL.
  \<^item> \<open>Connection_String\<close> (\<open>connection/params.rs\<close>): the connection builder and the parser of connection
    strings. Query parameters are a map whose iteration order is a parameter.
    \<open>Connection_String_Laws\<close> shows that composed strings parse to their parts, that the order
    does not matter unless two keys name one setting or two parameters are rejected, and which errors may
    quote the string.
  \<^item> \<open>Bulk_Sql\<close> (\<open>query/clauses.rs\<close>, \<open>query/import.rs\<close>, \<open>query/export.rs\<close>): the builders of IMPORT and
    EXPORT statements and their texts, which \<open>Bulk_Sql_Laws\<close> reads as SQL.
  \<^item> \<open>Schema_Inference\<close> (\<open>types/infer.rs\<close>, \<open>types/csv_infer.rs\<close>, \<open>types/parquet_infer.rs\<close>, the Arrow types of
    \<open>types/mapping.rs\<close>): inferred schemas and their DDL. \<open>Schema_Inference_Laws\<close> has the contract of joins
    as the locale \<open>joins\<close>, interpreted on the widening of types, from which the schema of several files
    is the least one and does not depend on their order.
  \<^item> \<open>Http_Tunnel\<close> (\<open>transport/http_transport.rs\<close>): the tunnel of bulk import and export, from the EXA
    handshake over chunked bodies and HTTP messages to the byte ranges of a Parquet file and the client with
    its pending TLS handshake. \<open>Http_Tunnel_Laws\<close> shows what each handler does with a well-formed peer, and
    that on any input the loops end (\<open>calm\<close>: no loop uses up its turns and no action adds bytes to come).
  \<^item> \<open>Csv_Data\<close> (\<open>import/csv.rs\<close>, \<open>export/csv.rs\<close>): CSV rows in both directions, the body of an import, and the
    decoding of the pieces of an export. \<open>Csv_Laws\<close> splits a text into its UTF-8 characters and shows that
    rows which are written are read back.
  \<^item> \<open>Arrow_Csv\<close> (\<open>import/arrow.rs\<close>, \<open>export/arrow.rs\<close>): Arrow batches as CSV text and CSV rows as Arrow batches.
    \<open>Arrow_Csv_Laws\<close> shows that supported values survive both conversions, and what blank lines do to the
    streaming reader.
  \<^item> \<open>Arrow_Converter\<close> (\<open>arrow_conversion/builders.rs\<close>, \<open>arrow_conversion/converter.rs\<close>): JSON rows as Arrow batches,
    with a builder per type that refuses what it cannot read. \<open>Arrow_Converter_Laws\<close> has the contract of a builder as the
    locale \<open>json_reader\<close> and its relation to the result sets as the locale \<open>strict_reader\<close>, both interpreted on the
    builders of all types. What the server writes as JSON is a relation written out independently of the readers: decimals as
    texts or numbers, intervals as texts, and local-time-zone timestamps as the date and time of the session's zone. On
    these values the converter agrees with the native transport, up to that zone, and with the result sets.

  \<^bold>\<open>Modelling choices.\<close> Machine integers are words, or integers with the range check written
  out where the code computes on values. \<open>overflow_checks\<close> tells the debug profile, where
  overflow panics, from the release profile, where it wraps. A slice out of range, an
  \<open>unwrap\<close> of nothing and a failed allocation are \<open>Panic\<close>. The one loop that may not end,
  the sub-results of a reply to CREATE PREPARED, has fuel and yields \<open>Diverged\<close> when it is
  used up; fuel equal to the length of the message is enough when overflow is checked,
  and no fuel is enough for one message when it is not. Both are theorems below, and the theorems that
  an operation, the login or the collecting of a result set returns therefore name the debug profile
  and fuel for every length of 32 bits as hypotheses. The
  nesting of these replies is bounded by the length of the message only; the stack is not
  modelled. The pagination of a result set whose total is known takes at most one turn per row
  and one more, which is its bound; without a total the server decides when it ends, and the
  bound is a parameter (\<open>re_max_pages\<close>). The loops over lines, headers, chunks and requests of
  the HTTP tunnel have one more turn than there are bytes to come, and each turn takes a byte.

  \<^bold>\<open>Not modelled.\<close> The WebSocket transport (JSON over another crate's sockets) and TLS configuration; of the HTTP
  tunnel the read of a partial buffer and the unused \<open>DataPipe\<close>; of bulk import and export the
  entry points that run a statement and a tunnel as concurrent tasks, and the files of the \<open>parquet\<close> and
  \<open>arrow\<close> crates; the C interface. Mutexes are not modelled: a client's calls on a
  connection are one sequence.
\<close>

section \<open>The wire format\<close>

text \<open>The 21-byte image of a message header parses back to the header, and every
  21-byte block is the image of the header it parses to.\<close>

theorem header_roundtrip:
  "parse_header (serialize_header h) = Some h
    \<and> (parse_header d = Some h' \<longrightarrow> serialize_header h' = d \<and> length d = HEADER_SIZE)"
  using parse_serialize_header serialize_parse_header
  by (auto simp: parse_header_def split: if_splits)

theorem header_roundtrip_witness:
  "serialize_header \<lparr>message_length = 7, command = 12, serial = 1, num_attributes = 0,
     attribute_data_len = 0, num_result_parts = 1\<rparr> = [7,0,0,0, 12, 1,0,0,0, 0,0,0,0, 0,0,0,0, 1,0,0,0]"
proof -
  let ?d = "[7,0,0,0, 12, 1,0,0,0, 0,0,0,0, 0,0,0,0, 1,0,0,0] :: byte list"
  let ?h = "\<lparr>message_length = 7, command = 12, serial = 1, num_attributes = 0,
     attribute_data_len = 0, num_result_parts = 1\<rparr>"
  have "parse_header ?d = Some ?h" by (simp add: parse_header_def HEADER_SIZE_def u32_of_le_def)
  with header_roundtrip [of ?h ?d ?h] show ?thesis by blast
qed

text \<open>The serial counter hands out pairwise distinct serials until it has
  wrapped around all 32 bits.\<close>

theorem serials_distinct:
  assumes "n \<le> 2 ^ 32"
  shows "distinct (fst (take_serials n c)) \<and> length (fst (take_serials n c)) = n"
  using take_serials_distinct [OF assms] by (simp add: take_serials_eq)

theorem serials_distinct_witness:
  "distinct (fst (take_serials 3 SerialCounter_new)) \<and> fst (take_serials 3 SerialCounter_new) = [1, 2, 3]"
  using serials_distinct [of 3 SerialCounter_new]
  by (simp add: take_serials_eq SerialCounter_new_def upt_rec)

text \<open>An attribute block reads back as the attribute set it was serialised
  from, whatever follows it, and its length is the sum the header announces.\<close>

theorem attributes_roundtrip:
  assumes "list_all attr_ok attrs" "length attrs < 2 ^ 32"
  shows "parse_attributes (AttributeSet_serialize attrs @ rest) (AttributeSet_num_attributes attrs) = Inr attrs
    \<and> AttributeSet_data_len attrs = of_nat (length (AttributeSet_serialize attrs))"
  using parse_serialize_attributes [OF assms] by (simp add: AttributeSet_data_len_def length_AttributeSet_serialize)

definition sample_attrs :: AttributeSet where
  "sample_attrs = AttributeSet_add (AttributeSet_add AttributeSet_new ATTR_USERNAME (AString ''sys''))
     ATTR_AUTOCOMMIT (ABool True)"

theorem attributes_roundtrip_witness:
  "parse_attributes (AttributeSet_serialize sample_attrs @ [9, 9]) (AttributeSet_num_attributes sample_attrs)
    = Inr sample_attrs"
  using attributes_roundtrip [of sample_attrs "[9, 9]"]
  by (simp add: sample_attrs_def AttributeSet_add_def AttributeSet_new_def attr_ok_def attribute_type_def
      const_defs utf8_valid_def as_bytes_def byte_of_char_def)

text \<open>On any bytes and any announced count the attribute parser returns or
  reports an error, never a panic; what it returns has the announced number of attributes, each of the type its
  identifier has.\<close>

theorem attributes_robust:
  "parse_attributes d num \<noteq> Inl Panic \<and> parse_attributes d num \<noteq> Inl Diverged
    \<and> (parse_attributes d num = Inr attrs \<longrightarrow> length attrs = unat num \<and> list_all attr_ok attrs)"
  using parse_attributes_graceful [of d num] parse_attributes_ok [of d num attrs]
  by (auto simp: graceful_def)

theorem attributes_robust_witness:
  "parse_attributes [7, 0, 1] 1 = Inr [\<lparr>attr_id = 7, attr_value = ABool True\<rparr>]
    \<and> attr_ok \<lparr>attr_id = 7, attr_value = ABool True\<rparr>"
proof -
  have run: "parse_attributes [7, 0, 1] 1 = Inr [\<lparr>attr_id = 7, attr_value = ABool True\<rparr>]"
    by (simp add: parse_attributes_def read_attribute_def read_attribute_value_def read_attribute_id_def
        attribute_type_def const_defs read_bool_def preturn_def u16_of_le_def)
  with attributes_robust [of "[7, 0, 1]" 1 "[\<lparr>attr_id = 7, attr_value = ABool True\<rparr>]"] show ?thesis by simp
qed

section \<open>Encryption\<close>

text \<open>C18: after the two peers have set each other's keys, every message one
  encrypts the other decrypts to the same bytes, over any sequence of messages, and the two stay in step.\<close>

theorem encryption_in_step:
  assumes "stream_cipher C" "set_keys C k l a = Inr a0" "set_keys C l k b = Inr b0"
    and "run_messages (encrypt C) a0 ms = Inr (cs, a')"
  shows "is_active a0 \<and> (\<exists>b'. run_messages (decrypt C) b0 cs = Inr (ms, b') \<and> in_step a' b')"
  using run_messages_in_step [OF assms(1) _ assms(4)] set_keys_in_step [OF assms(2,3)] by blast

theorem encryption_in_step_witness:
  "\<exists>b'. run_messages (decrypt vernam)
      \<lparr>send_cipher = Some (replicate 32 2, 0), recv_cipher = Some (replicate 32 1, 0)\<rparr> [[0, 3], [5]]
    = Inr ([[1, 2], [4]], b')"
proof -
  let ?a = "\<lparr>send_cipher = Some (replicate 32 1, 0), recv_cipher = Some (replicate 32 2, 0)\<rparr>"
  let ?b = "\<lparr>send_cipher = Some (replicate 32 2, 0), recv_cipher = Some (replicate 32 1, 0)\<rparr>"
  have "set_keys vernam (replicate 32 1) (replicate 32 2) Encryptor_new = Inr ?a"
    "set_keys vernam (replicate 32 2) (replicate 32 1) Encryptor_new = Inr ?b"
    by (simp_all add: set_keys_def ChaCha20State_new_def vernam_def Encryptor_new_def)
  moreover have "run_messages (encrypt vernam) ?a [[1, 2], [4]]
      = Inr ([[0, 3], [5]], ?a\<lparr>send_cipher := Some (replicate 32 1, 3)\<rparr>)"
    by (simp add: encrypt_def ChaCha20State_apply_def vernam_def)
  ultimately show ?thesis using encryption_in_step [OF stream_cipher_vernam] by blast
qed

section \<open>Responses\<close>

text \<open>C1: a counted envelope of up to 64 parts parses to its warnings, in order,
  and its one terminal result (\<open>Empty\<close> when there is none), with every row of a result set decoded to the cell the
  server wrote; an envelope with two terminal results is an error.\<close>

theorem envelope_roundtrip:
  assumes "ps \<noteq> []" "length ps \<le> 64" "list_all (part_ok E) ps" "sound_env E" "length (enc_envelope ps) < 2 ^ 59"
  shows "parse_response E (enc_envelope ps) =
    (case terminals_of ps of
       [] \<Rightarrow> Inr \<lparr>warnings = warnings_of ps, terminal = Empty\<rparr>
     | [r] \<Rightarrow> Inr \<lparr>warnings = warnings_of ps, terminal = r\<rparr>
     | _ \<Rightarrow> fail (ProtocolError ''Multiple terminal results in native response envelope''))"
  using assms by (intro parse_response_enc) (simp_all add: small_buffer_def)

definition sample_meta :: NativeColumnMeta where
  "sample_meta = \<lparr>cm_name = ''D'', type_id = T_DATE, cm_precision = None, cm_scale = None,
    is_varchar = False, max_len = None, interval_fraction = None\<rparr>"

definition sample_columns :: "(NativeColumnMeta \<times> wire_value option list) list" where
  "sample_columns = [(sample_meta, [Some (WDate (2024, 2, 29)), None])]"

definition sample_result :: result_set where
  "sample_result = \<lparr>rs_handle = SMALL_RESULTSET, rs_total = 2, rs_rows = 2, rs_columns = sample_columns\<rparr>"

definition sample_warning :: NativeWarning where
  "sample_warning = \<lparr>w_message = ''late'', w_sql_state = ''01000''\<rparr>"

lemmas ascii_evals = utf8_valid_def as_bytes_def byte_of_char_def text_ok_def

lemma sample_meta_ok: "meta_ok sample_meta" "column_fits E 2 (hd sample_columns)" "wire_arrow_type sample_meta = Date32"
  by (simp_all add: sample_meta_def sample_columns_def meta_ok_def ascii_evals const_defs column_fits_def
      value_ok_def exasol_date_def exasol_year_def valid_date.simps days_in_month_def gregorian_leap_def
      wire_arrow_type_def)

lemma sample_result_ok: "result_set_ok E sample_result" "message_ok sample_warning"
  using sample_meta_ok
  by (simp_all add: result_set_ok_def sample_result_def sample_columns_def message_ok_def sample_warning_def ascii_evals)

lemma sample_sizes: "length (enc_columns sample_columns) = 6" "length (enc_result_set sample_result) = 39"
  "length (enc_message sample_warning) = 13"
  by (simp_all add: enc_columns_def enc_column_def sample_columns_def enc_result_set_def sample_result_def
      enc_meta_def sample_meta_def enc_bytes_def enc_type_meta_def const_defs enc_message_def sample_warning_def)

lemma sound_env_reference: "sound_env reference_env"
  using arrow_documented_reference by (simp add: sound_env_def ample_def reference_env_def)

lemma fuel_reference: "fuel reference_env = 1000"
  by (simp add: reference_env_def)

theorem envelope_roundtrip_witness:
  "parse_response reference_env (enc_envelope [PWarning sample_warning, PColumnCount 1, PResultSet sample_result]) =
    Inr \<lparr>warnings = [sample_warning], terminal = result_set_response sample_result\<rparr>"
  using envelope_roundtrip [of "[PWarning sample_warning, PColumnCount 1, PResultSet sample_result]" reference_env]
    sample_result_ok sound_env_reference sample_sizes
  by (simp add: enc_envelope_def)

text \<open>C9: the row data of a fetch, the row count and then the columns one after the
  other, decodes to a batch with the fields of the column descriptions and exactly the cells that were written, nulls
  included, for every wire type.\<close>

theorem fetch_roundtrip:
  assumes "cs \<noteq> []" "list_all (column_fits E n) cs" "ample E" "arrow_documented E"
    and "n < 2 ^ 59" "length (enc_columns cs) + length rest < 2 ^ 58"
  shows "parse_fetch_to_record_batch E (u64_to_le (of_nat n) @ enc_columns cs @ rest) (map fst cs)
    = Inr (of_nat n, \<lparr>rb_fields = map (\<lambda>(m, vs). \<lparr>field_name = cm_name m, field_type = wire_arrow_type m,
          field_nullable = True\<rparr>) cs,
        rb_columns = map (\<lambda>(m, vs). map (map_option cell_of) vs) cs, rb_num_rows = n\<rparr>)"
  using parse_fetch_enc [OF assms] by (simp add: batch_of_def built_column_def comp_def case_prod_unfold)

theorem fetch_roundtrip_witness:
  "parse_fetch_to_record_batch reference_env (u64_to_le 2 @ enc_columns sample_columns) [sample_meta]
    = Inr (2, \<lparr>rb_fields = [\<lparr>field_name = ''D'', field_type = Date32, field_nullable = True\<rparr>],
        rb_columns = [[Some (CDate (days_from_civil (2024, 2, 29))), None]], rb_num_rows = 2\<rparr>)"
proof -
  have s: "sample_columns = [hd sample_columns]" "hd sample_columns = (sample_meta, [Some (WDate (2024, 2, 29)), None])"
    "cm_name sample_meta = ''D''" by (simp_all add: sample_columns_def sample_meta_def)
  have a: "list_all (column_fits reference_env 2) sample_columns"
    using sample_meta_ok(2) [of reference_env] by (simp add: sample_columns_def)
  show ?thesis
    using fetch_roundtrip [of sample_columns reference_env 2 "[]"] a sample_meta_ok(3) sound_env_reference sample_sizes(1)
    by (simp add: sound_env_def s(3)) (simp add: sample_columns_def s(3))
qed

text \<open>C17: with checked offset arithmetic the response parser ends on every
  input, and fuel equal to the length of the message is enough; from any offset inside the message it leaves the
  offset inside the message.\<close>

theorem parse_response_terminates:
  assumes "overflow_checks E" "length d \<le> fuel E"
  shows "parse_response E d \<noteq> Inl Diverged
    \<and> (\<forall>off x off'. off \<le> length d \<longrightarrow> parse_legacy_response_at (fuel E) E d off = Inr (x, off') \<longrightarrow>
        off \<le> off' \<and> off' \<le> length d)"
  using ends_parse_response [OF assms] settles_parse_legacy_response_at [OF assms] unfolding ends_def settles_def
  by blast

theorem parse_response_terminates_witness: "parse_response reference_env endless_reply \<noteq> Inl Diverged"
  using parse_response_terminates [of reference_env endless_reply] by (simp add: reference_env_def)

text \<open>C40: without overflow checks, the release profile, a ten-byte
  reply to CREATE PREPARED whose status message has length -5 keeps the sub-result loop at the same offset: it ends
  with no fuel at all.\<close>

theorem parse_response_release_hangs:
  assumes "\<not> overflow_checks E"
  shows "length endless_reply = 10 \<and> parse_response E endless_reply = Inl Diverged
    \<and> (\<forall>n. handle_loop n E endless_reply [] ([], []) 5 = Inl Diverged)"
  using endless_parse [OF assms] endless_loop [OF assms] by simp

theorem parse_response_release_hangs_witness:
  "parse_response (reference_env\<lparr>overflow_checks := False\<rparr>) endless_reply = Inl Diverged"
  using parse_response_release_hangs [of "reference_env\<lparr>overflow_checks := False\<rparr>"] by simp

text \<open>A reply to CREATE PREPARED keeps the two column descriptions
  apart: the sub-result with handle \<open>PARAMETER_DESCRIPTION\<close> describes the parameters, the other one the result
  columns, and the warnings are kept in order.\<close>

theorem prepared_reply_roundtrip:
  assumes "sound_env E" "result_set_ok E params" "result_set_ok E cols" "list_all message_ok ws"
    and "rs_handle params = PARAMETER_DESCRIPTION" "rs_handle cols \<noteq> PARAMETER_DESCRIPTION"
    and "length ws + 2 \<le> fuel E"
    and "length (enc_prepared_reply h (PResultSet params # map PWarning ws @ [PResultSet cols])) < 2 ^ 59"
  shows "parse_response E (enc_prepared_reply h (PResultSet params # map PWarning ws @ [PResultSet cols]))
    = Inr \<lparr>warnings = ws, terminal = PreparedStatement h (map fst (rs_columns params)) (map fst (rs_columns cols))\<rparr>"
  by (rule parse_prepared_reply_described [OF assms])

definition sample_params :: result_set where
  "sample_params = sample_result\<lparr>rs_handle := PARAMETER_DESCRIPTION\<rparr>"

lemma sample_params_ok: "result_set_ok E sample_params" "length (enc_result_set sample_params) = 39"
  "rs_handle sample_params = PARAMETER_DESCRIPTION" "rs_handle sample_result \<noteq> PARAMETER_DESCRIPTION"
  "map fst (rs_columns sample_params) = [sample_meta]" "map fst (rs_columns sample_result) = [sample_meta]"
  using sample_result_ok(1) [of E] sample_sizes(2)
  by (simp_all add: sample_params_def result_set_ok_def enc_result_set_def sample_result_def sample_columns_def const_defs)

lemma sample_reply_size:
  "length (enc_prepared_reply 5 (PResultSet sample_params # map PWarning [sample_warning] @ [PResultSet sample_result])) < 2 ^ 59"
  by (simp add: enc_prepared_reply_def sample_params_ok(2) sample_sizes)

theorem prepared_reply_roundtrip_witness:
  "parse_response reference_env
      (enc_prepared_reply 5 (PResultSet sample_params # map PWarning [sample_warning] @ [PResultSet sample_result]))
    = Inr \<lparr>warnings = [sample_warning], terminal = PreparedStatement 5 [sample_meta] [sample_meta]\<rparr>"
  using prepared_reply_roundtrip [OF sound_env_reference sample_params_ok(1) sample_result_ok(1) _ sample_params_ok(3,4) _
      sample_reply_size] sample_result_ok(2)
  by (simp add: fuel_reference sample_params_ok(5,6))

text \<open>An exception among the sub-results of a reply to CREATE PREPARED
  is an error that carries the server's message and SQL state, never a handle with empty metadata.\<close>

theorem prepared_reply_exception:
  assumes "sound_env E" "list_all message_ok ws" "message_ok x" "length ws + 1 \<le> fuel E"
    and "length (enc_prepared_reply h (map PWarning ws @ [PException x])) < 2 ^ 59"
  shows "parse_response E (enc_prepared_reply h (map PWarning ws @ [PException x])) =
    fail (ProtocolError (''Exasol reported an exception in a prepared-statement reply sub-result: '' @ w_message x
      @ '' (SQLSTATE '' @ w_sql_state x @ '')''))"
  by (rule parse_prepared_reply_exception [OF assms])

theorem prepared_reply_exception_witness:
  "\<exists>e. parse_response reference_env (enc_prepared_reply 5 (map PWarning [] @ [PException sample_warning])) = fail e"
  using prepared_reply_exception [of reference_env "[]" sample_warning 5] sample_result_ok sound_env_reference sample_sizes
  by (simp add: enc_prepared_reply_def fuel_reference)

section \<open>Text and calendar\<close>

text \<open>C33: the day number of the code counts days of the Gregorian calendar: the epoch
  is day 0, the day after a valid date has the next number (leap years, centuries and year ends included), and no
  step of the 32-bit arithmetic overflows in five million years either way.\<close>

theorem calendar_days:
  assumes "valid_date (y, m, d)" "next_day (y, m, d) = (y', m', d')" "-4999999 \<le> y" "y \<le> 4999999"
  shows "\<exists>n. ymd_to_days ovf y m d = Inr n \<and> ymd_to_days ovf y' m' d' = Inr (n + 1)
    \<and> ymd_to_days ovf 1970 1 1 = Inr 0"
  by (rule ymd_to_days_counts [OF assms])

theorem calendar_days_witness:
  "\<exists>n. ymd_to_days True 2000 2 29 = Inr n \<and> ymd_to_days True 2000 3 1 = Inr (n + 1)"
proof -
  have "valid_date (2000, 2, 29)" "next_day (2000, 2, 29) = (2000, 3, 1)"
    by (simp_all add: valid_date.simps next_day.simps days_in_month_def gregorian_leap_def)
  then show ?thesis using calendar_days [of 2000 2 29 2000 3 1 True] by auto
qed

text \<open>Every day number from 0001-01-01 to 9999-12-31 formats to a text that
  parses back to it, and every other day number is an error, given a date library that behaves as documented.\<close>

theorem date_format_roundtrip:
  assumes "chrono_dates K"
  shows "if -719162 \<le> n \<and> n \<le> 2932896
    then \<exists>s. format_date32 K n = Inr s \<and> parse_date_to_days ovf s = Inr n
    else \<exists>e. format_date32 K n = fail e"
  by (rule format_date32_parse [OF assms])

theorem date_format_roundtrip_witness:
  "\<exists>s. format_date32 counting_chrono 19782 = Inr s \<and> parse_date_to_days True s = Inr 19782"
  using date_format_roundtrip [OF chrono_dates_counting, of 19782 True] by simp

text \<open>Every month count of 32 bits, negative ones included, formats to
  an INTERVAL YEAR TO MONTH text that parses back to it.\<close>

theorem interval_year_month_roundtrip:
  assumes "in_signed 32 months"
  shows "parse_interval ovf (format_interval_year_to_month months) = Inr (interval_new months 0 0)"
  by (rule parse_format_year_to_month [OF assms])

theorem interval_year_month_roundtrip_witness:
  "parse_interval True (format_interval_year_to_month (-14)) = Inr (interval_new (-14) 0 0)"
  using interval_year_month_roundtrip [of "-14" True] by (simp add: in_signed_def)

text \<open>An INTERVAL DAY TO SECOND text that the formatter produces parses
  to the same span, as days and nanoseconds of one sign.\<close>

theorem interval_day_second_roundtrip:
  assumes "format_interval_day_to_second days ms = Inr s"
  shows "\<exists>v. parse_interval ovf s = Inr v \<and> iv_months v = 0
    \<and> iv_days v * 86400000000000 + iv_nanoseconds v = (days * 86400000 + ms) * 1000000
    \<and> \<bar>iv_nanoseconds v\<bar> < 86400000000000"
  by (rule parse_format_day_to_second_span [OF assms])

theorem interval_day_second_roundtrip_witness:
  "\<exists>s v. format_interval_day_to_second 1 (-1) = Inr s \<and> parse_interval True s = Inr v
    \<and> iv_days v * 86400000000000 + iv_nanoseconds v = 86399999000000"
proof -
  obtain s where s: "format_interval_day_to_second 1 (-1) = Inr s"
    by (simp add: format_interval_day_to_second_def Let_def parse_or_def checked_def in_signed_def)
  from interval_day_second_roundtrip [OF s, of True] s show ?thesis by auto
qed

text \<open>The text of a decimal of up to 38 digits parses back to its unscaled value,
  and digits beyond the scale are cut off.\<close>

theorem decimal_roundtrip:
  assumes "scale \<le> 38" "\<bar>v\<bar> < 10 ^ 38" "list_all is_ascii_digit extra" "scale = 0 \<longrightarrow> extra = []"
  shows "parse_decimal_to_i128 ovf (show_decimal v scale @ extra) (int scale) = Inr v"
  by (rule parse_show_decimal [OF assms])

theorem decimal_roundtrip_witness: "parse_decimal_to_i128 True (show_decimal (-5) 2 @ ''7'') 2 = Inr (-5)"
  using decimal_roundtrip [of 2 "-5" "''7''" True] by (simp add: is_ascii_digit_def)

section \<open>Prepared-statement parameters\<close>

text \<open>C10: splitting a parameter set into data messages covers every row exactly once
  and in order, and each range's payload is byte for byte the payload that its rows alone would have.\<close>

theorem split_covers_rows:
  assumes "split_parameter_rows J h cols limit = Inr e"
  shows "concat (map (\<lambda>r. [fst (rr_rows r)..<snd (rr_rows r)]) (ep_ranges e)) = [0..<num_rows_of cols]
    \<and> (\<forall>r \<in> set (ep_ranges e). \<exists>rows.
        write_parameter_rows J cols (parameter_columns h cols) (fst (rr_rows r)) (snd (rr_rows r) - fst (rr_rows r)) = Inr rows
        \<and> build_range_payload h e r
            = Inr (payload_prefix h (parameter_columns h cols) (snd (rr_rows r) - fst (rr_rows r)) @ rows))"
  using split_parameter_rows_inv(3) [OF assms] range_payload [OF assms] by (fastforce simp: rows_of_def)

definition sample_json :: json_env where
  "sample_json = \<lparr>json_text = (\<lambda>_. ''x''), json_as_f64 = (\<lambda>_. None), float_scaled = (\<lambda>_ _. 0)\<rparr>"

definition sample_handle :: PreparedStatementHandle where
  "sample_handle = PreparedStatementHandle_new 3 1 [DataType_boolean] [None]"

definition sample_split :: EncodedParameterRows where
  "sample_split = \<lparr>ep_columns = parameter_columns sample_handle [[JBool True, JBool False, JNull]],
    ep_bytes = [1, 1, 1, 0, 0],
    ep_ranges = [\<lparr>rr_rows = (0, 1), rr_bytes = (0, 2)\<rparr>, \<lparr>rr_rows = (1, 3), rr_bytes = (2, 5)\<rparr>]\<rparr>"

lemma split_sample:
  "split_parameter_rows sample_json sample_handle [[JBool True, JBool False, JNull]] 67 = Inr sample_split"
  by (simp add: split_parameter_rows_def num_rows_of_def parameter_columns_def parameter_column_def infer_wire_type_def
      sample_handle_def PreparedStatementHandle_new_def DataType_boolean_def named_type_def data_type_to_wire_type_def
      const_defs numeral_3_eq_3 write_param_value_def message_overhead_def execute_prepared_attributes_def
      AttributeSet_new_def AttributeSet_serialize_def payload_prefix_def column_header_def write_length_prefixed_def
      write_column_metadata_def sample_split_def Let_def show_nat.simps)

theorem split_covers_rows_witness:
  "concat (map (\<lambda>r. [fst (rr_rows r)..<snd (rr_rows r)]) (ep_ranges sample_split)) = [0, 1, 2]"
  using split_covers_rows [OF split_sample] by (simp add: num_rows_of_def upt_rec)

text \<open>The message of every range, header, attributes and payload, is within
  the server's size limit, unless the range is a single row; no range is empty.\<close>

theorem split_respects_limit:
  assumes "split_parameter_rows J h cols limit = Inr e" "r \<in> set (ep_ranges e)" "build_range_payload h e r = Inr payload"
  shows "fst (rr_rows r) < snd (rr_rows r) \<and>
    (HEADER_SIZE + length (AttributeSet_serialize execute_prepared_attributes) + length payload \<le> limit
     \<or> snd (rr_rows r) = fst (rr_rows r) + 1)"
  using range_payload [OF assms(1,2)] assms(3) by auto

theorem split_respects_limit_witness:
  "\<exists>payload. build_range_payload sample_handle sample_split \<lparr>rr_rows = (1, 3), rr_bytes = (2, 5)\<rparr> = Inr payload
    \<and> HEADER_SIZE + length (AttributeSet_serialize execute_prepared_attributes) + length payload \<le> 67"
proof -
  let ?r = "\<lparr>rr_rows = (1, 3), rr_bytes = (2, 5)\<rparr>"
  obtain payload where p: "build_range_payload sample_handle sample_split ?r = Inr payload"
    by (simp add: build_range_payload_def sample_split_def slice_def)
  have "?r \<in> set (ep_ranges sample_split)" by (simp add: sample_split_def)
  from split_respects_limit [OF split_sample this p] p show ?thesis by auto
qed

text \<open>A DATE parameter given as \<open>YYYY-MM-DD\<close> is written as the bytes that the
  decoder of result columns reads back as the day number of that date.\<close>

theorem param_date_decodes:
  assumes "valid_date (y, m, d)" "1 \<le> y" "y \<le> 9999"
  shows "\<exists>bytes. write_param_value J T_DATE (JString (iso_date (y, m, d))) scale = Inr bytes
    \<and> read_nullable bytes (read_packed_date_days E bytes) CDate 0
      = Inr (Some (CDate (days_from_civil (y, m, d))), length bytes)"
proof -
  have ok: "exasol_date (y, m, d)" using assms by (simp add: exasol_date_def exasol_year_def)
  let ?b = "enc_nullable (Some (WDate (y, m, d)))"
  have "read_nullable ?b (read_packed_date_days E ?b) CDate 0
      = Inr (map_option cell_of (Some (WDate (y, m, d))), 0 + length ?b)"
    using ok by (intro date_column.nullable_enc [where pre = "[]" and rest = "[]"]) simp_all
  then show ?thesis using write_param_date [OF ok] by simp
qed

theorem param_date_decodes_witness:
  "\<exists>bytes. write_param_value sample_json T_DATE (JString (iso_date (2024, 2, 29))) 0 = Inr bytes
    \<and> read_nullable bytes (read_packed_date_days reference_env bytes) CDate 0
      = Inr (Some (CDate (days_from_civil (2024, 2, 29))), length bytes)"
  using param_date_decodes [of 2024 2 29 sample_json 0 reference_env]
  by (simp add: valid_date.simps days_in_month_def gregorian_leap_def)

text \<open>An integer bound to a DECIMAL of scale \<open>k\<close> is sent as the 64-bit
  integer \<open>i * 10 ^ k\<close>, exactly when that fits and saturated at the bounds of \<open>i64\<close> otherwise.\<close>

theorem param_decimal_scaled:
  assumes "json_as_i64 v = Some i" "0 \<le> sint scale" "sint scale \<le> 38"
  shows "write_param_value J T_DECIMAL v scale
    = Inr (1 # u64_to_le (of_int (max (- (2 ^ 63)) (min (2 ^ 63 - 1) (i * 10 ^ nat (sint scale))))))"
  by (rule write_param_decimal [OF assms])

theorem param_decimal_scaled_witness:
  "write_param_value sample_json T_DECIMAL (JPosInt 123) 2 = Inr (1 # u64_to_le 12300)"
  using param_decimal_scaled [of "JPosInt 123" 123 2 sample_json] by simp

section \<open>Login messages\<close>

text \<open>The key parser never panics, whatever bytes the server sends.\<close>

theorem rsa_key_robust:
  "parse_rsa_public_key L key \<noteq> Inl Panic \<and> parse_rsa_public_key L key \<noteq> Inl Diverged"
  using parse_rsa_public_key_graceful [of L key] by (simp add: graceful_def)

text \<open>A PKCS#1 DER key, with length fields of one to four bytes, parses to its
  modulus and exponent, each without its sign byte.\<close>

theorem rsa_der_roundtrip:
  assumes "length n < 2 ^ 20" "length e < 2 ^ 20"
  shows "parse_rsa_public_key L (der_key n e) = Inr (from_bytes_be L (unsign n), from_bytes_be L (unsign e))"
  by (rule parse_der_key [OF assms])

theorem rsa_der_roundtrip_witness:
  "parse_rsa_public_key nat_login (der_key [0, 200] [1, 0, 1]) = Inr (200, 65537)"
  using rsa_der_roundtrip [of "[0, 200]" "[1, 0, 1]" nat_login] by (simp add: nat_login_def unsign_def)

text \<open>C34: with a modulus of at most 1024 bits, the encoded password is the raw RSA
  of the interleaved text, 64 bytes to 128 bytes block by block, without a panic. The even positions of that text hold the
  password with its terminator and the odd ones the random phrase of the server, each repeated to the end, and the text
  is the shortest one that has all of both and fills whole pairs of blocks.\<close>

theorem password_encoding:
  assumes "bignum_documented L val" "0 < val n" "val n \<le> 256 ^ 128" "phrase \<noteq> []"
    and "length data < 2 ^ 32" "length phrase < 2 ^ 32"
  shows "\<exists>out plain k. exasol_encode_pwd ovf L data phrase n e = Inr out \<and> length out = k * 128 \<and> length plain = k * 64
    \<and> even k \<and> max (length data + 1) (length phrase) \<le> k * 32 \<and> k * 32 < max (length data + 1) (length phrase) + 64
    \<and> (\<forall>i < k * 32. plain ! (2 * i) = (data @ [0]) ! (i mod (length data + 1))
        \<and> plain ! (2 * i + 1) = phrase ! (i mod length phrase))
    \<and> (\<forall>i < k. block_of 128 out i = block_of 64 plain i ^ val e mod val n)
    \<and> map (\<lambda>i. plain ! (2 * i)) [0..<length data + 1] = data @ [0]
    \<and> map (\<lambda>i. plain ! (2 * i + 1)) [0..<length phrase] = phrase"
proof -
  let ?k = "pwd_blocks data phrase"
  let ?plain = "interleave (data @ [0]) phrase (?k * 32)"
  obtain out where out: "exasol_encode_pwd ovf L data phrase n e = Inr out" "length out = ?k * 128"
    "even ?k" "max (length data + 1) (length phrase) \<le> ?k * 32" "?k * 32 < max (length data + 1) (length phrase) + 64"
    "\<forall>i < ?k. block_of 128 out i = block_of 64 ?plain i ^ val e mod val n"
    using encode_pwd_rsa [OF assms, of ovf e] by blast
  have len: "length (data @ [0]) \<le> ?k * 32" "length phrase \<le> ?k * 32" using out(4) by simp_all
  have "map (\<lambda>i. ?plain ! (2 * i)) [0..<length data + 1] = data @ [0]"
    "map (\<lambda>i. ?plain ! (2 * i + 1)) [0..<length phrase] = phrase"
    using uninterleave(1) [OF len(1), of phrase] uninterleave(2) [OF len(2), of "data @ [0]"] by simp_all
  moreover have "\<forall>i < ?k * 32. ?plain ! (2 * i) = (data @ [0]) ! (i mod (length data + 1))
      \<and> ?plain ! (2 * i + 1) = phrase ! (i mod length phrase)"
    by (simp add: interleave_nth)
  moreover have "length ?plain = ?k * 64" by simp
  ultimately show ?thesis using out by blast
qed

theorem password_encoding_witness:
  "\<exists>out plain. exasol_encode_pwd True nat_login [104, 105] [1, 2, 3] 323 5 = Inr out \<and> length out = 256
    \<and> length plain = 128 \<and> (\<forall>i < 2. block_of 128 out i = block_of 64 plain i ^ 5 mod 323)
    \<and> take 8 plain = [104, 1, 105, 2, 0, 3, 104, 1]"
proof -
  obtain out plain k where p: "exasol_encode_pwd True nat_login [104, 105] [1, 2, 3] 323 5 = Inr out" "length out = k * 128"
    "length plain = k * 64" "even k" "3 \<le> k * 32" "k * 32 < 3 + 64"
    "\<forall>i < k * 32. plain ! (2 * i) = ([104, 105] @ [0]) ! (i mod 3) \<and> plain ! (2 * i + 1) = [1, 2, 3] ! (i mod 3)"
    "\<forall>i < k. block_of 128 out i = block_of 64 plain i ^ 5 mod 323"
    using password_encoding [OF bignum_documented_nat, of 323 "[1, 2, 3]" "[104, 105]" True 5] by auto
  have k: "k = 2" using p(4-6) by presburger
  have "take 8 plain = map ((!) plain) [0..<8]" using p(3) k by (simp add: list_eq_iff_nth_eq)
  also have "[0..<8] = [2 * 0, 2 * 0 + 1, 2 * 1, 2 * 1 + 1, 2 * 2, 2 * 2 + 1, 2 * 3, 2 * 3 + 1 :: nat]" by code_simp
  also have "map ((!) plain) \<dots> = [104, 1, 105, 2, 0, 3, 104, 1]"
    using p(7) [unfolded k, rule_format, of 0] p(7) [unfolded k, rule_format, of 1]
      p(7) [unfolded k, rule_format, of 2] p(7) [unfolded k, rule_format, of 3] by simp
  finally show ?thesis using p(1-3,8) unfolding k by auto
qed

text \<open>A DER key with modulus 0 is accepted by the parser, and building the
  authentication message then panics in \<open>modpow\<close>; the raw format rejects the same key.\<close>

theorem rsa_zero_modulus_panics:
  assumes "bignum_documented L val" "phrase \<noteq> []" "length phrase \<le> length pw + 2"
  shows "build_auth_message ovf L pw (der_key [0] [3]) phrase counter use_chacha20 = Inl Panic
    \<and> (\<exists>msg. build_auth_message ovf L pw [0, 3, 0, 0] phrase counter use_chacha20 = fail (ProtocolError msg))"
  by (rule zero_modulus_panics [OF assms])

theorem rsa_zero_modulus_panics_witness:
  "build_auth_message True nat_login ''pw'' (der_key [0] [3]) [1, 2] SerialCounter_new True = Inl Panic"
  using rsa_zero_modulus_panics [OF bignum_documented_nat, of "[1, 2]" "''pw''" True SerialCounter_new True] by simp

section \<open>The life of a connection\<close>

text \<open>C4: every sequence of calls refines the automaton of connection states, and a
  transport that was closed or terminated is never connected again.\<close>

theorem lifecycle_refines:
  assumes "(transport_step E)\<^sup>*\<^sup>* t t'"
  shows "conn_step\<^sup>*\<^sup>* (conn_state t) (conn_state t')
    \<and> (conn_state t = Closed \<or> conn_state t = Terminated \<longrightarrow> \<not> is_connected t')"
  using steps_refine [OF assms] conn_step_ended [of "conn_state t" "conn_state t'"]
  by (auto simp: is_connected_def is_open_def)

definition sample_native :: native_env where
  "sample_native = reference_env\<lparr>fuel := 2 ^ 32\<rparr>"

definition sample_env :: "(byte list \<times> nat, nat) transport_env" where
  "sample_env = \<lparr>te_native = sample_native, te_cipher = vernam, te_login = nat_login, te_json = sample_json,
    te_debug = (\<lambda>_. ''response''), te_new_empty = \<lparr>rb_fields = [], rb_columns = [], rb_num_rows = 0\<rparr>\<rparr>"

definition sample_timing :: login_timing where
  "sample_timing = \<lparr>lt_finish = 0, lt_arrived = 0, lt_writes = []\<rparr>"

theorem lifecycle_refines_witness:
  "\<not> is_connected (terminate_transport sample_env sample_timing (terminate_transport sample_env sample_timing NativeTcpTransport_new))"
  using lifecycle_refines [of sample_env "terminate_transport sample_env sample_timing NativeTcpTransport_new"]
    r_into_rtranclp [of "transport_step sample_env", OF call_terminate] by simp

text \<open>C5: in every reachable state an open transport has its stream, a logged-in one
  also a session and, unless TLS protects the stream, active encryption; a transport that is not open holds neither
  stream nor session nor schema; fetch positions and column descriptions are kept for the same result sets.\<close>

theorem reachable_invariant:
  assumes "reachable E t" "rng_documented (te_login E)"
  shows "(is_connected t \<longleftrightarrow> nt_stream t \<noteq> None)
    \<and> (conn_state t = Authenticated \<longrightarrow> nt_session t \<noteq> None \<and> (nt_tls_active t \<or> is_active (nt_encryptor t)))
    \<and> (\<not> is_connected t \<longrightarrow> nt_session t = None \<and> current_schema t = None)
    \<and> dom (nt_fetch_positions t) = dom (nt_result_columns t) \<and> nt_fetch_positions t SMALL_RESULTSET = None"
proof -
  have "transport_ok t" using reachable_ok [OF assms] .
  moreover have "SMALL_RESULTSET \<notin> dom (nt_fetch_positions t)" if "caches_agree t"
    using that by (auto simp: caches_agree_def)
  ultimately show ?thesis
    by (cases "conn_state t")
      (auto simp: transport_ok_def is_connected_def is_open_def released_def caches_agree_def current_schema_def)
qed

lemma rng_documented_nat: "rng_documented nat_login"
  by (simp add: rng_documented_def nat_login_def)

theorem reachable_invariant_witness:
  "nt_stream (terminate_transport sample_env sample_timing NativeTcpTransport_new) = None"
proof -
  have "reachable sample_env (terminate_transport sample_env sample_timing NativeTcpTransport_new)"
    by (rule reachable.step [OF reachable.start call_terminate])
  moreover have "rng_documented (te_login sample_env)" by (simp add: sample_env_def rng_documented_nat)
  ultimately have "(is_connected (terminate_transport sample_env sample_timing NativeTcpTransport_new)
      \<longleftrightarrow> nt_stream (terminate_transport sample_env sample_timing NativeTcpTransport_new) \<noteq> None)"
    using reachable_invariant by blast
  then show ?thesis by (simp add: is_connected_def is_open_def)
qed

text \<open>Every operation on a transport that is not logged in fails and changes
  nothing, sends nothing and reads nothing; after a termination the error says so.\<close>

theorem commands_need_login:
  assumes "conn_state t \<noteq> Authenticated"
  shows "\<exists>e. run_command E c t = (Ready (fail e), t)
    \<and> (conn_state t = Terminated \<longrightarrow> (\<forall>n. c \<noteq> SetQueryTimeout n) \<longrightarrow> e = terminated_error)"
  by (rule command_blocked [OF assms])

theorem commands_need_login_witness:
  "\<exists>e. run_command sample_env (ExecuteQuery ''SELECT 1'') NativeTcpTransport_new = (Ready (fail e), NativeTcpTransport_new)"
  using commands_need_login [of NativeTcpTransport_new sample_env "ExecuteQuery ''SELECT 1''"]
  by (auto simp: NativeTcpTransport_new_def ConnectionLifecycle_new_def)

text \<open>C31: in a build with overflow checks (the debug profile), with parser fuel for
  every message a 32-bit length can announce, the login returns whatever the server does. When the server is silent or
  the login would take longer than the deadline allows, it ends with the timeout error and leaves a closed transport that
  holds no stream and no session.\<close>

theorem authenticate_by_deadline:
  assumes "overflow_checks (te_native E)" "2 ^ 32 \<le> fuel (te_native E)" "stream_cipher (te_cipher E)"
    and "length (nt_recv_buf t) < 2 ^ 32" "conn_state t = Connected" "lc_deadline (nt_lifecycle t) = Some dl"
    and "authenticate E lt c now lag t = (r, t')"
  shows "r \<noteq> Inl Diverged \<and> (fst (login_exchange E c t) = Pending \<or> max now (dl_deadline dl) < lt_finish lt \<longrightarrow>
      r = fail (timeout_error dl Login) \<and> conn_state t' = Closed \<and> nt_stream t' = None \<and> nt_session t' = None)"
proof -
  have "live_env E" "responsive True t"
    using assms(1-4) by (simp_all add: live_env_def responsive_def polite_def)
  from authenticate_silent_peer [OF this assms(5-7)] show ?thesis by (auto simp: ends_def released_def)
qed

definition silent_transport :: "(byte list \<times> nat) NativeTcpTransport" where
  "silent_transport = open_stream (Plain \<lparr>inbox = [], inbox_end = None, outbox = [], write_outcomes = []\<rparr>) False
    \<lparr>dl_deadline = 5, dl_budget = 5, dl_label = ''Connection''\<rparr> NativeTcpTransport_new"

definition sample_credentials :: Credentials where
  "sample_credentials = \<lparr>username = ''sys'', password = ''pw'', client_name = ''c'', client_version = ''1''\<rparr>"

lemma live_sample: "live_env sample_env" "responsive W silent_transport = W"
  using stream_cipher_vernam
  by (simp_all add: live_env_def sample_env_def sample_native_def reference_env_def responsive_def silent_transport_def
      open_stream_def NativeTcpTransport_new_def polite_def)

lemma live_sample_profile:
  "overflow_checks (te_native sample_env)" "2 ^ 32 \<le> fuel (te_native sample_env)" "stream_cipher (te_cipher sample_env)"
  using live_sample(1) by (simp_all add: live_env_def)

theorem authenticate_by_deadline_witness:
  "\<exists>t'. authenticate sample_env (sample_timing\<lparr>lt_finish := 9\<rparr>) sample_credentials 0 0 silent_transport
      = (fail (timeout_error \<lparr>dl_deadline = 5, dl_budget = 5, dl_label = ''Connection''\<rparr> Login), t')
    \<and> conn_state t' = Closed"
proof -
  obtain r t' where a: "authenticate sample_env (sample_timing\<lparr>lt_finish := 9\<rparr>) sample_credentials 0 0 silent_transport = (r, t')"
    by force
  have "conn_state silent_transport = Connected"
    "lc_deadline (nt_lifecycle silent_transport) = Some \<lparr>dl_deadline = 5, dl_budget = 5, dl_label = ''Connection''\<rparr>"
    by (simp_all add: silent_transport_def)
  from authenticate_by_deadline [OF live_sample_profile _ this a] a live_sample(2) [of True]
  show ?thesis by (auto simp: responsive_def)
qed

text \<open>The loop that passes over StillExecuting replies takes a header off the
  stream in each turn, so one turn more than there are bytes to come is as good as any larger number.\<close>

theorem still_executing_loop_ends:
  assumes "pending_bytes t < n"
  shows "await_reply n E t = await_reply (Suc (pending_bytes t)) E t
    \<and> (\<forall>h t'. receive_into_buf E t = (Ready (Inr h), t') \<longrightarrow> pending_bytes t' + HEADER_SIZE \<le> pending_bytes t)"
  using await_reply_fuel [of t n "Suc (pending_bytes t)" E] receive_takes_header [of E t] assms by blast

theorem still_executing_loop_ends_witness:
  "await_reply 7 sample_env silent_transport = await_reply (Suc 0) sample_env silent_transport"
  using still_executing_loop_ends [of silent_transport 7 sample_env]
  by (simp add: pending_bytes_def silent_transport_def del: await_reply.simps)

text \<open>The login accepts exactly the protocol versions from the minimum to the
  largest 32-bit value, without truncation.\<close>

theorem protocol_version_range:
  "negotiated_protocol_version (Some v) = Inr w \<longleftrightarrow>
    14 \<le> sint v \<and> sint v < 2 ^ 31 \<and> w = of_int (sint v) \<and> sint w = sint v"
proof -
  have "sint (of_int x :: i32) = x" if "14 \<le> x" "x < 2 ^ 31" for x :: int
    using that by (simp add: signed_of_int signed_take_bit_int_eq_self)
  from this [of "sint v"] show ?thesis
    by (auto simp: negotiated_protocol_version_def in_signed_def const_defs)
qed

section \<open>Operations end to end\<close>

lemma envelope_final_reply:
  assumes "sound_env N" "list_all (reply_ok N) (ws @ [r])"
    and "list_all (\<lambda>w. sr_body w = enc_envelope [PStillExecuting]) ws"
    and "sr_body r = enc_envelope ps" "ps \<noteq> []" "length ps \<le> 64" "list_all (part_ok N) ps"
    and "terminals_of ps = [response]" "response \<noteq> StillExecuting"
  shows "final_reply N (ws @ [r]) response"
proof -
  have small: "small_buffer (sr_body w)" if "reply_ok N w" for w
    using that by (auto simp: small_buffer_def reply_ok_def reply_payload_def)
  have "still_executing N w" if "w \<in> set ws" for w
  proof -
    have "parse_response N (enc_envelope [PStillExecuting]) = Inr \<lparr>warnings = [], terminal = StillExecuting\<rparr>"
      using parse_response_enc [of "[PStillExecuting]" N] small [of w] that assms(1-3)
      by (simp add: terminals_of_def warnings_of_def list_all_iff)
    then show ?thesis using that assms(3) by (simp add: still_executing_def list_all_iff)
  qed
  moreover have "parse_response N (sr_body r) = Inr \<lparr>warnings = warnings_of ps, terminal = response\<rparr>"
    using parse_response_enc [OF assms(5-7,1)] small [of r] assms(2,4,8) by simp
  ultimately show ?thesis using assms(2,9) by (auto simp: final_reply_def list_all_iff)
qed

text \<open>C2: a query over the encrypted connection. The server unseals exactly the SQL text;
  after any number of StillExecuting replies it sends warnings and a result set; the caller gets that result set with
  every cell decoded, the transport remembers the columns and how many rows have come, unless the result set arrived
  whole, and the recorded schema is the last one the replies named.\<close>

theorem query_end_to_end:
  assumes "conn_state t = Authenticated" "stream_cipher (te_cipher E)" "sound_env (te_native E)"
    and "facing srv (bytes @ rest) t" "serves (te_cipher E) srv (as_bytes sql) (ws @ [r]) bytes srv'"
    and "list_all (reply_ok (te_native E)) (ws @ [r])" "list_all (\<lambda>w. sr_body w = enc_envelope [PStillExecuting]) ws"
    and "sr_body r = enc_envelope (map PWarning wn @ [PResultSet rs])" "length wn \<le> 63" "list_all message_ok wn"
    and "result_set_ok (te_native E) rs"
  shows "\<exists>t'. execute_query E sql t = (Ready (Inr (QResultSet
        (if rs_handle rs = SMALL_RESULTSET then None else Some (rs_handle rs))
        \<lparr>rd_columns = to_column_info (map fst (rs_columns rs)),
         rd_data = PayloadArrow (batch_of (rs_rows rs) (rs_columns rs)), rd_total_rows = rs_total rs\<rparr>)), t')
    \<and> facing srv' rest t' \<and> current_schema t' = schema_after (ws @ [r]) (current_schema t)
    \<and> (rs_handle rs \<noteq> SMALL_RESULTSET \<longrightarrow> nt_result_columns t' (rs_handle rs) = Some (map fst (rs_columns rs))
        \<and> nt_fetch_positions t' (rs_handle rs) = Some (of_nat (rs_rows rs)))
    \<and> (rs_handle rs = SMALL_RESULTSET \<longrightarrow> nt_fetch_positions t' = nt_fetch_positions t)
    \<and> request_sent E srv CMD_EXECUTE AttributeSet_new (Some (as_bytes sql)) t t'"
proof -
  have "final_reply (te_native E) (ws @ [r]) (result_set_response rs)"
    using assms(9-11) by (intro envelope_final_reply [OF assms(3,6-8)])
      (auto simp: terminals_of_def list_all_iff result_set_response_def)
  from execute_query_answered [OF assms(1,2,4,5) this] obtain u where
    u: "received rest (ws @ [r]) srv' t u" "request_sent E srv CMD_EXECUTE AttributeSet_new (Some (as_bytes sql)) t u"
    and run: "execute_query E sql t = (Ready (native_result_to_query_result E (result_set_response rs)),
      cache_result (result_set_response rs) u)"
    by (auto simp: accepted_def result_set_response_def)
  have "request_sent E srv CMD_EXECUTE AttributeSet_new (Some (as_bytes sql)) t (cache_result (result_set_response rs) u)"
    using u(2) by (simp add: request_sent_def cache_result_def result_set_response_def)
  then show ?thesis
    using run received_facing [OF u(1)]
    by (auto simp: result_set_response_def native_result_to_query_result_def current_schema_def facing_cache)
      (simp_all add: cache_result_def)
qed

definition sample_stream :: "byte list \<Rightarrow> NativeStream" where
  "sample_stream bytes = Tls \<lparr>inbox = bytes, inbox_end = None, outbox = [], write_outcomes = []\<rparr>"

definition sample_transport :: "byte list \<Rightarrow> (byte list \<times> nat) NativeTcpTransport" where
  "sample_transport bytes = NativeTcpTransport_new\<lparr>nt_stream := Some (sample_stream bytes), nt_tls_active := True,
    nt_lifecycle := \<lparr>lc_state = Authenticated, lc_deadline = None\<rparr>,
    nt_result_columns := [7 \<mapsto> [sample_meta]], nt_fetch_positions := [7 \<mapsto> 4]\<rparr>"

definition sample_reply :: "byte list \<Rightarrow> server_reply" where
  "sample_reply body = \<lparr>sr_command = 0, sr_serial = 1, sr_attrs = [], sr_parts = 1, sr_body = body\<rparr>"

definition sample_bytes :: "byte list \<Rightarrow> byte list" where
  "sample_bytes body = serialize_header (reply_header (sample_reply body)) @ body"

lemma sample_facts:
  "conn_state (sample_transport b) = Authenticated" "facing Encryptor_new b (sample_transport b)"
  "serves vernam Encryptor_new d [sample_reply body] (sample_bytes body) Encryptor_new"
  "reply_ok sample_native (sample_reply body) = (length body < 2 ^ 32)"
  "te_cipher sample_env = vernam" "te_native sample_env = sample_native" "te_json sample_env = sample_json"
  by (simp_all add: sample_transport_def facing_def in_step_def Encryptor_new_def NativeTcpTransport_new_def
      sample_stream_def writable_def serves_def server_sends_def seal_def unseal_def is_active_def sample_bytes_def
      reply_payload_def sample_reply_def AttributeSet_serialize_def reply_ok_def sample_native_def reference_env_def
      sample_env_def)

lemma serves_plain:
  "serves vernam Encryptor_new d [r] (serialize_header (reply_header r) @ reply_payload r) Encryptor_new"
  by (simp add: serves_def server_sends_def seal_def unseal_def is_active_def Encryptor_new_def)

lemma sample_session:
  "stream_cipher (te_cipher sample_env)" "facing Encryptor_new (b @ []) (sample_transport b)"
  "serves (te_cipher sample_env) Encryptor_new d [sample_reply body] (sample_bytes body) Encryptor_new"
  "serves (te_cipher sample_env) Encryptor_new d [r] (serialize_header (reply_header r) @ reply_payload r) Encryptor_new"
  using sample_facts(2,3) [of b] serves_plain stream_cipher_vernam by (simp_all add: sample_facts(5) sample_facts(3))

lemma sound_sample: "sound_env sample_native"
proof -
  have "arrow_documented sample_native"
    using arrow_documented_reference by (simp add: arrow_documented_def sample_native_def)
  then show ?thesis by (simp add: sound_env_def ample_def sample_native_def reference_env_def)
qed

lemma sample_final_reply:
  assumes "ps \<noteq> []" "length ps \<le> 64" "list_all (part_ok sample_native) ps" "terminals_of ps = [response]"
    and "response \<noteq> StillExecuting" "length (enc_envelope ps) < 2 ^ 32"
  shows "final_reply sample_native [sample_reply (enc_envelope ps)] response"
proof -
  have "list_all (reply_ok sample_native) ([] @ [sample_reply (enc_envelope ps)])"
    using assms(6) by (simp only: append.simps list.pred_inject sample_facts(4) simp_thms)
  from envelope_final_reply [OF sound_sample this _ _ assms(1-5)] show ?thesis by (simp add: sample_reply_def)
qed

theorem query_end_to_end_witness:
  "\<exists>t'. execute_query sample_env ''SELECT D FROM T'' (sample_transport (sample_bytes (enc_envelope [PResultSet sample_result])))
    = (Ready (Inr (QResultSet None \<lparr>rd_columns = to_column_info [sample_meta],
        rd_data = PayloadArrow (batch_of 2 sample_columns), rd_total_rows = 2\<rparr>)), t')"
proof -
  let ?body = "enc_envelope (map PWarning [] @ [PResultSet sample_result])"
  have "length ?body < 2 ^ 32" by (simp add: enc_envelope_def sample_sizes)
  then have r: "list_all (reply_ok (te_native sample_env)) ([] @ [sample_reply ?body])"
    by (simp only: append.simps list.pred_inject sample_facts(4,6) simp_thms)
  have s: "serves (te_cipher sample_env) Encryptor_new (as_bytes ''SELECT D FROM T'') ([] @ [sample_reply ?body]) (sample_bytes ?body) Encryptor_new"
    using sample_session(3) by simp
  have "sound_env (te_native sample_env)" "sr_body (sample_reply ?body) = ?body" "result_set_ok (te_native sample_env) sample_result"
    by (simp_all add: sample_facts(6) sound_sample sample_reply_def sample_result_ok(1))
  from query_end_to_end [OF sample_facts(1) sample_session(1) this(1) sample_session(2) s r _ this(2) _ _ this(3)] show ?thesis
    by (auto simp: sample_result_def sample_columns_def)
qed

text \<open>C32: in a build with overflow checks (the debug profile), with parser fuel for every
  message a 32-bit length can announce, an operation of the transport never spins: with any server it returns or waits
  for the server, and with a server whose stream ends and whose writes go through it returns. The StillExecuting loop,
  the split of parameters and the parser are all among what it runs.\<close>

theorem commands_return:
  assumes "overflow_checks (te_native E)" "2 ^ 32 \<le> fuel (te_native E)" "stream_cipher (te_cipher E)"
    and "length (nt_recv_buf t) < 2 ^ 32"
  shows "fst (run_command E c t) \<noteq> Ready (Inl Diverged)
    \<and> ((\<forall>st. nt_stream t = Some st \<longrightarrow> polite False (io_of st)) \<longrightarrow> (\<exists>r. fst (run_command E c t) = Ready r))"
proof -
  have live: "live_env E" using assms(1-3) by (simp add: live_env_def)
  obtain p t' where run: "run_command E c t = (p, t')" by force
  have "responsive True t" using assms(4) by (simp add: responsive_def polite_def)
  from returnsD [OF returns_run_command [OF live] this run] have "p \<noteq> Ready (Inl Diverged)" by auto
  moreover have "\<exists>r. p = Ready r" if "\<forall>st. nt_stream t = Some st \<longrightarrow> polite False (io_of st)"
  proof -
    have "responsive False t" using assms(4) that by (simp add: responsive_def)
    from returnsD [OF returns_run_command [OF live] this run] show ?thesis by (cases p) auto
  qed
  ultimately show ?thesis by (simp add: run)
qed

text \<open>A server that answers twice that it is still executing, and whose stream then ends, or that counts rows first.\<close>

abbreviation executing_bytes :: "byte list" where
  "executing_bytes \<equiv> sample_bytes (enc_envelope [PStillExecuting])"

definition ending_transport :: "byte list \<Rightarrow> (byte list \<times> nat) NativeTcpTransport" where
  "ending_transport b = (sample_transport b)\<lparr>nt_stream := Some (Tls \<lparr>inbox = b, inbox_end = Some ''eof'', outbox = [], write_outcomes = []\<rparr>)\<rparr>"

lemma ending_facts:
  "conn_state (ending_transport b) = Authenticated" "facing Encryptor_new (b @ []) (ending_transport b)"
  "length (nt_recv_buf (ending_transport b)) < 2 ^ 32" "nt_stream (ending_transport b) = Some st \<Longrightarrow> polite False (io_of st)"
  by (auto simp: ending_transport_def sample_transport_def facing_def in_step_def Encryptor_new_def NativeTcpTransport_new_def
      writable_def polite_def)

lemma executing_query:
  "fst (run_command sample_env (ExecuteQuery sql)
      (ending_transport (executing_bytes @ executing_bytes @ sample_bytes (enc_envelope [PRowCount 5])))) = Ready (Inr (QueryReply (QRowCount 5)))"
proof -
  let ?still = "sample_reply (enc_envelope [PStillExecuting])" and ?count = "sample_reply (enc_envelope [PRowCount 5])"
  have ok: "list_all (reply_ok sample_native) ([?still, ?still] @ [?count])"
    by (simp add: sample_facts(4)) (simp add: enc_envelope_def)
  have "final_reply sample_native ([?still, ?still] @ [?count]) (RowCount 5)"
    by (rule envelope_final_reply [OF sound_sample ok, of "[PRowCount 5]"]) (simp_all add: sample_reply_def terminals_of_def)
  moreover have "serves vernam Encryptor_new (as_bytes sql) ([?still, ?still] @ [?count])
      (executing_bytes @ executing_bytes @ sample_bytes (enc_envelope [PRowCount 5])) Encryptor_new"
    using sample_facts(3) by (simp add: serves_def server_sends_def seal_def unseal_def is_active_def Encryptor_new_def)
  ultimately obtain t' where "execute_query sample_env sql
      (ending_transport (executing_bytes @ executing_bytes @ sample_bytes (enc_envelope [PRowCount 5]))) = (Ready (Inr (QRowCount 5)), t')"
    using execute_query_answered [OF ending_facts(1) sample_session(1) ending_facts(2),
      where sql = sql and replies = "[?still, ?still] @ [?count]" and srv' = Encryptor_new and response = "RowCount 5"]
    by (fastforce simp: sample_facts(5,6) accepted_def native_result_to_query_result_def)
  then show ?thesis by (simp add: abind_def act_eval)
qed

theorem commands_return_witness:
  "fst (run_command sample_env (ExecuteQuery ''SELECT 1'')
      (ending_transport (executing_bytes @ executing_bytes @ sample_bytes (enc_envelope [PRowCount 5])))) = Ready (Inr (QueryReply (QRowCount 5)))
    \<and> (\<exists>r. fst (run_command sample_env (ExecuteQuery ''SELECT 1'') (ending_transport (executing_bytes @ executing_bytes))) = Ready r
      \<and> r \<noteq> Inl Diverged)"
  using executing_query commands_return [OF live_sample_profile ending_facts(3), of "ExecuteQuery ''SELECT 1''" "executing_bytes @ executing_bytes"]
    ending_facts(4) [of "executing_bytes @ executing_bytes"]
  by fastforce

text \<open>An exception that the server sends in answer to a query is returned as an error with
  its message and SQL state, and no result set is remembered.\<close>

theorem query_exception:
  assumes "conn_state t = Authenticated" "stream_cipher (te_cipher E)" "facing srv (bytes @ rest) t"
    and "serves (te_cipher E) srv (as_bytes sql) replies bytes srv'"
    and "final_reply (te_native E) replies (Exception message sql_state)"
  shows "\<exists>t'. execute_query E sql t = (Ready (fail (ProtocolError (message @ '' (SQL state: '' @ sql_state @ '')''))), t')
    \<and> facing srv' rest t' \<and> nt_result_columns t' = nt_result_columns t \<and> nt_fetch_positions t' = nt_fetch_positions t"
  using execute_query_answered [OF assms] received_facing by (auto simp: accepted_def sql_error_def)

theorem query_exception_witness:
  "\<exists>t'. execute_query sample_env ''SELECT'' (sample_transport (sample_bytes (enc_envelope [PException sample_warning])))
    = (Ready (fail (ProtocolError ''late (SQL state: 01000)'')), t')"
proof -
  let ?body = "enc_envelope [PException sample_warning]"
  have "final_reply sample_native [sample_reply ?body] (Exception ''late'' ''01000'')"
    using sample_result_ok(2) sample_sizes(3)
    by (intro sample_final_reply) (simp_all add: terminals_of_def enc_envelope_def, simp add: sample_warning_def)
  then have "final_reply (te_native sample_env) [sample_reply ?body] (Exception ''late'' ''01000'')" by (simp only: sample_facts(6))
  from query_exception [OF sample_facts(1) sample_session(1-3) this] show ?thesis by auto
qed

text \<open>Consecutive fetches ask the server for consecutive rows: each request starts where
  the rows already received end, the batches come back in order, and the recorded position is their sum.\<close>

theorem fetch_consecutive:
  assumes "stream_cipher (te_cipher E)"
    and "conn_state t = Authenticated" "facing srv (bytes @ rest) t" "nt_result_columns t h = Some cols"
    and "nt_fetch_positions t h = Some p" "dialogue (te_cipher E) srv (fetch_dialogue h (server_message_size t) p cs) bytes srv'"
    and "list_all (chunk_ok (te_native E) cols) cs"
    and "0 \<le> sint p" "sint p + sum_list (map (\<lambda>c. sint (ch_rows c)) cs) < 2 ^ 63"
  shows "\<exists>t'. fetch_times E h (length cs) t
      = (Ready (Inr (map (\<lambda>c. arrow_data (to_column_info cols) (ch_batch c) (ch_rows c)) cs)), t')
    \<and> facing srv' rest t' \<and> nt_fetch_positions t' h = Some (p + sum_list (map ch_rows cs))"
  using fetch_times_dialogue [OF assms] by blast

definition sample_chunk :: chunk where
  "sample_chunk = \<lparr>ch_replies = [sample_reply (enc_more_rows (u64_to_le 2 @ enc_columns sample_columns))],
    ch_data = u64_to_le 2 @ enc_columns sample_columns, ch_rows = 2, ch_batch = batch_of 2 sample_columns\<rparr>"

lemma sample_chunk_ok: "chunk_ok sample_native [sample_meta] sample_chunk"
proof -
  have "list_all (column_fits sample_native 2) sample_columns"
    using sample_meta_ok(2) [of sample_native] by (simp add: sample_columns_def)
  then have "parse_fetch_to_record_batch sample_native (u64_to_le (of_nat 2) @ enc_columns sample_columns @ []) (map fst sample_columns)
      = Inr (of_nat 2, batch_of 2 sample_columns)"
    using sound_sample sample_sizes(1)
    by (intro parse_fetch_enc) (simp_all add: sound_env_def sample_columns_def)
  moreover have "length (enc_more_rows (u64_to_le 2 @ enc_columns sample_columns)) < 2 ^ 32"
    using sample_sizes(1) by (simp add: enc_more_rows_def)
  then have "reply_ok sample_native (sample_reply (enc_more_rows (u64_to_le 2 @ enc_columns sample_columns)))"
    by (simp only: sample_facts(4))
  ultimately show ?thesis
    by (simp add: chunk_ok_def sample_chunk_def final_reply_def sample_columns_def sample_reply_def parse_more_rows)
qed

theorem fetch_consecutive_witness:
  "\<exists>t'. fetch_times sample_env 7 1 (sample_transport (sample_bytes (enc_more_rows (u64_to_le 2 @ enc_columns sample_columns)) @ []))
      = (Ready (Inr [arrow_data (to_column_info [sample_meta]) (batch_of 2 sample_columns) 2]), t')
    \<and> nt_fetch_positions t' 7 = Some 6"
proof -
  let ?b = "sample_bytes (enc_more_rows (u64_to_le 2 @ enc_columns sample_columns))"
  have d: "dialogue vernam Encryptor_new (fetch_dialogue 7 s 4 [sample_chunk]) ?b Encryptor_new" for s
    using sample_facts(3) by (auto simp: sample_chunk_def)
  have "nt_result_columns (sample_transport (?b @ [])) 7 = Some [sample_meta]" "nt_fetch_positions (sample_transport (?b @ [])) 7 = Some 4"
    by (simp_all add: sample_transport_def)
  from fetch_consecutive [OF _ sample_facts(1,2) this, of sample_env "[sample_chunk]" Encryptor_new] d sample_chunk_ok stream_cipher_vernam
  obtain t' where "fetch_times sample_env 7 (length [sample_chunk]) (sample_transport (?b @ []))
      = (Ready (Inr (map (\<lambda>c. arrow_data (to_column_info [sample_meta]) (ch_batch c) (ch_rows c)) [sample_chunk])), t')"
    "nt_fetch_positions t' 7 = Some (4 + sum_list (map ch_rows [sample_chunk]))"
    by (auto simp: sample_facts(5,6) sample_chunk_def simp del: fetch_dialogue.simps dialogue.simps fetch_times.simps)
  then show ?thesis by (auto simp: sample_chunk_def simp del: fetch_times.simps)
qed

text \<open>C16: a batch of parameter rows that is split over several messages: the server receives
  the payload of each range in order, and the caller gets the sum of the row counts it answers with.\<close>

theorem batch_row_counts:
  assumes "stream_cipher (te_cipher E)" "conn_state t = Authenticated" "ps_result_columns h = []"
    and "split_parameter_rows (te_json E) h cols (message_limit t) = Inr e" "ep_ranges e \<noteq> []"
    and "facing srv (bytes @ rest) t" "length (ep_ranges e) = length qs"
    and "\<forall>i < length (ep_ranges e). build_range_payload h e (ep_ranges e ! i) = Inr (fst (qs ! i))"
    and "dialogue (te_cipher E) srv qs bytes srv'" "length counts = length qs"
    and "\<forall>i < length qs. final_reply (te_native E) (snd (qs ! i)) (RowCount (counts ! i)) \<and> 0 \<le> sint (counts ! i)"
    and "sum_list (map sint counts) < 2 ^ 63"
  shows "\<exists>t'. execute_prepared_statement E h (Some cols) t = (Ready (Inr (QRowCount (sum_list counts))), t')
    \<and> facing srv' rest t'"
  by (rule execute_prepared_counts [OF assms])

definition small_session :: SessionInfo where
  "small_session = \<lparr>session_id = ''1'', protocol_version = 21, release_version = [], database_name = [],
    product_name = [], max_data_message_size = 67, time_zone = None\<rparr>"

lemma final_row_count: "final_reply sample_native [sample_reply (enc_envelope [PRowCount k])] (RowCount k)"
  by (rule sample_final_reply) (simp_all add: terminals_of_def enc_envelope_def)

lemma sample_payloads:
  "\<exists>a b. build_range_payload sample_handle sample_split \<lparr>rr_rows = (0, 1), rr_bytes = (0, 2)\<rparr> = Inr a
    \<and> build_range_payload sample_handle sample_split \<lparr>rr_rows = (1, 3), rr_bytes = (2, 5)\<rparr> = Inr b"
  by (simp add: build_range_payload_def sample_split_def slice_def)

theorem batch_row_counts_witness:
  "\<exists>t'. execute_prepared_statement sample_env sample_handle (Some [[JBool True, JBool False, JNull]])
      ((sample_transport (sample_bytes (enc_envelope [PRowCount 1]) @ sample_bytes (enc_envelope [PRowCount 2])))
        \<lparr>nt_session := Some small_session\<rparr>) = (Ready (Inr (QRowCount 3)), t')"
proof -
  let ?b = "sample_bytes (enc_envelope [PRowCount 1])" and ?c = "sample_bytes (enc_envelope [PRowCount 2])"
  let ?t = "(sample_transport ((?b @ ?c) @ []))\<lparr>nt_session := Some small_session\<rparr>"
  obtain p q where pq: "build_range_payload sample_handle sample_split \<lparr>rr_rows = (0, 1), rr_bytes = (0, 2)\<rparr> = Inr p"
    "build_range_payload sample_handle sample_split \<lparr>rr_rows = (1, 3), rr_bytes = (2, 5)\<rparr> = Inr q"
    using sample_payloads by blast
  let ?qs = "[(p, [sample_reply (enc_envelope [PRowCount 1])]), (q, [sample_reply (enc_envelope [PRowCount 2])])]"
  have f: "facing Encryptor_new ((?b @ ?c) @ []) ?t" using sample_facts(2) by simp
  have l: "message_limit ?t = 67"
    by (simp add: message_limit_def server_message_size_def small_session_def)
  have s: "split_parameter_rows (te_json sample_env) sample_handle [[JBool True, JBool False, JNull]] (message_limit ?t) = Inr sample_split"
    unfolding l sample_facts(7) by (rule split_sample)
  have d: "dialogue (te_cipher sample_env) Encryptor_new ?qs (?b @ ?c) Encryptor_new"
    using sample_facts(3) unfolding sample_facts(5) by (simp add: exI [of _ ?b]) blast
  have r: "ep_ranges sample_split \<noteq> []" "length (ep_ranges sample_split) = length ?qs"
    "\<forall>i < length (ep_ranges sample_split). build_range_payload sample_handle sample_split (ep_ranges sample_split ! i) = Inr (fst (?qs ! i))"
    using pq by (auto simp: sample_split_def less_Suc_eq)
  have c: "\<forall>i < length ?qs. final_reply (te_native sample_env) (snd (?qs ! i)) (RowCount ([1, 2] ! i)) \<and> 0 \<le> sint ([1, 2 :: i64] ! i)"
    unfolding sample_facts(6) using final_row_count by (auto simp: less_Suc_eq)
  have h: "ps_result_columns sample_handle = []" by (simp add: sample_handle_def PreparedStatementHandle_new_def)
  have a: "conn_state ?t = Authenticated" using sample_facts(1) by simp
  show ?thesis
    using batch_row_counts [OF _ a h s r(1) f r(2,3) d _ c] stream_cipher_vernam by (auto simp: sample_facts(5))
qed

text \<open>Preparing a statement yields the handle the server assigned, one data type and one
  optional name per described parameter, and the described result columns.\<close>

theorem prepare_end_to_end:
  assumes "conn_state t = Authenticated" "stream_cipher (te_cipher E)" "facing srv (bytes @ rest) t"
    and "serves (te_cipher E) srv (as_bytes sql) replies bytes srv'"
    and "final_reply (te_native E) replies (PreparedStatement sh params cols)" "length params < 2 ^ 31"
  shows "\<exists>h t'. create_prepared_statement E sql t = (Ready (Inr h), t') \<and> facing srv' rest t' \<and> ps_handle h = sh
    \<and> sint (num_params h) = int (length params) \<and> parameter_types h = map native_meta_to_data_type params
    \<and> length (parameter_names h) = length params \<and> ps_result_columns h = to_column_info cols"
proof -
  have "sint (of_nat (length params) :: i32) = int (length params)"
    using assms(6) by (simp add: signed_of_nat signed_take_bit_int_eq_self)
  then show ?thesis
    using create_prepared_answered [OF assms(1-5)] received_facing(1)
    by (fastforce simp: prepared_handle_def with_result_columns_def PreparedStatementHandle_new_def)
qed

definition sample_prepared :: "byte list" where
  "sample_prepared = enc_prepared_reply 5 (PResultSet sample_params # map PWarning [sample_warning] @ [PResultSet sample_result])"

lemma sample_prepared_final:
  "final_reply sample_native [sample_reply sample_prepared] (PreparedStatement 5 [sample_meta] [sample_meta])"
proof -
  have "parse_response sample_native sample_prepared
      = Inr \<lparr>warnings = [sample_warning], terminal = PreparedStatement 5 [sample_meta] [sample_meta]\<rparr>"
    using parse_prepared_reply_described [OF sound_sample sample_params_ok(1) sample_result_ok(1) _ sample_params_ok(3,4) _
        sample_reply_size] sample_result_ok(2)
    by (simp add: sample_prepared_def sample_params_ok(5,6) sample_native_def)
  moreover have "length sample_prepared < 2 ^ 32"
    by (simp add: sample_prepared_def enc_prepared_reply_def sample_params_ok(2) sample_sizes)
  then have "reply_ok sample_native (sample_reply sample_prepared)" by (simp only: sample_facts(4))
  ultimately show ?thesis by (simp add: final_reply_def sample_reply_def)
qed

theorem prepare_end_to_end_witness:
  "\<exists>h t'. create_prepared_statement sample_env ''SELECT ?'' (sample_transport (sample_bytes sample_prepared))
    = (Ready (Inr h), t') \<and> ps_handle h = 5 \<and> sint (num_params h) = 1"
  using prepare_end_to_end [where sql = "''SELECT ?''", OF sample_facts(1) sample_session(1-3)
      sample_prepared_final [folded sample_facts(6)]] by auto

text \<open>Asking for the session attributes records exactly the schema the server reports, none
  when it reports none or an empty name.\<close>

theorem schema_refresh:
  assumes "conn_state t = Authenticated" "stream_cipher (te_cipher E)" "facing srv (bytes @ rest) t"
    and "serves (te_cipher E) srv [] replies bytes srv'" "final_reply (te_native E) replies Empty"
  shows "\<exists>t'. refresh_current_schema E t = (Ready (Inr (current_schema t')), t') \<and> facing srv' rest t'
    \<and> current_schema t' = (case attribute_text (sr_attrs (last replies)) ATTR_CURRENT_SCHEMA of
        None \<Rightarrow> None | Some name \<Rightarrow> if name = [] then None else Some name)"
  using refresh_schema_answered [OF assms]
  by (cases "attribute_text (sr_attrs (last replies)) ATTR_CURRENT_SCHEMA")
    (auto simp: current_schema_from_get_attributes_def current_schema_change_def split: if_splits)

definition schema_reply :: server_reply where
  "schema_reply = \<lparr>sr_command = 0, sr_serial = 1,
    sr_attrs = [\<lparr>attr_id = ATTR_CURRENT_SCHEMA, attr_value = AString ''S''\<rparr>], sr_parts = 0, sr_body = []\<rparr>"

lemma schema_final: "final_reply sample_native [schema_reply] Empty"
  by (simp add: final_reply_def schema_reply_def reply_ok_def attr_ok_def attribute_type_def const_defs ascii_evals
      reply_payload_def AttributeSet_serialize_def serialize_attribute_def sample_native_def reference_env_def
      parse_response_def plain_def)

theorem schema_refresh_witness:
  "\<exists>t'. refresh_current_schema sample_env
      (sample_transport (serialize_header (reply_header schema_reply) @ reply_payload schema_reply))
    = (Ready (Inr (Some ''S'')), t')"
proof -
  have "attribute_text (sr_attrs schema_reply) ATTR_CURRENT_SCHEMA = Some ''S''"
    by (simp add: schema_reply_def attribute_text_def AttributeSet_get_def)
  then show ?thesis
    using schema_refresh [OF sample_facts(1) sample_session(1,2,4) schema_final [folded sample_facts(6)]] by auto
qed

section \<open>Statements and their parameters\<close>

text \<open>C20: the final SQL of a statement. The scanner with one byte of look-ahead and the
  replacement of placeholders from right to left do what one pass from left to right does: every
  placeholder outside literals, identifiers and comments is replaced by the literal of its
  parameter. Too few parameters, a parameter that is not bound (the last one is reported) and a
  value without a literal are errors; nothing panics.\<close>

theorem build_sql_one_pass:
  "build_sql T st =
    (if length (st_parameters st) < holes (st_sql st)
     then fail (ParameterBindingError (length (st_parameters st)) ''Not enough parameters bound'')
     else rbind (literals T (st_parameters st) 0 (holes (st_sql st))) (\<lambda>ls. Inr (fill Outside (st_sql st) ls)))
   \<and> graceful (build_sql T st)"
  by (simp only: build_sql_fill [symmetric] graceful_build_sql simp_thms)

text \<open>C19: a bound value cannot change the structure of a statement whose
  placeholders stand free (none after a minus sign or a closing apostrophe, none before an
  apostrophe or another placeholder): read as SQL, the final text is the template with each
  placeholder replaced by its value, a bound string being one literal with exactly its characters.\<close>

theorem bound_values_stay_literals:
  assumes "bind_all ps (Statement_new T template) = Inr st" and "build_sql T st = Inr sql"
    and "separated Outside template"
    and "\<And>f. \<not> f64_not_finite f \<Longrightarrow> number_text (show_f64 T f)"
  shows "events Outside sql =
    fill_events (events Outside template) (map (value_events T) (take (holes template) ps))"
proof -
  have st: "st_sql st = template" "st_parameters st = map Some ps"
    using bind_all_new [OF assms(1)] by simp_all
  show ?thesis using build_sql_events [OF assms(2) _ assms(4)] assms(3) by (simp add: st take_map comp_def)
qed

definition sample_text :: text_env where
  "sample_text = \<lparr>upper_char = (\<lambda>u. u), show_f64 = (\<lambda>_. ''0'')\<rparr>"

definition quote_attack :: string where
  "quote_attack = CHR 0x27 # '' --''"

lemma bound_values_stay_literals_witness:
  "\<exists>st sql. bind_all [PString quote_attack] (Statement_new sample_text ''A=? B'') = Inr st
    \<and> build_sql sample_text st = Inr sql
    \<and> events Outside sql = map Code ''A='' @ literal_events quote_attack @ map Code '' B''"
proof -
  obtain st where st: "bind_all [PString quote_attack] (Statement_new sample_text ''A=? B'') = Inr st"
    by (simp add: bind_all_def bind_parameter_def)
  have "\<exists>sql. build_sql sample_text st = Inr sql"
    using bind_all_new [OF st]
    by (simp add: build_sql_fill holes_def is_hole_def lex_outside_def bound_parameter_def to_sql_literal_def
        sample_text_def quote_attack_def contains_sql_injection_pattern_def to_uppercase_def char_to_uppercase_def
        is_ascii_def to_ascii_uppercase_def injection_patterns_def starts_with_def)
  then obtain sql where sql: "build_sql sample_text st = Inr sql" by blast
  have "events Outside sql =
      fill_events (events Outside ''A=? B'') (map (value_events sample_text) (take (holes ''A=? B'') [PString quote_attack]))"
    by (rule bound_values_stay_literals [OF st sql])
      (simp_all add: is_hole_def lex_outside_def sample_text_def number_text_def)
  then show ?thesis using st sql
    by (simp add: holes_def is_hole_def lex_outside_def emit_outside_def value_events_def)
qed

text \<open>C37: the separation is needed. A negative number bound after a minus sign
  makes the scanner's own line comment of the two signs, so the rest of the line, the opening
  apostrophe of the next value included, is a comment, and what a bound string has after a line
  break is read as SQL and not as a literal.\<close>

theorem negative_literal_opens_comment:
  assumes "sint i < 0" and "\<not> contains_sql_injection_pattern T (newline # text')"
    and "bind_all [PInteger i, PString (newline # text')] (Statement_new T ''SELECT -?,?'') = Inr st"
  shows "\<exists>sql. build_sql T st = Inr sql
    \<and> events Outside sql = map Code ''SELECT '' @ Code newline #
        events Outside (replace_char (CHR 0x27) [CHR 0x27, CHR 0x27] text' @ [CHR 0x27])"
proof -
  let ?esc = "replace_char (CHR 0x27) [CHR 0x27, CHR 0x27] text'"
  let ?sql = "''SELECT -'' @ CHR ''-'' # show_nat (nat (- sint i)) @ CHR '','' # CHR 0x27 # newline # ?esc @ [CHR 0x27]"
  have "build_sql T st = Inr ?sql"
    using bind_all_new [OF assms(3)] assms(1,2)
    by (simp add: build_sql_fill holes_def is_hole_def lex_outside_def bound_parameter_def to_sql_literal_def
        show_int_def quoted_def replace_char_def)
  moreover have "newline \<notin> set (show_nat (nat (- sint i)))"
    using show_nat_digits [of "nat (- sint i)"] by (auto simp: list_all_iff is_ascii_digit_def)
  then have "events Outside ?sql = map Code ''SELECT '' @ Code newline # events Outside (?esc @ [CHR 0x27])"
    by (simp add: emit_outside_def lex_outside_def events_line)
  ultimately show ?thesis by blast
qed

lemma negative_literal_opens_comment_witness:
  "\<exists>st sql. bind_all [PInteger (- 1), PString (newline # ''OR 1=1'')] (Statement_new sample_text ''SELECT -?,?'') = Inr st
    \<and> build_sql sample_text st = Inr sql
    \<and> events Outside sql = map Code ''SELECT '' @ Code newline # map Code ''OR 1=1'' @ [Open Single]"
proof -
  obtain st where st: "bind_all [PInteger (- 1), PString (newline # ''OR 1=1'')]
      (Statement_new sample_text ''SELECT -?,?'') = Inr st"
    by (simp add: bind_all_def bind_parameter_def)
  have "\<not> contains_sql_injection_pattern sample_text (newline # ''OR 1=1'')"
    by (simp add: sample_text_def contains_sql_injection_pattern_def to_uppercase_def char_to_uppercase_def
        is_ascii_def to_ascii_uppercase_def injection_patterns_def starts_with_def)
  from negative_literal_opens_comment [OF _ this st] show ?thesis
    using st by (auto simp: replace_char_def emit_outside_def lex_outside_def)
qed

section \<open>Connections and result sets\<close>

definition sample_results :: result_env where
  "sample_results = \<lparr>re_overflow_checks = True, re_type_json = (\<lambda>_. ''type''), re_json_text = (\<lambda>_. ''json''),
    re_as_f64 = (\<lambda>_. None), re_float_to_decimal = (\<lambda>_ _. 0), re_type_text = (\<lambda>_. ''type''),
    re_decimal_type = (\<lambda>_ _. Inr ()),
    re_try_new = (\<lambda>rows fs cols. case rows of
        Some n \<Rightarrow> Inr \<lparr>rb_fields = fs, rb_columns = cols, rb_num_rows = n\<rparr>
      | None \<Rightarrow> if cols = [] then Inl ''no columns''
          else Inr \<lparr>rb_fields = fs, rb_columns = cols, rb_num_rows = length (hd cols)\<rparr>),
    re_max_pages = 0\<rparr>"

lemma sample_results_documented: "batches_documented sample_results"
  by (auto simp: batches_documented_def sample_results_def split: option.splits if_splits)

definition date_field :: Field where
  "date_field = \<lparr>field_name = ''D'', field_type = Date32, field_nullable = True\<rparr>"

definition first_page :: RecordBatch where
  "first_page = \<lparr>rb_fields = [date_field], rb_columns = [replicate 4 None], rb_num_rows = 4\<rparr>"

definition sample_data :: "i64 \<Rightarrow> ResultData" where
  "sample_data n = arrow_data (to_column_info [sample_meta]) first_page n"

definition sample_schema :: "MetaField list" where
  "sample_schema = (case build_schema (re_type_json sample_results) (to_column_info [sample_meta]) of Inr s \<Rightarrow> s)"

lemma first_page_rows [simp]: "rb_num_rows first_page = 4" "length (rb_fields first_page) = 1"
  by (simp_all add: first_page_def)

lemma sample_data_simps [simp]:
  "payload_num_rows (rd_data (sample_data n)) = 4" "rd_total_rows (sample_data n) = n"
  "rd_data (sample_data n) = PayloadArrow first_page" "rd_columns (sample_data n) = to_column_info [sample_meta]"
  by (simp_all add: sample_data_def arrow_data_def first_page_def)

lemma sample_schema_eq:
  "build_schema (re_type_json sample_results) (rd_columns (sample_data n)) = Inr sample_schema" "length sample_schema = 1"
proof -
  have "native_meta_to_data_type sample_meta = named_type ''DATE''"
    by (simp add: sample_meta_def native_meta_to_data_type_def const_defs)
  then have "\<exists>s. build_schema (re_type_json sample_results) (to_column_info [sample_meta]) = Inr s"
    by (simp add: to_column_info_def build_schema_def exasol_type_of_def named_type_def)
  then show s: "build_schema (re_type_json sample_results) (rd_columns (sample_data n)) = Inr sample_schema"
    by (auto simp: sample_schema_def)
  show "length sample_schema = 1"
    using build_schema_fields(1) [OF s] by (simp add: to_column_info_def)
qed

lemma sample_page:
  "length (rb_fields b) = 1 \<Longrightarrow>
    with_field_metadata sample_results b sample_schema = Inr (with_metadata (map field_metadata sample_schema) b)"
  by (simp add: with_field_metadata_def sample_schema_eq(2) batch_try_new_def) (simp add: sample_results_def with_metadata_def)

definition sample_result_set :: "ResultSetHandle option \<Rightarrow> i64 \<Rightarrow> ResultSet" where
  "sample_result_set h n = Stream h (QueryMetadata_new sample_schema (Some n))
    [with_metadata (map field_metadata sample_schema) first_page] (h = None \<or> n = 4)"

lemma sample_result_set_eq: "from_transport_result sample_results (QResultSet h (sample_data n)) = Inr (sample_result_set h n)"
  using sample_schema_eq(1) [of n] sample_page [OF first_page_rows(2)]
  by (simp add: from_transport_result_def payload_to_record_batch_def sample_result_set_def Let_def)

definition sample_network :: network where
  "sample_network = \<lparr>nw_connect = (\<lambda>_. (None, 0)), nw_set_nodelay = (\<lambda>_. None),
    nw_tls = (\<lambda>io _ _ _. \<lparr>outcome = Ready (Inr io), finish = 0, final = (), cut = ()\<rparr>)\<rparr>"

definition sample_clock :: native_clock where
  "sample_clock = \<lparr>nc_max = 0, nc_connect = 0, nc_login = 0, nc_lag = 0\<rparr>"

definition sample_protocol :: "(byte list \<times> nat) NativeTcpTransport transport_protocol" where
  "sample_protocol = native_protocol sample_env sample_network sample_timing sample_clock"

text \<open>C3: a result set that the server holds, over the encrypted connection. The
  client asks for consecutive rows until the total is reached, hands out the batch of the query and
  one batch per page with exactly the columns the server wrote, in order, and then closes the
  result set on the server and forgets it.\<close>

theorem fetch_all_end_to_end:
  assumes "batches_documented R" "stream_cipher (te_cipher E)"
    and "from_transport_result R (QResultSet (Some h) d) = Inr rs" "build_schema (re_type_json R) (rd_columns d) = Inr schema"
    and "conn_state t = Authenticated" "facing srv (bytes @ bytes' @ rest) t" "nt_result_columns t h = Some cols"
      "nt_fetch_positions t h = Some p"
    and "dialogue (te_cipher E) srv (fetch_dialogue h (server_message_size t) p cs) bytes srv1"
      "list_all (chunk_ok (te_native E) cols) cs" "0 \<le> sint p" "sint p + sum_list (map (\<lambda>c. sint (ch_rows c)) cs) < 2 ^ 63"
    and "list_all2 (\<lambda>c b. with_field_metadata R (ch_batch c) schema = Inr b) cs bs"
      "list_all (\<lambda>c. 0 < rb_num_rows (ch_batch c)) cs" "cs \<noteq> []"
      "int (payload_num_rows (rd_data d) + sum_list (map (\<lambda>c. rb_num_rows (ch_batch c)) cs)) = sint (rd_total_rows d)"
    and "serves (te_cipher E) srv1 (u32_to_le h) replies bytes' srv2" "final_reply (te_native E) replies response"
  shows "\<exists>b t'. fetch_all R (native_protocol E W lt K) rs t = (Ready (Inr (b # bs)), t')
    \<and> rb_num_rows b = payload_num_rows (rd_data d) \<and> map rb_columns bs = map (\<lambda>c. rb_columns (ch_batch c)) cs
    \<and> facing srv2 rest t' \<and> nt_fetch_positions t' h = None \<and> nt_result_columns t' h = None"
  by (rule native_result_set [OF assms])

text \<open>A transport on which the server answers a fetch with the two rows that are missing and then a close.\<close>

abbreviation fetch_bytes :: "byte list" where
  "fetch_bytes \<equiv> sample_bytes (enc_more_rows (u64_to_le 2 @ enc_columns sample_columns))"

abbreviation close_bytes :: "byte list" where
  "close_bytes \<equiv> sample_bytes (enc_envelope [PRowCount 0])"

abbreviation paging_transport :: "(byte list \<times> nat) NativeTcpTransport" where
  "paging_transport \<equiv> sample_transport (fetch_bytes @ close_bytes)"

definition second_page :: ResultBatch where
  "second_page = with_metadata (map field_metadata sample_schema) (ch_batch sample_chunk)"

lemma paging_facts:
  "dialogue (te_cipher sample_env) Encryptor_new
    (fetch_dialogue 7 (server_message_size paging_transport) 4 [sample_chunk]) fetch_bytes Encryptor_new"
  "facing Encryptor_new (fetch_bytes @ close_bytes @ []) paging_transport"
  "list_all (chunk_ok (te_native sample_env) [sample_meta]) [sample_chunk]"
  "final_reply (te_native sample_env) [sample_reply (enc_envelope [PRowCount 0])] (RowCount 0)"
  "nt_result_columns paging_transport 7 = Some [sample_meta]" "nt_fetch_positions paging_transport 7 = Some 4"
  "rb_num_rows (ch_batch sample_chunk) = 2" "length (rb_fields (ch_batch sample_chunk)) = 1" "ch_rows sample_chunk = 2"
proof -
  show "dialogue (te_cipher sample_env) Encryptor_new
      (fetch_dialogue 7 (server_message_size paging_transport) 4 [sample_chunk]) fetch_bytes Encryptor_new"
    using sample_facts(3) by (auto simp: sample_facts(5) sample_chunk_def)
  show "facing Encryptor_new (fetch_bytes @ close_bytes @ []) paging_transport" using sample_facts(2) by simp
  show "list_all (chunk_ok (te_native sample_env) [sample_meta]) [sample_chunk]"
    using sample_chunk_ok by (simp add: sample_facts(6))
  show "final_reply (te_native sample_env) [sample_reply (enc_envelope [PRowCount 0])] (RowCount 0)"
    using final_row_count by (simp only: sample_facts(6))
qed (simp_all add: sample_transport_def sample_chunk_def batch_of_def sample_columns_def)

lemmas paging_premises = sample_results_documented sample_session(1) sample_result_set_eq sample_schema_eq(1) sample_facts(1)
  paging_facts(2) paging_facts(5,6) paging_facts(1,3)

lemma second_page_converts:
  "list_all2 (\<lambda>c b. with_field_metadata sample_results (ch_batch c) sample_schema = Inr b) [sample_chunk] [second_page]"
  using sample_page [OF paging_facts(8)] by (simp add: second_page_def)

lemma paging_fetch_all:
  "\<exists>b t'. fetch_all sample_results sample_protocol (sample_result_set (Some 7) 6) paging_transport
    = (Ready (Inr [b, second_page]), t') \<and> rb_num_rows b = 4"
proof -
  have "\<exists>b t'. fetch_all sample_results sample_protocol (sample_result_set (Some 7) 6) paging_transport = (Ready (Inr (b # [second_page])), t')
    \<and> rb_num_rows b = payload_num_rows (rd_data (sample_data 6))
    \<and> map rb_columns [second_page] = map (\<lambda>c. rb_columns (ch_batch c)) [sample_chunk]
    \<and> facing Encryptor_new [] t' \<and> nt_fetch_positions t' 7 = None \<and> nt_result_columns t' 7 = None"
    unfolding sample_protocol_def
    by (rule native_result_set [OF paging_premises _ _ second_page_converts _ _ _ sample_session(3) paging_facts(4)])
      (simp_all add: paging_facts)
  then show ?thesis by auto
qed

theorem fetch_all_end_to_end_witness:
  "\<exists>b b' t'. fetch_all sample_results sample_protocol (sample_result_set (Some 7) 6)
      (sample_transport (sample_bytes (enc_more_rows (u64_to_le 2 @ enc_columns sample_columns)) @
        sample_bytes (enc_envelope [PRowCount 0])))
    = (Ready (Inr [b, b']), t') \<and> rb_num_rows b = 4 \<and> rb_columns b' = rb_columns (batch_of 2 sample_columns)
    \<and> nt_result_columns t' 7 = None"
proof -
  have "\<exists>b t'. fetch_all sample_results sample_protocol (sample_result_set (Some 7) 6) paging_transport = (Ready (Inr (b # [second_page])), t')
    \<and> rb_num_rows b = payload_num_rows (rd_data (sample_data 6))
    \<and> map rb_columns [second_page] = map (\<lambda>c. rb_columns (ch_batch c)) [sample_chunk]
    \<and> facing Encryptor_new [] t' \<and> nt_fetch_positions t' 7 = None \<and> nt_result_columns t' 7 = None"
    unfolding sample_protocol_def
    by (rule fetch_all_end_to_end [OF paging_premises _ _ second_page_converts _ _ _ sample_session(3) paging_facts(4)])
      (simp_all add: paging_facts)
  then show ?thesis by (auto simp: sample_chunk_def)
qed

text \<open>C8: in a build with overflow checks (the debug profile), with parser fuel for every
  message a 32-bit length can announce, collecting a result set with a known total that its first rows do not exceed
  never spins, whatever the server answers. When it succeeds it has all rows of the total: the batch of the query followed
  by the pages in the order in which the server sent them, each converted whole.\<close>

theorem fetch_all_complete:
  assumes "batches_documented R" "overflow_checks (te_native E)" "re_overflow_checks R" "2 ^ 32 \<le> fuel (te_native E)"
    and "stream_cipher (te_cipher E)" "length (nt_recv_buf t) < 2 ^ 32"
    and "from_transport_result R (QResultSet handle d) = Inr rs" "0 < sint (rd_total_rows d)"
    and "int (payload_num_rows (rd_data d)) \<le> sint (rd_total_rows d)"
  shows "fst (fetch_all R (native_protocol E W lt K) rs t) \<noteq> Ready (Inl Diverged)
    \<and> (\<forall>bs t'. fetch_all R (native_protocol E W lt K) rs t = (Ready (Inr bs), t') \<longrightarrow>
        int (rows_in bs) = sint (rd_total_rows d) \<and> (\<exists>b pages ds schema t1. bs = b # pages
        \<and> rb_num_rows b = payload_num_rows (rd_data d)
        \<and> list_all2 (\<lambda>d b. payload_to_record_batch R (rd_data d) schema = Inr b) ds pages
        \<and> (case handle of None \<Rightarrow> ds = [] \<and> t' = t
           | Some h \<Rightarrow> fetched (native_protocol E W lt K) h ds t t1
               \<and> t' = snd (tp_close_result_set (native_protocol E W lt K) h t1))))"
proof -
  have "native_ready R E t"
    using assms(1-6) by (simp add: native_ready_def live_env_def responsive_def polite_def)
  then show ?thesis
    using native_pages.fetch_all_returns [OF assms(7-9)] native_pages.fetch_all_total [OF assms(7-9)] by blast
qed

theorem fetch_all_complete_witness:
  "\<exists>b b' d t' t1. fetch_all sample_results sample_protocol (sample_result_set (Some 7) 6) paging_transport = (Ready (Inr [b, b']), t')
    \<and> int (rows_in [b, b']) = 6 \<and> rb_num_rows b = 4
    \<and> fetched sample_protocol 7 [d] paging_transport t1 \<and> t' = snd (tp_close_result_set sample_protocol 7 t1)"
proof -
  obtain b t' where run: "fetch_all sample_results sample_protocol (sample_result_set (Some 7) 6) paging_transport
      = (Ready (Inr [b, second_page]), t')" "rb_num_rows b = 4" using paging_fetch_all by blast
  have env: "overflow_checks (te_native sample_env)" "re_overflow_checks sample_results" "2 ^ 32 \<le> fuel (te_native sample_env)"
      "length (nt_recv_buf paging_transport) < 2 ^ 32"
    using live_sample(1) by (simp_all add: live_env_def sample_results_def sample_transport_def NativeTcpTransport_new_def)
  from fetch_all_complete [OF sample_results_documented env(1-3) sample_session(1) env(4) sample_result_set_eq [of "Some 7" 6],
      of sample_network sample_timing sample_clock, folded sample_protocol_def] run(1)
  obtain ds schema t1 where "int (rows_in [b, second_page]) = 6" "fetched sample_protocol 7 ds paging_transport t1"
    "t' = snd (tp_close_result_set sample_protocol 7 t1)"
    and conv: "list_all2 (\<lambda>d b. payload_to_record_batch sample_results (rd_data d) schema = Inr b) ds [second_page]"
    by auto
  moreover from conv obtain d where "ds = [d]" by (cases ds) auto
  ultimately show ?thesis using run by blast
qed

text \<open>C21: for a result set of which the server may hold more, reading it batch by batch
  with the iterator until it ends, on a thread that has entered a runtime, and then closing the handle is the same as
  collecting it: the same batches or the same error, and the same final state of the transport. A result set that
  is complete, or has no handle, gives the iterator the batches it holds and touches no transport; collecting then equals
  that followed by the close, unless the rows do not add up to the total, which only collecting reports. With
  pages to fetch outside a runtime the iterator ends in an error, and in an asynchronous task it panics, both after the
  batches it holds.\<close>

theorem iteration_equals_fetch_all:
  fixes R P handle md batches complete
  defines "rs \<equiv> Stream handle md batches complete"
    and "release \<equiv> (case handle of None \<Rightarrow> areturn () | Some h \<Rightarrow> aignore (tp_close_result_set P h))"
    and "turns \<equiv> length batches + (if 0 < expected_rows md then expected_rows md + 1 else re_max_pages R)"
  shows "\<exists>it. into_iterator rs = Inr it \<and>
    (if handle \<noteq> None \<and> \<not> complete
     then fetch_all R P rs = afinally (iterate_all turns R P EnteredRuntime it) release
     else (\<forall>n t. iterate_all (length batches + Suc n) R P EnteredRuntime it t = (Ready (Inr batches), t)
         \<and> fetch_all R P rs t = (case check_buffered_rows R md batches of
             Inr _ \<Rightarrow> afinally (iterate_all (length batches + Suc n) R P EnteredRuntime it) release t
           | Inl e \<Rightarrow> afinally (alift (Inl e)) release t)))
    \<and> (\<forall>n t. iterate_all (length batches + Suc n) R P NoRuntime it t =
          (Ready (if complete then Inr batches else fail (InvalidState ''No async runtime available'')), t)
        \<and> iterate_all (length batches + Suc n) R P AsyncTask it t =
          (Ready (if complete then Inr batches else Inl Panic), t))"
proof -
  obtain it where it: "into_iterator (Stream handle md batches complete) = Inr it" by (simp add: into_iterator_def)
  note read = iterate_buffered [OF it]
  have "fetch_all R P rs = afinally (iterate_all turns R P EnteredRuntime it) release" if h: "handle = Some h" "\<not> complete" for h
  proof
    fix t
    have "into_iterator (Stream (Some h) md batches False) = Inr it" using it h by simp
    then have "iterate_all turns R P EnteredRuntime it t = paginate_remaining R P h md batches t"
      unfolding turns_def paginate_remaining_def by (rule iterate_paginate)
    then show "fetch_all R P rs t = afinally (iterate_all turns R P EnteredRuntime it) release t"
      using h by (simp add: rs_def release_def fetch_all_def afinally_def)
  qed
  moreover have "fetch_all R P rs t = (case check_buffered_rows R md batches of
      Inr _ \<Rightarrow> afinally (iterate_all (length batches + Suc n) R P EnteredRuntime it) release t
    | Inl e \<Rightarrow> afinally (alift (Inl e)) release t)" if whole: "complete \<or> handle = None" for n t
  proof -
    have "iterate_all (length batches + Suc n) R P EnteredRuntime it t = alift (Inr batches) t"
      using read(1) [of EnteredRuntime n R P t] whole by (auto simp: act_eval)
    then show ?thesis
      using whole by (auto simp: rs_def release_def fetch_all_def afinally_def split: option.splits sum.splits)
  qed
  ultimately show ?thesis
    using it read read(1) [of EnteredRuntime] by (intro exI [of _ it]) (auto simp: rs_def)
qed

theorem iteration_equals_fetch_all_witness:
  "\<exists>it b t'. into_iterator (sample_result_set (Some 7) 6) = Inr it
    \<and> afinally (iterate_all 8 sample_results sample_protocol EnteredRuntime it) (aignore (tp_close_result_set sample_protocol 7)) paging_transport
      = (Ready (Inr [b, second_page]), t')"
proof -
  obtain b t' where run: "fetch_all sample_results sample_protocol (sample_result_set (Some 7) 6) paging_transport
      = (Ready (Inr [b, second_page]), t')" using paging_fetch_all by blast
  have "expected_rows (QueryMetadata_new sample_schema (Some 6)) = 6"
    by (simp add: expected_rows_def QueryMetadata_new_def)
  then show ?thesis
    using iteration_equals_fetch_all [of "Some 7" "QueryMetadata_new sample_schema (Some 6)"
      "[with_metadata (map field_metadata sample_schema) first_page]" False sample_results sample_protocol] run
    by (auto simp: sample_result_set_def)
qed

text \<open>The check of the total has a gap. When the first payload already has more rows than
  the total and the server still holds the result set, collecting succeeds with too many rows.\<close>

theorem fetch_all_overlong:
  assumes "from_transport_result R (QResultSet (Some h) d) = Inr rs" and "batches_documented R"
    and "0 < sint (rd_total_rows d)" "sint (rd_total_rows d) < int (payload_num_rows (rd_data d))"
    and "payload_num_rows (rd_data d) < 2 ^ 63" and "tp_close_result_set P h t = (Ready (Inr ()), t')"
  shows "\<exists>b. fetch_all R P rs t = (Ready (Inr [b]), t') \<and> sint (rd_total_rows d) < int (rb_num_rows b)"
  by (rule overlong_accepted [OF assms])

text \<open>A transport that accepts every call.\<close>

definition accepting_protocol :: "unit transport_protocol" where
  "accepting_protocol = \<lparr>tp_connect = (\<lambda>_. areturn ()), tp_authenticate = (\<lambda>_. areturn small_session),
    tp_execute_query = (\<lambda>_. areturn (QRowCount 0)), tp_fetch_results = (\<lambda>_. athrow (ProtocolError ''no result set'')),
    tp_close_result_set = (\<lambda>_. areturn ()), tp_create_prepared_statement = (\<lambda>_. areturn sample_handle),
    tp_execute_prepared_statement = (\<lambda>_ _. areturn (QRowCount 0)), tp_close_prepared_statement = (\<lambda>_. areturn ()),
    tp_close = areturn (), tp_terminate = id, tp_is_connected = (\<lambda>_. True), tp_set_autocommit = (\<lambda>_. areturn ()),
    tp_set_query_timeout = (\<lambda>_. areturn ()), tp_set_current_schema = (\<lambda>_. areturn ()),
    tp_refresh_current_schema = areturn None, tp_current_schema = (\<lambda>_. None)\<rparr>"

lemma accepting_simps [simp]:
  "tp_connect accepting_protocol ps = areturn ()" "tp_authenticate accepting_protocol creds = areturn small_session"
  "tp_execute_query accepting_protocol sql = areturn (QRowCount 0)" "tp_close_result_set accepting_protocol h = areturn ()"
  "tp_set_autocommit accepting_protocol b = areturn ()" "tp_set_query_timeout accepting_protocol n = areturn ()"
  by (simp_all add: accepting_protocol_def)

theorem fetch_all_overlong_witness:
  "\<exists>b. fetch_all sample_results accepting_protocol (sample_result_set (Some 7) 3) () = (Ready (Inr [b]), ())
    \<and> 3 < int (rb_num_rows b)"
  using fetch_all_overlong [OF sample_result_set_eq [of "Some 7" 3] sample_results_documented, of accepting_protocol "()" "()"]
  by (simp add: act_eval)

definition sample_driver :: driver_env where
  "sample_driver = \<lparr>de_text = sample_text, de_results = sample_results\<rparr>"

definition sample_options :: DriverParams where
  "sample_options = \<lparr>dp_host = ''db'', dp_port = 8563, dp_username = ''sys'', dp_password = ''pw'', dp_schema = None,
    dp_connection_timeout = 0, dp_query_timeout = None, dp_use_tls = True, dp_validate_server_certificate = True,
    dp_certificate_fingerprint = None, dp_client_name = ''c'', dp_client_version = ''1'', dp_transport = None\<rparr>"

definition sample_connection :: "unit traced Connection" where
  "sample_connection = new_connection sample_options small_session ((), [])"

lemma sample_connection_reachable: "conn_reachable sample_driver accepting_protocol sample_connection"
proof -
  have "connect_with_transport (traced accepting_protocol) sample_options ((), []) = Ready (Inr sample_connection)"
    by (simp add: connect_with_transport_def establish_def open_schema_def sample_options_def
        abind_def act_eval amap_err_def quietly_def sample_connection_def)
  then show ?thesis by (rule conn_reachable.opened)
qed

text \<open>It executes every statement on an open connection.\<close>

lemma accepting_executes:
  assumes "can_execute (se_state (co_session c)) \<and> se_query_count (co_session c) = 0" and "build_sql (de_text D) stmt = Inr sql"
  shows "\<exists>c'. execute_statement D (traced accepting_protocol) stmt c = (Ready (Inr (RowCountResult 0)), c')"
proof (cases "target_secs stmt = applied_secs (co_session c)")
  case True
  then show ?thesis using assms
    by (cases "co_transport c") (simp add: execute_statement_def run_statement_def require_ready_def validate_ready_def on_session_def on_transport_def
        increment_query_count_def reconcile_timeout_def finish_statement_def acatch_def abind_def act_eval amap_err_def logging_def
        applied_secs_def from_transport_result_def)
next
  case False
  then show ?thesis using assms
    by (cases "co_transport c") (simp add: execute_statement_def run_statement_def require_ready_def validate_ready_def on_session_def on_transport_def
        increment_query_count_def reconcile_timeout_def finish_statement_def acatch_def abind_def act_eval amap_err_def logging_def
        applied_secs_def from_transport_result_def)
qed

lemma sample_connection_open: "can_execute (se_state (co_session sample_connection)) \<and> se_query_count (co_session sample_connection) = 0"
  by (simp add: sample_connection_def new_connection_def Session_new_def can_execute_def)

text \<open>C6: every statement of a connection runs under its own timeout. When
  it was executed, the last timeout that the server had acknowledged before the query is the
  statement's, in seconds rounded up, and 0 (none) for a statement without one, whatever other
  statements, transactions, failures and prepared statements went before.\<close>

theorem statement_runs_under_its_timeout:
  assumes "conn_reachable D P c" and "execute_statement D (traced P) stmt c = (Ready (Inr rs), c')"
  shows "\<exists>sql l. build_sql (de_text D) stmt = Inr sql \<and> history c' = l @ [QueryCall sql]
    \<and> unat (server_timeout l) = (case st_timeout_ms stmt of None \<Rightarrow> 0 | Some ms \<Rightarrow> (unat ms + 999) div 1000)"
proof -
  obtain r where "run_statement D (traced P) stmt c = (Ready (Inr r), c')"
    using assms(2) by (auto simp: execute_statement_def abind_Ready alift_Ready)
  from run_statement_traced [OF reachable_conn_ok [OF assms(1)] this] show ?thesis
    using target_secs_round [of stmt] by fastforce
qed

definition slow_statement :: Statement where
  "slow_statement = set_timeout 1500 (Statement_new sample_text ''SELECT 1'')"

theorem statement_runs_under_its_timeout_witness:
  "\<exists>rs c' l. execute_statement sample_driver (traced accepting_protocol) slow_statement sample_connection = (Ready (Inr rs), c')
    \<and> history c' = l @ [QueryCall ''SELECT 1''] \<and> unat (server_timeout l) = 2"
proof -
  have sql: "build_sql (de_text sample_driver) slow_statement = Inr ''SELECT 1''"
    by (simp add: build_sql_fill slow_statement_def set_timeout_def Statement_new_def Let_def holes_def is_hole_def lex_outside_def)
  obtain rs c' where run: "execute_statement sample_driver (traced accepting_protocol) slow_statement sample_connection = (Ready (Inr rs), c')"
    using accepting_executes [OF sample_connection_open sql] by blast
  from statement_runs_under_its_timeout [OF sample_connection_reachable run] sql run show ?thesis
    by (auto simp: slow_statement_def set_timeout_def)
qed

text \<open>C7: while a connection is in a transaction the server does not commit on its own.
  A COMMIT or ROLLBACK ends the transaction exactly when the server acknowledged the command with a row count, and then
  succeeds with the command as the last call of the history; in every other case in which it comes back, an acknowledgement
  with a result set among them, it is an error and the connection stays in its transaction. Every other call but closing
  the connection leaves it in its transaction.\<close>

theorem transactions_follow_server:
  assumes "conn_reachable D P c" and "in_transaction c"
    and "(op, cmd) \<in> {(commit D (traced P), ''COMMIT''), (rollback D (traced P), ''ROLLBACK'')}"
    and "op c = (p, c')" and "settled p"
  shows "\<not> server_autocommit (history c)
    \<and> (p = Ready (Inr ()) \<and> \<not> in_transaction c' \<and> (\<exists>l. history c' = l @ [QueryCall cmd])
      \<or> (\<exists>e. p = Ready (fail e)) \<and> in_transaction c')
    \<and> (\<not> in_transaction c' \<longleftrightarrow> (\<exists>n c1.
        run_statement D (traced P) (create_statement D cmd c) c = (Ready (Inr (QRowCount n)), c1)))
    \<and> (\<forall>k. k \<notin> {CallCommit, CallRollback, CallClose} \<longrightarrow> in_transaction (snd (run_call D (traced P) k c)))"
proof -
  have ok: "conn_ok c" by (rule reachable_conn_ok [OF assms(1)])
  then have "\<not> server_autocommit (history c)" using assms(2) by (simp add: conn_ok_def in_transaction_def)
  moreover have "if acknowledged D (traced P) cmd c
    then p = Ready (Inr ()) \<and> \<not> in_transaction c' \<and> (\<exists>l. history c' = l @ [QueryCall cmd])
    else (\<exists>e. p = Ready (fail e)) \<and> in_transaction c'"
    using commit_outcome [OF ok assms(2) _ assms(5)] rollback_outcome [OF ok assms(2) _ assms(5)] assms(3,4) by auto
  ultimately show ?thesis
    using other_calls_stay [OF assms(2)] unfolding acknowledged_def by (auto split: if_splits)
qed

lemma sample_transaction:
  "\<exists>c. conn_reachable sample_driver accepting_protocol c \<and> in_transaction c
    \<and> (\<exists>c'. commit sample_driver (traced accepting_protocol) c = (Ready (Inr ()), c'))"
proof -
  have sql: "build_sql (de_text D) (create_statement D ''COMMIT'' c) = Inr ''COMMIT''" for D and c :: "unit traced Connection"
    using build_sql_plain [OF plain_commands(1) create_statement_sql(1)] plain_commands(2) by simp
  let ?c = "sample_connection\<lparr>co_transport := ((), [AutocommitCall False]),
    co_session := (co_session sample_connection)\<lparr>se_state := SInTransaction, se_in_transaction := True\<rparr>\<rparr>"
  have c: "run_call sample_driver (traced accepting_protocol) CallBegin sample_connection = (True, ?c)" "in_transaction ?c"
    by (simp_all add: finished_def begin_transaction_def ensure_can_begin_transaction_def validate_ready_def can_execute_def
        abind_def act_eval amap_err_def on_transport_def on_session_def logging_def session_begin_cases sample_connection_def
        new_connection_def Session_new_def in_transaction_def)
  obtain c' where "execute_statement sample_driver (traced accepting_protocol) (create_statement sample_driver ''COMMIT'' ?c) ?c
      = (Ready (Inr (RowCountResult 0)), c')"
    using accepting_executes [OF _ sql, of ?c sample_driver] sample_connection_open by (auto simp: can_execute_def)
  moreover from this have "in_transaction c'"
    using steps_byD [OF by_run_statement] c(2)
    by (fastforce simp: execute_statement_def abind_Ready alift_Ready same_session_state_def in_transaction_def)
  ultimately have com: "\<exists>c'. commit sample_driver (traced accepting_protocol) ?c = (Ready (Inr ()), c')"
    using c(2) by (simp add: commit_def execute_update_def execute_statement_update_def abind_def act_eval amap_err_def
        on_session_def session_end_cases in_transaction_def)
  show ?thesis using conn_reachable.called [OF sample_connection_reachable c(1)] c(2) com by blast
qed

theorem transactions_follow_server_witness:
  "\<exists>c c'. in_transaction (snd (run_call sample_driver (traced accepting_protocol) CallBegin c))
    \<and> commit sample_driver (traced accepting_protocol) c = (Ready (Inr ()), c')
    \<and> \<not> in_transaction c' \<and> (\<exists>l. history c' = l @ [QueryCall ''COMMIT''])
    \<and> (\<exists>n c1. run_statement sample_driver (traced accepting_protocol) (create_statement sample_driver ''COMMIT'' c) c
        = (Ready (Inr (QRowCount n)), c1))"
proof -
  obtain c c' where c: "conn_reachable sample_driver accepting_protocol c" "in_transaction c"
    "commit sample_driver (traced accepting_protocol) c = (Ready (Inr ()), c')" using sample_transaction by blast
  from transactions_follow_server [OF c(1,2), where op = "commit sample_driver (traced accepting_protocol)" and cmd = "''COMMIT''", OF _ c(3)] c(3)
  show ?thesis by (intro exI [of _ c] exI [of _ c']) (auto simp del: run_call.simps)
qed

text \<open>C24: the metadata queries of a connection. The text that the server received is
  fixed, with one condition per filter that was given, and read as SQL each filter's value is one
  string literal with exactly the characters of the value, whatever they are.\<close>

theorem metadata_filters_safe:
  assumes "conn_reachable D P c"
    and "(call, pre, conditions, post) \<in>
      {(get_schemas D (traced P) (Some v), schemas_head, filter_events ''SCHEMA_NAME'' (Some v), schemas_order),
       (get_tables D (traced P) catalog schema table, tables_head,
         object_types # filter_events ''ROOT_NAME'' schema @ filter_events ''OBJECT_NAME'' table, tables_order),
       (get_columns D (traced P) catalog schema table column, columns_head @ where_text,
         column_filters catalog schema table column, columns_order)}"
    and "conditions \<noteq> []" and "call c = (Ready (Inr rs), c')"
  shows "\<exists>sql l. history c' = l @ [QueryCall sql]
    \<and> events Outside sql = map Code pre @ join sql_and conditions @ map Code post"
proof -
  have sent: "\<exists>l. history c' = l @ [QueryCall sql]" if "Hole \<notin> set (events Outside sql)" "execute D (traced P) sql c = (Ready (Inr rs), c')" for sql
    by (rule metadata_sent [OF reachable_conn_ok [OF assms(1)] that])
  consider "call = get_schemas D (traced P) (Some v)" "pre = schemas_head" "conditions = filter_events ''SCHEMA_NAME'' (Some v)" "post = schemas_order"
    | "call = get_tables D (traced P) catalog schema table" "pre = tables_head"
      "conditions = object_types # filter_events ''ROOT_NAME'' schema @ filter_events ''OBJECT_NAME'' table" "post = tables_order"
    | "call = get_columns D (traced P) catalog schema table column" "pre = columns_head @ where_text"
      "conditions = column_filters catalog schema table column" "post = columns_order"
    using assms(2) by blast
  then show ?thesis
  proof cases
    case 1
    then have "\<exists>l. history c' = l @ [QueryCall (schemas_sql (Some v))]"
      using sent [OF metadata_no_holes(1)] assms(4) by (simp add: get_schemas_def)
    then show ?thesis using 1(2-4) assms(3) schemas_events [of v] by (auto simp del: join.simps)
  next
    case 2
    then have "\<exists>l. history c' = l @ [QueryCall (tables_sql schema table)]"
      using sent [OF metadata_no_holes(2)] assms(4) by (simp add: get_tables_def)
    then show ?thesis using 2(2-4) assms(3) tables_events [of schema table] by (auto simp del: join.simps)
  next
    case 3
    then have "\<exists>l. history c' = l @ [QueryCall (columns_sql catalog schema table column)]"
      using sent [OF metadata_no_holes(3)] assms(4) by (simp add: get_columns_def)
    then show ?thesis using 3(2-4) assms(3) columns_events [of catalog schema table column] by (auto simp del: join.simps)
  qed
qed

theorem metadata_filters_safe_witness:
  "\<exists>rs c' sql l. get_schemas sample_driver (traced accepting_protocol) (Some quote_attack) sample_connection = (Ready (Inr rs), c')
    \<and> history c' = l @ [QueryCall sql]
    \<and> events Outside sql = map Code schemas_head @ (map Code ''SCHEMA_NAME = '' @ literal_events quote_attack) @ map Code schemas_order"
proof -
  have "build_sql (de_text sample_driver) (create_statement sample_driver (schemas_sql (Some quote_attack)) sample_connection)
      = Inr (schemas_sql (Some quote_attack))"
    by (rule build_sql_metadata [OF metadata_no_holes(1)])
  then obtain rs c' where run: "get_schemas sample_driver (traced accepting_protocol) (Some quote_attack) sample_connection = (Ready (Inr rs), c')"
    using accepting_executes [OF sample_connection_open, of sample_driver "create_statement sample_driver (schemas_sql (Some quote_attack)) sample_connection"]
    by (auto simp: get_schemas_def execute_def)
  have "filter_events ''SCHEMA_NAME'' (Some quote_attack) = [map Code ''SCHEMA_NAME = '' @ literal_events quote_attack]"
    by (simp add: filter_events_def)
  with metadata_filters_safe [OF sample_connection_reachable, of "get_schemas sample_driver (traced accepting_protocol) (Some quote_attack)"
      schemas_head "filter_events ''SCHEMA_NAME'' (Some quote_attack)" schemas_order quote_attack, OF _ _ run] run
  show ?thesis by auto
qed

section \<open>Connection strings\<close>

text \<open>C25: a connection string that is composed of a percent-encoded user name and password,
  a host, a port and an optional schema parses to exactly these parts, with the documented defaults for
  everything else: user name and password may hold any character.\<close>

theorem connection_string_roundtrip:
  assumes "encodes enc S" "iterates S" and "list_all part_char addr" "addr \<noteq> []" and "schema \<noteq> Some []"
    and "\<And>s. schema = Some s \<Longrightarrow> list_all url_char s \<and> CHR ''?'' \<notin> set s \<and> CHR ''@'' \<notin> set s"
    and "user \<noteq> []" "prt \<noteq> 0"
  shows "connection_params_from_str S (compose_url enc user pass addr prt schema) =
    Inr \<lparr>dp_host = addr, dp_port = prt, dp_username = user, dp_password = pass, dp_schema = schema,
      dp_connection_timeout = from_secs 30, dp_query_timeout = None, dp_use_tls = True,
      dp_validate_server_certificate = True, dp_certificate_fingerprint = None, dp_client_name = DRIVER_NAME,
      dp_client_version = se_driver_version S, dp_transport = None\<rparr>"
  by (rule compose_parses [OF assms])

definition letter_encode :: "string \<Rightarrow> string" where
  "letter_encode s = concat (map (\<lambda>c. [char_of (65 + (of_char c :: nat) div 16), char_of (65 + (of_char c :: nat) mod 16)]) s)"

fun letter_decode :: "string \<Rightarrow> string" where
  "letter_decode (a # b # r) = char_of (((of_char a :: nat) - 65) * 16 + ((of_char b :: nat) - 65)) # letter_decode r"
| "letter_decode _ = []"

definition sample_strings :: string_env where
  "sample_strings = \<lparr>se_decode = (\<lambda>s. Inr (letter_decode s)), se_lowercase = (\<lambda>s. s), se_driver_version = ''0.1.0'',
    se_keys = (\<lambda>m. sorted_list_of_set (dom m))\<rparr>"

lemma sample_strings_ok: "encodes letter_encode sample_strings" "iterates sample_strings"
proof -
  have small: "(of_char c :: nat) div 16 < 16" "(of_char c :: nat) mod 16 < 16" for c :: char
    using nat_of_char_less_256 [of c] less_mult_imp_div_less [of "of_char c :: nat" 16 16] by simp_all
  have digit: "of_char (char_of (65 + k) :: char) = (65 + k :: nat)" "part_char (char_of (65 + k))" if "k < 16" for k
  proof -
    show eq: "of_char (char_of (65 + k) :: char) = (65 + k :: nat)" using that by simp
    have "char_of (65 + k) \<noteq> c" if "(of_char c :: nat) < 65 \<or> 81 \<le> (of_char c :: nat)" for c
      using that eq \<open>k < 16\<close> by auto
    then show "part_char (char_of (65 + k))" using that eq by (simp add: part_char_def url_char_def)
  qed
  have m: "(65 + (of_char c :: nat) div 16) mod 256 = 65 + of_char c div 16" for c :: char
    by (rule mod_less) (use small(1) [of c] in linarith)
  have "letter_decode (letter_encode s) = s" for s
    by (induction s) (simp_all add: letter_encode_def m)
  moreover have "list_all part_char (letter_encode s)" for s
    using digit(2) small by (auto simp: letter_encode_def list_all_iff)
  ultimately show "encodes letter_encode sample_strings" by (simp add: encodes_def sample_strings_def)
  show "iterates sample_strings" by (simp add: iterates_def sample_strings_def)
qed

theorem connection_string_roundtrip_witness:
  "map_sum id (\<lambda>ps. (dp_host ps, dp_username ps, dp_password ps, dp_schema ps))
    (connection_params_from_str sample_strings (compose_url letter_encode ''sys'' ''p@:/?'' ''db'' 8563 (Some ''S'')))
    = Inr (''db'', ''sys'', ''p@:/?'', Some ''S'')"
  using connection_string_roundtrip [OF sample_strings_ok, of "''db''" "Some ''S''" "''sys''" 8563 "''p@:/?''"]
  by (simp add: part_char_def url_char_def)

text \<open>C26: the query parameters are kept in a hash map, whose iteration order is not fixed.
  When no two of them name the same setting, the order decides neither whether a connection string is accepted nor its
  parameters. It has no effect on the error either, unless two different parameters are rejected each on its own; then
  every order reports the error of one of the rejected ones.\<close>

theorem query_order_irrelevant:
  assumes "iterates S" "iterates (reordered S f)"
    and "\<And>b params r. prepared_builder S uri u p = Inr (b, params, r) \<Longrightarrow> inj_on setting (dom params)"
  shows "(parse_with_credentials (reordered S f) uri u p = Inr ps \<longleftrightarrow> parse_with_credentials S uri u p = Inr ps)
    \<and> (parse_with_credentials (reordered S f) uri u p = parse_with_credentials S uri u p
      \<or> (\<exists>k k' e e'. k \<noteq> k' \<and> rejects S uri u p k e \<and> rejects S uri u p k' e'
        \<and> parse_with_credentials S uri u p = Inl e \<and> parse_with_credentials (reordered S f) uri u p = Inl e'))"
  using parse_any_order [OF assms(1,2), of uri u p] assms(3) by (auto simp: distinct_settings_def)

definition reversed_keys :: "(string \<rightharpoonup> string) \<Rightarrow> string list" where
  "reversed_keys m = rev (sorted_list_of_set (dom m))"

definition plain_strings :: string_env where
  "plain_strings = sample_strings\<lparr>se_decode := Inr\<rparr>"

lemma plain_strings_ok: "iterates plain_strings" "iterates (reordered plain_strings reversed_keys)"
  by (simp_all add: iterates_def plain_strings_def sample_strings_def reversed_keys_def)

text \<open>The strings below have a user, a host and a query without credentials.\<close>

lemma prepared_short:
  assumes "se_decode S = Inr" and "list_all url_char q" and "parse_pairs S 0 (split_on (CHR ''&'') q) Map.empty = Inr m"
    and "dom m \<inter> credential_keys = {}"
  shows "prepared_builder S (''exasol://u@h?'' @ q) None None =
    Inr (ConnectionBuilder_new\<lparr>cb_host := Some ''h'', cb_port := Some 8563, cb_username := Some ''u'',
      cb_password := Some [], cb_schema := None\<rparr>, m, CHR ''@'' \<in> set q)"
proof -
  have t: "trim (''exasol://u@h?'' @ q) = ''exasol://u@h?'' @ q"
    by (rule trim_url) (use assms(2) in \<open>simp add: url_char_def\<close>)
  have u: "strip_prefix ''exasol://'' (''exasol://u@h?'' @ q) = Some (''u@h'' @ CHR ''?'' # q)"
    by (simp add: strip_prefix_def starts_with_def)
  have o: "split_once (CHR ''?'') (''u@h'' @ CHR ''?'' # q) = Some (''u@h'', q)" by simp
  have "m k = None" if "k \<in> credential_keys" for k using assms(4) that by (auto simp: dom_def)
  then have n: "m ''user'' = None" "m ''username'' = None" "m ''password'' = None" "m ''pass'' = None" "m |` (- credential_keys) = m"
    by (auto simp: credential_keys_def restrict_map_def fun_eq_iff)
  show ?thesis unfolding prepared_builder_def t u parse_error_def option.case rbind.simps Let_def o
    using n assms(1,3)
    by (simp add: parse_query_params_def decode_def rsplit_once_def parse_auth_def parse_host_port_def bracketed_def
        parse_error_def or_default_def Let_def)
qed

lemma parse_short:
  assumes "se_decode S = Inr" and "list_all url_char q" and "parse_pairs S 0 (split_on (CHR ''&'') q) Map.empty = Inr m"
    and "dom m \<inter> credential_keys = {}"
  shows "parse_with_credentials S (''exasol://u@h?'' @ q) None None =
    rbind (apply_keys S (CHR ''@'' \<in> set q) m (se_keys S m) (ConnectionBuilder_new\<lparr>cb_host := Some ''h'', cb_port := Some 8563,
      cb_username := Some ''u'', cb_password := Some [], cb_schema := None\<rparr>)) (build S)"
  by (simp only: parse_prepared prepared_short [OF assms] rbind.simps split_conv apply_query_params_def)

lemma two_keys:
  assumes "iterates S" "a \<noteq> b"
  shows "se_keys S [a \<mapsto> x, b \<mapsto> y] = [a, b] \<or> se_keys S [a \<mapsto> x, b \<mapsto> y] = [b, a]"
proof -
  let ?ks = "se_keys S [a \<mapsto> x, b \<mapsto> y]"
  have ks: "distinct ?ks" "set ?ks = {a, b}" using assms(1) by (auto simp: iterates_def)
  then have "length ?ks = 2" using assms(2) distinct_card [of ?ks] by simp
  then obtain c d where "?ks = [c, d]" by (auto simp: numeral_2_eq_2 length_Suc_conv)
  then show ?thesis using ks by (auto simp: doubleton_eq_iff)
qed

lemmas param_evaluation = apply_query_param_def parse_bool_def parse_timeout_def parse_unsigned_def parse_digits_def to_lowercase_def
  to_ascii_lowercase_def is_ascii_def is_ascii_digit_def digits_val_def digit_val_def

lemmas build_evaluation = build_def ConnectionBuilder_new_def required_def ensure_def or_default_def from_secs_def Let_def

abbreviation sample_pairs :: "string \<rightharpoonup> string" where
  "sample_pairs \<equiv> [''tls'' \<mapsto> ''0'', ''query_timeout'' \<mapsto> ''7'']"

lemma sample_parses: "\<exists>ps. parse_with_credentials plain_strings ''exasol://u@h?tls=0&query_timeout=7'' None None = Inr ps"
  using parse_short [of plain_strings "''tls=0&query_timeout=7''" sample_pairs]
    two_keys [OF plain_strings_ok(1), of "''tls''" "''query_timeout''" "''0''" "''7''"]
  by (auto simp: plain_strings_def decode_def url_char_def credential_keys_def param_evaluation build_evaluation)

theorem query_order_irrelevant_witness:
  "\<exists>ps. parse_with_credentials plain_strings ''exasol://u@h?tls=0&query_timeout=7'' None None = Inr ps
    \<and> parse_with_credentials (reordered plain_strings reversed_keys) ''exasol://u@h?tls=0&query_timeout=7'' None None = Inr ps"
proof -
  obtain b r where prep: "prepared_builder plain_strings ''exasol://u@h?tls=0&query_timeout=7'' None None = Inr (b, sample_pairs, r)"
    using prepared_short [of plain_strings "''tls=0&query_timeout=7''" sample_pairs]
    by (auto simp: plain_strings_def decode_def url_char_def credential_keys_def)
  have inj: "inj_on setting (dom sample_pairs)" by (simp add: setting_def)
  obtain ps where ps: "parse_with_credentials plain_strings ''exasol://u@h?tls=0&query_timeout=7'' None None = Inr ps"
    using sample_parses by blast
  from ps query_order_irrelevant [OF plain_strings_ok, of "''exasol://u@h?tls=0&query_timeout=7''" None None ps] prep inj
  show ?thesis by auto
qed

text \<open>Two keys for one setting are accepted, and the hash map decides: with \<open>tls=1&ssl=0\<close> the
  connection uses TLS exactly when the map happens to yield \<open>tls\<close> last.\<close>

theorem aliases_depend_on_order:
  assumes "iterates S" and "se_decode S = Inr"
  shows "\<exists>ps. connection_params_from_str S ''exasol://u@h?tls=1&ssl=0'' = Inr ps
    \<and> (dp_use_tls ps \<longleftrightarrow> last (se_keys S [''tls'' \<mapsto> ''1'', ''ssl'' \<mapsto> ''0'']) = ''tls'')"
  using parse_short [of S "''tls=1&ssl=0''" "[''tls'' \<mapsto> ''1'', ''ssl'' \<mapsto> ''0'']", OF assms(2)]
    two_keys [OF assms(1), of "''tls''" "''ssl''" "''1''" "''0''"] assms(2)
  by (auto simp: connection_params_from_str_def decode_def url_char_def credential_keys_def param_evaluation build_evaluation)

theorem aliases_depend_on_order_witness:
  "\<exists>ps ps'. connection_params_from_str plain_strings ''exasol://u@h?tls=1&ssl=0'' = Inr ps
    \<and> connection_params_from_str (reordered plain_strings reversed_keys) ''exasol://u@h?tls=1&ssl=0'' = Inr ps'
    \<and> dp_use_tls ps \<and> \<not> dp_use_tls ps'"
proof -
  have "sorted_list_of_set {''tls'', ''ssl''} = [''ssl'', ''tls'']" by (simp add: insert_commute)
  then have "se_keys plain_strings [''tls'' \<mapsto> ''1'', ''ssl'' \<mapsto> ''0''] = [''ssl'', ''tls'']"
    "reversed_keys [''tls'' \<mapsto> ''1'', ''ssl'' \<mapsto> ''0''] = [''tls'', ''ssl'']"
    by (simp_all add: plain_strings_def sample_strings_def reversed_keys_def insert_commute)
  with aliases_depend_on_order [OF plain_strings_ok(1)] aliases_depend_on_order [OF plain_strings_ok(2)] show ?thesis
    by (fastforce simp: plain_strings_def)
qed

text \<open>C36: an unencoded question mark in a password shifts the rest of the password
  into the query, which then holds the at sign of the user information. Whenever the query holds an at sign,
  every error is made of fixed texts, positions and the names of known parameters: nothing of the string, and
  so nothing of a password, is in it.\<close>

theorem connection_errors_redacted:
  assumes "query_of uri = Some q" "CHR ''@'' \<in> set q" and "parse_with_credentials S uri u p = Inl e"
  shows "\<exists>e'. e = Failure e' \<and> public_error S e'"
  using parse_errors_public [OF assms(1,2), of S u p] assms(3) by (simp add: only_public_def)

theorem connection_errors_redacted_witness:
  "\<exists>e. parse_with_credentials plain_strings ''exasol://u:a?secret=b@h'' None None = Inl (Failure e) \<and> public_error plain_strings e"
proof -
  let ?uri = "''exasol://u:a?secret=b@h''"
  have t: "strip_prefix ''exasol://'' (trim ?uri) = Some ''u:a?secret=b@h''"
    using trim_url [of ?uri] by (simp add: url_char_def strip_prefix_def starts_with_def)
  have q: "query_of ?uri = Some ''secret=b@h''" unfolding query_of_def t by simp
  have "prepared_builder plain_strings ?uri None None = fail (ParseError ''Username is required'')"
    unfolding prepared_builder_def t
    by (simp add: parse_error_def parse_query_params_def decode_def plain_strings_def rsplit_once_def Let_def)
  then have "parse_with_credentials plain_strings ?uri None None = fail (ParseError ''Username is required'')"
    by (simp add: parse_prepared)
  with connection_errors_redacted [OF q _ this] show ?thesis by auto
qed

section \<open>Bulk statements\<close>

text \<open>C27: the texts of IMPORT and EXPORT, read as SQL. After the named table or query come fixed words and
  literals only: encoding, separators, null value, address and fingerprint are each one string literal with exactly
  their characters, whatever they are, when the file names hold no apostrophe.\<close>

theorem bulk_values_literals:
  assumes "import_ok q" "reads_outside (target_clause q) v"
    and "export_ok q'" "reads_outside (export_source_clause (eq_source q')) v'"
  shows "events Outside (build_import q) =
      v @ pieces_events (import_source_pieces q @ (if is_parquet q then [] else import_option_pieces q))
    \<and> events Outside (build_export q') = v' @ pieces_events (export_pieces q')"
  by (rule conjI [OF import_events [OF assms(1,2)] export_events [OF assms(3,4)]])

definition sample_import :: ImportQuery where
  "sample_import = import_null_value quote_attack (import_at_address ''h:1'' (ImportQuery_new ''T''))"

definition sample_export :: ExportQuery where
  "sample_export = export_null_value quote_attack (export_at_address ''h:1'' (from_table ''T''))"

lemma pieces_events_literal: "Literal v \<in> set ps \<Longrightarrow> \<exists>x y. w @ pieces_events ps = x @ literal_events v @ y"
  by (auto dest!: split_list) (metis append.assoc)

theorem bulk_values_literals_witness:
  "(\<exists>x y. events Outside (build_import sample_import) = x @ literal_events quote_attack @ y)
    \<and> (\<exists>x y. events Outside (build_export sample_export) = x @ literal_events quote_attack @ y)"
proof -
  have ok: "import_ok sample_import" "export_ok sample_export"
    by (simp_all add: import_ok_def export_ok_def one_char_def sample_import_def sample_export_def ImportQuery_new_def
        import_null_value_def import_at_address_def export_null_value_def export_at_address_def from_table_def with_source_def)
  have reads: "reads_outside (target_clause sample_import) (map Code ''IMPORT INTO T'')"
    "reads_outside (export_source_clause (eq_source sample_export)) (map Code ''EXPORT T'')"
    using reads_outside_plain [of "''IMPORT INTO T''"] reads_outside_plain [of "''EXPORT T''"]
    by (simp_all add: plain_char_def target_clause_def sample_import_def sample_export_def ImportQuery_new_def
        import_null_value_def import_at_address_def export_null_value_def export_at_address_def from_table_def with_source_def
        qualified_name_def)
  have "Literal quote_attack \<in> set (import_option_pieces sample_import)" "Literal quote_attack \<in> set (export_pieces sample_export)"
    "\<not> is_parquet sample_import"
    by (simp_all add: import_option_pieces_def export_pieces_def optional_pieces_def sample_import_def sample_export_def
        ImportQuery_new_def import_null_value_def import_at_address_def export_null_value_def export_at_address_def
        from_table_def with_source_def is_parquet_def)
  then have in_pieces: "Literal quote_attack \<in> set (import_source_pieces sample_import @
      (if is_parquet sample_import then [] else import_option_pieces sample_import))"
    "Literal quote_attack \<in> set (export_pieces sample_export)" by simp_all
  from bulk_values_literals [OF ok(1) reads(1) ok(2) reads(2)] pieces_events_literal [OF in_pieces(1)] pieces_events_literal [OF in_pieces(2)]
  show ?thesis by presburger
qed

text \<open>C38: the file name is the exception. It is put between apostrophes without doubling the apostrophes in
  it, so an apostrophe in a file name ends the literal and what follows is read as SQL.\<close>

theorem file_name_ends_literal:
  assumes "iq_file_entries q = None" "iq_file_name q = a @ CHR 0x27 # b" "reads_outside (target_clause q) v"
    and "CHR 0x27 \<notin> set a" "b \<noteq> []" "hd b \<noteq> CHR 0x27" "first_suffix known_extensions (a @ CHR 0x27 # b) = None"
  shows "events Outside (build_import q) = v @ pieces_events (import_head_pieces q) @ map Code (line_break @ ''FILE '') @
    literal_events a @ events Outside (b @ import_file_extension q @ CHR 0x27 # (if is_parquet q then [] else csv_option_clauses q))"
  by (rule import_breaks_out [OF assms])

theorem file_name_ends_literal_witness:
  "\<exists>x y. events Outside (build_import (import_file_name (CHR ''f'' # CHR 0x27 # '' SKIP = 9'') (ImportQuery_new ''T'')))
    = x @ literal_events ''f'' @ map Code '' SKIP = 9'' @ y"
proof -
  let ?q = "import_file_name (CHR ''f'' # CHR 0x27 # '' SKIP = 9'') (ImportQuery_new ''T'')"
  have q: "iq_file_entries ?q = None" "iq_file_name ?q = ''f'' @ CHR 0x27 # '' SKIP = 9''"
    by (simp_all add: import_file_name_def ImportQuery_new_def)
  have t: "reads_outside (target_clause ?q) (map Code ''IMPORT INTO T'')"
    using reads_outside_plain [of "''IMPORT INTO T''"]
    by (simp add: plain_char_def target_clause_def import_file_name_def ImportQuery_new_def)
  have ext: "first_suffix known_extensions (''f'' @ CHR 0x27 # '' SKIP = 9'') = None"
    by (simp add: known_extensions_def strip_suffix_def)
  have side: "CHR 0x27 \<notin> set ''f''" "'' SKIP = 9'' \<noteq> []" "hd '' SKIP = 9'' \<noteq> CHR 0x27" by simp_all
  have plain: "list_all plain_char '' SKIP = 9''" by (simp add: plain_char_def)
  show ?thesis
    unfolding file_name_ends_literal [OF q t side ext] events_plain_chars [OF plain]
    by (intro exI [of _ "map Code ''IMPORT INTO T'' @ pieces_events (import_head_pieces ?q) @ map Code (line_break @ ''FILE '')"] exI)
      (simp only: append.assoc)
qed

section \<open>Schema inference\<close>

text \<open>C28: the schema inferred from several CSV or Parquet files. Each column has the least type, in the
  order of widening, that is above the type of the column in every file, it is nullable when it is in one of them,
  and every order of the files gives the same types.\<close>

theorem schema_is_least:
  assumes "set paths' = set paths"
  shows "(infer_schema_from_csv_files E paths opts = Inr sch \<longrightarrow> least_schema (csv_file_columns E opts) paths sch
      \<and> (\<exists>new. infer_schema_from_csv_files E paths' opts = Inr new \<and> same_types sch new))
    \<and> (infer_schema_from_parquet_files E paths mode = Inr sch \<longrightarrow> least_schema (parquet_file_columns E mode) paths sch
      \<and> (\<exists>new. infer_schema_from_parquet_files E paths' mode = Inr new \<and> same_types sch new))"
  using merged_schema [OF csv_files_typed _ assms, of E opts sch] merged_schema [OF parquet_files_typed _ assms, of E mode sch]
  by (auto simp: infer_csv_files_iff infer_parquet_files_iff)

definition sample_fields :: "string \<Rightarrow> SourceField list" where
  "sample_fields path = [\<lparr>sf_name = ''a b'', sf_type = (if path = ''f'' then SInt64 else SFloat64), sf_nullable = (path = ''g'')\<rparr>]"

definition sample_files :: infer_env where
  "sample_files = \<lparr>ie_show_type = (\<lambda>_. ''T''), ie_is_key_type = (\<lambda>_. True),
    ie_open = (\<lambda>path. Inr (if path = ''f'' then [0] else [1])),
    ie_csv_schema = (\<lambda>fmt content limit. Inr (sample_fields (if content = [0] then ''f'' else ''g''), 1)),
    ie_parquet_schema = (\<lambda>content. Inr (sample_fields (if content = [0] then ''f'' else ''g'')))\<rparr>"

lemmas sample_inference = sample_files_def sample_fields_def infer_schema_from_csv_files_def csv_file_columns_def open_file_def
  build_csv_format_def csv_schema_to_columns_def csv_column_def arrow_to_exasol_def widen_column_def widen_type_def
  infer_schema_from_parquet_files_def parquet_file_schema_def CsvInferenceOptions_default_def Let_def

definition sample_merged :: InferredTableSchema where
  "sample_merged = \<lparr>is_columns = [\<lparr>ic_original_name = ''a b'', ic_ddl_name = quote_column_name ''a b'',
    ic_exasol_type = EDouble, ic_nullable = True\<rparr>], is_source_files = [''f'', ''g'']\<rparr>"

lemma sample_merged_csv: "infer_schema_from_csv_files sample_files [''f'', ''g''] CsvInferenceOptions_default = Inr sample_merged"
  by (simp add: sample_inference sample_merged_def format_column_name_def)

lemma sample_merged_parquet: "infer_schema_from_parquet_files sample_files [''f'', ''g''] QuotedNames = Inr sample_merged"
  by (simp add: sample_inference sample_merged_def format_column_name_def)

theorem schema_is_least_witness:
  "least_schema (csv_file_columns sample_files CsvInferenceOptions_default) [''f'', ''g''] sample_merged
    \<and> (\<exists>new. infer_schema_from_parquet_files sample_files [''g'', ''f''] QuotedNames = Inr new \<and> same_types sample_merged new)"
  using schema_is_least [of "[''g'', ''f'']" "[''f'', ''g'']" sample_files CsvInferenceOptions_default sample_merged QuotedNames]
    sample_merged_csv sample_merged_parquet by auto

text \<open>C30: when the widened type of two decimal types has every value of both: exactly when the
  larger number of integer digits and the larger scale fit into the larger precision. Precision and scale are
  each the larger of the two, so the widened type may lose integer digits.\<close>

theorem widened_decimals_hold:
  assumes "inferable (EDecimal p s)" "inferable (EDecimal p' s')"
  shows "(\<forall>v. decimal_value (EDecimal p s) v \<or> decimal_value (EDecimal p' s') v \<longrightarrow>
      decimal_value (widen_type (EDecimal p s) (EDecimal p' s')) v)
    \<longleftrightarrow> max (int p - s) (int p' - s') + max s s' \<le> int (max p p')"
  by (rule widened_decimals [OF assms])

theorem widened_decimals_hold_witness:
  "\<exists>t t'. arrow_to_exasol sample_files SInt32 = Inr t \<and> arrow_to_exasol sample_files (SDecimal128 18 10) = Inr t'
    \<and> (\<exists>v. (decimal_value t v \<or> decimal_value t' v) \<and> \<not> decimal_value (widen_type t t') v)"
  using widened_decimals_hold [of 18 0 18 10] by (auto simp: arrow_to_exasol_def decimal_to_exasol_def MAX_DECIMAL_PRECISION_def)

text \<open>C29: the CREATE TABLE text of an inferred schema, read as SQL: fixed words, the table name, and for each
  column of the files its name and its type. A quoted name is one quoted identifier with exactly the characters of
  the source name, whatever they are; a sanitized name is an unquoted identifier.\<close>

theorem ddl_names_safe:
  assumes "infer_schema_from_parquet_files E paths mode = Inr sch
      \<or> infer_schema_from_csv_files E paths opts = Inr sch \<and> io_column_name_mode opts = mode"
    and "list_all plain_char table_name" "\<And>s. schema_name = Some s \<Longrightarrow> list_all plain_char s"
  shows "events Outside (to_ddl sch table_name schema_name) = map Code (ddl_head table_name schema_name) @
      join (map Code ('','' @ [newline])) (map (column_events mode) (is_columns sch)) @ map Code ([newline] @ '');'')
    \<and> unquoted_identifier (sanitize_column_name name)"
  using ddl_events [OF assms(2,3)] parquet_formatted csv_formatted assms(1) sanitized_identifier by blast

theorem ddl_names_safe_witness:
  "events Outside (to_ddl sample_merged ''T'' None) = map Code (ddl_head ''T'' None) @ map Code ''    '' @
    identifier_events ''a b'' @ map Code '' DOUBLE'' @ map Code ([newline] @ '');'')"
  using ddl_names_safe [OF disjI1 [OF sample_merged_parquet], of "''T''" None]
  by (simp add: plain_char_def sample_merged_def column_events_def name_events_def)

section \<open>The HTTP tunnel\<close>

text \<open>C11: an export through the open tunnel. Whatever request the database sends, with a
  chunked body or one with a content length, the consumer gets exactly the bytes of the body, in order and in
  pieces that are neither empty nor larger than the limit; then the request is answered with 200, and what
  follows it on the stream is left there. Without compression the decoder writes exactly these bytes to its
  output and counts their line feeds.\<close>

theorem export_tunnel_roundtrip:
  assumes "hc_stream c = TunnelOpen io" "write_outcomes io = []" "list_all url_char path" "path \<noteq> []" "list_all header_ok hs"
    and "inbox io = http_request_bytes Put path hs @ body @ rest" "ready_sink sk"
    and "framed (he_strings H) (request_of (he_strings H) Put path hs) ds body" "appends out w fl"
  shows "\<exists>pieces. handle_export_request H (c, sk) = (Ready (Inr (request_of (he_strings H) Put path hs)),
      (c\<lparr>hc_stream := TunnelOpen (io\<lparr>inbox := rest, outbox := outbox io @ build_ok_response\<rparr>)\<rparr>,
       sk\<lparr>sk_pieces := sk_pieces sk @ pieces\<rparr>))
    \<and> concat pieces = concat ds \<and> list_all (\<lambda>p. p \<noteq> [] \<and> length p \<le> EXPORT_PIECE_MAX_BYTES) pieces
    \<and> (\<exists>s'. write_decoded D w fl pieces Uncompressed s = (Ready (Inr (count_line_feeds (concat ds))), s')
        \<and> out s' = out s @ concat ds)"
proof (rule exI [of _ "concat (map pieces_of ds)"], intro conjI)
  let ?pieces = "concat (map pieces_of ds)"
  show "handle_export_request H (c, sk) = (Ready (Inr (request_of (he_strings H) Put path hs)),
      (c\<lparr>hc_stream := TunnelOpen (io\<lparr>inbox := rest, outbox := outbox io @ build_ok_response\<rparr>)\<rparr>,
       sk\<lparr>sk_pieces := sk_pieces sk @ ?pieces\<rparr>))"
    by (rule export_request_all [OF assms(1-8)])
  show all: "concat ?pieces = concat ds" by (rule concat_pieces_ofs)
  show "list_all (\<lambda>p. p \<noteq> [] \<and> length p \<le> EXPORT_PIECE_MAX_BYTES) ?pieces"
    using pieces_of_size by (fastforce simp: list_all_iff)
  show "\<exists>s'. write_decoded D w fl ?pieces Uncompressed s = (Ready (Inr (count_line_feeds (concat ds))), s') \<and> out s' = out s @ concat ds"
    using write_decoded_all [OF assms(9), of D ?pieces s] unfolding all .
qed

definition sample_http :: http_env where
  "sample_http = \<lparr>he_strings = plain_strings, he_key_pair = Inr ([1], [2]), he_cert_params = Inr (), he_self_signed = Inr,
    he_private_key = Inr, he_single_cert = (\<lambda>_ _. Inr ()), he_sha256 = id, he_base64 = (\<lambda>_. ''x''),
    he_connect = (\<lambda>_. (None, 0)), he_handshake_finish = 0, he_accept = (\<lambda>io. (Some (Inr io), 0)), he_accept_now = 0,
    he_clock_max = 100, he_shutdown = Inr\<rparr>"

definition sample_tunnel :: "byte list \<Rightarrow> HttpTransportClient" where
  "sample_tunnel d = \<lparr>hc_stream = TunnelOpen \<lparr>inbox = d, inbox_end = Some ''eof'', outbox = [], write_outcomes = []\<rparr>,
    hc_internal_addr = ''10.0.0.1:20000'', hc_tls_certificate = None\<rparr>"

definition sample_sink :: sink where
  "sample_sink = \<lparr>sk_pieces = [], sk_open = True, sk_room = None\<rparr>"

definition chunk_headers :: "(string \<times> string) list" where
  "chunk_headers = [(''transfer-encoding'', ''chunked'')]"

lemma chunk_headers_ok: "list_all header_ok chunk_headers" "is_chunked plain_strings (request_of plain_strings Put path chunk_headers)"
proof -
  have "to_lowercase plain_strings ''transfer-encoding'' = ''transfer-encoding''" "to_lowercase plain_strings ''chunked'' = ''chunked''"
    by (simp_all add: to_lowercase_def to_ascii_lowercase_def is_ascii_def)
  then show "is_chunked plain_strings (request_of plain_strings Put path chunk_headers)"
    by (simp add: is_chunked_def request_of_def chunk_headers_def add_header_def contains_def starts_with_def)
  show "list_all header_ok chunk_headers" by (simp add: chunk_headers_def header_ok_def url_char_def)
qed

definition no_decoder :: "unit decoder_env" where
  "no_decoder = \<lparr>de_new = (\<lambda>_. ()), de_read = (\<lambda>_ _ s. (ReadOk [], s)), de_max_blocks = (\<lambda>_. 1)\<rparr>"

lemma vec_appends: "appends id vec_write vec_flush"
  by (simp add: appends_def vec_write_def vec_flush_def)

theorem export_tunnel_roundtrip_witness:
  "\<exists>pieces c' sk' s'. handle_export_request sample_http
      (sample_tunnel (http_request_bytes Put ''/f'' chunk_headers @ chunked [[1, 2], [10]] @ [7]), sample_sink)
        = (Ready (Inr (request_of plain_strings Put ''/f'' chunk_headers)), (c', sk'))
    \<and> sk_pieces sk' = pieces \<and> concat pieces = [1, 2, 10]
    \<and> write_decoded no_decoder vec_write vec_flush pieces Uncompressed [] = (Ready (Inr 1), s') \<and> s' = [1, 2, 10]"
  using export_tunnel_roundtrip [of "sample_tunnel (http_request_bytes Put ''/f'' chunk_headers @ chunked [[1, 2], [10]] @ [7])"
      "\<lparr>inbox = http_request_bytes Put ''/f'' chunk_headers @ chunked [[1, 2], [10]] @ [7], inbox_end = Some ''eof'', outbox = [], write_outcomes = []\<rparr>"
      "''/f''" chunk_headers "chunked [[1, 2], [10]]" "[7]" sample_sink sample_http "[[1, 2], [10]]" id vec_write vec_flush no_decoder "[]"]
    chunk_headers_ok vec_appends
  by (auto simp: sample_tunnel_def sample_sink_def ready_sink_def url_char_def framed_def sendable_def sample_http_def count_line_feeds_def)

text \<open>C12: rows that are imported as CSV. The request of the database is answered with the head of a
  chunked response and a body that decodes to the CSV text of the rows, and reading this text gives back
  exactly the rows, whatever separators, delimiters and line breaks their fields hold.\<close>

theorem csv_import_roundtrip:
  assumes "hc_stream c = TunnelOpen io" "write_outcomes io = []" "list_all url_char path" "path \<noteq> []" "list_all header_ok hs"
    and "inbox io = http_request_bytes Get path hs @ rest" "ready_sink sk"
    and "dialect sep delim" "list_all (\<lambda>row. row \<noteq> [] \<and> list_all is_text row) rows"
  shows "\<exists>body. send_import_response H (as_bytes (csv_text sep delim rs rows)) (c, x) = (Ready (Inr ()),
      (c\<lparr>hc_stream := TunnelOpen (io\<lparr>inbox := rest, outbox := outbox io @ build_chunked_response_headers @ body\<rparr>)\<rparr>, x))
    \<and> (\<forall>peer more. \<exists>pieces. forward_chunked_body (peer\<lparr>inbox := body @ more\<rparr>, sk) =
        (Ready (Inr ()), (peer\<lparr>inbox := more\<rparr>, sk\<lparr>sk_pieces := sk_pieces sk @ pieces\<rparr>))
      \<and> export_rows (concat pieces) sep delim = Inr rows)"
proof (rule exI [of _ "chunked (chunks DEFAULT_BUFFER_SIZE (as_bytes (csv_text sep delim rs rows)))"], intro conjI allI)
  let ?d = "as_bytes (csv_text sep delim rs rows)"
  let ?body = "chunked (chunks DEFAULT_BUFFER_SIZE ?d)"
  show "send_import_response H ?d (c, x) = (Ready (Inr ()),
      (c\<lparr>hc_stream := TunnelOpen (io\<lparr>inbox := rest, outbox := outbox io @ build_chunked_response_headers @ ?body\<rparr>)\<rparr>, x))"
    by (rule send_import_all [OF assms(1-6)])
  have "export_rows ?d sep delim = Inr rows"
    using parse_csv_text [OF assms(8,9), of rs] by (simp add: export_rows_def is_text_def)
  then show "\<exists>pieces. forward_chunked_body (peer\<lparr>inbox := ?body @ more\<rparr>, sk) =
        (Ready (Inr ()), (peer\<lparr>inbox := more\<rparr>, sk\<lparr>sk_pieces := sk_pieces sk @ pieces\<rparr>)) \<and> export_rows (concat pieces) sep delim = Inr rows"
    for peer more
    using decode_body [OF assms(7), of "peer\<lparr>inbox := ?body @ more\<rparr>" ?d more] by auto
qed

lemma comma_dialect: "dialect '','' [CHR 0x22]"
  by (simp add: dialect_def ascii_char is_ascii_def)

definition awkward_rows :: "string list list" where
  "awkward_rows = [[''a,b'', [CHR 0x22], []], [[CHR 0x0A], ''c'', ''d'']]"

lemma awkward_rows_ok: "list_all (\<lambda>row. row \<noteq> [] \<and> list_all is_text row) awkward_rows"
  by (simp add: awkward_rows_def ascii_text is_ascii_def)

theorem csv_import_roundtrip_witness:
  "\<exists>c'. send_import_response sample_http (as_bytes (csv_text '','' [CHR 0x22] CRLF awkward_rows))
      (sample_tunnel (http_request_bytes Get ''/f'' chunk_headers @ []), ()) = (Ready (Inr ()), (c', ()))"
  using csv_import_roundtrip [of "sample_tunnel (http_request_bytes Get ''/f'' chunk_headers @ [])"
      "\<lparr>inbox = http_request_bytes Get ''/f'' chunk_headers @ [], inbox_end = Some ''eof'', outbox = [], write_outcomes = []\<rparr>"
      "''/f''" chunk_headers "[]" sample_sink "'',''" "[CHR 0x22]" awkward_rows sample_http CRLF "()"]
    chunk_headers_ok(1) comma_dialect awkward_rows_ok
  by (auto simp: sample_tunnel_def sample_sink_def ready_sink_def url_char_def)

text \<open>C15: a session of range requests for a Parquet file. Each request is answered in order and
  exactly as the file demands: its size, the whole file, the bytes of the range clamped to the file with their
  lengths and positions, or 400 for a range that is malformed, empty or starts beyond the end; when the database
  closes the connection, the session has succeeded.\<close>

theorem parquet_ranges_exact:
  assumes "hc_stream c = TunnelOpen io" "list_all peer_ok qs" "inbox io = concat (map peer_bytes qs)" "inbox_end io = Some e"
    and "write_outcomes io = []" "src_faults src = []"
  shows "\<exists>pos. handle_parquet_import_requests H (c, src) = (Ready (Inr ()), (c\<lparr>hc_stream := TunnelOpen (io\<lparr>inbox := [],
      outbox := outbox io @ concat (map (\<lambda>q. file_response (src_content src) (peer_request_of (he_strings H) q)) qs)\<rparr>)\<rparr>,
    src\<lparr>src_pos := pos\<rparr>))"
proof -
  obtain pos where "serve_parquet_range_requests (he_strings H) (io, src) = (Ready (Inr ()), (io\<lparr>inbox := [],
      outbox := outbox io @ concat (map (\<lambda>q. file_response (src_content src) (peer_request_of (he_strings H) q)) qs)\<rparr>,
      src\<lparr>src_pos := pos\<rparr>))"
    using serve_session_all [OF assms(2-6)] by blast
  then show ?thesis unfolding handle_parquet_import_requests_def by (intro exI) (rule on_open_step [OF assms(1)])
qed

definition sample_requests :: "peer_request list" where
  "sample_requests = [\<lparr>pr_method = Head, pr_path = ''/f'', pr_headers = []\<rparr>,
    \<lparr>pr_method = Get, pr_path = ''/f'', pr_headers = [(''range'', ''bytes=1-9'')]\<rparr>]"

theorem parquet_ranges_exact_witness:
  "\<exists>c' src'. handle_parquet_import_requests sample_http (sample_tunnel (concat (map peer_bytes sample_requests)),
    \<lparr>src_content = [1, 2, 3], src_pos = 0, src_faults = [], src_eof = ''eof''\<rparr>) = (Ready (Inr ()), (c', src'))"
  using parquet_ranges_exact [of "sample_tunnel (concat (map peer_bytes sample_requests))"
      "\<lparr>inbox = concat (map peer_bytes sample_requests), inbox_end = Some ''eof'', outbox = [], write_outcomes = []\<rparr>"
      sample_requests "''eof''" "\<lparr>src_content = [1, 2, 3], src_pos = 0, src_faults = [], src_eof = ''eof''\<rparr>" sample_http]
  by (auto simp: sample_tunnel_def sample_requests_def peer_ok_def header_ok_def url_char_def)

text \<open>C35: none of the handlers of the tunnel runs for ever. Whatever bytes the peer sends, every loop
  (over the bytes of a line, the headers of a request, the chunks of a body, the requests of a session) ends:
  the bound of its turns, the bytes still to come, is never used up.\<close>

theorem tunnel_never_spins:
  "fst (handle_export_request H (c, sk)) \<noteq> Ready (Inl Diverged)
    \<and> fst (handle_import_request H (c, x)) \<noteq> Ready (Inl Diverged)
    \<and> fst (handle_parquet_import_requests H (c, src)) \<noteq> Ready (Inl Diverged)"
  using export_calm [of H "(c, sk)"] import_calm [of H "(c, x)"] parquet_calm [of H "(c, src)"] by (simp add: calm_def)

section \<open>Arrow batches through CSV\<close>

text \<open>C13: Arrow batches that are written as CSV for an import and read back the way an export reads
  them are the same rows in the same order, whatever the sizes of the batches on either side, for columns of
  truth values, 64-bit integers, dates, decimals and non-empty texts, nulls included.\<close>

theorem arrow_csv_roundtrip:
  assumes "settings_ok E opts (ae_null_value eopts) flds" "list_all (list_all (row_ok E (ae_null_value eopts) flds)) bss"
    and "arrays_documented E" "ae_schema eopts = Some flds" "0 < ae_batch_size eopts"
  shows "\<exists>d rows. record_batches_to_csv E (map (source_batch_of flds) bss) opts = Inr d
    \<and> export_rows d (cw_column_separator opts) (cw_column_delimiter opts) = Inr rows
    \<and> rows_to_record_batches E eopts rows = Inr (map (source_batch_of flds) (chunks (ae_batch_size eopts) (concat bss)))"
proof (intro exI conjI)
  have rows: "list_all (row_ok E (ae_null_value eopts) flds) (concat bss)" using assms(2) by (induction bss) simp_all
  show "record_batches_to_csv E (map (source_batch_of flds) bss) opts = Inr (as_bytes (rows_text E opts flds (concat bss)))"
    by (rule record_batches_csv [OF assms(1,2)])
  show "export_rows (as_bytes (rows_text E opts flds (concat bss))) (cw_column_separator opts) (cw_column_delimiter opts) =
      Inr (map (row_texts E opts flds) (concat bss))"
    by (rule rows_text_parse [OF assms(1) rows])
  show "rows_to_record_batches E eopts (map (row_texts E opts flds) (concat bss)) =
      Inr (map (source_batch_of flds) (chunks (ae_batch_size eopts) (concat bss)))"
    by (rule batches_back [OF assms(1) rows assms(3-5)])
qed

definition array_cells :: "SourceArray \<Rightarrow> nat" where
  "array_cells a = (case a of PlainArray t cs \<Rightarrow> length cs | DictionaryArray k keys vs \<Rightarrow> length keys)"

definition sample_csv :: "(date, unit) csv_env" where
  "sample_csv = \<lparr>ce_chrono = counting_chrono, ce_overflow = True, ce_strings = plain_strings, ce_show_type = (\<lambda>_. ''T''),
    ce_widen = (\<lambda>_. 0), ce_float_text = (\<lambda>_. ''0''), ce_parse_float = (\<lambda>_. Inr 0),
    ce_try_new = (\<lambda>fs cs. Inr \<lparr>sb_fields = fs, sb_columns = cs, sb_num_rows = (case cs of [] \<Rightarrow> 0 | c # _ \<Rightarrow> array_cells c)\<rparr>),
    ce_decimal_type = (\<lambda>_ _. None)\<rparr>"

lemma sample_csv_documented: "arrays_documented sample_csv"
  by (auto simp: arrays_documented_def sample_csv_def array_cells_def neq_Nil_conv list_all2_Cons1)

definition sample_flds :: "SourceField list" where
  "sample_flds = [\<lparr>sf_name = ''n'', sf_type = SDecimal128 9 2, sf_nullable = True\<rparr>, \<lparr>sf_name = ''s'', sf_type = SUtf8, sf_nullable = True\<rparr>]"

lemma default_dialect: "value_dialect '','' [CHR 0x22]"
proof -
  have "\<not> value_char (CHR '','')" "\<not> value_char (CHR 0x22)" by (simp_all add: value_char_def is_ascii_digit_def)
  then show ?thesis using comma_dialect by (auto simp: value_dialect_def)
qed

lemma sample_settings: "settings_ok sample_csv CsvWriterOptions_default None sample_flds"
  using default_dialect chrono_dates_counting
  by (simp add: settings_ok_def sample_flds_def field_ok_def sample_csv_def null_ok_def CsvWriterOptions_default_def
      is_null_value_def is_text_def as_bytes_def needs_quoting_def)

definition sample_cells :: "source_value option list list" where
  "sample_cells = [[Some (VInt (- 5)), Some (VText ''a,b'')], [None, Some (VText [CHR 0x0A])]]"

lemma sample_cells_ok: "list_all (row_ok sample_csv None sample_flds) sample_cells"
proof -
  have "show_decimal (- 5) 2 \<noteq> []" by (simp add: show_decimal_def signed_text_def)
  then show ?thesis
    by (simp add: sample_cells_def row_ok_def sample_flds_def cell_ok_def is_null_value_def ascii_text is_ascii_def)
qed

definition two_per_batch :: ArrowExportOptions where
  "two_per_batch = ArrowExportOptions_default\<lparr>ae_schema := Some sample_flds, ae_batch_size := 2\<rparr>"

theorem arrow_csv_roundtrip_witness:
  "\<exists>d rows. record_batches_to_csv sample_csv [source_batch_of sample_flds sample_cells, source_batch_of sample_flds sample_cells] CsvWriterOptions_default = Inr d
    \<and> export_rows d '','' [CHR 0x22] = Inr rows
    \<and> rows_to_record_batches sample_csv two_per_batch rows = Inr (map (source_batch_of sample_flds) (chunks 2 (sample_cells @ sample_cells)))"
  using arrow_csv_roundtrip [of sample_csv CsvWriterOptions_default two_per_batch sample_flds "[sample_cells, sample_cells]"]
    sample_settings sample_cells_ok sample_csv_documented
  by (simp add: two_per_batch_def ArrowExportOptions_default_def CsvWriterOptions_default_def)

text \<open>A batch of nulls ends the streaming reader early. The rows of a table with one column that
  are null are written as blank lines; when a whole batch of them comes next, the reader of exported data
  answers that there is no more data, with the rest still unread and the end of the data not reached.\<close>

theorem null_rows_end_reader:
  assumes "settings_ok E opts None [f]" "list_all (row_ok E None [f]) rows" "sf_nullable f" "cw_null_value opts = []"
  shows "\<exists>d r'. record_batches_to_csv E [source_batch_of [f] (replicate (ae_batch_size eopts) [None] @ rows)] opts = Inr d
    \<and> next_batch_of_reader E (CsvToArrowReader_new \<lparr>ls_bytes = d, ls_error = None\<rparr> [f] eopts) = (Inr None, r')
    \<and> \<not> ar_finished r' \<and> ls_bytes (ar_source r') = as_bytes (rows_text E opts [f] rows)"
proof -
  let ?all = "replicate (ae_batch_size eopts) [None] @ rows"
  let ?d = "as_bytes (rows_text E opts [f] ?all)"
  let ?r = "CsvToArrowReader_new \<lparr>ls_bytes = ?d, ls_error = None\<rparr> [f] eopts"
  have "list_all (row_ok E None [f]) ?all" using assms(2,3) by (auto simp: list_all_iff row_ok_def cell_ok_def)
  then have csv: "record_batches_to_csv E [source_batch_of [f] ?all] opts = Inr ?d"
    using record_batches_csv [OF assms(1), of "[?all]"] by simp
  have "next_batch_of_reader E ?r = (Inr None, ?r\<lparr>ar_source := (ar_source ?r)\<lparr>ls_bytes := as_bytes (rows_text E opts [f] rows)\<rparr>\<rparr>)"
    by (rule blank_batch) (simp_all add: CsvToArrowReader_new_def null_rows_text [OF assms(4)])
  then show ?thesis using csv by (auto simp: CsvToArrowReader_new_def)
qed

definition one_fld :: SourceField where
  "one_fld = \<lparr>sf_name = ''n'', sf_type = SInt64, sf_nullable = True\<rparr>"

lemma one_fld_settings: "settings_ok sample_csv CsvWriterOptions_default None [one_fld]"
  using sample_settings by (simp add: settings_ok_def one_fld_def field_ok_def)

theorem null_rows_end_reader_witness:
  "\<exists>d r'. record_batches_to_csv sample_csv [source_batch_of [one_fld] (replicate 1024 [None] @ [[Some (VInt 7)]])] CsvWriterOptions_default = Inr d
    \<and> next_batch_of_reader sample_csv (CsvToArrowReader_new \<lparr>ls_bytes = d, ls_error = None\<rparr> [one_fld] ArrowExportOptions_default) = (Inr None, r')
    \<and> \<not> ar_finished r' \<and> ls_bytes (ar_source r') = as_bytes (rows_text sample_csv CsvWriterOptions_default [one_fld] [[Some (VInt 7)]])"
proof -
  have "row_ok sample_csv None [one_fld] [Some (VInt 7)]"
    by (simp add: row_ok_def cell_ok_def one_fld_def in_signed_def is_null_value_def show_int_def)
  then show ?thesis
    using null_rows_end_reader [OF one_fld_settings, of "[[Some (VInt 7)]]" ArrowExportOptions_default]
    by (simp add: CsvWriterOptions_default_def ArrowExportOptions_default_def one_fld_def del: replicate.simps)
qed

subsection \<open>The conversion of JSON results\<close>

text \<open>C14: a table of values reaches the client twice, as the rows that the server writes
  as JSON and as the bytes of a native fetch. Both decode, with as many rows, and for every type but geometries and hash
  values and with nulls. The native columns hold the values themselves; the JSON columns hold the same cells, except that
  a TIMESTAMP WITH LOCAL TIME ZONE is the date and time of the session's zone, so that the columns are equal in a UTC
  session and in a table without such a column. Decimals may be written as texts or as numbers, intervals with any
  sign, padding and fraction. Where the values are also read alike by the result sets, these have the same batch.\<close>

theorem transports_agree:
  assumes "ArrowConverter_new E cols = Inr C" "converter_documented E"
    and "rd_data d = PayloadJson rows" "rows \<noteq> []" "length rows < 2 ^ 31"
    and "table_writes E zone (ac_column_types C) (map snd cs) rows"
    and "cs \<noteq> []" "list_all (column_fits N (length rows)) cs" "ample N" "arrow_documented N"
    and "length (enc_columns cs) + length rest < 2 ^ 58"
  shows "\<exists>b B. convert_to_record_batch E C d = Inr b
    \<and> parse_fetch_to_record_batch N (u64_to_le (of_nat (length rows)) @ enc_columns cs @ rest) (map fst cs)
      = Inr (of_nat (length rows), B)
    \<and> rb_num_rows b = rb_num_rows B
    \<and> rb_columns B = map (\<lambda>(m, vs). map (map_option cell_of) vs) cs
    \<and> rb_columns b = map2 (\<lambda>t (m, vs). map (map_option (session_cell zone t)) vs) (ac_column_types C) cs
    \<and> ((\<forall>m. zone m = 0) \<or> ETimestamp True \<notin> set (ac_column_types C) \<longrightarrow> rb_columns b = rb_columns B)
    \<and> (rows_alike E C rows \<longrightarrow> payload_to_record_batch (result_env.truncate E) (rd_data d) (ac_schema C) = Inr b)"
proof -
  let ?ts = "ac_column_types C"
  have "map snd cs \<noteq> []" using assms(7) by simp
  note json = convert_json_rows [OF assms(1,2,6,4,5) this assms(3)]
  have n: "length rows < 2 ^ 59" using assms(5) by simp
  note native = parse_fetch_enc [OF assms(7-10) n assms(11)]
  have len: "length ?ts = length cs" using assms(6) by (simp add: table_writes_def)
  have cols: "map2 (\<lambda>t. map (map_option (session_cell zone t))) ?ts (map snd cs) =
      map2 (\<lambda>t (m, vs). map (map_option (session_cell zone t)) vs) ?ts cs"
    by (simp add: zip_map2 comp_def case_prod_unfold)
  have same: "map2 (\<lambda>t (m, vs). map (map_option (session_cell zone t)) vs) ?ts cs = map (\<lambda>(m, vs). map (map_option cell_of) vs) cs"
    if "(\<forall>m. zone m = 0) \<or> ETimestamp True \<notin> set ?ts"
  proof (rule nth_equalityI)
    have "session_cell zone t = cell_of" if "t \<in> set ?ts" for t
      using \<open>(\<forall>m. zone m = 0) \<or> ETimestamp True \<notin> set ?ts\<close> that by (intro ext session_cell_utc) auto
    then show "map2 (\<lambda>t (m, vs). map (map_option (session_cell zone t)) vs) ?ts cs ! i = map (\<lambda>(m, vs). map (map_option cell_of) vs) cs ! i"
      if "i < length (map2 (\<lambda>t (m, vs). map (map_option (session_cell zone t)) vs) ?ts cs)" for i
      using that len by (simp add: case_prod_unfold)
  qed (simp add: len)
  have alike: "payload_to_record_batch (result_env.truncate E) (rd_data d) (ac_schema C) = Inr b"
    if "rows_alike E C rows" "convert_to_record_batch E C d = Inr b" for b
    using convert_refines [OF assms(1) _ assms(3,4) that] assms(2,3) by (simp add: converter_documented_def)
  show ?thesis
    unfolding native using json alike [OF _ json] cols same
    by (auto simp: batch_of_def built_column_def comp_def case_prod_unfold)
qed

definition sample_converter :: converter_env where
  "sample_converter = result_env.extend
    (sample_results\<lparr>re_as_f64 := (\<lambda>v. case v of JFloat w \<Rightarrow> Some w | _ \<Rightarrow> None)\<rparr>)
    (converter_env.fields (\<lambda>_. ''json'') (\<lambda>_. None) (\<lambda>_. 0) (\<lambda>_ _. ''0'') (\<lambda>_. True))"

lemma sample_converter_documented: "converter_documented sample_converter" "as_f64_documented sample_converter"
  by (auto simp: converter_documented_def as_f64_documented_def sample_converter_def sample_results_def
      result_env.defs converter_env.defs column_ok_def neq_Nil_conv)

definition sample_infos :: "ColumnInfo list" where
  "sample_infos = [\<lparr>ci_name = ''D'', ci_data_type = named_type ''DATE''\<rparr>]"

definition sample_date_converter :: ArrowConverter where
  "sample_date_converter = \<lparr>ac_schema = [\<lparr>field_name = ''D'', field_type = Date32, field_nullable = True,
      field_metadata = [(''exasol:type'', ''type''), (''exasol:type_name'', ''DATE'')]\<rparr>], ac_column_types = [EDate]\<rparr>"

lemma sample_converter_new: "ArrowConverter_new sample_converter sample_infos = Inr sample_date_converter"
  by (simp add: ArrowConverter_new_def sample_infos_def sample_date_converter_def parse_exasol_type_def named_type_def
      schema_build_def create_field_metadata_def sample_converter_def sample_results_def
      result_env.defs converter_env.defs)

definition sample_json_data :: ResultData where
  "sample_json_data = \<lparr>rd_columns = sample_infos, rd_data = PayloadJson [[JString (iso_date (2024, 2, 29))], [JNull]],
    rd_total_rows = 2\<rparr>"

text \<open>A session one hour ahead of UTC, with a date, a decimal and a timestamp with local time zone.\<close>

definition agree_infos :: "ColumnInfo list" where
  "agree_infos = [\<lparr>ci_name = ''D'', ci_data_type = named_type ''DATE''\<rparr>, \<lparr>ci_name = ''P'', ci_data_type = DataType_decimal 18 2\<rparr>,
    \<lparr>ci_name = ''T'', ci_data_type = named_type ''TIMESTAMP WITH LOCAL TIME ZONE''\<rparr>]"

definition agree_columns :: "(NativeColumnMeta \<times> wire_value option list) list" where
  "agree_columns = [(sample_meta, [Some (WDate (2024, 2, 29)), None]),
    (sample_meta\<lparr>type_id := T_DECIMAL, cm_precision := Some 18, cm_scale := Some 2\<rparr>, [Some (WInt64 150), Some (WInt64 200)]),
    (sample_meta\<lparr>type_id := T_TIMESTAMP_UTC\<rparr>, [None, Some (WTimestamp (2024, 1, 2) 2 4 5 123456000)])]"

definition agree_rows :: "json list list" where
  "agree_rows = [[JString (iso_date (2024, 2, 29)), JString (show_decimal 150 2), JNull],
    [JNull, JPosInt 2, JString (timestamp_text (2024, 1, 2) 3 4 5 123456)]]"

lemma sample_exasol_dates: "exasol_date (2024, 2, 29)" "exasol_date (2024, 1, 2)"
  by (simp_all add: exasol_date_def exasol_year_def valid_date.simps days_in_month_def gregorian_leap_def)

lemma agree_converter:
  obtains C where "ArrowConverter_new sample_converter agree_infos = Inr C"
    "ac_column_types C = [EDate, EDecimal 18 2, ETimestamp True]"
  by (simp add: ArrowConverter_new_def agree_infos_def parse_exasol_type_def named_type_def DataType_decimal_def
      required_attribute_def as_u8_def as_i8_def wrap_signed_def)

lemma timestamp_written:
  assumes "exasol_date d'" "h' < 24" "mi' < 60" "s' < 60" "n' < 1000000000"
    and "micros_of d' h' mi' s' n' = micros_of d h mi s n + (if tz then zone (micros_of d h mi s n) else 0)"
  shows "json_writes E zone (ETimestamp tz) (WTimestamp d h mi s n) (JString (timestamp_text d' h' mi' s' (n' div 1000)))"
  unfolding json_writes.simps using assms by blast

lemma agree_columns_written:
  "column_writes sample_converter zone EDate [Some (WDate (2024, 2, 29)), None] [JString (iso_date (2024, 2, 29)), JNull]"
  "column_writes sample_converter zone (EDecimal 18 2) [Some (WInt64 150), Some (WInt64 200)] [JString (show_decimal 150 2), JPosInt 2]"
  "column_writes sample_converter (\<lambda>_. 3600000000) (ETimestamp True) [None, Some (WTimestamp (2024, 1, 2) 2 4 5 123456000)]
    [JNull, JString (timestamp_text (2024, 1, 2) 3 4 5 123456)]"
proof -
  show "column_writes sample_converter zone EDate [Some (WDate (2024, 2, 29)), None] [JString (iso_date (2024, 2, 29)), JNull]"
    by (simp add: column_writes_def type_ok_def sample_exasol_dates)
  have "json_writes sample_converter zone (EDecimal 18 2) (WInt64 150) (JString (show_decimal 150 2))"
    "json_writes sample_converter zone (EDecimal 18 2) (WInt64 200) (JPosInt 2)"
    by (simp_all add: unscaled_value_def decimal_writes_def)
  then show "column_writes sample_converter zone (EDecimal 18 2) [Some (WInt64 150), Some (WInt64 200)] [JString (show_decimal 150 2), JPosInt 2]"
    unfolding column_writes_def type_ok_def by (simp del: json_writes.simps)
  have "json_writes sample_converter (\<lambda>_. 3600000000) (ETimestamp True) (WTimestamp (2024, 1, 2) 2 4 5 123456000)
      (JString (timestamp_text (2024, 1, 2) 3 4 5 123456))"
    using timestamp_written [of "(2024, 1, 2)" 3 4 5 123456000 "(2024, 1, 2)" 2 4 5 123456000 True "\<lambda>_. 3600000000" sample_converter]
      sample_exasol_dates(2) by (simp add: micros_of_def del: json_writes.simps)
  then show "column_writes sample_converter (\<lambda>_. 3600000000) (ETimestamp True) [None, Some (WTimestamp (2024, 1, 2) 2 4 5 123456000)]
      [JNull, JString (timestamp_text (2024, 1, 2) 3 4 5 123456)]"
    unfolding column_writes_def type_ok_def by (simp del: json_writes.simps)
qed

lemma agree_table:
  "table_writes sample_converter (\<lambda>_. 3600000000) [EDate, EDecimal 18 2, ETimestamp True] (map snd agree_columns) agree_rows"
proof -
  have cols: "column_of agree_rows 0 = [JString (iso_date (2024, 2, 29)), JNull]"
    "column_of agree_rows 1 = [JString (show_decimal 150 2), JPosInt 2]"
    "column_of agree_rows 2 = [JNull, JString (timestamp_text (2024, 1, 2) 3 4 5 123456)]"
    by (simp_all add: column_of_def agree_rows_def)
  have vals: "map snd agree_columns = [[Some (WDate (2024, 2, 29)), None], [Some (WInt64 150), Some (WInt64 200)],
      [None, Some (WTimestamp (2024, 1, 2) 2 4 5 123456000)]]"
    by (simp add: agree_columns_def)
  have nth: "[x, y, z] ! 0 = x" "[x, y, z] ! 1 = y" "[x, y, z] ! 2 = z" for x y z :: 'a by simp_all
  have "column_writes sample_converter (\<lambda>_. 3600000000) ([EDate, EDecimal 18 2, ETimestamp True] ! c)
      (map snd agree_columns ! c) (column_of agree_rows c)" if c: "c < 3" for c
  proof -
    consider "c = 0" | "c = 1" | "c = 2" using c by linarith
    then show ?thesis by cases (simp_all only: cols vals nth agree_columns_written)
  qed
  then show ?thesis by (simp add: table_writes_def) (simp add: agree_rows_def agree_columns_def)
qed

theorem transports_agree_witness:
  "\<exists>C b B. ArrowConverter_new sample_converter agree_infos = Inr C
    \<and> convert_to_record_batch sample_converter C \<lparr>rd_columns = agree_infos, rd_data = PayloadJson agree_rows, rd_total_rows = 2\<rparr> = Inr b
    \<and> parse_fetch_to_record_batch reference_env (u64_to_le 2 @ enc_columns agree_columns) (map fst agree_columns) = Inr (2, B)
    \<and> rb_columns B = [[Some (CDate (days_from_civil (2024, 2, 29))), None], [Some (CDecimal 150), Some (CDecimal 200)],
        [None, Some (CTimestamp (micros_of (2024, 1, 2) 2 4 5 123456000))]]
    \<and> rb_columns b = [[Some (CDate (days_from_civil (2024, 2, 29))), None], [Some (CDecimal 150), Some (CDecimal 200)],
        [None, Some (CTimestamp (micros_of (2024, 1, 2) 3 4 5 123456000))]]
    \<and> payload_to_record_batch (result_env.truncate sample_converter) (PayloadJson agree_rows) (ac_schema C) = Inr b"
proof -
  let ?d = "\<lparr>rd_columns = agree_infos, rd_data = PayloadJson agree_rows, rd_total_rows = 2\<rparr>"
  obtain C where C: "ArrowConverter_new sample_converter agree_infos = Inr C" "ac_column_types C = [EDate, EDecimal 18 2, ETimestamp True]"
    by (rule agree_converter)
  have rows: "rd_data ?d = PayloadJson agree_rows" "agree_rows \<noteq> []" "length agree_rows = 2" by (simp_all add: agree_rows_def)
  have fits: "list_all (column_fits reference_env (length agree_rows)) agree_columns"
    using sample_meta_ok(2) [of reference_env] sample_exasol_dates
    by (simp add: rows(3) agree_columns_def column_fits_def value_ok_def sample_meta_def const_defs)
  have alike: "rows_alike sample_converter C agree_rows"
    by (simp add: rows_alike_def C(2) agree_rows_def column_of_def less_Suc_eq numeral_3_eq_3)
  have size: "length (enc_columns agree_columns) + length ([] :: byte list) < 2 ^ 58"
    by (simp add: enc_columns_def enc_column_def agree_columns_def)
  have table: "table_writes sample_converter (\<lambda>_. 3600000000) (ac_column_types C) (map snd agree_columns) agree_rows"
    using agree_table by (simp add: C(2))
  have env: "ample reference_env" "arrow_documented reference_env" using sound_env_reference by (simp_all add: sound_env_def)
  have ne: "agree_columns \<noteq> []" "length agree_rows < 2 ^ 31" by (simp_all add: agree_columns_def rows(3))
  have cells: "map (\<lambda>(m, vs). map (map_option cell_of) vs) agree_columns = [[Some (CDate (days_from_civil (2024, 2, 29))), None],
      [Some (CDecimal 150), Some (CDecimal 200)], [None, Some (CTimestamp (micros_of (2024, 1, 2) 2 4 5 123456000))]]"
    "map2 (\<lambda>t (m, vs). map (map_option (session_cell (\<lambda>_. 3600000000) t)) vs) (ac_column_types C) agree_columns =
      [[Some (CDate (days_from_civil (2024, 2, 29))), None], [Some (CDecimal 150), Some (CDecimal 200)],
       [None, Some (CTimestamp (micros_of (2024, 1, 2) 3 4 5 123456000))]]"
    by (simp_all add: agree_columns_def C(2) session_cell_def micros_of_def)
  show ?thesis
    using transports_agree [OF C(1) sample_converter_documented(1) rows(1,2) ne(2) table ne(1) fits env size] C(1) alike
    unfolding cells by (auto simp: rows(3))
qed

text \<open>C23: converting the chunks of a result by moving their values equals
  converting them by picking the columns out of the rows, results and errors alike, when no row has fewer values than
  the result has columns.\<close>

theorem owned_conversion_equal:
  assumes "list_all (\<lambda>d. wide_payload (length (ac_column_types C)) (rd_data d)) ds"
  shows "convert_chunks_owned E C ds = convert_chunks E C ds"
  using assms by (induction ds) (simp_all add: convert_chunks_owned_def convert_chunks_def convert_owned_eq)

theorem owned_conversion_equal_witness:
  "convert_chunks_owned sample_converter sample_date_converter [sample_json_data, sample_json_data] =
    convert_chunks sample_converter sample_date_converter [sample_json_data, sample_json_data]"
  using owned_conversion_equal [of sample_date_converter "[sample_json_data, sample_json_data]" sample_converter]
  by (simp add: sample_json_data_def sample_date_converter_def)

text \<open>C22: the converter, which refuses values it cannot read, refines the
  conversion of the result sets, which turns them into nulls: both have the same schema, and a batch that the converter
  accepts is the one a result set has, for all values but texts in DOUBLE columns, fractional numbers and integers beyond
  64 bits in DECIMAL columns, and the values of binary columns.\<close>

theorem converter_refines_result_sets:
  assumes "ArrowConverter_new E cols = Inr C" "as_f64_documented E"
    and "rd_data d = PayloadJson rows" "rows \<noteq> []" "rows_alike E C rows"
    and "convert_to_record_batch E C d = Inr b"
  shows "build_schema (re_type_json E) cols = Inr (ac_schema C)
    \<and> payload_to_record_batch (result_env.truncate E) (rd_data d) (ac_schema C) = Inr b"
  using schemas_agree [OF assms(1)] convert_refines [OF assms] by (simp add: assms(3))

theorem converter_refines_result_sets_witness:
  "\<exists>b. convert_to_record_batch sample_converter sample_date_converter sample_json_data = Inr b
    \<and> build_schema (re_type_json sample_converter) sample_infos = Inr (ac_schema sample_date_converter)
    \<and> payload_to_record_batch (result_env.truncate sample_converter) (rd_data sample_json_data)
        (ac_schema sample_date_converter) = Inr b"
proof -
  have d: "rd_data sample_json_data = PayloadJson [[JString (iso_date (2024, 2, 29))], [JNull]]"
    by (simp add: sample_json_data_def)
  have alike: "rows_alike sample_converter sample_date_converter [[JString (iso_date (2024, 2, 29))], [JNull]]"
    by (simp add: rows_alike_def sample_date_converter_def column_of_def)
  have table: "table_writes sample_converter (\<lambda>_. 0) (ac_column_types sample_date_converter) [[Some (WDate (2024, 2, 29)), None]]
      [[JString (iso_date (2024, 2, 29))], [JNull]]"
    by (simp add: table_writes_def sample_date_converter_def column_of_def column_writes_def type_ok_def sample_exasol_dates)
  obtain b where b: "convert_to_record_batch sample_converter sample_date_converter sample_json_data = Inr b"
    using convert_json_rows [OF sample_converter_new sample_converter_documented(1) table _ _ _ d] by auto
  show ?thesis
    using converter_refines_result_sets [OF sample_converter_new sample_converter_documented(2) d _ alike b] b by auto
qed

text \<open>C39: the documentation gives a HASHTYPE or GEOMETRY value as the bytes of the
  text that the server sends, and the result sets do so. The converter decodes the text: a hash value comes out as other
  bytes, and a text that starts with no hexadecimal digit, such as that of a geometry, is an error.\<close>

theorem binary_texts_decoded:
  assumes "converter_documented E" "t = EGeometry sr \<or> t = EHashtype k" "field_type fld = Binary"
    and "b \<noteq> []" "length b < 2 ^ 31"
    and "s \<noteq> []" "hex_value (hd s) = None" "hd s \<noteq> CHR ''+''" "list_all (\<lambda>c. \<not> utf8_tail (byte_of_char c)) s" "length s \<le> 2 ^ 32"
  shows "build_json_array E t [JString (hex_encode b)] col name = Inr [Some (CBinary b)]
    \<and> json_column_to_array (result_env.truncate E) fld [JString (hex_encode b)] = Inr [Some (CBinary (as_bytes (hex_encode b)))]
    \<and> b \<noteq> as_bytes (hex_encode b)
    \<and> (\<exists>e. build_json_array E t [JString s] col name = fail (ValueConversionFailed e)
        \<and> ve_message e = ''Invalid hex string: '' @ s)
    \<and> json_column_to_array (result_env.truncate E) fld [JString s] = Inr [Some (CBinary (as_bytes s))]"
proof (intro conjI)
  show "build_json_array E t [JString (hex_encode b)] col name = Inr [Some (CBinary b)]"
    using binary_column_one [OF assms(1,2), of "hex_encode b" col name] assms(5)
    by (simp add: length_hex_encode decode_hex_encode)
  have "length (as_bytes (hex_encode b)) \<noteq> length b" using assms(4) by (simp add: as_bytes_def length_hex_encode)
  then show "b \<noteq> as_bytes (hex_encode b)" by metis
  show "\<exists>e. build_json_array E t [JString s] col name = fail (ValueConversionFailed e) \<and> ve_message e = ''Invalid hex string: '' @ s"
    using binary_column_one [OF assms(1,2,10), of col name] decode_hex_refuses [OF assms(7,8,9) refl assms(6)] by simp
qed (simp_all add: json_column_to_array_def json_to_binary_array_def assms(3))

theorem binary_texts_decoded_witness:
  "build_json_array sample_converter (EGeometry None) [JString ''abff''] 0 ''G'' = Inr [Some (CBinary [0xab, 0xff])]
    \<and> (\<exists>e. build_json_array sample_converter (EGeometry None) [JString ''POINT (1 2)''] 0 ''G'' = fail (ValueConversionFailed e))"
proof -
  let ?f = "\<lparr>field_name = ''G'', field_type = Binary, field_nullable = True, field_metadata = []\<rparr>"
  have "hex_encode [0xab, 0xff] = ''abff''" by code_simp
  moreover have "list_all (\<lambda>c. \<not> utf8_tail (byte_of_char c)) ''POINT (1 2)''" "hex_value (CHR ''P'') = None"
    by (simp_all add: utf8_tail_def byte_of_char_def hex_value_def is_ascii_digit_def)
  ultimately show ?thesis
    using binary_texts_decoded [OF sample_converter_documented(1), of "EGeometry None" None 0 ?f "[0xab, 0xff]" "''POINT (1 2)''" 0 "''G''"]
    by auto
qed

end
